(* ===== verification/Go_Prelude.thy ===== *)
theory Go_Prelude
  imports Complex_Main "HOL-Library.AList" "HOL-Library.List_Lexorder" "HOL-Library.Char_ord"
begin

text \<open>
  The part of the Go language and of its standard library that the model uses, and the lemmas
  the component theories share.

  \<^item> Strings are byte strings (\<open>char list\<close>), compared bytewise as Go does. \<open>trim_space\<close>,
    \<open>to_lower\<close> and \<open>equal_fold\<close> are \<open>strings.TrimSpace\<close>, \<open>strings.ToLower\<close> and
    \<open>strings.EqualFold\<close> on ASCII text; bytes above 127 are left as they are (Go would fold
    and trim some non-ASCII runes).
  \<^item> \<open>int\<close> and \<open>int64\<close> are \<open>int\<close> with the range and the wrap-around written out.
  \<^item> \<open>time.Time\<close> is the number of nanoseconds since the zero time, so the zero time is 0;
    \<open>time.Duration\<close> is a number of nanoseconds.
  \<^item> A Go map that the code iterates over is an association list with distinct keys; the order
    of the list is one of the orders Go may choose. A map that is only looked up is a HOL map.
\<close>

section \<open>Shared fact collections\<close>

named_theorems go_str \<open>evaluation and laws of the string functions\<close>
named_theorems go_map \<open>laws of association-list maps\<close>

lemmas go_map_basic [go_map] = update_conv' delete_conv' distinct_update distinct_delete

lemma ifE_Some: "(if c then Some a else r) = Some x \<Longrightarrow>
   (c \<Longrightarrow> x = a \<Longrightarrow> P) \<Longrightarrow> (\<not> c \<Longrightarrow> r = Some x \<Longrightarrow> P) \<Longrightarrow> P"
  by (simp split: if_splits)

lemma ifE_None: "(if c then None else r) = Some x \<Longrightarrow> (\<not> c \<Longrightarrow> r = Some x \<Longrightarrow> P) \<Longrightarrow> P"
  by (simp split: if_splits)

lemma sum_list_pos:
  "xs \<noteq> [] \<Longrightarrow> (\<And>x. x \<in> set xs \<Longrightarrow> 0 < f x) \<Longrightarrow> 0 < sum_list (map f xs :: int list)"
proof (induction xs)
  case (Cons x xs)
  then show ?case by (cases "xs = []") (force simp: add_pos_pos)+
qed simp

lemma sum_list_0_all: "(\<And>x. x \<in> set xs \<Longrightarrow> f x = 0) \<Longrightarrow> sum_list (map f xs) = (0 :: int)"
  by (induction xs) auto

lemma sum_list_lower:
  "(\<And>x. x \<in> set xs \<Longrightarrow> L \<le> f x) \<Longrightarrow> int (length xs) * L \<le> sum_list (map f xs)"
proof (induction xs)
  case (Cons x xs)
  then have "int (length xs) * L \<le> sum_list (map f xs)" "L \<le> f x" by auto
  then show ?case by (simp add: distrib_right)
qed simp

lemma sum_list_upper:
  "(\<And>x. x \<in> set xs \<Longrightarrow> f x \<le> U) \<Longrightarrow> sum_list (map f xs) \<le> int (length xs) * U"
proof (induction xs)
  case (Cons x xs)
  then have "sum_list (map f xs) \<le> int (length xs) * U" "f x \<le> U" by auto
  then show ?case by (simp add: distrib_right)
qed simp

lemma sum_list_member_bound:
  assumes "e \<in> set xs" "\<And>x. x \<in> set xs \<Longrightarrow> L \<le> f x"
  shows "f e + (int (length xs) - 1) * L \<le> sum_list (map f xs)"
proof -
  obtain a b where xs: "xs = a @ e # b" using assms(1) by (meson split_list)
  with assms(2) have "int (length a) * L \<le> sum_list (map f a)" "int (length b) * L \<le> sum_list (map f b)"
    by (auto intro!: sum_list_lower)
  then show ?thesis by (simp add: xs distrib_right)
qed

lemma sum_list_indicator:
  "distinct (map f xs) \<Longrightarrow> p \<in> set xs \<Longrightarrow>
     sum_list (map (\<lambda>e. if f e = f p then c else 0) xs) = (c :: int)"
proof (induction xs)
  case (Cons x xs)
  show ?case
  proof (cases "p = x")
    case True
    have "sum_list (map (\<lambda>e. if f e = f p then c else 0) xs) = 0"
      using Cons.prems True by (intro sum_list_0_all) (auto simp: image_iff)
    with True show ?thesis by simp
  next
    case False
    with Cons have "f x \<noteq> f p" by (auto simp: image_iff)
    with Cons False show ?thesis by simp
  qed
qed simp

text \<open>A sum that reaches its pointwise bound reaches it at every element.\<close>

lemma sum_list_tight:
  assumes "\<And>x. x \<in> set xs \<Longrightarrow> f x \<le> g x" "sum_list (map f xs) = sum_list (map g xs)" "e \<in> set xs"
  shows "f e = (g e :: int)"
proof -
  have "(g e - f e) + (int (length xs) - 1) * 0 \<le> sum_list (map (\<lambda>x. g x - f x) xs)"
    by (rule sum_list_member_bound [OF assms(3)]) (use assms(1) in simp)
  also have "\<dots> = 0" using assms(2) by (simp add: sum_list_subtractf)
  finally show ?thesis using assms(1,3) by fastforce
qed

section \<open>Strings\<close>

definition is_go_space :: "char \<Rightarrow> bool" where
  "is_go_space c \<longleftrightarrow>
     c = CHR 0x09 \<or> c = CHR 0x0A \<or> c = CHR 0x0B \<or> c = CHR 0x0C \<or> c = CHR 0x0D \<or> c = CHR '' ''"

definition trim_left :: "string \<Rightarrow> string" where
  "trim_left s = dropWhile is_go_space s"

definition trim_space :: "string \<Rightarrow> string" where
  "trim_space s = rev (trim_left (rev (trim_left s)))"

definition to_lower_char :: "char \<Rightarrow> char" where
  "to_lower_char c =
     (let n = (of_char c :: nat) in if 65 \<le> n \<and> n \<le> 90 then char_of (n + 32) else c)"

definition to_lower :: "string \<Rightarrow> string" where
  "to_lower s = map to_lower_char s"

definition equal_fold :: "string \<Rightarrow> string \<Rightarrow> bool" where
  "equal_fold a b \<longleftrightarrow> to_lower a = to_lower b"

definition has_prefix :: "string \<Rightarrow> string \<Rightarrow> bool" where
  "has_prefix s p \<longleftrightarrow> take (length p) s = p"

definition has_suffix :: "string \<Rightarrow> string \<Rightarrow> bool" where
  "has_suffix s p \<longleftrightarrow> has_prefix (rev s) (rev p)"

text \<open>\<open>strings.LastIndex\<close> for a one-byte separator; \<open>None\<close> is Go's -1.\<close>

fun last_index :: "char \<Rightarrow> string \<Rightarrow> nat option" where
  "last_index c [] = None"
| "last_index c (x # xs) =
     (case last_index c xs of
        Some i \<Rightarrow> Some (Suc i)
      | None \<Rightarrow> if x = c then Some 0 else None)"

text \<open>\<open>strings.Cut\<close>: the text before and after the first separator, if there is one.\<close>

fun str_cut :: "string \<Rightarrow> string \<Rightarrow> (string \<times> string) option" where
  "str_cut [] sep = (if sep = [] then Some ([], []) else None)"
| "str_cut (x # xs) sep =
     (if has_prefix (x # xs) sep then Some ([], drop (length sep) (x # xs))
      else map_option (\<lambda>(a, b). (x # a, b)) (str_cut xs sep))"

fun str_join :: "string list \<Rightarrow> string \<Rightarrow> string" where
  "str_join [] sep = []"
| "str_join [x] sep = x"
| "str_join (x # xs) sep = x @ sep @ str_join xs sep"

lemma to_lower_char_idem [simp]: "to_lower_char (to_lower_char c) = to_lower_char c"
  by (auto simp: to_lower_char_def Let_def)

lemma to_lower_idem [simp, go_str]: "to_lower (to_lower s) = to_lower s"
  by (simp add: to_lower_def)

lemma length_to_lower [simp]: "length (to_lower s) = length s"
  by (simp add: to_lower_def)

lemma to_lower_Nil [simp]: "to_lower [] = []"
  by (simp add: to_lower_def)

lemma to_lower_eq_Nil [simp]: "to_lower s = [] \<longleftrightarrow> s = []"
  by (simp add: to_lower_def)

lemma to_lower_lit:
  "to_lower ''none'' = ''none''" "to_lower ''auto'' = ''auto''" "to_lower ''minimal'' = ''minimal''"
  "to_lower ''low'' = ''low''" "to_lower ''medium'' = ''medium''" "to_lower ''high'' = ''high''"
  "to_lower ''xhigh'' = ''xhigh''" "to_lower ''max'' = ''max''"
  by code_simp+

lemma equal_fold_refl [simp]: "equal_fold a a"
  by (simp add: equal_fold_def)

lemma equal_fold_sym: "equal_fold a b \<longleftrightarrow> equal_fold b a"
  by (auto simp: equal_fold_def)

lemma equal_fold_trans: "equal_fold a b \<Longrightarrow> equal_fold b c \<Longrightarrow> equal_fold a c"
  by (simp add: equal_fold_def)

lemma equal_fold_to_lower [simp]:
  "equal_fold (to_lower a) b = equal_fold a b" "equal_fold a (to_lower b) = equal_fold a b"
  by (simp_all add: equal_fold_def)

lemma trim_left_Nil [simp]: "trim_left [] = []"
  by (simp add: trim_left_def)

lemma trim_space_Nil [simp]: "trim_space [] = []"
  by (simp add: trim_space_def)

lemma trim_left_first: "trim_left s = [] \<or> \<not> is_go_space (hd (trim_left s))"
  unfolding trim_left_def using hd_dropWhile by blast

lemma trim_left_id: "s = [] \<or> \<not> is_go_space (hd s) \<Longrightarrow> trim_left s = s"
  by (cases s) (auto simp: trim_left_def)

lemma trim_left_suffix: "\<exists>p. s = p @ trim_left s"
  by (metis takeWhile_dropWhile_id trim_left_def)

lemma trim_space_last: "trim_space s = [] \<or> \<not> is_go_space (last (trim_space s))"
  using trim_left_first [of "rev (trim_left s)"]
  by (auto simp: trim_space_def last_rev)

lemma trim_space_first: "trim_space s = [] \<or> \<not> is_go_space (hd (trim_space s))"
proof (cases "trim_space s = []")
  case False
  obtain p where p: "rev (trim_left s) = p @ trim_left (rev (trim_left s))"
    using trim_left_suffix by blast
  then have "trim_left s = trim_space s @ rev p"
    by (metis rev_append rev_rev_ident trim_space_def)
  with False have "hd (trim_left s) = hd (trim_space s)" "trim_left s \<noteq> []"
    by auto
  with trim_left_first [of s] show ?thesis by metis
qed simp

lemma trim_space_id:
  assumes "s = [] \<or> (\<not> is_go_space (hd s) \<and> \<not> is_go_space (last s))"
  shows "trim_space s = s"
  using assms by (auto simp: trim_space_def trim_left_id hd_rev)

lemma trim_space_idem [simp, go_str]: "trim_space (trim_space s) = trim_space s"
  using trim_space_first [of s] trim_space_last [of s] by (intro trim_space_id) auto

lemma trim_space_no_space: "(\<forall>c\<in>set s. \<not> is_go_space c) \<Longrightarrow> trim_space s = s"
  by (cases "s = []") (auto intro: trim_space_id)

lemma is_go_space_to_lower [simp]: "is_go_space (to_lower_char c) = is_go_space c"
proof (cases "65 \<le> (of_char c :: nat) \<and> (of_char c :: nat) \<le> 90")
  case True
  then have "97 \<le> (of_char (to_lower_char c) :: nat)"
    by (auto simp: to_lower_char_def Let_def)
  with True show ?thesis by (auto simp: is_go_space_def)
next
  case False
  then have "to_lower_char c = c"
    by (auto simp: to_lower_char_def Let_def)
  then show ?thesis by simp
qed

lemma trim_left_to_lower: "trim_left (to_lower s) = to_lower (trim_left s)"
  by (simp add: trim_left_def to_lower_def dropWhile_map comp_def)

lemma rev_to_lower: "rev (to_lower s) = to_lower (rev s)"
  by (simp add: to_lower_def rev_map)

lemma trim_space_to_lower [go_str]: "trim_space (to_lower s) = to_lower (trim_space s)"
  by (simp add: trim_space_def trim_left_to_lower rev_to_lower)

lemma has_prefix_append [simp]: "has_prefix (p @ s) p"
  by (simp add: has_prefix_def)

lemma has_prefix_iff: "has_prefix s p \<longleftrightarrow> (\<exists>r. s = p @ r)"
  by (metis append_eq_conv_conj append_take_drop_id has_prefix_def)

lemma has_suffix_iff: "has_suffix s p \<longleftrightarrow> (\<exists>r. s = r @ p)"
  by (metis has_prefix_iff has_suffix_def rev_append rev_rev_ident)

lemma last_index_None [simp]: "last_index c s = None \<longleftrightarrow> c \<notin> set s"
  by (induction s) (auto split: option.splits)

lemma last_index_append:
  "c \<notin> set t \<Longrightarrow> last_index c (s @ c # t) = Some (length s)"
  by (induction s) (auto split: option.splits)

lemma last_index_Some:
  "last_index c s = Some i \<Longrightarrow>
     i < length s \<and> s ! i = c \<and> c \<notin> set (drop (Suc i) s)"
proof (induction s arbitrary: i)
  case (Cons x xs)
  show ?case
  proof (cases "last_index c xs")
    case None
    with Cons.prems have "x = c \<and> i = 0" by (simp del: last_index_None split: if_splits)
    moreover from None have "c \<notin> set xs" by simp
    ultimately show ?thesis by simp
  next
    case (Some j)
    with Cons.IH [OF Some] Cons.prems show ?thesis by auto
  qed
qed simp

section \<open>Machine integers\<close>

abbreviation max_int64 :: int where
  "max_int64 \<equiv> 9223372036854775807"

abbreviation min_int64 :: int where
  "min_int64 \<equiv> -9223372036854775808"

definition in_int64 :: "int \<Rightarrow> bool" where
  "in_int64 x \<longleftrightarrow> min_int64 \<le> x \<and> x \<le> max_int64"

definition wrap64 :: "int \<Rightarrow> int" where
  "wrap64 x = (x + 9223372036854775808) mod 18446744073709551616 - 9223372036854775808"

text \<open>Go's integer division truncates towards zero.\<close>

definition go_div :: "int \<Rightarrow> int \<Rightarrow> int" where
  "go_div a b = sgn a * sgn b * (\<bar>a\<bar> div \<bar>b\<bar>)"

lemma wrap64_id [simp]: "in_int64 x \<Longrightarrow> wrap64 x = x"
  by (simp add: in_int64_def wrap64_def)

lemma wrap64_range: "in_int64 (wrap64 x)"
proof -
  have "0 \<le> (x + 9223372036854775808) mod 18446744073709551616"
    and "(x + 9223372036854775808) mod 18446744073709551616 < 18446744073709551616"
    by simp_all
  then show ?thesis by (simp add: in_int64_def wrap64_def)
qed

lemma go_div_nonneg: "0 \<le> a \<Longrightarrow> 0 < b \<Longrightarrow> go_div a b = a div b"
  by (cases "a = 0") (simp_all add: go_div_def)

definition digit_val :: "char \<Rightarrow> int option" where
  "digit_val c = (let n = (of_char c :: nat) in if 48 \<le> n \<and> n \<le> 57 then Some (int n - 48) else None)"

fun parse_digits :: "int \<Rightarrow> string \<Rightarrow> int option" where
  "parse_digits acc [] = Some acc"
| "parse_digits acc (c # cs) =
     (case digit_val c of None \<Rightarrow> None | Some d \<Rightarrow> parse_digits (acc * 10 + d) cs)"

text \<open>\<open>strconv.ParseInt(s, 10, 64)\<close> and \<open>strconv.Atoi(s)\<close> on a 64-bit platform; \<open>None\<close> is an error.\<close>

definition go_parse_int :: "string \<Rightarrow> int option" where
  "go_parse_int s =
     (case s of
        [] \<Rightarrow> None
      | c # cs \<Rightarrow>
          (let neg = (c = CHR ''-'');
               ds = (if c = CHR ''-'' \<or> c = CHR ''+'' then cs else s)
           in if ds = [] then None
              else (case parse_digits 0 ds of
                      None \<Rightarrow> None
                    | Some v \<Rightarrow>
                        (let r = (if neg then - v else v)
                         in if in_int64 r then Some r else None))))"

fun digits_of :: "nat \<Rightarrow> string" where
  "digits_of n =
     (if n < 10 then [char_of (48 + n)] else digits_of (n div 10) @ [char_of (48 + n mod 10)])"

declare digits_of.simps [simp del]

text \<open>\<open>strconv.FormatInt(i, 10)\<close>.\<close>

definition go_format_int :: "int \<Rightarrow> string" where
  "go_format_int i = (if i < 0 then CHR ''-'' # digits_of (nat (- i)) else digits_of (nat i))"

definition go_parse_bool :: "string \<Rightarrow> bool option" where
  "go_parse_bool s =
     (if s \<in> {''1'', ''t'', ''T'', ''TRUE'', ''true'', ''True''} then Some True
      else if s \<in> {''0'', ''f'', ''F'', ''FALSE'', ''false'', ''False''} then Some False
      else None)"

lemma go_parse_int_range: "go_parse_int s = Some v \<Longrightarrow> in_int64 v"
  by (auto simp: go_parse_int_def Let_def split: list.splits option.splits if_splits)

lemma parse_digits_append:
  "parse_digits acc (xs @ ys) =
     (case parse_digits acc xs of None \<Rightarrow> None | Some v \<Rightarrow> parse_digits v ys)"
  by (induction xs arbitrary: acc) (auto split: option.splits)

lemma digit_val_char_of: "n < 10 \<Longrightarrow> digit_val (char_of (48 + n)) = Some (int n)"
  by (simp add: digit_val_def)

lemma parse_digits_of: "parse_digits 0 (digits_of n) = Some (int n)"
proof (induction n rule: digits_of.induct)
  case (1 n)
  show ?case
  proof (cases "n < 10")
    case True
    then show ?thesis
      by (subst digits_of.simps) (simp add: digit_val_char_of)
  next
    case False
    with "1" have ih: "parse_digits 0 (digits_of (n div 10)) = Some (int (n div 10))"
      by simp
    have "int (n div 10) * 10 + int (n mod 10) = int n"
      by (metis div_mult_mod_eq of_nat_add of_nat_mult of_nat_numeral)
    with False ih show ?thesis
      by (subst digits_of.simps) (simp add: parse_digits_append digit_val_char_of)
  qed
qed

lemma digits_of_chars: "c \<in> set (digits_of n) \<Longrightarrow> 48 \<le> (of_char c :: nat) \<and> (of_char c :: nat) \<le> 57"
proof (induction n rule: digits_of.induct)
  case (1 n)
  then show ?case
    by (subst (asm) (2) digits_of.simps) (auto split: if_splits)
qed

lemma digits_of_nonempty [simp]: "digits_of n \<noteq> []"
  by (subst digits_of.simps) simp

lemma digits_no_space: "c \<in> set (digits_of n) \<Longrightarrow> \<not> is_go_space c"
  using digits_of_chars [of c n] by (auto simp: is_go_space_def)

lemma hd_digits_of: "48 \<le> (of_char (hd (digits_of n)) :: nat)"
  using digits_of_chars [of "hd (digits_of n)" n] by (simp add: hd_in_set)

lemma go_parse_format_int: "in_int64 i \<Longrightarrow> go_parse_int (go_format_int i) = Some i"
proof (cases "i < 0")
  case True
  moreover assume "in_int64 i"
  ultimately show ?thesis
    by (simp add: go_parse_int_def go_format_int_def parse_digits_of Let_def)
next
  case False
  assume r: "in_int64 i"
  obtain c cs where ds: "digits_of (nat i) = c # cs"
    by (meson digits_of_nonempty neq_Nil_conv)
  have "48 \<le> (of_char c :: nat)"
    using hd_digits_of [of "nat i"] ds by simp
  then have "c \<noteq> CHR ''-''" "c \<noteq> CHR ''+''" by auto
  with False r ds parse_digits_of [of "nat i"] show ?thesis
    by (simp add: go_parse_int_def go_format_int_def Let_def)
qed

lemma trim_go_format_int [simp]: "trim_space (go_format_int i) = go_format_int i"
  by (rule trim_space_no_space)
    (auto simp: go_format_int_def is_go_space_def dest: digits_of_chars)

lemma go_format_int_nonempty [simp]: "go_format_int i \<noteq> []"
  by (simp add: go_format_int_def)

text \<open>
  \<open>fmt.Sprintf("%q", s)\<close> (\<open>strconv.Quote\<close>) on ASCII text; bytes above 127 are copied, which is what Go
  does with the printable runes they encode.
\<close>

definition hex_digit :: "nat \<Rightarrow> char" where
  "hex_digit n = (if n < 10 then char_of (48 + n) else char_of (87 + n))"

definition quote_char :: "char \<Rightarrow> string" where
  "quote_char c =
     (let n = (of_char c :: nat) in
      if n = 34 \<or> n = 92 then [CHR 0x5C, c]
      else if n = 7 then CHR 0x5C # ''a''
      else if n = 8 then CHR 0x5C # ''b''
      else if n = 12 then CHR 0x5C # ''f''
      else if n = 10 then CHR 0x5C # ''n''
      else if n = 13 then CHR 0x5C # ''r''
      else if n = 9 then CHR 0x5C # ''t''
      else if n = 11 then CHR 0x5C # ''v''
      else if n < 32 \<or> n = 127 then [CHR 0x5C, CHR ''x'', hex_digit (n div 16), hex_digit (n mod 16)]
      else [c])"

definition go_quote :: "string \<Rightarrow> string" where
  "go_quote s = [CHR 0x22] @ concat (map quote_char s) @ [CHR 0x22]"

section \<open>Dynamic values\<close>

text \<open>
  A Go \<open>any\<close>, as far as the type switches of the code tell values apart. \<open>AnySmallInt\<close> is an
  \<open>int8\<close> or \<open>int16\<close>, \<open>AnyUint\<close> a \<open>uint\<close>, \<open>uint32\<close> or \<open>uint64\<close>, \<open>AnyMap\<close> a \<open>map[string]any\<close>,
  \<open>AnyStringMap\<close> a \<open>map[string]string\<close>. A finite float is the rational it denotes.
\<close>

datatype gofloat = FNaN | FInf bool | FFin rat

datatype go_any =
    AnyNil
  | AnyBool bool
  | AnyInt int
  | AnyInt32 int
  | AnyInt64 int
  | AnySmallInt int
  | AnyUint8 int
  | AnyUint16 int
  | AnyUint int
  | AnyFloat64 gofloat
  | AnyFloat32 gofloat
  | AnyNumber string
  | AnyString string
  | AnyBytes string
  | AnyMap "(string \<times> go_any) list"
  | AnyStringMap "(string \<times> string) list"
  | AnyOther

text \<open>
  The conversion \<open>int(f)\<close> of a float truncates; where Go leaves the result to the implementation
  (not a number, infinite, out of range) this is the value the amd64 instruction yields.
\<close>

definition float_to_int :: "gofloat \<Rightarrow> int" where
  "float_to_int f =
     (case f of
        FFin q \<Rightarrow>
          (let t = (if q < 0 then - \<lfloor>- q\<rfloor> else \<lfloor>q\<rfloor>) in if in_int64 t then t else min_int64)
      | _ \<Rightarrow> min_int64)"

definition float_nonzero :: "gofloat \<Rightarrow> bool" where
  "float_nonzero f = (case f of FFin q \<Rightarrow> q \<noteq> 0 | _ \<Rightarrow> True)"

section \<open>Time\<close>

type_synonym gotime = int
type_synonym duration = int

abbreviation (input) zero_time :: gotime where
  "zero_time \<equiv> 0"

abbreviation (input) time_after :: "gotime \<Rightarrow> gotime \<Rightarrow> bool" where
  "time_after a b \<equiv> b < a"

abbreviation (input) time_before :: "gotime \<Rightarrow> gotime \<Rightarrow> bool" where
  "time_before a b \<equiv> a < b"

text \<open>\<open>Time.Sub\<close> saturates at the limits of \<open>time.Duration\<close>.\<close>

definition time_sub :: "gotime \<Rightarrow> gotime \<Rightarrow> duration" where
  "time_sub a b = max min_int64 (min max_int64 (a - b))"

abbreviation (input) second_ns :: duration where
  "second_ns \<equiv> 1000000000"

abbreviation (input) minute_ns :: duration where
  "minute_ns \<equiv> 60000000000"

abbreviation (input) hour_ns :: duration where
  "hour_ns \<equiv> 3600000000000"

text \<open>\<open>Time.Unix\<close>: seconds since 1970, rounded down; the zero time is the year 1.\<close>

definition unix_epoch :: gotime where
  "unix_epoch = 62135596800000000000"

definition time_unix :: "gotime \<Rightarrow> int" where
  "time_unix t = (t - unix_epoch) div second_ns"

definition unix_time :: "int \<Rightarrow> gotime" where
  "unix_time secs = unix_epoch + secs * second_ns"

definition unix_milli_time :: "int \<Rightarrow> gotime" where
  "unix_milli_time ms = unix_epoch + ms * 1000000"

lemma time_unix_time [simp]: "time_unix (unix_time s) = s"
  by (simp add: time_unix_def unix_time_def)

lemma time_sub_mono: "a \<le> b \<Longrightarrow> time_sub a c \<le> time_sub b c"
  by (auto simp: time_sub_def)

section \<open>Maps as association lists\<close>

abbreviation wf_map :: "('k \<times> 'v) list \<Rightarrow> bool" where
  "wf_map m \<equiv> distinct (map fst m)"

abbreviation map_put :: "'k \<Rightarrow> 'v \<Rightarrow> ('k \<times> 'v) list \<Rightarrow> ('k \<times> 'v) list" where
  "map_put \<equiv> AList.update"

abbreviation map_del :: "'k \<Rightarrow> ('k \<times> 'v) list \<Rightarrow> ('k \<times> 'v) list" where
  "map_del \<equiv> AList.delete"

definition has_key :: "'k \<Rightarrow> ('k \<times> 'v) list \<Rightarrow> bool" where
  "has_key k m \<longleftrightarrow> map_of m k \<noteq> None"

text \<open>Deleting, while iterating, the entries that fail \<open>P\<close>.\<close>

definition map_keep :: "('k \<Rightarrow> 'v \<Rightarrow> bool) \<Rightarrow> ('k \<times> 'v) list \<Rightarrow> ('k \<times> 'v) list" where
  "map_keep P m = filter (\<lambda>(k, v). P k v) m"

lemma wf_map_in_set [go_map]: "wf_map m \<Longrightarrow> (k, v) \<in> set m \<longleftrightarrow> map_of m k = Some v"
  by (auto dest: map_of_SomeD)

lemma wf_map_keep [go_map]: "wf_map m \<Longrightarrow> wf_map (map_keep P m)"
  by (simp add: map_keep_def distinct_map_filter)

lemma map_of_keep [go_map]:
  "wf_map m \<Longrightarrow> map_of (map_keep P m) k =
     (case map_of m k of None \<Rightarrow> None | Some v \<Rightarrow> if P k v then Some v else None)"
proof (induction m)
  case (Cons kv m)
  obtain a b where kv: "kv = (a, b)" by (cases kv)
  show ?case
  proof (cases "k = a")
    case True
    with Cons.prems kv have "map_of m k = None"
      by (auto simp: map_of_eq_None_iff)
    moreover from this Cons kv have "map_of (map_keep P m) k = None" by simp
    ultimately show ?thesis using kv True by (simp add: map_keep_def)
  next
    case False
    with Cons kv show ?thesis by (auto simp: map_keep_def)
  qed
qed (simp add: map_keep_def)

lemma set_map_put [go_map]:
  "wf_map m \<Longrightarrow> set (map_put k v m) = insert (k, v) {(a, b) \<in> set m. a \<noteq> k}"
  by (induction m) (force simp: image_iff)+

lemma set_map_del [go_map]: "set (map_del k m) = {(a, b) \<in> set m. a \<noteq> k}"
  by (auto simp: AList.delete_eq)

lemma length_map_put: "length (map_put k v m) = (if has_key k m then length m else Suc (length m))"
  by (induction m) (auto simp: has_key_def)

lemma length_map_del_le: "length (map_del k m) \<le> length m"
  by (simp add: AList.delete_eq)

section \<open>Sorted search\<close>

text \<open>\<open>sort.Search(n, f)\<close>: the binary search of Go's library.\<close>

function search_loop :: "(nat \<Rightarrow> bool) \<Rightarrow> nat \<Rightarrow> nat \<Rightarrow> nat" where
  "search_loop f i j =
     (if i < j
      then (let h = (i + j) div 2
            in if \<not> f h then search_loop f (h + 1) j else search_loop f i h)
      else i)"
  by pat_completeness auto
termination
  by (relation "measure (\<lambda>(f, i, j). j - i)") auto

declare search_loop.simps [simp del]

definition go_search :: "nat \<Rightarrow> (nat \<Rightarrow> bool) \<Rightarrow> nat" where
  "go_search n f = search_loop f 0 n"

lemma search_loop_spec:
  "(\<And>a b. a \<le> b \<Longrightarrow> b < n \<Longrightarrow> f a \<Longrightarrow> f b) \<Longrightarrow>
    i \<le> j \<Longrightarrow> j \<le> n \<Longrightarrow> (\<forall>k<i. \<not> f k) \<Longrightarrow> (\<forall>k. j \<le> k \<and> k < n \<longrightarrow> f k) \<Longrightarrow>
    search_loop f i j \<le> n \<and> (\<forall>k<search_loop f i j. \<not> f k) \<and>
    (\<forall>k. search_loop f i j \<le> k \<and> k < n \<longrightarrow> f k)"
proof (induction f i j rule: search_loop.induct)
  case (1 f i j)
  define h where "h = (i + j) div 2"
  show ?case
  proof (cases "i < j")
    case False
    then have "search_loop f i j = i" by (subst search_loop.simps) simp
    moreover from False "1.prems" have "i = j" by simp
    ultimately show ?thesis using "1.prems"(3-5) by simp
  next
    case True
    then have h: "i \<le> h" "h < j" by (auto simp: h_def)
    with "1.prems" have hn: "h < n" by simp
    show ?thesis
    proof (cases "f h")
      case False
      then have eq: "search_loop f i j = search_loop f (h + 1) j"
        using True by (subst search_loop.simps) (simp add: h_def [symmetric] Let_def)
      have "\<forall>k<h + 1. \<not> f k"
        using False hn "1.prems"(1) by (auto simp: less_Suc_eq_le)
      with "1.IH"(1) [OF True h_def False "1.prems"(1)] h "1.prems"(3,5) show ?thesis
        unfolding eq by simp
    next
      case fh: True
      then have eq: "search_loop f i j = search_loop f i h"
        using True by (subst search_loop.simps) (simp add: h_def [symmetric] Let_def)
      have "\<forall>k. h \<le> k \<and> k < n \<longrightarrow> f k"
        using fh "1.prems"(1) by blast
      with "1.IH"(2) [OF True h_def _ "1.prems"(1)] fh h hn "1.prems"(4) show ?thesis
        unfolding eq by simp
    qed
  qed
qed

lemma go_search_spec:
  assumes "\<And>a b. a \<le> b \<Longrightarrow> b < n \<Longrightarrow> f a \<Longrightarrow> f b"
  shows "go_search n f \<le> n" and "k < go_search n f \<Longrightarrow> \<not> f k"
    and "go_search n f \<le> k \<Longrightarrow> k < n \<Longrightarrow> f k"
proof -
  have "search_loop f 0 n \<le> n \<and> (\<forall>k<search_loop f 0 n. \<not> f k) \<and>
      (\<forall>k. search_loop f 0 n \<le> k \<and> k < n \<longrightarrow> f k)"
    by (rule search_loop_spec) (use assms in auto)
  then show "go_search n f \<le> n" and "k < go_search n f \<Longrightarrow> \<not> f k"
    and "go_search n f \<le> k \<Longrightarrow> k < n \<Longrightarrow> f k"
    by (simp_all add: go_search_def)
qed

section \<open>Machines and their invariants\<close>

text \<open>
  The contract every stateful component of the model satisfies: a start state, one function that
  performs an operation, and a predicate the start state has and every operation keeps.
\<close>

locale machine =
  fixes start :: "'s"
    and perform :: "'op \<Rightarrow> 's \<Rightarrow> 's"
    and inv :: "'s \<Rightarrow> bool"
  assumes inv_start: "inv start"
    and inv_perform: "inv s \<Longrightarrow> inv (perform op s)"
begin

lemma inv_fold: "inv s \<Longrightarrow> inv (fold perform ops s)"
  by (induction ops arbitrary: s) (auto intro: inv_perform)

lemma inv_run: "inv (fold perform ops start)"
  by (rule inv_fold) (rule inv_start)

end

end
