(* ===== verification/Cred_Weight.thy ===== *)
theory Cred_Weight
  imports Go_Prelude
begin

text \<open>
  \<open>internal/credentialweight/weight.go\<close>: validation and parsing of credential weights. A weight
  is 0 (excluded from weighted routing) or lies between 1 and \<open>MaxWeight\<close>. The two error texts of the
  package are the constructors of \<open>weight_error\<close>.
\<close>

datatype weight_error = WeightExceedsMax | WeightNotInteger

abbreviation (input) DefaultWeight :: int where
  "DefaultWeight \<equiv> 1"

abbreviation (input) MaxWeight :: int where
  "MaxWeight \<equiv> 1000000"

definition Normalize :: "int \<Rightarrow> weight_error + int" where
  "Normalize weight =
     (if weight \<le> 0 then Inr 0
      else if weight > MaxWeight then Inl WeightExceedsMax
      else Inr weight)"

definition ParseString :: "string \<Rightarrow> weight_error + int" where
  "ParseString raw0 =
     (let raw = trim_space raw0 in
      if raw = [] then Inr DefaultWeight
      else (case go_parse_int raw of
              None \<Rightarrow> Inl WeightNotInteger
            | Some weight \<Rightarrow> Normalize weight))"

definition parse_float_weight :: "gofloat \<Rightarrow> weight_error + int" where
  "parse_float_weight typed =
     (case typed of
        FNaN \<Rightarrow> Inl WeightNotInteger
      | FInf _ \<Rightarrow> Inl WeightNotInteger
      | FFin q \<Rightarrow>
          (if of_int \<lfloor>q\<rfloor> \<noteq> q then Inl WeightNotInteger
           else if q \<le> 0 then Inr 0
           else if q > of_int MaxWeight then Inl WeightExceedsMax
           else Inr \<lfloor>q\<rfloor>))"

fun ParseValue :: "go_any \<Rightarrow> weight_error + int" where
  "ParseValue (AnyInt typed) = Normalize typed"
| "ParseValue (AnySmallInt typed) = Normalize typed"
| "ParseValue (AnyInt32 typed) = Normalize typed"
| "ParseValue (AnyInt64 typed) = Normalize typed"
| "ParseValue (AnyUint typed) =
     (if typed > MaxWeight then Inl WeightExceedsMax else Inr typed)"
| "ParseValue (AnyUint8 typed) = Inr typed"
| "ParseValue (AnyUint16 typed) = Inr typed"
| "ParseValue (AnyFloat64 typed) = parse_float_weight typed"
| "ParseValue (AnyFloat32 typed) = parse_float_weight typed"
| "ParseValue (AnyNumber typed) =
     (case go_parse_int typed of
        None \<Rightarrow> Inl WeightNotInteger
      | Some weight \<Rightarrow> Normalize weight)"
| "ParseValue (AnyString typed) = ParseString typed"
| "ParseValue _ = Inl WeightNotInteger"

text \<open>The values an unsigned dynamic value can have.\<close>

fun valid_any :: "go_any \<Rightarrow> bool" where
  "valid_any (AnyInt v) = in_int64 v"
| "valid_any (AnyUint v) = (0 \<le> v \<and> v < 18446744073709551616)"
| "valid_any (AnyUint8 v) = (0 \<le> v \<and> v < 256)"
| "valid_any (AnyUint16 v) = (0 \<le> v \<and> v < 65536)"
| "valid_any _ = True"

definition valid_weight :: "int \<Rightarrow> bool" where
  "valid_weight w \<longleftrightarrow> 0 \<le> w \<and> w \<le> MaxWeight"

lemma Normalize_valid: "Normalize w = Inr v \<Longrightarrow> valid_weight v"
  by (auto simp: Normalize_def valid_weight_def split: if_splits)

lemma Normalize_id: "valid_weight w \<Longrightarrow> Normalize w = Inr w"
  by (auto simp: Normalize_def valid_weight_def)

lemma ParseString_valid: "ParseString s = Inr v \<Longrightarrow> valid_weight v"
  by (auto simp: ParseString_def Let_def valid_weight_def [of 1] split: if_splits option.splits
      dest: Normalize_valid)

lemma parse_float_weight_valid: "parse_float_weight f = Inr v \<Longrightarrow> valid_weight v"
  by (auto simp: parse_float_weight_def valid_weight_def split: gofloat.splits if_splits)

lemmas parse_valid = Normalize_valid ParseString_valid parse_float_weight_valid

lemma ParseValue_valid: "valid_any x \<Longrightarrow> ParseValue x = Inr v \<Longrightarrow> valid_weight v"
proof (cases x)
  case (AnyNumber t)
  assume "ParseValue x = Inr v"
  with AnyNumber show ?thesis by (auto split: option.splits dest: Normalize_valid)
qed (auto dest: parse_valid split: if_splits simp: valid_weight_def [of v])

lemma ParseString_format:
  assumes "valid_weight w"
  shows "ParseString (go_format_int w) = Inr w"
proof -
  have "in_int64 w" using assms by (simp add: valid_weight_def in_int64_def)
  then show ?thesis
    using assms by (simp add: ParseString_def go_parse_format_int Normalize_id)
qed

end
