(* ===== verification/Thinking_Types.thy ===== *)
theory Thinking_Types
  imports Go_Prelude
begin

text \<open>
  The data of \<open>internal/thinking\<close>: modes, levels, configurations, suffix results, the structured
  error, and the model metadata of \<open>internal/registry\<close> the package reads. A \<open>ThinkingLevel\<close> is
  an open string type in the code, so it stays a string here. Messages are kept as text; the
  number formatting inside a message is \<open>go_format_int\<close>.
\<close>

datatype ThinkingMode = ModeBudget | ModeLevel | ModeNone | ModeAuto

type_synonym ThinkingLevel = string

abbreviation LevelNone :: ThinkingLevel where "LevelNone \<equiv> ''none''"
abbreviation LevelAuto :: ThinkingLevel where "LevelAuto \<equiv> ''auto''"
abbreviation LevelMinimal :: ThinkingLevel where "LevelMinimal \<equiv> ''minimal''"
abbreviation LevelLow :: ThinkingLevel where "LevelLow \<equiv> ''low''"
abbreviation LevelMedium :: ThinkingLevel where "LevelMedium \<equiv> ''medium''"
abbreviation LevelHigh :: ThinkingLevel where "LevelHigh \<equiv> ''high''"
abbreviation LevelXHigh :: ThinkingLevel where "LevelXHigh \<equiv> ''xhigh''"
abbreviation LevelMax :: ThinkingLevel where "LevelMax \<equiv> ''max''"

fun mode_string :: "ThinkingMode \<Rightarrow> string" where
  "mode_string ModeBudget = ''budget''"
| "mode_string ModeLevel = ''level''"
| "mode_string ModeNone = ''none''"
| "mode_string ModeAuto = ''auto''"

record ThinkingConfig =
  cfg_Mode :: ThinkingMode
  cfg_Budget :: int
  cfg_Level :: ThinkingLevel

record SuffixResult =
  suf_ModelName :: string
  suf_HasSuffix :: bool
  suf_RawSuffix :: string

text \<open>The zero value \<open>ThinkingConfig{}\<close>, and the three literals the code builds.\<close>

definition empty_config :: ThinkingConfig where
  "empty_config = \<lparr>cfg_Mode = ModeBudget, cfg_Budget = 0, cfg_Level = []\<rparr>"

abbreviation none_config :: ThinkingConfig where
  "none_config \<equiv> \<lparr>cfg_Mode = ModeNone, cfg_Budget = 0, cfg_Level = []\<rparr>"

abbreviation auto_config :: ThinkingConfig where
  "auto_config \<equiv> \<lparr>cfg_Mode = ModeAuto, cfg_Budget = -1, cfg_Level = []\<rparr>"

abbreviation level_config :: "ThinkingLevel \<Rightarrow> ThinkingConfig" where
  "level_config l \<equiv> \<lparr>cfg_Mode = ModeLevel, cfg_Budget = 0, cfg_Level = l\<rparr>"

abbreviation budget_config :: "int \<Rightarrow> ThinkingConfig" where
  "budget_config b \<equiv> \<lparr>cfg_Mode = ModeBudget, cfg_Budget = b, cfg_Level = []\<rparr>"

text \<open>\<open>hasThinkingConfig\<close>: whether a configuration differs from the zero value.\<close>

definition hasThinkingConfig :: "ThinkingConfig \<Rightarrow> bool" where
  "hasThinkingConfig config \<longleftrightarrow>
     cfg_Mode config \<noteq> ModeBudget \<or> cfg_Budget config \<noteq> 0 \<or> cfg_Level config \<noteq> []"

definition thinkingIsFullyDisabled :: "ThinkingConfig \<Rightarrow> bool" where
  "thinkingIsFullyDisabled config \<longleftrightarrow>
     cfg_Mode config = ModeNone \<and> cfg_Budget config = 0 \<and> cfg_Level config = []"

section \<open>Errors\<close>

datatype ErrorCode =
    ErrInvalidSuffix
  | ErrUnknownLevel
  | ErrThinkingNotSupported
  | ErrLevelNotSupported
  | ErrBudgetOutOfRange
  | ErrProviderMismatch

record ThinkingError =
  terr_Code :: ErrorCode
  terr_Message :: string
  terr_Model :: string

definition NewThinkingError :: "ErrorCode \<Rightarrow> string \<Rightarrow> ThinkingError" where
  "NewThinkingError code message = \<lparr>terr_Code = code, terr_Message = message, terr_Model = []\<rparr>"

definition NewThinkingErrorWithModel :: "ErrorCode \<Rightarrow> string \<Rightarrow> string \<Rightarrow> ThinkingError" where
  "NewThinkingErrorWithModel code message model =
     \<lparr>terr_Code = code, terr_Message = message, terr_Model = model\<rparr>"

section \<open>Model metadata\<close>

record ThinkingSupport =
  ts_Min :: int
  ts_Max :: int
  ts_ZeroAllowed :: bool
  ts_DynamicAllowed :: bool
  ts_Levels :: "string list"

text \<open>
  \<open>registry.ModelInfo\<close>. \<open>mi_Config\<close> is the header-override map of \<open>ModelConfig\<close>, a nil pointer being
  \<open>None\<close>.
\<close>

record ModelInfo =
  mi_ID :: string
  mi_Object :: string
  mi_Created :: int
  mi_OwnedBy :: string
  mi_Type :: string
  mi_DisplayName :: string
  mi_Name :: string
  mi_Version :: string
  mi_Description :: string
  mi_InputTokenLimit :: int
  mi_OutputTokenLimit :: int
  mi_SupportedGenerationMethods :: "string list"
  mi_ContextLength :: int
  mi_MaxContextLength :: int
  mi_MaxCompletionTokens :: int
  mi_SupportedParameters :: "string list"
  mi_SupportedInputModalities :: "string list"
  mi_SupportedOutputModalities :: "string list"
  mi_SupportsWebSearch :: bool
  mi_Thinking :: "ThinkingSupport option"
  mi_Config :: "(string \<times> string) list option"
  mi_UserDefined :: bool
  mi_IsCompat :: bool

lemma hasThinkingConfig_iff: "hasThinkingConfig config \<longleftrightarrow> config \<noteq> empty_config"
  by (cases config) (auto simp: hasThinkingConfig_def empty_config_def)

end
