(* ===== verification/Thinking_Suffix.thy ===== *)
theory Thinking_Suffix
  imports Thinking_Types
begin

text \<open>
  \<open>internal/thinking/suffix.go\<close> and \<open>convert.go\<close>: the suffix grammar \<open>model(value)\<close>, the level and
  budget conversions, and the capability classification of a model; from \<open>apply.go\<close> the functions
  that turn a suffix into a configuration and a configuration into a reasoning-effort label.
  A Go pair \<open>(value, ok)\<close> is an option.
\<close>

section \<open>Suffix parsing\<close>

definition ParseSuffix :: "string \<Rightarrow> SuffixResult" where
  "ParseSuffix model =
     (case last_index (CHR ''('') model of
        None \<Rightarrow> \<lparr>suf_ModelName = model, suf_HasSuffix = False, suf_RawSuffix = []\<rparr>
      | Some lastOpen \<Rightarrow>
          if \<not> has_suffix model '')'' then
            \<lparr>suf_ModelName = model, suf_HasSuffix = False, suf_RawSuffix = []\<rparr>
          else
            \<lparr>suf_ModelName = take lastOpen model, suf_HasSuffix = True,
             suf_RawSuffix = drop (lastOpen + 1) (take (length model - 1) model)\<rparr>)"

definition ParseNumericSuffix :: "string \<Rightarrow> int option" where
  "ParseNumericSuffix rawSuffix =
     (if rawSuffix = [] then None
      else (case go_parse_int rawSuffix of
              None \<Rightarrow> None
            | Some value \<Rightarrow> if value < 0 then None else Some value))"

definition ParseSpecialSuffix :: "string \<Rightarrow> ThinkingMode option" where
  "ParseSpecialSuffix rawSuffix =
     (if rawSuffix = [] then None
      else (let s = to_lower rawSuffix in
            if s = ''none'' then Some ModeNone
            else if s = ''auto'' \<or> s = ''-1'' then Some ModeAuto
            else None))"

definition ParseLevelSuffix :: "string \<Rightarrow> ThinkingLevel option" where
  "ParseLevelSuffix rawSuffix =
     (if rawSuffix = [] then None
      else (let s = to_lower rawSuffix in
            if s = ''minimal'' then Some LevelMinimal
            else if s = ''low'' then Some LevelLow
            else if s = ''medium'' then Some LevelMedium
            else if s = ''high'' then Some LevelHigh
            else if s = ''xhigh'' then Some LevelXHigh
            else if s = ''max'' then Some LevelMax
            else None))"

section \<open>Level and budget conversion\<close>

definition levelToBudgetMap :: "string \<Rightarrow> int option" where
  "levelToBudgetMap =
     [''none'' \<mapsto> 0, ''auto'' \<mapsto> -1, ''minimal'' \<mapsto> 512, ''low'' \<mapsto> 1024, ''medium'' \<mapsto> 8192,
      ''high'' \<mapsto> 24576, ''xhigh'' \<mapsto> 32768, ''max'' \<mapsto> 128000]"

definition ConvertLevelToBudget :: "string \<Rightarrow> int option" where
  "ConvertLevelToBudget level = levelToBudgetMap (to_lower level)"

abbreviation (input) ThresholdMinimal :: int where "ThresholdMinimal \<equiv> 512"
abbreviation (input) ThresholdLow :: int where "ThresholdLow \<equiv> 1024"
abbreviation (input) ThresholdMedium :: int where "ThresholdMedium \<equiv> 8192"
abbreviation (input) ThresholdHigh :: int where "ThresholdHigh \<equiv> 24576"

definition ConvertBudgetToLevel :: "int \<Rightarrow> string option" where
  "ConvertBudgetToLevel budget =
     (if budget < -1 then None
      else if budget = -1 then Some LevelAuto
      else if budget = 0 then Some LevelNone
      else if budget \<le> ThresholdMinimal then Some LevelMinimal
      else if budget \<le> ThresholdLow then Some LevelLow
      else if budget \<le> ThresholdMedium then Some LevelMedium
      else if budget \<le> ThresholdHigh then Some LevelHigh
      else Some LevelXHigh)"

fun HasLevel :: "string list \<Rightarrow> string \<Rightarrow> bool" where
  "HasLevel [] target = False"
| "HasLevel (level # levels) target =
     (if equal_fold (trim_space level) target then True else HasLevel levels target)"

definition MapToClaudeEffort :: "string \<Rightarrow> bool \<Rightarrow> string option" where
  "MapToClaudeEffort level0 supportsMax =
     (let level = to_lower (trim_space level0) in
      if level = [] then None
      else if level = ''minimal'' then Some ''low''
      else if level = ''low'' \<or> level = ''medium'' \<or> level = ''high'' then Some level
      else if level = ''xhigh'' \<or> level = ''max'' then
        (if supportsMax then Some ''max'' else Some ''high'')
      else if level = ''auto'' then Some ''high''
      else None)"

datatype ModelCapability =
    CapabilityUnknown
  | CapabilityNone
  | CapabilityBudgetOnly
  | CapabilityLevelOnly
  | CapabilityHybrid

definition detectModelCapability :: "ModelInfo option \<Rightarrow> ModelCapability" where
  "detectModelCapability modelInfo =
     (case modelInfo of
        None \<Rightarrow> CapabilityUnknown
      | Some info \<Rightarrow>
          (case mi_Thinking info of
             None \<Rightarrow> CapabilityNone
           | Some support \<Rightarrow>
               (let hasBudget = (ts_Min support > 0 \<or> ts_Max support > 0);
                    hasLevels = (length (ts_Levels support) > 0)
                in if hasBudget \<and> hasLevels then CapabilityHybrid
                   else if hasBudget then CapabilityBudgetOnly
                   else if hasLevels then CapabilityLevelOnly
                   else CapabilityNone)))"

section \<open>From suffix to configuration to label\<close>

definition parseSuffixToConfig :: "string \<Rightarrow> ThinkingConfig" where
  "parseSuffixToConfig rawSuffix =
     (case ParseSpecialSuffix rawSuffix of
        Some ModeNone \<Rightarrow> none_config
      | Some ModeAuto \<Rightarrow> auto_config
      | _ \<Rightarrow>
          (case ParseLevelSuffix rawSuffix of
             Some level \<Rightarrow> level_config level
           | None \<Rightarrow>
               (case ParseNumericSuffix rawSuffix of
                  Some budget \<Rightarrow> if budget = 0 then none_config else budget_config budget
                | None \<Rightarrow> empty_config)))"

definition IsUserDefinedModel :: "ModelInfo option \<Rightarrow> bool" where
  "IsUserDefinedModel modelInfo =
     (case modelInfo of None \<Rightarrow> True | Some info \<Rightarrow> mi_UserDefined info)"

definition reasoningEffortFromConfig :: "ThinkingConfig \<Rightarrow> string" where
  "reasoningEffortFromConfig config =
     (if \<not> hasThinkingConfig config then []
      else (case cfg_Mode config of
              ModeNone \<Rightarrow> LevelNone
            | ModeAuto \<Rightarrow> LevelAuto
            | ModeLevel \<Rightarrow> to_lower (trim_space (cfg_Level config))
            | ModeBudget \<Rightarrow>
                (case ConvertBudgetToLevel (cfg_Budget config) of None \<Rightarrow> [] | Some level \<Rightarrow> level)))"

definition reasoningEffortFromSuffix :: "SuffixResult \<Rightarrow> string" where
  "reasoningEffortFromSuffix suffix =
     (if \<not> suf_HasSuffix suffix then []
      else reasoningEffortFromConfig (parseSuffixToConfig (suf_RawSuffix suffix)))"

section \<open>The suffix grammar\<close>

lemma ParseSuffix_cases:
  obtains (none) "ParseSuffix model = \<lparr>suf_ModelName = model, suf_HasSuffix = False, suf_RawSuffix = []\<rparr>"
      "CHR ''('' \<notin> set model \<or> \<not> has_suffix model '')''"
  | (suffix) m v where "model = m @ ''('' @ v @ '')''" "CHR ''('' \<notin> set v"
      "ParseSuffix model = \<lparr>suf_ModelName = m, suf_HasSuffix = True, suf_RawSuffix = v\<rparr>"
proof (cases "last_index (CHR ''('') model")
  case None
  then show ?thesis by (intro none) (auto simp: ParseSuffix_def simp del: last_index_None, simp)
next
  case (Some i)
  note li = last_index_Some [OF Some]
  show ?thesis
  proof (cases "has_suffix model '')''")
    case False
    with Some show ?thesis by (intro none) (simp_all add: ParseSuffix_def)
  next
    case True
    then obtain r where r: "model = r @ '')''" by (auto simp: has_suffix_iff)
    with li have i: "i < length r" by (auto simp: nth_append split: if_splits)
    define v where "v = drop (i + 1) r"
    have "r = take i r @ r ! i # v"
      using i id_take_nth_drop [of i r] by (simp add: v_def)
    moreover have "r ! i = CHR ''(''" using li i r by (simp add: nth_append)
    ultimately have m: "model = take i model @ ''('' @ v @ '')''"
      using r i by simp
    moreover have "CHR ''('' \<notin> set v" using li r by (simp add: v_def)
    moreover have "ParseSuffix model = \<lparr>suf_ModelName = take i model, suf_HasSuffix = True, suf_RawSuffix = v\<rparr>"
      using Some True r by (simp add: ParseSuffix_def v_def)
    ultimately show ?thesis by (rule suffix)
  qed
qed

lemma ParseSuffix_build:
  assumes "CHR ''('' \<notin> set v"
  shows "ParseSuffix (m @ ''('' @ v @ '')'') =
     \<lparr>suf_ModelName = m, suf_HasSuffix = True, suf_RawSuffix = v\<rparr>"
proof -
  have "last_index (CHR ''('') (m @ CHR ''('' # (v @ '')'')) = Some (length m)"
    by (rule last_index_append) (use assms in auto)
  moreover have "has_suffix (m @ ''('' @ v @ '')'') '')''"
    by (auto simp: has_suffix_iff)
  ultimately show ?thesis by (simp add: ParseSuffix_def)
qed

lemma ParseSuffix_plain:
  "CHR ''('' \<notin> set m \<Longrightarrow>
     ParseSuffix m = \<lparr>suf_ModelName = m, suf_HasSuffix = False, suf_RawSuffix = []\<rparr>"
  by (cases m rule: ParseSuffix_cases) auto

lemma ParseSuffix_shorter: "length (suf_ModelName (ParseSuffix m)) \<le> length m"
  by (cases m rule: ParseSuffix_cases) auto

section \<open>Numeric suffixes\<close>

lemma digits_to_lower: "to_lower (digits_of n) = digits_of n"
  unfolding to_lower_def
  by (rule map_idI) (auto simp: to_lower_char_def Let_def dest: digits_of_chars)

lemma digits_neq_word:
  assumes "s = [] \<or> \<not> (48 \<le> (of_char (hd s) :: nat) \<and> (of_char (hd s) :: nat) \<le> 57)"
  shows "digits_of n \<noteq> s"
  using assms digits_of_chars [of "hd (digits_of n)" n] by (auto simp: hd_in_set)

lemma ParseSpecialSuffix_digits: "ParseSpecialSuffix (digits_of n) = None"
  by (simp add: ParseSpecialSuffix_def digits_to_lower Let_def digits_neq_word)

lemma ParseLevelSuffix_digits: "ParseLevelSuffix (digits_of n) = None"
  by (simp add: ParseLevelSuffix_def digits_to_lower Let_def digits_neq_word)

lemma ParseNumericSuffix_digits: "in_int64 (int n) \<Longrightarrow> ParseNumericSuffix (digits_of n) = Some (int n)"
  using go_parse_format_int [of "int n"]
  by (simp add: ParseNumericSuffix_def go_format_int_def)

lemma ParseNumericSuffix_range: "ParseNumericSuffix s = Some b \<Longrightarrow> 0 \<le> b \<and> b \<le> max_int64"
  by (auto simp: ParseNumericSuffix_def in_int64_def split: if_splits option.splits
      dest: go_parse_int_range)

lemma parseSuffixToConfig_digits:
  "in_int64 (int n) \<Longrightarrow> parseSuffixToConfig (digits_of n) =
     (if n = 0 then none_config else budget_config (int n))"
  by (simp add: parseSuffixToConfig_def ParseSpecialSuffix_digits ParseLevelSuffix_digits
      ParseNumericSuffix_digits)

lemma ParseLevelSuffix_level:
  "ParseLevelSuffix s = Some l \<Longrightarrow>
     l \<in> {LevelMinimal, LevelLow, LevelMedium, LevelHigh, LevelXHigh, LevelMax} \<and> l = to_lower s"
  unfolding ParseLevelSuffix_def Let_def by (elim ifE_Some ifE_None) simp_all

lemma standard_level_budget:
  "l \<in> {LevelMinimal, LevelLow, LevelMedium, LevelHigh, LevelXHigh, LevelMax} \<Longrightarrow>
     \<exists>b. levelToBudgetMap l = Some b \<and> 0 < b"
  by (auto simp: levelToBudgetMap_def)

lemma ParseSpecialSuffix_mode:
  "ParseSpecialSuffix s = Some m \<Longrightarrow> m = ModeNone \<or> m = ModeAuto"
  by (simp add: ParseSpecialSuffix_def Let_def split: if_splits)

lemma parseSuffixToConfig_cases:
  obtains (empty) "parseSuffixToConfig s = empty_config"
  | (off) "parseSuffixToConfig s = none_config"
  | (auto) "parseSuffixToConfig s = auto_config"
  | (level) l b where "parseSuffixToConfig s = level_config l" "levelToBudgetMap l = Some b" "0 < b"
  | (budget) b where "parseSuffixToConfig s = budget_config b" "0 < b" "b \<le> max_int64"
proof (cases "ParseSpecialSuffix s")
  case (Some m)
  then show ?thesis
    using ParseSpecialSuffix_mode [OF Some] off auto by (auto simp: parseSuffixToConfig_def)
next
  case special: None
  show ?thesis
  proof (cases "ParseLevelSuffix s")
    case (Some l)
    then show ?thesis
      using special level ParseLevelSuffix_level [OF Some] standard_level_budget [of l]
      by (auto simp: parseSuffixToConfig_def)
  next
    case lev: None
    show ?thesis
    proof (cases "ParseNumericSuffix s")
      case None
      then show ?thesis using special lev empty by (simp add: parseSuffixToConfig_def)
    next
      case (Some b)
      then show ?thesis
        using special lev off budget ParseNumericSuffix_range [OF Some]
        by (cases "b = 0") (simp_all add: parseSuffixToConfig_def)
    qed
  qed
qed

section \<open>Levels and budgets\<close>

text \<open>The rank of a standard level; the order the thresholds and the clamping use.\<close>

definition level_rank :: "string \<Rightarrow> int" where
  "level_rank l =
     (if l = ''none'' then 0 else if l = ''minimal'' then 1 else if l = ''low'' then 2
      else if l = ''medium'' then 3 else if l = ''high'' then 4 else if l = ''xhigh'' then 5
      else if l = ''max'' then 6 else -1)"

lemma level_rank_simps [simp]:
  "level_rank ''none'' = 0" "level_rank ''minimal'' = 1" "level_rank ''low'' = 2"
  "level_rank ''medium'' = 3" "level_rank ''high'' = 4" "level_rank ''xhigh'' = 5"
  "level_rank ''max'' = 6" "level_rank ''auto'' = -1"
  by (simp_all add: level_rank_def)

definition budget_rank :: "int \<Rightarrow> int" where
  "budget_rank b = (if b \<le> 0 then b else if b \<le> 512 then 1 else if b \<le> 1024 then 2
     else if b \<le> 8192 then 3 else if b \<le> 24576 then 4 else 5)"

lemma budget_rank_mono: "a \<le> b \<Longrightarrow> budget_rank a \<le> budget_rank b"
  by (simp add: budget_rank_def)

lemma ConvertBudgetToLevel_rank:
  assumes "ConvertBudgetToLevel b = Some l"
  shows "level_rank l = budget_rank b"
proof -
  have "map_option level_rank (ConvertBudgetToLevel b) = (if b < -1 then None else Some (budget_rank b))"
    by (simp add: ConvertBudgetToLevel_def budget_rank_def)
  with assms show ?thesis by (simp split: if_splits)
qed

lemma ConvertBudgetToLevel_None: "ConvertBudgetToLevel b = None \<longleftrightarrow> b < -1"
  by (simp add: ConvertBudgetToLevel_def)

lemma ConvertBudgetToLevel_mono:
  "ConvertBudgetToLevel a = Some la \<Longrightarrow> ConvertBudgetToLevel b = Some lb \<Longrightarrow> a \<le> b \<Longrightarrow>
     level_rank la \<le> level_rank lb"
  by (simp add: ConvertBudgetToLevel_rank budget_rank_mono)

lemma ConvertBudgetToLevel_lower: "ConvertBudgetToLevel b = Some l \<Longrightarrow> to_lower l = l"
  by (auto simp: ConvertBudgetToLevel_def to_lower_lit split: if_splits)

lemma ConvertBudgetToLevel_nonempty: "ConvertBudgetToLevel b = Some l \<Longrightarrow> l \<noteq> []"
  by (auto simp: ConvertBudgetToLevel_def split: if_splits)

lemma ConvertBudgetToLevel_Some: "-1 \<le> b \<Longrightarrow> \<exists>l. ConvertBudgetToLevel b = Some l"
  by (simp add: ConvertBudgetToLevel_def)

section \<open>Properties\<close>

text \<open>C32. The suffix parser inverts the grammar: a name that has a suffix is exactly its parsed
  name, an opening parenthesis, the raw suffix without one, and a closing parenthesis; a name
  without a suffix is returned whole, and it has no opening parenthesis or no final closing one;
  and every name built from a model and a raw suffix is taken apart again.\<close>

theorem ParseSuffix_roundtrip:
  "(if suf_HasSuffix (ParseSuffix s)
    then s = suf_ModelName (ParseSuffix s) @ ''('' @ suf_RawSuffix (ParseSuffix s) @ '')'' \<and>
         CHR ''('' \<notin> set (suf_RawSuffix (ParseSuffix s))
    else s = suf_ModelName (ParseSuffix s) \<and> suf_RawSuffix (ParseSuffix s) = [] \<and>
         (CHR ''('' \<notin> set s \<or> \<not> has_suffix s '')'')) \<and>
   (CHR ''('' \<in> set v \<or>
    ParseSuffix (m @ ''('' @ v @ '')'') =
      \<lparr>suf_ModelName = m, suf_HasSuffix = True, suf_RawSuffix = v\<rparr>)"
proof (cases s rule: ParseSuffix_cases)
  case none
  then show ?thesis using ParseSuffix_build [of v m] by (simp, blast)
next
  case (suffix m' v')
  then show ?thesis using ParseSuffix_build [of v m] by (simp, blast)
qed

theorem ParseSuffix_roundtrip_witness:
  "suf_RawSuffix (ParseSuffix ''gpt(x)(high)'') = ''high'' \<and>
   ParseSuffix (''m'' @ ''('' @ ''low'' @ '')'') =
      \<lparr>suf_ModelName = ''m'', suf_HasSuffix = True, suf_RawSuffix = ''low''\<rparr>"
  using ParseSuffix_roundtrip [of "''gpt(x)(high)''" "''low''" "''m''"] by code_simp

text \<open>A non-negative 64-bit budget written in decimal after a model name is read back as that
  budget (0 disables thinking), and its usage label is the level of the budget.\<close>

theorem numeric_suffix_effort:
  assumes "in_int64 (int n)"
  shows "parseSuffixToConfig (suf_RawSuffix (ParseSuffix (m @ ''('' @ go_format_int (int n) @ '')''))) =
      (if n = 0 then none_config else budget_config (int n)) \<and>
    Some (reasoningEffortFromSuffix (ParseSuffix (m @ ''('' @ go_format_int (int n) @ '')''))) =
      ConvertBudgetToLevel (int n)"
proof -
  have p: "CHR ''('' \<notin> set (go_format_int (int n))"
    by (auto simp: go_format_int_def dest: digits_of_chars)
  have c: "parseSuffixToConfig (go_format_int (int n)) = (if n = 0 then none_config else budget_config (int n))"
    using parseSuffixToConfig_digits [OF assms] by (simp add: go_format_int_def)
  obtain l where "ConvertBudgetToLevel (int n) = Some l"
    using ConvertBudgetToLevel_Some [of "int n"] by auto
  then show ?thesis
    unfolding ParseSuffix_build [OF p]
    by (auto simp: c reasoningEffortFromSuffix_def reasoningEffortFromConfig_def hasThinkingConfig_def
        ConvertBudgetToLevel_def)
qed

theorem numeric_suffix_effort_witness:
  "parseSuffixToConfig (suf_RawSuffix (ParseSuffix (''gpt'' @ ''('' @ go_format_int (int 8192) @ '')''))) =
     budget_config 8192"
  using numeric_suffix_effort [of 8192 "''gpt''"] by (simp add: in_int64_def)

text \<open>The two conversions agree: the level of a budget is monotone in the budget, a level's
  standard budget is mapped back to the level, and rounding a budget up to its level's standard
  budget is idempotent and never lowers a budget of at most 32768. The level max is the only
  one whose budget comes back as another level, xhigh.\<close>

theorem budget_level_conversions:
  "(a \<le> b \<and> -1 \<le> a \<longrightarrow>
      level_rank (the (ConvertBudgetToLevel a)) \<le> level_rank (the (ConvertBudgetToLevel b))) \<and>
   (-1 \<le> b \<longrightarrow> (\<exists>l c. ConvertBudgetToLevel b = Some l \<and> ConvertLevelToBudget l = Some c \<and>
      ConvertBudgetToLevel c = Some l \<and> (b \<le> 32768 \<longrightarrow> b \<le> c))) \<and>
   (\<forall>l c. ConvertLevelToBudget l = Some c \<longrightarrow>
      ConvertBudgetToLevel c = Some (if to_lower l = ''max'' then ''xhigh'' else to_lower l))"
proof (intro conjI impI allI)
  assume "a \<le> b \<and> -1 \<le> a"
  then show "level_rank (the (ConvertBudgetToLevel a)) \<le> level_rank (the (ConvertBudgetToLevel b))"
    using ConvertBudgetToLevel_Some [of a] ConvertBudgetToLevel_Some [of b]
    by (auto intro: ConvertBudgetToLevel_mono)
next
  assume "-1 \<le> b"
  then show "\<exists>l c. ConvertBudgetToLevel b = Some l \<and> ConvertLevelToBudget l = Some c \<and>
      ConvertBudgetToLevel c = Some l \<and> (b \<le> 32768 \<longrightarrow> b \<le> c)"
    by (auto simp: ConvertBudgetToLevel_def ConvertLevelToBudget_def levelToBudgetMap_def to_lower_lit)
next
  fix l c
  assume "ConvertLevelToBudget l = Some c"
  then show "ConvertBudgetToLevel c = Some (if to_lower l = ''max'' then ''xhigh'' else to_lower l)"
    by (auto simp: ConvertLevelToBudget_def levelToBudgetMap_def ConvertBudgetToLevel_def split: if_splits)
qed

theorem budget_level_conversions_witness:
  "level_rank (the (ConvertBudgetToLevel 600)) \<le> level_rank (the (ConvertBudgetToLevel 9000)) \<and>
   (\<exists>l c. ConvertBudgetToLevel 9000 = Some l \<and> ConvertLevelToBudget l = Some c \<and>
      ConvertBudgetToLevel c = Some l \<and> 9000 \<le> c)"
  using budget_level_conversions [of 600 9000] by simp

end
