(* ===== verification/Thinking_Validate.thy ===== *)
theory Thinking_Validate
  imports Thinking_Suffix
begin

text \<open>
  \<open>internal/thinking/validate.go\<close>: checking a configuration against a model's capabilities, with the
  clamping of levels and budgets; from \<open>apply.go\<close> the mapping of high intents and the normalisation
  for user-defined models. \<open>ValidateConfig\<close> is the composition of its six phases, one definition
  each, in the order of the code; an error is \<open>Inl\<close>. Logging is left out.
\<close>

section \<open>Levels\<close>

definition standardLevelOrder :: "ThinkingLevel list" where
  "standardLevelOrder = [LevelMinimal, LevelLow, LevelMedium, LevelHigh, LevelXHigh, LevelMax]"

fun isLevelSupported :: "string \<Rightarrow> string list \<Rightarrow> bool" where
  "isLevelSupported level [] = False"
| "isLevelSupported level (s # supported) =
     (if equal_fold level (trim_space s) then True else isLevelSupported level supported)"

fun levelIndex_from :: "int \<Rightarrow> string \<Rightarrow> ThinkingLevel list \<Rightarrow> int" where
  "levelIndex_from i level [] = -1"
| "levelIndex_from i level (l # ls) =
     (if equal_fold level l then i else levelIndex_from (i + 1) level ls)"

definition levelIndex :: "string \<Rightarrow> int" where
  "levelIndex level = levelIndex_from 0 level standardLevelOrder"

definition normalizeLevels :: "string list \<Rightarrow> string list" where
  "normalizeLevels levels = map (\<lambda>l. to_lower (trim_space l)) levels"

text \<open>One iteration of the loop of \<open>clampLevel\<close>, on the pair \<open>(bestIdx, bestDist)\<close>.\<close>

definition clamp_step :: "int \<Rightarrow> string \<Rightarrow> int \<times> int \<Rightarrow> int \<times> int" where
  "clamp_step pos s best =
     (let bestIdx = fst best; bestDist = snd best; idx = levelIndex (trim_space s) in
      if idx \<noteq> -1 then
        (let dist = \<bar>pos - idx\<bar> in
         if dist < bestDist \<or> (dist = bestDist \<and> idx < bestIdx) then (idx, dist) else best)
      else best)"

definition clampLevel :: "ThinkingLevel \<Rightarrow> ModelInfo option \<Rightarrow> ThinkingLevel" where
  "clampLevel level modelInfo =
     (let supported = (case modelInfo of
                         None \<Rightarrow> []
                       | Some info \<Rightarrow> (case mi_Thinking info of None \<Rightarrow> [] | Some t \<Rightarrow> ts_Levels t))
      in if length supported = 0 \<or> isLevelSupported level supported then level
         else (let pos = levelIndex level in
               if pos = -1 then level
               else (let best = fold (clamp_step pos) supported (-1, int (length standardLevelOrder) + 1);
                         bestIdx = fst best
                     in if bestIdx \<ge> 0 then standardLevelOrder ! nat bestIdx else level)))"

section \<open>Budgets\<close>

definition clampBudget :: "int \<Rightarrow> ModelInfo option \<Rightarrow> int" where
  "clampBudget value modelInfo =
     (case (case modelInfo of None \<Rightarrow> None | Some info \<Rightarrow> mi_Thinking info) of
        None \<Rightarrow> value
      | Some support \<Rightarrow>
          if value = -1 then value
          else if value = 0 \<and> \<not> ts_ZeroAllowed support then ts_Min support
          else if ts_Min support = 0 \<and> ts_Max support = 0 then value
          else if value < ts_Min support then
            (if value = 0 \<and> ts_ZeroAllowed support then 0 else ts_Min support)
          else if value > ts_Max support then ts_Max support
          else value)"

definition convertAutoToMidRange :: "ThinkingConfig \<Rightarrow> ThinkingSupport \<Rightarrow> ThinkingConfig" where
  "convertAutoToMidRange config support =
     (if length (ts_Levels support) > 0 \<and> ts_Min support = 0 \<and> ts_Max support = 0 then
        config\<lparr>cfg_Mode := ModeLevel, cfg_Level := LevelMedium, cfg_Budget := 0\<rparr>
      else
        (let mid = go_div (wrap64 (ts_Min support + ts_Max support)) 2 in
         if mid \<le> 0 \<and> ts_ZeroAllowed support then config\<lparr>cfg_Mode := ModeNone, cfg_Budget := 0\<rparr>
         else if mid \<le> 0 then config\<lparr>cfg_Mode := ModeBudget, cfg_Budget := ts_Min support\<rparr>
         else config\<lparr>cfg_Mode := ModeBudget, cfg_Budget := mid\<rparr>))"

section \<open>Provider families\<close>

definition isBudgetCapableProvider :: "string \<Rightarrow> bool" where
  "isBudgetCapableProvider provider \<longleftrightarrow>
     provider = ''gemini'' \<or> provider = ''antigravity'' \<or> provider = ''claude''"

definition isGeminiFamily :: "string \<Rightarrow> bool" where
  "isGeminiFamily provider \<longleftrightarrow> provider = ''gemini'' \<or> provider = ''antigravity''"

definition isOpenAIFamily :: "string \<Rightarrow> bool" where
  "isOpenAIFamily provider \<longleftrightarrow>
     provider = ''openai'' \<or> provider = ''openai-response'' \<or> provider = ''codex''"

definition isSameProviderFamily :: "string \<Rightarrow> string \<Rightarrow> bool" where
  "isSameProviderFamily src_fmt dst_fmt =
     (if src_fmt = dst_fmt then True
      else (isGeminiFamily src_fmt \<and> isGeminiFamily dst_fmt) \<or> (isOpenAIFamily src_fmt \<and> isOpenAIFamily dst_fmt))"

section \<open>The phases of validation\<close>

text \<open>Whether the model belongs to another family than the source or the target format.\<close>

definition model_family_mismatch :: "ModelInfo option \<Rightarrow> string \<Rightarrow> string \<Rightarrow> bool" where
  "model_family_mismatch modelInfo fromFormat toFormat =
     (case modelInfo of
        None \<Rightarrow> False
      | Some info \<Rightarrow>
          (let modelType = to_lower (trim_space (mi_Type info)) in
           modelType \<noteq> [] \<and>
           ((fromFormat \<noteq> [] \<and> \<not> isSameProviderFamily fromFormat modelType) \<or>
            (toFormat \<noteq> [] \<and> \<not> isSameProviderFamily toFormat modelType))))"

text \<open>Phase 1: conversion to the model's format. The flag is \<open>budgetDerivedFromLevel\<close>.\<close>

definition validate_convert ::
  "ThinkingConfig \<Rightarrow> ModelInfo option \<Rightarrow> ThinkingError + (ThinkingConfig \<times> bool)" where
  "validate_convert config modelInfo =
     (case detectModelCapability modelInfo of
        CapabilityBudgetOnly \<Rightarrow>
          if cfg_Mode config = ModeLevel then
            (if cfg_Level config = LevelAuto then Inr (config, False)
             else (case ConvertLevelToBudget (cfg_Level config) of
                     None \<Rightarrow> Inl (NewThinkingError ErrUnknownLevel (''unknown level: '' @ cfg_Level config))
                   | Some budget \<Rightarrow>
                       Inr (config\<lparr>cfg_Mode := ModeBudget, cfg_Budget := budget, cfg_Level := []\<rparr>, True)))
          else Inr (config, False)
      | CapabilityLevelOnly \<Rightarrow>
          if cfg_Mode config = ModeBudget then
            (case ConvertBudgetToLevel (cfg_Budget config) of
               None \<Rightarrow> Inl (NewThinkingError ErrUnknownLevel
                        (''budget '' @ go_format_int (cfg_Budget config) @
                         '' cannot be converted to a valid level''))
             | Some level \<Rightarrow>
                 Inr (config\<lparr>cfg_Mode := ModeLevel, cfg_Level := clampLevel level modelInfo,
                             cfg_Budget := 0\<rparr>, False))
          else Inr (config, False)
      | _ \<Rightarrow> Inr (config, False))"

text \<open>Phase 2: the level \<open>none\<close>, the level \<open>auto\<close> and the budget 0 become modes.\<close>

definition validate_special :: "ThinkingConfig \<Rightarrow> ThinkingConfig" where
  "validate_special config0 =
     (let config1 = (if cfg_Mode config0 = ModeLevel \<and> cfg_Level config0 = LevelNone
                     then config0\<lparr>cfg_Mode := ModeNone, cfg_Budget := 0, cfg_Level := []\<rparr> else config0);
          config2 = (if cfg_Mode config1 = ModeLevel \<and> cfg_Level config1 = LevelAuto
                     then config1\<lparr>cfg_Mode := ModeAuto, cfg_Budget := -1, cfg_Level := []\<rparr> else config1)
      in if cfg_Mode config2 = ModeBudget \<and> cfg_Budget config2 = 0
         then config2\<lparr>cfg_Mode := ModeNone, cfg_Level := []\<rparr> else config2)"

text \<open>Phase 3: an unsupported level is clamped when that is allowed, and rejected otherwise.\<close>

definition validate_level ::
  "ThinkingConfig \<Rightarrow> ModelInfo option \<Rightarrow> ThinkingSupport \<Rightarrow> bool \<Rightarrow> ThinkingError + ThinkingConfig" where
  "validate_level config0 modelInfo support allowClampUnsupported =
     (if length (ts_Levels support) > 0 \<and> cfg_Mode config0 = ModeLevel \<and>
         \<not> isLevelSupported (cfg_Level config0) (ts_Levels support)
      then (let config = (if allowClampUnsupported
                          then config0\<lparr>cfg_Level := clampLevel (cfg_Level config0) modelInfo\<rparr>
                          else config0)
            in if \<not> isLevelSupported (cfg_Level config) (ts_Levels support)
               then Inl (NewThinkingError ErrLevelNotSupported
                      (''level '' @ go_quote (to_lower (cfg_Level config)) @
                       '' not supported, valid levels: '' @
                       str_join (normalizeLevels (ts_Levels support)) '', ''))
               else Inr config)
      else Inr config0)"

text \<open>Phase 4: the strict budget check, which yields the error if there is one.\<close>

definition validate_budget :: "ThinkingConfig \<Rightarrow> ThinkingSupport \<Rightarrow> bool \<Rightarrow> bool \<Rightarrow> ThinkingError option" where
  "validate_budget config support strictBudget budgetDerivedFromLevel =
     (if strictBudget \<and> cfg_Mode config = ModeBudget \<and> \<not> budgetDerivedFromLevel \<and>
         (ts_Min support \<noteq> 0 \<or> ts_Max support \<noteq> 0) \<and>
         (cfg_Budget config < ts_Min support \<or> cfg_Budget config > ts_Max support \<or>
          (cfg_Budget config = 0 \<and> \<not> ts_ZeroAllowed support))
      then Some (NewThinkingError ErrBudgetOutOfRange
             (''budget '' @ go_format_int (cfg_Budget config) @ '' out of range ['' @
              go_format_int (ts_Min support) @ '','' @ go_format_int (ts_Max support) @ '']''))
      else None)"

text \<open>Phase 5: auto becomes a fixed amount when the model has no dynamic budget.\<close>

definition validate_auto ::
  "ThinkingConfig \<Rightarrow> ModelInfo option \<Rightarrow> ThinkingSupport \<Rightarrow> ThinkingConfig" where
  "validate_auto config0 modelInfo support =
     (if cfg_Mode config0 = ModeAuto \<and> \<not> ts_DynamicAllowed support then
        (let config = convertAutoToMidRange config0 support in
         if cfg_Mode config = ModeLevel \<and> length (ts_Levels support) > 0 \<and>
            \<not> isLevelSupported (cfg_Level config) (ts_Levels support)
         then config\<lparr>cfg_Level := clampLevel (cfg_Level config) modelInfo\<rparr>
         else config)
      else config0)"

text \<open>Phase 6: clamping, and the fallback for a model that cannot be disabled.\<close>

definition validate_clamp ::
  "ThinkingConfig \<Rightarrow> ModelInfo option \<Rightarrow> ThinkingSupport \<Rightarrow> string \<Rightarrow> ThinkingConfig" where
  "validate_clamp config0 modelInfo support toFormat =
     (if cfg_Mode config0 = ModeNone \<and> toFormat = ''claude'' then
        config0\<lparr>cfg_Budget := 0, cfg_Level := []\<rparr>
      else
        (let config = (if cfg_Mode config0 = ModeBudget \<or> cfg_Mode config0 = ModeAuto \<or>
                          cfg_Mode config0 = ModeNone
                       then config0\<lparr>cfg_Budget := clampBudget (cfg_Budget config0) modelInfo\<rparr>
                       else config0);
             cannotDisableLevelModel =
               (\<not> ts_ZeroAllowed support \<and> \<not> isLevelSupported LevelNone (ts_Levels support))
         in if cfg_Mode config = ModeNone \<and> length (ts_Levels support) > 0 \<and>
               (cfg_Budget config > 0 \<or> cannotDisableLevelModel)
            then config\<lparr>cfg_Level := hd (ts_Levels support)\<rparr>
            else config))"

definition ValidateConfig ::
  "ThinkingConfig \<Rightarrow> ModelInfo option \<Rightarrow> string \<Rightarrow> string \<Rightarrow> bool \<Rightarrow> ThinkingError + ThinkingConfig" where
  "ValidateConfig config modelInfo fromFormat0 toFormat0 fromSuffix =
     (let fromFormat = to_lower (trim_space fromFormat0);
          toFormat = to_lower (trim_space toFormat0);
          model = (case modelInfo of
                     None \<Rightarrow> ''unknown''
                   | Some info \<Rightarrow> if mi_ID info \<noteq> [] then mi_ID info else ''unknown'')
      in (case (case modelInfo of None \<Rightarrow> None | Some info \<Rightarrow> mi_Thinking info) of
            None \<Rightarrow>
              if cfg_Mode config \<noteq> ModeNone
              then Inl (NewThinkingErrorWithModel ErrThinkingNotSupported
                     ''thinking not supported for this model'' model)
              else Inr config
          | Some support \<Rightarrow>
              (let toCapability = detectModelCapability modelInfo;
                   toHasLevelSupport =
                     (toCapability = CapabilityLevelOnly \<or> toCapability = CapabilityHybrid);
                   modelFamilyMismatch = model_family_mismatch modelInfo fromFormat toFormat;
                   allowClampUnsupported =
                     (toHasLevelSupport \<and>
                      (\<not> isSameProviderFamily fromFormat toFormat \<or> modelFamilyMismatch));
                   strictBudget =
                     (\<not> fromSuffix \<and> fromFormat \<noteq> [] \<and>
                      isSameProviderFamily fromFormat toFormat \<and> \<not> modelFamilyMismatch)
               in (case validate_convert config modelInfo of
                     Inl e \<Rightarrow> Inl e
                   | Inr (config1, budgetDerivedFromLevel) \<Rightarrow>
                       (case validate_level (validate_special config1) modelInfo support
                               allowClampUnsupported of
                          Inl e \<Rightarrow> Inl e
                        | Inr config2 \<Rightarrow>
                            (case validate_budget config2 support strictBudget budgetDerivedFromLevel of
                               Some e \<Rightarrow> Inl e
                             | None \<Rightarrow>
                                 Inr (validate_clamp (validate_auto config2 modelInfo support)
                                        modelInfo support toFormat)))))))"

section \<open>High intents and user-defined models\<close>

definition shouldMapConfiguredHighIntent :: "string \<Rightarrow> string \<Rightarrow> ModelInfo option \<Rightarrow> bool" where
  "shouldMapConfiguredHighIntent fromFormat0 toFormat0 modelInfo =
     (let fromFormat = to_lower (trim_space fromFormat0);
          toFormat = to_lower (trim_space toFormat0)
      in if fromFormat \<noteq> toFormat then True
         else (case modelInfo of
                 None \<Rightarrow> False
               | Some info \<Rightarrow>
                   (let modelType = to_lower (trim_space (mi_Type info)) in
                    modelType \<noteq> [] \<and> \<not> isSameProviderFamily toFormat modelType)))"

fun first_supported :: "ThinkingLevel list \<Rightarrow> string list \<Rightarrow> ThinkingLevel \<Rightarrow> ThinkingLevel" where
  "first_supported [] supported level = level"
| "first_supported (candidate # candidates) supported level =
     (if isLevelSupported candidate supported then candidate
      else first_supported candidates supported level)"

definition mapConfiguredHighIntent :: "ThinkingLevel \<Rightarrow> ModelInfo option \<Rightarrow> ThinkingLevel" where
  "mapConfiguredHighIntent level0 modelInfo =
     (case (case modelInfo of None \<Rightarrow> None | Some info \<Rightarrow> mi_Thinking info) of
        None \<Rightarrow> level0
      | Some support \<Rightarrow>
          if length (ts_Levels support) = 0 then level0
          else (let level = to_lower (trim_space level0) in
                if level = LevelXHigh then
                  first_supported [LevelXHigh, LevelMax, LevelHigh] (ts_Levels support) level
                else if level = LevelMax then
                  first_supported [LevelMax, LevelXHigh, LevelHigh] (ts_Levels support) level
                else level))"

definition normalizeUserDefinedConfig :: "ThinkingConfig \<Rightarrow> string \<Rightarrow> ThinkingConfig" where
  "normalizeUserDefinedConfig config toFormat =
     (if cfg_Mode config \<noteq> ModeLevel then config
      else if toFormat = ''claude'' then config
      else if \<not> isBudgetCapableProvider toFormat then config
      else (case ConvertLevelToBudget (cfg_Level config) of
              None \<Rightarrow> config
            | Some budget \<Rightarrow> config\<lparr>cfg_Mode := ModeBudget, cfg_Budget := budget, cfg_Level := []\<rparr>))"

section \<open>Supported levels and the nearest one\<close>

lemma isLevelSupported_iff:
  "isLevelSupported level supported \<longleftrightarrow> (\<exists>s\<in>set supported. equal_fold level (trim_space s))"
  by (induction supported) auto

lemma isLevelSupported_fold:
  "equal_fold a b \<Longrightarrow> isLevelSupported a supported = isLevelSupported b supported"
  by (simp add: isLevelSupported_iff equal_fold_def)

lemma levelIndex_unfold:
  "levelIndex level =
     (let l = to_lower level in
      if l = LevelMinimal then 0 else if l = LevelLow then 1 else if l = LevelMedium then 2
      else if l = LevelHigh then 3 else if l = LevelXHigh then 4 else if l = LevelMax then 5 else -1)"
  by (simp add: levelIndex_def standardLevelOrder_def equal_fold_def Let_def to_lower_lit)

lemma levelIndex_cases:
  "levelIndex level = -1 \<or>
   (0 \<le> levelIndex level \<and> levelIndex level < 6 \<and>
    to_lower level = standardLevelOrder ! nat (levelIndex level))"
  by (simp add: levelIndex_unfold standardLevelOrder_def Let_def)

lemma levelIndex_fold: "equal_fold a b \<Longrightarrow> levelIndex a = levelIndex b"
  by (simp add: levelIndex_unfold equal_fold_def)

lemma levelIndex_standard: "0 \<le> i \<Longrightarrow> i < 6 \<Longrightarrow> levelIndex (standardLevelOrder ! nat i) = i"
proof -
  assume "0 \<le> i" "i < 6"
  then have "i = 0 \<or> i = 1 \<or> i = 2 \<or> i = 3 \<or> i = 4 \<or> i = 5" by arith
  then show ?thesis
    by (elim disjE) (simp_all add: levelIndex_unfold standardLevelOrder_def Let_def to_lower_lit)
qed

text \<open>The order in which candidates are preferred: by distance, then the lower level.\<close>

definition better :: "int \<Rightarrow> int \<Rightarrow> int \<Rightarrow> bool" where
  "better pos i j \<longleftrightarrow> \<bar>pos - i\<bar> < \<bar>pos - j\<bar> \<or> (\<bar>pos - i\<bar> = \<bar>pos - j\<bar> \<and> i \<le> j)"

lemma better_refl: "better pos i i"
  by (simp add: better_def)

lemma better_trans: "better pos i j \<Longrightarrow> better pos j k \<Longrightarrow> better pos i k"
  by (auto simp: better_def)

definition clamp_inv :: "int \<Rightarrow> string list \<Rightarrow> int \<times> int \<Rightarrow> bool" where
  "clamp_inv pos seen best \<longleftrightarrow>
     (fst best = -1 \<and> snd best = 7 \<and> (\<forall>s\<in>set seen. levelIndex (trim_space s) = -1)) \<or>
     (snd best = \<bar>pos - fst best\<bar> \<and> 0 \<le> fst best \<and>
      (\<exists>s\<in>set seen. levelIndex (trim_space s) = fst best) \<and>
      (\<forall>s\<in>set seen. levelIndex (trim_space s) \<noteq> -1 \<longrightarrow>
          better pos (fst best) (levelIndex (trim_space s))))"

lemma clamp_inv_step:
  assumes pos: "0 \<le> pos" "pos < 6" and inv: "clamp_inv pos seen best"
  shows "clamp_inv pos (seen @ [s]) (clamp_step pos s best)"
proof (cases "levelIndex (trim_space s) = -1")
  case True
  then show ?thesis using inv by (auto simp: clamp_step_def clamp_inv_def)
next
  case False
  then have idx: "0 \<le> levelIndex (trim_space s)" "levelIndex (trim_space s) < 6"
    using levelIndex_cases [of "trim_space s"] by auto
  obtain b d where best: "best = (b, d)" by (cases best)
  show ?thesis
  proof (cases "b = -1 \<and> d = 7")
    case True
    then have "\<bar>pos - levelIndex (trim_space s)\<bar> < d" using pos idx by auto
    then show ?thesis using best True idx inv False
      by (auto simp: clamp_step_def clamp_inv_def better_refl Let_def)
  next
    case old: False
    then have d: "d = \<bar>pos - b\<bar>" "0 \<le> b" and ex: "\<exists>s\<in>set seen. levelIndex (trim_space s) = b"
      and all: "\<forall>s\<in>set seen. levelIndex (trim_space s) \<noteq> -1 \<longrightarrow> better pos b (levelIndex (trim_space s))"
      using inv best by (auto simp: clamp_inv_def)
    show ?thesis
    proof (cases "\<bar>pos - levelIndex (trim_space s)\<bar> < d \<or>
        (\<bar>pos - levelIndex (trim_space s)\<bar> = d \<and> levelIndex (trim_space s) < b)")
      case True
      then have "better pos (levelIndex (trim_space s)) b" using d by (auto simp: better_def)
      with all have "\<forall>s'\<in>set seen. levelIndex (trim_space s') \<noteq> -1 \<longrightarrow>
          better pos (levelIndex (trim_space s)) (levelIndex (trim_space s'))"
        using better_trans by blast
      then show ?thesis using True best idx False
        by (auto simp: clamp_step_def clamp_inv_def better_refl Let_def)
    next
      case keep: False
      then have "better pos b (levelIndex (trim_space s))" using d by (auto simp: better_def)
      then show ?thesis using keep best d ex all False
        by (auto simp: clamp_step_def clamp_inv_def Let_def)
    qed
  qed
qed

lemma clamp_inv_fold:
  assumes pos: "0 \<le> pos" "pos < 6"
  shows "clamp_inv pos seen best \<Longrightarrow> clamp_inv pos (seen @ ss) (fold (clamp_step pos) ss best)"
proof (induction ss arbitrary: seen best)
  case (Cons s ss)
  from Cons.IH [OF clamp_inv_step [OF pos Cons.prems]] show ?case by simp
qed simp

abbreviation is_standard :: "string \<Rightarrow> bool" where
  "is_standard l \<equiv> levelIndex (trim_space l) \<noteq> -1"

lemma levelIndex_nth_supported:
  assumes "s \<in> set supported" "levelIndex (trim_space s) = i" "0 \<le> i"
  shows "isLevelSupported (standardLevelOrder ! nat i) supported"
proof -
  have "to_lower (trim_space s) = standardLevelOrder ! nat i" "i < 6"
    using assms levelIndex_cases [of "trim_space s"] by auto
  moreover have "to_lower (standardLevelOrder ! nat i) = standardLevelOrder ! nat i"
    using calculation by (metis to_lower_idem)
  ultimately have "equal_fold (standardLevelOrder ! nat i) (trim_space s)"
    by (simp add: equal_fold_def)
  with assms(1) show ?thesis by (auto simp: isLevelSupported_iff)
qed

lemma clampLevel_nearest_lemma:
  assumes th: "mi_Thinking info = Some support"
    and uns: "\<not> isLevelSupported level (ts_Levels support)"
    and lvl: "levelIndex level \<noteq> -1"
    and std: "\<exists>s\<in>set (ts_Levels support). is_standard s"
  shows "isLevelSupported (clampLevel level (Some info)) (ts_Levels support)"
    and "\<forall>s\<in>set (ts_Levels support). is_standard s \<longrightarrow>
        better (levelIndex level) (levelIndex (clampLevel level (Some info))) (levelIndex (trim_space s))"
proof -
  let ?ss = "ts_Levels support" and ?pos = "levelIndex level"
  define best where "best = fold (clamp_step ?pos) ?ss (-1, 7)"
  have pos: "0 \<le> ?pos" "?pos < 6" using levelIndex_cases [of level] lvl by auto
  have "clamp_inv ?pos [] (-1, 7)" by (simp add: clamp_inv_def)
  from clamp_inv_fold [OF pos this, of ?ss] have "clamp_inv ?pos ?ss best" by (simp add: best_def)
  with std obtain s where s: "s \<in> set ?ss" "levelIndex (trim_space s) = fst best" "0 \<le> fst best"
    and all: "\<forall>s\<in>set ?ss. is_standard s \<longrightarrow> better ?pos (fst best) (levelIndex (trim_space s))"
    unfolding clamp_inv_def by blast
  have "?ss \<noteq> []" using std by auto
  then have c: "clampLevel level (Some info) = standardLevelOrder ! nat (fst best)"
    using th uns lvl s(3) by (simp add: clampLevel_def Let_def best_def standardLevelOrder_def)
  show "isLevelSupported (clampLevel level (Some info)) ?ss"
    unfolding c using s by (rule levelIndex_nth_supported)
  have "fst best < 6" using levelIndex_cases [of "trim_space s"] s by auto
  then have "levelIndex (clampLevel level (Some info)) = fst best"
    unfolding c using s(3) by (simp add: levelIndex_standard)
  with all show "\<forall>s\<in>set ?ss. is_standard s \<longrightarrow>
      better ?pos (levelIndex (clampLevel level (Some info))) (levelIndex (trim_space s))" by simp
qed

lemma clampLevel_supported:
  "mi_Thinking info = Some support \<Longrightarrow> levelIndex level \<noteq> -1 \<Longrightarrow>
     \<exists>s\<in>set (ts_Levels support). is_standard s \<Longrightarrow>
     isLevelSupported (clampLevel level (Some info)) (ts_Levels support)"
  using clampLevel_nearest_lemma(1) [of info support level]
  by (cases "isLevelSupported level (ts_Levels support)") (auto simp: clampLevel_def)

section \<open>What validation establishes, phase by phase\<close>

definition wf_support :: "ThinkingSupport \<Rightarrow> bool" where
  "wf_support support \<longleftrightarrow> 0 \<le> ts_Min support \<and> ts_Min support \<le> ts_Max support"

text \<open>
  The two ways in which automatic thinking can be asked for without being recognised as such: as the budget -1, and, for
  a model with budgets only, as a level that is \<open>auto\<close> in another case.
\<close>

definition hidden_auto :: "ThinkingConfig \<Rightarrow> ModelInfo option \<Rightarrow> bool" where
  "hidden_auto config modelInfo \<longleftrightarrow>
     (cfg_Mode config = ModeBudget \<and> cfg_Budget config = -1) \<or>
     (cfg_Mode config = ModeLevel \<and> detectModelCapability modelInfo = CapabilityBudgetOnly \<and>
      to_lower (cfg_Level config) = LevelAuto \<and> cfg_Level config \<noteq> LevelAuto)"

lemma ConvertLevelToBudget_auto:
  "ConvertLevelToBudget l = Some b \<Longrightarrow> to_lower l \<noteq> LevelAuto \<Longrightarrow> 0 \<le> b"
  by (auto simp: ConvertLevelToBudget_def levelToBudgetMap_def split: if_splits)

lemma validate_convert_budget:
  assumes "\<not> hidden_auto config modelInfo" "validate_convert config modelInfo = Inr (c, d)"
  shows "cfg_Mode c = ModeBudget \<longrightarrow> cfg_Budget c \<noteq> -1"
  using assms
  by (auto simp: validate_convert_def hidden_auto_def split: ModelCapability.splits if_splits
      option.splits dest: ConvertLevelToBudget_auto)

lemma validate_special_level:
  "cfg_Mode (validate_special c) = ModeLevel \<Longrightarrow>
     cfg_Level (validate_special c) \<noteq> LevelNone \<and> cfg_Level (validate_special c) \<noteq> LevelAuto \<and>
     validate_special c = c"
  by (auto simp: validate_special_def Let_def split: if_splits)

lemma validate_special_budget:
  "cfg_Mode (validate_special c) = ModeBudget \<Longrightarrow>
     validate_special c = c \<and> cfg_Budget c \<noteq> 0"
  by (auto simp: validate_special_def Let_def split: if_splits)

lemma validate_level_cases:
  assumes "validate_level c0 modelInfo support a = Inr c"
  shows "cfg_Mode c = cfg_Mode c0" "cfg_Budget c = cfg_Budget c0"
    "cfg_Mode c = ModeLevel \<longrightarrow> ts_Levels support \<noteq> [] \<longrightarrow>
       isLevelSupported (cfg_Level c) (ts_Levels support)"
  using assms by (auto simp: validate_level_def Let_def split: if_splits)

lemma clampBudget_range:
  assumes "mi_Thinking info = Some support" "wf_support support" "v \<noteq> -1"
    "ts_Min support \<noteq> 0 \<or> ts_Max support \<noteq> 0"
  shows "(ts_Min support \<le> clampBudget v (Some info) \<and> clampBudget v (Some info) \<le> ts_Max support) \<or>
    (clampBudget v (Some info) = 0 \<and> v = 0 \<and> ts_ZeroAllowed support)"
  using assms by (auto simp: clampBudget_def wf_support_def)

lemma validate_auto_cases:
  assumes "wf_support support"
  shows "(validate_auto c modelInfo support = c \<and> (cfg_Mode c = ModeAuto \<longrightarrow> ts_DynamicAllowed support)) \<or>
    cfg_Mode (validate_auto c modelInfo support) = ModeNone \<or>
    (cfg_Mode (validate_auto c modelInfo support) = ModeBudget \<and>
     0 \<le> cfg_Budget (validate_auto c modelInfo support)) \<or>
    (cfg_Mode (validate_auto c modelInfo support) = ModeLevel \<and> ts_Levels support \<noteq> [] \<and>
     (isLevelSupported LevelMedium (ts_Levels support) \<and>
        cfg_Level (validate_auto c modelInfo support) = LevelMedium \<or>
      \<not> isLevelSupported LevelMedium (ts_Levels support) \<and>
        cfg_Level (validate_auto c modelInfo support) = clampLevel LevelMedium modelInfo))"
  using assms by (auto simp: validate_auto_def convertAutoToMidRange_def wf_support_def Let_def)

lemma validate_clamp_level:
  "cfg_Mode (validate_clamp c modelInfo support t) = cfg_Mode c"
  "cfg_Mode c = ModeLevel \<Longrightarrow> cfg_Level (validate_clamp c modelInfo support t) = cfg_Level c"
  by (auto simp: validate_clamp_def Let_def)

lemma validate_clamp_budget:
  "cfg_Mode c = ModeBudget \<Longrightarrow>
     cfg_Budget (validate_clamp c modelInfo support t) = clampBudget (cfg_Budget c) modelInfo"
  by (auto simp: validate_clamp_def Let_def)

lemma ValidateConfig_phases:
  assumes "mi_Thinking info = Some support" "ValidateConfig config (Some info) f t sfx = Inr c"
  obtains c1 d c2 a s where
    "validate_convert config (Some info) = Inr (c1, d)"
    "validate_level (validate_special c1) (Some info) support a = Inr c2"
    "validate_budget c2 support s d = None" "sfx \<longrightarrow> \<not> s"
    "c = validate_clamp (validate_auto c2 (Some info) support) (Some info) support (to_lower (trim_space t))"
  using assms by (auto simp: ValidateConfig_def Let_def split: sum.splits option.splits prod.splits)

lemma clampLevel_no_standard:
  assumes "\<not> (\<exists>s\<in>set (ts_Levels support). is_standard s)" "mi_Thinking info = Some support"
  shows "clampLevel level (Some info) = level"
proof -
  have "fold (clamp_step pos) ss best = best" if "\<forall>s\<in>set ss. \<not> is_standard s" for pos ss best
    using that by (induction ss arbitrary: best) (simp_all add: clamp_step_def)
  then show ?thesis using assms by (simp add: clampLevel_def Let_def)
qed

lemma ValidateConfig_level_lemma:
  assumes th: "mi_Thinking info = Some support" and wf: "wf_support support" and lv: "ts_Levels support \<noteq> []"
    and ok: "ValidateConfig config (Some info) f t sfx = Inr c" and lev: "cfg_Mode c = ModeLevel"
  shows "isLevelSupported (cfg_Level c) (ts_Levels support) \<or>
    cfg_Level c = LevelMedium \<and> \<not> (\<exists>s\<in>set (ts_Levels support). is_standard s)"
proof -
  from ValidateConfig_phases [OF th ok] obtain c1 d c2 a where
    l: "validate_level (validate_special c1) (Some info) support a = Inr c2"
    and c: "c = validate_clamp (validate_auto c2 (Some info) support) (Some info) support (to_lower (trim_space t))"
    by metis
  have m: "cfg_Mode (validate_auto c2 (Some info) support) = ModeLevel"
    and e: "cfg_Level c = cfg_Level (validate_auto c2 (Some info) support)"
    using lev c by (simp_all add: validate_clamp_level)
  have med: "levelIndex LevelMedium \<noteq> -1" by (simp add: levelIndex_unfold Let_def to_lower_lit)
  note cases = validate_auto_cases [OF wf, of c2 "Some info"]
  show ?thesis
  proof (cases "\<exists>s\<in>set (ts_Levels support). is_standard s")
    case True
    with cases show ?thesis
      using m e lv validate_level_cases(3) [OF l] clampLevel_supported [OF th med True] by auto
  next
    case False
    note none = clampLevel_no_standard [OF False th]
    from cases show ?thesis
      using m e lv validate_level_cases(3) [OF l] False unfolding none by auto
  qed
qed

lemma ValidateConfig_budget_lemma:
  assumes th: "mi_Thinking info = Some support" and wf: "wf_support support"
    and rng: "ts_Min support \<noteq> 0 \<or> ts_Max support \<noteq> 0"
    and ok: "ValidateConfig config (Some info) f t sfx = Inr c" and bud: "cfg_Mode c = ModeBudget"
  shows "ts_Min support \<le> cfg_Budget c \<and> cfg_Budget c \<le> ts_Max support \<or> cfg_Budget c = -1 \<and> hidden_auto config (Some info)"
proof -
  from ValidateConfig_phases [OF th ok] obtain c1 d c2 a where
    conv: "validate_convert config (Some info) = Inr (c1, d)"
    and l: "validate_level (validate_special c1) (Some info) support a = Inr c2"
    and c: "c = validate_clamp (validate_auto c2 (Some info) support) (Some info) support (to_lower (trim_space t))"
    by metis
  let ?a = "validate_auto c2 (Some info) support"
  have m: "cfg_Mode ?a = ModeBudget" and e: "cfg_Budget c = clampBudget (cfg_Budget ?a) (Some info)"
    using bud c by (simp_all add: validate_clamp_level validate_clamp_budget)
  have "(cfg_Budget ?a = -1 \<longrightarrow> hidden_auto config (Some info)) \<and> (cfg_Budget ?a = 0 \<longrightarrow> \<not> ts_ZeroAllowed support \<or> ts_Min support = 0)"
  proof (cases "?a = c2")
    case True
    with m validate_level_cases [OF l] have "cfg_Mode (validate_special c1) = ModeBudget" by simp
    from validate_special_budget [OF this] validate_convert_budget [OF _ conv]
      validate_level_cases [OF l] m True show ?thesis by auto
  next
    case False
    then show ?thesis using m wf
      by (auto simp: validate_auto_def convertAutoToMidRange_def wf_support_def Let_def
          split: if_splits)
  qed
  note a = this
  show ?thesis
  proof (cases "cfg_Budget ?a = -1")
    case True
    then have "cfg_Budget c = -1" using th by (simp add: e clampBudget_def)
    then show ?thesis using a True by blast
  next
    case False
    from clampBudget_range [OF th wf False rng] a wf show ?thesis by (auto simp: e wf_support_def)
  qed
qed

section \<open>Suffix budgets are clamped, never rejected\<close>

lemma ConvertBudgetToLevel_index:
  "0 < b \<Longrightarrow> ConvertBudgetToLevel b = Some l \<Longrightarrow> levelIndex l \<noteq> -1 \<and> l \<noteq> LevelNone \<and> l \<noteq> LevelAuto"
  by (auto simp: ConvertBudgetToLevel_def levelIndex_unfold Let_def to_lower_lit split: if_splits)

lemma standard_level_special: "levelIndex l \<noteq> -1 \<Longrightarrow> l \<noteq> LevelNone \<and> l \<noteq> LevelAuto"
  by (auto simp: levelIndex_unfold Let_def to_lower_lit)

lemma levelIndex_less: "levelIndex level < 6"
  using levelIndex_cases [of level] by auto

lemma clamp_inv_bound: "clamp_inv pos ss b \<Longrightarrow> fst b < 6"
  unfolding clamp_inv_def
proof (elim disjE conjE bexE)
  fix s
  assume "levelIndex (trim_space s) = fst b"
  then show "fst b < 6" using levelIndex_less [of "trim_space s"] by simp
qed simp

lemma clampLevel_index:
  assumes "levelIndex l \<noteq> -1" shows "levelIndex (clampLevel l (Some info)) \<noteq> -1"
proof (cases "clampLevel l (Some info) = l")
  case False
  define b where "b = fold (clamp_step (levelIndex l))
    (case mi_Thinking info of None \<Rightarrow> [] | Some t \<Rightarrow> ts_Levels t) (-1, 7)"
  have "clamp_inv (levelIndex l) [] (-1, 7)" by (simp add: clamp_inv_def)
  then have "clamp_inv (levelIndex l) (case mi_Thinking info of None \<Rightarrow> [] | Some t \<Rightarrow> ts_Levels t) b"
    using clamp_inv_fold [of "levelIndex l" "[]"] levelIndex_cases [of l] assms by (auto simp: b_def)
  then have "fst b < 6" by (rule clamp_inv_bound)
  moreover from False have "0 \<le> fst b \<and> clampLevel l (Some info) = standardLevelOrder ! nat (fst b)"
    using assms by (auto simp: clampLevel_def Let_def b_def standardLevelOrder_def split: if_splits)
  ultimately show ?thesis by (simp add: levelIndex_standard)
qed (use assms in simp)

lemma validate_budget_lenient: "validate_budget c support False d = None"
  by (simp add: validate_budget_def)

lemma validate_convert_positive:
  assumes "0 < b" "mi_Thinking info = Some support" "\<exists>s\<in>set (ts_Levels support). is_standard s"
  shows "\<exists>c. validate_convert (budget_config b) (Some info) = Inr (c, False) \<and>
    validate_level (validate_special c) (Some info) support a = Inr c"
proof (cases "detectModelCapability (Some info) = CapabilityLevelOnly")
  case True
  obtain l where l: "ConvertBudgetToLevel b = Some l"
    using ConvertBudgetToLevel_Some [of b] assms(1) by auto
  note i = ConvertBudgetToLevel_index [OF assms(1) l]
  with clampLevel_supported [OF assms(2) _ assms(3)]
  have "isLevelSupported (clampLevel l (Some info)) (ts_Levels support)" by blast
  moreover have "clampLevel l (Some info) \<noteq> LevelNone" "clampLevel l (Some info) \<noteq> LevelAuto"
    using standard_level_special clampLevel_index i by blast+
  ultimately show ?thesis using True l
    by (auto simp: validate_convert_def validate_special_def validate_level_def Let_def)
next
  case False
  with assms(1) show ?thesis
    by (auto simp: validate_convert_def validate_special_def validate_level_def Let_def
        split: ModelCapability.splits)
qed

section \<open>Properties\<close>

text \<open>C19. Clamping an unsupported standard level yields a level the model supports, at minimal
  distance among the model's standard levels, the lower one on a tie.\<close>

theorem clampLevel_nearest:
  assumes "mi_Thinking info = Some support" "\<not> isLevelSupported level (ts_Levels support)"
    "levelIndex level \<noteq> -1" "\<exists>s\<in>set (ts_Levels support). levelIndex (trim_space s) \<noteq> -1"
  shows "isLevelSupported (clampLevel level (Some info)) (ts_Levels support) \<and>
    (\<forall>s\<in>set (ts_Levels support).
       (let i = levelIndex (trim_space s); r = levelIndex (clampLevel level (Some info)) in
        i = -1 \<or> \<bar>levelIndex level - r\<bar> < \<bar>levelIndex level - i\<bar> \<or>
        (\<bar>levelIndex level - r\<bar> = \<bar>levelIndex level - i\<bar> \<and> r \<le> i)))"
  using clampLevel_nearest_lemma [OF assms] by (auto simp: better_def Let_def)

text \<open>C18. What a successful validation promises for a model with thinking support whose range is one
  (0 at least at its lower end, which is not above the upper one): a budget lies in
  the model's range, unless it is the -1 of an automatic mode that was not recognised (a budget -1, or on a model
  with budgets only a level that is \<open>auto\<close> in another case); a level is one the model lists, if it lists
  any, unless it is the level medium put in for the automatic mode and the model lists no standard level; and automatic
  thinking is only left for a model that allows it.\<close>

theorem ValidateConfig_sound:
  assumes "mi_Thinking info = Some support" "wf_support support"
    and "ValidateConfig config (Some info) f t sfx = Inr c"
  shows "(cfg_Mode c = ModeBudget \<and> (ts_Min support \<noteq> 0 \<or> ts_Max support \<noteq> 0) \<longrightarrow>
      ts_Min support \<le> cfg_Budget c \<and> cfg_Budget c \<le> ts_Max support \<or>
      cfg_Budget c = -1 \<and> hidden_auto config (Some info)) \<and>
    (cfg_Mode c = ModeLevel \<and> ts_Levels support \<noteq> [] \<longrightarrow>
      isLevelSupported (cfg_Level c) (ts_Levels support) \<or>
      cfg_Level c = LevelMedium \<and> \<not> (\<exists>s\<in>set (ts_Levels support). levelIndex (trim_space s) \<noteq> -1)) \<and>
    (cfg_Mode c = ModeAuto \<longrightarrow> ts_DynamicAllowed support)"
proof (intro conjI impI)
  assume "cfg_Mode c = ModeBudget \<and> (ts_Min support \<noteq> 0 \<or> ts_Max support \<noteq> 0)"
  then show "ts_Min support \<le> cfg_Budget c \<and> cfg_Budget c \<le> ts_Max support \<or> cfg_Budget c = -1 \<and> hidden_auto config (Some info)"
    using ValidateConfig_budget_lemma [OF assms(1,2) _ assms(3)] by blast
next
  assume "cfg_Mode c = ModeLevel \<and> ts_Levels support \<noteq> []"
  then show "isLevelSupported (cfg_Level c) (ts_Levels support) \<or>
      cfg_Level c = LevelMedium \<and> \<not> (\<exists>s\<in>set (ts_Levels support). levelIndex (trim_space s) \<noteq> -1)"
    using ValidateConfig_level_lemma [OF assms(1,2) _ assms(3)] by blast
next
  assume m: "cfg_Mode c = ModeAuto"
  from ValidateConfig_phases [OF assms(1,3)] obtain c2 where
    "c = validate_clamp (validate_auto c2 (Some info) support) (Some info) support (to_lower (trim_space t))"
    by metis
  with m have "cfg_Mode (validate_auto c2 (Some info) support) = ModeAuto"
    by (simp add: validate_clamp_level)
  with validate_auto_cases [OF assms(2), of c2 "Some info"] show "ts_DynamicAllowed support" by auto
qed

text \<open>A positive budget given as a model suffix is clamped and never rejected, for every source
  and target format, when the model lists a standard level.\<close>

theorem ValidateConfig_suffix_budget:
  assumes "mi_Thinking info = Some support" "0 < b"
    "\<exists>s\<in>set (ts_Levels support). levelIndex (trim_space s) \<noteq> -1"
  shows "\<exists>c. ValidateConfig (budget_config b) (Some info) f t True = Inr c"
proof -
  let ?a = "(detectModelCapability (Some info) = CapabilityLevelOnly \<or>
      detectModelCapability (Some info) = CapabilityHybrid) \<and>
    (\<not> isSameProviderFamily (to_lower (trim_space f)) (to_lower (trim_space t)) \<or>
     model_family_mismatch (Some info) (to_lower (trim_space f)) (to_lower (trim_space t)))"
  obtain c where "validate_convert (budget_config b) (Some info) = Inr (c, False)"
    "validate_level (validate_special c) (Some info) support ?a = Inr c"
    using validate_convert_positive [OF assms(2,1,3), of ?a] by blast
  with assms(1) show ?thesis
    by (simp add: ValidateConfig_def Let_def validate_budget_lenient)
qed

definition example_model :: "ThinkingSupport \<Rightarrow> ModelInfo" where
  "example_model support =
     \<lparr>mi_ID = ''m'', mi_Object = ''model'', mi_Created = 0, mi_OwnedBy = ''x'', mi_Type = [],
      mi_DisplayName = [], mi_Name = [], mi_Version = [], mi_Description = [],
      mi_InputTokenLimit = 0, mi_OutputTokenLimit = 0, mi_SupportedGenerationMethods = [],
      mi_ContextLength = 0, mi_MaxContextLength = 0, mi_MaxCompletionTokens = 0,
      mi_SupportedParameters = [], mi_SupportedInputModalities = [],
      mi_SupportedOutputModalities = [], mi_SupportsWebSearch = False,
      mi_Thinking = Some support, mi_Config = None, mi_UserDefined = False, mi_IsCompat = False\<rparr>"

definition low_high :: ThinkingSupport where
  "low_high = \<lparr>ts_Min = 0, ts_Max = 0, ts_ZeroAllowed = False, ts_DynamicAllowed = False,
     ts_Levels = [''low'', ''high'']\<rparr>"

definition budget_only :: ThinkingSupport where
  "budget_only = \<lparr>ts_Min = 128, ts_Max = 32768, ts_ZeroAllowed = False, ts_DynamicAllowed = False,
     ts_Levels = []\<rparr>"

lemma example_thinking: "mi_Thinking (example_model support) = Some support"
  by (simp add: example_model_def)

theorem clampLevel_nearest_witness:
  "isLevelSupported (clampLevel ''medium'' (Some (example_model low_high))) (ts_Levels low_high)"
proof -
  have "\<not> isLevelSupported ''medium'' (ts_Levels low_high)" "levelIndex ''medium'' \<noteq> -1"
    "\<exists>s\<in>set (ts_Levels low_high). levelIndex (trim_space s) \<noteq> -1"
    by code_simp+
  from clampLevel_nearest [OF example_thinking this] show ?thesis by blast
qed

theorem ValidateConfig_sound_witness:
  "\<exists>c. ValidateConfig (budget_config 99999) (Some (example_model budget_only)) ''openai'' ''gemini'' False = Inr c \<and>
     128 \<le> cfg_Budget c \<and> cfg_Budget c \<le> 32768"
proof -
  have v: "ValidateConfig (budget_config 99999) (Some (example_model budget_only)) ''openai'' ''gemini'' False =
      Inr (budget_config 32768)"
    by code_simp
  have "wf_support budget_only" "\<not> hidden_auto (budget_config 99999) (Some (example_model budget_only))" by code_simp+
  with ValidateConfig_sound [OF example_thinking _ v] v show ?thesis
    by (simp add: budget_only_def)
qed

theorem ValidateConfig_suffix_budget_witness:
  "\<exists>c. ValidateConfig (budget_config 5) (Some (example_model low_high)) ''claude'' ''codex'' True = Inr c"
proof -
  have "\<exists>s\<in>set (ts_Levels low_high). levelIndex (trim_space s) \<noteq> -1" by code_simp
  from ValidateConfig_suffix_budget [OF example_thinking _ this] show ?thesis by simp
qed

text \<open>C33. On a model with budgets only that does not allow dynamic thinking, a level that is \<open>auto\<close> up to case is
  understood only in lower case: then it becomes a budget in the model's range, or no thinking. In any other case it
  becomes the budget -1, for all formats and sources: the comparison with
  \<open>LevelAuto\<close> is exact while the level table is looked up in lower case.\<close>

theorem ValidateConfig_auto_case_sensitive:
  assumes "mi_Thinking info = Some support" "detectModelCapability (Some info) = CapabilityBudgetOnly"
    and "wf_support support" "\<not> ts_DynamicAllowed support" "to_lower l = LevelAuto"
  shows "if l = LevelAuto
    then \<exists>c. ValidateConfig (level_config l) (Some info) f t sfx = Inr c \<and>
      (cfg_Mode c = ModeNone \<or> cfg_Mode c = ModeBudget \<and> ts_Min support \<le> cfg_Budget c \<and> cfg_Budget c \<le> ts_Max support)
    else ValidateConfig (level_config l) (Some info) f t sfx = Inr (budget_config (-1))"
proof -
  have sup: "ts_Levels support = []" "ts_Min support \<noteq> 0 \<or> ts_Max support \<noteq> 0"
    using assms(1,2) by (auto simp: detectModelCapability_def Let_def split: if_splits)
  show ?thesis
  proof (cases "l = LevelAuto")
    case True
    let ?c = "validate_clamp (validate_auto auto_config (Some info) support) (Some info) support (to_lower (trim_space t))"
    have ok: "ValidateConfig (level_config l) (Some info) f t sfx = Inr ?c"
      using True sup by (simp add: ValidateConfig_def validate_convert_def assms(1,2) validate_special_def validate_level_def
          validate_budget_def Let_def)
    have "cfg_Mode ?c = ModeNone \<or> cfg_Mode ?c = ModeBudget"
      using sup assms(4) by (auto simp: validate_clamp_level validate_auto_def convertAutoToMidRange_def Let_def)
    moreover have "\<not> hidden_auto (level_config l) (Some info)" using True by (simp add: hidden_auto_def)
    ultimately show ?thesis
      using True ok ValidateConfig_budget_lemma [OF assms(1,3) sup(2) ok] by auto
  next
    case False
    have "ConvertLevelToBudget l = Some (-1)" by (simp add: ConvertLevelToBudget_def assms(5) levelToBudgetMap_def)
    then show ?thesis
      using False by (simp add: ValidateConfig_def validate_convert_def assms(1,2) validate_special_def validate_level_def
          validate_budget_def validate_auto_def validate_clamp_def clampBudget_def Let_def)
  qed
qed

theorem ValidateConfig_auto_case_sensitive_witness:
  "ValidateConfig (level_config ''AUTO'') (Some (example_model budget_only)) ''openai'' ''gemini'' False = Inr (budget_config (-1))"
proof -
  have *: "detectModelCapability (Some (example_model budget_only)) = CapabilityBudgetOnly" "wf_support budget_only"
    "\<not> ts_DynamicAllowed budget_only" "to_lower ''AUTO'' = LevelAuto" by code_simp+
  from ValidateConfig_auto_case_sensitive [OF example_thinking *] show ?thesis by simp
qed

end
