(* ===== verification/Auth_Types.thy ===== *)
theory Auth_Types
  imports Cred_Weight Thinking_Suffix
begin

text \<open>
  The credential record of \<open>sdk/cliproxy/auth/types.go\<close> with its model states, quota state and recent
  request ring, and the accessors over it: \<open>classification.go\<close>, \<open>credential_policy.go\<close>, \<open>weight.go\<close>,
  the overrides of \<open>types.go\<close> and the attribute readers of \<open>selector.go\<close>. A nil \<open>*Auth\<close> is \<open>None\<close>.
  Opaque fields that no modelled code reads (\<open>Storage\<close>, \<open>Runtime\<close>) are left out.
\<close>

section \<open>Records\<close>

datatype Status =
    StatusUnknown
  | StatusActive
  | StatusPending
  | StatusRefreshing
  | StatusError
  | StatusDisabled
  | StatusOther string

record AuthError =
  err_Code :: string
  err_Message :: string
  err_Retryable :: bool
  err_HTTPStatus :: int

record QuotaState =
  quota_Exceeded :: bool
  quota_Reason :: string
  quota_NextRecoverAt :: gotime
  quota_BackoffLevel :: int
  quota_ObservedAt :: gotime
  quota_Signals :: "(string \<times> string) list"

record ModelState =
  ms_Status :: Status
  ms_StatusMessage :: string
  ms_Unavailable :: bool
  ms_NextRetryAfter :: gotime
  ms_LastError :: "AuthError option"
  ms_Quota :: QuotaState
  ms_UpdatedAt :: gotime

record recentRequestBucket =
  rb_bucketID :: int
  rb_success :: int
  rb_failed :: int

record Auth =
  auth_ID :: string
  auth_Index :: string
  auth_Provider :: string
  auth_Prefix :: string
  auth_FileName :: string
  auth_Label :: string
  auth_Status :: Status
  auth_StatusMessage :: string
  auth_Disabled :: bool
  auth_Unavailable :: bool
  auth_ProxyURL :: string
  auth_Attributes :: "(string \<times> string) list"
  auth_Metadata :: "(string \<times> go_any) list"
  auth_Quota :: QuotaState
  auth_LastError :: "AuthError option"
  auth_CreatedAt :: gotime
  auth_UpdatedAt :: gotime
  auth_LastRefreshedAt :: gotime
  auth_NextRefreshAfter :: gotime
  auth_NextRetryAfter :: gotime
  auth_ModelStates :: "(string \<times> ModelState option) list"
  auth_Success :: int
  auth_Failed :: int
  auth_recentRequests :: "recentRequestBucket list"
  auth_indexAssigned :: bool

text \<open>The zero values of the structs.\<close>

definition zero_quota :: QuotaState where
  "zero_quota = \<lparr>quota_Exceeded = False, quota_Reason = [], quota_NextRecoverAt = 0,
     quota_BackoffLevel = 0, quota_ObservedAt = 0, quota_Signals = []\<rparr>"

definition zero_model_state :: ModelState where
  "zero_model_state = \<lparr>ms_Status = StatusOther [], ms_StatusMessage = [], ms_Unavailable = False,
     ms_NextRetryAfter = 0, ms_LastError = None, ms_Quota = zero_quota, ms_UpdatedAt = 0\<rparr>"

definition zero_bucket :: recentRequestBucket where
  "zero_bucket = \<lparr>rb_bucketID = 0, rb_success = 0, rb_failed = 0\<rparr>"

definition new_auth :: "string \<Rightarrow> string \<Rightarrow> Auth" where
  "new_auth authID provider = \<lparr>auth_ID = authID, auth_Index = [], auth_Provider = provider, auth_Prefix = [],
     auth_FileName = [], auth_Label = [], auth_Status = StatusActive, auth_StatusMessage = [],
     auth_Disabled = False, auth_Unavailable = False, auth_ProxyURL = [], auth_Attributes = [],
     auth_Metadata = [], auth_Quota = zero_quota, auth_LastError = None, auth_CreatedAt = 0,
     auth_UpdatedAt = 0, auth_LastRefreshedAt = 0, auth_NextRefreshAfter = 0,
     auth_NextRetryAfter = 0, auth_ModelStates = [], auth_Success = 0, auth_Failed = 0,
     auth_recentRequests = replicate 20 zero_bucket, auth_indexAssigned = False\<rparr>"

definition wf_auth :: "Auth \<Rightarrow> bool" where
  "wf_auth auth \<longleftrightarrow>
     wf_map (auth_Attributes auth) \<and> wf_map (auth_Metadata auth) \<and> wf_map (auth_ModelStates auth) \<and>
     length (auth_recentRequests auth) = 20"

section \<open>Attributes and metadata\<close>

text \<open>\<open>m[k]\<close> of a string map: the empty string when the key is missing.\<close>

definition map_str :: "(string \<times> string) list \<Rightarrow> string \<Rightarrow> string" where
  "map_str m k = (case map_of m k of None \<Rightarrow> [] | Some v \<Rightarrow> v)"

definition authAttribute :: "Auth option \<Rightarrow> string \<Rightarrow> string" where
  "authAttribute auth key =
     (case auth of None \<Rightarrow> [] | Some a \<Rightarrow> trim_space (map_str (auth_Attributes a) key))"

definition authMetadataString :: "Auth option \<Rightarrow> string \<Rightarrow> string" where
  "authMetadataString auth key =
     (case auth of
        None \<Rightarrow> []
      | Some a \<Rightarrow>
          (case map_of (auth_Metadata a) key of
             Some (AnyString value) \<Rightarrow> trim_space value
           | _ \<Rightarrow> []))"

section \<open>Classification\<close>

definition normalizeAuthKind :: "string \<Rightarrow> string" where
  "normalizeAuthKind kind =
     (let k = to_lower (trim_space kind) in
      if k = ''apikey'' \<or> k = ''api_key'' \<or> k = ''api-key'' then ''apikey''
      else if k = ''oauth'' \<or> k = ''oauth2'' then ''oauth''
      else [])"

definition normalizeAuthSourceKind :: "string \<Rightarrow> string" where
  "normalizeAuthSourceKind source =
     (let k = to_lower (trim_space source) in
      if k = ''config'' then ''config''
      else if k = ''file'' \<or> k = ''filesystem'' then ''file''
      else if k = ''git'' then ''git''
      else if k = ''memory'' \<or> k = ''runtime'' \<or> k = ''runtime_only'' then ''memory''
      else if k = ''objectstore'' \<or> k = ''object-store'' then ''objectstore''
      else if k = ''postgres'' \<or> k = ''postgresql'' \<or> k = ''database'' \<or> k = ''db'' then ''postgres''
      else [])"

definition authHasOAuthMetadata :: "Auth option \<Rightarrow> bool" where
  "authHasOAuthMetadata auth =
     (case auth of
        None \<Rightarrow> False
      | Some a \<Rightarrow>
          if auth_Metadata a = [] then False
          else if list_ex (\<lambda>key. authMetadataString auth key \<noteq> [])
                    [''access_token'', ''refresh_token'', ''id_token'', ''email'', ''token_type'',
                     ''expires_at'', ''expired'']
               then True
          else (case map_of (auth_Metadata a) ''token'' of
                  Some (AnyMap token) \<Rightarrow> length token > 0
                | _ \<Rightarrow> False))"

definition AuthKind :: "Auth option \<Rightarrow> string" where
  "AuthKind auth =
     (case auth of
        None \<Rightarrow> []
      | Some a \<Rightarrow>
          (let kind = normalizeAuthKind (authAttribute auth ''auth_kind'') in
           if kind \<noteq> [] then kind
           else (let kind' = normalizeAuthKind (authMetadataString auth ''auth_kind'') in
                 if kind' \<noteq> [] then kind'
                 else if authAttribute auth ''api_key'' \<noteq> [] then ''apikey''
                 else if authHasOAuthMetadata auth then ''oauth''
                 else [])))"

definition AuthSourceKind :: "Auth option \<Rightarrow> string" where
  "AuthSourceKind auth =
     (case auth of
        None \<Rightarrow> []
      | Some a \<Rightarrow>
          if equal_fold (authAttribute auth ''runtime_only'') ''true'' then ''memory''
          else (let src = normalizeAuthSourceKind (authAttribute auth ''source_backend'') in
                if src \<noteq> [] then src
                else (let source' = authAttribute auth ''source'' in
                      if source' \<noteq> [] then
                        (if has_prefix (to_lower source') ''config:'' then ''config''
                         else (let normalized = normalizeAuthSourceKind source' in
                               if normalized \<noteq> [] then normalized else ''file''))
                      else if authAttribute auth ''path'' \<noteq> [] then ''file''
                      else if trim_space (auth_FileName a) \<noteq> [] then ''file''
                      else [])))"

definition normalizeCredentialPolicy :: "string \<Rightarrow> string" where
  "normalizeCredentialPolicy policy =
     (if to_lower (trim_space policy) = ''codex_alpha_search_v1'' then ''codex_alpha_search_v1'' else [])"

definition credentialPolicyAllows :: "string \<Rightarrow> Auth option \<Rightarrow> bool" where
  "credentialPolicyAllows policy auth =
     (case auth of
        None \<Rightarrow> False
      | Some a \<Rightarrow>
          if policy = ''codex_alpha_search_v1'' then
            (if \<not> equal_fold (trim_space (auth_Provider a)) ''codex'' then False
             else if AuthKind auth = ''oauth'' then True
             else if AuthKind auth = ''apikey'' then
               equal_fold (authAttribute auth ''codex_alpha_search'') ''true''
             else False)
          else False)"

section \<open>Priority, weight, model key\<close>

definition authPriority :: "Auth option \<Rightarrow> int" where
  "authPriority auth =
     (case auth of
        None \<Rightarrow> 0
      | Some a \<Rightarrow>
          (let raw = trim_space (map_str (auth_Attributes a) ''priority'') in
           if raw = [] then 0
           else (case go_parse_int raw of None \<Rightarrow> 0 | Some parsed \<Rightarrow> parsed)))"

text \<open>\<open>credentialweight.ParseValue\<close> of a metadata weight; an unparsable one excludes the credential.\<close>

definition metadata_weight :: "Auth \<Rightarrow> int" where
  "metadata_weight a =
     (case map_of (auth_Metadata a) ''weight'' of
        None \<Rightarrow> DefaultWeight
      | Some rawWeight \<Rightarrow> (case ParseValue rawWeight of Inl _ \<Rightarrow> 0 | Inr weight \<Rightarrow> weight))"

definition authWeight :: "Auth option \<Rightarrow> int" where
  "authWeight auth =
     (case auth of
        None \<Rightarrow> DefaultWeight
      | Some a \<Rightarrow>
          (case map_of (auth_Attributes a) ''weight'' of
             Some rawWeight \<Rightarrow>
               if trim_space rawWeight \<noteq> [] then
                 (case ParseString rawWeight of Inl _ \<Rightarrow> 0 | Inr weight \<Rightarrow> weight)
               else metadata_weight a
           | None \<Rightarrow> metadata_weight a))"

datatype weight_source_error = AttributesWeight weight_error | MetadataWeight weight_error

definition ValidateAuthWeight :: "Auth option \<Rightarrow> weight_source_error option" where
  "ValidateAuthWeight auth =
     (case auth of
        None \<Rightarrow> None
      | Some a \<Rightarrow>
          (let meta = (case map_of (auth_Metadata a) ''weight'' of
                         None \<Rightarrow> None
                       | Some rawWeight \<Rightarrow>
                           (case ParseValue rawWeight of Inl e \<Rightarrow> Some (MetadataWeight e) | Inr _ \<Rightarrow> None))
           in (case map_of (auth_Attributes a) ''weight'' of
                 None \<Rightarrow> meta
               | Some rawWeight \<Rightarrow>
                   (case ParseString rawWeight of
                      Inl e \<Rightarrow> Some (AttributesWeight e)
                    | Inr _ \<Rightarrow> meta))))"

text \<open>The error, or the credential as it is after the call. A nil metadata map has no weight.\<close>

definition ApplyAuthWeightMetadata ::
  "Auth option \<Rightarrow> (string \<times> go_any) list \<Rightarrow> weight_source_error + Auth option" where
  "ApplyAuthWeightMetadata auth metadata =
     (case ValidateAuthWeight auth of
        Some e \<Rightarrow> Inl e
      | None \<Rightarrow>
          (case auth of
             None \<Rightarrow> Inr None
           | Some a \<Rightarrow>
               (case map_of metadata ''weight'' of
                  None \<Rightarrow> Inr auth
                | Some rawWeight \<Rightarrow>
                    (case ParseValue rawWeight of
                       Inl e \<Rightarrow> Inl (MetadataWeight e)
                     | Inr weight \<Rightarrow>
                         Inr (Some (a\<lparr>auth_Attributes :=
                           map_put ''weight'' (go_format_int weight) (auth_Attributes a)\<rparr>))))))"

definition canonicalModelKey :: "string \<Rightarrow> string" where
  "canonicalModelKey model0 =
     (let model = trim_space model0 in
      if model = [] then []
      else (let modelName = trim_space (suf_ModelName (ParseSuffix model)) in
            if modelName = [] then model else modelName))"

definition websockets_metadata :: "Auth \<Rightarrow> bool" where
  "websockets_metadata a =
     (case map_of (auth_Metadata a) ''websockets'' of
        Some (AnyBool v) \<Rightarrow> v
      | Some (AnyString v) \<Rightarrow> (case go_parse_bool (trim_space v) of Some parsed \<Rightarrow> parsed | None \<Rightarrow> False)
      | _ \<Rightarrow> False)"

definition authWebsocketsEnabled :: "Auth option \<Rightarrow> bool" where
  "authWebsocketsEnabled auth =
     (case auth of
        None \<Rightarrow> False
      | Some a \<Rightarrow>
          (let raw = trim_space (map_str (auth_Attributes a) ''websockets'') in
           if raw \<noteq> [] then
             (case go_parse_bool raw of Some parsed \<Rightarrow> parsed | None \<Rightarrow> websockets_metadata a)
           else websockets_metadata a))"

section \<open>Overrides\<close>

definition parseBoolAny :: "go_any \<Rightarrow> bool option" where
  "parseBoolAny val =
     (case val of
        AnyBool typed \<Rightarrow> Some typed
      | AnyString typed \<Rightarrow>
          (let trimmed = trim_space typed in if trimmed = [] then None else go_parse_bool trimmed)
      | AnyFloat64 typed \<Rightarrow> Some (float_nonzero typed)
      | AnyNumber typed \<Rightarrow> (case go_parse_int typed of None \<Rightarrow> None | Some parsed \<Rightarrow> Some (parsed \<noteq> 0))
      | _ \<Rightarrow> None)"

definition parseIntAny :: "go_any \<Rightarrow> int option" where
  "parseIntAny val =
     (case val of
        AnyInt typed \<Rightarrow> Some typed
      | AnyInt32 typed \<Rightarrow> Some typed
      | AnyInt64 typed \<Rightarrow> Some typed
      | AnyFloat64 typed \<Rightarrow> Some (float_to_int typed)
      | AnyNumber typed \<Rightarrow> go_parse_int typed
      | AnyString typed \<Rightarrow>
          (let trimmed = trim_space typed in if trimmed = [] then None else go_parse_int trimmed)
      | _ \<Rightarrow> None)"

text \<open>The first of the keys whose value parses.\<close>

fun first_parsed :: "('v \<Rightarrow> 'a option) \<Rightarrow> (string \<times> 'v) list \<Rightarrow> string list \<Rightarrow> 'a option" where
  "first_parsed parse m [] = None"
| "first_parsed parse m (key # keys) =
     (case map_of m key of
        None \<Rightarrow> first_parsed parse m keys
      | Some val \<Rightarrow>
          (case parse val of Some parsed \<Rightarrow> Some parsed | None \<Rightarrow> first_parsed parse m keys))"

definition DisableCoolingOverride :: "Auth option \<Rightarrow> bool option" where
  "DisableCoolingOverride auth =
     (case auth of
        None \<Rightarrow> None
      | Some a \<Rightarrow> first_parsed parseBoolAny (auth_Metadata a) [''disable_cooling'', ''disable-cooling''])"

definition ToolPrefixDisabled :: "Auth option \<Rightarrow> bool" where
  "ToolPrefixDisabled auth =
     (case auth of
        None \<Rightarrow> False
      | Some a \<Rightarrow>
          (case first_parsed parseBoolAny (auth_Metadata a)
                  [''tool_prefix_disabled'', ''tool-prefix-disabled''] of
             Some parsed \<Rightarrow> parsed
           | None \<Rightarrow> False))"

text \<open>The first key whose value parses decides, also when it decides that there is no override.\<close>

definition RequestRetryOverride :: "Auth option \<Rightarrow> int option" where
  "RequestRetryOverride auth =
     (case auth of
        None \<Rightarrow> None
      | Some a \<Rightarrow>
          (case first_parsed parseIntAny (auth_Metadata a) [''request_retry'', ''request-retry''] of
             Some parsed \<Rightarrow> if parsed < 0 then None else Some parsed
           | None \<Rightarrow> None))"

definition AccountInfo :: "Auth option \<Rightarrow> string \<times> string" where
  "AccountInfo auth =
     (if AuthKind auth = ''oauth'' then (''oauth'', authMetadataString auth ''email'')
      else if AuthKind auth = ''apikey'' then (''api_key'', authAttribute auth ''api_key'')
      else ([], []))"

definition normaliseUnix :: "int \<Rightarrow> gotime" where
  "normaliseUnix raw =
     (if raw \<le> 0 then zero_time
      else if raw > 1000000000000 then unix_milli_time raw
      else unix_time raw)"

section \<open>The recent request ring\<close>

abbreviation (input) recentRequestBucketSeconds :: int where "recentRequestBucketSeconds \<equiv> 600"
abbreviation (input) recentRequestBucketCount :: nat where "recentRequestBucketCount \<equiv> 20"

definition recentRequestBucketID :: "gotime \<Rightarrow> int" where
  "recentRequestBucketID now =
     (if now = zero_time then 0 else go_div (time_unix now) recentRequestBucketSeconds)"

text \<open>Go's remainder has the sign of the dividend; the code then adds the length.\<close>

definition go_rem :: "int \<Rightarrow> int \<Rightarrow> int" where
  "go_rem a b = a - b * go_div a b"

definition recentRequestBucketIndex :: "int \<Rightarrow> nat" where
  "recentRequestBucketIndex bucketID =
     (let m = go_rem bucketID (int recentRequestBucketCount) in
      nat (if m < 0 then m + int recentRequestBucketCount else m))"

definition recordRecentRequest :: "gotime \<Rightarrow> bool \<Rightarrow> Auth \<Rightarrow> Auth" where
  "recordRecentRequest now success a =
     (let bucketID = recentRequestBucketID now;
          idx = recentRequestBucketIndex bucketID;
          old = auth_recentRequests a ! idx;
          bucket = (if rb_bucketID old \<noteq> bucketID
                    then \<lparr>rb_bucketID = bucketID, rb_success = 0, rb_failed = 0\<rparr> else old);
          bucket' = (if success then bucket\<lparr>rb_success := wrap64 (rb_success bucket + 1)\<rparr>
                     else bucket\<lparr>rb_failed := wrap64 (rb_failed bucket + 1)\<rparr>)
      in a\<lparr>auth_recentRequests := (auth_recentRequests a)[idx := bucket']\<rparr>)"

text \<open>One entry of the snapshot: the success and failure counts of a bucket identifier.\<close>

definition bucket_counts :: "Auth \<Rightarrow> int \<Rightarrow> int \<times> int" where
  "bucket_counts a bucketID =
     (let bucket = auth_recentRequests a ! recentRequestBucketIndex bucketID in
      if rb_bucketID bucket = bucketID then (rb_success bucket, rb_failed bucket) else (0, 0))"

definition RecentRequestsSnapshot :: "gotime \<Rightarrow> Auth \<Rightarrow> (int \<times> int) list" where
  "RecentRequestsSnapshot now a =
     map (\<lambda>i. bucket_counts a (recentRequestBucketID now - int i)) (rev [0..<recentRequestBucketCount])"

section \<open>Laws of the accessors\<close>

definition valid_metadata :: "(string \<times> go_any) list \<Rightarrow> bool" where
  "valid_metadata m \<longleftrightarrow> list_all (\<lambda>(k, v). valid_any v) m"

lemma valid_metadata_lookup: "valid_metadata m \<Longrightarrow> map_of m k = Some v \<Longrightarrow> valid_any v"
  by (auto simp: valid_metadata_def list_all_iff dest: map_of_SomeD)

lemma valid_weight_0: "valid_weight 0" and valid_weight_1: "valid_weight 1"
  by (simp_all add: valid_weight_def)

lemma metadata_weight_valid: "valid_metadata (auth_Metadata a) \<Longrightarrow> valid_weight (metadata_weight a)"
  by (auto simp: metadata_weight_def valid_weight_0 valid_weight_1 split: option.splits sum.splits
      dest: valid_metadata_lookup ParseValue_valid)

lemma authWeight_valid:
  "(\<And>a. auth = Some a \<Longrightarrow> valid_metadata (auth_Metadata a)) \<Longrightarrow> valid_weight (authWeight auth)"
  by (auto simp: authWeight_def valid_weight_0 valid_weight_1 metadata_weight_valid
      split: option.splits sum.splits dest: ParseString_valid)

lemma go_format_int_trim_nonempty: "trim_space (go_format_int w) \<noteq> []"
  by simp

lemma go_rem_bounds: "-20 < go_rem a 20 \<and> go_rem a 20 < 20"
  by (cases "0 \<le> a") (auto simp: go_rem_def go_div_def sgn_if)

lemma go_rem_mod: "(if go_rem a 20 < 0 then go_rem a 20 + 20 else go_rem a 20) = a mod 20"
proof -
  have "a = go_rem a 20 + go_div a 20 * 20" by (simp add: go_rem_def)
  then have "a mod 20 = go_rem a 20 mod 20" by (metis mod_mult_self1)
  moreover have "(go_rem a 20 + 20) mod 20 = go_rem a 20 mod 20" by simp
  ultimately show ?thesis using go_rem_bounds [of a]
    by (smt (verit) mod_pos_pos_trivial)
qed

lemma recentRequestBucketIndex_mod: "recentRequestBucketIndex b = nat (b mod 20)"
  using go_rem_mod [of b] by (simp add: recentRequestBucketIndex_def Let_def split: if_splits)

lemma recentRequestBucketIndex_less [simp]: "recentRequestBucketIndex b < 20"
  by (simp add: recentRequestBucketIndex_mod nat_less_iff)

lemma recentRequestBucketIndex_eq:
  assumes "recentRequestBucketIndex b = recentRequestBucketIndex c" "\<bar>b - c\<bar> < 20"
  shows "b = c"
proof -
  have "b mod 20 = c mod 20"
    using assms(1) by (simp add: recentRequestBucketIndex_mod eq_nat_nat_iff)
  then have "20 dvd b - c" by (simp add: mod_eq_dvd_iff)
  with assms(2) show ?thesis using dvd_imp_le_int [of "b - c" 20] by force
qed

lemma record_other_bucket:
  assumes "length (auth_recentRequests a) = 20" "c \<noteq> recentRequestBucketID now"
    "\<bar>recentRequestBucketID now - c\<bar> < 20"
  shows "bucket_counts (recordRecentRequest now success a) c = bucket_counts a c"
proof -
  have "recentRequestBucketIndex c \<noteq> recentRequestBucketIndex (recentRequestBucketID now)"
    using recentRequestBucketIndex_eq [of "recentRequestBucketID now" c] assms by auto
  then show ?thesis by (simp add: bucket_counts_def recordRecentRequest_def Let_def)
qed

lemma record_same_bucket:
  assumes "length (auth_recentRequests a) = 20"
  shows "bucket_counts (recordRecentRequest now success a) (recentRequestBucketID now) =
    (let (s, f) = bucket_counts a (recentRequestBucketID now)
     in if success then (wrap64 (s + 1), f) else (s, wrap64 (f + 1)))"
  using assms by (simp add: bucket_counts_def recordRecentRequest_def Let_def)

section \<open>Properties\<close>

text \<open>Recording a request changes the snapshot taken at the same time in its last entry only:
  there the success or the failure count grows by one, and the nineteen older entries are as
  before.\<close>

theorem recent_requests_snapshot:
  assumes "length (auth_recentRequests a) = 20"
    and "RecentRequestsSnapshot now a = older @ [(s, f)]"
  shows "RecentRequestsSnapshot now (recordRecentRequest now success a) =
    older @ [if success then (wrap64 (s + 1), f) else (s, wrap64 (f + 1))]"
proof -
  let ?b = "recentRequestBucketID now" and ?a = "recordRecentRequest now success a"
  have r: "rev [0..<20] = rev [1..<20] @ [0::nat]" by (simp add: upt_conv_Cons)
  have snap: "RecentRequestsSnapshot now x =
      map (\<lambda>i. bucket_counts x (?b - int i)) (rev [1..<20]) @ [bucket_counts x ?b]" for x
    unfolding RecentRequestsSnapshot_def r by simp
  have "map (\<lambda>i. bucket_counts ?a (?b - int i)) (rev [1..<20]) =
      map (\<lambda>i. bucket_counts a (?b - int i)) (rev [1..<20])"
    by (rule map_cong [OF refl]) (rule record_other_bucket [OF assms(1)], auto)
  moreover have "bucket_counts ?a ?b = (if success then (wrap64 (s + 1), f) else (s, wrap64 (f + 1)))"
    using record_same_bucket [OF assms(1), of now success] assms(2) by (simp add: snap)
  moreover have "older = map (\<lambda>i. bucket_counts a (?b - int i)) (rev [1..<20])"
    using assms(2) by (simp add: snap del: map_eq_conv)
  ultimately show ?thesis by (simp only: snap)
qed

theorem recent_requests_snapshot_witness:
  "RecentRequestsSnapshot (unix_time 600) (recordRecentRequest (unix_time 600) True (new_auth ''a'' ''p'')) =
     replicate 19 (0, 0) @ [(1, 0)]"
proof -
  have "length (auth_recentRequests (new_auth ''a'' ''p'')) = 20" by (simp add: new_auth_def)
  moreover have "RecentRequestsSnapshot (unix_time 600) (new_auth ''a'' ''p'') = replicate 19 (0, 0) @ [(0, 0)]"
    by code_simp
  ultimately show ?thesis
    using recent_requests_snapshot [of "new_auth ''a'' ''p''" "unix_time 600" "replicate 19 (0, 0)" 0 0 True]
    by (simp add: in_int64_def)
qed

text \<open>A weight applied from metadata is the weight the schedulers use afterwards, and it lies
  between 0 and the maximum; a credential with an invalid weight of its own is refused.\<close>

theorem ApplyAuthWeightMetadata_effect:
  assumes "valid_metadata metadata" "map_of metadata ''weight'' = Some raw"
  shows "(case ApplyAuthWeightMetadata (Some a) metadata of
      Inl e \<Rightarrow> ValidateAuthWeight (Some a) = Some e \<or> (\<exists>e'. ParseValue raw = Inl e')
    | Inr a' \<Rightarrow> ParseValue raw = Inr (authWeight a') \<and> 0 \<le> authWeight a' \<and> authWeight a' \<le> MaxWeight)"
proof (cases "ValidateAuthWeight (Some a)")
  case None
  show ?thesis
  proof (cases "ParseValue raw")
    case (Inl e)
    with None assms(2) show ?thesis by (simp add: ApplyAuthWeightMetadata_def)
  next
    case (Inr w)
    with assms have v: "valid_weight w" by (blast intro: ParseValue_valid valid_metadata_lookup)
    let ?a' = "a\<lparr>auth_Attributes := map_put ''weight'' (go_format_int w) (auth_Attributes a)\<rparr>"
    have "authWeight (Some ?a') = w"
      using v by (simp add: authWeight_def update_conv' ParseString_format)
    with None Inr assms(2) v show ?thesis by (simp add: ApplyAuthWeightMetadata_def valid_weight_def)
  qed
qed (simp add: ApplyAuthWeightMetadata_def)

theorem ApplyAuthWeightMetadata_effect_witness:
  "(case ApplyAuthWeightMetadata (Some (new_auth ''a'' ''p'')) [(''weight'', AnyInt 7)] of
      Inl _ \<Rightarrow> False | Inr a' \<Rightarrow> authWeight a' = 7)"
proof -
  have "valid_metadata [(''weight'', AnyInt 7)]" "map_of [(''weight'', AnyInt 7)] ''weight'' = Some (AnyInt 7)"
    by (simp_all add: valid_metadata_def in_int64_def)
  from ApplyAuthWeightMetadata_effect [OF this, of "new_auth ''a'' ''p''"] show ?thesis
    by (simp add: ApplyAuthWeightMetadata_def ValidateAuthWeight_def new_auth_def Normalize_def)
qed

section \<open>Model keys\<close>

text \<open>
  \<open>canonicalModelKey\<close> is not idempotent: a name with two suffix groups loses one group per call.
\<close>

lemma canonicalModelKey_not_idempotent:
  "canonicalModelKey ''m(x)(high)'' = ''m(x)''"
  "canonicalModelKey (canonicalModelKey ''m(x)(high)'') = ''m''"
  by code_simp+

lemma canonicalModelKey_plain:
  "CHR ''('' \<notin> set (trim_space m) \<Longrightarrow> canonicalModelKey m = trim_space m"
  by (simp add: canonicalModelKey_def ParseSuffix_plain Let_def)

end
