(* ===== verification/Availability.thy ===== *)
theory Availability
  imports Auth_Types "HOL-Library.Multiset"
begin

text \<open>
  From \<open>sdk/cliproxy/auth/selector.go\<close>: when a credential is blocked for a model, and the list of
  available credentials the selectors choose from. \<open>now\<close> is a parameter, and so is the order in which
  Go visits a map: it is the order of the association list. \<open>sort.Slice\<close> is \<open>sort_key\<close>; Go
  leaves the order of equal identifiers open, and identifiers of a manager are distinct.
\<close>

datatype sel_error =
    AuthErr AuthError
  | ModelCooldownErr string string duration

definition auth_error :: "string \<Rightarrow> string \<Rightarrow> sel_error" where
  "auth_error code message =
     AuthErr \<lparr>err_Code = code, err_Message = message, err_Retryable = False, err_HTTPStatus = 0\<rparr>"

definition newModelCooldownError :: "string \<Rightarrow> string \<Rightarrow> duration \<Rightarrow> sel_error" where
  "newModelCooldownError model provider resetIn =
     ModelCooldownErr model provider (if resetIn < 0 then 0 else resetIn)"

section \<open>Blocking\<close>

datatype blockReason = blockReasonNone | blockReasonCooldown | blockReasonDisabled | blockReasonOther

type_synonym block = "bool \<times> blockReason \<times> gotime"

definition later_candidate :: "gotime \<Rightarrow> gotime \<Rightarrow> gotime \<Rightarrow> gotime" where
  "later_candidate now candidate next_ts =
     (if time_after candidate now \<and> (next_ts = zero_time \<or> time_after candidate next_ts)
      then candidate else next_ts)"

definition availabilityBlock :: "bool \<Rightarrow> bool \<Rightarrow> gotime \<Rightarrow> gotime \<Rightarrow> gotime \<Rightarrow> block" where
  "availabilityBlock unavailable quotaExceeded nextRetryAfter nextRecoverAt now =
     (if \<not> unavailable \<and> \<not> quotaExceeded then (False, blockReasonNone, zero_time)
      else
        (let hasRecoveryTime = (nextRetryAfter \<noteq> zero_time \<or> nextRecoverAt \<noteq> zero_time);
             next_ts = fold (later_candidate now) [nextRetryAfter, nextRecoverAt] zero_time
         in if next_ts \<noteq> zero_time then
              (if quotaExceeded then (True, blockReasonCooldown, next_ts)
               else (True, blockReasonOther, next_ts))
            else if hasRecoveryTime then (False, blockReasonNone, zero_time)
            else (True, blockReasonOther, zero_time)))"

definition state_block :: "ModelState \<Rightarrow> gotime \<Rightarrow> block" where
  "state_block state now =
     availabilityBlock (ms_Unavailable state) (quota_Exceeded (ms_Quota state))
       (ms_NextRetryAfter state) (quota_NextRecoverAt (ms_Quota state)) now"

definition auth_block :: "Auth \<Rightarrow> gotime \<Rightarrow> block" where
  "auth_block auth now =
     availabilityBlock (auth_Unavailable auth) (quota_Exceeded (auth_Quota auth))
       (auth_NextRetryAfter auth) (quota_NextRecoverAt (auth_Quota auth)) now"

text \<open>
  The loop over \<open>auth.ModelStates\<close>: the accumulator is \<open>matched\<close> and the triple
  \<open>(blocked, blockedReason, nextRetry)\<close>.
\<close>

fun model_states_block ::
  "string \<Rightarrow> gotime \<Rightarrow> (string \<times> ModelState option) list \<Rightarrow> bool \<Rightarrow> block \<Rightarrow> block" where
  "model_states_block modelKey now [] matched acc =
     (if matched then acc else (False, blockReasonNone, zero_time))"
| "model_states_block modelKey now ((stateModel, state) # states) matched acc =
     (case state of
        None \<Rightarrow> model_states_block modelKey now states matched acc
      | Some st \<Rightarrow>
          if canonicalModelKey stateModel \<noteq> modelKey then
            model_states_block modelKey now states matched acc
          else if ms_Status st = StatusDisabled then (True, blockReasonDisabled, zero_time)
          else
            (case state_block st now of
               (stateBlocked, reason, next_ts) \<Rightarrow>
                 if \<not> stateBlocked then model_states_block modelKey now states True acc
                 else if next_ts = zero_time then (True, reason, zero_time)
                 else
                   (case acc of (blocked, blockedReason, nextRetry) \<Rightarrow>
                      if \<not> blocked \<or> time_after next_ts nextRetry \<or>
                         (next_ts = nextRetry \<and> reason = blockReasonCooldown)
                      then model_states_block modelKey now states True (True, reason, next_ts)
                      else model_states_block modelKey now states True acc)))"

definition credential_quota_block :: "Auth \<Rightarrow> gotime \<Rightarrow> bool" where
  "credential_quota_block auth now \<longleftrightarrow>
     quota_Exceeded (auth_Quota auth) \<and> quota_Reason (auth_Quota auth) = ''credential_quota'' \<and>
     time_after (quota_NextRecoverAt (auth_Quota auth)) now"

definition isAuthBlockedForModel :: "Auth option \<Rightarrow> string \<Rightarrow> gotime \<Rightarrow> block" where
  "isAuthBlockedForModel auth0 model now =
     (case auth0 of
        None \<Rightarrow> (True, blockReasonOther, zero_time)
      | Some auth \<Rightarrow>
          if auth_Disabled auth \<or> auth_Status auth = StatusDisabled then
            (True, blockReasonDisabled, zero_time)
          else if credential_quota_block auth now then
            (True, blockReasonCooldown, quota_NextRecoverAt (auth_Quota auth))
          else if model \<noteq> [] then
            (if length (auth_ModelStates auth) > 0 then
               model_states_block (canonicalModelKey model) now (auth_ModelStates auth) False
                 (False, blockReasonNone, zero_time)
             else auth_block auth now)
          else auth_block auth now)"

section \<open>Available credentials\<close>

definition bucket_append :: "int \<Rightarrow> Auth \<Rightarrow> (int \<times> Auth list) list \<Rightarrow> (int \<times> Auth list) list" where
  "bucket_append priority a m =
     map_put priority ((case map_of m priority of None \<Rightarrow> [] | Some b \<Rightarrow> b) @ [a]) m"

text \<open>The three named results: the buckets, \<open>cooldownCount\<close> and \<open>earliest\<close>.\<close>

fun collect_loop ::
  "string \<Rightarrow> gotime \<Rightarrow> Auth option list \<Rightarrow> (int \<times> Auth list) list \<Rightarrow> nat \<Rightarrow> gotime \<Rightarrow>
     (int \<times> Auth list) list \<times> nat \<times> gotime" where
  "collect_loop model now [] available cooldownCount earliest = (available, cooldownCount, earliest)"
| "collect_loop model now (candidate # auths) available cooldownCount earliest =
     (case isAuthBlockedForModel candidate model now of
        (blocked, reason, next_ts) \<Rightarrow>
          if \<not> blocked then
            (case candidate of
               Some a \<Rightarrow> collect_loop model now auths (bucket_append (authPriority candidate) a available)
                          cooldownCount earliest
             | None \<Rightarrow> collect_loop model now auths available cooldownCount earliest)
          else if reason = blockReasonCooldown then
            collect_loop model now auths available (Suc cooldownCount)
              (if next_ts \<noteq> zero_time \<and> (earliest = zero_time \<or> time_before next_ts earliest)
               then next_ts else earliest)
          else collect_loop model now auths available cooldownCount earliest)"

definition collectAvailableByPriority ::
  "Auth option list \<Rightarrow> string \<Rightarrow> gotime \<Rightarrow> (int \<times> Auth list) list \<times> nat \<times> gotime" where
  "collectAvailableByPriority auths model now = collect_loop model now auths [] 0 zero_time"

text \<open>The greatest key, by the loop with \<open>found\<close>; 0 for the empty map.\<close>

definition best_priority_step :: "int \<Rightarrow> bool \<times> int \<Rightarrow> bool \<times> int" where
  "best_priority_step priority st =
     (if \<not> fst st \<or> priority > snd st then (True, priority) else st)"

definition availableAuthsFromPriorityBuckets :: "(int \<times> Auth list) list \<Rightarrow> bool \<Rightarrow> Auth list" where
  "availableAuthsFromPriorityBuckets availableByPriority allPriorities =
     (let candidates =
            (if allPriorities then concat (map snd availableByPriority)
             else (let bestPriority = snd (fold best_priority_step (map fst availableByPriority) (False, 0))
                   in (case map_of availableByPriority bestPriority of None \<Rightarrow> [] | Some b \<Rightarrow> b)))
      in if length candidates > 1 then sort_key auth_ID candidates else candidates)"

definition getAvailableAuthsWithPriorityMode ::
  "Auth option list \<Rightarrow> string \<Rightarrow> string \<Rightarrow> gotime \<Rightarrow> bool \<Rightarrow> sel_error + Auth list" where
  "getAvailableAuthsWithPriorityMode auths provider model now allPriorities =
     (if length auths = 0 then Inl (auth_error ''auth_not_found'' ''no auth candidates'')
      else
        (case collectAvailableByPriority auths model now of
           (availableByPriority, cooldownCount, earliest) \<Rightarrow>
             if length availableByPriority = 0 then
               (if cooldownCount = length auths \<and> earliest \<noteq> zero_time then
                  (let providerForError = (if provider = ''mixed'' then [] else provider);
                       resetIn = time_sub earliest now
                   in Inl (newModelCooldownError model providerForError
                        (if resetIn < 0 then 0 else resetIn)))
                else Inl (auth_error ''auth_unavailable'' ''no auth available''))
             else Inr (availableAuthsFromPriorityBuckets availableByPriority allPriorities)))"

definition getAvailableAuths ::
  "Auth option list \<Rightarrow> string \<Rightarrow> string \<Rightarrow> gotime \<Rightarrow> sel_error + Auth list" where
  "getAvailableAuths auths provider model now =
     getAvailableAuthsWithPriorityMode auths provider model now False"

definition getAvailableAuthsAcrossPriorities ::
  "Auth option list \<Rightarrow> string \<Rightarrow> string \<Rightarrow> gotime \<Rightarrow> sel_error + Auth list" where
  "getAvailableAuthsAcrossPriorities auths provider model now =
     getAvailableAuthsWithPriorityMode auths provider model now True"

text \<open>The counting loop of \<open>highestPriorityAuths\<close> on \<open>(bestPriority, bestCount)\<close>.\<close>

definition highest_step :: "Auth \<Rightarrow> int \<times> nat \<Rightarrow> int \<times> nat" where
  "highest_step auth st =
     (let priority = authPriority (Some auth) in
      if snd st = 0 \<or> priority > fst st then (priority, 1)
      else if priority = fst st then (fst st, Suc (snd st))
      else st)"

definition highestPriorityAuths :: "Auth list \<Rightarrow> Auth list" where
  "highestPriorityAuths auths =
     (if length auths \<le> 1 then auths
      else (case fold highest_step auths (0, 0) of
              (bestPriority, bestCount) \<Rightarrow>
                if bestCount = length auths then auths
                else filter (\<lambda>auth. authPriority (Some auth) = bestPriority) auths))"

definition preferCodexWebsocketAuths :: "bool \<Rightarrow> string \<Rightarrow> Auth list \<Rightarrow> Auth list" where
  "preferCodexWebsocketAuths downstreamWebsocket provider available =
     (if length available = 0 then available
      else if \<not> downstreamWebsocket then available
      else if \<not> equal_fold (trim_space provider) ''codex'' then available
      else (let wsEnabled = filter (\<lambda>candidate. authWebsocketsEnabled (Some candidate)) available
            in if length wsEnabled > 0 then wsEnabled else available))"

section \<open>Blocking as an interval of time\<close>

text \<open>
  The specification of blocking: a credential is blocked for ever, or up to a point in time. The time
  is the greatest recovery time of the states that match the model key.
\<close>

definition flags_forever :: "bool \<Rightarrow> bool \<Rightarrow> gotime \<Rightarrow> gotime \<Rightarrow> bool" where
  "flags_forever u q r c \<longleftrightarrow> (u \<or> q) \<and> r = 0 \<and> c = 0"

definition flags_until :: "bool \<Rightarrow> bool \<Rightarrow> gotime \<Rightarrow> gotime \<Rightarrow> gotime" where
  "flags_until u q r c = (if u \<or> q then max 0 (max r c) else 0)"

definition state_forever :: "ModelState \<Rightarrow> bool" where
  "state_forever st \<longleftrightarrow> ms_Status st = StatusDisabled \<or>
     flags_forever (ms_Unavailable st) (quota_Exceeded (ms_Quota st)) (ms_NextRetryAfter st)
       (quota_NextRecoverAt (ms_Quota st))"

definition state_until :: "ModelState \<Rightarrow> gotime" where
  "state_until st =
     flags_until (ms_Unavailable st) (quota_Exceeded (ms_Quota st)) (ms_NextRetryAfter st)
       (quota_NextRecoverAt (ms_Quota st))"

definition matching_states :: "string \<Rightarrow> (string \<times> ModelState option) list \<Rightarrow> ModelState list" where
  "matching_states modelKey states =
     concat (map (\<lambda>(k, s). case s of Some st \<Rightarrow> if canonicalModelKey k = modelKey then [st] else []
                                    | None \<Rightarrow> []) states)"

definition uses_model_states :: "Auth \<Rightarrow> string \<Rightarrow> bool" where
  "uses_model_states a model \<longleftrightarrow> model \<noteq> [] \<and> auth_ModelStates a \<noteq> []"

definition blocked_forever :: "Auth \<Rightarrow> string \<Rightarrow> bool" where
  "blocked_forever a model \<longleftrightarrow>
     auth_Disabled a \<or> auth_Status a = StatusDisabled \<or>
     (if uses_model_states a model
      then list_ex state_forever (matching_states (canonicalModelKey model) (auth_ModelStates a))
      else flags_forever (auth_Unavailable a) (quota_Exceeded (auth_Quota a)) (auth_NextRetryAfter a)
             (quota_NextRecoverAt (auth_Quota a)))"

definition model_until :: "Auth \<Rightarrow> string \<Rightarrow> gotime" where
  "model_until a model =
     (if uses_model_states a model
      then foldr max (map state_until
             (matching_states (canonicalModelKey model) (auth_ModelStates a))) 0
      else flags_until (auth_Unavailable a) (quota_Exceeded (auth_Quota a)) (auth_NextRetryAfter a)
             (quota_NextRecoverAt (auth_Quota a)))"

definition credential_until :: "Auth \<Rightarrow> gotime" where
  "credential_until a =
     (if quota_Exceeded (auth_Quota a) \<and> quota_Reason (auth_Quota a) = ''credential_quota''
      then max 0 (quota_NextRecoverAt (auth_Quota a)) else 0)"

definition blocked_until :: "Auth \<Rightarrow> string \<Rightarrow> gotime" where
  "blocked_until a model = max (credential_until a) (model_until a model)"

lemma availabilityBlock_interval:
  assumes "0 \<le> now"
  shows "availabilityBlock u q r c now =
    (flags_forever u q r c \<or> now < flags_until u q r c,
     if now < flags_until u q r c then (if q then blockReasonCooldown else blockReasonOther)
     else if flags_forever u q r c then blockReasonOther else blockReasonNone,
     if now < flags_until u q r c then flags_until u q r c else 0)"
  using assms
  by (auto simp: availabilityBlock_def later_candidate_def flags_forever_def flags_until_def Let_def)

lemma state_block_interval:
  "0 \<le> now \<Longrightarrow> ms_Status st \<noteq> StatusDisabled \<Longrightarrow>
     fst (state_block st now) = (state_forever st \<or> now < state_until st) \<and>
     snd (snd (state_block st now)) = (if now < state_until st then state_until st else 0)"
  by (simp add: state_block_def state_forever_def state_until_def availabilityBlock_interval)

lemma flags_forever_until: "flags_forever u q r c \<Longrightarrow> flags_until u q r c = 0"
  by (simp add: flags_forever_def flags_until_def)

lemma state_forever_until:
  "state_forever st \<Longrightarrow> ms_Status st \<noteq> StatusDisabled \<Longrightarrow> state_until st = 0"
  by (auto simp: state_forever_def state_until_def flags_forever_until)

lemma matching_states_simps [simp]:
  "matching_states key [] = []"
  "matching_states key ((k, None) # states) = matching_states key states"
  "matching_states key ((k, Some st) # states) =
     (if canonicalModelKey k = key then [st] else []) @ matching_states key states"
  by (simp_all add: matching_states_def)

text \<open>A state of the loop: nothing blocked so far, or blocked until a later time.\<close>

definition loop_acc :: "gotime \<Rightarrow> bool \<Rightarrow> block \<Rightarrow> bool" where
  "loop_acc now matched acc \<longleftrightarrow>
     (fst acc \<longrightarrow> matched \<and> now < snd (snd acc)) \<and> (\<not> fst acc \<longrightarrow> acc = (False, blockReasonNone, 0))"

definition acc_step :: "gotime \<Rightarrow> ModelState \<Rightarrow> block \<Rightarrow> block" where
  "acc_step now st acc =
     (let r = fst (snd (state_block st now)) in
      if now < state_until st \<and>
         (\<not> fst acc \<or> snd (snd acc) < state_until st \<or>
          (state_until st = snd (snd acc) \<and> r = blockReasonCooldown))
      then (True, r, state_until st) else acc)"

lemma model_states_block_step:
  assumes "0 \<le> now" "ms_Status st \<noteq> StatusDisabled" "\<not> state_forever st" "canonicalModelKey k = key"
  shows "model_states_block key now ((k, Some st) # states) matched acc =
    model_states_block key now states True (acc_step now st acc)"
proof -
  obtain b r n where sb: "state_block st now = (b, r, n)" by (cases "state_block st now") auto
  then have "b = (now < state_until st)" "n = (if now < state_until st then state_until st else 0)"
    using state_block_interval [OF assms(1,2)] assms(3) by auto
  then show ?thesis using assms sb by (cases acc) (auto simp: acc_step_def)
qed

lemma model_states_block_hard:
  assumes "0 \<le> now" "state_forever st" "canonicalModelKey k = key"
  shows "fst (model_states_block key now ((k, Some st) # states) matched acc) \<and>
    snd (snd (model_states_block key now ((k, Some st) # states) matched acc)) = 0"
  using assms state_block_interval [of now st] state_forever_until [of st]
  by (cases "state_block st now") auto

lemma loop_acc_step:
  "0 \<le> now \<Longrightarrow> loop_acc now matched acc \<Longrightarrow>
     loop_acc now True (acc_step now st acc) \<and>
     snd (snd (acc_step now st acc)) =
       (if now < state_until st then max (snd (snd acc)) (state_until st) else snd (snd acc))"
  by (auto simp: loop_acc_def acc_step_def Let_def max_def)

lemma model_states_block_forever:
  "0 \<le> now \<Longrightarrow> list_ex state_forever (matching_states key states) \<Longrightarrow>
     fst (model_states_block key now states matched acc) \<and>
     snd (snd (model_states_block key now states matched acc)) = 0"
proof (induction states arbitrary: matched acc)
  case (Cons ks states)
  obtain k s where ks: "ks = (k, s)" by (cases ks)
  show ?case
  proof (cases s)
    case (Some st)
    show ?thesis
    proof (cases "canonicalModelKey k = key")
      case key: True
      show ?thesis
      proof (cases "state_forever st")
        case True
        with model_states_block_hard [OF Cons.prems(1) True key] show ?thesis by (simp add: ks Some)
      next
        case False
        then have "ms_Status st \<noteq> StatusDisabled" by (auto simp: state_forever_def)
        from model_states_block_step [OF Cons.prems(1) this False key] show ?thesis
          using Cons.IH [OF Cons.prems(1)] Cons.prems(2) False key by (simp add: ks Some)
      qed
    qed (use Cons in \<open>simp add: ks Some\<close>)
  qed (use Cons in \<open>simp add: ks\<close>)
qed simp

lemma model_states_block_until:
  "0 \<le> now \<Longrightarrow> \<not> list_ex state_forever (matching_states key states) \<Longrightarrow> loop_acc now matched acc \<Longrightarrow>
     (let lim = max (snd (snd acc)) (foldr max (map state_until (matching_states key states)) 0);
          res = model_states_block key now states matched acc
      in fst res = (now < lim) \<and> snd (snd res) = (if now < lim then lim else 0))"
proof (induction states arbitrary: matched acc)
  case Nil
  then show ?case by (auto simp: loop_acc_def Let_def max_def)
next
  case (Cons ks states)
  obtain k s where ks: "ks = (k, s)" by (cases ks)
  show ?case
  proof (cases s)
    case None
    with Cons show ?thesis by (simp add: ks)
  next
    case (Some st)
    show ?thesis
    proof (cases "canonicalModelKey k = key")
      case False
      with Cons Some show ?thesis by (simp add: ks)
    next
      case True
      with Cons.prems(2) have nf: "\<not> state_forever st" "\<not> list_ex state_forever (matching_states key states)"
        by (auto simp: ks Some)
      then have nd: "ms_Status st \<noteq> StatusDisabled" by (auto simp: state_forever_def)
      note l = loop_acc_step [OF Cons.prems(1,3), of st]
      from Cons.IH [OF Cons.prems(1) nf(2) conjunct1 [OF l]] show ?thesis
        unfolding ks Some model_states_block_step [OF Cons.prems(1) nd nf(1) True]
        using conjunct2 [OF l] True by (simp add: Let_def max_def split: if_splits)
    qed
  qed
qed

lemma foldr_max_nonneg: "0 \<le> foldr max xs (0 :: int)"
  by (induction xs) auto

lemma isAuthBlocked_cases:
  assumes "0 \<le> now"
  shows "fst (isAuthBlockedForModel (Some a) model now) =
      (blocked_forever a model \<or> now < blocked_until a model)"
    and "\<not> auth_Disabled a \<Longrightarrow> auth_Status a \<noteq> StatusDisabled \<Longrightarrow>
      snd (snd (isAuthBlockedForModel (Some a) model now)) =
      (if now < credential_until a then credential_until a
       else if blocked_forever a model then 0
       else if now < model_until a model then model_until a model else 0)"
proof -
  have cred: "credential_quota_block a now = (now < credential_until a)"
    using assms by (auto simp: credential_quota_block_def credential_until_def)
  have cu: "now < credential_until a \<Longrightarrow> quota_NextRecoverAt (auth_Quota a) = credential_until a"
    using assms by (auto simp: credential_until_def split: if_splits)
  let ?states = "auth_ModelStates a" and ?key = "canonicalModelKey model"
  let ?acc = "(False, blockReasonNone, 0 :: int)"
  have acc: "loop_acc now False ?acc" by (simp add: loop_acc_def)
  have nn: "0 \<le> foldr max (map state_until (matching_states ?key ?states)) (0 :: int)"
    by (rule foldr_max_nonneg)
  note F = model_states_block_forever [OF assms, of ?key ?states False ?acc]
  note U = model_states_block_until [OF assms _ acc, of ?key ?states]
  show "fst (isAuthBlockedForModel (Some a) model now) =
      (blocked_forever a model \<or> now < blocked_until a model)"
    using F U cu nn
    by (auto simp: isAuthBlockedForModel_def blocked_forever_def blocked_until_def model_until_def
        uses_model_states_def auth_block_def availabilityBlock_interval [OF assms] cred Let_def
        less_max_iff_disj)
  show "\<not> auth_Disabled a \<Longrightarrow> auth_Status a \<noteq> StatusDisabled \<Longrightarrow>
      snd (snd (isAuthBlockedForModel (Some a) model now)) =
      (if now < credential_until a then credential_until a
       else if blocked_forever a model then 0
       else if now < model_until a model then model_until a model else 0)"
    using F U cu nn
    by (auto simp: isAuthBlockedForModel_def blocked_forever_def model_until_def
        uses_model_states_def auth_block_def availabilityBlock_interval [OF assms] cred Let_def
        flags_forever_until)
qed

lemma foldr_max_Max: "foldr max xs (0 :: int) = Max (insert 0 (set xs))"
proof (induction xs)
  case (Cons x xs)
  have "Max (insert 0 (set (x # xs))) = Max (insert x (insert 0 (set xs)))"
    by (simp add: insert_commute)
  also have "\<dots> = max x (Max (insert 0 (set xs)))" by (rule Max_insert) auto
  finally show ?case using Cons by simp
qed simp

lemma set_matching_states:
  "set (matching_states key states) = {st. \<exists>k. (k, Some st) \<in> set states \<and> canonicalModelKey k = key}"
  by (force simp: matching_states_def split: option.splits if_splits)

lemma matching_states_cong:
  assumes "set states = set states'"
  shows "list_ex P (matching_states key states) = list_ex P (matching_states key states')"
    and "foldr max (map f (matching_states key states)) (0 :: int) =
      foldr max (map f (matching_states key states')) 0"
  using assms by (simp_all add: list_ex_iff foldr_max_Max set_matching_states)

section \<open>The collected buckets\<close>

definition unblocked :: "Auth option list \<Rightarrow> string \<Rightarrow> gotime \<Rightarrow> Auth list" where
  "unblocked auths model now =
     concat (map (\<lambda>c. case c of None \<Rightarrow> [] | Some a \<Rightarrow>
       if fst (isAuthBlockedForModel c model now) then [] else [a]) auths)"

lemma unblocked_simps [simp]:
  "unblocked [] model now = []"
  "unblocked (None # auths) model now = unblocked auths model now"
  "unblocked (Some a # auths) model now =
     (if fst (isAuthBlockedForModel (Some a) model now) then [] else [a]) @ unblocked auths model now"
  by (simp_all add: unblocked_def)

definition cooling :: "string \<Rightarrow> gotime \<Rightarrow> Auth option \<Rightarrow> bool" where
  "cooling model now c \<longleftrightarrow> fst (isAuthBlockedForModel c model now) \<and>
     fst (snd (isAuthBlockedForModel c model now)) = blockReasonCooldown"

definition bucket_rep :: "(int \<times> Auth list) list \<Rightarrow> Auth list \<Rightarrow> bool" where
  "bucket_rep m l \<longleftrightarrow> wf_map m \<and>
     (\<forall>p. map_of m p = (let b = filter (\<lambda>a. authPriority (Some a) = p) l
                         in if b = [] then None else Some b))"

lemma bucket_rep_append:
  "bucket_rep m l \<Longrightarrow> bucket_rep (bucket_append (authPriority (Some a)) a m) (l @ [a])"
  by (auto simp: bucket_rep_def bucket_append_def Let_def go_map split: option.splits)

lemma collect_loop_spec:
  "bucket_rep m l \<Longrightarrow>
     (case collect_loop model now auths m n e of
        (m', n', e') \<Rightarrow> bucket_rep m' (l @ unblocked auths model now) \<and>
          n' = n + length (filter (cooling model now) auths))"
proof (induction auths arbitrary: l m n e)
  case (Cons candidate auths)
  obtain b r t where blk: "isAuthBlockedForModel candidate model now = (b, r, t)"
    by (cases "isAuthBlockedForModel candidate model now") auto
  show ?case
  proof (cases b)
    case False
    then obtain a where a: "candidate = Some a"
      using blk by (cases candidate) (auto simp: isAuthBlockedForModel_def)
    with Cons.IH [OF bucket_rep_append [OF Cons.prems], of a n e] False blk
    show ?thesis by (simp add: cooling_def)
  next
    case True
    then show ?thesis
      using Cons.IH [OF Cons.prems, of "Suc n"] Cons.IH [OF Cons.prems, of n] blk
      by (cases candidate) (auto simp: cooling_def)
  qed
qed simp

lemma collectAvailableByPriority_spec:
  assumes "collectAvailableByPriority auths model now = (m, n, e)"
  shows "bucket_rep m (unblocked auths model now)" "n = length (filter (cooling model now) auths)"
proof -
  have "bucket_rep [] []" by (simp add: bucket_rep_def)
  from collect_loop_spec [OF this, where model = model and now = now and auths = auths and n = 0 and e = 0] assms
  show "bucket_rep m (unblocked auths model now)" "n = length (filter (cooling model now) auths)"
    by (simp_all add: collectAvailableByPriority_def)
qed

section \<open>The flattened buckets\<close>

lemma best_priority_fold:
  "fold best_priority_step ps (True, p) = (True, Max (insert p (set ps)))"
proof (induction ps arbitrary: p)
  case (Cons q ps)
  have "Max (insert p (set (q # ps))) = Max (insert (max p q) (set ps))"
    by (cases "ps = []") (simp_all add: max.left_commute max.assoc)
  with Cons show ?case by (auto simp: best_priority_step_def max_def)
qed simp

lemma best_priority_Max: "ps \<noteq> [] \<Longrightarrow> snd (fold best_priority_step ps (False, 0)) = Max (set ps)"
  by (cases ps) (simp_all add: best_priority_step_def best_priority_fold)

abbreviation prio :: "Auth \<Rightarrow> int" where
  "prio a \<equiv> authPriority (Some a)"

text \<open>The credentials of the greatest priority, in the given order.\<close>

definition top_tier :: "Auth list \<Rightarrow> Auth list" where
  "top_tier l = filter (\<lambda>a. \<forall>b\<in>set l. prio b \<le> prio a) l"

lemma top_tier_Max: "top_tier l = filter (\<lambda>a. prio a = Max (prio ` set l)) l"
  unfolding top_tier_def
  by (rule filter_cong [OF refl]) (auto intro: Max_eqI [symmetric] simp: Max_ge)

lemma top_tier_nonempty: "l \<noteq> [] \<Longrightarrow> top_tier l \<noteq> []"
proof -
  assume "l \<noteq> []"
  then have "Max (prio ` set l) \<in> prio ` set l" by (intro Max_in) auto
  then show ?thesis by (auto simp: top_tier_Max filter_empty_conv)
qed

lemma set_top_tier: "set (top_tier l) = {a \<in> set l. \<forall>b\<in>set l. prio b \<le> prio a}"
  by (simp add: top_tier_def)

lemma bucket_rep_keys: "bucket_rep m l \<Longrightarrow> fst ` set m = prio ` set l"
proof -
  assume r: "bucket_rep m l"
  have "p \<in> fst ` set m \<longleftrightarrow> p \<in> prio ` set l" for p
  proof -
    have "p \<in> fst ` set m \<longleftrightarrow> map_of m p \<noteq> None" by (simp add: map_of_eq_None_iff)
    also have "\<dots> \<longleftrightarrow> filter (\<lambda>a. prio a = p) l \<noteq> []" using r by (simp add: bucket_rep_def Let_def)
    also have "\<dots> \<longleftrightarrow> p \<in> prio ` set l" by (auto simp: filter_empty_conv)
    finally show ?thesis .
  qed
  then show ?thesis by blast
qed

lemma bucket_rep_empty: "bucket_rep m l \<Longrightarrow> m = [] \<longleftrightarrow> l = []"
  using bucket_rep_keys [of m l] by auto

lemma bucket_rep_mset: "bucket_rep m l \<Longrightarrow> mset (concat (map snd m)) = mset l"
proof (induction m arbitrary: l)
  case Nil
  then show ?case using bucket_rep_empty by fastforce
next
  case (Cons pb m)
  obtain p b where pb: "pb = (p, b)" by (cases pb)
  have b: "b = filter (\<lambda>a. prio a = p) l"
    using Cons.prems by (auto simp: bucket_rep_def pb Let_def dest!: spec [of _ p] split: if_splits)
  have "map_of m q = (let c = filter (\<lambda>a. prio a = q) (filter (\<lambda>a. prio a \<noteq> p) l)
                      in if c = [] then None else Some c)" for q
  proof (cases "q = p")
    case True
    have "map_of m p = None" using Cons.prems by (auto simp: bucket_rep_def pb map_of_eq_None_iff)
    with True show ?thesis by simp
  next
    case False
    then have "filter (\<lambda>a. prio a = q) (filter (\<lambda>a. prio a \<noteq> p) l) = filter (\<lambda>a. prio a = q) l"
      by (auto intro: filter_cong)
    with Cons.prems False show ?thesis
      by (auto simp: bucket_rep_def pb dest!: spec [of _ q])
  qed
  then have "bucket_rep m (filter (\<lambda>a. prio a \<noteq> p) l)"
    using Cons.prems by (simp add: bucket_rep_def pb)
  from Cons.IH [OF this] show ?case by (simp add: pb b)
qed

lemma sort_key_short: "length l \<le> 1 \<Longrightarrow> sort_key f l = l"
  by (cases l; cases "tl l") auto

lemma sort_key_empty: "sort_key f l = [] \<longleftrightarrow> l = []"
  by (metis length_0_conv length_sort)

lemma flatten_top:
  assumes "bucket_rep m l" "l \<noteq> []"
  shows "availableAuthsFromPriorityBuckets m False = sort_key auth_ID (top_tier l)"
proof -
  have "m \<noteq> []" using assms bucket_rep_empty by blast
  then have best: "snd (fold best_priority_step (map fst m) (False, 0)) = Max (prio ` set l)"
    using bucket_rep_keys [OF assms(1)] by (simp add: best_priority_Max)
  have "map_of m (Max (prio ` set l)) = Some (top_tier l)"
    using assms top_tier_nonempty [OF assms(2)] by (simp add: bucket_rep_def Let_def top_tier_Max)
  then show ?thesis
    by (simp add: availableAuthsFromPriorityBuckets_def best Let_def sort_key_short)
qed

lemma flatten_all:
  assumes "bucket_rep m l"
  shows "mset (availableAuthsFromPriorityBuckets m True) = mset l"
    and "sorted (map auth_ID (availableAuthsFromPriorityBuckets m True))"
proof -
  have "availableAuthsFromPriorityBuckets m True = sort_key auth_ID (concat (map snd m))"
    by (simp add: availableAuthsFromPriorityBuckets_def Let_def sort_key_short)
  then show "mset (availableAuthsFromPriorityBuckets m True) = mset l"
    and "sorted (map auth_ID (availableAuthsFromPriorityBuckets m True))"
    using bucket_rep_mset [OF assms] by simp_all
qed

section \<open>The highest priority tier\<close>

lemma filter_full: "length (filter P l) = length l \<Longrightarrow> filter P l = l"
  by (metis filter_id_conv length_filter_less less_irrefl)

lemma highest_fold_spec:
  "c \<noteq> 0 \<Longrightarrow> fold highest_step l (p, c) =
     (Max (insert p (prio ` set l)),
      (if Max (insert p (prio ` set l)) = p then c else 0) +
      length (filter (\<lambda>a. prio a = Max (insert p (prio ` set l))) l))"
proof (induction l arbitrary: p c)
  case (Cons a l)
  have m: "Max (insert p (prio ` set (a # l))) = Max (insert (max p (prio a)) (prio ` set l))"
    by (cases "l = []") (simp_all add: max.left_commute max.assoc)
  have ge: "q \<le> Max (insert q (prio ` set l))" for q by (rule Max_ge) auto
  have step: "highest_step a (p, c) =
      (if prio a > p then (prio a, 1) else if prio a = p then (p, Suc c) else (p, c))"
    using Cons.prems by (simp add: highest_step_def)
  consider "p < prio a" | "prio a = p" | "prio a < p" by linarith
  then show ?case
  proof cases
    case 1
    with m have "Max (insert p (prio ` set (a # l))) = Max (insert (prio a) (prio ` set l))" by simp
    with 1 step ge [of "prio a"] Cons.IH [of 1 "prio a"] show ?thesis by auto
  next
    case 2
    with m have "Max (insert p (prio ` set (a # l))) = Max (insert p (prio ` set l))" by simp
    with 2 step Cons.IH [of "Suc c" p] show ?thesis by auto
  next
    case 3
    with m have "Max (insert p (prio ` set (a # l))) = Max (insert p (prio ` set l))" by simp
    with 3 step ge [of p] Cons.IH [OF Cons.prems, of p] show ?thesis by auto
  qed
qed simp

lemma highestPriorityAuths_top: "highestPriorityAuths l = top_tier l"
proof (cases "length l \<le> 1")
  case True
  then show ?thesis
    by (cases l; cases "tl l") (auto simp: highestPriorityAuths_def top_tier_def)
next
  case False
  then obtain a l' where l: "l = a # l'" by (cases l) auto
  let ?m = "Max (insert (prio a) (prio ` set l'))"
  have "fold highest_step l (0, 0) = fold highest_step l' (prio a, 1)"
    by (simp add: l highest_step_def Let_def)
  also have "\<dots> = (?m, length (filter (\<lambda>x. prio x = ?m) l))"
    by (subst highest_fold_spec) (auto simp: l)
  finally have f: "fold highest_step l (0, 0) = (?m, length (filter (\<lambda>x. prio x = ?m) l))" .
  have t: "top_tier l = filter (\<lambda>x. prio x = ?m) l" by (simp add: top_tier_Max l)
  define top where "top = filter (\<lambda>x. prio x = ?m) l"
  have h: "highestPriorityAuths l = (if length top = length l then l else top)"
    using False by (simp only: highestPriorityAuths_def f prod.case if_False top_def)
  have "length top = length l \<Longrightarrow> l = top"
    unfolding top_def by (rule filter_full [symmetric])
  then show ?thesis unfolding h t top_def [symmetric] by simp
qed

text \<open>The three outcomes of the availability pass.\<close>

lemma getAvailableAuths_cases:
  "(case getAvailableAuths auths provider model now of
      Inr l \<Rightarrow> l = sort_key auth_ID (top_tier (unblocked auths model now)) \<and> l \<noteq> []
    | Inl e \<Rightarrow> unblocked auths model now = [] \<and>
        (e = auth_error ''auth_not_found'' ''no auth candidates'' \<longleftrightarrow> auths = []) \<and>
        (case e of ModelCooldownErr m _ d \<Rightarrow> list_all (cooling model now) auths \<and> 0 \<le> d \<and> m = model
         | AuthErr _ \<Rightarrow> True))"
proof -
  obtain m n e where c: "collectAvailableByPriority auths model now = (m, n, e)"
    by (cases "collectAvailableByPriority auths model now") auto
  note r = collectAvailableByPriority_spec [OF c]
  have all: "n = length auths \<Longrightarrow> list_all (cooling model now) auths"
    unfolding r(2) by (metis filter_full filter_id_conv list_all_iff)
  show ?thesis
  proof (cases "auths = [] \<or> m = []")
    case True
    then show ?thesis
      using c all bucket_rep_empty [OF r(1)]
      by (auto simp: getAvailableAuths_def getAvailableAuthsWithPriorityMode_def Let_def auth_error_def
          newModelCooldownError_def split: if_splits)
  next
    case False
    then have "unblocked auths model now \<noteq> []" using bucket_rep_empty [OF r(1)] by blast
    with False show ?thesis
      using c flatten_top [OF r(1)] top_tier_nonempty [of "unblocked auths model now"]
      by (auto simp: getAvailableAuths_def getAvailableAuthsWithPriorityMode_def sort_key_empty)
  qed
qed

lemma getAvailableAuths_Inr:
  "getAvailableAuths auths provider model now = Inr l \<Longrightarrow>
     l = sort_key auth_ID (top_tier (unblocked auths model now)) \<and> l \<noteq> []"
proof -
  assume g: "getAvailableAuths auths provider model now = Inr l"
  show ?thesis
    using getAvailableAuths_cases [where auths = auths and provider = provider and model = model and now = now]
    unfolding g sum.case .
qed

lemma getAvailableAuths_Inl:
  "getAvailableAuths auths provider model now = Inl e \<Longrightarrow> unblocked auths model now = []"
  using getAvailableAuths_cases [where auths = auths and provider = provider and model = model and now = now] by simp

lemma set_unblocked:
  "a \<in> set (unblocked auths model now) \<longleftrightarrow>
     Some a \<in> set auths \<and> \<not> fst (isAuthBlockedForModel (Some a) model now)"
  by (induction auths) (auto simp: unblocked_def split: option.splits if_splits)

lemma unblocked_later:
  assumes "0 \<le> now" "now \<le> t" "\<not> fst (isAuthBlockedForModel (Some a) model now)"
  shows "\<not> fst (isAuthBlockedForModel (Some a) model t)"
  using assms isAuthBlocked_cases(1) [of now a model] isAuthBlocked_cases(1) [of t a model] by auto

lemma distinct_map_filter_sub: "distinct (map f l) \<Longrightarrow> distinct (map f (filter P l))"
  by (rule distinct_map_filter)

lemma distinct_sort_key: "distinct (map f (sort_key g l)) = distinct (map f l)"
  by (metis mset_map mset_sort mset_eq_imp_distinct_iff)

section \<open>Properties\<close>

text \<open>C15. Blocking is an interval: from any time on, a credential is blocked for a model exactly if it
  is blocked for ever (disabled, or marked unavailable without a recovery time) or the time is
  before the greatest recovery time of its matching states and of its credential quota. So a
  credential never becomes blocked by the mere passing of time, and it is selectable again at its
  recovery time.\<close>

theorem blocked_interval:
  assumes "0 \<le> now"
  shows "fst (isAuthBlockedForModel (Some a) model now) \<longleftrightarrow>
    blocked_forever a model \<or> now < blocked_until a model"
  using assms by (rule isAuthBlocked_cases(1))

theorem blocked_interval_witness:
  "\<not> fst (isAuthBlockedForModel (Some (new_auth ''a'' ''p'')) ''m'' 5)"
  using blocked_interval [of 5 "new_auth ''a'' ''p''" "''m''"]
  by (simp add: blocked_forever_def blocked_until_def credential_until_def model_until_def
      uses_model_states_def new_auth_def zero_quota_def flags_forever_def flags_until_def)

text \<open>The retry time reported with a block is the end of the interval: unless the credential is
  blocked for ever, a blocked credential without an active credential quota reports exactly the
  time from which it is available again.\<close>

theorem blocked_retry_time:
  assumes "0 \<le> now" "fst (isAuthBlockedForModel (Some a) model now)" "\<not> blocked_forever a model"
    and "credential_until a \<le> now"
  shows "now < snd (snd (isAuthBlockedForModel (Some a) model now)) \<and>
    (\<forall>t\<ge>now. fst (isAuthBlockedForModel (Some a) model t) \<longleftrightarrow>
       t < snd (snd (isAuthBlockedForModel (Some a) model now)))"
proof -
  have d: "\<not> auth_Disabled a" "auth_Status a \<noteq> StatusDisabled"
    using assms(3) by (auto simp: blocked_forever_def)
  have "now < blocked_until a model" using assms isAuthBlocked_cases(1) by blast
  with assms(4) have m: "now < model_until a model" by (simp add: blocked_until_def)
  with isAuthBlocked_cases(2) [OF assms(1) d, of model] assms(3,4)
  have n: "snd (snd (isAuthBlockedForModel (Some a) model now)) = model_until a model" by simp
  have "fst (isAuthBlockedForModel (Some a) model t) \<longleftrightarrow> t < model_until a model" if "now \<le> t" for t
    using isAuthBlocked_cases(1) [of t a model] that assms(1,3,4) by (auto simp: blocked_until_def)
  with m n show ?thesis by simp
qed

definition cooling_auth :: Auth where
  "cooling_auth = (new_auth ''a'' ''p'')\<lparr>auth_ModelStates :=
     [(''m'', Some (zero_model_state\<lparr>ms_Unavailable := True, ms_NextRetryAfter := 50\<rparr>)),
      (''m(high)'', Some (zero_model_state\<lparr>ms_Unavailable := True, ms_NextRetryAfter := 70\<rparr>))]\<rparr>"

theorem blocked_retry_time_witness:
  "snd (snd (isAuthBlockedForModel (Some cooling_auth) ''m'' 10)) = 70 \<and>
   \<not> fst (isAuthBlockedForModel (Some cooling_auth) ''m'' 70)"
proof -
  have b: "isAuthBlockedForModel (Some cooling_auth) ''m'' 10 = (True, blockReasonOther, 70)"
    by code_simp
  have "\<not> blocked_forever cooling_auth ''m''" "credential_until cooling_auth \<le> 10"
    by code_simp+
  from blocked_retry_time [OF _ _ this] b show ?thesis by simp
qed

text \<open>C35. Go may visit the model states of a credential in any order; whether it is blocked and the
  reported retry time do not depend on that order.\<close>

theorem blocked_order_independent:
  assumes "0 \<le> now" "set states' = set (auth_ModelStates a)" "states' \<noteq> [] \<longleftrightarrow> auth_ModelStates a \<noteq> []"
  defines "a' \<equiv> a\<lparr>auth_ModelStates := states'\<rparr>"
  shows "fst (isAuthBlockedForModel (Some a') model now) = fst (isAuthBlockedForModel (Some a) model now) \<and>
    snd (snd (isAuthBlockedForModel (Some a') model now)) =
    snd (snd (isAuthBlockedForModel (Some a) model now))"
proof (cases "auth_Disabled a \<or> auth_Status a = StatusDisabled")
  case True
  then show ?thesis by (simp add: isAuthBlockedForModel_def a'_def)
next
  case False
  have "blocked_forever a' model = blocked_forever a model" "model_until a' model = model_until a model"
    "credential_until a' = credential_until a"
    using matching_states_cong [OF assms(2)] assms(3)
    by (simp_all add: a'_def blocked_forever_def model_until_def uses_model_states_def
        credential_until_def)
  with False isAuthBlocked_cases [OF assms(1)] show ?thesis
    by (simp add: blocked_until_def a'_def)
qed

theorem blocked_order_independent_witness:
  "snd (snd (isAuthBlockedForModel
      (Some (cooling_auth\<lparr>auth_ModelStates := rev (auth_ModelStates cooling_auth)\<rparr>)) ''m'' 10)) =
   snd (snd (isAuthBlockedForModel (Some cooling_auth) ''m'' 10))"
  using blocked_order_independent [of 10 "rev (auth_ModelStates cooling_auth)" cooling_auth "''m''"]
  by simp

text \<open>C34. The available list: no candidate is an error of its own; when every candidate is blocked the
  result is an error; otherwise it is the ID-sorted list of the unblocked candidates of the highest
  priority among the unblocked ones, whatever order Go visits the priority buckets in.\<close>

theorem getAvailableAuths_correct:
  "(case getAvailableAuths auths provider model now of
      Inr l \<Rightarrow> l = sort_key auth_ID (top_tier (unblocked auths model now)) \<and> l \<noteq> []
    | Inl e \<Rightarrow> unblocked auths model now = [] \<and>
        (e = auth_error ''auth_not_found'' ''no auth candidates'' \<longleftrightarrow> auths = []) \<and>
        (case e of ModelCooldownErr m _ d \<Rightarrow> list_all (cooling model now) auths \<and> 0 \<le> d \<and> m = model
         | AuthErr _ \<Rightarrow> True))"
  by (rule getAvailableAuths_cases)

end
