(* ===== verification/Smooth_WRR.thy ===== *)
theory Smooth_WRR
  imports Availability
begin

text \<open>
  Smooth weighted round-robin, from \<open>sdk/cliproxy/auth/selector.go\<close>: the accumulator state
  (\<open>smoothWeightedState\<close> with \<open>prepare\<close> and \<open>pruneStale\<close>), the saturating addition and the pick over
  a candidate list. A nil map is the empty list: the code reads both alike and replaces a nil map
  before it writes. The locale \<open>smooth_picker\<close> is the contract of one pick; the fairness of
  consecutive picks is proved from it once, for the selector here and for the scheduler later.
\<close>

section \<open>The accumulator\<close>

definition saturatingAddInt64 :: "int \<Rightarrow> int \<Rightarrow> int" where
  "saturatingAddInt64 val delta =
     (if delta > 0 \<and> val > max_int64 - delta then max_int64
      else if delta < 0 \<and> val < min_int64 - delta then min_int64
      else wrap64 (val + delta))"

record smoothWeightedState =
  sw_current :: "(string \<times> int) list"
  sw_weights :: "(string \<times> int) list"

definition empty_smooth :: smoothWeightedState where
  "empty_smooth = \<lparr>sw_current = [], sw_weights = []\<rparr>"

abbreviation (input) maxSmoothWeightedStateEntries :: nat where
  "maxSmoothWeightedStateEntries \<equiv> 1024"

fun weights_differ :: "(string \<times> int) list \<Rightarrow> (string \<times> int) list \<Rightarrow> bool" where
  "weights_differ left [] = False"
| "weights_differ left ((authID, weight) # right) =
     (case map_of left authID of
        Some previous \<Rightarrow> if previous \<noteq> weight then True else weights_differ left right
      | None \<Rightarrow> weights_differ left right)"

definition weightsConfigChanged :: "(string \<times> int) list \<Rightarrow> (string \<times> int) list \<Rightarrow> bool" where
  "weightsConfigChanged left right = (if length left = 0 then False else weights_differ left right)"

definition pruneStale :: "(string \<times> int) list \<Rightarrow> smoothWeightedState \<Rightarrow> smoothWeightedState" where
  "pruneStale weights s =
     (if length (sw_current s) \<le> maxSmoothWeightedStateEntries \<and>
         length (sw_weights s) \<le> maxSmoothWeightedStateEntries then s
      else s\<lparr>sw_current := map_keep (\<lambda>authID _. has_key authID weights) (sw_current s),
             sw_weights := map_keep (\<lambda>authID _. has_key authID weights) (sw_weights s)\<rparr>)"

definition prepare :: "(string \<times> int) list \<Rightarrow> smoothWeightedState \<Rightarrow> smoothWeightedState" where
  "prepare weights s0 =
     (let s1 = (if weightsConfigChanged (sw_weights s0) weights then s0\<lparr>sw_current := []\<rparr> else s0);
          s2 = s1\<lparr>sw_weights := fold (\<lambda>(authID, weight). map_put authID weight) weights (sw_weights s1)\<rparr>
      in pruneStale weights s2)"

definition credit :: "(string \<times> int) list \<Rightarrow> string \<Rightarrow> int" where
  "credit current authID = (case map_of current authID of None \<Rightarrow> 0 | Some v \<Rightarrow> v)"

section \<open>Picking a credential\<close>

fun authWeightVector_loop :: "Auth option list \<Rightarrow> (string \<times> int) list \<Rightarrow> (string \<times> int) list" where
  "authWeightVector_loop [] weights = weights"
| "authWeightVector_loop (auth # auths) weights =
     (case auth of
        None \<Rightarrow> authWeightVector_loop auths weights
      | Some a \<Rightarrow>
          (let weight = authWeight auth in
           authWeightVector_loop auths
             (if weight > 0 then map_put (auth_ID a) weight weights else weights)))"

definition authWeightVector :: "Auth option list \<Rightarrow> (string \<times> int) list" where
  "authWeightVector auths = authWeightVector_loop auths []"

text \<open>The loop, on \<open>current\<close>, \<open>picked\<close> with \<open>pickedCurrent\<close>, and \<open>totalWeight\<close>.\<close>

fun smooth_auth_loop ::
  "Auth option list \<Rightarrow> (string \<times> int) list \<Rightarrow> Auth option \<Rightarrow> int \<Rightarrow> int \<Rightarrow>
     (string \<times> int) list \<times> Auth option \<times> int" where
  "smooth_auth_loop [] current picked pickedCurrent totalWeight = (current, picked, totalWeight)"
| "smooth_auth_loop (auth # auths) current picked pickedCurrent totalWeight =
     (let weight = authWeight auth in
      case auth of
        None \<Rightarrow> smooth_auth_loop auths current picked pickedCurrent totalWeight
      | Some a \<Rightarrow>
          if weight \<le> 0 then smooth_auth_loop auths current picked pickedCurrent totalWeight
          else
            (let c = saturatingAddInt64 (credit current (auth_ID a)) weight;
                 current' = map_put (auth_ID a) c current;
                 totalWeight' = saturatingAddInt64 totalWeight weight
             in if picked = None \<or> c > pickedCurrent
                then smooth_auth_loop auths current' auth c totalWeight'
                else smooth_auth_loop auths current' picked pickedCurrent totalWeight'))"

definition pickSmoothWeightedAuth ::
  "Auth option list \<Rightarrow> (string \<times> int) list \<Rightarrow> Auth option \<times> (string \<times> int) list" where
  "pickSmoothWeightedAuth auths current0 =
     (case smooth_auth_loop auths current0 None 0 0 of
        (current, picked, totalWeight) \<Rightarrow>
          (case picked of
             None \<Rightarrow> (None, current)
           | Some p \<Rightarrow>
               (picked, map_put (auth_ID p)
                  (saturatingAddInt64 (credit current (auth_ID p)) (- totalWeight)) current)))"

section \<open>Laws of the accumulator\<close>

lemma saturatingAdd_clamp:
  "in_int64 v \<Longrightarrow> in_int64 d \<Longrightarrow> saturatingAddInt64 v d = max min_int64 (min max_int64 (v + d))"
  by (auto simp: saturatingAddInt64_def in_int64_def wrap64_id max_def min_def)

lemma saturatingAdd_exact:
  "min_int64 \<le> v + d \<Longrightarrow> v + d \<le> max_int64 \<Longrightarrow> saturatingAddInt64 v d = v + d"
  by (auto simp: saturatingAddInt64_def in_int64_def wrap64_id)

lemma credit_put [simp]:
  "credit (map_put authID v current) i = (if i = authID then v else credit current i)"
  by (simp add: credit_def update_conv')

lemma credit_Nil [simp]: "credit [] i = 0"
  by (simp add: credit_def)

lemma weights_differ_iff:
  "weights_differ left right \<longleftrightarrow>
     (\<exists>(k, w)\<in>set right. \<exists>p. map_of left k = Some p \<and> p \<noteq> w)"
  by (induction left right rule: weights_differ.induct) (auto split: option.splits)

lemma weightsConfigChanged_iff:
  "weightsConfigChanged left right \<longleftrightarrow> (\<exists>(k, w)\<in>set right. \<exists>p. map_of left k = Some p \<and> p \<noteq> w)"
  by (auto simp: weightsConfigChanged_def weights_differ_iff)

lemma fold_put_lookup:
  "wf_map ws \<Longrightarrow> map_of (fold (\<lambda>(k, w). map_put k w) ws m) k =
     (case map_of ws k of Some w \<Rightarrow> Some w | None \<Rightarrow> map_of m k)"
proof (induction ws arbitrary: m)
  case (Cons kw ws)
  obtain a w where kw: "kw = (a, w)" by (cases kw)
  have "a = k \<Longrightarrow> map_of ws k = None"
    using Cons.prems kw by (auto simp: map_of_eq_None_iff)
  with Cons kw show ?case by (cases "map_of ws k") (auto simp: update_conv')
qed simp

text \<open>Preparing with weights that agree with the recorded ones keeps the credits of the candidates.\<close>

lemma prepare_keeps_credit:
  assumes "wf_map (sw_current s)" "\<not> weightsConfigChanged (sw_weights s) weights" "has_key i weights"
  shows "credit (sw_current (prepare weights s)) i = credit (sw_current s) i"
  using assms
  by (auto simp: prepare_def pruneStale_def Let_def credit_def map_of_keep split: option.splits)

section \<open>The contract of a pick, and fairness from it\<close>

locale smooth_picker =
  fixes ident :: "'e \<Rightarrow> string"
    and weight :: "'e \<Rightarrow> int"
    and eligible :: "'e \<Rightarrow> bool"
    and cred :: "'s \<Rightarrow> string \<Rightarrow> int"
    and ready :: "'e list \<Rightarrow> 's \<Rightarrow> bool"
    and pick :: "'e list \<Rightarrow> 's \<Rightarrow> 'e option \<times> 's"
  assumes eligible_weight: "eligible e \<Longrightarrow> 0 < weight e"
    and pick_none: "filter eligible es = [] \<Longrightarrow> fst (pick es cur) = None"
    and pick_some: "\<lbrakk>ready es cur; filter eligible es \<noteq> []; distinct (map ident (filter eligible es));
        \<forall>i. \<bar>cred cur i\<bar> + sum_list (map weight (filter eligible es)) \<le> max_int64\<rbrakk> \<Longrightarrow>
      \<exists>p cur'. pick es cur = (Some p, cur') \<and> ready es cur' \<and> p \<in> set (filter eligible es) \<and>
        (\<forall>e\<in>set (filter eligible es).
           cred cur (ident e) + weight e \<le> cred cur (ident p) + weight p) \<and>
        (\<forall>e\<in>set (filter eligible es). cred cur' (ident e) = cred cur (ident e) + weight e -
           (if ident e = ident p then sum_list (map weight (filter eligible es)) else 0)) \<and>
        (\<forall>i. i \<notin> ident ` set (filter eligible es) \<longrightarrow> cred cur' i = cred cur i)"
begin

definition cands :: "'e list \<Rightarrow> 'e list" where
  "cands es = filter eligible es"

definition total :: "'e list \<Rightarrow> int" where
  "total es = sum_list (map weight (cands es))"

text \<open>The candidate lists for which no addition saturates.\<close>

definition fair_input :: "'e list \<Rightarrow> bool" where
  "fair_input es \<longleftrightarrow> cands es \<noteq> [] \<and> distinct (map ident (cands es)) \<and>
     (int (length (cands es)) + 1) * total es \<le> max_int64"

definition balanced :: "'e list \<Rightarrow> 's \<Rightarrow> bool" where
  "balanced es cur \<longleftrightarrow> ready es cur \<and>
     (\<forall>i. i \<notin> ident ` set (cands es) \<longrightarrow> cred cur i = 0) \<and>
     sum_list (map (\<lambda>e. cred cur (ident e)) (cands es)) = 0 \<and>
     (\<forall>e\<in>set (cands es). - total es < cred cur (ident e))"

primrec picks :: "nat \<Rightarrow> 'e list \<Rightarrow> 's \<Rightarrow> 'e option list \<times> 's" where
  "picks 0 es cur = ([], cur)"
| "picks (Suc n) es cur =
     (let (p, cur1) = pick es cur; (ps, cur2) = picks n es cur1 in (p # ps, cur2))"

definition times :: "'e \<Rightarrow> 'e option list \<Rightarrow> int" where
  "times e ps = int (length (filter (\<lambda>p. map_option ident p = Some (ident e)) ps))"

lemma weight_pos: "e \<in> set (cands es) \<Longrightarrow> 0 < weight e"
  by (simp add: cands_def eligible_weight)

lemma total_pos: "cands es \<noteq> [] \<Longrightarrow> 0 < total es"
  unfolding total_def by (rule sum_list_pos) (auto dest: weight_pos)

definition fresh :: "'e list \<Rightarrow> 's \<Rightarrow> bool" where
  "fresh es cur \<longleftrightarrow> ready es cur \<and> (\<forall>i. cred cur i = 0)"

lemma balanced_fresh: "cands es \<noteq> [] \<Longrightarrow> fresh es cur \<Longrightarrow> balanced es cur"
  using total_pos by (auto simp: balanced_def fresh_def intro: sum_list_0_all)

lemma balanced_bound:
  assumes "fair_input es" "balanced es cur"
  shows "\<bar>cred cur i\<bar> + total es \<le> max_int64"
proof (cases "i \<in> ident ` set (cands es)")
  case False
  have "0 < total es" "1 \<le> length (cands es)"
    using assms(1) total_pos by (auto simp: fair_input_def Suc_leI)
  then have "total es \<le> (int (length (cands es)) + 1) * total es"
    by (simp add: algebra_simps mult_le_cancel_right1)
  with False assms show ?thesis by (auto simp: balanced_def fair_input_def)
next
  case True
  then obtain e where e: "e \<in> set (cands es)" "i = ident e" by auto
  let ?c = "\<lambda>e. cred cur (ident e)" and ?n = "int (length (cands es))" and ?W = "total es"
  have low: "- ?W < ?c e'" if "e' \<in> set (cands es)" for e' using assms(2) that by (simp add: balanced_def)
  have W: "0 < ?W" and n: "1 \<le> ?n" and max: "(?n + 1) * ?W \<le> max_int64"
    using assms(1) total_pos by (auto simp: fair_input_def Suc_leI)
  have "?c e + (?n - 1) * (1 - ?W) \<le> sum_list (map ?c (cands es))"
    by (rule sum_list_member_bound [OF e(1)]) (use low in force)
  with assms(2) have "?c e \<le> (?n - 1) * (?W - 1)"
    by (simp add: balanced_def algebra_simps)
  also have "\<dots> \<le> (?n - 1) * ?W" using n by (intro mult_left_mono) auto
  finally have up: "?c e + ?W \<le> ?n * ?W" by (simp add: algebra_simps)
  have nW: "1 * ?W \<le> ?n * ?W" using W n by (intro mult_right_mono) auto
  have "\<bar>?c e\<bar> + ?W \<le> (?n + 1) * ?W"
    using up low [OF e(1)] nW W unfolding distrib_right by linarith
  with max show ?thesis by (simp only: e(2))
qed

lemma pick_balanced:
  assumes fair: "fair_input es" and bal: "balanced es cur"
  obtains p cur' where "pick es cur = (Some p, cur')" "p \<in> set (cands es)" "balanced es cur'"
    "\<And>e. e \<in> set (cands es) \<Longrightarrow> cred cur' (ident e) =
       cred cur (ident e) + weight e - (if ident e = ident p then total es else 0)"
proof -
  from fair have ne: "cands es \<noteq> []" and d: "distinct (map ident (cands es))"
    by (auto simp: fair_input_def)
  have bd: "\<forall>i. \<bar>cred cur i\<bar> + total es \<le> max_int64"
    using balanced_bound [OF fair bal] by blast
  have rd: "ready es cur" using bal by (simp add: balanced_def)
  from pick_some [OF rd ne [unfolded cands_def] d [unfolded cands_def] bd [unfolded total_def cands_def]]
  obtain p cur' where pk: "pick es cur = (Some p, cur')" and rd': "ready es cur'" and p: "p \<in> set (cands es)"
    and mx: "\<forall>e\<in>set (cands es). cred cur (ident e) + weight e \<le> cred cur (ident p) + weight p"
    and c: "\<forall>e\<in>set (cands es). cred cur' (ident e) =
        cred cur (ident e) + weight e - (if ident e = ident p then total es else 0)"
    and out: "\<forall>i. i \<notin> ident ` set (cands es) \<longrightarrow> cred cur' i = cred cur i"
    by (auto simp: cands_def total_def)
  have W: "0 < total es" using ne by (rule total_pos)
  have sum: "sum_list (map (\<lambda>e. cred cur (ident e) + weight e) (cands es)) = total es"
    using bal by (simp add: sum_list_addf balanced_def total_def)
  have pos: "0 < cred cur (ident p) + weight p"
  proof (rule ccontr)
    assume "\<not> ?thesis"
    with mx have "\<forall>e\<in>set (cands es). cred cur (ident e) + weight e \<le> 0" by fastforce
    then have "sum_list (map (\<lambda>e. cred cur (ident e) + weight e) (cands es)) \<le> 0"
      by (intro sum_list_nonpos) auto
    with sum W show False by simp
  qed
  have one: "sum_list (map (\<lambda>e. if ident e = ident p then total es else 0) (cands es)) = total es"
    using d p by (rule sum_list_indicator)
  have "sum_list (map (\<lambda>e. cred cur' (ident e)) (cands es)) =
      sum_list (map (\<lambda>e. cred cur (ident e) + weight e - (if ident e = ident p then total es else 0)) (cands es))"
    using c by (intro arg_cong [where f = sum_list] map_cong) auto
  also have "\<dots> = 0" using sum one by (simp add: sum_list_subtractf)
  finally have s0: "sum_list (map (\<lambda>e. cred cur' (ident e)) (cands es)) = 0" .
  have "balanced es cur'"
    unfolding balanced_def
  proof (intro conjI ballI allI impI)
    fix e assume e: "e \<in> set (cands es)"
    show "- total es < cred cur' (ident e)"
    proof (cases "ident e = ident p")
      case True
      with d e p have "e = p" by (auto simp: distinct_map dest: inj_onD)
      with c e pos show ?thesis by simp
    next
      case False
      with c e bal weight_pos [OF e] show ?thesis by (auto simp: balanced_def)
    qed
  qed (use out bal s0 rd' in \<open>auto simp: balanced_def\<close>)
  with pk p c show ?thesis using that by blast
qed

text \<open>After \<open>k\<close> picks the credit of a candidate is \<open>k\<close> times its weight less the total for each time it
  was picked.\<close>

lemma picks_spec:
  "fair_input es \<Longrightarrow> balanced es cur \<Longrightarrow>
     (case picks k es cur of (ps, cur') \<Rightarrow>
        balanced es cur' \<and> length ps = k \<and> set ps \<subseteq> Some ` set (cands es) \<and>
        (\<forall>e\<in>set (cands es). cred cur' (ident e) =
           cred cur (ident e) + int k * weight e - total es * times e ps))"
proof (induction k arbitrary: cur)
  case (Suc k)
  obtain p cur1 where p: "pick es cur = (Some p, cur1)" "p \<in> set (cands es)" "balanced es cur1"
    "\<And>e. e \<in> set (cands es) \<Longrightarrow> cred cur1 (ident e) =
       cred cur (ident e) + weight e - (if ident e = ident p then total es else 0)"
    using pick_balanced [OF Suc.prems] by blast
  obtain ps cur2 where ps: "picks k es cur1 = (ps, cur2)" by (cases "picks k es cur1")
  with Suc.IH [OF Suc.prems(1) p(3)] p(1,2,4) show ?case
    by (auto simp: times_def algebra_simps)
qed (simp add: times_def)

lemma times_total:
  assumes "distinct (map ident (cands es))" "set ps \<subseteq> Some ` set (cands es)"
  shows "sum_list (map (\<lambda>e. times e ps) (cands es)) = int (length ps)"
  using assms(2)
proof (induction ps)
  case (Cons q ps)
  then obtain p where q: "q = Some p" "p \<in> set (cands es)" by auto
  have "sum_list (map (\<lambda>e. times e (q # ps)) (cands es)) =
      sum_list (map (\<lambda>e. times e ps + (if ident e = ident p then 1 else 0)) (cands es))"
    by (rule arg_cong [where f = sum_list], rule map_cong) (auto simp: times_def q)
  also have "\<dots> = int (length ps) + 1"
    using Cons sum_list_indicator [OF assms(1) q(2), of 1] by (simp add: sum_list_addf)
  finally show ?case by simp
qed (simp add: times_def)

text \<open>Fairness: a bound at every moment, and exact shares over a full cycle of \<open>total\<close> picks, after
  which every credit is zero again.\<close>

lemma fair_bound:
  assumes "fair_input es" "fresh es cur" "picks k es cur = (ps, cur')" "e \<in> set (cands es)"
  shows "total es * times e ps < int k * weight e + total es"
proof -
  have z: "cred cur i = 0" for i using assms(2) by (simp add: fresh_def)
  have "balanced es cur" using assms(1,2) by (auto simp: fair_input_def intro: balanced_fresh)
  from picks_spec [OF assms(1) this, of k] assms(3,4) show ?thesis
    by (auto simp: balanced_def z)
qed

lemma fair_cycle:
  assumes fair: "fair_input es" and fresh: "fresh es cur"
    and ps: "picks (nat (total es)) es cur = (ps, cur')"
    and e: "e \<in> set (cands es)"
  shows "times e ps = weight e" and "cred cur' (ident e) = 0"
proof -
  have ne: "cands es \<noteq> []" and d: "distinct (map ident (cands es))" using fair by (auto simp: fair_input_def)
  note W = total_pos [OF ne]
  have z: "cred cur i = 0" for i using fresh by (simp add: fresh_def)
  from picks_spec [OF fair balanced_fresh [OF ne fresh], of "nat (total es)"] ps W
  have len: "int (length ps) = total es" and sub: "set ps \<subseteq> Some ` set (cands es)"
    and c: "\<forall>e\<in>set (cands es). cred cur' (ident e) = total es * weight e - total es * times e ps"
    by (auto simp: z)
  have le: "times e' ps \<le> weight e'" if "e' \<in> set (cands es)" for e'
  proof -
    have "total es * times e' ps < total es * weight e' + total es"
      using fair_bound [OF fair fresh ps that] W by simp
    also have "\<dots> = total es * (weight e' + 1)" by (simp add: algebra_simps)
    finally show ?thesis using W by simp
  qed
  have "sum_list (map (\<lambda>e. times e ps) (cands es)) = sum_list (map weight (cands es))"
    using times_total [OF d sub] len by (simp add: total_def)
  from sum_list_tight [OF le this e] show "times e ps = weight e" by simp
  with c e show "cred cur' (ident e) = 0" by simp
qed

end

section \<open>The reference loop\<close>

text \<open>
  The loop both pick functions run on their eligible candidates, over an arbitrary element type. It
  has the law of the contract when no addition saturates.
\<close>

fun smooth_loop ::
  "('e \<Rightarrow> string) \<Rightarrow> ('e \<Rightarrow> int) \<Rightarrow> 'e list \<Rightarrow> (string \<times> int) list \<Rightarrow> 'e option \<Rightarrow> int \<Rightarrow> int \<Rightarrow>
     (string \<times> int) list \<times> 'e option \<times> int" where
  "smooth_loop ident weight [] cur picked pc tot = (cur, picked, tot)"
| "smooth_loop ident weight (e # es) cur picked pc tot =
     (let c = saturatingAddInt64 (credit cur (ident e)) (weight e);
          cur' = map_put (ident e) c cur;
          tot' = saturatingAddInt64 tot (weight e)
      in if picked = None \<or> c > pc then smooth_loop ident weight es cur' (Some e) c tot'
         else smooth_loop ident weight es cur' picked pc tot')"

definition smooth_pick ::
  "('e \<Rightarrow> string) \<Rightarrow> ('e \<Rightarrow> int) \<Rightarrow> 'e list \<Rightarrow> (string \<times> int) list \<Rightarrow> 'e option \<times> (string \<times> int) list" where
  "smooth_pick ident weight es cur0 =
     (case smooth_loop ident weight es cur0 None 0 0 of
        (cur, picked, tot) \<Rightarrow>
          (case picked of
             None \<Rightarrow> (None, cur)
           | Some p \<Rightarrow>
               (picked, map_put (ident p) (saturatingAddInt64 (credit cur (ident p)) (- tot)) cur)))"

definition no_saturation :: "('e \<Rightarrow> string) \<Rightarrow> ('e \<Rightarrow> int) \<Rightarrow> 'e list \<Rightarrow> (string \<times> int) list \<Rightarrow> bool" where
  "no_saturation ident weight es cur \<longleftrightarrow>
     (\<forall>e\<in>set es. 0 < weight e \<and> min_int64 \<le> credit cur (ident e) + weight e \<and>
        credit cur (ident e) + weight e \<le> max_int64)"

lemma smooth_loop_spec:
  "distinct (map ident es) \<Longrightarrow> no_saturation ident weight es cur \<Longrightarrow> 0 \<le> tot \<Longrightarrow>
     tot + sum_list (map weight es) \<le> max_int64 \<Longrightarrow>
     (picked = None \<longrightarrow> es \<noteq> []) \<Longrightarrow>
     (\<exists>cur' p pc'. smooth_loop ident weight es cur picked pc tot =
         (cur', Some p, tot + sum_list (map weight es)) \<and>
       (\<forall>e\<in>set es. credit cur' (ident e) = credit cur (ident e) + weight e) \<and>
       (\<forall>i. i \<notin> ident ` set es \<longrightarrow> credit cur' i = credit cur i) \<and>
       (\<forall>e\<in>set es. credit cur (ident e) + weight e \<le> pc') \<and> (picked \<noteq> None \<longrightarrow> pc \<le> pc') \<and>
       (Some p = picked \<and> pc' = pc \<or> p \<in> set es \<and> pc' = credit cur (ident p) + weight p))"
proof (induction es arbitrary: cur picked pc tot)
  case Nil
  then show ?case by force
next
  case (Cons e es)
  have w: "0 < weight e" and c: "saturatingAddInt64 (credit cur (ident e)) (weight e) = credit cur (ident e) + weight e"
    using Cons.prems(2) by (auto simp: no_saturation_def intro: saturatingAdd_exact)
  have nn: "0 \<le> sum_list (map weight es)"
    using Cons.prems(2) by (intro sum_list_nonneg) (auto simp: no_saturation_def less_imp_le)
  then have t: "saturatingAddInt64 tot (weight e) = tot + weight e"
    using Cons.prems(3,4) w by (intro saturatingAdd_exact) auto
  let ?c = "credit cur (ident e) + weight e" and ?cur = "map_put (ident e) (credit cur (ident e) + weight e) cur"
  have d: "distinct (map ident es)" "\<And>x. x \<in> set es \<Longrightarrow> ident x \<noteq> ident e"
    using Cons.prems(1) by (auto simp: image_iff)
  have ns: "no_saturation ident weight es ?cur"
    using Cons.prems(2) d(2) by (auto simp: no_saturation_def)
  have tt: "0 \<le> tot + weight e" "tot + weight e + sum_list (map weight es) \<le> max_int64"
    using Cons.prems(3,4) w by auto
  show ?case
  proof (cases "picked = None \<or> ?c > pc")
    case True
    from Cons.IH [OF d(1) ns tt, of "Some e" ?c] obtain cur' p pc' where
      "smooth_loop ident weight es ?cur (Some e) ?c (tot + weight e) =
         (cur', Some p, tot + weight e + sum_list (map weight es))"
      "\<forall>x\<in>set es. credit cur' (ident x) = credit ?cur (ident x) + weight x"
      and out: "\<forall>i. i \<notin> ident ` set es \<longrightarrow> credit cur' i = credit ?cur i"
      and "\<forall>x\<in>set es. credit ?cur (ident x) + weight x \<le> pc'" "?c \<le> pc'"
      "p = e \<and> pc' = ?c \<or> p \<in> set es \<and> pc' = credit ?cur (ident p) + weight p" by auto
    moreover have "credit cur' (ident e) = ?c"
      using out [rule_format, of "ident e"] d(2) by (simp add: image_iff, metis)
    ultimately show ?thesis using True c t d(2)
      by (intro exI [of _ cur'] exI [of _ p] exI [of _ pc']) (auto simp: image_iff add.assoc)
  next
    case False
    then obtain q where q: "picked = Some q" and le: "?c \<le> pc" by auto
    from Cons.IH [OF d(1) ns tt, of picked pc] q obtain cur' p pc' where
      "smooth_loop ident weight es ?cur picked pc (tot + weight e) =
         (cur', Some p, tot + weight e + sum_list (map weight es))"
      "\<forall>x\<in>set es. credit cur' (ident x) = credit ?cur (ident x) + weight x"
      and out: "\<forall>i. i \<notin> ident ` set es \<longrightarrow> credit cur' i = credit ?cur i"
      and "\<forall>x\<in>set es. credit ?cur (ident x) + weight x \<le> pc'" "pc \<le> pc'"
      "Some p = picked \<and> pc' = pc \<or> p \<in> set es \<and> pc' = credit ?cur (ident p) + weight p" by auto
    moreover have "credit cur' (ident e) = ?c"
      using out [rule_format, of "ident e"] d(2) by (simp add: image_iff, metis)
    ultimately show ?thesis using False c t d(2) le
      by (intro exI [of _ cur'] exI [of _ p] exI [of _ pc']) (auto simp: image_iff add.assoc)
  qed
qed

lemma smooth_pick_law:
  assumes "es \<noteq> []" "distinct (map ident es)" "\<forall>e\<in>set es. 0 < weight e"
    and bound: "\<forall>i. \<bar>credit cur i\<bar> + sum_list (map weight es) \<le> max_int64"
  shows "\<exists>p cur'. smooth_pick ident weight es cur = (Some p, cur') \<and> p \<in> set es \<and>
    (\<forall>e\<in>set es. credit cur (ident e) + weight e \<le> credit cur (ident p) + weight p) \<and>
    (\<forall>e\<in>set es. credit cur' (ident e) = credit cur (ident e) + weight e -
       (if ident e = ident p then sum_list (map weight es) else 0)) \<and>
    (\<forall>i. i \<notin> ident ` set es \<longrightarrow> credit cur' i = credit cur i)"
proof -
  let ?W = "sum_list (map weight es)"
  have wW: "weight e \<le> ?W" if "e \<in> set es" for e
    using sum_list_member_bound [OF that, of 0 weight] assms(3) by (auto simp: less_imp_le)
  have ns: "no_saturation ident weight es cur"
    unfolding no_saturation_def
  proof (intro ballI conjI)
    fix e assume e: "e \<in> set es"
    show "0 < weight e" using assms(3) e by blast
    have "\<bar>credit cur (ident e)\<bar> + ?W \<le> max_int64" using bound by blast
    with wW [OF e] assms(3) e show "min_int64 \<le> credit cur (ident e) + weight e"
      "credit cur (ident e) + weight e \<le> max_int64" by (auto simp: abs_le_iff)
  qed
  have "?W \<le> max_int64" using bound [rule_format, of undefined] by (simp add: abs_le_iff)
  from smooth_loop_spec [OF assms(2) ns, of 0 None 0] this assms(1) obtain cur' p where
    l: "smooth_loop ident weight es cur None 0 0 = (cur', Some p, ?W)" "p \<in> set es"
    and c: "\<forall>e\<in>set es. credit cur' (ident e) = credit cur (ident e) + weight e"
    and out: "\<forall>i. i \<notin> ident ` set es \<longrightarrow> credit cur' i = credit cur i"
    and mx: "\<forall>e\<in>set es. credit cur (ident e) + weight e \<le> credit cur (ident p) + weight p"
    by auto
  have "\<bar>credit cur (ident p)\<bar> + ?W \<le> max_int64" using bound by blast
  then have "saturatingAddInt64 (credit cur' (ident p)) (- ?W) = credit cur (ident p) + weight p - ?W"
    using c l(2) wW [OF l(2)] assms(3)
    by (subst saturatingAdd_exact) (auto simp: abs_le_iff dest!: bspec [of _ _ p])
  moreover have inj: "e = p" if "ident e = ident p" "e \<in> set es" for e
    using assms(2) l(2) that by (auto simp: distinct_map dest: inj_onD)
  ultimately have pk: "smooth_pick ident weight es cur =
      (Some p, map_put (ident p) (credit cur (ident p) + weight p - ?W) cur')"
    using l(1) by (simp add: smooth_pick_def)
  show ?thesis
    by (intro exI [of _ p] exI conjI, rule pk) (use l(2) c out mx inj in auto)
qed

section \<open>One step on the accumulator state\<close>

text \<open>The recorded weights agree with the candidates and no other credential is recorded.\<close>

definition smooth_ready :: "('e \<Rightarrow> string) \<Rightarrow> ('e \<Rightarrow> int) \<Rightarrow> 'e list \<Rightarrow> smoothWeightedState \<Rightarrow> bool" where
  "smooth_ready ident weight cs st \<longleftrightarrow>
     (\<forall>k w. map_of (sw_weights st) k = Some w \<longrightarrow> (\<exists>e\<in>set cs. ident e = k \<and> weight e = w)) \<and>
     fst ` set (sw_current st) \<subseteq> ident ` set cs \<and> wf_map (sw_current st) \<and> wf_map (sw_weights st)"

definition smooth_step ::
  "('e \<Rightarrow> string) \<Rightarrow> ('e \<Rightarrow> int) \<Rightarrow> 'e list \<Rightarrow> smoothWeightedState \<Rightarrow> 'e option \<times> smoothWeightedState" where
  "smooth_step ident weight cs st =
     (let st' = prepare (map (\<lambda>e. (ident e, weight e)) cs) st
      in case smooth_pick ident weight cs (sw_current st') of
           (p, cur) \<Rightarrow> (p, st'\<lparr>sw_current := cur\<rparr>))"

lemma smooth_ready_empty: "smooth_ready ident weight cs empty_smooth"
  by (simp add: smooth_ready_def empty_smooth_def)

lemma map_keep_all: "(\<And>k v. (k, v) \<in> set m \<Longrightarrow> P k v) \<Longrightarrow> map_keep P m = m"
  by (auto simp: map_keep_def filter_id_conv)

lemma has_key_map: "has_key k (map (\<lambda>e. (ident e, weight e)) cs) \<longleftrightarrow> k \<in> ident ` set cs"
  by (induction cs) (auto simp: has_key_def)

lemma fold_put_wf: "wf_map m \<Longrightarrow> wf_map (fold (\<lambda>(k, w). map_put k w) ws m)"
  by (induction ws arbitrary: m) (auto simp: distinct_update)

lemma fold_put_keys:
  "fst ` set (fold (\<lambda>(k, w). map_put k w) ws m) = fst ` set ws \<union> fst ` set m"
  by (induction ws arbitrary: m) (auto simp: dom_update split: prod.splits)

lemma map_of_pairs:
  "distinct (map ident cs) \<Longrightarrow> map_of (map (\<lambda>e. (ident e, weight e)) cs) k = Some w \<Longrightarrow>
     \<exists>e\<in>set cs. ident e = k \<and> weight e = w"
  by (auto dest!: map_of_SomeD)

lemma prepare_ready:
  assumes "distinct (map ident cs)" "smooth_ready ident weight cs st"
  shows "smooth_ready ident weight cs (prepare (map (\<lambda>e. (ident e, weight e)) cs) st)"
    and "sw_current (prepare (map (\<lambda>e. (ident e, weight e)) cs) st) = sw_current st"
proof -
  let ?ws = "map (\<lambda>e. (ident e, weight e)) cs"
  have wf: "wf_map ?ws" using assms(1) by (simp add: comp_def)
  have inj: "e = e'" if "ident e = ident e'" "e \<in> set cs" "e' \<in> set cs" for e e'
    using assms(1) that by (auto simp: distinct_map dest: inj_onD)
  have nc: "\<not> weightsConfigChanged (sw_weights st) ?ws"
  proof
    assume "weightsConfigChanged (sw_weights st) ?ws"
    then obtain e p where e: "e \<in> set cs" "map_of (sw_weights st) (ident e) = Some p" "p \<noteq> weight e"
      by (auto simp: weightsConfigChanged_iff)
    with assms(2) obtain e' where "e' \<in> set cs" "ident e' = ident e" "weight e' = p"
      unfolding smooth_ready_def by blast
    with inj e show False by metis
  qed
  define W where "W = fold (\<lambda>(authID, weight). map_put authID weight) ?ws (sw_weights st)"
  have look: "map_of W k = (case map_of ?ws k of Some w \<Rightarrow> Some w | None \<Rightarrow> map_of (sw_weights st) k)" for k
    unfolding W_def by (rule fold_put_lookup [OF wf])
  have wfW: "wf_map W"
    using assms(2) unfolding W_def by (intro fold_put_wf) (simp add: smooth_ready_def)
  have kW: "\<exists>e\<in>set cs. ident e = k \<and> weight e = w" if "map_of W k = Some w" for k w
    using that assms(2) map_of_pairs [OF assms(1), of weight k w] unfolding look
    by (auto simp: smooth_ready_def split: option.splits)
  have keys: "fst ` set W \<subseteq> ident ` set cs"
  proof
    fix k assume "k \<in> fst ` set W"
    then obtain w where "map_of W k = Some w" by (metis map_of_eq_None_iff not_None_eq)
    with kW show "k \<in> ident ` set cs" by blast
  qed
  have keep: "map_keep (\<lambda>k _. has_key k ?ws) m = m" if "fst ` set m \<subseteq> ident ` set cs" for m :: "(string \<times> int) list"
    using that by (intro map_keep_all) (force simp: has_key_map)
  have "fst ` set (sw_current st) \<subseteq> ident ` set cs" using assms(2) by (simp add: smooth_ready_def)
  then have "pruneStale ?ws (st\<lparr>sw_weights := W\<rparr>) = st\<lparr>sw_weights := W\<rparr>"
    using keys by (simp add: pruneStale_def keep)
  then have p: "prepare ?ws st = st\<lparr>sw_weights := W\<rparr>"
    using nc by (simp add: prepare_def Let_def W_def)
  show "smooth_ready ident weight cs (prepare ?ws st)"
    using kW wfW assms(2) by (auto simp: p smooth_ready_def)
  show "sw_current (prepare ?ws st) = sw_current st" by (simp add: p)
qed

lemma smooth_loop_keys:
  "smooth_loop ident weight es cur picked pc tot = (cur', q, t) \<Longrightarrow>
     fst ` set cur' \<subseteq> ident ` set es \<union> fst ` set cur \<and> (wf_map cur \<longrightarrow> wf_map cur')"
proof (induction es arbitrary: cur picked pc tot)
  case (Cons e es)
  let ?c = "saturatingAddInt64 (credit cur (ident e)) (weight e)"
  obtain q' c' where "smooth_loop ident weight es (map_put (ident e) ?c cur) q' c'
      (saturatingAddInt64 tot (weight e)) = (cur', q, t)"
    using Cons.prems by (auto simp: Let_def split: if_splits)
  from Cons.IH [OF this] show ?case by (auto simp: dom_update distinct_update)
qed simp

lemma smooth_pick_keys:
  assumes "smooth_pick ident weight es cur = (Some p, cur')" "wf_map cur" "p \<in> set es"
  shows "fst ` set cur' \<subseteq> ident ` set es \<union> fst ` set cur \<and> wf_map cur'"
proof -
  obtain c tot where l: "smooth_loop ident weight es cur None 0 0 = (c, Some p, tot)"
    and c: "cur' = map_put (ident p) (saturatingAddInt64 (credit c (ident p)) (- tot)) c"
    using assms(1) by (auto simp: smooth_pick_def split: prod.splits option.splits)
  have "fst ` set cur' = insert (ident p) (fst ` set c)" by (simp add: c dom_update)
  with smooth_loop_keys [OF l] assms(2,3) show ?thesis by (auto simp: c distinct_update)
qed

lemma smooth_loop_picked:
  "smooth_loop ident weight es cur picked pc tot = (cur', q, t) \<Longrightarrow>
     (case q of None \<Rightarrow> picked = None \<and> es = [] | Some p \<Rightarrow> picked = Some p \<or> p \<in> set es)"
proof (induction es arbitrary: cur picked pc tot)
  case (Cons e es)
  let ?c = "saturatingAddInt64 (credit cur (ident e)) (weight e)"
  obtain q' c' where l: "smooth_loop ident weight es (map_put (ident e) ?c cur) q' c'
      (saturatingAddInt64 tot (weight e)) = (cur', q, t)"
    and q': "q' = Some e \<or> q' = picked" "q' \<noteq> None"
    using Cons.prems by (auto simp: Let_def split: if_splits)
  from Cons.IH [OF l] q' show ?case by (auto split: option.splits)
qed (auto split: option.splits)

lemma smooth_pick_picked:
  "(case fst (smooth_pick ident weight es cur) of None \<Rightarrow> es = [] | Some p \<Rightarrow> p \<in> set es)"
  using smooth_loop_picked [of ident weight es cur None 0 0]
  by (auto simp: smooth_pick_def split: prod.splits option.splits)

lemma smooth_step_law:
  assumes "smooth_ready ident weight cs st" "cs \<noteq> []" "distinct (map ident cs)" "\<forall>e\<in>set cs. 0 < weight e"
    and "\<forall>i. \<bar>credit (sw_current st) i\<bar> + sum_list (map weight cs) \<le> max_int64"
  shows "\<exists>p st'. smooth_step ident weight cs st = (Some p, st') \<and> smooth_ready ident weight cs st' \<and> p \<in> set cs \<and>
    (\<forall>e\<in>set cs. credit (sw_current st) (ident e) + weight e \<le> credit (sw_current st) (ident p) + weight p) \<and>
    (\<forall>e\<in>set cs. credit (sw_current st') (ident e) = credit (sw_current st) (ident e) + weight e -
       (if ident e = ident p then sum_list (map weight cs) else 0)) \<and>
    (\<forall>i. i \<notin> ident ` set cs \<longrightarrow> credit (sw_current st') i = credit (sw_current st) i)"
proof -
  note prep = prepare_ready [OF assms(3,1)]
  let ?st = "prepare (map (\<lambda>e. (ident e, weight e)) cs) st"
  from smooth_pick_law [OF assms(2-5)] obtain p cur' where
    pk: "smooth_pick ident weight cs (sw_current st) = (Some p, cur')" and p: "p \<in> set cs"
    and rest: "\<forall>e\<in>set cs. credit (sw_current st) (ident e) + weight e \<le> credit (sw_current st) (ident p) + weight p"
      "\<forall>e\<in>set cs. credit cur' (ident e) = credit (sw_current st) (ident e) + weight e -
         (if ident e = ident p then sum_list (map weight cs) else 0)"
      "\<forall>i. i \<notin> ident ` set cs \<longrightarrow> credit cur' i = credit (sw_current st) i"
    by blast
  have "wf_map (sw_current st)" "fst ` set (sw_current st) \<subseteq> ident ` set cs"
    using assms(1) by (auto simp: smooth_ready_def)
  with smooth_pick_keys [OF pk _ p] have "fst ` set cur' \<subseteq> ident ` set cs" "wf_map cur'" by blast+
  with prep(1) have "smooth_ready ident weight cs (?st\<lparr>sw_current := cur'\<rparr>)"
    by (simp add: smooth_ready_def)
  moreover have "smooth_step ident weight cs st = (Some p, ?st\<lparr>sw_current := cur'\<rparr>)"
    by (simp add: smooth_step_def Let_def prep(2) pk)
  ultimately show ?thesis using p rest by (intro exI [of _ p] exI conjI) auto
qed

text \<open>The instance every weighted picker is reduced to: a step over the positive weights.\<close>

lemma smooth_step_picker:
  "smooth_picker ident weight (\<lambda>e. 0 < weight e) (\<lambda>st. credit (sw_current st))
     (\<lambda>es. smooth_ready ident weight (filter (\<lambda>e. 0 < weight e) es))
     (\<lambda>es. smooth_step ident weight (filter (\<lambda>e. 0 < weight e) es))"
proof
  fix es cur
  assume "filter (\<lambda>e. 0 < weight e) es = []"
  then show "fst (smooth_step ident weight (filter (\<lambda>e. 0 < weight e) es) cur) = None"
    by (simp add: smooth_step_def smooth_pick_def Let_def split: prod.splits)
qed (assumption, rule smooth_step_law, simp_all)

section \<open>The selector's pick is the reference\<close>

abbreviation weight_of :: "Auth \<Rightarrow> int" where
  "weight_of a \<equiv> authWeight (Some a)"

abbreviation weighted :: "Auth list \<Rightarrow> Auth list" where
  "weighted auths \<equiv> filter (\<lambda>a. 0 < weight_of a) auths"

lemma smooth_auth_loop_reference:
  "smooth_auth_loop (map Some auths) cur picked pc tot =
     smooth_loop auth_ID weight_of (weighted auths) cur picked pc tot"
  by (induction auths arbitrary: cur picked pc tot) (auto simp: Let_def)

lemma pickSmoothWeightedAuth_reference:
  "pickSmoothWeightedAuth (map Some auths) cur = smooth_pick auth_ID weight_of (weighted auths) cur"
  by (simp add: pickSmoothWeightedAuth_def smooth_pick_def smooth_auth_loop_reference)

lemma update_new: "k \<notin> fst ` set m \<Longrightarrow> map_put k v m = m @ [(k, v)]"
  by (induction m) auto

lemma authWeightVector_loop_eq:
  "distinct (map fst m @ map auth_ID (weighted auths)) \<Longrightarrow>
     authWeightVector_loop (map Some auths) m = m @ map (\<lambda>a. (auth_ID a, weight_of a)) (weighted auths)"
  by (induction auths arbitrary: m) (auto simp: Let_def update_new)

lemma authWeightVector_eq:
  "distinct (map auth_ID (weighted auths)) \<Longrightarrow>
     authWeightVector (map Some auths) = map (\<lambda>a. (auth_ID a, weight_of a)) (weighted auths)"
  by (simp add: authWeightVector_def authWeightVector_loop_eq)

end
