(* ===== verification/Selectors.thy ===== *)
theory Selectors
  imports Smooth_WRR
begin

text \<open>
  The built-in selectors of \<open>sdk/cliproxy/auth/selector.go\<close>: round-robin by identity of the previous
  pick, weighted round-robin and fill-first. A selector is a state and a \<open>Pick\<close>; the request context
  is reduced to what they read of it: whether the client is on a websocket, and the route model
  stored for the weighted selector. The locale \<open>selector\<close> is the contract of \<open>Pick\<close> that the
  session-affinity selector relies on.
\<close>

record pick_ctx =
  pc_websocket :: bool
  pc_routeModel :: "string option"

text \<open>The candidates a built-in selector chooses from, after the websocket preference.\<close>

definition selectable :: "pick_ctx \<Rightarrow> string \<Rightarrow> string \<Rightarrow> Auth option list \<Rightarrow> gotime \<Rightarrow> sel_error + Auth list" where
  "selectable ctx provider model auths now =
     (case getAvailableAuths auths provider model now of
        Inl e \<Rightarrow> Inl e
      | Inr available \<Rightarrow> Inr (preferCodexWebsocketAuths (pc_websocket ctx) provider available))"

section \<open>Round-robin\<close>

record RoundRobinSelector =
  rr_lastPicked :: "(string \<times> string) list"
  rr_maxKeys :: int

definition successorIndex :: "Auth list \<Rightarrow> string \<Rightarrow> nat" where
  "successorIndex available lastID =
     (if lastID = [] then 0
      else (let index = go_search (length available) (\<lambda>i. auth_ID (available ! i) > lastID)
            in if index \<ge> length available then 0 else index))"

definition ensureRotationKey :: "string \<Rightarrow> int \<Rightarrow> (string \<times> string) list \<Rightarrow> (string \<times> string) list" where
  "ensureRotationKey key limit lastPicked =
     (if \<not> has_key key lastPicked \<and> int (length lastPicked) \<ge> limit then [] else lastPicked)"

definition key_limit :: "int \<Rightarrow> int" where
  "key_limit maxKeys = (if maxKeys \<le> 0 then 4096 else maxKeys)"

definition rr_Pick ::
  "pick_ctx \<Rightarrow> string \<Rightarrow> string \<Rightarrow> Auth option list \<Rightarrow> gotime \<Rightarrow> RoundRobinSelector \<Rightarrow>
     (sel_error + Auth) \<times> RoundRobinSelector" where
  "rr_Pick ctx provider model auths now s =
     (case selectable ctx provider model auths now of
        Inl e \<Rightarrow> (Inl e, s)
      | Inr available \<Rightarrow>
          (let key = provider @ '':'' @ canonicalModelKey model;
               lastPicked = ensureRotationKey key (key_limit (rr_maxKeys s)) (rr_lastPicked s);
               picked = available ! successorIndex available (map_str lastPicked key)
           in (Inr picked, s\<lparr>rr_lastPicked := map_put key (auth_ID picked) lastPicked\<rparr>)))"

section \<open>Weighted round-robin\<close>

record WeightedRoundRobinSelector =
  wrr_states :: "(string \<times> smoothWeightedState) list"
  wrr_maxKeys :: int

definition positiveWeightAuths :: "Auth option list \<Rightarrow> Auth option list" where
  "positiveWeightAuths auths = filter (\<lambda>auth. authWeight auth > 0) auths"

definition weightedSelectorStateModel :: "pick_ctx \<Rightarrow> string \<Rightarrow> string" where
  "weightedSelectorStateModel ctx availabilityModel =
     (case pc_routeModel ctx of
        Some routeModel \<Rightarrow> if trim_space routeModel \<noteq> [] then routeModel else availabilityModel
      | None \<Rightarrow> availabilityModel)"

text \<open>\<open>withWeightedSelectorStateModel\<close>: the flag is whether the selector is the weighted one.\<close>

definition withWeightedSelectorStateModel :: "pick_ctx \<Rightarrow> bool \<Rightarrow> string \<Rightarrow> pick_ctx" where
  "withWeightedSelectorStateModel ctx weighted_selector routeModel =
     (if \<not> weighted_selector \<or> trim_space routeModel = [] then ctx
      else ctx\<lparr>pc_routeModel := Some routeModel\<rparr>)"

text \<open>The part of \<open>Pick\<close> under the lock, for the key and the candidates.\<close>

definition wrr_pick_locked ::
  "string \<Rightarrow> Auth list \<Rightarrow> WeightedRoundRobinSelector \<Rightarrow> Auth option \<times> WeightedRoundRobinSelector" where
  "wrr_pick_locked key available s =
     (let states = (if \<not> has_key key (wrr_states s) \<and>
                       int (length (wrr_states s)) \<ge> key_limit (wrr_maxKeys s)
                    then [] else wrr_states s);
          state = (case map_of states key of None \<Rightarrow> empty_smooth | Some st \<Rightarrow> st);
          state' = prepare (authWeightVector (map Some available)) state
      in case pickSmoothWeightedAuth (map Some available) (sw_current state') of
           (picked, current) \<Rightarrow>
             (picked, s\<lparr>wrr_states := map_put key (state'\<lparr>sw_current := current\<rparr>) states\<rparr>))"

definition wrr_Pick ::
  "pick_ctx \<Rightarrow> string \<Rightarrow> string \<Rightarrow> Auth option list \<Rightarrow> gotime \<Rightarrow> WeightedRoundRobinSelector \<Rightarrow>
     (sel_error + Auth) \<times> WeightedRoundRobinSelector" where
  "wrr_Pick ctx provider model auths now s =
     (case selectable ctx provider model (positiveWeightAuths auths) now of
        Inl e \<Rightarrow> (Inl e, s)
      | Inr available \<Rightarrow>
          (let key = provider @ '':'' @ canonicalModelKey (weightedSelectorStateModel ctx model)
           in case wrr_pick_locked key available s of
                (None, s') \<Rightarrow>
                  (Inl (auth_error ''auth_unavailable'' ''no auth available with positive weight''), s')
              | (Some picked, s') \<Rightarrow> (Inr picked, s')))"

section \<open>Fill-first\<close>

definition ff_Pick ::
  "pick_ctx \<Rightarrow> string \<Rightarrow> string \<Rightarrow> Auth option list \<Rightarrow> gotime \<Rightarrow> unit \<Rightarrow> (sel_error + Auth) \<times> unit" where
  "ff_Pick ctx provider model auths now s =
     (case selectable ctx provider model auths now of
        Inl e \<Rightarrow> (Inl e, s)
      | Inr available \<Rightarrow> (Inr (available ! 0), s))"

section \<open>The candidates\<close>

lemma prefer_subset: "set (preferCodexWebsocketAuths ws provider l) \<subseteq> set l"
  by (auto simp: preferCodexWebsocketAuths_def Let_def)

lemma prefer_nonempty: "l \<noteq> [] \<Longrightarrow> preferCodexWebsocketAuths ws provider l \<noteq> []"
  by (auto simp: preferCodexWebsocketAuths_def Let_def)

lemma prefer_filter: "\<exists>P. preferCodexWebsocketAuths ws provider l = filter P l"
  by (auto simp: preferCodexWebsocketAuths_def Let_def intro: exI [of _ "\<lambda>_. True"])

lemma selectable_Inr:
  assumes "selectable ctx provider model auths now = Inr l"
  shows "l \<noteq> []" "sorted (map auth_ID l)" "set l \<subseteq> set (unblocked auths model now)"
    and "distinct (map auth_ID (unblocked auths model now)) \<Longrightarrow> distinct (map auth_ID l)"
proof -
  obtain m where m: "getAvailableAuths auths provider model now = Inr m"
    and l: "l = preferCodexWebsocketAuths (pc_websocket ctx) provider m"
    using assms by (auto simp: selectable_def split: sum.splits)
  note g = getAvailableAuths_Inr [OF m]
  have mne: "m \<noteq> []" using g by (rule conjunct2)
  obtain P where P: "l = filter P m" using prefer_filter [of "pc_websocket ctx" provider m] l by blast
  show "l \<noteq> []" unfolding l by (rule prefer_nonempty [OF mne])
  show "sorted (map auth_ID l)" unfolding P using g by (intro sorted_filter) simp
  have "set m = set (top_tier (unblocked auths model now))" using g by (metis set_sort)
  then show "set l \<subseteq> set (unblocked auths model now)" unfolding P by (auto simp: set_top_tier)
  show "distinct (map auth_ID l)" if "distinct (map auth_ID (unblocked auths model now))"
  proof -
    have "distinct (map auth_ID m)"
      using g that by (simp add: distinct_sort_key top_tier_def distinct_map_filter_sub)
    then show ?thesis unfolding P by (rule distinct_map_filter_sub)
  qed
qed

lemma selectable_available:
  assumes "selectable ctx provider model auths now = Inr l" "a \<in> set l"
  shows "Some a \<in> set auths" "\<not> fst (isAuthBlockedForModel (Some a) model now)"
  using selectable_Inr(3) [OF assms(1)] assms(2) set_unblocked by blast+

section \<open>Consecutive picks\<close>

primrec pick_times :: "('s \<Rightarrow> 'r \<times> 's) \<Rightarrow> nat \<Rightarrow> 's \<Rightarrow> 'r list" where
  "pick_times pick 0 s = []"
| "pick_times pick (Suc n) s = (case pick s of (r, s') \<Rightarrow> r # pick_times pick n s')"

section \<open>The rotation\<close>

lemma successorIndex_less: "l \<noteq> [] \<Longrightarrow> successorIndex l lastID < length l"
  by (auto simp: successorIndex_def Let_def)

lemma sorted_ids_strict:
  "sorted (map auth_ID l) \<Longrightarrow> distinct (map auth_ID l) \<Longrightarrow> i < j \<Longrightarrow> j < length l \<Longrightarrow>
     auth_ID (l ! i) < auth_ID (l ! j)"
  using sorted_wrt_nth_less [of "(<)" "map auth_ID l" i j] by (simp add: strict_sorted_iff)

lemma successorIndex_next:
  assumes "sorted (map auth_ID l)" "distinct (map auth_ID l)" "[] \<notin> auth_ID ` set l" "i < length l"
  shows "successorIndex l (auth_ID (l ! i)) = Suc i mod length l"
proof -
  let ?f = "\<lambda>k. auth_ID (l ! k) > auth_ID (l ! i)"
  have ne: "auth_ID (l ! i) \<noteq> []" using assms(3,4) by (metis image_eqI nth_mem)
  have f: "?f k \<longleftrightarrow> i < k" if "k < length l" for k
    using sorted_ids_strict [OF assms(1,2)] that assms(4) by (metis linorder_neqE_nat order_less_asym')
  then have mono: "\<And>a b. a \<le> b \<Longrightarrow> b < length l \<Longrightarrow> ?f a \<Longrightarrow> ?f b" by force
  have g1: "go_search (length l) ?f \<le> length l" by (rule go_search_spec(1)) (rule mono)
  have g2: "\<not> ?f k" if "k < go_search (length l) ?f" for k
    by (rule go_search_spec(2) [OF _ that]) (rule mono)
  have g3: "?f k" if "go_search (length l) ?f \<le> k" "k < length l" for k
    by (rule go_search_spec(3) [OF _ that]) (rule mono)
  have "go_search (length l) ?f = Suc i"
  proof (rule antisym)
    show "go_search (length l) ?f \<le> Suc i"
    proof (rule ccontr)
      assume "\<not> ?thesis"
      then have lt: "Suc i < go_search (length l) ?f" by simp
      with g1 have "Suc i < length l" by simp
      with f have "?f (Suc i)" by blast
      with g2 [OF lt] show False by blast
    qed
    show "Suc i \<le> go_search (length l) ?f"
    proof (rule ccontr)
      assume "\<not> ?thesis"
      then have "go_search (length l) ?f \<le> i" by simp
      with g3 assms(4) have "?f i" by blast
      then show False by simp
    qed
  qed
  with ne assms(4) show ?thesis
    by (cases "Suc i = length l") (auto simp: successorIndex_def Let_def)
qed

lemma rr_Pick_step:
  assumes sel: "selectable ctx provider model auths now = Inr l"
    and key: "key = provider @ '':'' @ canonicalModelKey model"
  obtains j s' where "rr_Pick ctx provider model auths now s = (Inr (l ! j), s')" "j < length l"
    "has_key key (rr_lastPicked s')" "map_str (rr_lastPicked s') key = auth_ID (l ! j)"
    "has_key key (rr_lastPicked s) \<Longrightarrow> j = successorIndex l (map_str (rr_lastPicked s) key)"
  using sel selectable_Inr(1) [OF sel] successorIndex_less [of l] that
  by (force simp: rr_Pick_def Let_def key has_key_def map_str_def update_conv' ensureRotationKey_def)

lemma rr_rotation:
  assumes sel: "selectable ctx provider model auths now = Inr l"
    and l: "sorted (map auth_ID l)" "distinct (map auth_ID l)" "[] \<notin> auth_ID ` set l"
    and key: "key = provider @ '':'' @ canonicalModelKey model"
  shows "has_key key (rr_lastPicked s) \<Longrightarrow> i < length l \<Longrightarrow> map_str (rr_lastPicked s) key = auth_ID (l ! i) \<Longrightarrow>
    pick_times (rr_Pick ctx provider model auths now) n s =
      map (\<lambda>k. Inr (l ! ((Suc i + k) mod length l))) [0..<n]"
proof (induction n arbitrary: s i)
  case (Suc n)
  obtain j s' where j: "rr_Pick ctx provider model auths now s = (Inr (l ! j), s')" "j < length l"
    "has_key key (rr_lastPicked s')" "map_str (rr_lastPicked s') key = auth_ID (l ! j)"
    "j = successorIndex l (map_str (rr_lastPicked s) key)"
    using rr_Pick_step [OF sel key, of s] Suc.prems(1) by metis
  have "j = Suc i mod length l" using j(5) Suc.prems successorIndex_next [OF l] by simp
  moreover have "(Suc (Suc i mod length l) + k) mod length l = (Suc i + Suc k) mod length l" for k
    using mod_add_left_eq [of "Suc i" "length l" "Suc k"] by simp
  ultimately show ?case
    using Suc.IH [OF j(3,2,4)] j(1) by (simp add: upt_conv_Cons map_Suc_upt [symmetric] del: upt_Suc)
qed simp

lemma rr_times_rotate:
  assumes sel: "selectable ctx provider model auths now = Inr l"
    and l: "distinct (map auth_ID l)" "[] \<notin> auth_ID ` set l"
  shows "\<exists>j. pick_times (rr_Pick ctx provider model auths now) n s =
    map (\<lambda>k. Inr (l ! ((j + k) mod length l))) [0..<n]"
proof (cases n)
  case (Suc m)
  note so = selectable_Inr(2) [OF sel]
  define key where "key = provider @ '':'' @ canonicalModelKey model"
  obtain j s' where j: "rr_Pick ctx provider model auths now s = (Inr (l ! j), s')" "j < length l"
    "has_key key (rr_lastPicked s')" "map_str (rr_lastPicked s') key = auth_ID (l ! j)"
    using rr_Pick_step [OF sel key_def, of s] by metis
  have "pick_times (rr_Pick ctx provider model auths now) n s =
      map (\<lambda>k. Inr (l ! ((j + k) mod length l))) [0..<n]"
    using rr_rotation [OF sel so l key_def j(3,2,4), of m] j(1,2) Suc
    by (simp add: upt_conv_Cons map_Suc_upt [symmetric] del: upt_Suc)
  then show ?thesis by blast
qed simp

lemma mset_rotation: "l \<noteq> [] \<Longrightarrow> mset (map (\<lambda>k. l ! ((j + k) mod length l)) [0..<length l]) = mset l"
proof -
  assume "l \<noteq> []"
  then have "map (\<lambda>k. l ! ((j + k) mod length l)) [0..<length l] = rotate j l"
    by (intro nth_equalityI) (simp_all add: nth_rotate)
  then show ?thesis by (metis append_take_drop_id mset_append rotate_drop_take union_commute)
qed

section \<open>The weighted selector's step has the contract\<close>

definition state_at :: "string \<Rightarrow> WeightedRoundRobinSelector \<Rightarrow> smoothWeightedState" where
  "state_at key s = (case map_of (wrr_states s) key of None \<Rightarrow> empty_smooth | Some st \<Rightarrow> st)"

lemma wrr_pick_locked_step:
  assumes "distinct (map auth_ID (weighted es))"
  shows "\<exists>s'. wrr_pick_locked key es s =
      (fst (smooth_step auth_ID weight_of (weighted es) (state_at key s)), s') \<and>
    state_at key s' = snd (smooth_step auth_ID weight_of (weighted es) (state_at key s))"
proof -
  let ?states = "if \<not> has_key key (wrr_states s) \<and> int (length (wrr_states s)) \<ge> key_limit (wrr_maxKeys s)
    then [] else wrr_states s"
  have "(case map_of ?states key of None \<Rightarrow> empty_smooth | Some st \<Rightarrow> st) = state_at key s"
    by (simp add: state_at_def has_key_def)
  then show ?thesis
    by (simp add: wrr_pick_locked_def Let_def authWeightVector_eq [OF assms]
        pickSmoothWeightedAuth_reference smooth_step_def state_at_def update_conv' split: prod.splits)
qed

interpretation wrr: smooth_picker auth_ID weight_of "\<lambda>a. 0 < weight_of a"
  "\<lambda>s. credit (sw_current (state_at key s))"
  "\<lambda>es s. smooth_ready auth_ID weight_of (weighted es) (state_at key s)"
  "wrr_pick_locked key" for key
proof
  fix es cur
  assume "weighted es = []"
  then show "fst (wrr_pick_locked key es cur) = None"
    using wrr_pick_locked_step [of es key cur]
    by (auto simp: smooth_step_def smooth_pick_def Let_def split: prod.splits)
next
  fix es cur
  assume a: "smooth_ready auth_ID weight_of (weighted es) (state_at key cur)" "weighted es \<noteq> []"
    "distinct (map auth_ID (weighted es))"
    "\<forall>i. \<bar>credit (sw_current (state_at key cur)) i\<bar> + sum_list (map weight_of (weighted es)) \<le> max_int64"
  obtain s' where s': "wrr_pick_locked key es cur =
      (fst (smooth_step auth_ID weight_of (weighted es) (state_at key cur)), s')"
    "state_at key s' = snd (smooth_step auth_ID weight_of (weighted es) (state_at key cur))"
    using wrr_pick_locked_step [OF a(3)] by blast
  have pw: "\<forall>e\<in>set (weighted es). 0 < weight_of e" by simp
  from smooth_step_law [OF a(1-3) pw a(4)] obtain p st' where
    st: "smooth_step auth_ID weight_of (weighted es) (state_at key cur) = (Some p, st')"
      "smooth_ready auth_ID weight_of (weighted es) st'" "p \<in> set (weighted es)"
    and law: "\<forall>e\<in>set (weighted es). credit (sw_current (state_at key cur)) (auth_ID e) + weight_of e \<le>
         credit (sw_current (state_at key cur)) (auth_ID p) + weight_of p"
      "\<forall>e\<in>set (weighted es). credit (sw_current st') (auth_ID e) =
         credit (sw_current (state_at key cur)) (auth_ID e) + weight_of e -
         (if auth_ID e = auth_ID p then sum_list (map weight_of (weighted es)) else 0)"
      "\<forall>i. i \<notin> auth_ID ` set (weighted es) \<longrightarrow>
         credit (sw_current st') i = credit (sw_current (state_at key cur)) i"
    by blast
  then show "\<exists>p cur'. wrr_pick_locked key es cur = (Some p, cur') \<and>
      smooth_ready auth_ID weight_of (weighted es) (state_at key cur') \<and> p \<in> set (weighted es) \<and>
      (\<forall>e\<in>set (weighted es). credit (sw_current (state_at key cur)) (auth_ID e) + weight_of e \<le>
         credit (sw_current (state_at key cur)) (auth_ID p) + weight_of p) \<and>
      (\<forall>e\<in>set (weighted es). credit (sw_current (state_at key cur')) (auth_ID e) =
         credit (sw_current (state_at key cur)) (auth_ID e) + weight_of e -
         (if auth_ID e = auth_ID p then sum_list (map weight_of (weighted es)) else 0)) \<and>
      (\<forall>i. i \<notin> auth_ID ` set (weighted es) \<longrightarrow>
         credit (sw_current (state_at key cur')) i = credit (sw_current (state_at key cur)) i)"
    using s' by (intro exI [of _ p] exI [of _ s']) simp
qed

lemma wrr_Pick_times:
  assumes "selectable ctx provider model (positiveWeightAuths auths) now = Inr l"
    and "key = provider @ '':'' @ canonicalModelKey (weightedSelectorStateModel ctx model)"
  shows "pick_times (wrr_Pick ctx provider model auths now) n s =
    map (\<lambda>p. case p of None \<Rightarrow> Inl (auth_error ''auth_unavailable'' ''no auth available with positive weight'')
                 | Some a \<Rightarrow> Inr a) (fst (wrr.picks key n l s))"
  using assms
  by (induction n arbitrary: s) (auto simp: wrr_Pick_def Let_def split: prod.splits option.splits)

lemma positive_selectable:
  assumes "selectable ctx provider model (positiveWeightAuths auths) now = Inr l"
  shows "weighted l = l"
  using selectable_available(1) [OF assms]
  by (auto simp: filter_id_conv positiveWeightAuths_def)

lemma wrr_fair_input:
  assumes "weighted l = l" "l \<noteq> []" "distinct (map auth_ID l)" "length l \<le> 1000000"
    "\<forall>a\<in>set l. valid_metadata (auth_Metadata a)"
  shows "wrr.fair_input l"
proof -
  have "sum_list (map weight_of l) \<le> int (length l) * MaxWeight"
    by (rule sum_list_upper) (use assms(5) authWeight_valid in \<open>auto simp: valid_weight_def\<close>)
  moreover have "0 \<le> sum_list (map weight_of l)"
    using assms(1) by (intro sum_list_nonneg) (auto simp: filter_id_conv less_imp_le)
  ultimately have "(int (length l) + 1) * sum_list (map weight_of l) \<le> 1000001 * (1000000 * 1000000)"
    using assms(4) by (intro mult_mono) auto
  then show ?thesis using assms by (simp add: wrr.fair_input_def wrr.cands_def wrr.total_def)
qed

section \<open>The contract of a selector\<close>

text \<open>
  What a client of a selector may rely on: a picked credential is one of the candidates, and the
  selector calls it unblocked at the time of the pick; and a pick that finds available candidates
  of positive weight does not fail.
\<close>

locale selector =
  fixes pick :: "pick_ctx \<Rightarrow> string \<Rightarrow> string \<Rightarrow> Auth option list \<Rightarrow> gotime \<Rightarrow> 's \<Rightarrow> (sel_error + Auth) \<times> 's"
  assumes pick_sound: "fst (pick ctx provider model auths now s) = Inr a \<Longrightarrow>
      Some a \<in> set auths \<and> \<not> fst (isAuthBlockedForModel (Some a) model now)"
    and pick_complete: "Some b \<in> set auths \<Longrightarrow> \<not> fst (isAuthBlockedForModel (Some b) model now) \<Longrightarrow>
      0 < weight_of b \<Longrightarrow>
      \<exists>a. fst (pick ctx provider model auths now s) = Inr a"
begin

lemma pick_total:
  "(\<exists>a. fst (pick ctx provider model auths now s) = Inr a) \<or>
   (\<exists>e. fst (pick ctx provider model auths now s) = Inl e)"
  by (cases "fst (pick ctx provider model auths now s)") auto

end

lemma selectable_Some:
  "Some b \<in> set auths \<Longrightarrow> \<not> fst (isAuthBlockedForModel (Some b) model now) \<Longrightarrow>
     \<exists>l. selectable ctx provider model auths now = Inr l"
  using getAvailableAuths_Inl [of auths provider model now] set_unblocked [of b auths model now]
  by (cases "getAvailableAuths auths provider model now") (auto simp: selectable_def)

interpretation rrs: selector rr_Pick
proof
  fix ctx provider model auths now s a
  assume "fst (rr_Pick ctx provider model auths now s) = Inr a"
  then obtain l where l: "selectable ctx provider model auths now = Inr l" and a: "a \<in> set l"
    using selectable_Inr(1) successorIndex_less
    by (fastforce simp: rr_Pick_def Let_def split: sum.splits)
  from selectable_available [OF this]
  show "Some a \<in> set auths \<and> \<not> fst (isAuthBlockedForModel (Some a) model now)" by blast
next
  fix ctx :: pick_ctx and provider model b auths now and s :: RoundRobinSelector
  assume "Some b \<in> set auths" "\<not> fst (isAuthBlockedForModel (Some b) model now)"
  from selectable_Some [OF this, of ctx provider]
  show "\<exists>a. fst (rr_Pick ctx provider model auths now s) = Inr a"
    by (auto simp: rr_Pick_def Let_def)
qed

interpretation ffs: selector ff_Pick
proof
  fix ctx provider model auths now s a
  assume "fst (ff_Pick ctx provider model auths now s) = Inr a"
  then obtain l where l: "selectable ctx provider model auths now = Inr l" and a: "a \<in> set l"
    using selectable_Inr(1) by (fastforce simp: ff_Pick_def split: sum.splits)
  from selectable_available [OF this]
  show "Some a \<in> set auths \<and> \<not> fst (isAuthBlockedForModel (Some a) model now)" by blast
next
  fix ctx :: pick_ctx and provider model b auths now and s :: unit
  assume "Some b \<in> set auths" "\<not> fst (isAuthBlockedForModel (Some b) model now)"
  from selectable_Some [OF this, of ctx provider]
  show "\<exists>a. fst (ff_Pick ctx provider model auths now s) = Inr a"
    by (auto simp: ff_Pick_def)
qed

lemma wrr_pick_locked_picked:
  "(case fst (wrr_pick_locked key l s) of None \<Rightarrow> weighted l = [] | Some p \<Rightarrow> p \<in> set (weighted l))"
proof -
  obtain cur where "fst (wrr_pick_locked key l s) = fst (smooth_pick auth_ID weight_of (weighted l) cur)"
    by (simp add: wrr_pick_locked_def Let_def pickSmoothWeightedAuth_reference split_beta)
  then show ?thesis using smooth_pick_picked [where es = "weighted l" and ident = auth_ID and weight = weight_of and cur = cur] by simp
qed

lemma wrr_pick_locked_some: "weighted l \<noteq> [] \<Longrightarrow> \<exists>p s'. wrr_pick_locked key l s = (Some p, s')"
  using wrr_pick_locked_picked [where key = key and l = l and s = s]
  by (cases "wrr_pick_locked key l s") (auto split: option.splits)

interpretation wrrs: selector wrr_Pick
proof
  fix ctx provider model auths now s a
  assume "fst (wrr_Pick ctx provider model auths now s) = Inr a"
  then obtain l key where l: "selectable ctx provider model (positiveWeightAuths auths) now = Inr l"
    and "fst (wrr_pick_locked key l s) = Some a"
    by (auto simp: wrr_Pick_def Let_def split: sum.splits prod.splits option.splits) (metis fst_conv)
  with wrr_pick_locked_picked [where key = key and l = l and s = s] have "a \<in> set l" by simp
  from selectable_available [OF l this]
  show "Some a \<in> set auths \<and> \<not> fst (isAuthBlockedForModel (Some a) model now)"
    by (simp add: positiveWeightAuths_def)
next
  fix ctx :: pick_ctx and provider model b auths now and s :: WeightedRoundRobinSelector
  assume b: "Some b \<in> set auths" "\<not> fst (isAuthBlockedForModel (Some b) model now)" "0 < weight_of b"
  then have "Some b \<in> set (positiveWeightAuths auths)" by (simp add: positiveWeightAuths_def)
  from selectable_Some [OF this b(2), of ctx provider] obtain l where
    l: "selectable ctx provider model (positiveWeightAuths auths) now = Inr l" by blast
  have "weighted l \<noteq> []" using positive_selectable [OF l] selectable_Inr(1) [OF l] by simp
  then obtain p s' where "wrr_pick_locked (provider @ '':'' @ canonicalModelKey (weightedSelectorStateModel ctx model)) l s =
      (Some p, s')"
    using wrr_pick_locked_some by blast
  then show "\<exists>a. fst (wrr_Pick ctx provider model auths now s) = Inr a"
    by (simp add: wrr_Pick_def l Let_def)
qed

section \<open>Properties\<close>

text \<open>C11. Round-robin visits every candidate: as many consecutive picks as there are candidates return
  each of them exactly once, from any state of the selector, when identifiers are distinct and not
  empty.\<close>

theorem round_robin_visits_all:
  assumes "selectable ctx provider model auths now = Inr l"
    and "distinct (map auth_ID l)" "[] \<notin> auth_ID ` set l"
  shows "mset (pick_times (rr_Pick ctx provider model auths now) (length l) s) = mset (map Inr l)"
proof -
  obtain j where j: "pick_times (rr_Pick ctx provider model auths now) (length l) s =
      map (\<lambda>k. Inr (l ! ((j + k) mod length l))) [0..<length l]"
    using rr_times_rotate [OF assms] by blast
  have "mset (map (\<lambda>k. Inr (l ! ((j + k) mod length l))) [0..<length l]) =
      image_mset Inr (mset (map (\<lambda>k. l ! ((j + k) mod length l)) [0..<length l]))"
    by (simp add: image_mset.compositionality comp_def)
  then show ?thesis
    using mset_rotation [OF selectable_Inr(1) [OF assms(1)], of j] by (simp only: j mset_map)
qed

text \<open>C10. The weighted selector gives exact shares: starting with no state for the key, over as many
  consecutive picks as the sum of the weights every candidate is picked exactly its weight many
  times. There may be a million candidates before an accumulator could saturate.\<close>

theorem weighted_exact_share:
  assumes l: "selectable ctx provider model (positiveWeightAuths auths) now = Inr l"
    and d: "distinct (map auth_ID l)" "length l \<le> 1000000"
    and md: "\<forall>a\<in>set l. valid_metadata (auth_Metadata a)"
    and new: "\<not> has_key (provider @ '':'' @ canonicalModelKey (weightedSelectorStateModel ctx model)) (wrr_states s)"
    and a: "a \<in> set l"
  shows "int (count (mset (pick_times (wrr_Pick ctx provider model auths now)
      (nat (sum_list (map (\<lambda>b. authWeight (Some b)) l))) s)) (Inr a)) = authWeight (Some a)"
proof -
  define key where "key = provider @ '':'' @ canonicalModelKey (weightedSelectorStateModel ctx model)"
  let ?n = "nat (sum_list (map weight_of l))"
  note w = positive_selectable [OF l]
  have fair: "wrr.fair_input l" using wrr_fair_input [OF w selectable_Inr(1) [OF l] d md] .
  have c: "wrr.cands l = l" "wrr.total l = sum_list (map weight_of l)"
    using w by (simp_all add: wrr.cands_def wrr.total_def)
  have st: "state_at key s = empty_smooth"
    using new by (simp add: state_at_def key_def has_key_def)
  have fresh: "wrr.fresh key l s"
    by (simp add: wrr.fresh_def st smooth_ready_empty) (simp add: empty_smooth_def)
  obtain ps cur' where ps: "wrr.picks key ?n l s = (ps, cur')" by (cases "wrr.picks key ?n l s")
  have t: "wrr.times a ps = weight_of a"
    using wrr.fair_cycle(1) [OF fair fresh ps [folded c(2)]] a c by simp
  have sub: "set ps \<subseteq> Some ` set l"
    using wrr.picks_spec [OF fair wrr.balanced_fresh [OF _ fresh], of ?n] ps c selectable_Inr(1) [OF l] by simp
  have "length (filter (\<lambda>p. map_option auth_ID p = Some (auth_ID a)) ps) = length (filter (\<lambda>p. p = Some a) ps)"
    using sub a d(1) by (intro arg_cong [where f = length] filter_cong) (auto simp: distinct_map dest: inj_onD)
  moreover have "count (mset (map (\<lambda>p. case p of None \<Rightarrow> Inl e | Some a \<Rightarrow> Inr a) ps)) (Inr a) =
      length (filter (\<lambda>p. p = Some a) ps)" for e :: sel_error
    by (induction ps) (auto split: option.splits)
  ultimately show ?thesis
    using t by (simp only: wrr_Pick_times [OF l key_def] ps fst_conv wrr.times_def)
qed

definition weighted_auth :: "string \<Rightarrow> string \<Rightarrow> Auth" where
  "weighted_auth authID w = (new_auth authID ''p'')\<lparr>auth_Attributes := [(''weight'', w)]\<rparr>"

theorem round_robin_visits_all_witness:
  "mset (pick_times (rr_Pick \<lparr>pc_websocket = False, pc_routeModel = None\<rparr> ''p'' ''m''
      [Some (new_auth ''b'' ''p''), Some (new_auth ''a'' ''p'')] 5) 2 \<lparr>rr_lastPicked = [], rr_maxKeys = 0\<rparr>) =
   mset [Inr (new_auth ''a'' ''p''), Inr (new_auth ''b'' ''p'')]"
proof -
  have "selectable \<lparr>pc_websocket = False, pc_routeModel = None\<rparr> ''p'' ''m''
      [Some (new_auth ''b'' ''p''), Some (new_auth ''a'' ''p'')] 5 =
    Inr [new_auth ''a'' ''p'', new_auth ''b'' ''p'']" by code_simp
  from round_robin_visits_all [OF this] show ?thesis by (simp add: new_auth_def numeral_2_eq_2)
qed

theorem weighted_exact_share_witness:
  "int (count (mset (pick_times (wrr_Pick \<lparr>pc_websocket = False, pc_routeModel = None\<rparr> ''p'' ''m''
      [Some (weighted_auth ''b'' ''3''), Some (weighted_auth ''a'' ''1'')] 5) 4
      \<lparr>wrr_states = [], wrr_maxKeys = 0\<rparr>)) (Inr (weighted_auth ''b'' ''3''))) = 3"
proof -
  let ?l = "[weighted_auth ''a'' ''1'', weighted_auth ''b'' ''3'']"
  have sel: "selectable \<lparr>pc_websocket = False, pc_routeModel = None\<rparr> ''p'' ''m''
      (positiveWeightAuths [Some (weighted_auth ''b'' ''3''), Some (weighted_auth ''a'' ''1'')]) 5 = Inr ?l"
    by code_simp
  have w: "authWeight (Some (weighted_auth ''b'' ''3'')) = 3" "authWeight (Some (weighted_auth ''a'' ''1'')) = 1"
    by code_simp+
  have "distinct (map auth_ID ?l)" "length ?l \<le> 1000000" "\<forall>a\<in>set ?l. valid_metadata (auth_Metadata a)"
    by (simp_all add: weighted_auth_def new_auth_def valid_metadata_def)
  from weighted_exact_share [OF sel this, of "\<lparr>wrr_states = [], wrr_maxKeys = 0\<rparr>" "weighted_auth ''b'' ''3''"]
  show ?thesis by (simp add: w has_key_def)
qed

end
