(* ===== verification/Session_Cache.thy ===== *)
theory Session_Cache
  imports Go_Prelude
begin

text \<open>
  \<open>sdk/cliproxy/auth/session_cache.go\<close>: the session-to-credential bindings with their alias groups and
  expiry. The entry map is a HOL map: the code ranges over it only to delete entries. Every
  operation takes the time it reads; \<open>Get\<close> reads the clock twice. The cleanup goroutine is the
  operation \<open>cleanup\<close>, which may run at any time.
\<close>

record sessionEntry =
  se_authID :: string
  se_expiresAt :: gotime
  se_aliases :: "string list"

record SessionCache =
  sc_entries :: "string \<rightharpoonup> sessionEntry"
  sc_ttl :: duration

abbreviation (input) maxStableSessionAliases :: nat where
  "maxStableSessionAliases \<equiv> 64"

definition NewSessionCache :: "duration \<Rightarrow> SessionCache" where
  "NewSessionCache ttl =
     \<lparr>sc_entries = Map.empty, sc_ttl = (if ttl \<le> 0 then 30 * minute_ns else ttl)\<rparr>"

section \<open>Alias lists\<close>

definition isLocalPromptCacheSessionAlias :: "string \<Rightarrow> bool" where
  "isLocalPromptCacheSessionAlias alias =
     (if has_prefix alias ''pck:'' then True
      else (case str_cut alias ''::'' of
              None \<Rightarrow> False
            | Some (_, sessionAndModel) \<Rightarrow> has_prefix sessionAndModel ''pck:''))"

fun compact_loop :: "(string \<Rightarrow> bool) \<Rightarrow> string list \<Rightarrow> bool \<Rightarrow> nat \<Rightarrow> string list" where
  "compact_loop isPck [] hasPromptCacheKey stableAliases = []"
| "compact_loop isPck (alias # aliases) hasPromptCacheKey stableAliases =
     (if isPck alias then
        (if hasPromptCacheKey then compact_loop isPck aliases hasPromptCacheKey stableAliases
         else alias # compact_loop isPck aliases True stableAliases)
      else if stableAliases \<ge> maxStableSessionAliases then
        compact_loop isPck aliases hasPromptCacheKey stableAliases
      else alias # compact_loop isPck aliases hasPromptCacheKey (Suc stableAliases))"

definition compactSessionAliasesWith :: "string list \<Rightarrow> (string \<Rightarrow> bool) \<Rightarrow> string list" where
  "compactSessionAliasesWith aliases isPck = compact_loop isPck aliases False 0"

definition compactSessionAliases :: "string list \<Rightarrow> string list" where
  "compactSessionAliases aliases = compactSessionAliasesWith aliases isLocalPromptCacheSessionAlias"

definition compactHomeSessionAliases :: "string list \<Rightarrow> string list" where
  "compactHomeSessionAliases aliases =
     compactSessionAliasesWith aliases (\<lambda>alias. has_prefix alias ''pck:'')"

definition add_alias :: "string \<Rightarrow> string list \<Rightarrow> string list" where
  "add_alias alias aliases =
     (if alias = [] \<or> alias \<in> set aliases then aliases else aliases @ [alias])"

definition mergeSessionAliases :: "string list \<Rightarrow> string list \<Rightarrow> string list" where
  "mergeSessionAliases existing candidates = fold add_alias candidates (fold add_alias existing [])"

definition equalSessionAliases :: "string list \<Rightarrow> string list \<Rightarrow> bool" where
  "equalSessionAliases left right \<longleftrightarrow> (length left = length right \<and> list_all2 (=) left right)"

section \<open>Groups\<close>

type_synonym entries = "string \<rightharpoonup> sessionEntry"

definition remove_alias :: "sessionEntry \<Rightarrow> string \<Rightarrow> entries \<Rightarrow> entries" where
  "remove_alias entry alias E =
     (case E alias of
        None \<Rightarrow> E
      | Some current \<Rightarrow>
          if se_authID current \<noteq> se_authID entry \<or> se_expiresAt current \<noteq> se_expiresAt entry \<or>
             \<not> equalSessionAliases (se_aliases current) (se_aliases entry)
          then E else E(alias := None))"

definition removeAliasGroupLocked :: "sessionEntry \<Rightarrow> entries \<Rightarrow> entries" where
  "removeAliasGroupLocked entry E = fold (remove_alias entry) (se_aliases entry) E"

definition replaceAliasGroupsLocked ::
  "string \<Rightarrow> gotime \<Rightarrow> string list \<Rightarrow> sessionEntry list \<Rightarrow> entries \<Rightarrow> entries" where
  "replaceAliasGroupsLocked authID expiresAt aliases previousGroups E =
     (let E1 = fold removeAliasGroupLocked previousGroups E;
          entry = \<lparr>se_authID = authID, se_expiresAt = expiresAt, se_aliases = aliases\<rparr>
      in fold (\<lambda>alias E. E(alias \<mapsto> entry)) aliases E1)"

section \<open>Operations\<close>

definition Get :: "string \<Rightarrow> gotime \<Rightarrow> gotime \<Rightarrow> SessionCache \<Rightarrow> string option \<times> SessionCache" where
  "Get sessionID now now2 c =
     (if sessionID = [] then (None, c)
      else (case sc_entries c sessionID of
              None \<Rightarrow> (None, c)
            | Some entry \<Rightarrow>
                if time_before now (se_expiresAt entry) then (Some (se_authID entry), c)
                else if time_before now2 (se_expiresAt entry) then (Some (se_authID entry), c)
                else (None, c\<lparr>sc_entries := removeAliasGroupLocked entry (sc_entries c)\<rparr>)))"

definition GetAndRefresh :: "string \<Rightarrow> gotime \<Rightarrow> SessionCache \<Rightarrow> string option \<times> SessionCache" where
  "GetAndRefresh sessionID now c =
     (if sessionID = [] then (None, c)
      else (case sc_entries c sessionID of
              None \<Rightarrow> (None, c)
            | Some entry \<Rightarrow>
                if \<not> time_before now (se_expiresAt entry) then
                  (None, c\<lparr>sc_entries := removeAliasGroupLocked entry (sc_entries c)\<rparr>)
                else
                  (let aliases = compactSessionAliases (mergeSessionAliases [sessionID] (se_aliases entry))
                   in (Some (se_authID entry),
                       c\<lparr>sc_entries := replaceAliasGroupsLocked (se_authID entry) (now + sc_ttl c) aliases
                            [entry] (sc_entries c)\<rparr>))))"

text \<open>The loop of \<open>SetAliases\<close>: entries, \<open>aliases\<close> and \<open>previousGroups\<close>.\<close>

fun set_aliases_loop ::
  "gotime \<Rightarrow> string list \<Rightarrow> entries \<Rightarrow> string list \<Rightarrow> sessionEntry list \<Rightarrow>
     entries \<times> string list \<times> sessionEntry list" where
  "set_aliases_loop now [] E aliases previousGroups = (E, aliases, previousGroups)"
| "set_aliases_loop now (sessionID # sessionIDs) E aliases previousGroups =
     (case E sessionID of
        None \<Rightarrow> set_aliases_loop now sessionIDs E aliases previousGroups
      | Some entry \<Rightarrow>
          if \<not> time_before now (se_expiresAt entry) then
            set_aliases_loop now sessionIDs (removeAliasGroupLocked entry E) aliases previousGroups
          else set_aliases_loop now sessionIDs E (mergeSessionAliases aliases (se_aliases entry))
                 (previousGroups @ [entry]))"

definition SetAliases :: "string \<Rightarrow> string list \<Rightarrow> gotime \<Rightarrow> SessionCache \<Rightarrow> SessionCache" where
  "SetAliases authID sessionIDs now c =
     (if authID = [] then c
      else
        (case set_aliases_loop now sessionIDs (sc_entries c) (mergeSessionAliases [] sessionIDs) [] of
           (E, aliases0, previousGroups) \<Rightarrow>
             (let aliases = compactSessionAliases aliases0 in
              if length aliases = 0 then c\<lparr>sc_entries := E\<rparr>
              else c\<lparr>sc_entries := replaceAliasGroupsLocked authID (now + sc_ttl c) aliases
                       previousGroups E\<rparr>)))"

definition Set_session :: "string \<Rightarrow> string \<Rightarrow> gotime \<Rightarrow> SessionCache \<Rightarrow> SessionCache" where
  "Set_session sessionID authID now c = SetAliases authID [sessionID] now c"

definition Touch :: "string \<Rightarrow> string \<Rightarrow> gotime \<Rightarrow> SessionCache \<Rightarrow> bool \<times> SessionCache" where
  "Touch sessionID expectedAuthID now c =
     (if sessionID = [] \<or> expectedAuthID = [] then (False, c)
      else (case sc_entries c sessionID of
              None \<Rightarrow> (False, c)
            | Some entry \<Rightarrow>
                if se_authID entry \<noteq> expectedAuthID \<or> \<not> time_before now (se_expiresAt entry)
                then (False, c)
                else
                  (let aliases = compactSessionAliases (mergeSessionAliases [sessionID] (se_aliases entry))
                   in (True, c\<lparr>sc_entries := replaceAliasGroupsLocked expectedAuthID (now + sc_ttl c)
                         aliases [entry] (sc_entries c)\<rparr>))))"

text \<open>Taking an identifier out of the alias lists of the other members of its group.\<close>

definition drop_from_alias :: "string \<Rightarrow> sessionEntry \<Rightarrow> string \<Rightarrow> entries \<Rightarrow> entries" where
  "drop_from_alias sessionID entry alias E =
     (if alias = sessionID then E
      else (case E alias of
              None \<Rightarrow> E
            | Some current \<Rightarrow>
                if se_authID current \<noteq> se_authID entry then E
                else E(alias \<mapsto> current\<lparr>se_aliases :=
                       filter (\<lambda>candidate. candidate \<noteq> sessionID) (se_aliases current)\<rparr>)))"

definition detach :: "string \<Rightarrow> sessionEntry \<Rightarrow> entries \<Rightarrow> entries" where
  "detach sessionID entry E =
     fold (drop_from_alias sessionID entry) (se_aliases entry) (E(sessionID := None))"

definition CompareAndDelete :: "string \<Rightarrow> string \<Rightarrow> SessionCache \<Rightarrow> bool \<times> SessionCache" where
  "CompareAndDelete sessionID expectedAuthID c =
     (if sessionID = [] \<or> expectedAuthID = [] then (False, c)
      else (case sc_entries c sessionID of
              None \<Rightarrow> (False, c)
            | Some entry \<Rightarrow>
                if se_authID entry \<noteq> expectedAuthID then (False, c)
                else (True, c\<lparr>sc_entries := detach sessionID entry (sc_entries c)\<rparr>)))"

definition Invalidate :: "string \<Rightarrow> SessionCache \<Rightarrow> SessionCache" where
  "Invalidate sessionID c =
     (if sessionID = [] then c
      else (case sc_entries c sessionID of
              None \<Rightarrow> c\<lparr>sc_entries := (sc_entries c)(sessionID := None)\<rparr>
            | Some entry \<Rightarrow> c\<lparr>sc_entries := detach sessionID entry (sc_entries c)\<rparr>))"

definition InvalidateAuth :: "string \<Rightarrow> SessionCache \<Rightarrow> SessionCache" where
  "InvalidateAuth authID c =
     (if authID = [] then c
      else c\<lparr>sc_entries := (\<lambda>sid. case sc_entries c sid of
               None \<Rightarrow> None
             | Some entry \<Rightarrow> if se_authID entry = authID then None else Some entry)\<rparr>)"

definition cleanup :: "gotime \<Rightarrow> SessionCache \<Rightarrow> SessionCache" where
  "cleanup now c =
     c\<lparr>sc_entries := (\<lambda>sid. case sc_entries c sid of
         None \<Rightarrow> None
       | Some entry \<Rightarrow> if \<not> time_before now (se_expiresAt entry) then None else Some entry)\<rparr>"

section \<open>Laws of alias lists\<close>

lemma equalSessionAliases_eq [simp]: "equalSessionAliases l r \<longleftrightarrow> l = r"
  by (auto simp: equalSessionAliases_def list_all2_eq [symmetric] list.rel_eq)

lemma fold_add_alias:
  "distinct acc \<Longrightarrow> [] \<notin> set acc \<Longrightarrow>
     distinct (fold add_alias xs acc) \<and> set (fold add_alias xs acc) = set acc \<union> (set xs - {[]})"
  by (induction xs arbitrary: acc) (auto simp: add_alias_def)

lemma merge_distinct: "distinct (mergeSessionAliases x y)"
  and set_merge: "set (mergeSessionAliases x y) = (set x \<union> set y) - {[]}"
  using fold_add_alias [of "[]" x] fold_add_alias [of "fold add_alias x []" y]
  by (auto simp: mergeSessionAliases_def)

lemma fold_add_alias_hd: "acc \<noteq> [] \<Longrightarrow> fold add_alias xs acc \<noteq> [] \<and> hd (fold add_alias xs acc) = hd acc"
  by (induction xs arbitrary: acc) (auto simp: add_alias_def)

lemma fold_add_id:
  "distinct (acc @ xs) \<Longrightarrow> [] \<notin> set xs \<Longrightarrow> fold add_alias xs acc = acc @ xs"
  by (induction xs arbitrary: acc) (auto simp: add_alias_def)

lemma merge_hd:
  "k \<noteq> [] \<Longrightarrow> mergeSessionAliases [k] xs \<noteq> [] \<and> hd (mergeSessionAliases [k] xs) = k"
  using fold_add_alias_hd [of "[k]" xs] by (simp add: mergeSessionAliases_def add_alias_def)

definition bounded_aliases :: "string list \<Rightarrow> bool" where
  "bounded_aliases aliases \<longleftrightarrow>
     length (filter isLocalPromptCacheSessionAlias aliases) \<le> 1 \<and>
     length (filter (\<lambda>a. \<not> isLocalPromptCacheSessionAlias a) aliases) \<le> maxStableSessionAliases"

lemma compact_loop_set: "set (compact_loop P xs h n) \<subseteq> set xs"
  by (induction xs arbitrary: h n) (simp_all, blast)

lemma compact_loop_distinct: "distinct xs \<Longrightarrow> distinct (compact_loop P xs h n)"
  by (induction P xs h n rule: compact_loop.induct) (use compact_loop_set in force)+

lemma compact_loop_pck: "length (filter P (compact_loop P xs h n)) \<le> (if h then 0 else 1)"
  by (induction P xs h n rule: compact_loop.induct) auto

lemma compact_loop_stable:
  "n \<le> 64 \<Longrightarrow> length (filter (\<lambda>a. \<not> P a) (compact_loop P xs h n)) \<le> 64 - n"
  by (induction P xs h n rule: compact_loop.induct) auto

lemma compact_facts:
  "bounded_aliases (compactSessionAliases xs)" "set (compactSessionAliases xs) \<subseteq> set xs"
  "distinct xs \<Longrightarrow> distinct (compactSessionAliases xs)"
  using compact_loop_set compact_loop_distinct
    compact_loop_pck [of isLocalPromptCacheSessionAlias xs False 0]
    compact_loop_stable [of 0 isLocalPromptCacheSessionAlias xs False]
  by (auto simp: compactSessionAliases_def compactSessionAliasesWith_def bounded_aliases_def)

lemma compact_hd: "xs \<noteq> [] \<Longrightarrow> compactSessionAliases xs \<noteq> [] \<and> hd (compactSessionAliases xs) = hd xs"
  by (cases xs) (auto simp: compactSessionAliases_def compactSessionAliasesWith_def)

lemma compact_merge_hd:
  "k \<noteq> [] \<Longrightarrow> k \<in> set (compactSessionAliases (mergeSessionAliases [k] xs))"
  by (metis compact_hd hd_in_set merge_hd)

section \<open>The group invariant\<close>

text \<open>
  Every entry lists its own key, all identifiers it lists are bound to the same entry, and alias
  lists are duplicate-free, without the empty identifier and within their bounds.
\<close>

definition wf_entry :: "sessionEntry \<Rightarrow> bool" where
  "wf_entry e \<longleftrightarrow> se_authID e \<noteq> [] \<and> distinct (se_aliases e) \<and> [] \<notin> set (se_aliases e) \<and>
     bounded_aliases (se_aliases e)"

definition groups_ok :: "entries \<Rightarrow> bool" where
  "groups_ok E \<longleftrightarrow>
     (\<forall>k e. E k = Some e \<longrightarrow> wf_entry e \<and> k \<in> set (se_aliases e) \<and>
        (\<forall>a\<in>set (se_aliases e). E a = Some e))"

lemma groups_okD:
  "groups_ok E \<Longrightarrow> E k = Some e \<Longrightarrow> wf_entry e"
  "groups_ok E \<Longrightarrow> E k = Some e \<Longrightarrow> k \<in> set (se_aliases e)"
  "groups_ok E \<Longrightarrow> E k = Some e \<Longrightarrow> a \<in> set (se_aliases e) \<Longrightarrow> E a = Some e"
  unfolding groups_ok_def by blast+

lemma remove_alias_eq:
  "remove_alias entry alias E = (if E alias = Some entry then E(alias := None) else E)"
  by (auto simp: remove_alias_def split: option.splits)

lemma removeAliasGroup_eq:
  "removeAliasGroupLocked entry E = (\<lambda>k. if k \<in> set (se_aliases entry) \<and> E k = Some entry then None else E k)"
proof -
  have "fold (remove_alias entry) as E = (\<lambda>k. if k \<in> set as \<and> E k = Some entry then None else E k)" for as
    by (induction as arbitrary: E) (auto simp: remove_alias_eq)
  then show ?thesis by (simp add: removeAliasGroupLocked_def)
qed

lemma removeAliasGroup_ok:
  "groups_ok E \<Longrightarrow> removeAliasGroupLocked entry E = (\<lambda>k. if E k = Some entry then None else E k)"
  using groups_okD(2) [of E _ entry] by (auto simp: removeAliasGroup_eq)

lemma groups_ok_remove: "groups_ok E \<Longrightarrow> groups_ok (removeAliasGroupLocked entry E)"
proof -
  assume ok: "groups_ok E"
  show ?thesis
    unfolding removeAliasGroup_ok [OF ok] groups_ok_def
  proof (intro allI impI)
    fix k e
    assume "(if E k = Some entry then None else E k) = Some e"
    then have "E k = Some e" "e \<noteq> entry" by (auto split: if_splits)
    with groups_okD [OF ok this(1)]
    show "wf_entry e \<and> k \<in> set (se_aliases e) \<and>
        (\<forall>a\<in>set (se_aliases e). (if E a = Some entry then None else E a) = Some e)" by simp
  qed
qed

lemma fold_remove_ok:
  "groups_ok E \<Longrightarrow>
     fold removeAliasGroupLocked ps E = (\<lambda>k. if E k \<in> Some ` set ps then None else E k) \<and>
     groups_ok (fold removeAliasGroupLocked ps E)"
proof (induction ps arbitrary: E)
  case (Cons p ps)
  from Cons.IH [OF groups_ok_remove [OF Cons.prems, of p]] show ?case
    by (auto simp: removeAliasGroup_ok [OF Cons.prems])
qed (auto simp: fun_eq_iff)

lemma fold_bind: "fold (\<lambda>alias E. E(alias \<mapsto> v)) as E = (\<lambda>k. if k \<in> set as then Some v else E k)"
  by (induction as arbitrary: E) auto

lemma replaceAliasGroups_eq:
  assumes "groups_ok E"
  shows "replaceAliasGroupsLocked authID t aliases ps E =
    (\<lambda>k. if k \<in> set aliases then Some \<lparr>se_authID = authID, se_expiresAt = t, se_aliases = aliases\<rparr>
         else if E k \<in> Some ` set ps then None else E k)"
  using fold_remove_ok [OF assms, of ps] by (auto simp: replaceAliasGroupsLocked_def Let_def fold_bind)

lemma groups_ok_replace:
  assumes ok: "groups_ok E" and new: "wf_entry \<lparr>se_authID = authID, se_expiresAt = t, se_aliases = aliases\<rparr>"
    and own: "\<forall>a\<in>set aliases. E a = None \<or> E a \<in> Some ` set ps"
  shows "groups_ok (replaceAliasGroupsLocked authID t aliases ps E)"
  unfolding groups_ok_def replaceAliasGroups_eq [OF ok]
proof (intro allI impI)
  fix k e
  let ?new = "\<lparr>se_authID = authID, se_expiresAt = t, se_aliases = aliases\<rparr>"
  let ?E = "\<lambda>k. if k \<in> set aliases then Some ?new else if E k \<in> Some ` set ps then None else E k"
  assume k: "?E k = Some e"
  show "wf_entry e \<and> k \<in> set (se_aliases e) \<and> (\<forall>a\<in>set (se_aliases e). ?E a = Some e)"
  proof (cases "k \<in> set aliases")
    case True
    with k new show ?thesis by auto
  next
    case False
    with k have e: "E k = Some e" "e \<notin> set ps" by (auto split: if_splits)
    note g = groups_okD [OF ok e(1)]
    have "a \<notin> set aliases" if "a \<in> set (se_aliases e)" for a
      using own g(3) [OF that] e(2) by auto
    with g e(2) show ?thesis by auto
  qed
qed

section \<open>Every operation keeps the groups\<close>

lemma wf_entry_aliases:
  "se_authID e \<noteq> [] \<Longrightarrow> wf_entry \<lparr>se_authID = se_authID e, se_expiresAt = t,
     se_aliases = compactSessionAliases (mergeSessionAliases [k] xs)\<rparr>"
  using compact_facts [of "mergeSessionAliases [k] xs"] merge_distinct [of "[k]" xs] set_merge [of "[k]" xs]
  by (auto simp: wf_entry_def)

text \<open>Refreshing the group of a live entry, as \<open>GetAndRefresh\<close> and \<open>Touch\<close> do.\<close>

lemma refresh_group:
  assumes ok: "groups_ok E" and k: "E k = Some e"
  defines "aliases \<equiv> compactSessionAliases (mergeSessionAliases [k] (se_aliases e))"
  shows "groups_ok (replaceAliasGroupsLocked (se_authID e) t aliases [e] E)"
    and "k \<in> set aliases"
proof -
  note g = groups_okD [OF ok k]
  have kn: "k \<noteq> []" using g(1,2) by (auto simp: wf_entry_def)
  then show "k \<in> set aliases" unfolding aliases_def by (rule compact_merge_hd)
  have "set aliases \<subseteq> set (se_aliases e)"
    using compact_facts(2) [of "mergeSessionAliases [k] (se_aliases e)"] g(2)
    unfolding aliases_def set_merge by auto
  then have "\<forall>a\<in>set aliases. E a = None \<or> E a \<in> Some ` set [e]" using g(3) by auto
  moreover have "wf_entry \<lparr>se_authID = se_authID e, se_expiresAt = t, se_aliases = aliases\<rparr>"
    unfolding aliases_def using g(1) by (intro wf_entry_aliases) (simp add: wf_entry_def)
  ultimately show "groups_ok (replaceAliasGroupsLocked (se_authID e) t aliases [e] E)"
    using ok by (intro groups_ok_replace)
qed

text \<open>What the loop of \<open>SetAliases\<close> gathers.\<close>

definition gathered :: "gotime \<Rightarrow> entries \<Rightarrow> sessionEntry list \<Rightarrow> bool" where
  "gathered now E ps \<longleftrightarrow> groups_ok E \<and> (\<forall>p\<in>set ps. now < se_expiresAt p \<and> (\<exists>k. E k = Some p))"

lemma set_aliases_loop_spec:
  "gathered now E ps \<Longrightarrow> distinct al \<Longrightarrow> [] \<notin> set al \<Longrightarrow>
     (\<forall>a\<in>set al. a \<in> set ids \<or> E a = None \<or> E a \<in> Some ` set ps) \<Longrightarrow>
     set_aliases_loop now ids E al ps = (E', al', ps') \<Longrightarrow>
     gathered now E' ps' \<and> distinct al' \<and> [] \<notin> set al' \<and> set al \<subseteq> set al' \<and>
     (\<forall>a\<in>set al'. E' a = None \<or> E' a \<in> Some ` set ps') \<and>
     (al \<noteq> [] \<longrightarrow> al' \<noteq> [] \<and> hd al' = hd al) \<and> (\<forall>k. E' k = None \<or> E' k = E k) \<and>
     set ps \<subseteq> set ps' \<and> set al' \<subseteq> set al \<union> (\<Union>p\<in>set ps'. set (se_aliases p))"
proof (induction now ids E al ps arbitrary: E' al' ps' rule: set_aliases_loop.induct)
  case (1 now E al ps)
  then show ?case by auto
next
  case (2 now sid ids E al ps)
  show ?case
  proof (cases "E sid")
    case None
    with "2.prems" show ?thesis by (intro "2.IH"(1)) auto
  next
    case (Some e)
    have ok: "groups_ok E" using "2.prems"(1) by (simp add: gathered_def)
    note g = groups_okD [OF ok Some]
    show ?thesis
    proof (cases "now < se_expiresAt e")
      case False
      let ?E = "removeAliasGroupLocked e E"
      have eq: "?E = (\<lambda>k. if E k = Some e then None else E k)" by (rule removeAliasGroup_ok [OF ok])
      have ne: "e \<notin> set ps" using False "2.prems"(1) by (auto simp: gathered_def)
      have g1: "gathered now ?E ps"
        unfolding gathered_def
      proof (intro conjI ballI)
        show "groups_ok ?E" by (rule groups_ok_remove [OF ok])
        fix p assume p: "p \<in> set ps"
        then show "now < se_expiresAt p" using "2.prems"(1) by (simp add: gathered_def)
        obtain k where "E k = Some p" using p "2.prems"(1) by (auto simp: gathered_def)
        with p ne show "\<exists>k. ?E k = Some p" unfolding eq by (intro exI [of _ k]) auto
      qed
      have g2: "\<forall>a\<in>set al. a \<in> set ids \<or> ?E a = None \<or> ?E a \<in> Some ` set ps"
        using "2.prems"(4) Some by (auto simp: eq)
      have g3: "set_aliases_loop now ids ?E al ps = (E', al', ps')"
        using "2.prems"(5) Some False by simp
      have r: "gathered now E' ps' \<and> distinct al' \<and> [] \<notin> set al' \<and> set al \<subseteq> set al' \<and>
          (\<forall>a\<in>set al'. E' a = None \<or> E' a \<in> Some ` set ps') \<and>
          (al \<noteq> [] \<longrightarrow> al' \<noteq> [] \<and> hd al' = hd al) \<and> (\<forall>k. E' k = None \<or> E' k = ?E k) \<and>
          set ps \<subseteq> set ps' \<and> set al' \<subseteq> set al \<union> (\<Union>p\<in>set ps'. set (se_aliases p))"
        by (rule "2.IH"(2) [OF Some False g1 "2.prems"(2,3) g2 g3])
      have "\<forall>k. ?E k = None \<or> ?E k = E k" unfolding eq by simp
      with r have "\<forall>k. E' k = None \<or> E' k = E k" by metis
      with r show ?thesis by blast
    next
      case True
      let ?al = "mergeSessionAliases al (se_aliases e)"
      have nn: "\<not> \<not> now < se_expiresAt e" using True by simp
      have e0: "[] \<notin> set ?al" by (simp add: set_merge)
      have g1: "gathered now E (ps @ [e])" using "2.prems"(1) True Some by (auto simp: gathered_def)
      have g2: "\<forall>a\<in>set ?al. a \<in> set ids \<or> E a = None \<or> E a \<in> Some ` set (ps @ [e])"
        using "2.prems"(4) Some g(3) by (auto simp: set_merge)
      have g3: "set_aliases_loop now ids E ?al (ps @ [e]) = (E', al', ps')"
        using "2.prems"(5) Some True by simp
      have r: "gathered now E' ps' \<and> distinct al' \<and> [] \<notin> set al' \<and> set ?al \<subseteq> set al' \<and>
          (\<forall>a\<in>set al'. E' a = None \<or> E' a \<in> Some ` set ps') \<and>
          (?al \<noteq> [] \<longrightarrow> al' \<noteq> [] \<and> hd al' = hd ?al) \<and> (\<forall>k. E' k = None \<or> E' k = E k) \<and>
          set (ps @ [e]) \<subseteq> set ps' \<and> set al' \<subseteq> set ?al \<union> (\<Union>p\<in>set ps'. set (se_aliases p))"
        by (rule "2.IH"(3) [OF Some nn g1 merge_distinct e0 g2 g3])
      have "set al \<subseteq> set ?al" using "2.prems"(3) by (auto simp: set_merge)
      moreover have "al \<noteq> [] \<longrightarrow> ?al \<noteq> [] \<and> hd ?al = hd al"
        using "2.prems"(2,3) fold_add_alias_hd by (auto simp: mergeSessionAliases_def fold_add_id)
      moreover have "set ?al \<subseteq> set al \<union> (\<Union>p\<in>set ps'. set (se_aliases p))"
        using r by (auto simp: set_merge)
      ultimately show ?thesis using r by auto
    qed
  qed
qed

lemma drop_from_alias_fold:
  "F sid = None \<Longrightarrow> distinct as \<Longrightarrow> \<forall>k\<in>set as. k \<noteq> sid \<longrightarrow> F k = Some e \<Longrightarrow>
     fold (drop_from_alias sid e) as F =
       (\<lambda>k. if k \<in> set as \<and> k \<noteq> sid
            then Some (e\<lparr>se_aliases := filter (\<lambda>c. c \<noteq> sid) (se_aliases e)\<rparr>) else F k)"
proof (induction as arbitrary: F)
  case (Cons a as)
  let ?e = "e\<lparr>se_aliases := filter (\<lambda>c. c \<noteq> sid) (se_aliases e)\<rparr>"
  have d: "drop_from_alias sid e a F = (if a = sid then F else F(a \<mapsto> ?e))"
    using Cons.prems by (auto simp: drop_from_alias_def)
  have "fold (drop_from_alias sid e) as (if a = sid then F else F(a \<mapsto> ?e)) =
      (\<lambda>k. if k \<in> set as \<and> k \<noteq> sid then Some ?e else (if a = sid then F else F(a \<mapsto> ?e)) k)"
    by (rule Cons.IH) (use Cons.prems in auto)
  then show ?case
    unfolding fold_Cons comp_apply d by (simp only: fun_eq_iff) (use Cons.prems(1) in auto)
qed simp

lemma detach_eq:
  assumes "groups_ok E" "E sid = Some e"
  shows "detach sid e E =
    (\<lambda>k. if k = sid then None
         else if k \<in> set (se_aliases e)
         then Some (e\<lparr>se_aliases := filter (\<lambda>c. c \<noteq> sid) (se_aliases e)\<rparr>) else E k)"
proof -
  have "distinct (se_aliases e)" using groups_okD(1) [OF assms] by (simp add: wf_entry_def)
  then show ?thesis
    unfolding detach_def
    by (subst drop_from_alias_fold) (use groups_okD(3) [OF assms] in \<open>auto simp: fun_eq_iff\<close>)
qed

lemma wf_entry_filter: "wf_entry e \<Longrightarrow> wf_entry (e\<lparr>se_aliases := filter P (se_aliases e)\<rparr>)"
proof -
  have le: "length (filter Q (filter P xs)) \<le> length (filter Q xs)" for Q and xs :: "string list"
    by (induction xs) auto
  show "wf_entry e \<Longrightarrow> ?thesis"
    using le [of isLocalPromptCacheSessionAlias "se_aliases e"]
      le [of "\<lambda>a. \<not> isLocalPromptCacheSessionAlias a" "se_aliases e"]
    by (simp add: wf_entry_def bounded_aliases_def)
qed

lemma groups_ok_detach:
  assumes ok: "groups_ok E" and sid: "E sid = Some e"
  shows "groups_ok (detach sid e E)"
  unfolding groups_ok_def detach_eq [OF assms]
proof (intro allI impI)
  fix k x
  let ?e = "e\<lparr>se_aliases := filter (\<lambda>c. c \<noteq> sid) (se_aliases e)\<rparr>"
  let ?E = "\<lambda>k. if k = sid then None else if k \<in> set (se_aliases e) then Some ?e else E k"
  assume k: "?E k = Some x"
  show "wf_entry x \<and> k \<in> set (se_aliases x) \<and> (\<forall>a\<in>set (se_aliases x). ?E a = Some x)"
  proof (cases "k \<in> set (se_aliases e)")
    case True
    with k groups_okD(1) [OF ok sid] show ?thesis
      by (auto simp: wf_entry_filter split: if_splits)
  next
    case False
    with k have x: "E k = Some x" "k \<noteq> sid" by (auto split: if_splits)
    note g = groups_okD [OF ok x(1)]
    have "a \<notin> set (se_aliases e) \<and> a \<noteq> sid" if "a \<in> set (se_aliases x)" for a
      using g(2,3) that groups_okD(2,3) [OF ok sid] False sid by (metis option.inject)
    with g show ?thesis by auto
  qed
qed

datatype session_op =
    OpGet string gotime gotime
  | OpGetAndRefresh string gotime
  | OpSetAliases string "string list" gotime
  | OpTouch string string gotime
  | OpCompareAndDelete string string
  | OpInvalidate string
  | OpInvalidateAuth string
  | OpCleanup gotime

fun session_perform :: "session_op \<Rightarrow> SessionCache \<Rightarrow> SessionCache" where
  "session_perform (OpGet k t t') c = snd (Get k t t' c)"
| "session_perform (OpGetAndRefresh k t) c = snd (GetAndRefresh k t c)"
| "session_perform (OpSetAliases a ks t) c = SetAliases a ks t c"
| "session_perform (OpTouch k a t) c = snd (Touch k a t c)"
| "session_perform (OpCompareAndDelete k a) c = snd (CompareAndDelete k a c)"
| "session_perform (OpInvalidate k) c = Invalidate k c"
| "session_perform (OpInvalidateAuth a) c = InvalidateAuth a c"
| "session_perform (OpCleanup t) c = cleanup t c"

definition cache_inv :: "SessionCache \<Rightarrow> bool" where
  "cache_inv c \<longleftrightarrow> groups_ok (sc_entries c) \<and> 0 < sc_ttl c"

lemma groups_ok_filter:
  assumes "groups_ok E"
  shows "groups_ok (\<lambda>k. case E k of None \<Rightarrow> None | Some e \<Rightarrow> if P e then None else Some e)"
  unfolding groups_ok_def
proof (intro allI impI)
  fix k e
  assume "(case E k of None \<Rightarrow> None | Some e \<Rightarrow> if P e then None else Some e) = Some e"
  then have "E k = Some e" "\<not> P e" by (auto split: option.splits if_splits)
  with groups_okD [OF assms this(1)]
  show "wf_entry e \<and> k \<in> set (se_aliases e) \<and>
      (\<forall>a\<in>set (se_aliases e). (case E a of None \<Rightarrow> None | Some e \<Rightarrow> if P e then None else Some e) = Some e)"
    by simp
qed

text \<open>The result of \<open>SetAliases\<close> in one equation.\<close>

definition set_result ::
  "SessionCache \<Rightarrow> string \<Rightarrow> string list \<Rightarrow> gotime \<Rightarrow> entries \<Rightarrow> string list \<Rightarrow> sessionEntry list \<Rightarrow> bool" where
  "set_result c authID ids now E aliases ps \<longleftrightarrow>
     groups_ok E \<and> (\<forall>k. E k = None \<or> E k = sc_entries c k) \<and>
     SetAliases authID ids now c =
       (if aliases = [] then c\<lparr>sc_entries := E\<rparr>
        else c\<lparr>sc_entries := replaceAliasGroupsLocked authID (now + sc_ttl c) aliases ps E\<rparr>) \<and>
     (\<forall>a\<in>set aliases. E a = None \<or> E a \<in> Some ` set ps) \<and>
     wf_entry \<lparr>se_authID = authID, se_expiresAt = now + sc_ttl c, se_aliases = aliases\<rparr> \<and>
     (ids \<noteq> [] \<longrightarrow> hd ids \<noteq> [] \<longrightarrow> hd ids \<in> set aliases) \<and>
     set aliases \<subseteq> set ids \<union> (\<Union>p\<in>set ps. set (se_aliases p)) \<and> (\<forall>p\<in>set ps. \<exists>k. E k = Some p)"

lemma SetAliases_cases:
  assumes "groups_ok (sc_entries c)" "authID \<noteq> []"
  obtains E aliases ps where "set_result c authID ids now E aliases ps"
proof -
  let ?al = "mergeSessionAliases [] ids"
  obtain E al ps where l: "set_aliases_loop now ids (sc_entries c) ?al [] = (E, al, ps)"
    by (cases "set_aliases_loop now ids (sc_entries c) ?al []") auto
  have "gathered now (sc_entries c) []" using assms(1) by (simp add: gathered_def)
  from set_aliases_loop_spec [OF this merge_distinct _ _ l]
  have r: "gathered now E ps" "distinct al" "[] \<notin> set al"
    "\<forall>a\<in>set al. E a = None \<or> E a \<in> Some ` set ps" "?al \<noteq> [] \<Longrightarrow> al \<noteq> [] \<and> hd al = hd ?al"
    "\<forall>k. E k = None \<or> E k = sc_entries c k" "set al \<subseteq> set ids \<union> (\<Union>p\<in>set ps. set (se_aliases p))"
    by (auto simp: set_merge)
  note cf = compact_facts [of al]
  have hd: "hd ids \<in> set (compactSessionAliases al)" if "ids \<noteq> []" "hd ids \<noteq> []"
  proof -
    have "?al \<noteq> [] \<and> hd ?al = hd ids"
      using that merge_hd [of "hd ids" "tl ids"]
      by (cases ids) (auto simp: mergeSessionAliases_def add_alias_def)
    with r(5) compact_hd [of al] show ?thesis by (metis hd_in_set)
  qed
  have "set_result c authID ids now E (compactSessionAliases al) ps"
    unfolding set_result_def
  proof (intro conjI)
    show "wf_entry \<lparr>se_authID = authID, se_expiresAt = now + sc_ttl c, se_aliases = compactSessionAliases al\<rparr>"
      using cf r(2,3) assms(2) by (auto simp: wf_entry_def)
    show "set (compactSessionAliases al) \<subseteq> set ids \<union> (\<Union>p\<in>set ps. set (se_aliases p))"
      using cf(2) r(7) by blast
    show "\<forall>a\<in>set (compactSessionAliases al). E a = None \<or> E a \<in> Some ` set ps"
      using cf(2) r(4) by blast
  qed (use r(1,6) hd l assms(2) in \<open>auto simp: gathered_def SetAliases_def Let_def\<close>)
  then show ?thesis by (rule that)
qed

lemma SetAliases_groups:
  assumes "groups_ok (sc_entries c)"
  shows "groups_ok (sc_entries (SetAliases authID ids now c))"
proof (cases "authID = []")
  case False
  obtain E aliases ps where r: "set_result c authID ids now E aliases ps"
    using SetAliases_cases [OF assms False] .
  then have "aliases \<noteq> [] \<Longrightarrow> groups_ok (replaceAliasGroupsLocked authID (now + sc_ttl c) aliases ps E)"
    by (intro groups_ok_replace) (simp_all add: set_result_def)
  with r show ?thesis by (auto simp: set_result_def)
qed (use assms in \<open>simp add: SetAliases_def\<close>)

lemma session_perform_inv: "cache_inv c \<Longrightarrow> cache_inv (session_perform op c)"
proof (cases op)
  case (OpGet k t t')
  assume "cache_inv c"
  with OpGet show ?thesis
    by (auto simp: cache_inv_def Get_def groups_ok_remove split: option.splits)
next
  case (OpGetAndRefresh k t)
  assume "cache_inv c"
  with OpGetAndRefresh refresh_group(1) [of "sc_entries c" k] show ?thesis
    by (auto simp: cache_inv_def GetAndRefresh_def groups_ok_remove Let_def split: option.splits)
next
  case (OpSetAliases a ks t)
  assume "cache_inv c"
  moreover have "sc_ttl (SetAliases a ks t c) = sc_ttl c"
    by (auto simp: SetAliases_def Let_def split: prod.splits)
  ultimately show ?thesis using OpSetAliases by (simp add: cache_inv_def SetAliases_groups)
next
  case (OpTouch k a t)
  assume "cache_inv c"
  with OpTouch refresh_group(1) [of "sc_entries c" k] show ?thesis
    by (auto simp: cache_inv_def Touch_def Let_def split: option.splits)
next
  case (OpCompareAndDelete k a)
  assume "cache_inv c"
  with OpCompareAndDelete groups_ok_detach [of "sc_entries c" k] show ?thesis
    by (auto simp: cache_inv_def CompareAndDelete_def split: option.splits)
next
  case (OpInvalidate k)
  assume c: "cache_inv c"
  have "sc_entries c k = None \<Longrightarrow> (sc_entries c)(k := None) = sc_entries c" by auto
  with OpInvalidate c groups_ok_detach [of "sc_entries c" k] show ?thesis
    by (auto simp: cache_inv_def Invalidate_def split: option.splits)
next
  case (OpInvalidateAuth a)
  assume "cache_inv c"
  with OpInvalidateAuth groups_ok_filter [of "sc_entries c" "\<lambda>e. se_authID e = a"] show ?thesis
    by (auto simp: cache_inv_def InvalidateAuth_def)
next
  case (OpCleanup t)
  assume "cache_inv c"
  with OpCleanup groups_ok_filter [of "sc_entries c" "\<lambda>e. \<not> time_before t (se_expiresAt e)"] show ?thesis
    by (auto simp: cache_inv_def cleanup_def)
qed

interpretation sessions: machine "NewSessionCache ttl" session_perform cache_inv for ttl
proof
  show "cache_inv (NewSessionCache ttl)"
    by (simp add: cache_inv_def NewSessionCache_def groups_ok_def)
qed (rule session_perform_inv)

section \<open>Bindings\<close>

lemma SetAliases_binds:
  assumes "cache_inv c" "authID \<noteq> []" "ids \<noteq> []" "hd ids \<noteq> []"
  shows "\<exists>e. sc_entries (SetAliases authID ids now c) (hd ids) = Some e \<and>
    se_authID e = authID \<and> se_expiresAt e = now + sc_ttl c"
proof -
  have ok: "groups_ok (sc_entries c)" using assms(1) by (simp add: cache_inv_def)
  obtain E aliases ps where r: "set_result c authID ids now E aliases ps"
    using SetAliases_cases [OF ok assms(2)] .
  then have "hd ids \<in> set aliases" "groups_ok E" using assms(3,4) by (simp_all add: set_result_def)
  with r show ?thesis by (auto simp: set_result_def replaceAliasGroups_eq)
qed

text \<open>An operation that does not name an identifier binds it only if it was bound before.\<close>

fun op_names :: "session_op \<Rightarrow> string set" where
  "op_names (OpSetAliases a ks t) = set ks"
| "op_names _ = {}"

lemma replace_unbound:
  assumes "groups_ok E" "E sid = None" "sid \<notin> set aliases"
  shows "replaceAliasGroupsLocked a t aliases ps E sid = None"
  using assms by (simp add: replaceAliasGroups_eq)

lemma member_unbound:
  assumes "groups_ok E" "E sid = None" "E k = Some e"
  shows "sid \<notin> set (se_aliases e)"
proof
  assume "sid \<in> set (se_aliases e)"
  from groups_okD(3) [OF assms(1,3) this] assms(2) show False by simp
qed

lemma refresh_unbound:
  assumes "groups_ok E" "E sid = None" "E k = Some e"
  shows "replaceAliasGroupsLocked a t (compactSessionAliases (mergeSessionAliases [k] (se_aliases e))) [e] E sid = None"
proof (rule replace_unbound [OF assms(1,2)])
  have "k \<noteq> sid" using assms(2,3) by auto
  with member_unbound [OF assms] compact_facts(2) [of "mergeSessionAliases [k] (se_aliases e)"]
  show "sid \<notin> set (compactSessionAliases (mergeSessionAliases [k] (se_aliases e)))"
    by (auto simp: set_merge)
qed

lemma SetAliases_unbound:
  assumes "groups_ok (sc_entries c)" "sc_entries c sid = None" "sid \<notin> set ids"
  shows "sc_entries (SetAliases a ids t c) sid = None"
proof (cases "a = []")
  case False
  obtain E aliases ps where r: "set_result c a ids t E aliases ps"
    using SetAliases_cases [OF assms(1) False] .
  then have ok: "groups_ok E" and E: "E sid = None" using assms(2) by (simp_all add: set_result_def) metis
  have "sid \<notin> set (se_aliases p)" if "p \<in> set ps" for p
    using r that member_unbound [OF ok E] by (auto simp: set_result_def)
  then have "sid \<notin> set aliases" using r assms(3) by (auto simp: set_result_def)
  with r replace_unbound [OF ok E] E show ?thesis by (simp add: set_result_def)
qed (use assms in \<open>simp add: SetAliases_def\<close>)

lemma perform_unbound:
  assumes "cache_inv c" "sc_entries c sid = None" "sid \<notin> op_names op"
  shows "sc_entries (session_perform op c) sid = None"
proof -
  have ok: "groups_ok (sc_entries c)" using assms(1) by (simp add: cache_inv_def)
  note ref = refresh_unbound [OF ok assms(2)]
  have det: "detach k e (sc_entries c) sid = None" if "sc_entries c k = Some e" for k e
    using member_unbound [OF ok assms(2) that] assms(2) by (simp add: detach_eq [OF ok that])
  have rem: "removeAliasGroupLocked e (sc_entries c) sid = None" for e
    using assms(2) by (simp add: removeAliasGroup_eq)
  show ?thesis
  proof (cases op)
    case (OpSetAliases a ks t)
    with SetAliases_unbound [OF ok assms(2)] assms(3) show ?thesis by simp
  next
    case (OpGetAndRefresh k t)
    then show ?thesis using assms(2) rem ref [of k]
      by (auto simp: GetAndRefresh_def Let_def split: option.splits)
  next
    case (OpTouch k a t)
    then show ?thesis using assms(2) ref [of k] by (auto simp: Touch_def Let_def split: option.splits)
  next
    case (OpCompareAndDelete k a)
    then show ?thesis using assms(2) det [of k] by (auto simp: CompareAndDelete_def split: option.splits)
  next
    case (OpInvalidate k)
    then show ?thesis using assms(2) det [of k] by (auto simp: Invalidate_def split: option.splits)
  qed (use assms(2) rem in \<open>auto simp: Get_def InvalidateAuth_def cleanup_def split: option.splits\<close>)
qed

section \<open>Properties\<close>

text \<open>C20. Alias groups stay consistent under every sequence of cache operations, with the cleanup
  running at any time: each binding lists its own identifier, every identifier it lists carries
  the same binding, and a group holds at most one prompt-cache key and 64 other identifiers.\<close>

theorem session_groups_consistent:
  "let E = sc_entries (fold session_perform ops (NewSessionCache ttl)) in
     (\<forall>k e. E k = Some e \<longrightarrow> k \<in> set (se_aliases e) \<and> list_all (\<lambda>a. E a = Some e) (se_aliases e) \<and>
        distinct (se_aliases e) \<and> se_authID e \<noteq> [] \<and>
        length (filter isLocalPromptCacheSessionAlias (se_aliases e)) \<le> 1 \<and>
        length (filter (\<lambda>a. \<not> isLocalPromptCacheSessionAlias a) (se_aliases e)) \<le> 64)"
proof -
  have ok: "groups_ok (sc_entries (fold session_perform ops (NewSessionCache ttl)))"
    using sessions.inv_run by (simp add: cache_inv_def)
  show ?thesis
    unfolding Let_def
  proof (intro allI impI)
    fix k e
    assume "sc_entries (fold session_perform ops (NewSessionCache ttl)) k = Some e"
    note g = groups_okD [OF ok this]
    from g(1) have w: "distinct (se_aliases e)" "se_authID e \<noteq> []" "bounded_aliases (se_aliases e)"
      by (simp_all add: wf_entry_def)
    with g(2,3) show "k \<in> set (se_aliases e) \<and>
        list_all (\<lambda>a. sc_entries (fold session_perform ops (NewSessionCache ttl)) a = Some e) (se_aliases e) \<and>
        distinct (se_aliases e) \<and> se_authID e \<noteq> [] \<and>
        length (filter isLocalPromptCacheSessionAlias (se_aliases e)) \<le> 1 \<and>
        length (filter (\<lambda>a. \<not> isLocalPromptCacheSessionAlias a) (se_aliases e)) \<le> 64"
      by (simp add: list_all_iff bounded_aliases_def)
  qed
qed

theorem session_groups_consistent_witness:
  "list_all (\<lambda>a. sc_entries (fold session_perform [OpSetAliases ''a1'' [''x'', ''y''] 5] (NewSessionCache 10)) a =
      Some \<lparr>se_authID = ''a1'', se_expiresAt = 15, se_aliases = [''x'', ''y'']\<rparr>) [''x'', ''y'']"
proof -
  have "sc_entries (fold session_perform [OpSetAliases ''a1'' [''x'', ''y''] 5] (NewSessionCache 10)) ''x'' =
      Some \<lparr>se_authID = ''a1'', se_expiresAt = 15, se_aliases = [''x'', ''y'']\<rparr>" by code_simp
  with session_groups_consistent [of "[OpSetAliases ''a1'' [''x'', ''y''] 5]" 10]
  show ?thesis by (simp only: Let_def) fastforce
qed

text \<open>A binding is found until it expires, and not after: in every reachable cache, a lookup of the
  primary identifier that a bind names returns the bound credential for exactly the time to live.\<close>

theorem bind_then_get:
  assumes "c = fold session_perform ops (NewSessionCache ttl)" "authID \<noteq> []" "k \<noteq> []" "t1 \<le> t2"
  shows "fst (Get k t1 t2 (SetAliases authID (k # ks) t c)) =
    (if t1 < t + sc_ttl c then Some authID else if t2 < t + sc_ttl c then Some authID else None)"
proof -
  have "cache_inv c" unfolding assms(1) by (rule sessions.inv_run)
  from SetAliases_binds [OF this assms(2), of "k # ks" t] assms(3) obtain e where
    "sc_entries (SetAliases authID (k # ks) t c) k = Some e" "se_authID e = authID"
    "se_expiresAt e = t + sc_ttl c" by auto
  with assms(3) show ?thesis by (simp add: Get_def)
qed

theorem bind_then_get_witness:
  "fst (Get ''x'' 9 9 (SetAliases ''a1'' [''x''] 5 (fold session_perform [] (NewSessionCache 10)))) = Some ''a1''"
  using bind_then_get [OF refl, of "''a1''" "''x''" 9 9 "[]" 5 "[]" 10] by (simp add: NewSessionCache_def)

text \<open>An identifier taken out of its group does not come back: after \<open>Invalidate\<close>, no sequence of
  lookups, refreshes, touches, deletions and binds that do not name it restores its binding, even
  when other identifiers of its former group are refreshed.\<close>

theorem invalidated_stays_unbound:
  assumes "c = fold session_perform ops (NewSessionCache ttl)" "sid \<noteq> []"
    and "\<forall>op\<in>set later. sid \<notin> op_names op"
  shows "sc_entries (fold session_perform later (Invalidate sid c)) sid = None"
proof -
  have inv: "cache_inv c" unfolding assms(1) by (rule sessions.inv_run)
  then have ok: "groups_ok (sc_entries c)" by (simp add: cache_inv_def)
  have gone: "sc_entries (Invalidate sid c) sid = None"
    using assms(2) detach_eq [OF ok] by (auto simp: Invalidate_def split: option.splits)
  have inv': "cache_inv (Invalidate sid c)" using session_perform_inv [OF inv, of "OpInvalidate sid"] by simp
  have "cache_inv d \<Longrightarrow> sc_entries d sid = None \<Longrightarrow> sc_entries (fold session_perform later d) sid = None" for d
    using assms(3) by (induction later arbitrary: d) (auto simp: session_perform_inv perform_unbound)
  from this [OF inv' gone] show ?thesis .
qed

theorem invalidated_stays_unbound_witness:
  "sc_entries (fold session_perform [OpGetAndRefresh ''y'' 6]
     (Invalidate ''x'' (fold session_perform [OpSetAliases ''a1'' [''x'', ''y''] 5] (NewSessionCache 10)))) ''x'' = None"
  using invalidated_stays_unbound [OF refl, of "''x''" "[OpGetAndRefresh ''y'' 6]"
      "[OpSetAliases ''a1'' [''x'', ''y''] 5]" 10] by simp

end
