(* ===== verification/Session_Identity.thy ===== *)
theory Session_Identity
  imports Go_Prelude "HOL-Library.Word"
begin

text \<open>
  How a request is given its session identifiers: \<open>extractSessionIDs\<close> and its helpers of
  \<open>sdk/cliproxy/auth/selector.go\<close>, with the identifier validation of
  \<open>sdk/cliproxy/session/identity.go\<close>. The JSON library gjson is a parameter: a record of the
  operations the code calls on a value of the library's result type. A header map and a metadata map are
  association lists; a nil map is the empty one.
\<close>

unbundle bit_operations_syntax

section \<open>Parameters and headers\<close>

text \<open>
  \<open>gj_GetBytes json path\<close> is \<open>gjson.GetBytes\<close> and \<open>gjson.Get\<close>; \<open>gj_get\<close> is \<open>Result.Get\<close>, \<open>gj_str\<close>
  is \<open>Result.String\<close>, \<open>gj_isString\<close> is \<open>Type == gjson.String\<close>, and \<open>gj_elems\<close> are the values
  \<open>Result.ForEach\<close> visits, in order.
\<close>

record 'r gjson =
  gj_GetBytes :: "string \<Rightarrow> string \<Rightarrow> 'r"
  gj_get :: "'r \<Rightarrow> string \<Rightarrow> 'r"
  gj_exists :: "'r \<Rightarrow> bool"
  gj_isArray :: "'r \<Rightarrow> bool"
  gj_isString :: "'r \<Rightarrow> bool"
  gj_str :: "'r \<Rightarrow> string"
  gj_elems :: "'r \<Rightarrow> 'r list"

type_synonym header = "(string \<times> string list) list"

text \<open>The value of a metadata key when it is a string, as in \<open>metadata[key].(string)\<close>.\<close>

definition metadata_str :: "(string \<times> go_any) list \<Rightarrow> string \<Rightarrow> string option" where
  "metadata_str metadata key =
     (case map_of metadata key of Some (AnyString s) \<Rightarrow> Some s | _ \<Rightarrow> None)"

text \<open>\<open>http.Header.Get\<close>: the first value under the canonical form of the name, which
  capitalises the letters at the start and after a hyphen.\<close>

definition to_upper_char :: "char \<Rightarrow> char" where
  "to_upper_char c =
     (let n = (of_char c :: nat) in if 97 \<le> n \<and> n \<le> 122 then char_of (n - 32) else c)"

fun canonical_header :: "bool \<Rightarrow> string \<Rightarrow> string" where
  "canonical_header upper [] = []"
| "canonical_header upper (c # cs) =
     (if upper then to_upper_char c else to_lower_char c) # canonical_header (c = CHR ''-'') cs"

definition header_get :: "header \<Rightarrow> string \<Rightarrow> string" where
  "header_get headers name =
     (case map_of headers (canonical_header True name) of Some (v # _) \<Rightarrow> v | _ \<Rightarrow> [])"

section \<open>Identifier validation\<close>

text \<open>
  \<open>unicode.IsControl\<close> on some rune of the string: the C0 controls and DEL are single bytes, the
  C1 controls U+0080 to U+009F are the byte C2 followed by a byte 80 to 9F.
\<close>

definition control_byte :: "char \<Rightarrow> bool" where
  "control_byte c \<longleftrightarrow> (of_char c :: nat) < 32 \<or> (of_char c :: nat) = 127"

definition control_pair :: "char \<Rightarrow> string \<Rightarrow> bool" where
  "control_pair c s \<longleftrightarrow> (of_char c :: nat) = 194 \<and>
     (case s of [] \<Rightarrow> False | d # _ \<Rightarrow> 128 \<le> (of_char d :: nat) \<and> (of_char d :: nat) \<le> 159)"

fun has_control :: "string \<Rightarrow> bool" where
  "has_control [] = False"
| "has_control (c # s) = (control_byte c \<or> control_pair c s \<or> has_control s)"

definition NormalizeExplicitID :: "string \<Rightarrow> string" where
  "NormalizeExplicitID raw =
     (if has_control raw then []
      else (let trimmed = trim_space raw
            in if trimmed = [] \<or> length trimmed > 256 then [] else trimmed))"

definition normalizedSessionCandidate :: "string \<Rightarrow> string" where
  "normalizedSessionCandidate raw = NormalizeExplicitID raw"

definition first_valid :: "string list \<Rightarrow> string" where
  "first_valid values =
     (case filter (\<lambda>raw. NormalizeExplicitID raw \<noteq> []) values of
        [] \<Rightarrow> []
      | raw # _ \<Rightarrow> NormalizeExplicitID raw)"

fun header_search :: "header \<Rightarrow> string \<Rightarrow> string" where
  "header_search [] name = []"
| "header_search ((key, values) # headers) name =
     (if \<not> equal_fold key name then header_search headers name
      else if first_valid values \<noteq> [] then first_valid values
      else header_search headers name)"

definition sessionHeaderValue :: "header \<Rightarrow> string \<Rightarrow> string" where
  "sessionHeaderValue headers name =
     (let value = normalizedSessionCandidate (header_get headers name)
      in if value \<noteq> [] then value else header_search headers name)"

definition headerValue :: "header \<Rightarrow> string \<Rightarrow> string" where
  "headerValue headers name = header_search headers name"

text \<open>The match of the regular expression \<open>_session_([a-f0-9-]+)$\<close>: its first group.\<close>

definition session_id_char :: "char \<Rightarrow> bool" where
  "session_id_char c \<longleftrightarrow>
     (let n = (of_char c :: nat) in (97 \<le> n \<and> n \<le> 102) \<or> (48 \<le> n \<and> n \<le> 57) \<or> c = CHR ''-'')"

fun legacyClaudeSession :: "string \<Rightarrow> string option" where
  "legacyClaudeSession [] = None"
| "legacyClaudeSession (c # s) =
     (if has_prefix (c # s) ''_session_'' \<and> drop 9 (c # s) \<noteq> [] \<and> list_all session_id_char (drop 9 (c # s))
      then Some (drop 9 (c # s))
      else legacyClaudeSession s)"

definition ClaudeMetadataSessionID :: "'r gjson \<Rightarrow> string \<Rightarrow> string" where
  "ClaudeMetadataSessionID g payload =
     (if payload = [] then []
      else (let userID = trim_space (gj_str g (gj_GetBytes g payload ''metadata.user_id''))
            in if userID = [] then []
               else if has_prefix userID ''{'' then
                 NormalizeExplicitID (gj_str g (gj_GetBytes g userID ''session_id''))
               else (case legacyClaudeSession userID of
                       Some sid \<Rightarrow> NormalizeExplicitID sid
                     | None \<Rightarrow> [])))"

definition DerivedID :: "(string \<times> go_any) list \<Rightarrow> string" where
  "DerivedID metadata =
     trim_space (case metadata_str metadata ''derived_session_id'' of Some s \<Rightarrow> s | None \<Rightarrow> [])"

section \<open>Hashing the start of a conversation\<close>

definition truncateString :: "string \<Rightarrow> nat \<Rightarrow> string" where
  "truncateString s maxLen = (if length s > maxLen then take maxLen s else s)"

text \<open>\<open>hash/fnv\<close>: 64-bit FNV-1a.\<close>

definition fnv64a :: "string \<Rightarrow> 64 word \<Rightarrow> 64 word" where
  "fnv64a s h = fold (\<lambda>c h. (h XOR word_of_nat (of_char c)) * 1099511628211) s h"

fun hex_digits :: "nat \<Rightarrow> int \<Rightarrow> string" where
  "hex_digits 0 n = []"
| "hex_digits (Suc k) n = hex_digits k (n div 16) @ [hex_digit (nat (n mod 16))]"

definition computeSessionHash :: "string \<Rightarrow> string \<Rightarrow> string \<Rightarrow> string" where
  "computeSessionHash systemPrompt userMsg assistantMsg =
     (let h = 14695981039346656037;
          h = (if systemPrompt \<noteq> [] then fnv64a (''sys:'' @ systemPrompt @ [CHR 0x0A]) h else h);
          h = (if userMsg \<noteq> [] then fnv64a (''usr:'' @ userMsg @ [CHR 0x0A]) h else h);
          h = (if assistantMsg \<noteq> [] then fnv64a (''ast:'' @ assistantMsg @ [CHR 0x0A]) h else h)
      in ''msg:'' @ hex_digits 16 (uint h))"

text \<open>The texts of the parts of a content array whose type is one of \<open>types\<close>, joined by spaces.\<close>

definition part_texts :: "'r gjson \<Rightarrow> string list \<Rightarrow> 'r \<Rightarrow> string list" where
  "part_texts g types content =
     filter (\<lambda>text. text \<noteq> [])
       (map (\<lambda>part. gj_str g (gj_get g part ''text''))
          (filter (\<lambda>part. gj_str g (gj_get g part ''type'') \<in> set types) (gj_elems g content)))"

definition extractMessageContent :: "'r gjson \<Rightarrow> 'r \<Rightarrow> string" where
  "extractMessageContent g content =
     (if gj_isString g content then gj_str g content
      else if gj_isArray g content then str_join (part_texts g [''text''] content) '' ''
      else [])"

definition extractResponsesAPIContent :: "'r gjson \<Rightarrow> 'r \<Rightarrow> string" where
  "extractResponsesAPIContent g content =
     (if \<not> gj_isArray g content then []
      else str_join (part_texts g [''input_text'', ''output_text'', ''text''] content) '' '')"

text \<open>The three texts a conversation is recognised by: system prompt, first user message, first
  assistant message.\<close>

record roots =
  systemPrompt :: string
  firstUserMsg :: string
  firstAssistantMsg :: string

definition keep_first :: "string \<Rightarrow> string \<Rightarrow> string" where
  "keep_first old text = (if old = [] then truncateString text 100 else old)"

definition note_role :: "string list \<Rightarrow> string \<Rightarrow> string \<Rightarrow> string \<Rightarrow> roots \<Rightarrow> roots" where
  "note_role systemRoles assistantRole role text r =
     (if role \<in> set systemRoles then r\<lparr>systemPrompt := keep_first (systemPrompt r) text\<rparr>
      else if role = ''user'' then r\<lparr>firstUserMsg := keep_first (firstUserMsg r) text\<rparr>
      else if role = assistantRole then r\<lparr>firstAssistantMsg := keep_first (firstAssistantMsg r) text\<rparr>
      else r)"

fun messages_loop :: "'r gjson \<Rightarrow> 'r list \<Rightarrow> roots \<Rightarrow> roots" where
  "messages_loop g [] r = r"
| "messages_loop g (msg # msgs) r =
     (let role = gj_str g (gj_get g msg ''role'');
          content = extractMessageContent g (gj_get g msg ''content'')
      in if content = [] then messages_loop g msgs r
         else (let r = note_role [''system''] ''assistant'' role content r
               in if systemPrompt r \<noteq> [] \<and> firstUserMsg r \<noteq> [] \<and> firstAssistantMsg r \<noteq> [] then r
                  else messages_loop g msgs r))"

text \<open>The first part with a text; \<open>systemPrompt\<close> is empty where the code calls this.\<close>

fun first_text :: "'r gjson \<Rightarrow> 'r list \<Rightarrow> string" where
  "first_text g [] = []"
| "first_text g (part # parts) =
     (if gj_str g (gj_get g part ''text'') \<noteq> [] then truncateString (gj_str g (gj_get g part ''text'')) 100
      else first_text g parts)"

definition top_system :: "'r gjson \<Rightarrow> string \<Rightarrow> string" where
  "top_system g payload =
     (let topSystem = gj_GetBytes g payload ''system''
      in if \<not> gj_exists g topSystem then []
         else if gj_isArray g topSystem then first_text g (gj_elems g topSystem)
         else if gj_isString g topSystem then truncateString (gj_str g topSystem) 100
         else [])"

fun gemini_parts :: "'r gjson \<Rightarrow> string \<Rightarrow> 'r list \<Rightarrow> roots \<Rightarrow> roots" where
  "gemini_parts g role [] r = r"
| "gemini_parts g role (part # parts) r =
     (let text = gj_str g (gj_get g part ''text'')
      in if text = [] then gemini_parts g role parts r else note_role [] ''model'' role text r)"

fun gemini_loop :: "'r gjson \<Rightarrow> 'r list \<Rightarrow> roots \<Rightarrow> roots" where
  "gemini_loop g [] r = r"
| "gemini_loop g (msg # msgs) r =
     (let role = gj_str g (gj_get g msg ''role'');
          r = gemini_parts g role (gj_elems g (gj_get g msg ''parts'')) r
      in if firstUserMsg r \<noteq> [] \<and> firstAssistantMsg r \<noteq> [] then r else gemini_loop g msgs r)"

fun responses_loop :: "'r gjson \<Rightarrow> 'r list \<Rightarrow> roots \<Rightarrow> roots" where
  "responses_loop g [] r = r"
| "responses_loop g (item # items) r =
     (let itemType = gj_str g (gj_get g item ''type'');
          role = gj_str g (gj_get g item ''role'');
          content = gj_get g item ''content'';
          text = (if gj_isString g content then gj_str g content else extractResponsesAPIContent g content)
      in if itemType = ''reasoning'' then responses_loop g items r
         else if itemType \<noteq> [] \<and> itemType \<noteq> ''message'' then responses_loop g items r
         else if itemType = [] \<and> role = [] then responses_loop g items r
         else if text = [] then responses_loop g items r
         else (let r = note_role [''developer'', ''system''] ''assistant'' role text r
               in if firstUserMsg r \<noteq> [] \<and> firstAssistantMsg r \<noteq> [] then r
                  else responses_loop g items r))"

text \<open>The values a \<open>ForEach\<close> visits when the result exists and is an array, as the code guards it.\<close>

definition array_elems :: "'r gjson \<Rightarrow> string \<Rightarrow> string \<Rightarrow> 'r list" where
  "array_elems g payload path =
     (let r = gj_GetBytes g payload path in if gj_exists g r \<and> gj_isArray g r then gj_elems g r else [])"

definition conversation_roots :: "'r gjson \<Rightarrow> string \<Rightarrow> roots" where
  "conversation_roots g payload =
     (let r = messages_loop g (array_elems g payload ''messages'')
                \<lparr>systemPrompt = [], firstUserMsg = [], firstAssistantMsg = []\<rparr>;
          r = (if systemPrompt r = [] then r\<lparr>systemPrompt := top_system g payload\<rparr> else r);
          r = (if systemPrompt r = [] \<and> firstUserMsg r = [] then
                 gemini_loop g (array_elems g payload ''contents'')
                   (r\<lparr>systemPrompt := first_text g (array_elems g payload ''systemInstruction.parts'')\<rparr>)
               else r)
      in if systemPrompt r = [] \<and> firstUserMsg r = [] then
           responses_loop g (array_elems g payload ''input'')
             (r\<lparr>systemPrompt := truncateString (gj_str g (gj_GetBytes g payload ''instructions'')) 100\<rparr>)
         else r)"

definition extractMessageHashIDs :: "'r gjson \<Rightarrow> string \<Rightarrow> string \<times> string" where
  "extractMessageHashIDs g payload =
     (let r = conversation_roots g payload
      in if systemPrompt r = [] \<and> firstUserMsg r = [] then ([], [])
         else (let shortHash = computeSessionHash (systemPrompt r) (firstUserMsg r) []
               in if firstAssistantMsg r = [] then (shortHash, [])
                  else (computeSessionHash (systemPrompt r) (firstUserMsg r) (firstAssistantMsg r), shortHash)))"

section \<open>The session identifiers of a request\<close>

text \<open>The first entry with a valid identifier, tagged with its prefix.\<close>

fun first_tagged :: "(string \<times> string) list \<Rightarrow> string" where
  "first_tagged [] = []"
| "first_tagged ((tag, sid) # rest) = (if sid \<noteq> [] then tag @ sid else first_tagged rest)"

definition header_ids :: "'r gjson \<Rightarrow> header \<Rightarrow> string \<Rightarrow> string" where
  "header_ids g headers payload = first_tagged
     [(''claude:'', sessionHeaderValue headers ''X-Claude-Code-Session-Id''),
      (''claude:'', ClaudeMetadataSessionID g payload),
      (''codex:'', sessionHeaderValue headers ''Session-Id''),
      (''codex:'', sessionHeaderValue headers ''Session_id''),
      (''header:'', sessionHeaderValue headers ''X-Session-ID''),
      (''affinity:'', sessionHeaderValue headers ''X-Session-Affinity''),
      (''clientreq:'', sessionHeaderValue headers ''X-Client-Request-Id'')]"

definition body_str :: "'r gjson \<Rightarrow> string \<Rightarrow> string \<Rightarrow> string" where
  "body_str g payload path = normalizedSessionCandidate (gj_str g (gj_GetBytes g payload path))"

definition conversation_id :: "'r gjson \<Rightarrow> string \<Rightarrow> string" where
  "conversation_id g payload =
     (let conversation = gj_GetBytes g payload ''conversation''
      in first_tagged
           [(''conv:'', normalizedSessionCandidate (gj_str g (gj_get g conversation ''id''))),
            (''conv:'', if gj_isString g conversation then normalizedSessionCandidate (gj_str g conversation) else [])])"

definition body_ids :: "'r gjson \<Rightarrow> string \<Rightarrow> string \<times> string" where
  "body_ids g payload =
     (let session = first_tagged
            [(''session:'', body_str g payload ''session_id''), (''session:'', body_str g payload ''sessionId'')];
          conversationID = conversation_id g payload;
          pck = body_str g payload ''prompt_cache_key''
      in if session \<noteq> [] then (session, [])
         else if pck \<noteq> [] then (''pck:'' @ pck, conversationID)
         else if conversationID \<noteq> [] then (conversationID, [])
         else (first_tagged
                 [(''user:'', body_str g payload ''metadata.user_id''),
                  (''conv:'', body_str g payload ''conversation_id'')], []))"

definition metadata_ids :: "(string \<times> go_any) list \<Rightarrow> string" where
  "metadata_ids metadata = first_tagged
     [(''execution:'', case metadata_str metadata ''execution_session_id'' of
                         Some executionID \<Rightarrow> normalizedSessionCandidate executionID
                       | None \<Rightarrow> []),
      (''derived:'', normalizedSessionCandidate (DerivedID metadata))]"

definition extractSessionIDs ::
  "'r gjson \<Rightarrow> header \<Rightarrow> string \<Rightarrow> (string \<times> go_any) list \<Rightarrow> string \<times> string" where
  "extractSessionIDs g headers payload metadata =
     (let header = header_ids g headers payload;
          body = (if payload = [] then ([], []) else body_ids g payload);
          meta = metadata_ids metadata
      in if header \<noteq> [] then (header, [])
         else if fst body \<noteq> [] then body
         else if meta \<noteq> [] then (meta, [])
         else if payload = [] then ([], [])
         else extractMessageHashIDs g payload)"

definition ExtractSessionID :: "'r gjson \<Rightarrow> header \<Rightarrow> string \<Rightarrow> (string \<times> go_any) list \<Rightarrow> string" where
  "ExtractSessionID g headers payload metadata = fst (extractSessionIDs g headers payload metadata)"

text \<open>\<open>hasExplicitSession\<close> of \<open>session/identity.go\<close> decides beforehand whether the request carries an
  explicit identifier; \<open>root.Get(path)\<close> on the parsed payload is \<open>gj_GetBytes\<close>.\<close>

definition hasExplicitSession :: "'r gjson \<Rightarrow> header \<Rightarrow> string \<Rightarrow> bool" where
  "hasExplicitSession g headers payload =
     (if list_ex (\<lambda>name. NormalizeExplicitID (headerValue headers name) \<noteq> [])
           [''X-Claude-Code-Session-Id'', ''X-Session-ID'', ''Session-Id'', ''Session_id'',
            ''X-Session-Affinity'', ''X-Client-Request-Id''] then True
      else if payload = [] then False
      else if list_ex (\<lambda>path. NormalizeExplicitID (gj_str g (gj_GetBytes g payload path)) \<noteq> [])
           [''session_id'', ''sessionId'', ''conversation_id'', ''prompt_cache_key''] then True
      else if ClaudeMetadataSessionID g payload \<noteq> [] then True
      else if NormalizeExplicitID (trim_space (gj_str g (gj_GetBytes g payload ''metadata.user_id''))) \<noteq> [] then True
      else (let conversation = gj_GetBytes g payload ''conversation''
            in if NormalizeExplicitID (gj_str g (gj_get g conversation ''id'')) \<noteq> [] then True
               else gj_isString g conversation \<and> NormalizeExplicitID (gj_str g conversation) \<noteq> []))"

section \<open>Identifiers are printable and bounded\<close>

definition printable_id :: "string \<Rightarrow> bool" where
  "printable_id s \<longleftrightarrow> \<not> has_control s \<and> length s \<le> 266"

definition ascii_text :: "string \<Rightarrow> bool" where
  "ascii_text s \<longleftrightarrow> (\<forall>c\<in>set s. 32 \<le> (of_char c :: nat) \<and> (of_char c :: nat) < 127)"

lemma has_control_suffix: "has_control s \<Longrightarrow> has_control (a @ s)"
  by (induction a) simp_all

lemma has_control_prefix: "has_control s \<Longrightarrow> has_control (s @ b)"
proof (induction s)
  case (Cons c s)
  have "control_pair c s \<Longrightarrow> control_pair c (s @ b)" by (cases s) (simp_all add: control_pair_def)
  with Cons show ?case by auto
qed simp

lemma trim_space_part: "\<exists>a b. s = a @ trim_space s @ b"
proof -
  obtain a where a: "s = a @ trim_left s" using trim_left_suffix by blast
  obtain b where "rev (trim_left s) = b @ trim_left (rev (trim_left s))" using trim_left_suffix by blast
  then have "trim_left s = trim_space s @ rev b" by (metis rev_append rev_rev_ident trim_space_def)
  with a show ?thesis by metis
qed

lemma trim_no_control: "\<not> has_control s \<Longrightarrow> \<not> has_control (trim_space s)"
proof -
  assume n: "\<not> has_control s"
  obtain a b where "s = a @ trim_space s @ b" using trim_space_part by blast
  with n show ?thesis using has_control_suffix has_control_prefix by metis
qed

lemma tag_no_control: "ascii_text tag \<Longrightarrow> \<not> has_control s \<Longrightarrow> \<not> has_control (tag @ s)"
  by (induction tag) (auto simp: ascii_text_def control_byte_def control_pair_def)

definition valid_id :: "string \<Rightarrow> bool" where
  "valid_id s \<longleftrightarrow> \<not> has_control s \<and> length s \<le> 256"

lemma NormalizeExplicitID_valid [simp]: "valid_id (NormalizeExplicitID raw)"
  using trim_no_control [of raw] by (auto simp: NormalizeExplicitID_def valid_id_def Let_def)

lemma valid_id_Nil [simp]: "valid_id []"
  by (simp add: valid_id_def)

lemma header_search_valid [simp]: "valid_id (header_search headers name)"
  by (induction headers name rule: header_search.induct) (auto simp: first_valid_def split: list.splits)

lemma source_valid [simp]:
  "valid_id (sessionHeaderValue headers name)" "valid_id (ClaudeMetadataSessionID g payload)"
  "valid_id (body_str g payload path)" "valid_id (normalizedSessionCandidate raw)"
  by (auto simp: sessionHeaderValue_def ClaudeMetadataSessionID_def body_str_def
      normalizedSessionCandidate_def Let_def split: option.splits)

lemma first_tagged_printable:
  "(\<forall>(tag, sid) \<in> set l. ascii_text tag \<and> length tag \<le> 10 \<and> valid_id sid) \<Longrightarrow> printable_id (first_tagged l)"
  by (induction l rule: first_tagged.induct) (auto simp: printable_id_def valid_id_def tag_no_control)

lemma hex_digits_props: "length (hex_digits k n) = k \<and> ascii_text (hex_digits k n)"
proof (induction k arbitrary: n)
  case (Suc k)
  have "ascii_text [hex_digit m]" if "m < 16" for m
    using that by (auto simp: ascii_text_def hex_digit_def)
  moreover have "nat (n mod 16) < 16" by (simp add: nat_less_iff)
  ultimately show ?case using Suc by (auto simp: ascii_text_def)
qed (simp add: ascii_text_def)

lemma ascii_no_control: "ascii_text s \<Longrightarrow> \<not> has_control s"
  using tag_no_control [of s "[]"] by simp

lemma hash_printable: "printable_id (computeSessionHash a b c)"
proof -
  obtain h where h: "computeSessionHash a b c = ''msg:'' @ hex_digits 16 h"
    by (simp only: computeSessionHash_def Let_def)
  have "ascii_text (''msg:'' @ hex_digits 16 h)" "length (hex_digits 16 h) = 16"
    using hex_digits_props [of 16 h] by (auto simp: ascii_text_def)
  then show ?thesis unfolding h printable_id_def using ascii_no_control by (simp del: has_control.simps)
qed

lemma body_ids_printable: "printable_id (fst (body_ids g payload))" "printable_id (snd (body_ids g payload))"
proof -
  have t: "printable_id (first_tagged [(''session:'', body_str g payload ''session_id''), (''session:'', body_str g payload ''sessionId'')])"
    "printable_id (first_tagged [(''user:'', body_str g payload ''metadata.user_id''), (''conv:'', body_str g payload ''conversation_id'')])"
    "printable_id (conversation_id g payload)"
    by (auto simp: conversation_id_def Let_def ascii_text_def simp del: first_tagged.simps intro!: first_tagged_printable)
  have p: "printable_id (''pck:'' @ body_str g payload ''prompt_cache_key'')"
    using source_valid(3) [of g payload "''prompt_cache_key''"] tag_no_control [of "''pck:''"]
    by (simp add: printable_id_def valid_id_def ascii_text_def del: has_control.simps append_Cons)
  have n: "printable_id []" by (simp add: printable_id_def)
  show "printable_id (fst (body_ids g payload))" using t p
    by (simp add: body_ids_def Let_def del: first_tagged.simps append_Cons)
  show "printable_id (snd (body_ids g payload))" using t n
    by (simp add: body_ids_def Let_def del: first_tagged.simps append_Cons)
qed

lemma tagged_sources_printable: "printable_id (header_ids g headers payload)" "printable_id (metadata_ids metadata)"
  by (auto simp: header_ids_def metadata_ids_def ascii_text_def simp del: first_tagged.simps
      intro!: first_tagged_printable split: option.splits)

lemma hash_ids_printable:
  "printable_id (fst (extractMessageHashIDs g payload))" "printable_id (snd (extractMessageHashIDs g payload))"
  using hash_printable by (simp_all add: extractMessageHashIDs_def Let_def) (simp_all add: printable_id_def)

section \<open>Explicit identifiers\<close>

lemma first_valid_nonempty: "first_valid values \<noteq> [] \<longleftrightarrow> (\<exists>raw\<in>set values. NormalizeExplicitID raw \<noteq> [])"
proof (cases "filter (\<lambda>raw. NormalizeExplicitID raw \<noteq> []) values")
  case Nil
  then show ?thesis by (auto simp: first_valid_def filter_empty_conv)
next
  case (Cons raw l)
  then have "raw \<in> set values \<and> NormalizeExplicitID raw \<noteq> []" 
    by (metis (mono_tags, lifting) filter_eq_ConsD in_set_conv_decomp)
  with Cons show ?thesis by (auto simp: first_valid_def)
qed

lemma header_search_nonempty:
  "header_search headers name \<noteq> [] \<longleftrightarrow>
     (\<exists>(key, values) \<in> set headers. equal_fold key name \<and> first_valid values \<noteq> [])"
  by (induction headers name rule: header_search.induct) auto

lemma canonical_header_fold: "equal_fold (canonical_header upper name) name"
proof -
  have "to_lower_char (to_upper_char c) = to_lower_char c" for c
    by (auto simp: to_lower_char_def to_upper_char_def Let_def)
  then show ?thesis by (induction upper name rule: canonical_header.induct) (auto simp: equal_fold_def to_lower_def)
qed

lemma sessionHeaderValue_nonempty: "sessionHeaderValue headers name \<noteq> [] \<longleftrightarrow> header_search headers name \<noteq> []"
proof (cases "normalizedSessionCandidate (header_get headers name) = []")
  case False
  then have n: "NormalizeExplicitID (header_get headers name) \<noteq> []" by (simp add: normalizedSessionCandidate_def)
  then have "header_get headers name \<noteq> []" by (auto simp: NormalizeExplicitID_def)
  then obtain v vs where v: "map_of headers (canonical_header True name) = Some (v # vs)" "header_get headers name = v"
    by (auto simp: header_get_def split: option.splits list.splits)
  from map_of_SomeD [OF v(1)] n v(2) have "header_search headers name \<noteq> []"
    unfolding header_search_nonempty first_valid_nonempty
    by (intro bexI [of _ "(canonical_header True name, v # vs)"]) (simp_all add: canonical_header_fold)
  with False show ?thesis by (simp add: sessionHeaderValue_def Let_def)
qed (simp add: sessionHeaderValue_def Let_def)

lemma NormalizeExplicitID_idem [simp]: "NormalizeExplicitID (NormalizeExplicitID raw) = NormalizeExplicitID raw"
  using trim_no_control [of raw] by (auto simp: NormalizeExplicitID_def Let_def)

lemma header_search_normalized: "NormalizeExplicitID (header_search headers name) = header_search headers name"
proof (induction headers name rule: header_search.induct)
  case (2 key vs headers name)
  have "NormalizeExplicitID (first_valid vs) = first_valid vs"
    by (auto simp: first_valid_def NormalizeExplicitID_def [where raw = "[]"] split: list.splits)
  with "2" show ?case by simp
qed (simp add: NormalizeExplicitID_def)

lemma hasExplicitSession_iff:
  assumes "\<not> has_control (gj_str g (gj_GetBytes g payload ''metadata.user_id''))"
  shows "hasExplicitSession g headers payload \<longleftrightarrow>
      header_ids g headers payload \<noteq> [] \<or> (payload \<noteq> [] \<and> fst (body_ids g payload) \<noteq> [])"
proof -
  let ?u = "gj_str g (gj_GetBytes g payload ''metadata.user_id'')"
  have u: "NormalizeExplicitID (trim_space ?u) = NormalizeExplicitID ?u"
    using assms trim_no_control [OF assms] by (simp add: NormalizeExplicitID_def Let_def)
  have h: "header_ids g headers payload \<noteq> [] \<longleftrightarrow>
      (\<exists>name \<in> set [''X-Claude-Code-Session-Id'', ''X-Session-ID'', ''Session-Id'', ''Session_id'',
            ''X-Session-Affinity'', ''X-Client-Request-Id'']. header_search headers name \<noteq> []) \<or>
      ClaudeMetadataSessionID g payload \<noteq> []"
    by (auto simp: header_ids_def sessionHeaderValue_nonempty)
  have b: "fst (body_ids g payload) \<noteq> [] \<longleftrightarrow>
      (\<exists>path \<in> set [''session_id'', ''sessionId'', ''prompt_cache_key'', ''metadata.user_id'', ''conversation_id''].
          NormalizeExplicitID (gj_str g (gj_GetBytes g payload path)) \<noteq> []) \<or> conversation_id g payload \<noteq> []"
    by (auto simp: body_ids_def body_str_def normalizedSessionCandidate_def Let_def)
  have c: "conversation_id g payload \<noteq> [] \<longleftrightarrow>
      NormalizeExplicitID (gj_str g (gj_get g (gj_GetBytes g payload ''conversation'') ''id'')) \<noteq> [] \<or>
      (gj_isString g (gj_GetBytes g payload ''conversation'') \<and>
       NormalizeExplicitID (gj_str g (gj_GetBytes g payload ''conversation'')) \<noteq> [])"
    by (auto simp: conversation_id_def normalizedSessionCandidate_def Let_def)
  have e: "payload = [] \<Longrightarrow> ClaudeMetadataSessionID g payload = []" by (simp add: ClaudeMetadataSessionID_def)
  show ?thesis
    unfolding h b c hasExplicitSession_def headerValue_def header_search_normalized u Let_def
    using e by auto
qed

section \<open>Follow-up requests of a conversation\<close>

definition msg_role :: "'r gjson \<Rightarrow> 'r \<Rightarrow> string" where
  "msg_role g msg = gj_str g (gj_get g msg ''role'')"

definition msg_text :: "'r gjson \<Rightarrow> 'r \<Rightarrow> string" where
  "msg_text g msg = extractMessageContent g (gj_get g msg ''content'')"

text \<open>A message that contributes a text for the role.\<close>

definition speaks :: "'r gjson \<Rightarrow> string \<Rightarrow> 'r \<Rightarrow> bool" where
  "speaks g role msg \<longleftrightarrow> msg_role g msg = role \<and> msg_text g msg \<noteq> []"

definition note_message :: "'r gjson \<Rightarrow> 'r \<Rightarrow> roots \<Rightarrow> roots" where
  "note_message g msg r =
     (if msg_text g msg = [] then r else note_role [''system''] ''assistant'' (msg_role g msg) (msg_text g msg) r)"

definition complete_roots :: "roots \<Rightarrow> bool" where
  "complete_roots r \<longleftrightarrow> systemPrompt r \<noteq> [] \<and> firstUserMsg r \<noteq> [] \<and> firstAssistantMsg r \<noteq> []"

lemma fold_complete: "complete_roots r \<Longrightarrow> fold (note_message g) ms r = r"
  by (induction ms) (simp_all add: complete_roots_def note_message_def note_role_def keep_first_def)

text \<open>Stopping early does not change the result: the loop is a fold over all messages.\<close>

lemma messages_loop_fold: "messages_loop g ms r = fold (note_message g) ms r"
proof (induction ms arbitrary: r)
  case (Cons msg msgs)
  let ?r = "note_role [''system''] ''assistant'' (msg_role g msg) (msg_text g msg) r"
  have l: "messages_loop g (msg # msgs) r =
      (if msg_text g msg = [] then messages_loop g msgs r
       else if complete_roots ?r then ?r else messages_loop g msgs ?r)"
    by (simp add: complete_roots_def msg_text_def msg_role_def Let_def)
  show ?case
    unfolding l by (simp add: Cons.IH note_message_def [of g msg] fold_complete)
qed simp

lemma truncate_nonempty [simp]: "truncateString text 100 = [] \<longleftrightarrow> text = []"
  by (simp add: truncateString_def)

definition empty_roots :: roots where
  "empty_roots = \<lparr>systemPrompt = [], firstUserMsg = [], firstAssistantMsg = []\<rparr>"

text \<open>Each text is settled by the first message that speaks for its role.\<close>

definition first_said :: "'r gjson \<Rightarrow> string \<Rightarrow> 'r list \<Rightarrow> string" where
  "first_said g role ms =
     (case filter (speaks g role) ms of [] \<Rightarrow> [] | msg # _ \<Rightarrow> truncateString (msg_text g msg) 100)"

lemma first_said_empty: "first_said g role ms = [] \<longleftrightarrow> (\<forall>msg\<in>set ms. \<not> speaks g role msg)"
proof (cases "filter (speaks g role) ms")
  case Nil
  then show ?thesis by (auto simp: first_said_def filter_empty_conv)
next
  case (Cons msg l)
  then have m: "speaks g role msg" "msg \<in> set ms" by (metis filter_eq_ConsD in_set_conv_decomp)+
  then show ?thesis using Cons by (auto simp: first_said_def speaks_def)
qed

lemma first_said_append: "first_said g role (a @ b) = (if first_said g role a = [] then first_said g role b else first_said g role a)"
  unfolding first_said_empty by (auto simp: first_said_def filter_empty_conv [symmetric] split: list.splits)

lemma fold_note_roots:
  "fold (note_message g) ms r =
     \<lparr>systemPrompt = (if systemPrompt r = [] then first_said g ''system'' ms else systemPrompt r),
      firstUserMsg = (if firstUserMsg r = [] then first_said g ''user'' ms else firstUserMsg r),
      firstAssistantMsg = (if firstAssistantMsg r = [] then first_said g ''assistant'' ms else firstAssistantMsg r)\<rparr>"
proof (induction ms arbitrary: r)
  case Nil
  then show ?case by (simp add: first_said_def)
next
  case (Cons msg ms)
  have f: "first_said g role (msg # ms) =
      (if speaks g role msg then truncateString (msg_text g msg) 100 else first_said g role ms)" for role
    by (simp add: first_said_def)
  have n: "systemPrompt (note_message g msg r) = (if systemPrompt r = [] \<and> speaks g ''system'' msg
        then truncateString (msg_text g msg) 100 else systemPrompt r)"
    "firstUserMsg (note_message g msg r) = (if firstUserMsg r = [] \<and> speaks g ''user'' msg
        then truncateString (msg_text g msg) 100 else firstUserMsg r)"
    "firstAssistantMsg (note_message g msg r) = (if firstAssistantMsg r = [] \<and> speaks g ''assistant'' msg
        then truncateString (msg_text g msg) 100 else firstAssistantMsg r)"
    by (auto simp: note_message_def note_role_def keep_first_def speaks_def)
  have t: "speaks g role msg \<Longrightarrow> truncateString (msg_text g msg) 100 \<noteq> []" for role
    by (simp add: speaks_def)
  show ?case
    using t by (auto simp: Cons.IH f n)
qed

lemma conversation_roots_messages:
  assumes "\<exists>msg\<in>set (array_elems g payload ''messages''). speaks g ''user'' msg"
  shows "conversation_roots g payload =
     (let ms = array_elems g payload ''messages''; system = first_said g ''system'' ms
      in \<lparr>systemPrompt = (if system = [] then top_system g payload else system),
          firstUserMsg = first_said g ''user'' ms, firstAssistantMsg = first_said g ''assistant'' ms\<rparr>)"
  using assms first_said_empty [of g "''user''" "array_elems g payload ''messages''"]
  by (auto simp: conversation_roots_def messages_loop_fold fold_note_roots Let_def)

lemma follow_up_ids:
  assumes p: "array_elems g p1 ''messages'' = ms" "array_elems g p2 ''messages'' = ms @ rest"
    and user: "\<exists>msg\<in>set ms. speaks g ''user'' msg"
    and ast: "\<forall>msg\<in>set ms. \<not> speaks g ''assistant'' msg" "\<exists>msg\<in>set rest. speaks g ''assistant'' msg"
    and sys: "(\<exists>msg\<in>set ms. speaks g ''system'' msg) \<or> (\<forall>msg\<in>set rest. \<not> speaks g ''system'' msg)"
    and top: "top_system g p1 = top_system g p2"
  shows "snd (extractMessageHashIDs g p1) = []"
    and "fst (extractMessageHashIDs g p1) \<noteq> []"
    and "snd (extractMessageHashIDs g p2) = fst (extractMessageHashIDs g p1)"
proof -
  have r: "conversation_roots g p1 =
      \<lparr>systemPrompt = (if first_said g ''system'' ms = [] then top_system g p1 else first_said g ''system'' ms),
       firstUserMsg = first_said g ''user'' ms, firstAssistantMsg = first_said g ''assistant'' ms\<rparr>"
    using user p by (subst conversation_roots_messages) (auto simp: Let_def)
  have r2: "conversation_roots g p2 =
      \<lparr>systemPrompt = (if first_said g ''system'' (ms @ rest) = [] then top_system g p2 else first_said g ''system'' (ms @ rest)),
       firstUserMsg = first_said g ''user'' (ms @ rest), firstAssistantMsg = first_said g ''assistant'' (ms @ rest)\<rparr>"
    using user p by (subst conversation_roots_messages) (auto simp: Let_def)
  have u: "first_said g ''user'' ms \<noteq> []" "first_said g ''user'' (ms @ rest) = first_said g ''user'' ms"
    using user by (auto simp: first_said_append first_said_empty)
  have a: "first_said g ''assistant'' ms = []" "first_said g ''assistant'' (ms @ rest) \<noteq> []"
    using ast by (auto simp: first_said_append first_said_empty)
  have s: "first_said g ''system'' (ms @ rest) = first_said g ''system'' ms"
    using sys first_said_empty [of g "''system''" ms] first_said_empty [of g "''system''" rest]
    by (cases "first_said g ''system'' ms = []") (auto simp: first_said_append)
  show "snd (extractMessageHashIDs g p1) = []" "fst (extractMessageHashIDs g p1) \<noteq> []"
    and "snd (extractMessageHashIDs g p2) = fst (extractMessageHashIDs g p1)"
    using u a s top by (simp_all add: extractMessageHashIDs_def r r2 Let_def) (simp add: computeSessionHash_def Let_def)
qed

section \<open>Properties\<close>

text \<open>Whatever the client sends, the identifiers a request is given are safe as routing keys and in
  logs: they contain no control character and at most 266 bytes, and there is no fallback
  identifier without a primary one.\<close>

theorem session_ids_printable:
  "extractSessionIDs g headers payload metadata = (primaryID, fallbackID) \<Longrightarrow>
     printable_id primaryID \<and> printable_id fallbackID \<and> (primaryID = [] \<longrightarrow> fallbackID = [])"
proof -
  assume e: "extractSessionIDs g headers payload metadata = (primaryID, fallbackID)"
  have n: "printable_id []" by (simp add: printable_id_def)
  have h: "fst (extractMessageHashIDs g payload) = [] \<Longrightarrow> snd (extractMessageHashIDs g payload) = []"
    by (auto simp: extractMessageHashIDs_def Let_def computeSessionHash_def split: if_splits)
  show ?thesis
    using e [symmetric] n h tagged_sources_printable body_ids_printable hash_ids_printable
    by (auto simp: extractSessionIDs_def Let_def prod_eq_iff split: if_splits)
qed

text \<open>The early check for an explicit session agrees with the extraction: when it reports one, the
  metadata that the proxy itself adds (execution and derived identifiers) is not consulted; when it
  reports none, the identifiers come from that metadata or from the message hash. The
  \<open>metadata.user_id\<close> field must not contain control characters.\<close>

theorem explicit_session_consistent:
  assumes "\<not> has_control (gj_str g (gj_GetBytes g payload ''metadata.user_id''))"
  shows "extractSessionIDs g headers payload metadata =
    (if hasExplicitSession g headers payload then extractSessionIDs g headers payload []
     else if metadata_ids metadata \<noteq> [] then (metadata_ids metadata, [])
     else if payload = [] then ([], []) else extractMessageHashIDs g payload)"
  unfolding hasExplicitSession_iff [OF assms] by (auto simp: extractSessionIDs_def Let_def)

section \<open>Concrete requests\<close>

text \<open>An instance of the JSON parameter: values as trees, documents given by a table, and paths that
  are either a key of the document or of the object.\<close>

datatype json = JNull | JString string | JArray "json list" | JObject "(string \<times> json) list"

definition json_get :: "json \<Rightarrow> string \<Rightarrow> json" where
  "json_get j path = (case j of JObject m \<Rightarrow> (case map_of m path of Some v \<Rightarrow> v | None \<Rightarrow> JNull) | _ \<Rightarrow> JNull)"

definition json_ops :: "(string \<times> json) list \<Rightarrow> json gjson" where
  "json_ops docs =
     \<lparr>gj_GetBytes = \<lambda>payload path. json_get (case map_of docs payload of Some j \<Rightarrow> j | None \<Rightarrow> JNull) path,
      gj_get = json_get, gj_exists = \<lambda>j. j \<noteq> JNull,
      gj_isArray = \<lambda>j. case j of JArray _ \<Rightarrow> True | _ \<Rightarrow> False,
      gj_isString = \<lambda>j. case j of JString _ \<Rightarrow> True | _ \<Rightarrow> False,
      gj_str = \<lambda>j. case j of JString s \<Rightarrow> s | _ \<Rightarrow> [],
      gj_elems = \<lambda>j. case j of JArray l \<Rightarrow> l | JObject m \<Rightarrow> map snd m | _ \<Rightarrow> []\<rparr>"

definition chat :: "(string \<times> string) list \<Rightarrow> json" where
  "chat turns = JObject [(''messages'', JArray (map (\<lambda>(role, text).
     JObject [(''role'', JString role), (''content'', JString text)]) turns))]"

theorem session_ids_printable_witness:
  "printable_id ''codex:abc'' \<and> printable_id []"
proof -
  have "extractSessionIDs (json_ops []) [(''session-id'', [''abc''])] ''x'' [] = (''codex:abc'', [])"
    by code_simp
  from session_ids_printable [OF this] show ?thesis by blast
qed

theorem explicit_session_consistent_witness:
  "extractSessionIDs (json_ops [(''x'', chat [(''user'', ''hi'')])]) [] ''x'' [(''execution_session_id'', AnyString ''e1'')] =
     (''execution:e1'', [])"
proof -
  let ?g = "json_ops [(''x'', chat [(''user'', ''hi'')])]"
  have "\<not> has_control (gj_str ?g (gj_GetBytes ?g ''x'' ''metadata.user_id''))" by code_simp
  from explicit_session_consistent [OF this, of "[]" "[(''execution_session_id'', AnyString ''e1'')]"]
  have "extractSessionIDs ?g [] ''x'' [(''execution_session_id'', AnyString ''e1'')] =
    (if hasExplicitSession ?g [] ''x'' then extractSessionIDs ?g [] ''x'' []
     else if metadata_ids [(''execution_session_id'', AnyString ''e1'')] \<noteq> []
     then (metadata_ids [(''execution_session_id'', AnyString ''e1'')], [])
     else if ''x'' = [] then ([], []) else extractMessageHashIDs ?g ''x'')" .
  moreover have "\<not> hasExplicitSession ?g [] ''x''" by code_simp
  moreover have "metadata_ids [(''execution_session_id'', AnyString ''e1'')] = ''execution:e1''" by code_simp
  ultimately show ?thesis by simp
qed

end
