(* ===== verification/Session_Affinity.thy ===== *)
theory Session_Affinity
  imports Selectors Session_Cache Session_Identity
begin

text \<open>
  The session-affinity selector of \<open>sdk/cliproxy/auth/selector.go\<close>: a selector that keeps a session on
  the credential it was first given and asks another selector, its fallback, otherwise. The fallback
  is a Go interface value: the model takes its \<open>Pick\<close> as an argument and is proved correct for every
  one that meets the contract \<open>selector\<close>; the flag \<open>isWeighted\<close> is the type test for the
  weighted selector. Each reading of the clock is a field of \<open>affinity_clock\<close>. Log output is left out.
\<close>

section \<open>Model\<close>

record 's SessionAffinitySelector =
  sa_fallback :: 's
  sa_cache :: SessionCache

text \<open>The request options the selector reads: headers, original request body and metadata (\<open>None\<close> is a
  nil map).\<close>

record affinity_options =
  ao_Headers :: header
  ao_OriginalRequest :: string
  ao_Metadata :: "(string \<times> go_any) list option"

record affinity_clock =
  ac_now :: gotime
  ac_refresh :: gotime
  ac_get :: gotime
  ac_get_locked :: gotime
  ac_fallback :: gotime
  ac_bind :: gotime

text \<open>The fallback is given by the caller; a missing one is the zero round-robin selector.\<close>

definition NewSessionAffinitySelectorWithConfig :: "'s \<Rightarrow> duration \<Rightarrow> 's SessionAffinitySelector" where
  "NewSessionAffinitySelectorWithConfig fallback ttl =
     \<lparr>sa_fallback = fallback, sa_cache = NewSessionCache (if ttl \<le> 0 then hour_ns else ttl)\<rparr>"

definition NewSessionAffinitySelector :: "'s \<Rightarrow> 's SessionAffinitySelector" where
  "NewSessionAffinitySelector fallback = NewSessionAffinitySelectorWithConfig fallback hour_ns"

definition affinity_metadata :: "string \<Rightarrow> string \<Rightarrow> (string \<times> go_any) list \<Rightarrow> (string \<times> go_any) list" where
  "affinity_metadata provider model metadata =
     map_put ''session_affinity_model'' (AnyString model)
       (map_put ''session_affinity_provider'' (AnyString provider) metadata)"

definition affinity_key :: "string \<Rightarrow> string \<Rightarrow> string \<Rightarrow> string" where
  "affinity_key provider sessionID modelKey = provider @ ''::'' @ sessionID @ ''::'' @ modelKey"

definition affinity_fallback_key :: "string \<Rightarrow> string \<Rightarrow> string \<Rightarrow> string \<Rightarrow> string" where
  "affinity_fallback_key provider primaryID fallbackID modelKey =
     (if fallbackID \<noteq> [] \<and> fallbackID \<noteq> primaryID then affinity_key provider fallbackID modelKey else [])"

definition affinity_bind :: "string \<Rightarrow> string \<Rightarrow> string \<Rightarrow> gotime \<Rightarrow> SessionCache \<Rightarrow> SessionCache" where
  "affinity_bind cacheKey fallbackKey authID now c =
     (if fallbackKey \<noteq> [] then SetAliases authID [cacheKey, fallbackKey] now c
      else Set_session cacheKey authID now c)"

definition find_auth :: "Auth list \<Rightarrow> string \<Rightarrow> Auth option" where
  "find_auth available authID = List.find (\<lambda>auth. auth_ID auth = authID) available"

type_synonym 's picker = "pick_ctx \<Rightarrow> string \<Rightarrow> string \<Rightarrow> Auth option list \<Rightarrow> gotime \<Rightarrow> 's \<Rightarrow> (sel_error + Auth) \<times> 's"

text \<open>Asking the fallback selector and binding its choice.\<close>

definition affinity_reselect ::
  "'s picker \<Rightarrow> pick_ctx \<Rightarrow> string \<Rightarrow> string \<Rightarrow> Auth list \<Rightarrow> affinity_clock \<Rightarrow> string \<Rightarrow> string \<Rightarrow>
     's SessionAffinitySelector \<Rightarrow> (sel_error + Auth) \<times> 's SessionAffinitySelector" where
  "affinity_reselect pick ctx provider model fallbackAuths clk cacheKey fallbackKey s =
     (case pick ctx provider model (map Some fallbackAuths) (ac_fallback clk) (sa_fallback s) of
        (Inl e, f) \<Rightarrow> (Inl e, s\<lparr>sa_fallback := f\<rparr>)
      | (Inr auth, f) \<Rightarrow>
          (Inr auth, s\<lparr>sa_fallback := f,
             sa_cache := affinity_bind cacheKey fallbackKey (auth_ID auth) (ac_bind clk) (sa_cache s)\<rparr>))"

text \<open>The part of \<open>Pick\<close> for a request with a session.\<close>

definition affinity_session_pick ::
  "'s picker \<Rightarrow> pick_ctx \<Rightarrow> string \<Rightarrow> string \<Rightarrow> Auth list \<Rightarrow> affinity_clock \<Rightarrow> string \<Rightarrow> string \<Rightarrow>
     's SessionAffinitySelector \<Rightarrow> (sel_error + Auth) \<times> 's SessionAffinitySelector" where
  "affinity_session_pick pick ctx provider model available clk cacheKey fallbackKey s =
     (let fallbackAuths = highestPriorityAuths available;
          reselect = affinity_reselect pick ctx provider model fallbackAuths clk cacheKey fallbackKey;
          hit = (\<lambda>auth s. (Inr auth, s\<lparr>sa_cache := affinity_bind cacheKey fallbackKey (auth_ID auth) (ac_bind clk) (sa_cache s)\<rparr>))
      in case GetAndRefresh cacheKey (ac_refresh clk) (sa_cache s) of
           (Some cachedAuthID, c) \<Rightarrow>
             (case find_auth available cachedAuthID of
                Some auth \<Rightarrow> hit auth (s\<lparr>sa_cache := c\<rparr>)
              | None \<Rightarrow> reselect (s\<lparr>sa_cache := c\<rparr>))
         | (None, c) \<Rightarrow>
             (if fallbackKey = [] then reselect (s\<lparr>sa_cache := c\<rparr>)
              else (case Get fallbackKey (ac_get clk) (ac_get_locked clk) c of
                      (Some cachedAuthID, c') \<Rightarrow>
                        (case find_auth available cachedAuthID of
                           Some auth \<Rightarrow> hit auth (s\<lparr>sa_cache := c'\<rparr>)
                         | None \<Rightarrow> reselect (s\<lparr>sa_cache := c'\<rparr>))
                    | (None, c') \<Rightarrow> reselect (s\<lparr>sa_cache := c'\<rparr>))))"

definition affinity_candidates :: "bool \<Rightarrow> Auth option list \<Rightarrow> Auth option list" where
  "affinity_candidates isWeighted auths = (if isWeighted then positiveWeightAuths auths else auths)"

definition affinity_Pick ::
  "'s picker \<Rightarrow> bool \<Rightarrow> 'r gjson \<Rightarrow> pick_ctx \<Rightarrow> string \<Rightarrow> string \<Rightarrow> affinity_options \<Rightarrow> Auth option list \<Rightarrow>
     affinity_clock \<Rightarrow> 's SessionAffinitySelector \<Rightarrow> (sel_error + Auth) \<times> 's SessionAffinitySelector" where
  "affinity_Pick pick isWeighted g ctx provider model opts auths clk s =
     (let metadata = affinity_metadata provider model (case ao_Metadata opts of None \<Rightarrow> [] | Some m \<Rightarrow> m)
      in case extractSessionIDs g (ao_Headers opts) (ao_OriginalRequest opts) metadata of
           (primaryID, fallbackID) \<Rightarrow>
             (let availabilityCandidates = affinity_candidates isWeighted auths
              in if primaryID = [] then
                   (case getAvailableAuths availabilityCandidates provider model (ac_now clk) of
                      Inl e \<Rightarrow> (Inl e, s)
                    | Inr fallbackAuths \<Rightarrow>
                        (case pick ctx provider model (map Some fallbackAuths) (ac_fallback clk) (sa_fallback s) of
                           (r, f) \<Rightarrow> (r, s\<lparr>sa_fallback := f\<rparr>)))
                 else
                   (case getAvailableAuthsAcrossPriorities availabilityCandidates provider model (ac_now clk) of
                      Inl e \<Rightarrow> (Inl e, s)
                    | Inr available \<Rightarrow>
                        (let modelKey = canonicalModelKey model
                         in affinity_session_pick pick ctx provider model available clk
                              (affinity_key provider primaryID modelKey)
                              (affinity_fallback_key provider primaryID fallbackID modelKey) s))))"

text \<open>The metadata map of the caller after \<open>Pick\<close>; a nil map is replaced only locally.\<close>

definition affinity_caller_metadata :: "string \<Rightarrow> string \<Rightarrow> affinity_options \<Rightarrow> affinity_options" where
  "affinity_caller_metadata provider model opts =
     opts\<lparr>ao_Metadata := map_option (affinity_metadata provider model) (ao_Metadata opts)\<rparr>"

definition affinity_InvalidateAuth :: "string \<Rightarrow> 's SessionAffinitySelector \<Rightarrow> 's SessionAffinitySelector" where
  "affinity_InvalidateAuth authID s = s\<lparr>sa_cache := InvalidateAuth authID (sa_cache s)\<rparr>"

record affinity_result =
  res_AuthID :: string
  res_Provider :: string
  res_Model :: string
  res_Success :: bool
  res_Error :: "AuthError option"
  res_Options :: affinity_options

definition nonempty_metadata :: "(string \<times> go_any) list \<Rightarrow> string \<Rightarrow> string option" where
  "nonempty_metadata metadata key =
     (case metadata_str metadata key of Some raw \<Rightarrow> if raw \<noteq> [] then Some raw else None | None \<Rightarrow> None)"

text \<open>The cache keys a result refers to.\<close>

definition result_keys :: "'r gjson \<Rightarrow> affinity_result \<Rightarrow> string \<times> string \<times> string \<times> string" where
  "result_keys g res =
     (let opts = res_Options res;
          metadata = (case ao_Metadata opts of None \<Rightarrow> [] | Some m \<Rightarrow> m);
          (primaryID, fallbackID) = extractSessionIDs g (ao_Headers opts) (ao_OriginalRequest opts) metadata;
          ns = (case nonempty_metadata metadata ''session_affinity_provider'' of Some raw \<Rightarrow> raw | None \<Rightarrow> res_Provider res);
          nsModel = (case nonempty_metadata metadata ''session_affinity_model'' of
                       Some raw \<Rightarrow> canonicalModelKey raw
                     | None \<Rightarrow> canonicalModelKey (res_Model res))
      in (primaryID, fallbackID, affinity_key ns primaryID nsModel,
          affinity_fallback_key ns primaryID fallbackID nsModel))"

text \<open>\<open>skip\<close> is the error classification \<open>shouldSkipCredentialCooldown\<close>; the two times are those the two
  \<open>Touch\<close> calls read.\<close>

definition OnResult ::
  "(AuthError \<Rightarrow> bool) \<Rightarrow> 'r gjson \<Rightarrow> affinity_result \<Rightarrow> gotime \<Rightarrow> gotime \<Rightarrow> 's SessionAffinitySelector \<Rightarrow>
     's SessionAffinitySelector" where
  "OnResult skip g res t1 t2 s =
     (if res_AuthID res = [] then s
      else (case result_keys g res of
              (primaryID, fallbackID, cacheKey, fallbackKey) \<Rightarrow>
                (if primaryID = [] \<and> fallbackID = [] then s
                 else if res_Success res then
                   (let c = snd (Touch cacheKey (res_AuthID res) t1 (sa_cache s));
                        c = (if fallbackKey \<noteq> [] then snd (Touch fallbackKey (res_AuthID res) t2 c) else c)
                    in s\<lparr>sa_cache := c\<rparr>)
                 else if (case res_Error res of Some e \<Rightarrow> skip e | None \<Rightarrow> False) then s
                 else
                   (let c = snd (CompareAndDelete cacheKey (res_AuthID res) (sa_cache s));
                        c = (if fallbackKey \<noteq> [] then snd (CompareAndDelete fallbackKey (res_AuthID res) c) else c)
                    in s\<lparr>sa_cache := c\<rparr>))))"

section \<open>Availability over all tiers\<close>

lemma across_cases:
  "(case getAvailableAuthsAcrossPriorities auths provider model now of
      Inr l \<Rightarrow> mset l = mset (unblocked auths model now) \<and> unblocked auths model now \<noteq> []
    | Inl e \<Rightarrow> unblocked auths model now = [])"
proof -
  obtain m n e where c: "collectAvailableByPriority auths model now = (m, n, e)"
    by (cases "collectAvailableByPriority auths model now") auto
  note r = collectAvailableByPriority_spec [OF c]
  show ?thesis
    using flatten_all(1) [OF r(1)] bucket_rep_empty [OF r(1)] c
    by (auto simp: getAvailableAuthsAcrossPriorities_def getAvailableAuthsWithPriorityMode_def Let_def)
qed

lemma across_Inr:
  assumes "getAvailableAuthsAcrossPriorities auths provider model now = Inr l"
  shows "mset l = mset (unblocked auths model now)" "set l = set (unblocked auths model now)" "l \<noteq> []"
proof -
  from across_cases [where auths = auths and provider = provider and model = model and now = now] assms
  have m: "mset l = mset (unblocked auths model now)" "unblocked auths model now \<noteq> []" by simp_all
  from mset_eq_setD [OF m(1)] have e: "set l = set (unblocked auths model now)" .
  show "mset l = mset (unblocked auths model now)" "set l = set (unblocked auths model now)" by (fact m(1), fact e)
  show "l \<noteq> []" using m by auto
qed

lemma across_Some:
  assumes "b \<in> set (unblocked auths model now)"
  obtains l where "getAvailableAuthsAcrossPriorities auths provider model now = Inr l" "b \<in> set l"
proof (cases "getAvailableAuthsAcrossPriorities auths provider model now")
  case (Inl e)
  with across_cases [where auths = auths and provider = provider and model = model and now = now] assms show ?thesis by simp
next
  case (Inr l)
  with across_Inr(2) [OF Inr] assms that show ?thesis by blast
qed

lemma set_candidates:
  "b \<in> set (unblocked (affinity_candidates isWeighted auths) model now) \<longleftrightarrow>
     Some b \<in> set auths \<and> (isWeighted \<longrightarrow> 0 < weight_of b) \<and> \<not> fst (isAuthBlockedForModel (Some b) model now)"
  by (auto simp: set_unblocked affinity_candidates_def positiveWeightAuths_def)

lemma find_auth_Some: "find_auth l authID = Some a \<Longrightarrow> a \<in> set l \<and> auth_ID a = authID"
  by (auto simp: find_auth_def find_Some_iff)

lemma find_auth_distinct:
  "distinct (map auth_ID l) \<Longrightarrow> b \<in> set l \<Longrightarrow> find_auth l (auth_ID b) = Some b"
  by (induction l) (auto simp: find_auth_def image_iff)

section \<open>Cache steps\<close>

lemma affinity_key_nonempty [simp]: "affinity_key provider sid modelKey \<noteq> []"
  by (simp add: affinity_key_def)

lemma cache_step_inv:
  assumes "cache_inv c"
  shows "cache_inv (snd (GetAndRefresh k t c))" "cache_inv (snd (Get k t t' c))"
    and "cache_inv (affinity_bind k k' a t c)" "cache_inv (snd (Touch k a t c))"
    and "cache_inv (snd (CompareAndDelete k a c))"
  using session_perform_inv [OF assms, of "OpGetAndRefresh k t"] session_perform_inv [OF assms, of "OpGet k t t'"]
    session_perform_inv [OF assms, of "OpSetAliases a [k, k'] t"] session_perform_inv [OF assms, of "OpSetAliases a [k] t"]
    session_perform_inv [OF assms, of "OpTouch k a t"] session_perform_inv [OF assms, of "OpCompareAndDelete k a"]
  by (simp_all add: affinity_bind_def Set_session_def)

lemma cache_step_ttl:
  "sc_ttl (snd (GetAndRefresh k t c)) = sc_ttl c" "sc_ttl (snd (Get k t t' c)) = sc_ttl c"
  by (auto simp: GetAndRefresh_def Get_def Let_def split: option.splits)

lemma affinity_bind_binds:
  assumes "cache_inv c" "authID \<noteq> []" "k \<noteq> []"
  shows "\<exists>e. sc_entries (affinity_bind k k' authID now c) k = Some e \<and>
    se_authID e = authID \<and> se_expiresAt e = now + sc_ttl c"
  using SetAliases_binds [OF assms(1,2), of "[k, k']" now] SetAliases_binds [OF assms(1,2), of "[k]" now] assms(3)
  by (simp add: affinity_bind_def Set_session_def)

section \<open>The outcomes of a pick\<close>

abbreviation request_ids :: "'r gjson \<Rightarrow> string \<Rightarrow> string \<Rightarrow> affinity_options \<Rightarrow> string \<times> string" where
  "request_ids g provider model opts \<equiv>
     extractSessionIDs g (ao_Headers opts) (ao_OriginalRequest opts)
       (affinity_metadata provider model (case ao_Metadata opts of None \<Rightarrow> [] | Some m \<Rightarrow> m))"

abbreviation request_key :: "'r gjson \<Rightarrow> string \<Rightarrow> string \<Rightarrow> affinity_options \<Rightarrow> string" where
  "request_key g provider model opts \<equiv>
     affinity_key provider (fst (request_ids g provider model opts)) (canonicalModelKey model)"

abbreviation request_fallback_key :: "'r gjson \<Rightarrow> string \<Rightarrow> string \<Rightarrow> affinity_options \<Rightarrow> string" where
  "request_fallback_key g provider model opts \<equiv>
     affinity_fallback_key provider (fst (request_ids g provider model opts))
       (snd (request_ids g provider model opts)) (canonicalModelKey model)"

text \<open>With a session and available candidates, a pick is the session part of \<open>Pick\<close>.\<close>

lemma affinity_Pick_session:
  assumes "fst (request_ids g provider model opts) \<noteq> []"
    and "getAvailableAuthsAcrossPriorities (affinity_candidates w auths) provider model (ac_now clk) = Inr l"
  shows "affinity_Pick pick w g ctx provider model opts auths clk s =
    affinity_session_pick pick ctx provider model l clk (request_key g provider model opts)
      (request_fallback_key g provider model opts) s"
  using assms by (cases "request_ids g provider model opts") (simp add: affinity_Pick_def Let_def)

text \<open>A pick of a session either reuses an available credential or asks the fallback selector with
  the highest tier; it then binds the result in a cache that a lookup may have refreshed.\<close>

definition bound_result ::
  "string \<Rightarrow> string \<Rightarrow> affinity_clock \<Rightarrow> Auth \<Rightarrow> SessionCache \<Rightarrow> 's SessionAffinitySelector \<Rightarrow> bool" where
  "bound_result k k' clk a c s' \<longleftrightarrow>
     (\<exists>c'. cache_inv c' \<and> sc_ttl c' = sc_ttl c \<and> sa_cache s' = affinity_bind k k' (auth_ID a) (ac_bind clk) c')"

lemma reselect_cases:
  assumes "affinity_reselect pick ctx provider model l clk k k' s = (r, s')" "cache_inv (sa_cache s)"
  shows "r = fst (pick ctx provider model (map Some l) (ac_fallback clk) (sa_fallback s))"
    and "\<And>a. r = Inr a \<Longrightarrow> bound_result k k' clk a (sa_cache s) s'"
  using assms by (auto simp: affinity_reselect_def bound_result_def split: prod.splits sum.splits)

lemma session_pick_cases:
  assumes p: "affinity_session_pick pick ctx provider model l clk k k' s = (r, s')" and inv: "cache_inv (sa_cache s)"
  shows "(\<exists>a\<in>set l. r = Inr a) \<or>
      r = fst (pick ctx provider model (map Some (highestPriorityAuths l)) (ac_fallback clk) (sa_fallback s))"
    and "\<And>a. r = Inr a \<Longrightarrow> bound_result k k' clk a (sa_cache s) s'"
proof -
  obtain x c where g: "GetAndRefresh k (ac_refresh clk) (sa_cache s) = (x, c)" by fastforce
  obtain y d where g': "Get k' (ac_get clk) (ac_get_locked clk) c = (y, d)" by fastforce
  have c: "cache_inv c" "sc_ttl c = sc_ttl (sa_cache s)"
    using cache_step_inv(1) [OF inv, of k "ac_refresh clk"] cache_step_ttl(1) [of k "ac_refresh clk" "sa_cache s"] g
    by simp_all
  have d: "cache_inv d" "sc_ttl d = sc_ttl (sa_cache s)"
    using cache_step_inv(2) [OF c(1), of k' "ac_get clk" "ac_get_locked clk"]
      cache_step_ttl(2) [of k' "ac_get clk" "ac_get_locked clk" c] g' c(2) by simp_all
  let ?re = "affinity_reselect pick ctx provider model (highestPriorityAuths l) clk k k'"
  have cases: "(\<exists>c' a. (c' = c \<or> c' = d) \<and> a \<in> set l \<and> (r, s') =
        (Inr a, s\<lparr>sa_cache := affinity_bind k k' (auth_ID a) (ac_bind clk) c'\<rparr>)) \<or>
      (\<exists>c'. (c' = c \<or> c' = d) \<and> ?re (s\<lparr>sa_cache := c'\<rparr>) = (r, s'))"
    using p unfolding affinity_session_pick_def Let_def g g'
    by (auto split: option.splits if_splits dest!: find_auth_Some simp: g')
  then consider (hit) c' a where "c' = c \<or> c' = d" "a \<in> set l" "r = Inr a"
      "s' = s\<lparr>sa_cache := affinity_bind k k' (auth_ID a) (ac_bind clk) c'\<rparr>"
    | (re) c' where "c' = c \<or> c' = d" "?re (s\<lparr>sa_cache := c'\<rparr>) = (r, s')" by auto
  then have "((\<exists>a\<in>set l. r = Inr a) \<or>
      r = fst (pick ctx provider model (map Some (highestPriorityAuths l)) (ac_fallback clk) (sa_fallback s))) \<and>
      (\<forall>a. r = Inr a \<longrightarrow> bound_result k k' clk a (sa_cache s) s')"
  proof cases
    case hit
    then show ?thesis using c d by (auto simp: bound_result_def)
  next
    case re
    have "cache_inv (sa_cache (s\<lparr>sa_cache := c'\<rparr>))" using re(1) c d by auto
    from reselect_cases [OF re(2) this] show ?thesis using re(1) c d by (auto simp: bound_result_def)
  qed
  then show "(\<exists>a\<in>set l. r = Inr a) \<or>
      r = fst (pick ctx provider model (map Some (highestPriorityAuths l)) (ac_fallback clk) (sa_fallback s))"
    and "\<And>a. r = Inr a \<Longrightarrow> bound_result k k' clk a (sa_cache s) s'" by blast+
qed

text \<open>A hit of the session's own key, and a hit of the fallback key.\<close>

lemma session_pick_hit:
  assumes "sc_entries (sa_cache s) k = Some e" "ac_refresh clk < se_expiresAt e" "k \<noteq> []"
    and "find_auth l (se_authID e) = Some b"
  shows "affinity_session_pick pick ctx provider model l clk k k' s =
    (Inr b, s\<lparr>sa_cache := affinity_bind k k' (auth_ID b) (ac_bind clk)
        (snd (GetAndRefresh k (ac_refresh clk) (sa_cache s)))\<rparr>)"
  using assms by (simp add: affinity_session_pick_def GetAndRefresh_def Let_def)

lemma session_pick_fallback_hit:
  assumes "sc_entries (sa_cache s) k = None" "k' \<noteq> []"
    and "sc_entries (sa_cache s) k' = Some e" "ac_get clk < se_expiresAt e"
    and "find_auth l (se_authID e) = Some b"
  shows "affinity_session_pick pick ctx provider model l clk k k' s =
    (Inr b, s\<lparr>sa_cache := affinity_bind k k' (auth_ID b) (ac_bind clk) (sa_cache s)\<rparr>)"
  using assms by (simp add: affinity_session_pick_def GetAndRefresh_def Get_def Let_def)

lemma session_pick_cold:
  assumes "sc_entries (sa_cache s) k = None" "k' = [] \<or> sc_entries (sa_cache s) k' = None"
  shows "affinity_session_pick pick ctx provider model l clk k k' s =
    affinity_reselect pick ctx provider model (highestPriorityAuths l) clk k k' s"
  using assms by (auto simp: affinity_session_pick_def GetAndRefresh_def Get_def Let_def)

section \<open>The contract with the fallback selector\<close>

text \<open>A fallback selector never fails while one of the candidates it is willing to take is available.\<close>

locale fallback_selector = selector pick
  for pick :: "pick_ctx \<Rightarrow> string \<Rightarrow> string \<Rightarrow> Auth option list \<Rightarrow> gotime \<Rightarrow> 's \<Rightarrow> (sel_error + Auth) \<times> 's" +
  fixes isWeighted :: bool
  assumes pick_accepts: "Some b \<in> set auths \<Longrightarrow> \<not> fst (isAuthBlockedForModel (Some b) model now) \<Longrightarrow>
      (isWeighted \<Longrightarrow> 0 < weight_of b) \<Longrightarrow> \<exists>a. fst (pick ctx provider model auths now s) = Inr a"
begin

definition candidates :: "Auth option list \<Rightarrow> string \<Rightarrow> gotime \<Rightarrow> Auth list" where
  "candidates auths model now = unblocked (affinity_candidates isWeighted auths) model now"

lemma pick_available:
  assumes "l \<noteq> []" "set l \<subseteq> set (candidates auths model now)" "0 \<le> now" "now \<le> t"
  shows "\<exists>a\<in>set l. fst (pick ctx provider model (map Some l) t f) = Inr a"
proof -
  obtain b where b: "b \<in> set l" using assms(1) by (meson hd_in_set)
  with assms have "\<not> fst (isAuthBlockedForModel (Some b) model t)" "isWeighted \<Longrightarrow> 0 < weight_of b"
    using unblocked_later [of now t b model] set_candidates [of b isWeighted auths model now]
    unfolding candidates_def by blast+
  then obtain a where a: "fst (pick ctx provider model (map Some l) t f) = Inr a"
    using pick_accepts [of b "map Some l" model t ctx provider f] b by auto
  with pick_sound [OF a] show ?thesis by auto
qed

text \<open>A pick succeeds exactly when a candidate is available, and then returns one.\<close>

lemma affinity_serves:
  assumes inv: "cache_inv (sa_cache s)" and t: "0 \<le> ac_now clk" "ac_now clk \<le> ac_fallback clk"
  shows "case fst (affinity_Pick pick isWeighted g ctx provider model opts auths clk s) of
      Inr a \<Rightarrow> a \<in> set (candidates auths model (ac_now clk))
    | Inl e \<Rightarrow> candidates auths model (ac_now clk) = []"
proof (cases "fst (request_ids g provider model opts) = []")
  case True
  let ?g = "getAvailableAuths (affinity_candidates isWeighted auths) provider model (ac_now clk)"
  show ?thesis
  proof (cases ?g)
    case (Inl e)
    with True getAvailableAuths_Inl [OF Inl] show ?thesis
      by (cases "request_ids g provider model opts") (simp add: affinity_Pick_def candidates_def Let_def)
  next
    case (Inr l)
    from getAvailableAuths_Inr [OF Inr] have "set l \<subseteq> set (candidates auths model (ac_now clk))" "l \<noteq> []"
      by (auto simp: set_top_tier candidates_def)
    from pick_available [OF this(2,1) t, of ctx provider "sa_fallback s"] True Inr this(1) show ?thesis
      by (cases "request_ids g provider model opts")
        (auto simp: affinity_Pick_def Let_def split: prod.splits sum.splits)
  qed
next
  case session: False
  let ?g = "getAvailableAuthsAcrossPriorities (affinity_candidates isWeighted auths) provider model (ac_now clk)"
  show ?thesis
  proof (cases ?g)
    case (Inl e)
    with session across_cases [where auths = "affinity_candidates isWeighted auths" and provider = provider and model = model and now = "ac_now clk"]
    show ?thesis
      by (cases "request_ids g provider model opts") (simp add: affinity_Pick_def candidates_def Let_def)
  next
    case (Inr l)
    obtain r s' where p: "affinity_session_pick pick ctx provider model l clk (request_key g provider model opts)
        (request_fallback_key g provider model opts) s = (r, s')" by fastforce
    have l: "set l = set (candidates auths model (ac_now clk))" "l \<noteq> []"
      using across_Inr(2,3) [OF Inr] by (simp_all add: candidates_def)
    have h: "set (highestPriorityAuths l) \<subseteq> set l" "highestPriorityAuths l \<noteq> []"
      using l(2) by (auto simp: highestPriorityAuths_top set_top_tier top_tier_nonempty)
    from session_pick_cases(1) [OF p inv]
      pick_available [OF h(2) _ t, of auths model ctx provider "sa_fallback s"] h(1) l(1)
    have "\<exists>a\<in>set l. r = Inr a" by auto
    with p l(1) show ?thesis by (auto simp: affinity_Pick_session [OF session Inr])
  qed
qed

text \<open>Without a binding the credential comes from the highest available tier.\<close>

lemma cold_pick_top:
  assumes ids: "fst (request_ids g provider model opts) \<noteq> []"
    and cold: "sc_entries (sa_cache s) (request_key g provider model opts) = None"
      "request_fallback_key g provider model opts = [] \<or>
       sc_entries (sa_cache s) (request_fallback_key g provider model opts) = None"
    and inv: "cache_inv (sa_cache s)"
    and pick: "fst (affinity_Pick pick isWeighted g ctx provider model opts auths clk s) = Inr a"
    and b: "b \<in> set (candidates auths model (ac_now clk))"
  shows "prio b \<le> prio a"
proof -
  obtain l where l: "getAvailableAuthsAcrossPriorities (affinity_candidates isWeighted auths) provider model (ac_now clk) = Inr l"
    "b \<in> set l" using across_Some b unfolding candidates_def by blast
  obtain r s' where re: "affinity_reselect pick ctx provider model (highestPriorityAuths l) clk
      (request_key g provider model opts) (request_fallback_key g provider model opts) s = (r, s')" by fastforce
  have "r = Inr a"
    using pick re by (simp add: affinity_Pick_session [OF ids l(1)] session_pick_cold [OF cold])
  with reselect_cases(1) [OF re inv] pick_sound have "a \<in> set (highestPriorityAuths l)" by fastforce
  with l(2) show ?thesis by (simp add: highestPriorityAuths_top set_top_tier)
qed

end

interpretation rr_fb: fallback_selector rr_Pick False
proof
  fix b auths model now ctx provider and s :: RoundRobinSelector
  assume "Some b \<in> set auths" "\<not> fst (isAuthBlockedForModel (Some b) model now)"
  from selectable_Some [OF this, of ctx provider]
  show "\<exists>a. fst (rr_Pick ctx provider model auths now s) = Inr a" by (auto simp: rr_Pick_def Let_def)
qed

interpretation ff_fb: fallback_selector ff_Pick False
proof
  fix b auths model now ctx provider and s :: unit
  assume "Some b \<in> set auths" "\<not> fst (isAuthBlockedForModel (Some b) model now)"
  from selectable_Some [OF this, of ctx provider]
  show "\<exists>a. fst (ff_Pick ctx provider model auths now s) = Inr a" by (auto simp: ff_Pick_def)
qed

interpretation wrr_fb: fallback_selector wrr_Pick True
  by unfold_locales (rule wrrs.pick_complete, simp_all)

section \<open>Releasing a binding\<close>

definition bound_to :: "SessionCache \<Rightarrow> string \<Rightarrow> string option" where
  "bound_to c k = map_option se_authID (sc_entries c k)"

lemma CompareAndDelete_bound:
  assumes "cache_inv c" "a \<noteq> []"
  shows "bound_to (snd (CompareAndDelete k a c)) y = (if y = k \<and> bound_to c k = Some a then None else bound_to c y)"
proof -
  have ok: "groups_ok (sc_entries c)" using assms(1) by (simp add: cache_inv_def)
  show ?thesis
  proof (cases "sc_entries c k")
    case None
    then show ?thesis by (simp add: CompareAndDelete_def bound_to_def)
  next
    case (Some e)
    then have "k \<noteq> []" using groups_okD(1,2) [OF ok Some] by (auto simp: wf_entry_def)
    with Some assms(2) detach_eq [OF ok Some] groups_okD(3) [OF ok Some, of y] show ?thesis
      by (auto simp: CompareAndDelete_def bound_to_def)
  qed
qed

section \<open>Properties\<close>

text \<open>C36. The session-affinity selector serves a request exactly when it can: for each built-in fallback
  selector, a pick returns a candidate that is available, and it fails only when every candidate is
  blocked (or, over the weighted selector, has no positive weight).\<close>

theorem affinity_pick_available:
  assumes "cache_inv (sa_cache s)" "cache_inv (sa_cache s')" "cache_inv (sa_cache s'')"
    and "0 \<le> ac_now clk" "ac_now clk \<le> ac_fallback clk"
  shows "(case fst (affinity_Pick rr_Pick False g ctx provider model opts auths clk s) of
      Inr a \<Rightarrow> Some a \<in> set auths \<and> \<not> fst (isAuthBlockedForModel (Some a) model (ac_now clk))
    | Inl e \<Rightarrow> \<forall>b. Some b \<in> set auths \<longrightarrow> fst (isAuthBlockedForModel (Some b) model (ac_now clk))) \<and>
   (case fst (affinity_Pick ff_Pick False g ctx provider model opts auths clk s') of
      Inr a \<Rightarrow> Some a \<in> set auths \<and> \<not> fst (isAuthBlockedForModel (Some a) model (ac_now clk))
    | Inl e \<Rightarrow> \<forall>b. Some b \<in> set auths \<longrightarrow> fst (isAuthBlockedForModel (Some b) model (ac_now clk))) \<and>
   (case fst (affinity_Pick wrr_Pick True g ctx provider model opts auths clk s'') of
      Inr a \<Rightarrow> Some a \<in> set auths \<and> 0 < authWeight (Some a) \<and> \<not> fst (isAuthBlockedForModel (Some a) model (ac_now clk))
    | Inl e \<Rightarrow> \<forall>b. Some b \<in> set auths \<longrightarrow> 0 < authWeight (Some b) \<longrightarrow>
        fst (isAuthBlockedForModel (Some b) model (ac_now clk)))"
proof -
  have e: "l = [] \<longleftrightarrow> (\<forall>b. b \<notin> set l)" for l :: "Auth list" by (cases l) auto
  note set_candidates [simp] rr_fb.candidates_def [simp] ff_fb.candidates_def [simp] wrr_fb.candidates_def [simp]
  show ?thesis
    using rr_fb.affinity_serves [OF assms(1,4,5), where g = g and ctx = ctx and provider = provider and model = model and opts = opts and auths = auths]
      ff_fb.affinity_serves [OF assms(2,4,5), where g = g and ctx = ctx and provider = provider and model = model and opts = opts and auths = auths]
      wrr_fb.affinity_serves [OF assms(3,4,5), where g = g and ctx = ctx and provider = provider and model = model and opts = opts and auths = auths]
    by (intro conjI) (auto simp: e split: sum.splits)
qed

text \<open>C16. A session stays on its credential: while the binding has not expired and the bound credential
  is available, the pick returns it, whatever its priority and whatever the fallback selector would
  choose, and the binding is renewed for a full time-to-live.\<close>

theorem session_sticks:
  assumes "fst (request_ids g provider model opts) \<noteq> []"
    and "sc_entries (sa_cache s) (request_key g provider model opts) = Some e" "ac_refresh clk < se_expiresAt e"
    and "b \<in> set (unblocked (affinity_candidates isWeighted auths) model (ac_now clk))" "auth_ID b = se_authID e"
    and "distinct (map auth_ID (unblocked (affinity_candidates isWeighted auths) model (ac_now clk)))"
    and "cache_inv (sa_cache s)"
  shows "\<exists>s' e'. affinity_Pick pick isWeighted g ctx provider model opts auths clk s = (Inr b, s') \<and>
    sc_entries (sa_cache s') (request_key g provider model opts) = Some e' \<and>
    se_authID e' = auth_ID b \<and> se_expiresAt e' = ac_bind clk + sc_ttl (sa_cache s)"
proof -
  let ?k = "request_key g provider model opts" and ?k' = "request_fallback_key g provider model opts"
  obtain l where l: "getAvailableAuthsAcrossPriorities (affinity_candidates isWeighted auths) provider model (ac_now clk) = Inr l"
    "b \<in> set l" using across_Some [OF assms(4)] by blast
  have "distinct (map auth_ID l)"
    using assms(6) across_Inr(1) [OF l(1)] by (metis mset_map mset_eq_imp_distinct_iff)
  with l(2) assms(5) have f: "find_auth l (se_authID e) = Some b" using find_auth_distinct by metis
  let ?c = "snd (GetAndRefresh ?k (ac_refresh clk) (sa_cache s))"
  have "auth_ID b \<noteq> []"
    using groups_okD(1) [where E = "sc_entries (sa_cache s)" and e = e, OF _ assms(2)] assms(5,7)
    by (simp add: cache_inv_def wf_entry_def)
  from affinity_bind_binds [OF cache_step_inv(1) [OF assms(7)] this, where k = ?k and k' = ?k']
  show ?thesis
    by (simp add: affinity_Pick_session [OF assms(1) l(1)] session_pick_hit [OF assms(2,3) affinity_key_nonempty f] cache_step_ttl)
qed

text \<open>C17. A conversation stays on its credential although the client names no session: when a request is
  followed by one that repeats its messages, adds an assistant's answer and possibly more, the
  follow-up is recognised by the hash of the conversation's start and is served by the credential
  that served the first request, as long as that binding is kept, has not expired and the credential
  is available.\<close>

theorem conversation_keeps_credential:
  assumes first: "affinity_Pick pick isWeighted g ctx provider model opts auths clk s = (Inr a, s1)"
    and inv: "cache_inv (sa_cache s)" "auth_ID a \<noteq> []"
    and ids: "request_ids g provider model opts = extractMessageHashIDs g (ao_OriginalRequest opts)"
      "request_ids g provider model opts2 = extractMessageHashIDs g (ao_OriginalRequest opts2)"
    and msgs: "array_elems g (ao_OriginalRequest opts) ''messages'' = ms"
      "array_elems g (ao_OriginalRequest opts2) ''messages'' = ms @ rest"
    and user: "\<exists>msg\<in>set ms. speaks g ''user'' msg"
    and assistant: "\<forall>msg\<in>set ms. \<not> speaks g ''assistant'' msg" "\<exists>msg\<in>set rest. speaks g ''assistant'' msg"
    and system: "(\<exists>msg\<in>set ms. speaks g ''system'' msg) \<or> (\<forall>msg\<in>set rest. \<not> speaks g ''system'' msg)"
      "top_system g (ao_OriginalRequest opts) = top_system g (ao_OriginalRequest opts2)"
    and kept: "sc_entries (sa_cache s2) (request_key g provider model opts) =
        sc_entries (sa_cache s1) (request_key g provider model opts)"
      "sc_entries (sa_cache s2) (request_key g provider model opts2) = None"
      "ac_get clk2 < ac_bind clk + sc_ttl (sa_cache s)"
    and avail: "a \<in> set (unblocked (affinity_candidates isWeighted auths2) model (ac_now clk2))"
      "distinct (map auth_ID (unblocked (affinity_candidates isWeighted auths2) model (ac_now clk2)))"
  shows "fst (affinity_Pick pick isWeighted g ctx2 provider model opts2 auths2 clk2 s2) = Inr a"
proof -
  let ?k = "request_key g provider model opts" and ?k2 = "request_key g provider model opts2"
    and ?k2' = "request_fallback_key g provider model opts2"
  note fu = follow_up_ids [OF msgs user assistant system]
  have sid: "fst (request_ids g provider model opts) \<noteq> []" using fu(2) ids(1) by simp
  obtain c where "bound_result ?k (request_fallback_key g provider model opts) clk a (sa_cache s) s1"
  proof (cases "getAvailableAuthsAcrossPriorities (affinity_candidates isWeighted auths) provider model (ac_now clk)")
    case (Inl e)
    with first sid show ?thesis
      by (cases "request_ids g provider model opts") (simp add: affinity_Pick_def Let_def)
  next
    case (Inr l)
    with session_pick_cases(2) [OF first [unfolded affinity_Pick_session [OF sid Inr]] inv(1)] that show ?thesis by blast
  qed
  then obtain e where e: "sc_entries (sa_cache s1) ?k = Some e" "se_authID e = auth_ID a"
      "se_expiresAt e = ac_bind clk + sc_ttl (sa_cache s)"
    using affinity_bind_binds [OF _ inv(2) affinity_key_nonempty] unfolding bound_result_def by metis
  have k2: "?k2' = ?k"
  proof -
    have "?k \<noteq> ?k2" using e(1) kept(1,2) by force
    then have "fst (request_ids g provider model opts) \<noteq> fst (request_ids g provider model opts2)" by force
    then show ?thesis using fu ids by (simp add: affinity_fallback_key_def)
  qed
  have sid2: "fst (request_ids g provider model opts2) \<noteq> []"
    using fu ids by (auto simp: extractMessageHashIDs_def Let_def computeSessionHash_def split: if_splits)
  obtain l where l: "getAvailableAuthsAcrossPriorities (affinity_candidates isWeighted auths2) provider model (ac_now clk2) = Inr l"
    "a \<in> set l" using across_Some [OF avail(1)] by blast
  have "distinct (map auth_ID l)"
    using avail(2) across_Inr(1) [OF l(1)] by (metis mset_map mset_eq_imp_distinct_iff)
  with l(2) e(2) have f: "find_auth l (se_authID e) = Some a" using find_auth_distinct by metis
  have e2: "sc_entries (sa_cache s2) ?k2' = Some e" "ac_get clk2 < se_expiresAt e" "?k2' \<noteq> []"
    using e(1,3) kept(1,3) k2 by simp_all
  show ?thesis
    by (simp add: affinity_Pick_session [OF sid2 l(1)] session_pick_fallback_hit [OF kept(2) e2(3,1,2) f])
qed

text \<open>A session that is not bound yet gets a credential of the highest priority among the available
  ones: over the round-robin selector no available candidate has a higher priority than the one
  picked.\<close>

theorem cold_session_top_priority:
  assumes "fst (request_ids g provider model opts) \<noteq> []"
    and "sc_entries (sa_cache s) (request_key g provider model opts) = None"
    and "request_fallback_key g provider model opts = [] \<or>
       sc_entries (sa_cache s) (request_fallback_key g provider model opts) = None"
    and "cache_inv (sa_cache s)"
    and "fst (affinity_Pick rr_Pick False g ctx provider model opts auths clk s) = Inr a"
    and "Some b \<in> set auths" "\<not> fst (isAuthBlockedForModel (Some b) model (ac_now clk))"
  shows "authPriority (Some b) \<le> authPriority (Some a)"
  using rr_fb.cold_pick_top [OF assms(1-5)] assms(6,7) by (simp add: rr_fb.candidates_def set_candidates)

text \<open>C37. A failed request releases its session: after a failure that counts against the credential, the
  request's identifiers are no longer bound to the credential that failed; identifiers bound to
  another credential, and all other identifiers, keep their bindings.\<close>

theorem failure_releases_session:
  assumes "cache_inv (sa_cache s)" "res_AuthID res \<noteq> []" "\<not> res_Success res"
    and "\<not> (case res_Error res of Some e \<Rightarrow> skip e | None \<Rightarrow> False)"
    and "result_keys g res = (primaryID, fallbackID, cacheKey, fallbackKey)" "primaryID \<noteq> []"
  shows "bound_to (sa_cache (OnResult skip g res t1 t2 s)) k =
    (if (k = cacheKey \<or> k = fallbackKey) \<and> bound_to (sa_cache s) k = Some (res_AuthID res) then None
     else bound_to (sa_cache s) k)"
proof -
  let ?c = "snd (CompareAndDelete cacheKey (res_AuthID res) (sa_cache s))"
  have inv: "cache_inv ?c" by (rule cache_step_inv(5) [OF assms(1)])
  have "bound_to (sa_cache s) [] = None"
    using assms(1) groups_okD(1,2) [of "sc_entries (sa_cache s)" "[]"]
    by (cases "sc_entries (sa_cache s) []") (auto simp: cache_inv_def bound_to_def wf_entry_def)
  then show ?thesis
    using assms(2-) CompareAndDelete_bound [OF assms(1,2)] CompareAndDelete_bound [OF inv assms(2)]
    by (auto simp: OnResult_def Let_def)
qed

section \<open>Concrete sessions\<close>

definition at_time :: "gotime \<Rightarrow> affinity_clock" where
  "at_time t = \<lparr>ac_now = t, ac_refresh = t, ac_get = t, ac_get_locked = t, ac_fallback = t, ac_bind = t\<rparr>"

definition plain_request :: "string \<Rightarrow> affinity_options" where
  "plain_request body = \<lparr>ao_Headers = [], ao_OriginalRequest = body, ao_Metadata = None\<rparr>"

definition plain_ctx :: pick_ctx where
  "plain_ctx = \<lparr>pc_websocket = False, pc_routeModel = None\<rparr>"

definition two_turns :: "json gjson" where
  "two_turns = json_ops [(''1'', chat [(''user'', ''hi'')]),
     (''2'', chat [(''user'', ''hi''), (''assistant'', ''yes''), (''user'', ''go'')])]"

definition two_auths :: "Auth option list" where
  "two_auths = [Some (new_auth ''a'' ''p''), Some ((new_auth ''b'' ''p'')\<lparr>auth_Attributes := [(''priority'', ''5'')]\<rparr>)]"

abbreviation auth_b :: Auth where
  "auth_b \<equiv> (new_auth ''b'' ''p'')\<lparr>auth_Attributes := [(''priority'', ''5'')]\<rparr>"

definition fresh_affinity :: "RoundRobinSelector SessionAffinitySelector" where
  "fresh_affinity = NewSessionAffinitySelector \<lparr>rr_lastPicked = [], rr_maxKeys = 0\<rparr>"

lemma fresh_inv [simp]: "cache_inv (sa_cache (NewSessionAffinitySelector f))"
  by (simp add: cache_inv_def NewSessionAffinitySelector_def NewSessionAffinitySelectorWithConfig_def
      NewSessionCache_def groups_ok_def)

definition first_pick :: "(sel_error + Auth) \<times> RoundRobinSelector SessionAffinitySelector" where
  "first_pick = affinity_Pick rr_Pick False two_turns plain_ctx ''p'' ''m'' (plain_request ''1'') two_auths (at_time 5) fresh_affinity"

lemma first_pick_result: "fst first_pick = Inr auth_b"
  by code_simp

lemma first_pick_state: "affinity_Pick rr_Pick False two_turns plain_ctx ''p'' ''m'' (plain_request ''1'') two_auths (at_time 5) fresh_affinity =
    (Inr auth_b, snd first_pick)"
  using first_pick_result by (simp add: first_pick_def prod_eq_iff)

lemma two_auths_available: "unblocked (affinity_candidates False two_auths) ''m'' 9 = [new_auth ''a'' ''p'', auth_b]"
  by code_simp

theorem conversation_keeps_credential_witness:
  "fst (affinity_Pick rr_Pick False two_turns plain_ctx ''p'' ''m'' (plain_request ''2'') two_auths (at_time 9) (snd first_pick)) =
     Inr auth_b"
proof (rule conversation_keeps_credential [OF first_pick_state])
  let ?ms = "[JObject [(''role'', JString ''user''), (''content'', JString ''hi'')]]"
  show "array_elems two_turns (ao_OriginalRequest (plain_request ''1'')) ''messages'' = ?ms" by code_simp
  show "array_elems two_turns (ao_OriginalRequest (plain_request ''2'')) ''messages'' = ?ms @
      [JObject [(''role'', JString ''assistant''), (''content'', JString ''yes'')],
       JObject [(''role'', JString ''user''), (''content'', JString ''go'')]]" by code_simp
  show "\<exists>msg\<in>set ?ms. speaks two_turns ''user'' msg" by code_simp
  show "\<forall>msg\<in>set ?ms. \<not> speaks two_turns ''assistant'' msg" by code_simp
  show "sc_entries (sa_cache (snd first_pick)) (request_key two_turns ''p'' ''m'' (plain_request ''2'')) = None" by code_simp
  show "ac_get (at_time 9) < ac_bind (at_time 5) + sc_ttl (sa_cache fresh_affinity)" by code_simp
  show "request_ids two_turns ''p'' ''m'' (plain_request ''1'') = extractMessageHashIDs two_turns (ao_OriginalRequest (plain_request ''1''))" by code_simp
  show "request_ids two_turns ''p'' ''m'' (plain_request ''2'') = extractMessageHashIDs two_turns (ao_OriginalRequest (plain_request ''2''))" by code_simp
  show "top_system two_turns (ao_OriginalRequest (plain_request ''1'')) = top_system two_turns (ao_OriginalRequest (plain_request ''2''))" by code_simp
qed (use two_auths_available in \<open>simp_all add: fresh_affinity_def at_time_def new_auth_def speaks_def msg_role_def msg_text_def
    extractMessageContent_def two_turns_def json_ops_def json_get_def\<close>)

text \<open>Requests that name their session in a header.\<close>

definition named_request :: "string \<Rightarrow> affinity_options" where
  "named_request sid = \<lparr>ao_Headers = [(''X-Session-Id'', [sid])], ao_OriginalRequest = [], ao_Metadata = None\<rparr>"

lemma named_ids: "request_ids two_turns ''p'' ''m'' (named_request ''s'') = (''header:s'', [])"
  by code_simp

lemma named_key: "request_key two_turns ''p'' ''m'' (named_request ''s'') = ''p::header:s::m''"
  by code_simp

definition bound_affinity :: "RoundRobinSelector SessionAffinitySelector" where
  "bound_affinity = fresh_affinity\<lparr>sa_cache := Set_session ''p::header:s::m'' ''a'' 1 (sa_cache fresh_affinity)\<rparr>"

lemma bound_affinity_entry: "sc_entries (sa_cache bound_affinity) ''p::header:s::m'' =
    Some \<lparr>se_authID = ''a'', se_expiresAt = 3600000000001, se_aliases = [''p::header:s::m'']\<rparr>"
  by code_simp

lemma bound_affinity_inv [simp]: "cache_inv (sa_cache bound_affinity)"
  using session_perform_inv [of "sa_cache fresh_affinity" "OpSetAliases ''a'' [''p::header:s::m''] 1"]
  by (simp add: bound_affinity_def fresh_affinity_def Set_session_def)

theorem session_sticks_witness:
  "fst (affinity_Pick rr_Pick False two_turns plain_ctx ''p'' ''m'' (named_request ''s'') two_auths (at_time 9) bound_affinity) =
     Inr (new_auth ''a'' ''p'') \<and> authPriority (Some (new_auth ''a'' ''p'')) < authPriority (Some auth_b)"
proof -
  have "authPriority (Some (new_auth ''a'' ''p'')) < authPriority (Some auth_b)" by code_simp
  moreover have "\<exists>s' e'. affinity_Pick rr_Pick False two_turns plain_ctx ''p'' ''m'' (named_request ''s'') two_auths (at_time 9)
      bound_affinity = (Inr (new_auth ''a'' ''p''), s') \<and>
      sc_entries (sa_cache s') (request_key two_turns ''p'' ''m'' (named_request ''s'')) = Some e' \<and>
      se_authID e' = auth_ID (new_auth ''a'' ''p'') \<and> se_expiresAt e' = ac_bind (at_time 9) + sc_ttl (sa_cache bound_affinity)"
  proof (rule session_sticks)
    show "sc_entries (sa_cache bound_affinity) (request_key two_turns ''p'' ''m'' (named_request ''s'')) =
        Some \<lparr>se_authID = ''a'', se_expiresAt = 3600000000001, se_aliases = [''p::header:s::m'']\<rparr>"
      using bound_affinity_entry by (simp only: named_key)
  qed (simp_all add: named_ids at_time_def two_auths_available new_auth_def)
  ultimately show ?thesis by force
qed

theorem affinity_pick_available_witness:
  "(case fst (affinity_Pick rr_Pick False two_turns plain_ctx ''p'' ''m'' (named_request ''s'') two_auths (at_time 9) fresh_affinity) of
      Inr a \<Rightarrow> Some a \<in> set two_auths | Inl e \<Rightarrow> False)"
proof -
  have b: "Some (new_auth ''a'' ''p'') \<in> set two_auths" "\<not> fst (isAuthBlockedForModel (Some (new_auth ''a'' ''p'')) ''m'' 9)"
    by code_simp+
  show ?thesis
    using affinity_pick_available [where s = fresh_affinity and s' = "NewSessionAffinitySelector ()"
        and s'' = "NewSessionAffinitySelector \<lparr>wrr_states = [], wrr_maxKeys = 0\<rparr>" and clk = "at_time 9"
        and g = two_turns and ctx = plain_ctx and provider = "''p''" and model = "''m''" and opts = "named_request ''s''"
        and auths = two_auths] b
    by (auto simp: fresh_affinity_def at_time_def split: sum.splits)
qed

theorem cold_session_top_priority_witness:
  "\<exists>a. fst (affinity_Pick rr_Pick False two_turns plain_ctx ''p'' ''m'' (named_request ''s'') two_auths (at_time 9) fresh_affinity) =
     Inr a \<and> 5 \<le> authPriority (Some a)"
proof -
  let ?p = "affinity_Pick rr_Pick False two_turns plain_ctx ''p'' ''m'' (named_request ''s'') two_auths (at_time 9) fresh_affinity"
  have p: "fst ?p = Inr auth_b" by code_simp
  have "authPriority (Some auth_b) \<le> authPriority (Some auth_b)"
  proof (rule cold_session_top_priority [OF _ _ _ _ p])
    show "Some auth_b \<in> set two_auths" by (simp add: two_auths_def)
    show "\<not> fst (isAuthBlockedForModel (Some auth_b) ''m'' (ac_now (at_time 9)))" by code_simp
    show "sc_entries (sa_cache fresh_affinity) (request_key two_turns ''p'' ''m'' (named_request ''s'')) = None" by code_simp
  qed (simp_all add: named_ids affinity_fallback_key_def fresh_affinity_def)
  moreover have "authPriority (Some auth_b) = 5" by code_simp
  ultimately show ?thesis using p by (intro exI [of _ auth_b]) simp
qed

theorem failure_releases_session_witness:
  "bound_to (sa_cache (OnResult (\<lambda>_. False) two_turns \<lparr>res_AuthID = ''a'', res_Provider = ''p'', res_Model = ''m'',
     res_Success = False, res_Error = None, res_Options = named_request ''s''\<rparr> 9 9 bound_affinity)) ''p::header:s::m'' = None"
proof -
  let ?res = "\<lparr>res_AuthID = ''a'', res_Provider = ''p'', res_Model = ''m'',
     res_Success = False, res_Error = None, res_Options = named_request ''s''\<rparr>"
  have "result_keys two_turns ?res = (''header:s'', [], ''p::header:s::m'', [])" by code_simp
  from failure_releases_session [where s = bound_affinity and res = ?res and skip = "\<lambda>_. False" and k = "''p::header:s::m''", OF _ _ _ _ this, of 9 9]
  show ?thesis by (simp add: bound_to_def bound_affinity_entry)
qed

end
