(* ===== verification/Ready_View.thy ===== *)
theory Ready_View
  imports Selectors
begin

text \<open>
  The ready views of \<open>sdk/cliproxy/auth/scheduler.go\<close>: an ordered list of entries with a round-robin
  cursor and the accumulators of the smooth weighted rotation. The code's lists hold pointers to the
  entries of a shard; every entry stands in the shard's map under the ID of its credential, so the
  model's views hold these IDs. What a pick reads through a pointer, the request's predicate and the
  weight of an entry, are functions of the ID.
\<close>

section \<open>Model\<close>

record readyView =
  rv_flat :: "string list"
  rv_cursor :: int
  rv_weightedState :: smoothWeightedState

record readyViewCursorState =
  vc_cursor :: int
  vc_weightedState :: smoothWeightedState

definition buildReadyView :: "string list \<Rightarrow> readyView" where
  "buildReadyView entries = \<lparr>rv_flat = entries, rv_cursor = 0, rv_weightedState = empty_smooth\<rparr>"

definition pickFirst :: "(string \<Rightarrow> bool) \<Rightarrow> readyView \<Rightarrow> string option" where
  "pickFirst predicate v = List.find predicate (rv_flat v)"

text \<open>The loop over the offsets: the index of the first accepted entry.\<close>

fun round_robin_scan :: "(string \<Rightarrow> bool) \<Rightarrow> string list \<Rightarrow> int \<Rightarrow> nat list \<Rightarrow> nat option" where
  "round_robin_scan predicate flat start [] = None"
| "round_robin_scan predicate flat start (offset # offsets) =
     (let index = nat (go_rem (start + int offset) (int (length flat)))
      in if \<not> predicate (flat ! index) then round_robin_scan predicate flat start offsets
         else Some index)"

definition pickRoundRobin :: "(string \<Rightarrow> bool) \<Rightarrow> readyView \<Rightarrow> string option \<times> readyView" where
  "pickRoundRobin predicate v =
     (if length (rv_flat v) = 0 then (None, v)
      else (let start = go_rem (rv_cursor v) (int (length (rv_flat v)))
            in case round_robin_scan predicate (rv_flat v) start [0..<length (rv_flat v)] of
                 None \<Rightarrow> (None, v)
               | Some index \<Rightarrow> (Some (rv_flat v ! index), v\<lparr>rv_cursor := int index + 1\<rparr>)))"

fun scheduledWeightVectorMatching ::
  "(string \<Rightarrow> int) \<Rightarrow> (string \<Rightarrow> bool) \<Rightarrow> string list \<Rightarrow> (string \<times> int) list \<Rightarrow> (string \<times> int) list" where
  "scheduledWeightVectorMatching weight predicate [] weights = weights"
| "scheduledWeightVectorMatching weight predicate (authID # entries) weights =
     (if weight authID \<le> 0 then scheduledWeightVectorMatching weight predicate entries weights
      else if \<not> predicate authID then scheduledWeightVectorMatching weight predicate entries weights
      else scheduledWeightVectorMatching weight predicate entries (map_put authID (weight authID) weights))"

definition scheduledWeightVector :: "(string \<Rightarrow> int) \<Rightarrow> string list \<Rightarrow> (string \<times> int) list" where
  "scheduledWeightVector weight entries = scheduledWeightVectorMatching weight (\<lambda>_. True) entries []"

fun scheduled_loop ::
  "(string \<Rightarrow> int) \<Rightarrow> (string \<Rightarrow> bool) \<Rightarrow> string list \<Rightarrow> (string \<times> int) list \<Rightarrow> string option \<Rightarrow> int \<Rightarrow> int \<Rightarrow>
     (string \<times> int) list \<times> string option \<times> int" where
  "scheduled_loop weight predicate [] current picked pickedCurrent totalWeight = (current, picked, totalWeight)"
| "scheduled_loop weight predicate (authID # entries) current picked pickedCurrent totalWeight =
     (if weight authID \<le> 0 then scheduled_loop weight predicate entries current picked pickedCurrent totalWeight
      else if \<not> predicate authID then scheduled_loop weight predicate entries current picked pickedCurrent totalWeight
      else
        (let c = saturatingAddInt64 (credit current authID) (weight authID);
             current' = map_put authID c current;
             totalWeight' = saturatingAddInt64 totalWeight (weight authID)
         in if picked = None \<or> c > pickedCurrent
            then scheduled_loop weight predicate entries current' (Some authID) c totalWeight'
            else scheduled_loop weight predicate entries current' picked pickedCurrent totalWeight'))"

definition pickSmoothWeightedScheduled ::
  "(string \<Rightarrow> int) \<Rightarrow> (string \<Rightarrow> bool) \<Rightarrow> string list \<Rightarrow> (string \<times> int) list \<Rightarrow>
     string option \<times> (string \<times> int) list" where
  "pickSmoothWeightedScheduled weight predicate entries current0 =
     (case scheduled_loop weight predicate entries current0 None 0 0 of
        (current, picked, totalWeight) \<Rightarrow>
          (case picked of
             None \<Rightarrow> (None, current)
           | Some p \<Rightarrow>
               (picked, map_put p (saturatingAddInt64 (credit current p) (- totalWeight)) current)))"

text \<open>Preparing the accumulators and picking, as the views and the mixed rotation do.\<close>

definition weighted_rotation ::
  "(string \<Rightarrow> int) \<Rightarrow> (string \<Rightarrow> bool) \<Rightarrow> string list \<Rightarrow> smoothWeightedState \<Rightarrow>
     string option \<times> smoothWeightedState" where
  "weighted_rotation weight predicate entries st =
     (let st' = prepare (scheduledWeightVectorMatching weight predicate entries []) st
      in case pickSmoothWeightedScheduled weight predicate entries (sw_current st') of
           (picked, current) \<Rightarrow> (picked, st'\<lparr>sw_current := current\<rparr>))"

definition pickWeighted ::
  "(string \<Rightarrow> int) \<Rightarrow> (string \<Rightarrow> bool) \<Rightarrow> readyView \<Rightarrow> string option \<times> readyView" where
  "pickWeighted weight predicate v =
     (if length (rv_flat v) = 0 then (None, v)
      else (case weighted_rotation weight predicate (rv_flat v) (rv_weightedState v) of
              (picked, st) \<Rightarrow> (picked, v\<lparr>rv_weightedState := st\<rparr>)))"

definition normalizeCursor :: "int \<Rightarrow> int \<Rightarrow> int" where
  "normalizeCursor cursor sz =
     (if sz \<le> 0 \<or> cursor \<le> 0 then 0
      else (let c = go_rem cursor sz in if c < 0 then c + sz else c))"

definition snapshotReadyViewCursors :: "readyView \<Rightarrow> readyViewCursorState" where
  "snapshotReadyViewCursors v = \<lparr>vc_cursor = rv_cursor v, vc_weightedState = rv_weightedState v\<rparr>"

definition restoreReadyViewCursors ::
  "(string \<Rightarrow> int) \<Rightarrow> readyViewCursorState \<Rightarrow> readyView \<Rightarrow> readyView" where
  "restoreReadyViewCursors weight state v =
     (let v1 = (if length (rv_flat v) > 0
                then v\<lparr>rv_cursor := normalizeCursor (vc_cursor state) (int (length (rv_flat v)))\<rparr> else v);
          weights = scheduledWeightVector weight (rv_flat v)
      in if length (sw_current (vc_weightedState state)) = 0 \<or>
            weightsConfigChanged (sw_weights (vc_weightedState state)) weights then v1
         else (let current = fold (\<lambda>authID current.
                       case map_of (sw_current (vc_weightedState state)) authID of
                         Some val \<Rightarrow> map_put authID val current
                       | None \<Rightarrow> current) (rv_flat v) []
               in v1\<lparr>rv_weightedState := \<lparr>sw_current = current, sw_weights = weights\<rparr>\<rparr>))"

section \<open>Round-robin\<close>

lemma go_rem_nonneg: "0 \<le> a \<Longrightarrow> 0 < b \<Longrightarrow> go_rem a b = a mod b"
  by (simp add: go_rem_def go_div_nonneg minus_mult_div_eq_mod)

definition cursor_ok :: "readyView \<Rightarrow> bool" where
  "cursor_ok v \<longleftrightarrow> 0 \<le> rv_cursor v \<and> rv_cursor v \<le> int (length (rv_flat v))"

text \<open>How many accepted entries stand before an index.\<close>

definition rank_before :: "(string \<Rightarrow> bool) \<Rightarrow> string list \<Rightarrow> nat \<Rightarrow> nat" where
  "rank_before P flat i = length (filter P (take i flat))"

lemma rank_nth:
  assumes "i < length flat" "P (flat ! i)"
  shows "filter P flat ! rank_before P flat i = flat ! i"
    and "rank_before P flat (Suc i) = Suc (rank_before P flat i)"
    and "rank_before P flat i < length (filter P flat)"
proof -
  have f: "filter P flat = filter P (take i flat) @ flat ! i # filter P (drop (Suc i) flat)"
    using assms id_take_nth_drop [of i flat] by (metis (no_types) filter.simps(2) filter_append)
  show "filter P flat ! rank_before P flat i = flat ! i" "rank_before P flat i < length (filter P flat)"
    by (simp_all add: f rank_before_def nth_append)
  show "rank_before P flat (Suc i) = Suc (rank_before P flat i)"
    using assms by (simp add: rank_before_def take_Suc_conv_app_nth)
qed

lemma rank_gap:
  assumes "s \<le> i" "\<forall>k. s \<le> k \<and> k < i \<and> k < length flat \<longrightarrow> \<not> P (flat ! k)"
  shows "rank_before P flat i = rank_before P flat s"
proof -
  have "take i flat = take s flat @ take (i - s) (drop s flat)"
    using assms(1) by (metis le_add_diff_inverse take_add)
  moreover have "filter P (take (i - s) (drop s flat)) = []"
  proof -
    have "\<not> P (flat ! (s + k))" if "k < length flat - s" "k < i - s" for k
      using assms(2) that by (simp add: less_diff_conv)
    then show ?thesis by (auto simp: filter_empty_conv in_set_conv_nth)
  qed
  ultimately show ?thesis by (simp add: rank_before_def)
qed

lemma round_robin_scan_find:
  "round_robin_scan P flat start offsets =
     map_option (\<lambda>offset. nat (go_rem (start + int offset) (int (length flat))))
       (List.find (\<lambda>offset. P (flat ! nat (go_rem (start + int offset) (int (length flat))))) offsets)"
  by (induction offsets) (simp_all add: Let_def)

text \<open>From any start the scan stops at the accepted entry that follows it cyclically.\<close>

lemma scan_next:
  assumes s: "s < length flat" and ex: "filter P flat \<noteq> []"
  shows "\<exists>i. round_robin_scan P flat (int s) [0..<length flat] = Some i \<and> i < length flat \<and> P (flat ! i) \<and>
    rank_before P flat i = rank_before P flat s mod length (filter P flat)"
proof -
  let ?n = "length flat"
  have idx: "nat (go_rem (int s + int off) (int ?n)) = (s + off) mod ?n" for off
  proof -
    have "go_rem (int (s + off)) (int ?n) = int ((s + off) mod ?n)" using s by (subst go_rem_nonneg) (auto simp: zmod_int)
    then show ?thesis by simp
  qed
  obtain j where j: "j < ?n" "P (flat ! j)" using ex by (auto simp: filter_empty_conv in_set_conv_nth)
  have "\<exists>off<?n. P (flat ! ((s + off) mod ?n))"
  proof (cases "s \<le> j")
    case True
    with j show ?thesis by (intro exI [of _ "j - s"]) simp
  next
    case False
    with j s show ?thesis by (intro exI [of _ "j + ?n - s"]) (simp add: mod_if)
  qed
  then have "List.find (\<lambda>off. P (flat ! ((s + off) mod ?n))) [0..<?n] \<noteq> None"
    by (auto simp: find_None_iff)
  then obtain off where f: "List.find (\<lambda>off. P (flat ! ((s + off) mod ?n))) [0..<?n] = Some off" by blast
  then have off: "off < ?n" "P (flat ! ((s + off) mod ?n))" "\<forall>k<off. \<not> P (flat ! ((s + k) mod ?n))"
    by (auto simp: find_Some_iff)
  let ?i = "(s + off) mod ?n"
  have i: "?i < ?n" using s by (intro mod_less_divisor) linarith
  have "rank_before P flat ?i = rank_before P flat s mod length (filter P flat)"
  proof (cases "s + off < ?n")
    case True
    have "\<not> P (flat ! k)" if "s \<le> k" "k < s + off" for k
      using off(3) [rule_format, of "k - s"] that True by simp
    then have "rank_before P flat (s + off) = rank_before P flat s" by (intro rank_gap) auto
    moreover have "rank_before P flat (s + off) < length (filter P flat)"
      using rank_nth(3) [of "s + off" flat P] off(2) True by simp
    ultimately show ?thesis using True by simp
  next
    case False
    then have e: "?i = s + off - ?n" using off(1) s by (simp add: mod_if)
    have "\<not> P (flat ! k)" if "s \<le> k" "k < ?n" for k
      using off(3) [rule_format, of "k - s"] that False by simp
    then have "rank_before P flat ?n = rank_before P flat s" using s by (intro rank_gap) auto
    then have "rank_before P flat s = length (filter P flat)" by (simp add: rank_before_def)
    moreover have "\<not> P (flat ! k)" if "k < s + off - ?n" for k
    proof -
      have "k + ?n - s < off" "(s + (k + ?n - s)) mod ?n = k" using that s off(1) False by (auto simp: mod_if)
      with off(3) show ?thesis by metis
    qed
    then have "rank_before P flat (s + off - ?n) = rank_before P flat 0" by (intro rank_gap) auto
    ultimately show ?thesis by (simp add: e rank_before_def)
  qed
  then show ?thesis using f off i by (auto simp: round_robin_scan_find idx)
qed

lemma pickRoundRobin_next:
  assumes "cursor_ok v" "filter P (rv_flat v) \<noteq> []"
  shows "\<exists>i<length (rv_flat v). pickRoundRobin P v = (Some (rv_flat v ! i), v\<lparr>rv_cursor := int i + 1\<rparr>) \<and> P (rv_flat v ! i) \<and>
    rank_before P (rv_flat v) i = rank_before P (rv_flat v) (nat (rv_cursor v)) mod length (filter P (rv_flat v))"
proof -
  let ?flat = "rv_flat v" and ?c = "nat (rv_cursor v)"
  have n: "?flat \<noteq> []" using assms(2) by auto
  have c: "0 \<le> rv_cursor v" "?c \<le> length ?flat" using assms(1) by (auto simp: cursor_ok_def)
  let ?s = "?c mod length ?flat"
  have st: "go_rem (rv_cursor v) (int (length ?flat)) = int ?s"
    using c(1) n by (simp add: go_rem_nonneg zmod_int)
  obtain i where i: "round_robin_scan P ?flat (int ?s) [0..<length ?flat] = Some i" "i < length ?flat" "P (?flat ! i)"
    "rank_before P ?flat i = rank_before P ?flat ?s mod length (filter P ?flat)"
    using scan_next [of ?s ?flat P] n assms(2) by auto
  have "rank_before P ?flat ?s mod length (filter P ?flat) = rank_before P ?flat ?c mod length (filter P ?flat)"
  proof (cases "?c = length ?flat")
    case True
    then show ?thesis by (simp add: rank_before_def)
  next
    case False
    with c show ?thesis by simp
  qed
  with i n show ?thesis by (auto simp: pickRoundRobin_def st Let_def)
qed

lemma pickRoundRobin_none: "filter P (rv_flat v) = [] \<Longrightarrow> cursor_ok v \<Longrightarrow> pickRoundRobin P v = (None, v)"
proof -
  assume f: "filter P (rv_flat v) = []" "cursor_ok v"
  let ?n = "length (rv_flat v)"
  have "\<not> P (rv_flat v ! nat (go_rem (go_rem (rv_cursor v) (int ?n) + int k) (int ?n)))" if "?n > 0" for k
  proof -
    have "nat (go_rem (go_rem (rv_cursor v) (int ?n) + int k) (int ?n)) < ?n"
      using that f(2) by (simp add: cursor_ok_def go_rem_nonneg nat_less_iff)
    with f(1) show ?thesis by (auto simp: filter_empty_conv)
  qed
  then have "?n > 0 \<Longrightarrow> round_robin_scan P (rv_flat v) (go_rem (rv_cursor v) (int ?n)) [0..<?n] = None"
    by (auto simp: round_robin_scan_find find_None_iff)
  then show ?thesis by (simp add: pickRoundRobin_def Let_def)
qed

lemma pickRoundRobin_cursor: "cursor_ok v \<Longrightarrow> cursor_ok (snd (pickRoundRobin P v)) \<and> rv_flat (snd (pickRoundRobin P v)) = rv_flat v"
  using pickRoundRobin_next [of v P] pickRoundRobin_none [of P v]
  by (cases "filter P (rv_flat v) = []") (auto simp: cursor_ok_def)

lemma round_robin_rotation:
  assumes "cursor_ok v" "filter P (rv_flat v) \<noteq> []"
  shows "pick_times (pickRoundRobin P) n v =
    map (\<lambda>k. Some (filter P (rv_flat v) ! ((rank_before P (rv_flat v) (nat (rv_cursor v)) + k) mod length (filter P (rv_flat v))))) [0..<n]"
  using assms
proof (induction n arbitrary: v)
  case (Suc n)
  let ?e = "filter P (rv_flat v)"
  obtain i where i: "i < length (rv_flat v)" "P (rv_flat v ! i)"
    "pickRoundRobin P v = (Some (rv_flat v ! i), v\<lparr>rv_cursor := int i + 1\<rparr>)"
    "rank_before P (rv_flat v) i = rank_before P (rv_flat v) (nat (rv_cursor v)) mod length ?e"
    using pickRoundRobin_next [OF Suc.prems] by blast
  let ?v = "v\<lparr>rv_cursor := int i + 1\<rparr>"
  have "cursor_ok ?v" using i(1) by (simp add: cursor_ok_def)
  moreover have "nat (int i + 1) = Suc i" by simp
  ultimately have "pick_times (pickRoundRobin P) n ?v =
      map (\<lambda>k. Some (?e ! ((Suc (rank_before P (rv_flat v) i) + k) mod length ?e))) [0..<n]"
    using Suc.IH [of ?v] Suc.prems(2) rank_nth(2) [where P = P, OF i(1,2)] by simp
  moreover have "Suc (r mod m + k) mod m = Suc (r + k) mod m" for r m k :: nat
    by (metis add_Suc_right mod_add_left_eq)
  ultimately show ?case
    using i(3,4) rank_nth(1) [where P = P, OF i(1,2)]
    by (simp add: upt_conv_Cons map_Suc_upt [symmetric] mod_simps comp_def del: upt_Suc)
qed simp

section \<open>Weighted\<close>

abbreviation weighted_ids :: "(string \<Rightarrow> int) \<Rightarrow> (string \<Rightarrow> bool) \<Rightarrow> string list \<Rightarrow> string list" where
  "weighted_ids weight P ids \<equiv> filter (\<lambda>i. 0 < weight i \<and> P i) ids"

lemma scheduled_loop_reference:
  "scheduled_loop weight P ids cur picked pc tot =
     smooth_loop (\<lambda>i. i) weight (weighted_ids weight P ids) cur picked pc tot"
  by (induction ids arbitrary: cur picked pc tot) (auto simp: Let_def)

lemma scheduledWeightVector_eq:
  "distinct (map fst m @ weighted_ids weight P ids) \<Longrightarrow>
     scheduledWeightVectorMatching weight P ids m = m @ map (\<lambda>i. (i, weight i)) (weighted_ids weight P ids)"
  by (induction ids arbitrary: m) (auto simp: update_new)

text \<open>The scheduler's weighted pick is the reference step over the accepted entries.\<close>

lemma weighted_rotation_step:
  assumes "distinct ids"
  shows "weighted_rotation weight P ids st = smooth_step (\<lambda>i. i) weight (weighted_ids weight P ids) st"
  using assms scheduledWeightVector_eq [of "[]" weight P ids]
  by (simp add: weighted_rotation_def smooth_step_def pickSmoothWeightedScheduled_def smooth_pick_def
      scheduled_loop_reference Let_def)

lemma smooth_step_eligible:
  assumes "\<And>e. eligible e \<Longrightarrow> 0 < weight e"
  shows "smooth_picker ident weight eligible (\<lambda>st. credit (sw_current st))
     (\<lambda>es. smooth_ready ident weight (filter eligible es))
     (\<lambda>es. smooth_step ident weight (filter eligible es))"
proof
  fix es cur
  assume "filter eligible es = []"
  then show "fst (smooth_step ident weight (filter eligible es) cur) = None"
    by (simp add: smooth_step_def smooth_pick_def Let_def split: prod.splits)
qed (erule assms, rule smooth_step_law, simp_all add: assms)

interpretation vw: smooth_picker "\<lambda>i. i" weight "\<lambda>i. 0 < weight i \<and> P i" "\<lambda>st. credit (sw_current st)"
  "\<lambda>ids. smooth_ready (\<lambda>i. i) weight (weighted_ids weight P ids)"
  "\<lambda>ids. smooth_step (\<lambda>i. i) weight (weighted_ids weight P ids)" for weight P
  by (rule smooth_step_eligible) simp

lemma pickWeighted_times:
  assumes "distinct (rv_flat v)" "rv_flat v \<noteq> []"
  shows "pick_times (pickWeighted weight P) n v = fst (vw.picks weight P n (rv_flat v) (rv_weightedState v))"
  using assms
  by (induction n arbitrary: v) (auto simp: pickWeighted_def weighted_rotation_step split: prod.splits)

lemma weighted_rotation_picked:
  assumes "distinct ids"
  shows "(case fst (weighted_rotation weight P ids st) of
      None \<Rightarrow> weighted_ids weight P ids = [] | Some p \<Rightarrow> p \<in> set (weighted_ids weight P ids))"
proof -
  let ?ids = "weighted_ids weight P ids"
  have "fst (weighted_rotation weight P ids st) = fst (smooth_pick (\<lambda>i. i) weight ?ids
      (sw_current (prepare (map (\<lambda>i. (i, weight i)) ?ids) st)))"
    by (simp add: weighted_rotation_step [OF assms] smooth_step_def Let_def split_beta)
  then show ?thesis
    using smooth_pick_picked [where ident = "\<lambda>i. i" and weight = weight and es = ?ids
        and cur = "sw_current (prepare (map (\<lambda>i. (i, weight i)) ?ids) st)"] by (simp only:)
qed

section \<open>Restored views\<close>

lemma normalizeCursor_range: "0 < n \<Longrightarrow> 0 \<le> normalizeCursor c n \<and> normalizeCursor c n < n"
  by (auto simp: normalizeCursor_def go_rem_nonneg Let_def)

lemma restore_flat [simp]: "rv_flat (restoreReadyViewCursors weight state v) = rv_flat v"
  by (simp add: restoreReadyViewCursors_def Let_def)

lemma restore_cursor: "cursor_ok v \<Longrightarrow> cursor_ok (restoreReadyViewCursors weight state v)"
  using normalizeCursor_range [of "int (length (rv_flat v))" "vc_cursor state"]
  by (auto simp: restoreReadyViewCursors_def cursor_ok_def Let_def)

lemma build_view_ok [simp]: "cursor_ok (buildReadyView ids)" "rv_flat (buildReadyView ids) = ids"
  by (simp_all add: buildReadyView_def cursor_ok_def)

section \<open>Properties\<close>

text \<open>The scheduler's round-robin is fair under any request filter: as many consecutive picks from a
  ready view as it has accepted entries return each of them exactly once, wherever the cursor stands.\<close>

theorem view_round_robin_fair:
  assumes "cursor_ok v"
  shows "mset (pick_times (pickRoundRobin predicate) (length (filter predicate (rv_flat v))) v) =
    mset (map Some (filter predicate (rv_flat v)))"
proof (cases "filter predicate (rv_flat v) = []")
  case False
  let ?e = "filter predicate (rv_flat v)"
  let ?j = "rank_before predicate (rv_flat v) (nat (rv_cursor v))"
  have "mset (map (\<lambda>k. Some (?e ! ((?j + k) mod length ?e))) [0..<length ?e]) =
      image_mset Some (mset (map (\<lambda>k. ?e ! ((?j + k) mod length ?e)) [0..<length ?e]))"
    by (simp add: image_mset.compositionality comp_def)
  with mset_rotation [OF False, of ?j] show ?thesis
    by (simp only: round_robin_rotation [OF assms False] mset_map)
qed simp

theorem view_round_robin_fair_witness:
  "mset (pick_times (pickRoundRobin (\<lambda>i. i \<noteq> ''b''))  2
      \<lparr>rv_flat = [''a'', ''b'', ''c''], rv_cursor = 1, rv_weightedState = empty_smooth\<rparr>) = {#Some ''a'', Some ''c''#}"
  using view_round_robin_fair [of "\<lparr>rv_flat = [''a'', ''b'', ''c''], rv_cursor = 1, rv_weightedState = empty_smooth\<rparr>"
      "\<lambda>i. i \<noteq> ''b''"]
  by (simp add: cursor_ok_def numeral_2_eq_2)

text \<open>The scheduler's weighted rotation gives exact shares under any request filter: starting with no
  accumulators, over as many consecutive picks as the sum of the accepted weights, every accepted
  entry of positive weight is picked its weight many times. The bound says that no accumulator can
  saturate.\<close>

theorem view_weighted_share:
  assumes "distinct (rv_flat v)" "rv_weightedState v = empty_smooth"
    and "(int (length (weighted_ids weight predicate (rv_flat v))) + 1) *
        sum_list (map weight (weighted_ids weight predicate (rv_flat v))) \<le> max_int64"
    and "i \<in> set (rv_flat v)" "predicate i" "0 < weight i"
  shows "int (count (mset (pick_times (pickWeighted weight predicate)
      (nat (sum_list (map weight (weighted_ids weight predicate (rv_flat v))))) v)) (Some i)) = weight i"
proof -
  let ?ids = "rv_flat v" and ?n = "nat (sum_list (map weight (weighted_ids weight predicate (rv_flat v))))"
  have i: "i \<in> set (weighted_ids weight predicate ?ids)" "?ids \<noteq> []" using assms(4-6) by auto
  have fair: "vw.fair_input weight predicate ?ids"
    using assms(1,3) i list.set_cases [OF i(1)] by (auto simp: vw.fair_input_def vw.cands_def vw.total_def filter_empty_conv)
  have c: "vw.cands weight predicate ?ids = weighted_ids weight predicate ?ids"
    "vw.total weight predicate ?ids = sum_list (map weight (weighted_ids weight predicate ?ids))"
    by (simp_all add: vw.cands_def vw.total_def)
  have fresh: "vw.fresh weight predicate ?ids (rv_weightedState v)"
    by (simp add: vw.fresh_def assms(2) smooth_ready_empty) (simp add: empty_smooth_def)
  obtain ps st where ps: "vw.picks weight predicate ?n ?ids (rv_weightedState v) = (ps, st)"
    by (cases "vw.picks weight predicate ?n ?ids (rv_weightedState v)")
  have t: "vw.times i ps = weight i"
    using vw.fair_cycle(1) [OF fair fresh ps [folded c(2)]] i(1) c by simp
  have "count (mset ps) (Some i) = length (filter (\<lambda>p. map_option (\<lambda>i. i) p = Some i) ps)"
    by (induction ps) auto
  with t show ?thesis
    by (simp only: pickWeighted_times [OF assms(1) i(2)] ps fst_conv vw.times_def)
qed

theorem view_weighted_share_witness:
  "int (count (mset (pick_times (pickWeighted (\<lambda>i. if i = ''a'' then 1 else 3) (\<lambda>i. i \<noteq> ''c'')) 4
      (buildReadyView [''a'', ''b'', ''c'']))) (Some ''b'')) = 3"
  using view_weighted_share [where v = "buildReadyView [''a'', ''b'', ''c'']" and i = "''b''"
      and weight = "\<lambda>i. if i = ''a'' then 1 else 3" and predicate = "\<lambda>i. i \<noteq> ''c''"]
  by (simp add: buildReadyView_def)

end
