(* ===== verification/Model_Shard.thy ===== *)
theory Model_Shard
  imports Ready_View "HOL-Library.Product_Lexorder"
begin

text \<open>
  One provider/model shard of \<open>sdk/cliproxy/auth/scheduler.go\<close>: the entries of the credentials that
  support the model, the ready views by priority, and the queue of blocked entries. The entry map is an
  association list; iterating over it visits the entries in list order. A view's \<open>flat\<close> and the
  \<open>blocked\<close> queue hold the IDs of the entries the code points to. A nil \<open>*scheduledAuth\<close> does not
  occur: the code only stores entries it has just filled.
\<close>

section \<open>Data\<close>

record scheduledAuthMeta =
  sm_auth :: Auth
  sm_providerKey :: string
  sm_priority :: int
  sm_weight :: int
  sm_websocketEnabled :: bool
  sm_supportedModelSet :: "string list"

datatype scheduledState =
    scheduledStateReady
  | scheduledStateCooldown
  | scheduledStateBlocked
  | scheduledStateDisabled

record scheduledAuth =
  sd_meta :: scheduledAuthMeta
  sd_auth :: Auth
  sd_state :: scheduledState
  sd_nextRetryAt :: gotime

record readyBucket =
  rb_all :: readyView
  rb_ws :: readyView

record modelScheduler =
  mo_modelKey :: string
  mo_entries :: "(string \<times> scheduledAuth) list"
  mo_priorityOrder :: "int list"
  mo_readyByPriority :: "(int \<times> readyBucket) list"
  mo_blocked :: "string list"

datatype schedulerStrategy =
    schedulerStrategyCurrent
  | schedulerStrategyCustom
  | schedulerStrategyRoundRobin
  | schedulerStrategyFillFirst
  | schedulerStrategyWeightedRoundRobin

definition empty_shard :: "string \<Rightarrow> modelScheduler" where
  "empty_shard modelKey = \<lparr>mo_modelKey = modelKey, mo_entries = [], mo_priorityOrder = [],
     mo_readyByPriority = [], mo_blocked = []\<rparr>"

section \<open>Reading an entry through its ID\<close>

type_synonym predicate = "scheduledAuth \<Rightarrow> bool"

definition entry_satisfies :: "(string \<times> scheduledAuth) list \<Rightarrow> predicate \<Rightarrow> string \<Rightarrow> bool" where
  "entry_satisfies entries predicate authID =
     (case map_of entries authID of Some entry \<Rightarrow> predicate entry | None \<Rightarrow> False)"

definition entry_weight :: "(string \<times> scheduledAuth) list \<Rightarrow> string \<Rightarrow> int" where
  "entry_weight entries authID =
     (case map_of entries authID of Some entry \<Rightarrow> sm_weight (sd_meta entry) | None \<Rightarrow> 0)"

definition entry_auth :: "(string \<times> scheduledAuth) list \<Rightarrow> string \<Rightarrow> Auth option" where
  "entry_auth entries authID = map_option sd_auth (map_of entries authID)"

section \<open>Indexes\<close>

definition bucket_add :: "int \<Rightarrow> string \<Rightarrow> (int \<times> string list) list \<Rightarrow> (int \<times> string list) list" where
  "bucket_add priority authID m =
     map_put priority ((case map_of m priority of None \<Rightarrow> [] | Some b \<Rightarrow> b) @ [authID]) m"

text \<open>The loop over the entries: the ready ones by priority, and the blocked queue.\<close>

fun index_loop ::
  "(string \<times> scheduledAuth) list \<Rightarrow> (int \<times> string list) list \<Rightarrow> string list \<Rightarrow>
     (int \<times> string list) list \<times> string list" where
  "index_loop [] priorityBuckets blocked = (priorityBuckets, blocked)"
| "index_loop ((authID, entry) # entries) priorityBuckets blocked =
     (case sd_state entry of
        scheduledStateReady \<Rightarrow>
          index_loop entries (bucket_add (sm_priority (sd_meta entry)) authID priorityBuckets) blocked
      | scheduledStateCooldown \<Rightarrow> index_loop entries priorityBuckets (blocked @ [authID])
      | scheduledStateBlocked \<Rightarrow> index_loop entries priorityBuckets (blocked @ [authID])
      | scheduledStateDisabled \<Rightarrow> index_loop entries priorityBuckets blocked)"

definition buildReadyBucket :: "(string \<times> scheduledAuth) list \<Rightarrow> string list \<Rightarrow> readyBucket" where
  "buildReadyBucket entries ids =
     \<lparr>rb_all = buildReadyView ids,
      rb_ws = buildReadyView (filter (entry_satisfies entries (\<lambda>entry. sm_websocketEnabled (sd_meta entry))) ids)\<rparr>"

definition restore_bucket :: "(string \<Rightarrow> int) \<Rightarrow> readyBucket option \<Rightarrow> readyBucket \<Rightarrow> readyBucket" where
  "restore_bucket weight old bucket =
     (case old of
        None \<Rightarrow> bucket
      | Some b \<Rightarrow>
          \<lparr>rb_all = restoreReadyViewCursors weight (snapshotReadyViewCursors (rb_all b)) (rb_all bucket),
           rb_ws = restoreReadyViewCursors weight (snapshotReadyViewCursors (rb_ws b)) (rb_ws bucket)\<rparr>)"

text \<open>The comparison of the blocked queue: earliest retry first, entries without a retry time last,
  ties by ID.\<close>

definition retry_key :: "(string \<times> scheduledAuth) list \<Rightarrow> string \<Rightarrow> bool \<times> gotime \<times> string" where
  "retry_key entries authID =
     (case map_of entries authID of
        Some entry \<Rightarrow> (sd_nextRetryAt entry = 0, sd_nextRetryAt entry, authID)
      | None \<Rightarrow> (True, 0, authID))"

definition rebuildIndexesLocked :: "modelScheduler \<Rightarrow> modelScheduler" where
  "rebuildIndexesLocked m =
     (case index_loop (mo_entries m) [] [] of
        (priorityBuckets, blocked) \<Rightarrow>
          (let weight = entry_weight (mo_entries m);
               ready = map (\<lambda>(priority, ids).
                   (priority, restore_bucket weight (map_of (mo_readyByPriority m) priority)
                      (buildReadyBucket (mo_entries m) (sort ids)))) priorityBuckets
           in m\<lparr>mo_readyByPriority := ready,
                mo_priorityOrder := rev (sort (map fst ready)),
                mo_blocked := sort_key (retry_key (mo_entries m)) blocked\<rparr>))"

section \<open>Entries\<close>

text \<open>The state an entry gets from the availability of its credential.\<close>

definition scheduled_status :: "Auth \<Rightarrow> string \<Rightarrow> gotime \<Rightarrow> scheduledState \<times> gotime" where
  "scheduled_status auth modelKey now =
     (case isAuthBlockedForModel (Some auth) modelKey now of
        (blocked, reason, next_ts) \<Rightarrow>
          if \<not> blocked then (scheduledStateReady, 0)
          else if reason = blockReasonCooldown then (scheduledStateCooldown, next_ts)
          else if reason = blockReasonDisabled then (scheduledStateDisabled, 0)
          else (scheduledStateBlocked, next_ts))"

definition upsertEntryLocked :: "scheduledAuthMeta \<Rightarrow> gotime \<Rightarrow> modelScheduler \<Rightarrow> modelScheduler" where
  "upsertEntryLocked meta now m =
     (case scheduled_status (sm_auth meta) (mo_modelKey m) now of
        (state, next_ts) \<Rightarrow>
          (let authID = auth_ID (sm_auth meta);
               entry = \<lparr>sd_meta = meta, sd_auth = sm_auth meta, sd_state = state, sd_nextRetryAt = next_ts\<rparr>;
               m' = m\<lparr>mo_entries := map_put authID entry (mo_entries m)\<rparr>
           in case map_of (mo_entries m) authID of
                None \<Rightarrow> rebuildIndexesLocked m'
              | Some previous \<Rightarrow>
                  if sd_state previous = state \<and> sd_nextRetryAt previous = next_ts \<and>
                     sm_priority (sd_meta previous) = sm_priority meta \<and>
                     sm_websocketEnabled (sd_meta previous) = sm_websocketEnabled meta
                  then m' else rebuildIndexesLocked m'))"

definition removeEntryLocked :: "string \<Rightarrow> modelScheduler \<Rightarrow> modelScheduler" where
  "removeEntryLocked authID m =
     (if authID = [] then m
      else if \<not> has_key authID (mo_entries m) then m
      else rebuildIndexesLocked (m\<lparr>mo_entries := map_del authID (mo_entries m)\<rparr>))"

fun promote_loop ::
  "string \<Rightarrow> gotime \<Rightarrow> string list \<Rightarrow> (string \<times> scheduledAuth) list \<Rightarrow> bool \<Rightarrow>
     (string \<times> scheduledAuth) list \<times> bool" where
  "promote_loop modelKey now [] entries changed = (entries, changed)"
| "promote_loop modelKey now (authID # blocked) entries changed =
     (case map_of entries authID of
        None \<Rightarrow> promote_loop modelKey now blocked entries changed
      | Some entry \<Rightarrow>
          if sd_nextRetryAt entry = 0 \<or> time_after (sd_nextRetryAt entry) now
          then promote_loop modelKey now blocked entries changed
          else (case scheduled_status (sd_auth entry) modelKey now of
                  (state, next_ts) \<Rightarrow>
                    promote_loop modelKey now blocked
                      (map_put authID (entry\<lparr>sd_state := state, sd_nextRetryAt := next_ts\<rparr>) entries) True))"

definition promoteExpiredLocked :: "gotime \<Rightarrow> modelScheduler \<Rightarrow> modelScheduler" where
  "promoteExpiredLocked now m =
     (if length (mo_blocked m) = 0 then m
      else (case promote_loop (mo_modelKey m) now (mo_blocked m) (mo_entries m) False of
              (entries, changed) \<Rightarrow>
                (let m' = m\<lparr>mo_entries := entries\<rparr> in if changed then rebuildIndexesLocked m' else m')))"

section \<open>Picking\<close>

fun first_priority :: "(readyBucket \<Rightarrow> bool) \<Rightarrow> (int \<times> readyBucket) list \<Rightarrow> int list \<Rightarrow> int option" where
  "first_priority ok ready [] = None"
| "first_priority ok ready (priority # priorities) =
     (case map_of ready priority of
        None \<Rightarrow> first_priority ok ready priorities
      | Some bucket \<Rightarrow> if ok bucket then Some priority else first_priority ok ready priorities)"

definition highestReadyPriorityLocked :: "bool \<Rightarrow> predicate \<Rightarrow> modelScheduler \<Rightarrow> int option" where
  "highestReadyPriorityLocked preferWebsocket predicate m =
     (let P = entry_satisfies (mo_entries m) predicate;
          all = first_priority (\<lambda>bucket. pickFirst P (rb_all bucket) \<noteq> None) (mo_readyByPriority m) (mo_priorityOrder m)
      in if preferWebsocket then
           (case first_priority (\<lambda>bucket. pickFirst P (rb_ws bucket) \<noteq> None) (mo_readyByPriority m) (mo_priorityOrder m) of
              Some priority \<Rightarrow> Some priority
            | None \<Rightarrow> all)
         else all)"

text \<open>One pick from a view with the strategy.\<close>

definition view_pick ::
  "schedulerStrategy \<Rightarrow> (string \<times> scheduledAuth) list \<Rightarrow> predicate \<Rightarrow> readyView \<Rightarrow> string option \<times> readyView" where
  "view_pick strategy entries predicate view =
     (let P = entry_satisfies entries predicate
      in case strategy of
           schedulerStrategyFillFirst \<Rightarrow> (pickFirst P view, view)
         | schedulerStrategyWeightedRoundRobin \<Rightarrow> pickWeighted (entry_weight entries) P view
         | _ \<Rightarrow> pickRoundRobin P view)"

definition uses_ws :: "bool \<Rightarrow> (string \<times> scheduledAuth) list \<Rightarrow> predicate \<Rightarrow> readyBucket \<Rightarrow> bool" where
  "uses_ws preferWebsocket entries predicate bucket \<longleftrightarrow>
     preferWebsocket \<and> pickFirst (entry_satisfies entries predicate) (rb_ws bucket) \<noteq> None"

definition pickReadyAtPriorityLocked ::
  "bool \<Rightarrow> int \<Rightarrow> schedulerStrategy \<Rightarrow> predicate \<Rightarrow> modelScheduler \<Rightarrow> Auth option \<times> modelScheduler" where
  "pickReadyAtPriorityLocked preferWebsocket priority strategy predicate m =
     (case map_of (mo_readyByPriority m) priority of
        None \<Rightarrow> (None, m)
      | Some bucket \<Rightarrow>
          if uses_ws preferWebsocket (mo_entries m) predicate bucket then
            (case view_pick strategy (mo_entries m) predicate (rb_ws bucket) of
               (picked, view) \<Rightarrow>
                 (case picked of None \<Rightarrow> None | Some authID \<Rightarrow> entry_auth (mo_entries m) authID,
                  m\<lparr>mo_readyByPriority := map_put priority (bucket\<lparr>rb_ws := view\<rparr>) (mo_readyByPriority m)\<rparr>))
          else
            (case view_pick strategy (mo_entries m) predicate (rb_all bucket) of
               (picked, view) \<Rightarrow>
                 (case picked of None \<Rightarrow> None | Some authID \<Rightarrow> entry_auth (mo_entries m) authID,
                  m\<lparr>mo_readyByPriority := map_put priority (bucket\<lparr>rb_all := view\<rparr>) (mo_readyByPriority m)\<rparr>)))"

definition pickReadyLocked ::
  "bool \<Rightarrow> schedulerStrategy \<Rightarrow> predicate \<Rightarrow> gotime \<Rightarrow> modelScheduler \<Rightarrow> Auth option \<times> modelScheduler" where
  "pickReadyLocked preferWebsocket strategy predicate now m =
     (let m' = promoteExpiredLocked now m
      in case highestReadyPriorityLocked preferWebsocket predicate m' of
           None \<Rightarrow> (None, m')
         | Some priority \<Rightarrow> pickReadyAtPriorityLocked preferWebsocket priority strategy predicate m')"

definition readyCountAtPriorityLocked :: "bool \<Rightarrow> int \<Rightarrow> predicate \<Rightarrow> modelScheduler \<Rightarrow> nat" where
  "readyCountAtPriorityLocked preferWebsocket priority predicate m =
     (case map_of (mo_readyByPriority m) priority of
        None \<Rightarrow> 0
      | Some bucket \<Rightarrow>
          (let view = (if uses_ws preferWebsocket (mo_entries m) predicate bucket then rb_ws bucket else rb_all bucket)
           in length (filter (entry_satisfies (mo_entries m) predicate) (rv_flat view))))"

section \<open>Errors\<close>

text \<open>The loop over the entries: total, cooldown count, earliest retry time.\<close>

fun summary_loop ::
  "predicate \<Rightarrow> (string \<times> scheduledAuth) list \<Rightarrow> nat \<Rightarrow> nat \<Rightarrow> gotime \<Rightarrow> nat \<times> nat \<times> gotime" where
  "summary_loop predicate [] totalCount cooldownCount earliest = (totalCount, cooldownCount, earliest)"
| "summary_loop predicate ((authID, entry) # entries) totalCount cooldownCount earliest =
     (if \<not> predicate entry then summary_loop predicate entries totalCount cooldownCount earliest
      else if sd_state entry \<noteq> scheduledStateCooldown then
        summary_loop predicate entries (Suc totalCount) cooldownCount earliest
      else summary_loop predicate entries (Suc totalCount) (Suc cooldownCount)
             (if sd_nextRetryAt entry \<noteq> 0 \<and> (earliest = 0 \<or> time_before (sd_nextRetryAt entry) earliest)
              then sd_nextRetryAt entry else earliest))"

definition availabilitySummaryLocked :: "predicate \<Rightarrow> modelScheduler \<Rightarrow> nat \<times> nat \<times> gotime" where
  "availabilitySummaryLocked predicate m = summary_loop predicate (mo_entries m) 0 0 0"

definition summary_error :: "nat \<times> nat \<times> gotime \<Rightarrow> string \<Rightarrow> string \<Rightarrow> gotime \<Rightarrow> sel_error" where
  "summary_error summary provider model now =
     (case summary of
        (totalCount, cooldownCount, earliest) \<Rightarrow>
          if totalCount = 0 then auth_error ''auth_not_found'' ''no auth available''
          else if cooldownCount = totalCount \<and> earliest \<noteq> 0 then
            (let resetIn = time_sub earliest now
             in newModelCooldownError model provider (if resetIn < 0 then 0 else resetIn))
          else auth_error ''auth_unavailable'' ''no auth available'')"

definition unavailableErrorLocked :: "string \<Rightarrow> string \<Rightarrow> predicate \<Rightarrow> gotime \<Rightarrow> modelScheduler \<Rightarrow> sel_error" where
  "unavailableErrorLocked provider model predicate now m =
     summary_error (availabilitySummaryLocked predicate m) (if provider = ''mixed'' then [] else provider) model now"

section \<open>The invariant of the indexes\<close>

definition is_ready :: "int \<Rightarrow> string \<times> scheduledAuth \<Rightarrow> bool" where
  "is_ready p ie \<longleftrightarrow> sd_state (snd ie) = scheduledStateReady \<and> sm_priority (sd_meta (snd ie)) = p"

definition is_waiting :: "string \<times> scheduledAuth \<Rightarrow> bool" where
  "is_waiting ie \<longleftrightarrow> sd_state (snd ie) = scheduledStateCooldown \<or> sd_state (snd ie) = scheduledStateBlocked"

definition ready_ids :: "(string \<times> scheduledAuth) list \<Rightarrow> int \<Rightarrow> string list" where
  "ready_ids entries p = sort (map fst (filter (is_ready p) entries))"

definition entry_ok :: "string \<times> scheduledAuth \<Rightarrow> bool" where
  "entry_ok ie \<longleftrightarrow> auth_ID (sd_auth (snd ie)) = fst ie \<and> sm_auth (sd_meta (snd ie)) = sd_auth (snd ie) \<and>
     sm_priority (sd_meta (snd ie)) = authPriority (Some (sd_auth (snd ie))) \<and>
     sm_weight (sd_meta (snd ie)) = authWeight (Some (sd_auth (snd ie)))"

abbreviation ws_entry :: "(string \<times> scheduledAuth) list \<Rightarrow> string \<Rightarrow> bool" where
  "ws_entry entries \<equiv> entry_satisfies entries (\<lambda>entry. sm_websocketEnabled (sd_meta entry))"

definition bucket_ok :: "(string \<times> scheduledAuth) list \<Rightarrow> int \<Rightarrow> readyBucket option \<Rightarrow> bool" where
  "bucket_ok entries p ob \<longleftrightarrow>
     (case ob of
        None \<Rightarrow> ready_ids entries p = []
      | Some b \<Rightarrow> ready_ids entries p \<noteq> [] \<and> rv_flat (rb_all b) = ready_ids entries p \<and>
          rv_flat (rb_ws b) = filter (ws_entry entries) (ready_ids entries p) \<and>
          cursor_ok (rb_all b) \<and> cursor_ok (rb_ws b))"

definition entries_ok :: "(string \<times> scheduledAuth) list \<Rightarrow> bool" where
  "entries_ok entries \<longleftrightarrow> wf_map entries \<and> list_all entry_ok entries"

text \<open>The ready views list, by descending priority and sorted by ID, exactly the ready entries; the queue
  holds exactly the waiting ones.\<close>

definition index_ok :: "modelScheduler \<Rightarrow> bool" where
  "index_ok m \<longleftrightarrow> entries_ok (mo_entries m) \<and> wf_map (mo_readyByPriority m) \<and>
     mo_priorityOrder m = rev (sort (map fst (mo_readyByPriority m))) \<and>
     (\<forall>p. bucket_ok (mo_entries m) p (map_of (mo_readyByPriority m) p)) \<and>
     set (mo_blocked m) = fst ` set (filter is_waiting (mo_entries m))"

lemma set_ready_ids:
  "wf_map entries \<Longrightarrow> i \<in> set (ready_ids entries p) \<longleftrightarrow>
     (\<exists>e. map_of entries i = Some e \<and> sd_state e = scheduledStateReady \<and> sm_priority (sd_meta e) = p)"
proof -
  assume "wf_map entries"
  then have "(i, e) \<in> set entries \<longleftrightarrow> map_of entries i = Some e" for e by (rule wf_map_in_set)
  then show ?thesis by (auto simp: ready_ids_def is_ready_def image_iff)
qed

lemma distinct_ready_ids: "wf_map entries \<Longrightarrow> distinct (ready_ids entries p)"
  by (simp add: ready_ids_def distinct_map_filter)

section \<open>Rebuilding\<close>

definition bucket_lists :: "(int \<times> string list) list \<Rightarrow> (int \<Rightarrow> string list) \<Rightarrow> bool" where
  "bucket_lists m f \<longleftrightarrow> wf_map m \<and> (\<forall>p. map_of m p = (if f p = [] then None else Some (f p)))"

lemma index_loop_spec:
  "bucket_lists m f \<Longrightarrow> index_loop entries m b = (m', b') \<Longrightarrow>
     bucket_lists m' (\<lambda>p. f p @ map fst (filter (is_ready p) entries)) \<and>
     b' = b @ map fst (filter is_waiting entries)"
proof (induction entries m b arbitrary: f rule: index_loop.induct)
  case (2 authID entry entries m b)
  show ?case
  proof (cases "sd_state entry = scheduledStateReady")
    case True
    let ?p = "sm_priority (sd_meta entry)" and ?f = "f(sm_priority (sd_meta entry) := f (sm_priority (sd_meta entry)) @ [authID])"
    have "bucket_lists (bucket_add ?p authID m) ?f"
      using "2.prems"(1) by (auto simp: bucket_lists_def bucket_add_def go_map split: option.splits)
    from "2.IH"(1) [OF True this] "2.prems"(2) True
    show ?thesis by (auto simp: is_ready_def is_waiting_def fun_upd_def elim!: back_subst [of "\<lambda>g. bucket_lists m' g"] intro!: ext)
  next
    case False
    with "2" show ?thesis
      by (cases "sd_state entry") (auto simp: is_ready_def is_waiting_def)
  qed
qed simp

lemma map_of_map_keys: "map_of (map (\<lambda>(k, v). (k, g k v)) m) k = map_option (g k) (map_of m k)"
  by (induction m) auto

lemma rebuild_entries [simp]:
  "mo_entries (rebuildIndexesLocked m) = mo_entries m" "mo_modelKey (rebuildIndexesLocked m) = mo_modelKey m"
  by (simp_all add: rebuildIndexesLocked_def Let_def split: prod.splits)

lemma sort_Nil [simp]: "sort xs = [] \<longleftrightarrow> xs = []"
  by (metis length_0_conv length_sort)

lemma rebuild_index_ok:
  assumes "entries_ok (mo_entries m)"
  shows "index_ok (rebuildIndexesLocked m)"
proof -
  let ?E = "mo_entries m"
  obtain bs q where l: "index_loop ?E [] [] = (bs, q)" by fastforce
  have "bucket_lists [] (\<lambda>_. [])" by (simp add: bucket_lists_def)
  from index_loop_spec [OF this l] have bs: "bucket_lists bs (\<lambda>p. map fst (filter (is_ready p) ?E))"
    and q: "q = map fst (filter is_waiting ?E)" by simp_all
  let ?g = "\<lambda>p ids. restore_bucket (entry_weight ?E) (map_of (mo_readyByPriority m) p) (buildReadyBucket ?E (sort ids))"
  let ?ready = "map (\<lambda>(p, ids). (p, ?g p ids)) bs"
  have m': "mo_readyByPriority (rebuildIndexesLocked m) = ?ready"
    "mo_priorityOrder (rebuildIndexesLocked m) = rev (sort (map fst ?ready))"
    "set (mo_blocked (rebuildIndexesLocked m)) = set q"
    by (simp_all add: rebuildIndexesLocked_def l Let_def)
  have "bucket_ok ?E p (map_of ?ready p)" for p
    using bs
    by (auto simp: bucket_lists_def bucket_ok_def map_of_map_keys ready_ids_def restore_bucket_def
        buildReadyBucket_def restore_cursor split: option.splits if_splits)
  moreover have "wf_map ?ready" using bs by (simp add: bucket_lists_def comp_def split_beta)
  ultimately show ?thesis using assms m' q by (simp add: index_ok_def)
qed

section \<open>Updating entries keeps the indexes\<close>

lemma entries_ok_put:
  assumes "entries_ok entries" "entry_ok (i, e)"
  shows "entries_ok (map_put i e entries)"
proof -
  have "wf_map (map_put i e entries)" using assms(1) by (simp add: entries_ok_def distinct_update)
  moreover have "list_all entry_ok (map_put i e entries)"
    using assms set_map_put [of entries i e] by (auto simp: entries_ok_def list_all_iff)
  ultimately show ?thesis by (simp add: entries_ok_def)
qed

text \<open>An update that leaves state, priority and transport of an entry alone does not touch the lists.\<close>

lemma map_filter_put:
  assumes "wf_map l" "map_of l i = Some e0" "Q (i, e) = Q (i, e0)"
  shows "map fst (filter Q (map_put i e l)) = map fst (filter Q l)"
  using assms
proof (induction l)
  case (Cons x l)
  then show ?case by (cases x) (auto split: if_splits)
qed simp

lemma index_ok_same:
  assumes m: "index_ok m" "map_of (mo_entries m) i = Some e0" "entry_ok (i, e)"
    and same: "sd_state e = sd_state e0" "sm_priority (sd_meta e) = sm_priority (sd_meta e0)"
      "sm_websocketEnabled (sd_meta e) = sm_websocketEnabled (sd_meta e0)"
  shows "index_ok (m\<lparr>mo_entries := map_put i e (mo_entries m)\<rparr>)"
proof -
  let ?E = "mo_entries m" and ?E' = "map_put i e (mo_entries m)"
  have ok: "entries_ok ?E" "wf_map ?E" using m(1) by (auto simp: index_ok_def entries_ok_def)
  have r: "ready_ids ?E' p = ready_ids ?E p" for p
    unfolding ready_ids_def by (subst map_filter_put [OF ok(2) m(2)]) (simp_all add: is_ready_def same)
  have w: "fst ` set (filter is_waiting ?E') = fst ` set (filter is_waiting ?E)"
    using map_filter_put [OF ok(2) m(2), of is_waiting e] by (metis is_waiting_def list.set_map same(1) snd_conv)
  have "ws_entry ?E' = ws_entry ?E"
    using m(2) same(3) by (auto simp: entry_satisfies_def update_conv' fun_eq_iff)
  then have "bucket_ok ?E' p ob = bucket_ok ?E p ob" for p ob
    by (simp add: bucket_ok_def r split: option.splits)
  then show ?thesis
    using m(1) entries_ok_put [OF ok(1) m(3)] w by (simp add: index_ok_def)
qed

definition meta_ok :: "scheduledAuthMeta \<Rightarrow> bool" where
  "meta_ok meta \<longleftrightarrow> sm_priority meta = authPriority (Some (sm_auth meta)) \<and> sm_weight meta = authWeight (Some (sm_auth meta))"

lemma upsert_key [simp]: "mo_modelKey (upsertEntryLocked meta now m) = mo_modelKey m"
  by (simp add: upsertEntryLocked_def Let_def split: prod.splits option.splits)

lemma upsert_entries:
  "mo_entries (upsertEntryLocked meta now m) =
     map_put (auth_ID (sm_auth meta))
       \<lparr>sd_meta = meta, sd_auth = sm_auth meta,
        sd_state = fst (scheduled_status (sm_auth meta) (mo_modelKey m) now),
        sd_nextRetryAt = snd (scheduled_status (sm_auth meta) (mo_modelKey m) now)\<rparr> (mo_entries m)"
  by (simp add: upsertEntryLocked_def Let_def split: prod.splits option.splits)

lemma upsert_index_ok:
  assumes "index_ok m" "meta_ok meta"
  shows "index_ok (upsertEntryLocked meta now m)"
proof -
  let ?i = "auth_ID (sm_auth meta)"
  obtain st nx where st: "scheduled_status (sm_auth meta) (mo_modelKey m) now = (st, nx)" by fastforce
  let ?e = "\<lparr>sd_meta = meta, sd_auth = sm_auth meta, sd_state = st, sd_nextRetryAt = nx\<rparr>"
  have e: "entry_ok (?i, ?e)" using assms(2) by (simp add: entry_ok_def meta_ok_def)
  have r: "index_ok (rebuildIndexesLocked (m\<lparr>mo_entries := map_put ?i ?e (mo_entries m)\<rparr>))"
    using assms(1) entries_ok_put [OF _ e] by (intro rebuild_index_ok) (simp add: index_ok_def)
  show ?thesis
    using r index_ok_same [OF assms(1) _ e] by (auto simp: upsertEntryLocked_def st Let_def split: option.splits)
qed

lemma remove_index_ok: "index_ok m \<Longrightarrow> index_ok (removeEntryLocked i m)"
proof -
  assume m: "index_ok m"
  then have "entries_ok (map_del i (mo_entries m))"
    by (auto simp: index_ok_def entries_ok_def list_all_iff set_map_del distinct_delete)
  with m show ?thesis by (simp add: removeEntryLocked_def rebuild_index_ok)
qed

section \<open>Agreement with the availability of credentials\<close>

abbreviation blocked_at :: "Auth \<Rightarrow> string \<Rightarrow> gotime \<Rightarrow> bool" where
  "blocked_at a key t \<equiv> fst (isAuthBlockedForModel (Some a) key t)"

text \<open>An entry recorded at some time predicts the availability of its credential from then on, until its
  retry time: ready stays available, and a waiting entry is blocked until its retry time, for ever
  when it has none.\<close>

definition predicts :: "string \<Rightarrow> gotime \<Rightarrow> scheduledAuth \<Rightarrow> bool" where
  "predicts key t e \<longleftrightarrow>
     (\<forall>now\<ge>t. (sd_state e = scheduledStateReady \<longrightarrow> \<not> blocked_at (sd_auth e) key now) \<and>
        (sd_state e \<noteq> scheduledStateReady \<longrightarrow> sd_nextRetryAt e = 0 \<or> now < sd_nextRetryAt e \<longrightarrow>
           blocked_at (sd_auth e) key now)) \<and>
     (sd_state e = scheduledStateReady \<or> sd_state e = scheduledStateDisabled \<longrightarrow> sd_nextRetryAt e = 0)"

lemma predicts_later: "predicts key t e \<Longrightarrow> t \<le> t' \<Longrightarrow> predicts key t' e"
  by (simp add: predicts_def)

lemma blocked_next:
  assumes "0 \<le> now" "blocked_at a key now" "snd (snd (isAuthBlockedForModel (Some a) key now)) = n"
  shows "n = 0 \<Longrightarrow> now \<le> t \<Longrightarrow> blocked_at a key t"
    and "n \<noteq> 0 \<Longrightarrow> now < n"
    and "n \<noteq> 0 \<Longrightarrow> now \<le> t \<Longrightarrow> t < n \<Longrightarrow> blocked_at a key t"
proof -
  note b = isAuthBlocked_cases(1)
  have bl: "blocked_forever a key \<or> now < blocked_until a key" using b assms(1,2) by blast
  have u: "blocked_until a key = max (credential_until a) (model_until a key)" by (simp add: blocked_until_def)
  have "(n = 0 \<and> blocked_forever a key) \<or> (now < n \<and> (n = credential_until a \<or> n = model_until a key))"
  proof (cases "auth_Disabled a \<or> auth_Status a = StatusDisabled")
    case True
    then show ?thesis using assms(3) by (auto simp: isAuthBlockedForModel_def blocked_forever_def)
  next
    case False
    then have "n = (if now < credential_until a then credential_until a
        else if blocked_forever a key then 0 else if now < model_until a key then model_until a key else 0)"
      using isAuthBlocked_cases(2) [OF assms(1), of a key] assms(3) by simp
    with bl u show ?thesis by (simp add: less_max_iff_disj split: if_splits)
  qed
  then show "n = 0 \<Longrightarrow> now \<le> t \<Longrightarrow> blocked_at a key t" "n \<noteq> 0 \<Longrightarrow> now < n"
    and "n \<noteq> 0 \<Longrightarrow> now \<le> t \<Longrightarrow> t < n \<Longrightarrow> blocked_at a key t"
    using b [of t a key] u assms(1) by auto
qed

lemma availability_reason: "fst (snd (availabilityBlock u q r c now)) \<noteq> blockReasonDisabled"
  by (simp add: availabilityBlock_def Let_def)

lemma states_disabled_reason:
  "fst (snd acc) \<noteq> blockReasonDisabled \<Longrightarrow>
     fst (snd (model_states_block mk now states matched acc)) = blockReasonDisabled \<Longrightarrow>
     snd (snd (model_states_block mk now states matched acc)) = 0"
proof (induction states arbitrary: matched acc)
  case (Cons x states)
  obtain k os where x: "x = (k, os)" by (cases x)
  show ?case
  proof (cases os)
    case (Some st)
    obtain b r n where sb: "state_block st now = (b, r, n)" by (cases "state_block st now") auto
    have r: "r \<noteq> blockReasonDisabled"
      using availability_reason [where now = now] sb by (metis fst_conv snd_conv state_block_def)
    obtain b' r' n' where acc: "acc = (b', r', n')" by (cases acc) auto
    show ?thesis
      using Cons.prems Cons.IH [of acc True] Cons.IH [of acc matched] Cons.IH [of "(True, r, n)" True] r
      by (cases b') (auto simp: x Some sb acc split: if_splits)
  qed (use Cons x in simp)
qed (auto split: if_splits)

lemma disabled_reason:
  assumes "isAuthBlockedForModel (Some a) key now = (b, blockReasonDisabled, n)"
  shows "n = 0"
proof -
  let ?b = "model_states_block (canonicalModelKey key) now (auth_ModelStates a) False (False, blockReasonNone, zero_time)"
  have "fst (snd ?b) = blockReasonDisabled \<Longrightarrow> snd (snd ?b) = 0" by (rule states_disabled_reason) simp_all
  moreover have "fst (snd (auth_block a now)) \<noteq> blockReasonDisabled"
    by (simp add: auth_block_def availability_reason)
  ultimately show ?thesis using assms by (auto simp: isAuthBlockedForModel_def split: if_splits)
qed

lemma status_predicts:
  assumes "0 \<le> now" "scheduled_status a key now = (st, nx)"
    and "sd_state e = st" "sd_nextRetryAt e = nx" "sd_auth e = a"
  shows "predicts key now e" "nx = 0 \<or> now < nx"
proof -
  obtain b r n where i: "isAuthBlockedForModel (Some a) key now = (b, r, n)" by (cases "isAuthBlockedForModel (Some a) key now") auto
  have bn: "b \<Longrightarrow> snd (snd (isAuthBlockedForModel (Some a) key now)) = n" "b \<Longrightarrow> blocked_at a key now" using i by simp_all
  have s: "(\<not> b \<and> st = scheduledStateReady \<and> nx = 0) \<or>
      (b \<and> st \<noteq> scheduledStateReady \<and> nx = n \<and> (st = scheduledStateDisabled \<longrightarrow> n = 0))"
    using assms(2) i disabled_reason [of a key now b n] by (auto simp: scheduled_status_def split: if_splits)
  show "nx = 0 \<or> now < nx" using s blocked_next(2) [OF assms(1) bn(2,1)] by auto
  show "predicts key now e"
  proof (cases b)
    case True
    with s blocked_next(1,3) [OF assms(1) bn(2,1)] show ?thesis
      unfolding predicts_def assms(3-5) by auto
  next
    case False
    then have "\<not> blocked_at a key now" using i by simp
    from unblocked_later [OF assms(1) _ this] s False show ?thesis unfolding predicts_def assms(3-5) by auto
  qed
qed

definition shard_ok :: "gotime \<Rightarrow> modelScheduler \<Rightarrow> bool" where
  "shard_ok t m \<longleftrightarrow> index_ok m \<and> (\<forall>i e. map_of (mo_entries m) i = Some e \<longrightarrow> predicts (mo_modelKey m) t e)"

lemma shard_ok_later: "shard_ok t m \<Longrightarrow> t \<le> t' \<Longrightarrow> shard_ok t' m"
  unfolding shard_ok_def using predicts_later by blast

lemma shard_ok_empty: "shard_ok t (empty_shard key)"
  by (simp add: shard_ok_def index_ok_def empty_shard_def entries_ok_def bucket_ok_def ready_ids_def)

lemma upsert_shard_ok:
  assumes "shard_ok t m" "meta_ok meta" "0 \<le> now" "t \<le> now"
  shows "shard_ok now (upsertEntryLocked meta now m)"
proof -
  obtain st nx where st: "scheduled_status (sm_auth meta) (mo_modelKey m) now = (st, nx)" by fastforce
  let ?e = "\<lparr>sd_meta = meta, sd_auth = sm_auth meta, sd_state = st, sd_nextRetryAt = nx\<rparr>"
  have "predicts (mo_modelKey m) now ?e" by (rule status_predicts(1) [OF assms(3) st]) simp_all
  with shard_ok_later [OF assms(1,4)] upsert_index_ok [OF _ assms(2), of m now]
  show ?thesis by (auto simp: shard_ok_def upsert_entries st update_conv' split: if_splits)
qed

lemma remove_entries:
  "map_of (mo_entries (removeEntryLocked i m)) j = (if j = i \<and> i \<noteq> [] then None else map_of (mo_entries m) j)"
  by (auto simp: removeEntryLocked_def delete_conv' has_key_def)

lemma remove_key [simp]: "mo_modelKey (removeEntryLocked i m) = mo_modelKey m"
  by (simp add: removeEntryLocked_def)

lemma remove_shard_ok: "shard_ok t m \<Longrightarrow> shard_ok t (removeEntryLocked i m)"
  by (auto simp: shard_ok_def remove_index_ok remove_entries split: if_splits)

section \<open>Promotion\<close>

definition promoted :: "string \<Rightarrow> gotime \<Rightarrow> scheduledAuth \<Rightarrow> scheduledAuth" where
  "promoted key now e =
     (if sd_nextRetryAt e = 0 \<or> now < sd_nextRetryAt e then e
      else e\<lparr>sd_state := fst (scheduled_status (sd_auth e) key now),
             sd_nextRetryAt := snd (scheduled_status (sd_auth e) key now)\<rparr>)"

lemma promoted_auth [simp]: "sd_auth (promoted key now e) = sd_auth e" "sd_meta (promoted key now e) = sd_meta e"
  by (simp_all add: promoted_def)

lemma promoted_next: "0 \<le> now \<Longrightarrow> sd_nextRetryAt (promoted key now e) = 0 \<or> now < sd_nextRetryAt (promoted key now e)"
  using status_predicts(2) [of now "sd_auth e" key _ _ "promoted key now e"]
  by (cases "scheduled_status (sd_auth e) key now") (auto simp: promoted_def)

lemma promoted_idem [simp]: "0 \<le> now \<Longrightarrow> promoted key now (promoted key now e) = promoted key now e"
  using promoted_next [of now key e] by (simp add: promoted_def [of key now "promoted key now e"])

lemma promote_loop_changed: "promote_loop key now q E True = (E', ch') \<Longrightarrow> ch'"
  by (induction q arbitrary: E) (auto split: option.splits if_splits prod.splits)

lemma promote_loop_spec:
  assumes "0 \<le> now" "entries_ok E" "promote_loop key now q E ch = (E', ch')"
  shows "entries_ok E' \<and> (ch' \<or> E' = E) \<and>
    (\<forall>i. map_of E' i = (if i \<in> set q then map_option (promoted key now) (map_of E i) else map_of E i))"
  using assms(2,3)
proof (induction q arbitrary: E ch)
  case (Cons a q)
  show ?case
  proof (cases "map_of E a")
    case None
    with Cons.prems(2) have "promote_loop key now q E ch = (E', ch')" by simp
    from Cons.IH [OF Cons.prems(1) this] None show ?thesis by simp
  next
    case (Some e)
    show ?thesis
    proof (cases "sd_nextRetryAt e = 0 \<or> now < sd_nextRetryAt e")
      case True
      then have "promoted key now e = e" by (simp add: promoted_def)
      with Cons.IH [OF Cons.prems(1), of ch] Cons.prems(2) Some True show ?thesis by auto
    next
      case False
      let ?E = "map_put a (promoted key now e) E"
      have l: "promote_loop key now q ?E True = (E', ch')"
        using Cons.prems(2) Some False by (auto simp: promoted_def split: prod.splits)
      have "entry_ok (a, e)"
        using Cons.prems(1) Some map_of_SomeD [OF Some] by (auto simp: entries_ok_def list_all_iff)
      then have "entries_ok ?E" by (intro entries_ok_put [OF Cons.prems(1)]) (simp add: entry_ok_def)
      from Cons.IH [OF this l] have ih: "entries_ok E'" "ch' \<or> E' = ?E"
        "\<forall>i. map_of E' i = (if i \<in> set q then map_option (promoted key now) (map_of ?E i) else map_of ?E i)"
        by blast+
      from promote_loop_changed [OF l] ih Some assms(1) show ?thesis by (auto simp: update_conv')
    qed
  qed
qed simp

lemma promote_key [simp]: "mo_modelKey (promoteExpiredLocked now m) = mo_modelKey m"
  by (simp add: promoteExpiredLocked_def Let_def split: prod.splits)

lemma waiting_ids:
  assumes "index_ok m" "map_of (mo_entries m) i = Some e"
  shows "i \<in> set (mo_blocked m) \<longleftrightarrow> is_waiting (i, e)"
proof -
  have "wf_map (mo_entries m)" using assms(1) by (simp add: index_ok_def entries_ok_def)
  then have "(i, e') \<in> set (mo_entries m) \<longleftrightarrow> e' = e" for e'
    using assms(2) wf_map_in_set [of "mo_entries m" i e'] by auto
  then have "i \<in> fst ` set (filter is_waiting (mo_entries m)) \<longleftrightarrow> is_waiting (i, e)" by force
  then show ?thesis using assms(1) by (simp add: index_ok_def)
qed

text \<open>After a promotion every entry is classified as its credential is at that time.\<close>

lemma promote_spec:
  assumes ok: "shard_ok t m" and t: "0 \<le> now" "t \<le> now"
  shows "shard_ok now (promoteExpiredLocked now m)"
    and "map_of (mo_entries (promoteExpiredLocked now m)) i = map_option (promoted (mo_modelKey m) now) (map_of (mo_entries m) i)"
    and "map_of (mo_entries (promoteExpiredLocked now m)) i = Some e \<Longrightarrow>
      sd_state e = scheduledStateReady \<longleftrightarrow> \<not> blocked_at (sd_auth e) (mo_modelKey m) now"
proof -
  let ?key = "mo_modelKey m" and ?m = "promoteExpiredLocked now m"
  have idx: "index_ok m" and pr: "\<And>i e. map_of (mo_entries m) i = Some e \<Longrightarrow> predicts ?key now e"
    using shard_ok_later [OF ok t(2)] by (auto simp: shard_ok_def)
  obtain E ch where l: "promote_loop ?key now (mo_blocked m) (mo_entries m) False = (E, ch)" by fastforce
  from promote_loop_spec [OF t(1) _ l] idx have sp: "entries_ok E" "ch \<or> E = mo_entries m"
    "\<forall>i. map_of E i = (if i \<in> set (mo_blocked m) then map_option (promoted ?key now) (map_of (mo_entries m) i)
        else map_of (mo_entries m) i)" by (simp_all add: index_ok_def)
  have nw: "promoted ?key now e = e" if "map_of (mo_entries m) i = Some e" "i \<notin> set (mo_blocked m)" for i e
  proof -
    have "\<not> is_waiting (i, e)" using waiting_ids [OF idx that(1)] that(2) by simp
    then have "sd_nextRetryAt e = 0"
      using pr [OF that(1)] by (cases "sd_state e") (auto simp: predicts_def is_waiting_def)
    then show ?thesis by (simp add: promoted_def)
  qed
  have e: "mo_entries ?m = (if mo_blocked m = [] then mo_entries m else E)"
    by (simp add: promoteExpiredLocked_def l Let_def)
  show lk: "map_of (mo_entries ?m) i = map_option (promoted ?key now) (map_of (mo_entries m) i)" for i
    using sp(3) nw [of i] by (cases "map_of (mo_entries m) i") (auto simp: e)
  have "index_ok ?m"
    using idx sp(1,2) by (auto simp: promoteExpiredLocked_def l Let_def intro: rebuild_index_ok)
  moreover have pp: "predicts ?key now (promoted ?key now e)" if "map_of (mo_entries m) i = Some e" for i e
  proof (cases "sd_nextRetryAt e = 0 \<or> now < sd_nextRetryAt e")
    case True
    then show ?thesis using pr [OF that] by (simp add: promoted_def)
  next
    case False
    then show ?thesis by (intro status_predicts(1) [OF t(1), of "sd_auth e"]) (auto simp: promoted_def)
  qed
  ultimately show "shard_ok now ?m" by (auto simp: shard_ok_def lk)
  show "sd_state e = scheduledStateReady \<longleftrightarrow> \<not> blocked_at (sd_auth e) ?key now" if a: "map_of (mo_entries ?m) i = Some e"
  proof -
    obtain e0 where e0: "map_of (mo_entries m) i = Some e0" "e = promoted ?key now e0" using a lk [of i] by (cases "map_of (mo_entries m) i") auto
    with pp [OF e0(1)] promoted_next [OF t(1), of ?key e0] show ?thesis by (auto simp: predicts_def)
  qed
qed

section \<open>Picking from the indexes\<close>

lemma first_priority_spec:
  assumes "sorted (rev ps)"
  shows "case first_priority ok ready ps of
      None \<Rightarrow> \<forall>p\<in>set ps. \<forall>b. map_of ready p = Some b \<longrightarrow> \<not> ok b
    | Some p \<Rightarrow> (\<exists>b. map_of ready p = Some b \<and> ok b) \<and> (\<forall>q\<in>set ps. \<forall>b. map_of ready q = Some b \<longrightarrow> ok b \<longrightarrow> q \<le> p)"
  using assms
proof (induction ps)
  case (Cons p ps)
  then have ih: "case first_priority ok ready ps of
      None \<Rightarrow> \<forall>p\<in>set ps. \<forall>b. map_of ready p = Some b \<longrightarrow> \<not> ok b
    | Some p \<Rightarrow> (\<exists>b. map_of ready p = Some b \<and> ok b) \<and> (\<forall>q\<in>set ps. \<forall>b. map_of ready q = Some b \<longrightarrow> ok b \<longrightarrow> q \<le> p)"
    and le: "\<forall>q\<in>set ps. q \<le> p" by (auto simp: sorted_append)
  show ?case
  proof (cases "\<exists>b. map_of ready p = Some b \<and> ok b")
    case True
    with le show ?thesis by auto
  next
    case False
    then have "first_priority ok ready (p # ps) = first_priority ok ready ps" by (auto split: option.splits)
    with ih False show ?thesis by (auto split: option.splits)
  qed
qed simp

abbreviation accepted_ids :: "modelScheduler \<Rightarrow> predicate \<Rightarrow> int \<Rightarrow> string list" where
  "accepted_ids m pred p \<equiv> filter (entry_satisfies (mo_entries m) pred) (ready_ids (mo_entries m) p)"

lemma pickFirst_find: "pickFirst P v \<noteq> None \<longleftrightarrow> filter P (rv_flat v) \<noteq> []" "filter P (rv_flat v) \<noteq> [] \<Longrightarrow> pickFirst P v = Some (hd (filter P (rv_flat v)))"
proof -
  have "List.find P l = (case filter P l of [] \<Rightarrow> None | x # _ \<Rightarrow> Some x)" for l by (induction l) auto
  then show "pickFirst P v \<noteq> None \<longleftrightarrow> filter P (rv_flat v) \<noteq> []" "filter P (rv_flat v) \<noteq> [] \<Longrightarrow> pickFirst P v = Some (hd (filter P (rv_flat v)))"
    by (auto simp: pickFirst_def split: list.splits)
qed

lemma highest_ready_spec:
  assumes "index_ok m"
  shows "case highestReadyPriorityLocked False pred m of
      None \<Rightarrow> \<forall>p. accepted_ids m pred p = []
    | Some p \<Rightarrow> accepted_ids m pred p \<noteq> [] \<and> (\<forall>q. accepted_ids m pred q \<noteq> [] \<longrightarrow> q \<le> p)"
proof -
  let ?R = "mo_readyByPriority m" and ?P = "entry_satisfies (mo_entries m) pred"
  let ?ok = "\<lambda>b. pickFirst ?P (rb_all b) \<noteq> None"
  have srt: "sorted (rev (mo_priorityOrder m))" and ps: "set (mo_priorityOrder m) = fst ` set ?R"
    using assms by (simp_all add: index_ok_def)
  have b: "accepted_ids m pred p \<noteq> [] \<longleftrightarrow> (\<exists>b. map_of ?R p = Some b \<and> ?ok b)" for p
  proof -
    have "bucket_ok (mo_entries m) p (map_of ?R p)" using assms by (simp add: index_ok_def)
    then show ?thesis unfolding pickFirst_find(1) by (cases "map_of ?R p") (auto simp: bucket_ok_def)
  qed
  have mem: "map_of ?R p = Some b \<Longrightarrow> p \<in> set (mo_priorityOrder m)" for p b
    unfolding ps by (metis fst_conv image_eqI map_of_SomeD)
  have h: "highestReadyPriorityLocked False pred m = first_priority ?ok ?R (mo_priorityOrder m)"
    by (simp add: highestReadyPriorityLocked_def Let_def)
  note sp = first_priority_spec [where ok = ?ok and ready = ?R, OF srt]
  show ?thesis
  proof (cases "first_priority ?ok ?R (mo_priorityOrder m)")
    case None
    with sp have "\<forall>p\<in>set (mo_priorityOrder m). \<forall>b. map_of ?R p = Some b \<longrightarrow> \<not> ?ok b" by simp
    with mem b have "accepted_ids m pred p = []" for p by blast
    then show ?thesis unfolding h None by simp
  next
    case (Some p)
    with sp have "\<exists>b. map_of ?R p = Some b \<and> ?ok b" "\<forall>q\<in>set (mo_priorityOrder m). \<forall>b. map_of ?R q = Some b \<longrightarrow> ?ok b \<longrightarrow> q \<le> p"
      by simp_all
    with mem b have "accepted_ids m pred p \<noteq> []" "\<forall>q. accepted_ids m pred q \<noteq> [] \<longrightarrow> q \<le> p" by blast+
    then show ?thesis unfolding h Some by simp
  qed
qed

lemma view_pick_spec:
  assumes "distinct (rv_flat v)" "cursor_ok v"
    and "strategy = schedulerStrategyWeightedRoundRobin \<Longrightarrow> \<forall>e. pred e \<longrightarrow> 0 < sm_weight (sd_meta e)"
  shows "case fst (view_pick strategy E pred v) of
      None \<Rightarrow> filter (entry_satisfies E pred) (rv_flat v) = []
    | Some i \<Rightarrow> i \<in> set (filter (entry_satisfies E pred) (rv_flat v)) \<and>
        (strategy = schedulerStrategyFillFirst \<longrightarrow> i = hd (filter (entry_satisfies E pred) (rv_flat v)))"
    and "rv_flat (snd (view_pick strategy E pred v)) = rv_flat v \<and> cursor_ok (snd (view_pick strategy E pred v))"
proof -
  let ?P = "entry_satisfies E pred"
  have rr: "case fst (pickRoundRobin ?P v) of None \<Rightarrow> filter ?P (rv_flat v) = [] | Some i \<Rightarrow> i \<in> set (filter ?P (rv_flat v))"
  proof (cases "filter ?P (rv_flat v) = []")
    case True
    then show ?thesis using pickRoundRobin_none [OF True assms(2)] by simp
  next
    case False
    from pickRoundRobin_next [OF assms(2) False] obtain i where "i < length (rv_flat v)" "?P (rv_flat v ! i)"
      "fst (pickRoundRobin ?P v) = Some (rv_flat v ! i)" by auto
    then show ?thesis by simp
  qed
  have ff: "case pickFirst ?P v of None \<Rightarrow> filter ?P (rv_flat v) = []
      | Some i \<Rightarrow> i \<in> set (filter ?P (rv_flat v)) \<and> i = hd (filter ?P (rv_flat v))"
  proof (cases "filter ?P (rv_flat v) = []")
    case True
    then have "pickFirst ?P v = None" using pickFirst_find(1) [of ?P v] by auto
    with True show ?thesis by simp
  next
    case False
    then show ?thesis using pickFirst_find(2) [OF False] hd_in_set [OF False] by simp
  qed
  have w: "case fst (pickWeighted (entry_weight E) ?P v) of None \<Rightarrow> filter ?P (rv_flat v) = [] | Some i \<Rightarrow> i \<in> set (filter ?P (rv_flat v))"
    if "\<forall>e. pred e \<longrightarrow> 0 < sm_weight (sd_meta e)"
  proof -
    have "weighted_ids (entry_weight E) ?P (rv_flat v) = filter ?P (rv_flat v)"
      using that by (intro filter_cong [OF refl]) (auto simp: entry_satisfies_def entry_weight_def split: option.splits)
    with weighted_rotation_picked [OF assms(1), of "entry_weight E" ?P "rv_weightedState v"] show ?thesis
      by (auto simp: pickWeighted_def split: prod.splits option.splits)
  qed
  show "case fst (view_pick strategy E pred v) of
      None \<Rightarrow> filter ?P (rv_flat v) = []
    | Some i \<Rightarrow> i \<in> set (filter ?P (rv_flat v)) \<and> (strategy = schedulerStrategyFillFirst \<longrightarrow> i = hd (filter ?P (rv_flat v)))"
    using rr ff w assms(3) by (cases strategy) (auto simp: view_pick_def Let_def split: option.splits)
  show "rv_flat (snd (view_pick strategy E pred v)) = rv_flat v \<and> cursor_ok (snd (view_pick strategy E pred v))"
    using pickRoundRobin_cursor [OF assms(2), of ?P] assms(2)
    by (cases strategy) (auto simp: view_pick_def Let_def pickWeighted_def cursor_ok_def split: prod.splits)
qed

lemma index_ok_views:
  assumes "index_ok m" "map_of (mo_readyByPriority m) p = Some b"
    and "rv_flat (rb_all b') = rv_flat (rb_all b)" "rv_flat (rb_ws b') = rv_flat (rb_ws b)"
    and "cursor_ok (rb_all b')" "cursor_ok (rb_ws b')"
  shows "index_ok (m\<lparr>mo_readyByPriority := map_put p b' (mo_readyByPriority m)\<rparr>)"
proof -
  let ?R = "mo_readyByPriority m"
  have "map fst (map_put p b' R) = map fst R" if "map_of R p = Some b" for R
    using that by (induction R) (auto split: if_splits)
  from this [OF assms(2)] have k: "map fst (map_put p b' ?R) = map fst ?R" .
  have "bucket_ok (mo_entries m) q (map_of (map_put p b' ?R) q)" for q
    using assms by (auto simp: index_ok_def bucket_ok_def update_conv' split: option.splits)
  then show ?thesis using assms(1) k by (simp add: index_ok_def)
qed

lemma pick_at_priority_spec:
  assumes ok: "index_ok m"
    and w: "strategy = schedulerStrategyWeightedRoundRobin \<Longrightarrow> \<forall>e. pred e \<longrightarrow> 0 < sm_weight (sd_meta e)"
    and p: "pickReadyAtPriorityLocked ws p strategy pred m = (r, m')"
  shows "index_ok m'" "mo_entries m' = mo_entries m" "mo_modelKey m' = mo_modelKey m"
    and "case r of None \<Rightarrow> accepted_ids m pred p = []
      | Some a \<Rightarrow> \<exists>i\<in>set (accepted_ids m pred p). entry_auth (mo_entries m) i = Some a \<and>
          (strategy = schedulerStrategyFillFirst \<and> \<not> ws \<longrightarrow> i = hd (accepted_ids m pred p))"
proof -
  let ?E = "mo_entries m" and ?P = "entry_satisfies (mo_entries m) pred"
  have wf: "wf_map ?E" using ok by (simp add: index_ok_def entries_ok_def)
  have b: "bucket_ok ?E p (map_of (mo_readyByPriority m) p)" using ok by (simp add: index_ok_def)
  have au: "?P i \<Longrightarrow> \<exists>a. entry_auth ?E i = Some a" for i
    by (auto simp: entry_satisfies_def entry_auth_def split: option.splits)
  have "index_ok m' \<and> mo_entries m' = ?E \<and> mo_modelKey m' = mo_modelKey m \<and>
    (case r of None \<Rightarrow> accepted_ids m pred p = []
      | Some a \<Rightarrow> \<exists>i\<in>set (accepted_ids m pred p). entry_auth ?E i = Some a \<and>
          (strategy = schedulerStrategyFillFirst \<and> \<not> ws \<longrightarrow> i = hd (accepted_ids m pred p)))"
  proof (cases "map_of (mo_readyByPriority m) p")
    case None
    with p b ok show ?thesis by (auto simp: pickReadyAtPriorityLocked_def bucket_ok_def)
  next
    case (Some bk)
    have bk: "rv_flat (rb_all bk) = ready_ids ?E p" "rv_flat (rb_ws bk) = filter (ws_entry ?E) (ready_ids ?E p)"
      "cursor_ok (rb_all bk)" "cursor_ok (rb_ws bk)" using b Some by (simp_all add: bucket_ok_def)
    have d: "distinct (rv_flat (rb_all bk))" "distinct (rv_flat (rb_ws bk))"
      using distinct_ready_ids [OF wf] bk by simp_all
    show ?thesis
    proof (cases "uses_ws ws ?E pred bk")
      case True
      obtain q v where v: "view_pick strategy ?E pred (rb_ws bk) = (q, v)" by fastforce
      note sp = view_pick_spec [where strategy = strategy and pred = pred and E = ?E, OF d(2) bk(4) w, unfolded v fst_conv snd_conv]
      have m': "m' = m\<lparr>mo_readyByPriority := map_put p (bk\<lparr>rb_ws := v\<rparr>) (mo_readyByPriority m)\<rparr>"
        and r: "r = (case q of None \<Rightarrow> None | Some i \<Rightarrow> entry_auth ?E i)"
        using p Some True v by (simp_all add: pickReadyAtPriorityLocked_def)
      have ne: "filter ?P (rv_flat (rb_ws bk)) \<noteq> []" "ws"
        using True pickFirst_find(1) [of ?P "rb_ws bk"] by (simp_all add: uses_ws_def)
      have "index_ok m'" unfolding m' using sp(2) bk by (intro index_ok_views [OF ok Some]) auto
      moreover obtain i where i: "i \<in> set (accepted_ids m pred p)" "r = entry_auth ?E i"
        using sp(1) ne(1) bk(2) r by (auto split: option.splits)
      moreover from i(1) obtain a where "entry_auth ?E i = Some a" using au [of i] by auto
      ultimately show ?thesis using m' ne(2) by auto
    next
      case False
      obtain q v where v: "view_pick strategy ?E pred (rb_all bk) = (q, v)" by fastforce
      note sp = view_pick_spec [where strategy = strategy and pred = pred and E = ?E, OF d(1) bk(3) w, unfolded v fst_conv snd_conv]
      have m': "m' = m\<lparr>mo_readyByPriority := map_put p (bk\<lparr>rb_all := v\<rparr>) (mo_readyByPriority m)\<rparr>"
        and r: "r = (case q of None \<Rightarrow> None | Some i \<Rightarrow> entry_auth ?E i)"
        using p Some False v by (simp_all add: pickReadyAtPriorityLocked_def)
      have "index_ok m'" unfolding m' using sp(2) bk by (intro index_ok_views [OF ok Some]) auto
      moreover have "case r of None \<Rightarrow> accepted_ids m pred p = []
        | Some a \<Rightarrow> \<exists>i\<in>set (accepted_ids m pred p). entry_auth ?E i = Some a \<and>
          (strategy = schedulerStrategyFillFirst \<and> \<not> ws \<longrightarrow> i = hd (accepted_ids m pred p))"
      proof (cases q)
        case None
        with sp(1) bk(1) r show ?thesis by simp
      next
        case (Some i)
        with sp(1) bk(1) have i: "i \<in> set (accepted_ids m pred p)"
          "strategy = schedulerStrategyFillFirst \<longrightarrow> i = hd (accepted_ids m pred p)" by simp_all
        then obtain a where "entry_auth ?E i = Some a" using au [of i] by auto
        with i r Some show ?thesis by auto
      qed
      ultimately show ?thesis using m' by simp
    qed
  qed
  then show "index_ok m'" "mo_entries m' = mo_entries m" "mo_modelKey m' = mo_modelKey m"
    and "case r of None \<Rightarrow> accepted_ids m pred p = []
      | Some a \<Rightarrow> \<exists>i\<in>set (accepted_ids m pred p). entry_auth (mo_entries m) i = Some a \<and>
          (strategy = schedulerStrategyFillFirst \<and> \<not> ws \<longrightarrow> i = hd (accepted_ids m pred p))" by blast+
qed

lemma highest_ready_any:
  assumes "index_ok m"
  shows "case highestReadyPriorityLocked ws pred m of
      None \<Rightarrow> \<forall>p. accepted_ids m pred p = [] | Some p \<Rightarrow> accepted_ids m pred p \<noteq> []"
proof -
  let ?R = "mo_readyByPriority m" and ?P = "entry_satisfies (mo_entries m) pred"
  let ?ok = "\<lambda>b. pickFirst ?P (rb_ws b) \<noteq> None"
  have srt: "sorted (rev (mo_priorityOrder m))" using assms by (simp add: index_ok_def)
  note all = highest_ready_spec [OF assms, of pred]
  have "case first_priority ?ok ?R (mo_priorityOrder m) of None \<Rightarrow> True | Some p \<Rightarrow> accepted_ids m pred p \<noteq> []"
  proof (cases "first_priority ?ok ?R (mo_priorityOrder m)")
    case (Some p)
    with first_priority_spec [where ok = ?ok and ready = ?R, OF srt] obtain b where
      b: "map_of ?R p = Some b" "filter ?P (rv_flat (rb_ws b)) \<noteq> []" unfolding pickFirst_find(1) by auto
    have "bucket_ok (mo_entries m) p (map_of ?R p)" using assms by (simp add: index_ok_def)
    then have "rv_flat (rb_ws b) = filter (ws_entry (mo_entries m)) (ready_ids (mo_entries m) p)"
      using b(1) by (simp add: bucket_ok_def)
    with b(2) Some show ?thesis by (auto simp: filter_empty_conv)
  qed simp
  moreover have "highestReadyPriorityLocked ws pred m =
      (if ws then case first_priority ?ok ?R (mo_priorityOrder m) of Some p \<Rightarrow> Some p
         | None \<Rightarrow> highestReadyPriorityLocked False pred m else highestReadyPriorityLocked False pred m)"
    by (simp only: highestReadyPriorityLocked_def Let_def if_False)
  ultimately show ?thesis using all by (auto split: option.splits)
qed

text \<open>Filters that do not look at the scheduling state; those of the scheduler do not.\<close>

definition stable_filter :: "predicate \<Rightarrow> bool" where
  "stable_filter pred \<longleftrightarrow> (\<forall>e st nx. pred (e\<lparr>sd_state := st, sd_nextRetryAt := nx\<rparr>) = pred e)"

definition candidate :: "modelScheduler \<Rightarrow> predicate \<Rightarrow> gotime \<Rightarrow> string \<Rightarrow> scheduledAuth \<Rightarrow> bool" where
  "candidate m pred now i e \<longleftrightarrow>
     map_of (mo_entries m) i = Some e \<and> pred e \<and> \<not> blocked_at (sd_auth e) (mo_modelKey m) now"

lemma accepted_candidates:
  assumes "shard_ok t m" "0 \<le> now" "t \<le> now" "stable_filter pred"
  shows "i \<in> set (accepted_ids (promoteExpiredLocked now m) pred p) \<longleftrightarrow>
    (\<exists>e. candidate m pred now i e \<and> sm_priority (sd_meta e) = p)"
proof -
  let ?m = "promoteExpiredLocked now m"
  note sp = promote_spec [OF assms(1-3)]
  have wf: "wf_map (mo_entries ?m)" using sp(1) by (simp add: shard_ok_def index_ok_def entries_ok_def)
  have st: "pred (promoted key now e) = pred e" for key e
    using assms(4) by (simp add: stable_filter_def promoted_def)
  show ?thesis
  proof (cases "map_of (mo_entries m) i")
    case None
    then show ?thesis using sp(2) [of i] by (auto simp: set_ready_ids [OF wf] candidate_def)
  next
    case (Some e)
    then have e: "map_of (mo_entries ?m) i = Some (promoted (mo_modelKey m) now e)" using sp(2) [of i] by simp
    show ?thesis
      using sp(3) [OF e] Some e st by (auto simp: set_ready_ids [OF wf] candidate_def entry_satisfies_def)
  qed
qed

definition best_candidate :: "modelScheduler \<Rightarrow> predicate \<Rightarrow> gotime \<Rightarrow> string \<Rightarrow> scheduledAuth \<Rightarrow> bool" where
  "best_candidate m pred now i e \<longleftrightarrow> candidate m pred now i e \<and>
     (\<forall>j f. candidate m pred now j f \<longrightarrow> sm_priority (sd_meta f) \<le> sm_priority (sd_meta e))"

text \<open>A pick finds a candidate whenever there is one; without the websocket preference it is one of the
  highest priority, and with fill-first the one with the least ID among those.\<close>

lemma pick_ready_spec:
  assumes ok: "shard_ok t m" "0 \<le> now" "t \<le> now" and st: "stable_filter pred"
    and w: "strategy = schedulerStrategyWeightedRoundRobin \<Longrightarrow> \<forall>e. pred e \<longrightarrow> 0 < sm_weight (sd_meta e)"
    and p: "pickReadyLocked ws strategy pred now m = (r, m')"
  shows "shard_ok now m'" "mo_modelKey m' = mo_modelKey m" "mo_entries m' = mo_entries (promoteExpiredLocked now m)"
    and "case r of None \<Rightarrow> \<forall>i e. \<not> candidate m pred now i e
      | Some a \<Rightarrow> \<exists>i e. candidate m pred now i e \<and> a = sd_auth e \<and> (\<not> ws \<longrightarrow> best_candidate m pred now i e) \<and>
          (\<not> ws \<and> strategy = schedulerStrategyFillFirst \<longrightarrow> (\<forall>j f. best_candidate m pred now j f \<longrightarrow> i \<le> j))"
proof -
  let ?m = "promoteExpiredLocked now m"
  note sp = promote_spec [OF ok]
  note acc = accepted_candidates [OF ok st]
  have idx: "index_ok ?m" using sp(1) by (simp add: shard_ok_def)
  have "shard_ok now m' \<and> mo_modelKey m' = mo_modelKey m \<and> mo_entries m' = mo_entries ?m \<and>
    (case r of None \<Rightarrow> \<forall>i e. \<not> candidate m pred now i e
      | Some a \<Rightarrow> \<exists>i e. candidate m pred now i e \<and> a = sd_auth e \<and> (\<not> ws \<longrightarrow> best_candidate m pred now i e) \<and>
          (\<not> ws \<and> strategy = schedulerStrategyFillFirst \<longrightarrow> (\<forall>j f. best_candidate m pred now j f \<longrightarrow> i \<le> j)))"
  proof (cases "highestReadyPriorityLocked ws pred ?m")
    case None
    with highest_ready_any [OF idx, where ws = ws and pred = pred] have "accepted_ids ?m pred q = []" for q by simp
    with acc have "\<not> candidate m pred now i e" for i e by (metis empty_iff list.set(1))
    with None p sp(1) show ?thesis by (auto simp: pickReadyLocked_def Let_def)
  next
    case (Some q)
    from p Some have pk: "pickReadyAtPriorityLocked ws q strategy pred ?m = (r, m')"
      by (simp add: pickReadyLocked_def Let_def)
    note sp' = pick_at_priority_spec [OF idx w pk]
    have ne: "accepted_ids ?m pred q \<noteq> []" using highest_ready_any [OF idx, where ws = ws and pred = pred] Some by simp
    with sp'(4) obtain a i where a: "r = Some a" and i: "i \<in> set (accepted_ids ?m pred q)" "entry_auth (mo_entries ?m) i = Some a"
      "strategy = schedulerStrategyFillFirst \<and> \<not> ws \<longrightarrow> i = hd (accepted_ids ?m pred q)"
      by (cases r) auto
    from i(1) acc obtain e where e: "candidate m pred now i e" "sm_priority (sd_meta e) = q" by blast
    have ae: "a = sd_auth e" using e(1) sp(2) [of i] i(2) by (simp add: entry_auth_def candidate_def)
    have best: "\<not> ws \<Longrightarrow> best_candidate m pred now i e"
    proof -
      assume "\<not> ws"
      then have "\<forall>q'. accepted_ids ?m pred q' \<noteq> [] \<longrightarrow> q' \<le> q" using highest_ready_spec [OF idx, of pred] Some by simp
      moreover have "accepted_ids ?m pred (sm_priority (sd_meta f)) \<noteq> []" if "candidate m pred now j f" for j f
        using that acc by (metis empty_iff list.set(1))
      ultimately show ?thesis using e unfolding best_candidate_def by blast
    qed
    have "i \<le> j" if "\<not> ws" "strategy = schedulerStrategyFillFirst" "best_candidate m pred now j f" for j f
    proof -
      have "sm_priority (sd_meta f) = q"
        using that(3) best [OF that(1)] e unfolding best_candidate_def by (metis order_antisym)
      with that(3) acc have j: "j \<in> set (accepted_ids ?m pred q)" unfolding best_candidate_def by blast
      have "sorted (accepted_ids ?m pred q)" by (intro sorted_wrt_filter) (simp add: ready_ids_def)
      with ne j i(3) that(1,2) show ?thesis by (cases "accepted_ids ?m pred q") auto
    qed
    moreover have "shard_ok now m'" using sp(1) sp'(1-3) by (simp add: shard_ok_def)
    ultimately show ?thesis using a e(1) ae best sp'(2,3) by auto
  qed
  then show "shard_ok now m'" "mo_modelKey m' = mo_modelKey m" "mo_entries m' = mo_entries ?m"
    and "case r of None \<Rightarrow> \<forall>i e. \<not> candidate m pred now i e
      | Some a \<Rightarrow> \<exists>i e. candidate m pred now i e \<and> a = sd_auth e \<and> (\<not> ws \<longrightarrow> best_candidate m pred now i e) \<and>
          (\<not> ws \<and> strategy = schedulerStrategyFillFirst \<longrightarrow> (\<forall>j f. best_candidate m pred now j f \<longrightarrow> i \<le> j))"
    by blast+
qed

text \<open>What a pick is to return, among the credentials that are able to serve the request: with the websocket
  preference one that is enabled for websockets, if there is any, whatever the priority of the others; and of those
  that are left to choose from, one of the highest priority.\<close>

definition eligible_choice :: "bool \<Rightarrow> (scheduledAuthMeta \<Rightarrow> bool) \<Rightarrow> scheduledAuthMeta \<Rightarrow> bool" where
  "eligible_choice preferWebsocket able x \<longleftrightarrow>
     able x \<and> (preferWebsocket \<and> (\<exists>y. able y \<and> sm_websocketEnabled y) \<longrightarrow> sm_websocketEnabled x)"

definition top_choice :: "bool \<Rightarrow> (scheduledAuthMeta \<Rightarrow> bool) \<Rightarrow> scheduledAuthMeta \<Rightarrow> bool" where
  "top_choice preferWebsocket able x \<longleftrightarrow> eligible_choice preferWebsocket able x \<and>
     (\<forall>y. eligible_choice preferWebsocket able y \<longrightarrow> sm_priority y \<le> sm_priority x)"

lemma top_choice_plain: "top_choice False able x \<longleftrightarrow> able x \<and> (\<forall>y. able y \<longrightarrow> sm_priority y \<le> sm_priority x)"
  by (simp add: top_choice_def eligible_choice_def)

lemma top_choice_no_ws: "\<not> (\<exists>y. able y \<and> sm_websocketEnabled y) \<Longrightarrow> top_choice ws able x \<longleftrightarrow> top_choice False able x"
  by (auto simp: top_choice_def eligible_choice_def)

lemma top_choice_ws:
  "able x \<Longrightarrow> sm_websocketEnabled x \<Longrightarrow> (\<And>y. able y \<Longrightarrow> sm_websocketEnabled y \<Longrightarrow> sm_priority y \<le> sm_priority x) \<Longrightarrow>
    top_choice True able x"
  by (auto simp: top_choice_def eligible_choice_def)

abbreviation ws_ids :: "modelScheduler \<Rightarrow> predicate \<Rightarrow> int \<Rightarrow> string list" where
  "ws_ids m pred p \<equiv> filter (entry_satisfies (mo_entries m) pred) (filter (ws_entry (mo_entries m)) (ready_ids (mo_entries m) p))"

lemma ws_view:
  assumes "index_ok m"
  shows "ws_ids m pred p \<noteq> [] \<longleftrightarrow>
    (\<exists>b. map_of (mo_readyByPriority m) p = Some b \<and> pickFirst (entry_satisfies (mo_entries m) pred) (rb_ws b) \<noteq> None)"
proof -
  have "bucket_ok (mo_entries m) p (map_of (mo_readyByPriority m) p)" using assms by (simp add: index_ok_def)
  then show ?thesis unfolding pickFirst_find(1) by (cases "map_of (mo_readyByPriority m) p") (auto simp: bucket_ok_def)
qed

lemma highest_ws:
  assumes "index_ok m"
  shows "if \<exists>p. ws_ids m pred p \<noteq> []
    then \<exists>p. highestReadyPriorityLocked True pred m = Some p \<and> ws_ids m pred p \<noteq> [] \<and> (\<forall>q. ws_ids m pred q \<noteq> [] \<longrightarrow> q \<le> p)
    else highestReadyPriorityLocked True pred m = highestReadyPriorityLocked False pred m"
proof -
  let ?R = "mo_readyByPriority m" and ?P = "entry_satisfies (mo_entries m) pred"
  let ?ok = "\<lambda>b. pickFirst ?P (rb_ws b) \<noteq> None"
  have srt: "sorted (rev (mo_priorityOrder m))" and ps: "set (mo_priorityOrder m) = fst ` set ?R"
    using assms by (simp_all add: index_ok_def)
  have mem: "map_of ?R p = Some b \<Longrightarrow> p \<in> set (mo_priorityOrder m)" for p b
    unfolding ps by (metis fst_conv image_eqI map_of_SomeD)
  have h: "highestReadyPriorityLocked True pred m =
      (case first_priority ?ok ?R (mo_priorityOrder m) of Some p \<Rightarrow> Some p | None \<Rightarrow> highestReadyPriorityLocked False pred m)"
    by (simp only: highestReadyPriorityLocked_def Let_def if_False if_True)
  note sp = first_priority_spec [where ok = ?ok and ready = ?R, OF srt]
  show ?thesis
  proof (cases "first_priority ?ok ?R (mo_priorityOrder m)")
    case None
    with sp mem have "\<not> (\<exists>p. ws_ids m pred p \<noteq> [])" unfolding ws_view [OF assms] by fastforce
    then show ?thesis using h None by simp
  next
    case (Some p)
    with sp have "\<exists>b. map_of ?R p = Some b \<and> ?ok b" "\<forall>q\<in>set (mo_priorityOrder m). \<forall>b. map_of ?R q = Some b \<longrightarrow> ?ok b \<longrightarrow> q \<le> p"
      by simp_all
    with mem have "ws_ids m pred p \<noteq> [] \<and> (\<forall>q. ws_ids m pred q \<noteq> [] \<longrightarrow> q \<le> p)" unfolding ws_view [OF assms] by blast
    then show ?thesis using h Some by auto
  qed
qed

lemma pick_at_ws:
  assumes ok: "index_ok m"
    and w: "strategy = schedulerStrategyWeightedRoundRobin \<Longrightarrow> \<forall>e. pred e \<longrightarrow> 0 < sm_weight (sd_meta e)"
  shows "if ws_ids m pred p \<noteq> []
    then \<exists>i\<in>set (ws_ids m pred p). fst (pickReadyAtPriorityLocked True p strategy pred m) = entry_auth (mo_entries m) i
    else pickReadyAtPriorityLocked True p strategy pred m = pickReadyAtPriorityLocked False p strategy pred m"
proof (cases "map_of (mo_readyByPriority m) p")
  case None
  then show ?thesis using ws_view [OF ok, of pred p] by (simp add: pickReadyAtPriorityLocked_def)
next
  case (Some b)
  let ?E = "mo_entries m"
  have bk: "rv_flat (rb_ws b) = filter (ws_entry ?E) (ready_ids ?E p)" "cursor_ok (rb_ws b)"
    using ok Some by (auto simp: index_ok_def bucket_ok_def dest: spec [of _ p])
  have d: "distinct (rv_flat (rb_ws b))"
    using distinct_ready_ids [of ?E p] ok bk(1) by (simp add: index_ok_def entries_ok_def)
  show ?thesis
  proof (cases "ws_ids m pred p = []")
    case True
    then have "uses_ws True ?E pred b = uses_ws False ?E pred b"
      using ws_view [OF ok, of pred p] Some by (auto simp: uses_ws_def)
    then show ?thesis using True by (simp add: pickReadyAtPriorityLocked_def Some)
  next
    case False
    then have u: "uses_ws True ?E pred b" using ws_view [OF ok, of pred p] Some by (auto simp: uses_ws_def)
    obtain q v where v: "view_pick strategy ?E pred (rb_ws b) = (q, v)" by fastforce
    note sp = view_pick_spec(1) [where strategy = strategy and pred = pred and E = ?E, OF d bk(2) w, unfolded v fst_conv]
    then obtain i where "q = Some i" "i \<in> set (ws_ids m pred p)"
      using False by (cases q) (simp_all add: bk(1))
    then show ?thesis using False Some u v by (auto simp: pickReadyAtPriorityLocked_def)
  qed
qed

lemma ws_candidates:
  assumes "shard_ok t m" "0 \<le> now" "t \<le> now" "stable_filter pred"
  shows "i \<in> set (ws_ids (promoteExpiredLocked now m) pred p) \<longleftrightarrow>
    (\<exists>e. candidate m pred now i e \<and> sm_priority (sd_meta e) = p \<and> sm_websocketEnabled (sd_meta e))"
proof -
  let ?m = "promoteExpiredLocked now m"
  have "ws_entry (mo_entries ?m) i \<longleftrightarrow> sm_websocketEnabled (sd_meta e)" if "map_of (mo_entries m) i = Some e" for e
    using promote_spec(2) [OF assms(1-3), of i] that by (simp add: entry_satisfies_def promoted_def)
  then show ?thesis
    using accepted_candidates [OF assms, of i p] by (auto simp: candidate_def)
qed

text \<open>The credential that a pick returns is a top choice among the candidates.\<close>

lemma pick_ready_top:
  assumes ok: "shard_ok t m" "0 \<le> now" "t \<le> now" and st: "stable_filter pred"
    and w: "strategy = schedulerStrategyWeightedRoundRobin \<Longrightarrow> \<forall>e. pred e \<longrightarrow> 0 < sm_weight (sd_meta e)"
    and p: "pickReadyLocked ws strategy pred now m = (Some a, m')"
  shows "\<exists>i e. candidate m pred now i e \<and> a = sd_auth e \<and> top_choice ws (\<lambda>x. \<exists>i e. candidate m pred now i e \<and> sd_meta e = x) (sd_meta e)"
proof -
  let ?m = "promoteExpiredLocked now m" and ?able = "\<lambda>x. \<exists>i e. candidate m pred now i e \<and> sd_meta e = x"
  have idx: "index_ok ?m" using promote_spec(1) [OF ok] by (simp add: shard_ok_def)
  note wsc = ws_candidates [OF ok st]
  have plain: "\<exists>i e. candidate m pred now i e \<and> a = sd_auth e \<and> top_choice False ?able (sd_meta e)"
    if pr: "pickReadyLocked False strategy pred now m = (Some a, m')"
  proof -
    obtain i e where e: "candidate m pred now i e" "a = sd_auth e" "best_candidate m pred now i e"
      using pick_ready_spec(4) [OF ok st w pr] by auto
    then have "top_choice False ?able (sd_meta e)" unfolding top_choice_plain best_candidate_def by blast
    with e show ?thesis by blast
  qed
  show ?thesis
  proof (cases "ws \<and> (\<exists>p. ws_ids ?m pred p \<noteq> [])")
    case False
    have "pickReadyLocked ws strategy pred now m = pickReadyLocked False strategy pred now m"
    proof (cases ws)
      case True
      with False have none: "ws_ids ?m pred p = []" for p by blast
      have "highestReadyPriorityLocked True pred ?m = highestReadyPriorityLocked False pred ?m"
        using highest_ws [OF idx, of pred] none by simp
      moreover have "pickReadyAtPriorityLocked True q strategy pred ?m = pickReadyAtPriorityLocked False q strategy pred ?m" for q
        using pick_at_ws [where strategy = strategy and pred = pred and p = q, OF idx w] none by simp
      ultimately show ?thesis using True by (simp add: pickReadyLocked_def Let_def split: option.split)
    qed simp
    with p plain obtain i e where e: "candidate m pred now i e" "a = sd_auth e" "top_choice False ?able (sd_meta e)" by auto
    have "\<not> sm_websocketEnabled (sd_meta f)" if "ws" "candidate m pred now j f" for j f
    proof
      assume "sm_websocketEnabled (sd_meta f)"
      then have "j \<in> set (ws_ids ?m pred (sm_priority (sd_meta f)))" using wsc that(2) by blast
      moreover have "ws_ids ?m pred (sm_priority (sd_meta f)) = []" using False that(1) by blast
      ultimately show False by (simp only: list.set(1) empty_iff)
    qed
    then have "ws \<Longrightarrow> \<not> (\<exists>y. ?able y \<and> sm_websocketEnabled y)" by blast
    then have "top_choice ws ?able (sd_meta e)"
      using e(3) top_choice_no_ws [where able = ?able and ws = ws and x = "sd_meta e"] by (cases ws) simp_all
    with e show ?thesis by blast
  next
    case True
    then obtain q where q: "highestReadyPriorityLocked True pred ?m = Some q" "ws_ids ?m pred q \<noteq> []"
      "\<forall>q'. ws_ids ?m pred q' \<noteq> [] \<longrightarrow> q' \<le> q" using highest_ws [OF idx, of pred] by auto
    have "fst (pickReadyAtPriorityLocked True q strategy pred ?m) = Some a"
      using p True q(1) by (simp add: pickReadyLocked_def Let_def)
    with pick_at_ws [where strategy = strategy and pred = pred and p = q, OF idx w] q(2) obtain i where i: "i \<in> set (ws_ids ?m pred q)" "entry_auth (mo_entries ?m) i = Some a"
      by auto
    from i(1) wsc obtain e where e: "candidate m pred now i e" "sm_priority (sd_meta e) = q" "sm_websocketEnabled (sd_meta e)" by blast
    have "a = sd_auth e" using e(1) promote_spec(2) [OF ok, of i] i(2) by (simp add: entry_auth_def candidate_def)
    moreover have "sm_priority (sd_meta f) \<le> q" if "candidate m pred now j f" "sm_websocketEnabled (sd_meta f)" for j f
    proof -
      have "j \<in> set (ws_ids ?m pred (sm_priority (sd_meta f)))" using wsc that by blast
      then have "ws_ids ?m pred (sm_priority (sd_meta f)) \<noteq> []" by (metis list.set(1) empty_iff)
      then show ?thesis using q(3) by blast
    qed
    then have "top_choice True ?able (sd_meta e)" using e by (intro top_choice_ws) auto
    moreover have "ws = True" using True by simp
    ultimately show ?thesis using e(1) by (simp only:) blast
  qed
qed

section \<open>Properties\<close>

definition shard_auths :: "predicate \<Rightarrow> modelScheduler \<Rightarrow> Auth list" where
  "shard_auths pred m = map sd_auth (filter pred (map snd (mo_entries m)))"

lemma candidates_unblocked:
  assumes "index_ok m"
  shows "a \<in> set (unblocked (map Some (shard_auths pred m)) (mo_modelKey m) now) \<longleftrightarrow>
    (\<exists>i e. candidate m pred now i e \<and> a = sd_auth e)"
proof -
  have "wf_map (mo_entries m)" using assms by (simp add: index_ok_def entries_ok_def)
  then have "(i, e) \<in> set (mo_entries m) \<longleftrightarrow> map_of (mo_entries m) i = Some e" for i e by (rule wf_map_in_set)
  then show ?thesis
    unfolding set_unblocked shard_auths_def candidate_def by (auto simp: image_iff) force+
qed

lemma entry_laws:
  assumes "index_ok m" "map_of (mo_entries m) i = Some e"
  shows "auth_ID (sd_auth e) = i" "sm_priority (sd_meta e) = prio (sd_auth e)"
  using assms map_of_SomeD [OF assms(2)] by (auto simp: index_ok_def entries_ok_def list_all_iff entry_ok_def)

text \<open>C7. The incremental scheduler implements the stateless selection: from any state in which the shard's
  records predict the availability of the credentials, a fill-first pick (no websocket preference)
  returns what the fill-first selector returns on the credentials of the shard that the request
  accepts, computed afresh at that time.\<close>

theorem shard_refines_fill_first:
  assumes ok: "shard_ok t m" "0 \<le> now" "t \<le> now" and st: "stable_filter pred" and ws: "\<not> pc_websocket ctx"
  shows "fst (pickReadyLocked False schedulerStrategyFillFirst pred now m) =
    (case fst (ff_Pick ctx provider (mo_modelKey m) (map Some (shard_auths pred m)) now ()) of
       Inr a \<Rightarrow> Some a | Inl _ \<Rightarrow> None)"
proof -
  let ?A = "map Some (shard_auths pred m)" and ?key = "mo_modelKey m"
  have idx: "index_ok m" using ok by (simp add: shard_ok_def)
  note cu = candidates_unblocked [OF idx, of _ pred now]
  obtain r m' where p: "pickReadyLocked False schedulerStrategyFillFirst pred now m = (r, m')" by fastforce
  have sp: "case r of None \<Rightarrow> \<forall>i e. \<not> candidate m pred now i e
      | Some a \<Rightarrow> \<exists>i e. candidate m pred now i e \<and> a = sd_auth e \<and> best_candidate m pred now i e \<and>
          (\<forall>j f. best_candidate m pred now j f \<longrightarrow> i \<le> j)"
    using pick_ready_spec(4) [OF ok st _ p] by (cases r) simp_all
  have sel: "selectable ctx provider ?key ?A now = getAvailableAuths ?A provider ?key now"
    using ws by (cases "getAvailableAuths ?A provider ?key now") (simp_all add: selectable_def preferCodexWebsocketAuths_def)
  show ?thesis
  proof (cases r)
    case None
    with sp cu have "b \<notin> set (unblocked ?A ?key now)" for b by simp
    then have "unblocked ?A ?key now = []" by (cases "unblocked ?A ?key now") auto
    with getAvailableAuths_Inr [of ?A provider ?key now] have "\<nexists>l. getAvailableAuths ?A provider ?key now = Inr l"
      by (auto simp: top_tier_def)
    then show ?thesis using p None sel by (cases "getAvailableAuths ?A provider ?key now") (auto simp: ff_Pick_def)
  next
    case (Some a)
    with sp obtain i e where e: "candidate m pred now i e" "a = sd_auth e" "best_candidate m pred now i e"
      "\<forall>j f. best_candidate m pred now j f \<longrightarrow> i \<le> j" by auto
    then have "unblocked ?A ?key now \<noteq> []" using cu [of a] by force
    then obtain l where l: "getAvailableAuths ?A provider ?key now = Inr l"
      using getAvailableAuths_Inl [of ?A provider ?key now] by (cases "getAvailableAuths ?A provider ?key now") auto
    from getAvailableAuths_Inr [OF l] have lt: "set l = set (top_tier (unblocked ?A ?key now))" "sorted (map auth_ID l)" "l \<noteq> []"
      by auto
    have top: "b \<in> set l \<longleftrightarrow> (\<exists>j f. best_candidate m pred now j f \<and> b = sd_auth f)" for b
    proof -
      have pr: "candidate m pred now j f \<Longrightarrow> prio (sd_auth f) = sm_priority (sd_meta f)" for j f
        using entry_laws(2) [OF idx, of j f] by (simp add: candidate_def)
      have "b \<in> set l \<longleftrightarrow> (\<exists>j f. candidate m pred now j f \<and> b = sd_auth f \<and>
          (\<forall>j' f'. candidate m pred now j' f' \<longrightarrow> prio (sd_auth f') \<le> prio (sd_auth f)))"
        unfolding lt(1) set_top_tier mem_Collect_eq Ball_def cu by blast
      also have "\<dots> \<longleftrightarrow> (\<exists>j f. best_candidate m pred now j f \<and> b = sd_auth f)"
        unfolding best_candidate_def using pr by (metis (no_types, lifting))
      finally show ?thesis .
    qed
    obtain j f where h: "best_candidate m pred now j f" "hd l = sd_auth f" using top [of "hd l"] lt(3) by auto
    have ids: "auth_ID (sd_auth e) = i" "auth_ID (sd_auth f) = j"
      using entry_laws(1) [OF idx] e(1) h(1) by (auto simp: candidate_def best_candidate_def)
    have "i \<le> j" using e(4) h(1) by blast
    moreover have "j \<le> i"
    proof -
      have "a \<in> set l" using top e(2,3) by blast
      with lt(2,3) h(2) ids e(2) show ?thesis by (cases l) auto
    qed
    ultimately have "i = j" by simp
    with e(1,2) h have "a = hd l" by (auto simp: candidate_def best_candidate_def)
    then show ?thesis using p Some sel l lt(3) by (simp add: ff_Pick_def hd_conv_nth)
  qed
qed

definition plain_meta :: "Auth \<Rightarrow> scheduledAuthMeta" where
  "plain_meta a = \<lparr>sm_auth = a, sm_providerKey = auth_Provider a, sm_priority = authPriority (Some a),
     sm_weight = authWeight (Some a), sm_websocketEnabled = False, sm_supportedModelSet = []\<rparr>"

theorem shard_refines_fill_first_witness:
  "fst (pickReadyLocked False schedulerStrategyFillFirst (\<lambda>_. True) 7
      (upsertEntryLocked (plain_meta (new_auth ''b'' ''p'')) 5
        (upsertEntryLocked (plain_meta (new_auth ''a'' ''p'')) 4 (empty_shard ''m'')))) =
   Some (new_auth ''a'' ''p'')"
proof -
  let ?m = "upsertEntryLocked (plain_meta (new_auth ''b'' ''p'')) 5
        (upsertEntryLocked (plain_meta (new_auth ''a'' ''p'')) 4 (empty_shard ''m''))"
  let ?ctx = "\<lparr>pc_websocket = False, pc_routeModel = None\<rparr>"
  have "shard_ok 5 ?m" by (intro upsert_shard_ok [of 4] upsert_shard_ok [of 0] shard_ok_empty) (simp_all add: meta_ok_def plain_meta_def)
  from shard_refines_fill_first [OF this, of 7 "\<lambda>_. True" ?ctx "''p''"]
  have "fst (pickReadyLocked False schedulerStrategyFillFirst (\<lambda>_. True) 7 ?m) =
    (case fst (ff_Pick ?ctx ''p'' (mo_modelKey ?m) (map Some (shard_auths (\<lambda>_. True) ?m)) 7 ()) of
       Inr a \<Rightarrow> Some a | Inl _ \<Rightarrow> None)" by (simp add: stable_filter_def)
  also have "\<dots> = Some (new_auth ''a'' ''p'')" by code_simp
  finally show ?thesis .
qed

end
