(* ===== verification/Auth_Scheduler.thy ===== *)
theory Auth_Scheduler
  imports Model_Shard
begin

text \<open>
  The scheduler of \<open>sdk/cliproxy/auth/scheduler.go\<close>: provider schedulers with their credentials and
  model shards, and the picks for one provider and for several. The model registry is an argument: the
  function that gives the models registered for a credential when its metadata is built. Where the code
  reads the clock several times in one operation the readings are the fields of a record.
\<close>

section \<open>State\<close>

record providerScheduler =
  ps_providerKey :: string
  ps_auths :: "(string \<times> scheduledAuthMeta) list"
  ps_modelShards :: "(string \<times> modelScheduler) list"

record authScheduler =
  as_strategy :: schedulerStrategy
  as_providers :: "(string \<times> providerScheduler) list"
  as_authProviders :: "(string \<times> string) list"
  as_mixedCursors :: "(string \<times> int) list"
  as_mixedWeightedStates :: "(string \<times> smoothWeightedState) list"

text \<open>The dynamic type of a selector.\<close>

datatype selector_type = SelNil | SelRoundRobin | SelWeightedRoundRobin | SelFillFirst | SelOther

definition selectorStrategy :: "selector_type \<Rightarrow> schedulerStrategy" where
  "selectorStrategy sel =
     (case sel of
        SelFillFirst \<Rightarrow> schedulerStrategyFillFirst
      | SelWeightedRoundRobin \<Rightarrow> schedulerStrategyWeightedRoundRobin
      | SelNil \<Rightarrow> schedulerStrategyRoundRobin
      | SelRoundRobin \<Rightarrow> schedulerStrategyRoundRobin
      | SelOther \<Rightarrow> schedulerStrategyCustom)"

definition newAuthScheduler :: "selector_type \<Rightarrow> authScheduler" where
  "newAuthScheduler sel =
     \<lparr>as_strategy = selectorStrategy sel, as_providers = [], as_authProviders = [],
      as_mixedCursors = [], as_mixedWeightedStates = []\<rparr>"

definition setSelector :: "selector_type \<Rightarrow> authScheduler \<Rightarrow> authScheduler" where
  "setSelector sel s =
     s\<lparr>as_strategy := selectorStrategy sel, as_mixedCursors := [], as_mixedWeightedStates := []\<rparr>"

section \<open>Keys of credentials\<close>

abbreviation (input) openAICompatibleProviderPrefix :: string where
  "openAICompatibleProviderPrefix \<equiv> ''openai-compatible-''"

definition OpenAICompatibleProviderKey :: "string \<Rightarrow> string" where
  "OpenAICompatibleProviderKey name =
     (let name = to_lower (trim_space name)
      in if name = [] \<or> name = ''openai-compatibility'' \<or> has_prefix name openAICompatibleProviderPrefix
         then (if name = [] then ''openai-compatibility'' else name)
         else openAICompatibleProviderPrefix @ name)"

definition executorKeyFromAuth :: "Auth option \<Rightarrow> string" where
  "executorKeyFromAuth auth =
     (case auth of
        None \<Rightarrow> []
      | Some a \<Rightarrow>
          (let providerKey = trim_space (map_str (auth_Attributes a) ''provider_key'');
               compatName = trim_space (map_str (auth_Attributes a) ''compat_name'')
           in if compatName \<noteq> [] then
                OpenAICompatibleProviderKey (if providerKey = [] then compatName else providerKey)
              else if equal_fold (trim_space (auth_Provider a)) ''openai-compatibility'' then
                (let label = trim_space (auth_Label a)
                 in OpenAICompatibleProviderKey (if label = [] then ''openai-compatibility'' else label))
              else to_lower (trim_space (auth_Provider a))))"

definition isFreeCodexAuth :: "Auth option \<Rightarrow> bool" where
  "isFreeCodexAuth auth \<longleftrightarrow>
     (case auth of
        None \<Rightarrow> False
      | Some a \<Rightarrow> equal_fold (trim_space (auth_Provider a)) ''codex'' \<and>
          equal_fold (trim_space (map_str (auth_Attributes a) ''plan_type'')) ''free'')"

section \<open>Requests\<close>

text \<open>What a pick reads of the request's context.\<close>

record request_ctx =
  rc_downstreamWebsocket :: bool
  rc_requiredKind :: string
  rc_credentialPolicy :: string

definition pinnedAuthIDFromMetadata :: "(string \<times> go_any) list \<Rightarrow> string" where
  "pinnedAuthIDFromMetadata meta =
     (case map_of meta ''pinned_auth_id'' of
        Some (AnyString val) \<Rightarrow> trim_space val
      | Some (AnyBytes val) \<Rightarrow> trim_space val
      | _ \<Rightarrow> [])"

definition disallowFreeAuthFromMetadata :: "(string \<times> go_any) list \<Rightarrow> bool" where
  "disallowFreeAuthFromMetadata meta \<longleftrightarrow>
     (case map_of meta ''disallow_free_auth'' of
        Some (AnyBool val) \<Rightarrow> val
      | Some (AnyString val) \<Rightarrow> go_parse_bool (trim_space val) = Some True
      | Some (AnyBytes val) \<Rightarrow> go_parse_bool (trim_space val) = Some True
      | _ \<Rightarrow> False)"

record authSelectionEligibility =
  el_requiredKind :: string
  el_credentialPolicy :: string
  el_disallowFreeAuth :: bool

definition authSelectionEligibilityForRequest ::
  "request_ctx \<Rightarrow> (string \<times> go_any) list \<Rightarrow> authSelectionEligibility" where
  "authSelectionEligibilityForRequest ctx metadata =
     \<lparr>el_requiredKind = rc_requiredKind ctx, el_credentialPolicy = rc_credentialPolicy ctx,
      el_disallowFreeAuth = disallowFreeAuthFromMetadata metadata\<rparr>"

definition allows :: "authSelectionEligibility \<Rightarrow> Auth option \<Rightarrow> bool" where
  "allows e auth \<longleftrightarrow>
     auth \<noteq> None \<and>
     \<not> (el_requiredKind e \<noteq> [] \<and> AuthKind auth \<noteq> el_requiredKind e) \<and>
     \<not> (el_credentialPolicy e \<noteq> [] \<and> \<not> credentialPolicyAllows (el_credentialPolicy e) auth) \<and>
     (\<not> el_disallowFreeAuth e \<or> \<not> isFreeCodexAuth auth)"

definition scheduledAuthPredicate :: "authSelectionEligibility \<Rightarrow> string list \<Rightarrow> string \<Rightarrow> bool \<Rightarrow> predicate" where
  "scheduledAuthPredicate eligibility tried pinnedAuthID requirePositiveWeight entry \<longleftrightarrow>
     allows eligibility (Some (sd_auth entry)) \<and>
     \<not> (requirePositiveWeight \<and> sm_weight (sd_meta entry) \<le> 0) \<and>
     \<not> (pinnedAuthID \<noteq> [] \<and> auth_ID (sd_auth entry) \<noteq> pinnedAuthID) \<and>
     auth_ID (sd_auth entry) \<notin> set tried"

definition providerPrefersWebsocketTransport :: "string \<Rightarrow> bool" where
  "providerPrefersWebsocketTransport providerKey \<longleftrightarrow> to_lower (trim_space providerKey) \<in> {''codex'', ''xai''}"

fun normalize_loop :: "string list \<Rightarrow> string list \<Rightarrow> string list \<Rightarrow> string list" where
  "normalize_loop [] seen out = out"
| "normalize_loop (provider # providers) seen out =
     (let providerKey = to_lower (trim_space provider)
      in if providerKey = [] then normalize_loop providers seen out
         else if providerKey \<in> set seen then normalize_loop providers seen out
         else normalize_loop providers (providerKey # seen) (out @ [providerKey]))"

definition normalizeProviderKeys :: "string list \<Rightarrow> string list" where
  "normalizeProviderKeys providers = normalize_loop providers [] []"

fun containsProvider :: "string list \<Rightarrow> string \<Rightarrow> bool" where
  "containsProvider [] provider = False"
| "containsProvider (key # providers) provider =
     (if key = provider then True else containsProvider providers provider)"

section \<open>Credential metadata\<close>

type_synonym registry_view = "string \<Rightarrow> string option list"

fun model_set :: "string option list \<Rightarrow> string list \<Rightarrow> string list" where
  "model_set [] acc = acc"
| "model_set (None # models) acc = model_set models acc"
| "model_set (Some modelID # models) acc =
     (let modelKey = canonicalModelKey modelID
      in if modelKey = [] then model_set models acc else model_set models (List.insert modelKey acc))"

definition supportedModelSetForAuth :: "registry_view \<Rightarrow> string \<Rightarrow> string list" where
  "supportedModelSetForAuth GetModelsForClient authID =
     (if trim_space authID = [] then [] else model_set (GetModelsForClient (trim_space authID)) [])"

definition buildScheduledAuthMeta :: "registry_view \<Rightarrow> Auth \<Rightarrow> scheduledAuthMeta" where
  "buildScheduledAuthMeta GetModelsForClient auth =
     \<lparr>sm_auth = auth, sm_providerKey = executorKeyFromAuth (Some auth), sm_priority = authPriority (Some auth),
      sm_weight = authWeight (Some auth), sm_websocketEnabled = authWebsocketsEnabled (Some auth),
      sm_supportedModelSet = supportedModelSetForAuth GetModelsForClient (auth_ID auth)\<rparr>"

definition supportsModel :: "string \<Rightarrow> scheduledAuthMeta \<Rightarrow> bool" where
  "supportsModel modelKey m \<longleftrightarrow>
     (let modelKey = canonicalModelKey modelKey
      in if modelKey = [] then True
         else if length (sm_supportedModelSet m) = 0 then False
         else modelKey \<in> set (sm_supportedModelSet m))"

section \<open>Provider schedulers\<close>

definition provider_upsertAuthLocked :: "scheduledAuthMeta \<Rightarrow> gotime \<Rightarrow> providerScheduler \<Rightarrow> providerScheduler" where
  "provider_upsertAuthLocked meta now p =
     p\<lparr>ps_auths := map_put (auth_ID (sm_auth meta)) meta (ps_auths p),
       ps_modelShards := map (\<lambda>(modelKey, shard).
         (modelKey, if \<not> supportsModel modelKey meta then removeEntryLocked (auth_ID (sm_auth meta)) shard
                    else upsertEntryLocked meta now shard)) (ps_modelShards p)\<rparr>"

definition provider_removeAuthLocked :: "string \<Rightarrow> providerScheduler \<Rightarrow> providerScheduler" where
  "provider_removeAuthLocked authID p =
     (if authID = [] then p
      else p\<lparr>ps_auths := map_del authID (ps_auths p),
             ps_modelShards := map (\<lambda>(modelKey, shard). (modelKey, removeEntryLocked authID shard)) (ps_modelShards p)\<rparr>)"

fun fill_shard :: "string \<Rightarrow> gotime \<Rightarrow> (string \<times> scheduledAuthMeta) list \<Rightarrow> modelScheduler \<Rightarrow> modelScheduler" where
  "fill_shard modelKey now [] shard = shard"
| "fill_shard modelKey now ((authID, meta) # auths) shard =
     (if \<not> supportsModel modelKey meta then fill_shard modelKey now auths shard
      else fill_shard modelKey now auths (upsertEntryLocked meta now shard))"

definition ensureModelLocked :: "string \<Rightarrow> gotime \<Rightarrow> providerScheduler \<Rightarrow> modelScheduler \<times> providerScheduler" where
  "ensureModelLocked modelKey now p =
     (let modelKey = canonicalModelKey modelKey;
          shard = (case map_of (ps_modelShards p) modelKey of
                     Some shard \<Rightarrow> promoteExpiredLocked now shard
                   | None \<Rightarrow> fill_shard modelKey now (ps_auths p) (empty_shard modelKey))
      in (shard, p\<lparr>ps_modelShards := map_put modelKey shard (ps_modelShards p)\<rparr>))"

section \<open>Synchronising credentials\<close>

definition ensureProviderLocked :: "string \<Rightarrow> authScheduler \<Rightarrow> providerScheduler" where
  "ensureProviderLocked providerKey s =
     (case map_of (as_providers s) providerKey of
        Some p \<Rightarrow> p
      | None \<Rightarrow> \<lparr>ps_providerKey = providerKey, ps_auths = [], ps_modelShards = []\<rparr>)"

text \<open>The removal of a credential from one provider, when that provider exists.\<close>

definition remove_from_provider :: "string \<Rightarrow> string \<Rightarrow> authScheduler \<Rightarrow> authScheduler" where
  "remove_from_provider providerKey authID s =
     (case map_of (as_providers s) providerKey of
        None \<Rightarrow> s
      | Some p \<Rightarrow> s\<lparr>as_providers := map_put providerKey (provider_removeAuthLocked authID p) (as_providers s)\<rparr>)"

definition removeAuthLocked :: "string \<Rightarrow> authScheduler \<Rightarrow> authScheduler" where
  "removeAuthLocked authID s =
     (if authID = [] then s
      else (let providerKey = map_str (as_authProviders s) authID
            in if providerKey \<noteq> [] then
                 (remove_from_provider providerKey authID s)\<lparr>as_authProviders := map_del authID (as_authProviders s)\<rparr>
               else s))"

definition upsertAuthLocked :: "registry_view \<Rightarrow> Auth option \<Rightarrow> gotime \<Rightarrow> authScheduler \<Rightarrow> authScheduler" where
  "upsertAuthLocked GetModelsForClient auth now s =
     (case auth of
        None \<Rightarrow> s
      | Some a \<Rightarrow>
          (let authID = trim_space (auth_ID a); providerKey = executorKeyFromAuth auth
           in if authID = [] \<or> providerKey = [] \<or> auth_Disabled a then removeAuthLocked authID s
              else
                (let previousProvider = map_str (as_authProviders s) authID;
                     s = (if previousProvider \<noteq> [] \<and> previousProvider \<noteq> providerKey
                          then remove_from_provider previousProvider authID s else s);
                     meta = buildScheduledAuthMeta GetModelsForClient a
                 in s\<lparr>as_authProviders := map_put authID providerKey (as_authProviders s),
                      as_providers := map_put providerKey
                        (provider_upsertAuthLocked meta now (ensureProviderLocked providerKey s)) (as_providers s)\<rparr>)))"

definition removeAuth :: "string \<Rightarrow> authScheduler \<Rightarrow> authScheduler" where
  "removeAuth authID s = (if trim_space authID = [] then s else removeAuthLocked (trim_space authID) s)"

definition upsertAuth :: "registry_view \<Rightarrow> Auth option \<Rightarrow> gotime \<Rightarrow> authScheduler \<Rightarrow> authScheduler" where
  "upsertAuth GetModelsForClient auth now s = upsertAuthLocked GetModelsForClient auth now s"

definition rebuild :: "registry_view \<Rightarrow> Auth option list \<Rightarrow> gotime \<Rightarrow> authScheduler \<Rightarrow> authScheduler" where
  "rebuild GetModelsForClient auths now s =
     fold (\<lambda>auth. upsertAuthLocked GetModelsForClient auth now) auths
       (s\<lparr>as_providers := [], as_authProviders := [], as_mixedCursors := [], as_mixedWeightedStates := []\<rparr>)"

section \<open>Picking for one provider\<close>

record pick_clock =
  ck_shard :: gotime
  ck_pick :: gotime
  ck_error :: gotime

definition no_auth :: sel_error where
  "no_auth = auth_error ''auth_not_found'' ''no auth available''"

definition effective_strategy :: "schedulerStrategy \<Rightarrow> authScheduler \<Rightarrow> schedulerStrategy" where
  "effective_strategy strategy s = (if strategy = schedulerStrategyCurrent then as_strategy s else strategy)"

definition put_shard :: "string \<Rightarrow> modelScheduler \<Rightarrow> providerScheduler \<Rightarrow> authScheduler \<Rightarrow> authScheduler" where
  "put_shard providerKey shard p s =
     s\<lparr>as_providers := map_put providerKey
        (p\<lparr>ps_modelShards := map_put (mo_modelKey shard) shard (ps_modelShards p)\<rparr>) (as_providers s)\<rparr>"

text \<open>Picking from the shard of one provider, with the error of that shard.\<close>

definition shard_pick ::
  "string \<Rightarrow> providerScheduler \<Rightarrow> string \<Rightarrow> string \<Rightarrow> bool \<Rightarrow> schedulerStrategy \<Rightarrow> predicate \<Rightarrow> pick_clock \<Rightarrow>
     string \<Rightarrow> authScheduler \<Rightarrow> (sel_error + Auth) \<times> authScheduler" where
  "shard_pick providerKey p modelKey errorProvider preferWebsocket strategy predicate clock model s =
     (case ensureModelLocked modelKey (ck_shard clock) p of
        (shard, p') \<Rightarrow>
          (case pickReadyLocked preferWebsocket strategy predicate (ck_pick clock) shard of
             (picked, shard') \<Rightarrow>
               (case picked of
                  Some a \<Rightarrow> Inr a
                | None \<Rightarrow> Inl (unavailableErrorLocked errorProvider model predicate (ck_error clock) shard'),
                put_shard providerKey shard' p' s)))"

definition pickSingleWithStrategy ::
  "request_ctx \<Rightarrow> string \<Rightarrow> string \<Rightarrow> (string \<times> go_any) list \<Rightarrow> string list \<Rightarrow> schedulerStrategy \<Rightarrow> pick_clock \<Rightarrow>
     authScheduler \<Rightarrow> (sel_error + Auth) \<times> authScheduler" where
  "pickSingleWithStrategy ctx provider model metadata tried strategy clock s =
     (let providerKey = to_lower (trim_space provider);
          modelKey = canonicalModelKey model;
          pinnedAuthID = pinnedAuthIDFromMetadata metadata;
          eligibility = authSelectionEligibilityForRequest ctx metadata;
          preferWebsocket = (rc_downstreamWebsocket ctx \<and> providerPrefersWebsocketTransport providerKey \<and> pinnedAuthID = []);
          strategy = effective_strategy strategy s
      in case map_of (as_providers s) providerKey of
           None \<Rightarrow> (Inl no_auth, s)
         | Some p \<Rightarrow>
             shard_pick providerKey p modelKey provider preferWebsocket strategy
               (scheduledAuthPredicate eligibility tried pinnedAuthID (strategy = schedulerStrategyWeightedRoundRobin))
               clock model s)"

definition pickSingle ::
  "request_ctx \<Rightarrow> string \<Rightarrow> string \<Rightarrow> (string \<times> go_any) list \<Rightarrow> string list \<Rightarrow> pick_clock \<Rightarrow>
     authScheduler \<Rightarrow> (sel_error + Auth) \<times> authScheduler" where
  "pickSingle ctx provider model metadata tried clock s =
     pickSingleWithStrategy ctx provider model metadata tried schedulerStrategyCurrent clock s"

section \<open>Picking across providers\<close>

text \<open>The shards of the requested providers are brought up to date and the highest ready priority found.\<close>

definition better_priority :: "int option \<Rightarrow> int option \<Rightarrow> int option" where
  "better_priority ready best =
     (case ready of
        None \<Rightarrow> best
      | Some priorityReady \<Rightarrow>
          (case best of
             None \<Rightarrow> Some priorityReady
           | Some bestPriority \<Rightarrow> if priorityReady > bestPriority then Some priorityReady else best))"

fun mixed_loop ::
  "string \<Rightarrow> gotime \<Rightarrow> predicate \<Rightarrow> string list \<Rightarrow> authScheduler \<Rightarrow> int option \<Rightarrow> authScheduler \<times> int option" where
  "mixed_loop modelKey now predicate [] s best = (s, best)"
| "mixed_loop modelKey now predicate (providerKey # normalized) s best =
     (case map_of (as_providers s) providerKey of
        None \<Rightarrow> mixed_loop modelKey now predicate normalized s best
      | Some p \<Rightarrow>
          (case ensureModelLocked modelKey now p of
             (shard, p') \<Rightarrow>
               mixed_loop modelKey now predicate normalized (put_shard providerKey shard p' s)
                 (better_priority (highestReadyPriorityLocked False predicate shard) best)))"

text \<open>The shard of a provider, when it has one.\<close>

definition shard_of :: "string \<Rightarrow> authScheduler \<Rightarrow> string \<Rightarrow> modelScheduler option" where
  "shard_of modelKey s providerKey =
     (case map_of (as_providers s) providerKey of
        None \<Rightarrow> None
      | Some p \<Rightarrow> map_of (ps_modelShards p) (canonicalModelKey modelKey))"

definition set_shard :: "string \<Rightarrow> modelScheduler \<Rightarrow> authScheduler \<Rightarrow> authScheduler" where
  "set_shard providerKey shard s =
     (case map_of (as_providers s) providerKey of None \<Rightarrow> s | Some p \<Rightarrow> put_shard providerKey shard p s)"

fun summary_providers ::
  "string \<Rightarrow> gotime \<Rightarrow> predicate \<Rightarrow> string list \<Rightarrow> authScheduler \<Rightarrow> nat \<times> nat \<times> gotime \<Rightarrow>
     (nat \<times> nat \<times> gotime) \<times> authScheduler" where
  "summary_providers model now predicate [] s acc = (acc, s)"
| "summary_providers model now predicate (providerKey # providers) s (totalCount, cooldownCount, earliest) =
     (case map_of (as_providers s) providerKey of
        None \<Rightarrow> summary_providers model now predicate providers s (totalCount, cooldownCount, earliest)
      | Some p \<Rightarrow>
          (case ensureModelLocked (canonicalModelKey model) now p of
             (shard, p') \<Rightarrow>
               (case availabilitySummaryLocked predicate shard of
                  (localTotal, localCooldownCount, localEarliest) \<Rightarrow>
                    summary_providers model now predicate providers (put_shard providerKey shard p' s)
                      (totalCount + localTotal, cooldownCount + localCooldownCount,
                       if localEarliest \<noteq> 0 \<and> (earliest = 0 \<or> time_before localEarliest earliest)
                       then localEarliest else earliest))))"

definition mixedUnavailableErrorLocked ::
  "string list \<Rightarrow> string \<Rightarrow> predicate \<Rightarrow> gotime \<Rightarrow> authScheduler \<Rightarrow> sel_error \<times> authScheduler" where
  "mixedUnavailableErrorLocked providers model predicate now s =
     (case summary_providers model now predicate providers s (0, 0, 0) of
        (summary, s') \<Rightarrow> (summary_error summary [] model now, s'))"

definition mixed_error ::
  "string list \<Rightarrow> string \<Rightarrow> predicate \<Rightarrow> gotime \<Rightarrow> authScheduler \<Rightarrow> (sel_error + Auth \<times> string) \<times> authScheduler" where
  "mixed_error providers model predicate now s =
     (case mixedUnavailableErrorLocked providers model predicate now s of (err, s') \<Rightarrow> (Inl err, s'))"

text \<open>The first provider, in the given order, whose shard has a pick at the priority.\<close>

fun pick_first_provider ::
  "string \<Rightarrow> int \<Rightarrow> schedulerStrategy \<Rightarrow> predicate \<Rightarrow> string list \<Rightarrow> authScheduler \<Rightarrow>
     (Auth \<times> string) option \<times> authScheduler" where
  "pick_first_provider modelKey bestPriority strategy predicate [] s = (None, s)"
| "pick_first_provider modelKey bestPriority strategy predicate (providerKey # normalized) s =
     (case shard_of modelKey s providerKey of
        None \<Rightarrow> pick_first_provider modelKey bestPriority strategy predicate normalized s
      | Some shard \<Rightarrow>
          (case pickReadyAtPriorityLocked False bestPriority strategy predicate shard of
             (picked, shard') \<Rightarrow>
               (case picked of
                  Some a \<Rightarrow> (Some (a, providerKey), set_shard providerKey shard' s)
                | None \<Rightarrow> pick_first_provider modelKey bestPriority strategy predicate normalized
                    (set_shard providerKey shard' s))))"

text \<open>The entries of the priority in all candidate shards, sorted by ID.\<close>

definition bucket_entries :: "int \<Rightarrow> modelScheduler \<Rightarrow> (string \<times> scheduledAuth) list" where
  "bucket_entries bestPriority shard =
     (case map_of (mo_readyByPriority shard) bestPriority of
        None \<Rightarrow> []
      | Some bucket \<Rightarrow>
          concat (map (\<lambda>authID. case map_of (mo_entries shard) authID of None \<Rightarrow> [] | Some e \<Rightarrow> [(authID, e)])
            (rv_flat (rb_all bucket))))"

definition mixed_entries :: "string \<Rightarrow> int \<Rightarrow> string list \<Rightarrow> authScheduler \<Rightarrow> (string \<times> scheduledAuth) list" where
  "mixed_entries modelKey bestPriority normalized s =
     sort_key fst (concat (map (\<lambda>providerKey.
       case shard_of modelKey s providerKey of None \<Rightarrow> [] | Some shard \<Rightarrow> bucket_entries bestPriority shard) normalized))"

definition mixed_weighted_pick ::
  "string \<Rightarrow> string \<Rightarrow> int \<Rightarrow> predicate \<Rightarrow> string list \<Rightarrow> authScheduler \<Rightarrow> (Auth \<times> string) option \<times> authScheduler" where
  "mixed_weighted_pick cursorKey modelKey bestPriority predicate normalized s =
     (let entries = mixed_entries modelKey bestPriority normalized s;
          state = (case map_of (as_mixedWeightedStates s) cursorKey of None \<Rightarrow> empty_smooth | Some st \<Rightarrow> st)
      in case weighted_rotation (entry_weight entries) (entry_satisfies entries predicate) (map fst entries) state of
           (picked, state') \<Rightarrow>
             (case picked of
                None \<Rightarrow> None
              | Some authID \<Rightarrow> map_option (\<lambda>e. (sd_auth e, sm_providerKey (sd_meta e))) (map_of entries authID),
              s\<lparr>as_mixedWeightedStates := map_put cursorKey state' (as_mixedWeightedStates s)\<rparr>))"

text \<open>The number of accepted ready entries of a provider at the priority.\<close>

definition provider_weight :: "string \<Rightarrow> int \<Rightarrow> predicate \<Rightarrow> authScheduler \<Rightarrow> string \<Rightarrow> nat" where
  "provider_weight modelKey bestPriority predicate s providerKey =
     (case shard_of modelKey s providerKey of
        None \<Rightarrow> 0
      | Some shard \<Rightarrow> readyCountAtPriorityLocked False bestPriority predicate shard)"

text \<open>The segments of the slots: where each provider starts and ends.\<close>

fun segments :: "nat list \<Rightarrow> nat \<Rightarrow> (nat \<times> nat) list" where
  "segments [] totalWeight = []"
| "segments (w # weights) totalWeight = (totalWeight, totalWeight + w) # segments weights (totalWeight + w)"

fun start_index :: "nat list \<Rightarrow> (nat \<times> nat) list \<Rightarrow> nat \<Rightarrow> nat \<Rightarrow> nat option" where
  "start_index (w # weights) ((a, b) # segs) startSlot k =
     (if w = 0 then start_index weights segs startSlot (Suc k)
      else if startSlot < b then Some k
      else start_index weights segs startSlot (Suc k))"
| "start_index _ _ startSlot k = None"

text \<open>The scan over the providers from the starting one; \<open>fuel\<close> is the number of offsets left.\<close>

fun rotate_providers ::
  "string \<Rightarrow> int \<Rightarrow> predicate \<Rightarrow> string list \<Rightarrow> nat list \<Rightarrow> (nat \<times> nat) list \<Rightarrow> nat \<Rightarrow> nat \<Rightarrow> nat \<Rightarrow> nat \<Rightarrow> authScheduler \<Rightarrow>
     (Auth \<times> string \<times> nat) option \<times> authScheduler" where
  "rotate_providers modelKey bestPriority predicate normalized weights segs start slot offset 0 s = (None, s)"
| "rotate_providers modelKey bestPriority predicate normalized weights segs start slot offset (Suc n) s =
     (let providerIndex = (start + offset) mod length normalized
      in if weights ! providerIndex = 0 then
           rotate_providers modelKey bestPriority predicate normalized weights segs start slot (Suc offset) n s
         else
           (let slot = (if providerIndex \<noteq> start then fst (segs ! providerIndex) else slot);
                providerKey = normalized ! providerIndex
            in case shard_of modelKey s providerKey of
                 None \<Rightarrow> rotate_providers modelKey bestPriority predicate normalized weights segs start slot (Suc offset) n s
               | Some shard \<Rightarrow>
                   (case pickReadyAtPriorityLocked False bestPriority schedulerStrategyRoundRobin predicate shard of
                      (picked, shard') \<Rightarrow>
                        (case picked of
                           None \<Rightarrow> rotate_providers modelKey bestPriority predicate normalized weights segs start slot
                                    (Suc offset) n (set_shard providerKey shard' s)
                         | Some a \<Rightarrow> (Some (a, providerKey, slot), set_shard providerKey shard' s)))))"

definition mixed_rotation_pick ::
  "string \<Rightarrow> string \<Rightarrow> int \<Rightarrow> predicate \<Rightarrow> string list \<Rightarrow> authScheduler \<Rightarrow> (Auth \<times> string) option \<times> authScheduler" where
  "mixed_rotation_pick cursorKey modelKey bestPriority predicate normalized s =
     (let weights = map (provider_weight modelKey bestPriority predicate s) normalized;
          segs = segments weights 0;
          totalWeight = sum_list weights
      in if totalWeight = 0 then (None, s)
         else
           (let cursor = (case map_of (as_mixedCursors s) cursorKey of None \<Rightarrow> 0 | Some c \<Rightarrow> c);
                startSlot = nat (go_rem cursor (int totalWeight))
            in case start_index weights segs startSlot 0 of
                 None \<Rightarrow> (None, s)
               | Some start \<Rightarrow>
                   (case rotate_providers modelKey bestPriority predicate normalized weights segs start startSlot 0
                           (length normalized) s of
                      (None, s') \<Rightarrow> (None, s')
                    | (Some (a, providerKey, slot), s') \<Rightarrow>
                        (Some (a, providerKey),
                         s'\<lparr>as_mixedCursors := map_put cursorKey (int slot + 1) (as_mixedCursors s')\<rparr>))))"

definition mixed_pinned_pick ::
  "string list \<Rightarrow> string \<Rightarrow> string \<Rightarrow> schedulerStrategy \<Rightarrow> predicate \<Rightarrow> pick_clock \<Rightarrow> authScheduler \<Rightarrow>
     (sel_error + Auth \<times> string) \<times> authScheduler" where
  "mixed_pinned_pick normalized pinnedAuthID model strategy predicate clock s =
     (let providerKey = map_str (as_authProviders s) pinnedAuthID
      in if providerKey = [] \<or> \<not> containsProvider normalized providerKey then (Inl no_auth, s)
         else case map_of (as_providers s) providerKey of
                None \<Rightarrow> (Inl no_auth, s)
              | Some p \<Rightarrow>
                  (case shard_pick providerKey p (canonicalModelKey model) ''mixed'' False strategy predicate clock model s of
                     (r, s') \<Rightarrow> (map_sum id (\<lambda>a. (a, providerKey)) r, s')))"

definition mixed_pick ::
  "string list \<Rightarrow> string \<Rightarrow> schedulerStrategy \<Rightarrow> predicate \<Rightarrow> pick_clock \<Rightarrow> authScheduler \<Rightarrow>
     (sel_error + Auth \<times> string) \<times> authScheduler" where
  "mixed_pick normalized model strategy predicate clock s =
     (let modelKey = canonicalModelKey model;
          cursorKey = str_join normalized '','' @ '':'' @ modelKey
      in case mixed_loop modelKey (ck_shard clock) predicate normalized s None of
           (s', None) \<Rightarrow> mixed_error normalized model predicate (ck_error clock) s'
         | (s', Some bestPriority) \<Rightarrow>
             (case (case strategy of
                      schedulerStrategyFillFirst \<Rightarrow>
                        pick_first_provider modelKey bestPriority strategy predicate normalized s'
                    | schedulerStrategyWeightedRoundRobin \<Rightarrow>
                        mixed_weighted_pick cursorKey modelKey bestPriority predicate normalized s'
                    | _ \<Rightarrow> mixed_rotation_pick cursorKey modelKey bestPriority predicate normalized s') of
                (Some picked, s'') \<Rightarrow> (Inr picked, s'')
              | (None, s'') \<Rightarrow> mixed_error normalized model predicate (ck_error clock) s''))"

definition pickMixedWithStrategy ::
  "request_ctx \<Rightarrow> string list \<Rightarrow> string \<Rightarrow> (string \<times> go_any) list \<Rightarrow> string list \<Rightarrow> schedulerStrategy \<Rightarrow> pick_clock \<Rightarrow>
     authScheduler \<Rightarrow> (sel_error + Auth \<times> string) \<times> authScheduler" where
  "pickMixedWithStrategy ctx providers model metadata tried strategy clock s =
     (case normalizeProviderKeys providers of
        [] \<Rightarrow> (Inl (auth_error ''provider_not_found'' ''no provider supplied''), s)
      | [providerKey] \<Rightarrow>
          (case pickSingleWithStrategy ctx providerKey model metadata tried strategy clock s of
             (r, s') \<Rightarrow> (map_sum id (\<lambda>a. (a, providerKey)) r, s'))
      | normalized \<Rightarrow>
          (let pinnedAuthID = pinnedAuthIDFromMetadata metadata;
               eligibility = authSelectionEligibilityForRequest ctx metadata;
               strategy = effective_strategy strategy s;
               predicate = scheduledAuthPredicate eligibility tried pinnedAuthID (strategy = schedulerStrategyWeightedRoundRobin)
           in if pinnedAuthID \<noteq> [] then mixed_pinned_pick normalized pinnedAuthID model strategy predicate clock s
              else mixed_pick normalized model strategy predicate clock s))"

definition pickMixed ::
  "request_ctx \<Rightarrow> string list \<Rightarrow> string \<Rightarrow> (string \<times> go_any) list \<Rightarrow> string list \<Rightarrow> pick_clock \<Rightarrow>
     authScheduler \<Rightarrow> (sel_error + Auth \<times> string) \<times> authScheduler" where
  "pickMixed ctx providers model metadata tried clock s =
     pickMixedWithStrategy ctx providers model metadata tried schedulerStrategyCurrent clock s"

section \<open>Shards mirror the credentials of their provider\<close>

text \<open>The credential of an ID that supports a model.\<close>

definition offered :: "string \<Rightarrow> (string \<times> scheduledAuthMeta) list \<Rightarrow> string \<Rightarrow> scheduledAuthMeta option" where
  "offered key auths i =
     (case map_of auths i of None \<Rightarrow> None | Some meta \<Rightarrow> if supportsModel key meta then Some meta else None)"

definition mirrors :: "gotime \<Rightarrow> string \<Rightarrow> (string \<times> scheduledAuthMeta) list \<Rightarrow> modelScheduler \<Rightarrow> bool" where
  "mirrors t key auths m \<longleftrightarrow> mo_modelKey m = key \<and> shard_ok t m \<and>
     (\<forall>i. map_option sd_meta (map_of (mo_entries m) i) = offered key auths i)"

text \<open>Every entry is classified as its credential is at the time.\<close>

definition up_to_date :: "gotime \<Rightarrow> modelScheduler \<Rightarrow> bool" where
  "up_to_date now m \<longleftrightarrow> (\<forall>i e. map_of (mo_entries m) i = Some e \<longrightarrow>
     (sd_state e = scheduledStateReady \<longleftrightarrow> \<not> blocked_at (sd_auth e) (mo_modelKey m) now))"

definition metas_ok :: "string \<Rightarrow> (string \<times> scheduledAuthMeta) list \<Rightarrow> bool" where
  "metas_ok k auths \<longleftrightarrow> wf_map auths \<and>
     (\<forall>i meta. map_of auths i = Some meta \<longrightarrow>
        auth_ID (sm_auth meta) = i \<and> meta_ok meta \<and> sm_providerKey meta = k \<and> i \<noteq> [])"

lemma mirrors_later: "mirrors t key auths m \<Longrightarrow> t \<le> t' \<Longrightarrow> mirrors t' key auths m"
  using shard_ok_later by (auto simp: mirrors_def)

lemma mirrors_same_metas:
  assumes "mirrors t key auths m" "shard_ok t' m'" "mo_modelKey m' = mo_modelKey m"
    and "\<And>i. map_option sd_meta (map_of (mo_entries m') i) = map_option sd_meta (map_of (mo_entries m) i)"
  shows "mirrors t' key auths m'"
  using assms by (simp add: mirrors_def)

lemma mirrors_promote:
  assumes "mirrors t key auths m" "0 \<le> now" "t \<le> now"
  shows "mirrors now key auths (promoteExpiredLocked now m)" "up_to_date now (promoteExpiredLocked now m)"
proof -
  have ok: "shard_ok t m" using assms(1) by (simp add: mirrors_def)
  note sp = promote_spec [OF ok assms(2,3)]
  show "mirrors now key auths (promoteExpiredLocked now m)"
    by (rule mirrors_same_metas [OF assms(1) sp(1)]) (simp_all add: sp(2) option.map_comp comp_def)
  show "up_to_date now (promoteExpiredLocked now m)" using sp(3) by (simp add: up_to_date_def)
qed

lemma status_ready: "fst (scheduled_status a key now) = scheduledStateReady \<longleftrightarrow> \<not> blocked_at a key now"
  by (auto simp: scheduled_status_def split: prod.splits)

lemma upsert_lookup:
  "map_of (mo_entries (upsertEntryLocked meta now m)) i =
     (if i = auth_ID (sm_auth meta)
      then Some \<lparr>sd_meta = meta, sd_auth = sm_auth meta,
        sd_state = fst (scheduled_status (sm_auth meta) (mo_modelKey m) now),
        sd_nextRetryAt = snd (scheduled_status (sm_auth meta) (mo_modelKey m) now)\<rparr>
      else map_of (mo_entries m) i)"
  by (simp add: upsert_entries update_conv')

lemma metas_ok_Cons:
  assumes "metas_ok k ((i, meta) # auths)"
  shows "metas_ok k auths" "auth_ID (sm_auth meta) = i" "meta_ok meta" "map_of auths i = None"
proof -
  have w: "i \<notin> fst ` set auths" "wf_map auths" using assms by (simp_all add: metas_ok_def)
  then show n: "map_of auths i = None" by (simp add: map_of_eq_None_iff)
  show "auth_ID (sm_auth meta) = i" "meta_ok meta" using assms by (auto simp: metas_ok_def split: if_splits)
  have "map_of ((i, meta) # auths) j = Some x" if "map_of auths j = Some x" for j x using that n by auto
  with assms w(2) show "metas_ok k auths" by (simp only: metas_ok_def) blast
qed

lemma fill_shard_spec:
  assumes "0 \<le> now" "metas_ok k auths" "shard_ok now m" "up_to_date now m"
  shows "shard_ok now (fill_shard key now auths m) \<and> up_to_date now (fill_shard key now auths m) \<and>
    mo_modelKey (fill_shard key now auths m) = mo_modelKey m \<and>
    (\<forall>i. map_option sd_meta (map_of (mo_entries (fill_shard key now auths m)) i) =
       (case offered key auths i of Some meta \<Rightarrow> Some meta | None \<Rightarrow> map_option sd_meta (map_of (mo_entries m) i)))"
  using assms(2-4)
proof (induction auths arbitrary: m)
  case (Cons am auths)
  obtain authID meta where am: "am = (authID, meta)" by fastforce
  note mo = metas_ok_Cons [OF Cons.prems(1) [unfolded am]]
  show ?case
  proof (cases "supportsModel key meta")
    case False
    have "offered key (am # auths) i = offered key auths i" for i
      using False mo(4) by (simp add: offered_def am)
    with Cons.IH [OF mo(1) Cons.prems(2,3)] False show ?thesis by (simp add: am)
  next
    case True
    let ?m = "upsertEntryLocked meta now m"
    have ok: "shard_ok now ?m" by (rule upsert_shard_ok [OF Cons.prems(2) mo(3) assms(1) order_refl])
    have "up_to_date now ?m" using Cons.prems(3) by (auto simp: up_to_date_def upsert_lookup status_ready)
    note ih = Cons.IH [OF mo(1) ok this]
    have o: "offered key (am # auths) i = (if i = authID then Some meta else offered key auths i)" for i
      using True by (simp add: offered_def am)
    have "offered key auths authID = None" using mo(4) by (simp add: offered_def)
    then have "(case offered key (am # auths) i of Some x \<Rightarrow> Some x | None \<Rightarrow> map_option sd_meta (map_of (mo_entries m) i)) =
        (case offered key auths i of Some x \<Rightarrow> Some x | None \<Rightarrow> map_option sd_meta (map_of (mo_entries ?m) i))" for i
      using mo(2) by (simp add: upsert_lookup o split: option.split)
    with ih True show ?thesis by (simp add: am)
  qed
qed (simp add: offered_def)

lemma mirrors_fill:
  assumes "0 \<le> now" "metas_ok k auths"
  shows "mirrors now key auths (fill_shard key now auths (empty_shard key))"
    and "up_to_date now (fill_shard key now auths (empty_shard key))"
proof -
  have "up_to_date now (empty_shard key)" by (simp add: up_to_date_def empty_shard_def)
  from fill_shard_spec [OF assms shard_ok_empty this]
  show "mirrors now key auths (fill_shard key now auths (empty_shard key))"
    "up_to_date now (fill_shard key now auths (empty_shard key))"
    by (simp_all add: mirrors_def empty_shard_def option.case_eq_if)
qed

lemma mirrors_upsert:
  assumes "mirrors t key auths m" "meta_ok meta" "0 \<le> now" "t \<le> now" "supportsModel key meta"
  shows "mirrors now key (map_put (auth_ID (sm_auth meta)) meta auths) (upsertEntryLocked meta now m)"
  using assms upsert_shard_ok [of t m meta now]
  by (simp add: mirrors_def upsert_lookup) (simp add: offered_def update_conv')

lemma mirrors_unsupported:
  assumes "mirrors t key auths m" "\<not> supportsModel key meta" "i \<noteq> []"
  shows "mirrors t key (map_put i meta auths) (removeEntryLocked i m)"
  using assms remove_shard_ok [of t m]
  by (simp add: mirrors_def remove_entries) (simp add: offered_def update_conv')

lemma mirrors_remove:
  assumes "mirrors t key auths m" "i \<noteq> []"
  shows "mirrors t key (map_del i auths) (removeEntryLocked i m)"
  using assms remove_shard_ok [of t m]
  by (simp add: mirrors_def remove_entries) (simp add: offered_def delete_conv')

section \<open>Provider schedulers keep their shards in step\<close>

declare map_of_eq_Some_iff [simp del]

definition provider_ok :: "gotime \<Rightarrow> string \<Rightarrow> providerScheduler \<Rightarrow> bool" where
  "provider_ok t k p \<longleftrightarrow> ps_providerKey p = k \<and> metas_ok k (ps_auths p) \<and> wf_map (ps_modelShards p) \<and>
     (\<forall>key m. map_of (ps_modelShards p) key = Some m \<longrightarrow> mirrors t key (ps_auths p) m)"

lemma provider_ok_later: "provider_ok t k p \<Longrightarrow> t \<le> t' \<Longrightarrow> provider_ok t' k p"
  unfolding provider_ok_def by (blast intro: mirrors_later)

lemma fst_map_values [simp]: "fst \<circ> (\<lambda>(k, v). (k, f k v)) = fst"
  by (simp add: fun_eq_iff)

lemma metas_ok_put:
  assumes "metas_ok k auths" "meta_ok meta" "sm_providerKey meta = k" "auth_ID (sm_auth meta) \<noteq> []"
  shows "metas_ok k (map_put (auth_ID (sm_auth meta)) meta auths)"
  using assms by (auto simp: metas_ok_def update_conv' distinct_update split: if_splits)

lemma metas_ok_del: "metas_ok k auths \<Longrightarrow> metas_ok k (map_del i auths)"
  by (auto simp: metas_ok_def delete_conv' distinct_delete split: if_splits)

lemma provider_upsert_ok:
  assumes "provider_ok t k p" "meta_ok meta" "sm_providerKey meta = k" "auth_ID (sm_auth meta) \<noteq> []"
    and "0 \<le> now" "t \<le> now"
  shows "provider_ok now k (provider_upsertAuthLocked meta now p)"
proof -
  let ?p = "provider_upsertAuthLocked meta now p"
  have "mirrors now key (ps_auths ?p) m'" if h: "map_of (ps_modelShards ?p) key = Some m'" for key m'
  proof -
    obtain m where m: "map_of (ps_modelShards p) key = Some m"
      "m' = (if \<not> supportsModel key meta then removeEntryLocked (auth_ID (sm_auth meta)) m else upsertEntryLocked meta now m)"
      using h by (auto simp: provider_upsertAuthLocked_def map_of_map_keys)
    have "mirrors t key (ps_auths p) m" using assms(1) m(1) by (simp add: provider_ok_def)
    from mirrors_upsert [OF this assms(2,5,6)] mirrors_unsupported [OF mirrors_later [OF this assms(6)] _ assms(4)]
    show ?thesis by (simp add: m(2) provider_upsertAuthLocked_def)
  qed
  then show ?thesis
    using assms(1) metas_ok_put [OF _ assms(2-4), of "ps_auths p"]
    unfolding provider_ok_def by (simp add: provider_upsertAuthLocked_def)
qed

lemma provider_remove_ok: "provider_ok t k p \<Longrightarrow> provider_ok t k (provider_removeAuthLocked i p)"
  by (auto simp: provider_ok_def provider_removeAuthLocked_def map_of_map_keys metas_ok_del mirrors_remove)

lemma provider_auths [simp]:
  "map_of (ps_auths (provider_upsertAuthLocked meta now p)) i =
     (if i = auth_ID (sm_auth meta) then Some meta else map_of (ps_auths p) i)"
  "i \<noteq> [] \<Longrightarrow> map_of (ps_auths (provider_removeAuthLocked i p)) j = (if j = i then None else map_of (ps_auths p) j)"
  by (simp_all add: provider_upsertAuthLocked_def provider_removeAuthLocked_def update_conv' delete_conv')

lemma ensure_spec:
  assumes "provider_ok t k p" "0 \<le> now" "t \<le> now" "ensureModelLocked modelKey now p = (m, p')"
  shows "mirrors now (canonicalModelKey modelKey) (ps_auths p) m" "up_to_date now m"
    "p' = p\<lparr>ps_modelShards := map_put (canonicalModelKey modelKey) m (ps_modelShards p)\<rparr>"
    "provider_ok now k p'"
proof -
  let ?key = "canonicalModelKey modelKey"
  show p': "p' = p\<lparr>ps_modelShards := map_put ?key m (ps_modelShards p)\<rparr>"
    using assms(4) by (auto simp: ensureModelLocked_def Let_def)
  have "mirrors now ?key (ps_auths p) m \<and> up_to_date now m"
  proof (cases "map_of (ps_modelShards p) ?key")
    case None
    with assms mirrors_fill [of now k "ps_auths p" ?key] show ?thesis
      by (auto simp: ensureModelLocked_def Let_def provider_ok_def)
  next
    case (Some m0)
    with assms mirrors_promote [of t ?key "ps_auths p" m0 now] show ?thesis
      by (auto simp: ensureModelLocked_def Let_def provider_ok_def)
  qed
  then show m: "mirrors now ?key (ps_auths p) m" "up_to_date now m" by auto
  show "provider_ok now k p'"
    using provider_ok_later [OF assms(1,3)] m(1)
    by (auto simp: provider_ok_def p' update_conv' distinct_update split: if_splits)
qed

section \<open>The invariant of the scheduler\<close>

text \<open>What the scheduler knows of a credential ID in a provider.\<close>

definition known :: "authScheduler \<Rightarrow> string \<Rightarrow> string \<Rightarrow> scheduledAuthMeta option" where
  "known s k i = (case map_of (as_providers s) k of None \<Rightarrow> None | Some p \<Rightarrow> map_of (ps_auths p) i)"

definition providers_ok :: "gotime \<Rightarrow> authScheduler \<Rightarrow> bool" where
  "providers_ok t s \<longleftrightarrow> wf_map (as_providers s) \<and>
     (\<forall>k p. map_of (as_providers s) k = Some p \<longrightarrow> provider_ok t k p)"

text \<open>The owner map says where each credential is; every credential is in one provider.\<close>

definition located :: "authScheduler \<Rightarrow> bool" where
  "located s \<longleftrightarrow> wf_map (as_authProviders s) \<and>
     (\<forall>i k. map_of (as_authProviders s) i = Some k \<longleftrightarrow> known s k i \<noteq> None) \<and>
     (\<forall>i k. known s k i \<noteq> None \<longrightarrow> i \<noteq> [] \<and> trim_space i = i \<and> k \<noteq> [])"

definition scheduler_ok :: "gotime \<Rightarrow> authScheduler \<Rightarrow> bool" where
  "scheduler_ok t s \<longleftrightarrow> 0 \<le> t \<and> providers_ok t s \<and> located s \<and>
     (\<forall>key c. map_of (as_mixedCursors s) key = Some c \<longrightarrow> 0 \<le> c)"

lemma scheduler_ok_later: "scheduler_ok t s \<Longrightarrow> t \<le> t' \<Longrightarrow> scheduler_ok t' s"
  unfolding scheduler_ok_def providers_ok_def by (meson order_trans provider_ok_later)

lemma known_put [simp]:
  "known (s\<lparr>as_providers := map_put k p (as_providers s)\<rparr>) k' i = (if k' = k then map_of (ps_auths p) i else known s k' i)"
  "known (s\<lparr>as_authProviders := x, as_providers := map_put k p (as_providers s)\<rparr>) k' i =
     (if k' = k then map_of (ps_auths p) i else known s k' i)"
  by (simp_all add: known_def update_conv')

lemma known_irrelevant [simp]:
  "known (s\<lparr>as_authProviders := x\<rparr>) = known s" "known (s\<lparr>as_mixedCursors := y\<rparr>) = known s"
  "known (s\<lparr>as_mixedWeightedStates := z\<rparr>) = known s" "known (s\<lparr>as_strategy := w\<rparr>) = known s"
  by (simp_all add: known_def fun_eq_iff)

lemma providers_ok_put:
  "providers_ok t s \<Longrightarrow> provider_ok t k p \<Longrightarrow> providers_ok t (s\<lparr>as_providers := map_put k p (as_providers s)\<rparr>)"
  by (auto simp: providers_ok_def update_conv' distinct_update split: if_splits)

lemma providers_ok_cong: "as_providers s' = as_providers s \<Longrightarrow> providers_ok t s' = providers_ok t s"
  by (simp add: providers_ok_def)

lemma located_iff: "located s \<Longrightarrow> map_of (as_authProviders s) i = Some k \<longleftrightarrow> known s k i \<noteq> None"
  by (simp add: located_def)

lemma located_known: "located s \<Longrightarrow> known s k i \<noteq> None \<Longrightarrow> i \<noteq> [] \<and> trim_space i = i \<and> k \<noteq> []"
  by (simp add: located_def)

lemma locatedI:
  assumes "wf_map (as_authProviders s)" "\<And>i k. map_of (as_authProviders s) i = Some k \<longleftrightarrow> known s k i \<noteq> None"
    and "\<And>i k. known s k i \<noteq> None \<Longrightarrow> i \<noteq> [] \<and> trim_space i = i \<and> k \<noteq> []"
  shows "located s"
  using assms by (simp add: located_def)

lemma remove_from_provider_spec:
  assumes "i \<noteq> []"
  shows "known (remove_from_provider k i s) k' j = (if k' = k \<and> j = i then None else known s k' j)"
    and "providers_ok t s \<Longrightarrow> providers_ok t (remove_from_provider k i s)"
    and "as_authProviders (remove_from_provider k i s) = as_authProviders s"
    and "as_mixedCursors (remove_from_provider k i s) = as_mixedCursors s"
proof -
  show "known (remove_from_provider k i s) k' j = (if k' = k \<and> j = i then None else known s k' j)"
    using assms by (cases "map_of (as_providers s) k") (simp_all add: remove_from_provider_def, simp_all add: known_def)
  show "providers_ok t (remove_from_provider k i s)" if "providers_ok t s"
  proof (cases "map_of (as_providers s) k")
    case (Some p)
    with that have "provider_ok t k p" by (simp add: providers_ok_def)
    from providers_ok_put [OF that provider_remove_ok [OF this]] Some show ?thesis by (simp add: remove_from_provider_def)
  qed (simp add: remove_from_provider_def that)
qed (simp_all add: remove_from_provider_def split: option.splits)

lemma owner:
  assumes "located s"
  shows "map_of (as_authProviders s) i = None \<Longrightarrow> map_str (as_authProviders s) i = [] \<and> (\<forall>k. known s k i = None)"
    and "map_of (as_authProviders s) i = Some k \<Longrightarrow> map_str (as_authProviders s) i = k \<and> k \<noteq> [] \<and> i \<noteq> []"
    and "map_of (as_authProviders s) i = Some k \<Longrightarrow> k' \<noteq> k \<Longrightarrow> known s k' i = None"
proof -
  note lf = located_iff [OF assms, of i]
  show "map_str (as_authProviders s) i = [] \<and> (\<forall>k. known s k i = None)" if "map_of (as_authProviders s) i = None"
    using that lf by (simp add: map_str_def)
  show "map_str (as_authProviders s) i = k \<and> k \<noteq> [] \<and> i \<noteq> []" if "map_of (as_authProviders s) i = Some k"
    using that lf [of k] located_known [OF assms, of k i] by (auto simp: map_str_def)
  show "known s k' i = None" if "map_of (as_authProviders s) i = Some k" "k' \<noteq> k"
    using that lf [of k'] by auto
qed

lemma remove_spec:
  assumes "scheduler_ok t s"
  shows "scheduler_ok t (removeAuthLocked i s)"
    and "known (removeAuthLocked i s) k j = (if j = i then None else known s k j)"
proof -
  have lo: "located s" and pr: "providers_ok t s" using assms by (simp_all add: scheduler_ok_def)
  have "scheduler_ok t (removeAuthLocked i s) \<and> (\<forall>k j. known (removeAuthLocked i s) k j = (if j = i then None else known s k j))"
  proof (cases "map_of (as_authProviders s) i")
    case None
    note ow = owner(1) [OF lo None]
    then have "removeAuthLocked i s = s" by (simp add: removeAuthLocked_def)
    with ow assms show ?thesis by simp
  next
    case (Some k0)
    note ow = owner(2,3) [OF lo Some]
    then have i: "i \<noteq> []" by simp
    let ?s = "(remove_from_provider k0 i s)\<lparr>as_authProviders := map_del i (as_authProviders s)\<rparr>"
    have r: "removeAuthLocked i s = ?s" using ow(1) by (simp add: removeAuthLocked_def)
    have kn: "known ?s k j = (if j = i then None else known s k j)" for k j
      using ow(2) [of k] by (auto simp: remove_from_provider_spec [OF i])
    have "located ?s"
    proof (rule locatedI)
      show "wf_map (as_authProviders ?s)" using lo by (simp add: located_def distinct_delete)
      show "map_of (as_authProviders ?s) j = Some k \<longleftrightarrow> known ?s k j \<noteq> None" for j k
        unfolding kn using located_iff [OF lo, of j k] by (simp add: delete_conv')
      show "known ?s k j \<noteq> None \<Longrightarrow> j \<noteq> [] \<and> trim_space j = j \<and> k \<noteq> []" for j k
        unfolding kn using located_known [OF lo, of k j] by (simp split: if_splits)
    qed
    moreover have "providers_ok t ?s"
      using remove_from_provider_spec(2) [OF i pr] by (simp add: providers_ok_def)
    ultimately have "scheduler_ok t ?s"
      using assms by (simp add: scheduler_ok_def remove_from_provider_spec [OF i])
    with r kn show ?thesis by simp
  qed
  then show "scheduler_ok t (removeAuthLocked i s)"
    "known (removeAuthLocked i s) k j = (if j = i then None else known s k j)" by auto
qed

lemma build_meta_ok [simp]:
  "meta_ok (buildScheduledAuthMeta reg a)" "sm_providerKey (buildScheduledAuthMeta reg a) = executorKeyFromAuth (Some a)"
  "sm_auth (buildScheduledAuthMeta reg a) = a"
  by (simp_all add: meta_ok_def buildScheduledAuthMeta_def)

text \<open>The credentials the scheduler takes: those that are enabled and have an executor.\<close>

definition schedulable :: "Auth \<Rightarrow> bool" where
  "schedulable a \<longleftrightarrow> trim_space (auth_ID a) \<noteq> [] \<and> executorKeyFromAuth (Some a) \<noteq> [] \<and> \<not> auth_Disabled a"

lemma ensure_provider_ok:
  "providers_ok t s \<Longrightarrow> provider_ok t k (ensureProviderLocked k s)"
  by (auto simp: providers_ok_def ensureProviderLocked_def provider_ok_def metas_ok_def split: option.splits)

lemma ensure_provider_auths: "map_of (ps_auths (ensureProviderLocked k s)) i = known s k i"
  by (simp add: ensureProviderLocked_def known_def split: option.splits)

lemma upsert_spec:
  assumes ok: "scheduler_ok t s" and t: "t \<le> now" and tr: "trim_space (auth_ID a) = auth_ID a"
  shows "scheduler_ok now (upsertAuthLocked reg (Some a) now s)"
    and "known (upsertAuthLocked reg (Some a) now s) k j =
      (if j = auth_ID a then if schedulable a \<and> k = executorKeyFromAuth (Some a) then Some (buildScheduledAuthMeta reg a) else None
       else known s k j)"
proof -
  have ok': "scheduler_ok now s" by (rule scheduler_ok_later [OF ok t])
  have "scheduler_ok now (upsertAuthLocked reg (Some a) now s) \<and>
    (\<forall>k j. known (upsertAuthLocked reg (Some a) now s) k j =
      (if j = auth_ID a then if schedulable a \<and> k = executorKeyFromAuth (Some a) then Some (buildScheduledAuthMeta reg a) else None
       else known s k j))"
  proof (cases "schedulable a")
    case False
    then have "upsertAuthLocked reg (Some a) now s = removeAuthLocked (auth_ID a) s"
      using tr by (auto simp: upsertAuthLocked_def schedulable_def Let_def)
    with remove_spec [OF ok'] False show ?thesis by simp
  next
    case True
    let ?i = "auth_ID a" and ?k = "executorKeyFromAuth (Some a)" and ?meta = "buildScheduledAuthMeta reg a"
    have i: "?i \<noteq> []" and k: "?k \<noteq> []" using True tr by (auto simp: schedulable_def)
    have lo: "located s" and pr: "providers_ok now s" using ok' by (simp_all add: scheduler_ok_def)
    let ?prev = "map_str (as_authProviders s) ?i"
    define s1 where "s1 = (if ?prev \<noteq> [] \<and> ?prev \<noteq> ?k then remove_from_provider ?prev ?i s else s)"
    let ?s = "s1\<lparr>as_authProviders := map_put ?i ?k (as_authProviders s1),
        as_providers := map_put ?k (provider_upsertAuthLocked ?meta now (ensureProviderLocked ?k s1)) (as_providers s1)\<rparr>"
    have u: "upsertAuthLocked reg (Some a) now s = ?s"
      using True tr by (auto simp: upsertAuthLocked_def schedulable_def Let_def s1_def)
    have s1: "as_authProviders s1 = as_authProviders s" "as_mixedCursors s1 = as_mixedCursors s" "providers_ok now s1"
      using remove_from_provider_spec [OF i] pr by (simp_all add: s1_def)
    have kn1: "known s1 k' j = (if j = ?i \<and> k' \<noteq> ?k then None else known s k' j)" for k' j
    proof (cases "map_of (as_authProviders s) ?i")
      case None
      then show ?thesis using owner(1) [OF lo None] by (simp add: s1_def)
    next
      case (Some k0)
      note ow = owner(2) [OF lo Some] owner(3) [OF lo Some, of k']
      show ?thesis
      proof (cases "k0 = ?k")
        case True
        then show ?thesis using ow by (auto simp: s1_def)
      next
        case False
        then have "s1 = remove_from_provider k0 ?i s" using ow(1) by (simp add: s1_def)
        then show ?thesis using ow False by (auto simp: remove_from_provider_spec [OF i])
      qed
    qed
    have kn: "known ?s k' j = (if j = ?i then if k' = ?k then Some ?meta else None else known s k' j)" for k' j
      using kn1 [of k' j] by (auto simp: ensure_provider_auths)
    have "provider_ok now ?k (provider_upsertAuthLocked ?meta now (ensureProviderLocked ?k s1))"
      using ensure_provider_ok [OF s1(3)] i ok' by (intro provider_upsert_ok [where t = now]) (simp_all add: scheduler_ok_def)
    then have "providers_ok now ?s" using providers_ok_put [OF s1(3)] by (simp add: providers_ok_def)
    moreover have "located ?s"
    proof (rule locatedI)
      show "wf_map (as_authProviders ?s)" using lo by (simp add: located_def distinct_update s1(1))
      show "map_of (as_authProviders ?s) j = Some k' \<longleftrightarrow> known ?s k' j \<noteq> None" for j k'
        unfolding kn using located_iff [OF lo, of j k'] by (auto simp: update_conv' s1(1))
      show "known ?s k' j \<noteq> None \<Longrightarrow> j \<noteq> [] \<and> trim_space j = j \<and> k' \<noteq> []" for j k'
        unfolding kn using located_known [OF lo, of k' j] i k tr by (simp split: if_splits)
    qed
    ultimately show ?thesis using u kn True ok' s1(2) by (simp add: scheduler_ok_def)
  qed
  then show "scheduler_ok now (upsertAuthLocked reg (Some a) now s)"
    "known (upsertAuthLocked reg (Some a) now s) k j =
      (if j = auth_ID a then if schedulable a \<and> k = executorKeyFromAuth (Some a) then Some (buildScheduledAuthMeta reg a) else None
       else known s k j)" by auto
qed

lemma rebuild_ok:
  assumes "scheduler_ok t s" "t \<le> now" "\<forall>a\<in>set auths. \<forall>b. a = Some b \<longrightarrow> trim_space (auth_ID b) = auth_ID b"
  shows "scheduler_ok now (rebuild reg auths now s)"
proof -
  have "scheduler_ok now (fold (\<lambda>auth. upsertAuthLocked reg auth now) auths s')" if "scheduler_ok now s'" for s'
    using that assms(3)
  proof (induction auths arbitrary: s')
    case (Cons a auths)
    have "scheduler_ok now (upsertAuthLocked reg a now s')"
    proof (cases a)
      case None
      then show ?thesis using Cons.prems(1) by (simp add: upsertAuthLocked_def)
    next
      case (Some b)
      then show ?thesis using upsert_spec(1) [OF Cons.prems(1) order_refl] Cons.prems(2) by simp
    qed
    from Cons.IH [OF this] Cons.prems(2) show ?case by simp
  qed simp
  moreover have "scheduler_ok now (s\<lparr>as_providers := [], as_authProviders := [], as_mixedCursors := [], as_mixedWeightedStates := []\<rparr>)"
    using assms by (simp add: scheduler_ok_def providers_ok_def located_def known_def)
  ultimately show ?thesis by (simp add: rebuild_def)
qed

section \<open>What a request can be served by\<close>

definition ready_entry :: "scheduledAuthMeta \<Rightarrow> scheduledAuth" where
  "ready_entry meta = \<lparr>sd_meta = meta, sd_auth = sm_auth meta, sd_state = scheduledStateReady, sd_nextRetryAt = 0\<rparr>"

text \<open>A credential of the provider that supports the model, that the request accepts, and that is not
  blocked for the model at the time.\<close>

definition serves :: "authScheduler \<Rightarrow> string \<Rightarrow> string \<Rightarrow> predicate \<Rightarrow> gotime \<Rightarrow> scheduledAuthMeta \<Rightarrow> bool" where
  "serves s k key pred now meta \<longleftrightarrow> (\<exists>i. known s k i = Some meta) \<and> supportsModel key meta \<and>
     pred (ready_entry meta) \<and> \<not> blocked_at (sm_auth meta) key now"

definition request_filter :: "schedulerStrategy \<Rightarrow> predicate \<Rightarrow> bool" where
  "request_filter strategy pred \<longleftrightarrow> stable_filter pred \<and>
     (\<forall>e. sd_auth e = sm_auth (sd_meta e) \<longrightarrow> pred e = pred (ready_entry (sd_meta e))) \<and>
     (strategy = schedulerStrategyWeightedRoundRobin \<longrightarrow> (\<forall>e. pred e \<longrightarrow> 0 < sm_weight (sd_meta e)))"

lemma predicate_filter:
  "request_filter strategy (scheduledAuthPredicate el tried pinned (strategy = schedulerStrategyWeightedRoundRobin))"
  by (auto simp: request_filter_def stable_filter_def scheduledAuthPredicate_def ready_entry_def)

lemma mirror_entry:
  assumes "mirrors t key auths m" "map_of (mo_entries m) i = Some e"
  shows "sd_auth e = sm_auth (sd_meta e)" "offered key auths i = Some (sd_meta e)" "mo_modelKey m = key"
    and "sm_priority (sd_meta e) = prio (sm_auth (sd_meta e))" "auth_ID (sd_auth e) = i"
proof -
  have ok: "index_ok m" using assms(1) by (simp add: mirrors_def shard_ok_def)
  have "entry_ok (i, e)"
    using ok map_of_SomeD [OF assms(2)] by (auto simp: index_ok_def entries_ok_def list_all_iff)
  then show "sd_auth e = sm_auth (sd_meta e)" "sm_priority (sd_meta e) = prio (sm_auth (sd_meta e))" "auth_ID (sd_auth e) = i"
    by (simp_all add: entry_ok_def)
  have "map_option sd_meta (map_of (mo_entries m) i) = offered key auths i" "mo_modelKey m = key"
    using assms(1) by (simp_all add: mirrors_def)
  then show "offered key auths i = Some (sd_meta e)" "mo_modelKey m = key" using assms(2) by simp_all
qed

lemma offered_known:
  assumes "map_of (as_providers s) k = Some p"
  shows "(\<exists>i. offered key (ps_auths p) i = Some meta) \<longleftrightarrow> (\<exists>i. known s k i = Some meta) \<and> supportsModel key meta"
  using assms by (auto simp: offered_def known_def split: option.splits if_splits)

lemma mirror_candidates:
  assumes m: "mirrors t key (ps_auths p) m" and p: "map_of (as_providers s) k = Some p" and f: "request_filter strategy pred"
  shows "(\<exists>i e. candidate m pred now i e \<and> sd_meta e = meta) \<longleftrightarrow> serves s k key pred now meta"
proof
  assume "\<exists>i e. candidate m pred now i e \<and> sd_meta e = meta"
  then obtain i e where e: "map_of (mo_entries m) i = Some e" "pred e" "\<not> blocked_at (sd_auth e) (mo_modelKey m) now" "sd_meta e = meta"
    by (auto simp: candidate_def)
  note me = mirror_entry [OF m e(1)]
  have "pred (ready_entry meta)" using f me(1) e(2,4) by (auto simp: request_filter_def)
  with me e(3,4) offered_known [OF p, of key meta] show "serves s k key pred now meta" by (auto simp: serves_def)
next
  assume s: "serves s k key pred now meta"
  then obtain i where i: "offered key (ps_auths p) i = Some meta" using offered_known [OF p, of key meta] by (auto simp: serves_def)
  have "map_option sd_meta (map_of (mo_entries m) i) = offered key (ps_auths p) i" using m by (simp add: mirrors_def)
  then obtain e where e: "map_of (mo_entries m) i = Some e" "sd_meta e = meta" using i by auto
  note me = mirror_entry [OF m e(1)]
  have "pred e" using f me(1) e(2) s by (auto simp: request_filter_def serves_def)
  moreover have "\<not> blocked_at (sd_auth e) (mo_modelKey m) now" using me(1,3) s e(2) by (simp add: serves_def)
  ultimately have "candidate m pred now i e" using e(1) by (simp add: candidate_def)
  with e(2) show "\<exists>i e. candidate m pred now i e \<and> sd_meta e = meta" by blast
qed

section \<open>Picks from one shard\<close>

lemma put_shard_ok:
  assumes "scheduler_ok t s" "map_of (as_providers s) k = Some p0" "ps_auths p = ps_auths p0" "provider_ok t k p"
    and "mirrors t key (ps_auths p) m"
  shows "scheduler_ok t (put_shard k m p s)" "known (put_shard k m p s) = known s"
    "as_strategy (put_shard k m p s) = as_strategy s"
proof -
  have kn: "known (put_shard k m p s) k' i = known s k' i" for k' i
    using assms(2,3) by (simp add: put_shard_def) (simp add: known_def)
  have "mo_modelKey m = key" using assms(5) by (simp add: mirrors_def)
  then have "provider_ok t k (p\<lparr>ps_modelShards := map_put (mo_modelKey m) m (ps_modelShards p)\<rparr>)"
    using assms(4,5) by (auto simp: provider_ok_def update_conv' distinct_update split: if_splits)
  then have "providers_ok t (put_shard k m p s)"
    using assms(1) by (simp add: put_shard_def providers_ok_put scheduler_ok_def)
  moreover have "located (put_shard k m p s)"
    using assms(1) unfolding scheduler_ok_def located_def kn by (simp add: put_shard_def)
  ultimately show "scheduler_ok t (put_shard k m p s)" using assms(1) by (simp add: scheduler_ok_def put_shard_def)
  show "known (put_shard k m p s) = known s" using kn by (simp add: fun_eq_iff)
qed (simp add: put_shard_def)

lemma shard_pick_spec:
  assumes ok: "scheduler_ok t s" and p: "map_of (as_providers s) k = Some p" and t: "t \<le> ck_shard clock" "ck_shard clock \<le> ck_pick clock"
    and f: "request_filter strategy pred"
    and pick: "shard_pick k p modelKey errorProvider ws strategy pred clock model s = (r, s')"
  shows "scheduler_ok (ck_pick clock) s'" "known s' = known s"
    and "case r of Inl _ \<Rightarrow> \<forall>meta. \<not> serves s k (canonicalModelKey modelKey) pred (ck_pick clock) meta
      | Inr a \<Rightarrow> \<exists>meta. top_choice ws (serves s k (canonicalModelKey modelKey) pred (ck_pick clock)) meta \<and> a = sm_auth meta"
proof -
  let ?key = "canonicalModelKey modelKey" and ?t = "ck_shard clock" and ?now = "ck_pick clock"
  have t0: "0 \<le> ?t" "0 \<le> ?now" using ok t by (simp_all add: scheduler_ok_def)
  have po: "provider_ok t k p" using ok p by (simp add: scheduler_ok_def providers_ok_def)
  obtain m p' where en: "ensureModelLocked modelKey ?t p = (m, p')" by fastforce
  obtain q m' where pr: "pickReadyLocked ws strategy pred ?now m = (q, m')" by fastforce
  note es = ensure_spec [OF po t0(1) t(1) en]
  have sh: "shard_ok ?t m" using es(1) by (simp add: mirrors_def)
  have w: "\<forall>e. pred e \<longrightarrow> 0 < sm_weight (sd_meta e)" if "strategy = schedulerStrategyWeightedRoundRobin"
    using f that by (simp add: request_filter_def)
  have st: "stable_filter pred" using f by (simp add: request_filter_def)
  note sp = pick_ready_spec [OF sh t0(2) t(2) st w pr]
  have mm: "mirrors ?now ?key (ps_auths p) m'"
    by (rule mirrors_same_metas [OF mirrors_promote(1) [OF es(1) t0(2) t(2)] sp(1)]) (simp_all add: sp(2,3))
  have res: "s' = put_shard k m' p' s" "r = (case q of Some a \<Rightarrow> Inr a | None \<Rightarrow> Inl (unavailableErrorLocked errorProvider model pred (ck_error clock) m'))"
    using pick by (auto simp: shard_pick_def en pr)
  have okn: "scheduler_ok ?now s" using scheduler_ok_later [OF ok] t by simp
  have pa: "ps_auths p' = ps_auths p" using es(3) by simp
  note pu = put_shard_ok [OF okn p pa provider_ok_later [OF es(4) t(2)], unfolded pa, OF mm]
  then show "scheduler_ok ?now s'" "known s' = known s" by (simp_all add: res(1))
  note mc = mirror_candidates [OF es(1) p f, of ?now]
  have able: "(\<lambda>x. \<exists>i e. candidate m pred ?now i e \<and> sd_meta e = x) = serves s k ?key pred ?now"
    by (rule ext) (rule mc)
  show "case r of Inl _ \<Rightarrow> \<forall>meta. \<not> serves s k ?key pred ?now meta
      | Inr a \<Rightarrow> \<exists>meta. top_choice ws (serves s k ?key pred ?now) meta \<and> a = sm_auth meta"
  proof (cases q)
    case None
    with sp(4) have "\<not> serves s k ?key pred ?now meta" for meta using mc [of meta] by auto
    with None res(2) show ?thesis by simp
  next
    case (Some a)
    from pick_ready_top [OF sh t0(2) t(2) st w pr [unfolded Some]] obtain i e where
      e: "candidate m pred ?now i e" "a = sd_auth e" "top_choice ws (serves s k ?key pred ?now) (sd_meta e)"
      unfolding able by blast
    have "sd_auth e = sm_auth (sd_meta e)" using mirror_entry(1) [OF es(1), of i e] e(1) by (simp add: candidate_def)
    with e Some res(2) show ?thesis by auto
  qed
qed

end
