(* ===== verification/Mixed_Picks.thy ===== *)
theory Mixed_Picks
  imports Auth_Scheduler
begin

text \<open>
  Correctness of the scheduler's picks: the proofs about the picks across providers, the reachable
  states of the scheduler, and the properties of its operations.
\<close>

declare map_of_eq_Some_iff [simp del]

section \<open>Picks across providers\<close>

text \<open>Every requested provider the scheduler knows has an up-to-date shard of the model.\<close>

definition prepared :: "gotime \<Rightarrow> string \<Rightarrow> string list \<Rightarrow> authScheduler \<Rightarrow> bool" where
  "prepared now modelKey ks s \<longleftrightarrow> scheduler_ok now s \<and>
     (\<forall>k\<in>set ks. map_of (as_providers s) k \<noteq> None \<longrightarrow> (\<exists>m. shard_of modelKey s k = Some m \<and> up_to_date now m))"

abbreviation has_priority :: "authScheduler \<Rightarrow> string \<Rightarrow> string \<Rightarrow> predicate \<Rightarrow> gotime \<Rightarrow> int \<Rightarrow> bool" where
  "has_priority s k modelKey pred now q \<equiv>
     \<exists>meta. serves s k (canonicalModelKey modelKey) pred now meta \<and> sm_priority meta = q"

lemma serves_cong: "known s' = known s \<Longrightarrow> serves s' = serves s"
  by (simp add: serves_def fun_eq_iff)

lemma shard_of_ok:
  assumes "scheduler_ok now s" "shard_of modelKey s k = Some m"
  obtains p where "map_of (as_providers s) k = Some p" "provider_ok now k p" "mirrors now (canonicalModelKey modelKey) (ps_auths p) m"
  using assms that by (auto simp: shard_of_def scheduler_ok_def providers_ok_def provider_ok_def split: option.splits)

lemma accepted_up_to_date:
  assumes "index_ok m" "up_to_date now m"
  shows "i \<in> set (accepted_ids m pred q) \<longleftrightarrow> (\<exists>e. candidate m pred now i e \<and> sm_priority (sd_meta e) = q)"
proof -
  have wf: "wf_map (mo_entries m)" using assms(1) by (simp add: index_ok_def entries_ok_def)
  show ?thesis
    using assms(2) by (cases "map_of (mo_entries m) i")
      (auto simp: set_ready_ids [OF wf] candidate_def entry_satisfies_def up_to_date_def)
qed

lemma accepted_serves:
  assumes m: "mirrors now key (ps_auths p) m" and u: "up_to_date now m"
    and p: "map_of (as_providers s) k = Some p" and f: "request_filter strategy pred"
  shows "accepted_ids m pred q \<noteq> [] \<longleftrightarrow> (\<exists>meta. serves s k key pred now meta \<and> sm_priority meta = q)"
proof -
  have idx: "index_ok m" using m by (simp add: mirrors_def shard_ok_def)
  have "accepted_ids m pred q \<noteq> [] \<longleftrightarrow> (\<exists>i. i \<in> set (accepted_ids m pred q))" by (cases "accepted_ids m pred q") auto
  also have "\<dots> \<longleftrightarrow> (\<exists>meta. (\<exists>i e. candidate m pred now i e \<and> sd_meta e = meta) \<and> sm_priority meta = q)"
    unfolding accepted_up_to_date [OF idx u] by blast
  finally show ?thesis unfolding mirror_candidates [OF m p f] .
qed

lemma set_shard_prepared:
  assumes pr: "prepared now modelKey ks s" and m: "shard_of modelKey s k = Some m"
    and m': "index_ok m'" "mo_entries m' = mo_entries m" "mo_modelKey m' = mo_modelKey m"
  shows "prepared now modelKey ks (set_shard k m' s)" "known (set_shard k m' s) = known s"
    "as_mixedCursors (set_shard k m' s) = as_mixedCursors s"
proof -
  let ?key = "canonicalModelKey modelKey"
  have ok: "scheduler_ok now s" using pr by (simp add: prepared_def)
  obtain p where p: "map_of (as_providers s) k = Some p" "provider_ok now k p" "mirrors now ?key (ps_auths p) m"
    by (rule shard_of_ok [OF ok m])
  have "shard_ok now m" using p(3) by (simp add: mirrors_def)
  then have "shard_ok now m'" using m' unfolding shard_ok_def by simp
  from mirrors_same_metas [OF p(3) this m'(3)] have mm: "mirrors now ?key (ps_auths p) m'" by (simp add: m'(2))
  have s: "set_shard k m' s = put_shard k m' p s" by (simp add: set_shard_def p(1))
  note pu = put_shard_ok [OF ok p(1) refl p(2) mm]
  show "known (set_shard k m' s) = known s" by (simp add: s pu(2))
  show "as_mixedCursors (set_shard k m' s) = as_mixedCursors s" by (simp add: s put_shard_def)
  have key: "mo_modelKey m' = ?key" using mm by (simp add: mirrors_def)
  have so: "shard_of modelKey (set_shard k m' s) k' = (if k' = k then Some m' else shard_of modelKey s k')" for k'
    by (simp add: s shard_of_def put_shard_def update_conv' key)
  have pv: "map_of (as_providers (set_shard k m' s)) k' \<noteq> None \<longleftrightarrow> map_of (as_providers s) k' \<noteq> None" for k'
    using p(1) by (simp add: s put_shard_def update_conv')
  have "up_to_date now m'" if "k \<in> set ks"
    using that pr p(1) m m'(2,3) by (auto simp: prepared_def up_to_date_def)
  then show "prepared now modelKey ks (set_shard k m' s)"
    using pr pu(1) unfolding prepared_def so pv s [symmetric] by auto
qed

text \<open>One pick at a priority from the shard of a requested provider.\<close>

lemma prepared_pick:
  assumes pr: "prepared now modelKey ks s" and k: "k \<in> set ks" and m: "shard_of modelKey s k = Some m"
    and f: "request_filter strategy pred" and st: "strat = strategy \<or> strat \<noteq> schedulerStrategyWeightedRoundRobin"
    and pick: "pickReadyAtPriorityLocked False q strat pred m = (r, m')"
  shows "prepared now modelKey ks (set_shard k m' s)" "known (set_shard k m' s) = known s"
    "as_mixedCursors (set_shard k m' s) = as_mixedCursors s"
    and "case r of None \<Rightarrow> \<not> has_priority s k modelKey pred now q
      | Some a \<Rightarrow> \<exists>meta. serves s k (canonicalModelKey modelKey) pred now meta \<and> sm_priority meta = q \<and> a = sm_auth meta"
proof -
  let ?key = "canonicalModelKey modelKey"
  have ok: "scheduler_ok now s" using pr by (simp add: prepared_def)
  obtain p where p: "map_of (as_providers s) k = Some p" "provider_ok now k p" "mirrors now ?key (ps_auths p) m"
    by (rule shard_of_ok [OF ok m])
  have u: "up_to_date now m" using pr k p(1) m by (auto simp: prepared_def)
  have idx: "index_ok m" using p(3) by (simp add: mirrors_def shard_ok_def)
  have w: "\<forall>e. pred e \<longrightarrow> 0 < sm_weight (sd_meta e)" if "strat = schedulerStrategyWeightedRoundRobin"
    using f that st by (auto simp: request_filter_def)
  note sp = pick_at_priority_spec [OF idx w pick]
  show "prepared now modelKey ks (set_shard k m' s)" "known (set_shard k m' s) = known s"
    "as_mixedCursors (set_shard k m' s) = as_mixedCursors s"
    using set_shard_prepared [OF pr m sp(1-3)] by blast+
  show "case r of None \<Rightarrow> \<not> has_priority s k modelKey pred now q
      | Some a \<Rightarrow> \<exists>meta. serves s k ?key pred now meta \<and> sm_priority meta = q \<and> a = sm_auth meta"
  proof (cases r)
    case None
    with sp(4) accepted_serves [OF p(3) u p(1) f, of q] show ?thesis by simp
  next
    case (Some a)
    with sp(4) obtain i where i: "i \<in> set (accepted_ids m pred q)" "entry_auth (mo_entries m) i = Some a" by auto
    then obtain e where e: "candidate m pred now i e" "sm_priority (sd_meta e) = q"
      using accepted_up_to_date [OF idx u, of i pred q] by blast
    have "serves s k ?key pred now (sd_meta e)" using mirror_candidates [OF p(3,1) f, of now "sd_meta e"] e(1) by auto
    moreover have "a = sm_auth (sd_meta e)"
      using e(1) i(2) mirror_entry(1) [OF p(3), of i e] by (simp add: candidate_def entry_auth_def)
    ultimately show ?thesis using Some e(2) by auto
  qed
qed

lemma prepared_no_shard:
  assumes "prepared now modelKey ks s" "k \<in> set ks" "shard_of modelKey s k = None"
  shows "\<not> serves s k key pred t meta"
  using assms by (auto simp: prepared_def serves_def known_def split: option.splits)

definition best_of :: "(int \<Rightarrow> bool) \<Rightarrow> int option \<Rightarrow> bool" where
  "best_of P best \<longleftrightarrow> (case best of None \<Rightarrow> \<forall>q. \<not> P q | Some b \<Rightarrow> P b \<and> (\<forall>q. P q \<longrightarrow> q \<le> b))"

lemma best_of_better:
  "best_of P x \<Longrightarrow> best_of Q y \<Longrightarrow> best_of (\<lambda>q. P q \<or> Q q) (better_priority x y)"
  by (fastforce simp: best_of_def better_priority_def split: option.splits)

lemma best_of_cong: "best_of P x \<Longrightarrow> (\<And>q. P q = Q q) \<Longrightarrow> best_of Q x"
proof -
  assume "best_of P x" "\<And>q. P q = Q q"
  moreover from this(2) have "P = Q" by (simp add: fun_eq_iff)
  ultimately show "best_of Q x" by simp
qed

lemma put_shard_prepared:
  assumes "scheduler_ok now s" "map_of (as_providers s) k = Some p" "ensureModelLocked modelKey now p = (m, p')"
  shows "scheduler_ok now (put_shard k m p' s)" "known (put_shard k m p' s) = known s"
    "shard_of modelKey (put_shard k m p' s) k = Some m" "up_to_date now m" "mirrors now (canonicalModelKey modelKey) (ps_auths p) m"
    "k' \<noteq> k \<Longrightarrow> map_of (as_providers (put_shard k m p' s)) k' = map_of (as_providers s) k'"
    "as_mixedCursors (put_shard k m p' s) = as_mixedCursors s" "as_strategy (put_shard k m p' s) = as_strategy s"
    "as_mixedWeightedStates (put_shard k m p' s) = as_mixedWeightedStates s"
proof -
  have po: "provider_ok now k p" "0 \<le> now" using assms by (simp_all add: scheduler_ok_def providers_ok_def)
  note es = ensure_spec [OF po order_refl assms(3)]
  have pa: "ps_auths p' = ps_auths p" using es(3) by simp
  note pu = put_shard_ok [OF assms(1,2) pa es(4), unfolded pa, OF es(1)]
  show "scheduler_ok now (put_shard k m p' s)" "known (put_shard k m p' s) = known s" by (rule pu(1), rule pu(2))
  have "mo_modelKey m = canonicalModelKey modelKey" using es(1) by (simp add: mirrors_def)
  then show "shard_of modelKey (put_shard k m p' s) k = Some m" by (simp add: shard_of_def put_shard_def update_conv')
  show "up_to_date now m" "mirrors now (canonicalModelKey modelKey) (ps_auths p) m" by (rule es(2), rule es(1))
qed (simp_all add: put_shard_def update_conv')

lemma mixed_loop_spec:
  assumes "scheduler_ok now s" "distinct ks" "request_filter strategy pred" "mixed_loop modelKey now pred ks s best = (s', best')"
    and "best_of B best"
  shows "prepared now modelKey ks s' \<and> known s' = known s \<and> as_mixedCursors s' = as_mixedCursors s \<and>
    (\<forall>k. k \<notin> set ks \<longrightarrow> map_of (as_providers s') k = map_of (as_providers s) k) \<and>
    best_of (\<lambda>q. B q \<or> (\<exists>k\<in>set ks. has_priority s k modelKey pred now q)) best'"
  using assms(1,2,4,5)
proof (induction ks arbitrary: s best B)
  case (Cons k ks)
  let ?key = "canonicalModelKey modelKey"
  show ?case
  proof (cases "map_of (as_providers s) k")
    case None
    have l: "mixed_loop modelKey now pred ks s best = (s', best')" using Cons.prems(3) None by simp
    have "\<not> serves s k ?key pred now meta" for meta using None by (simp add: serves_def known_def)
    moreover from Cons.IH [OF Cons.prems(1) _ l Cons.prems(4)] Cons.prems(2)
    have ih: "prepared now modelKey ks s'" "known s' = known s" "as_mixedCursors s' = as_mixedCursors s"
      "\<forall>k. k \<notin> set ks \<longrightarrow> map_of (as_providers s') k = map_of (as_providers s) k"
      "best_of (\<lambda>q. B q \<or> (\<exists>k\<in>set ks. has_priority s k modelKey pred now q)) best'" by auto
    moreover have "map_of (as_providers s') k = None" using ih(4) Cons.prems(2) None by simp
    ultimately show ?thesis by (auto simp: prepared_def)
  next
    case (Some p)
    obtain m p' where en: "ensureModelLocked modelKey now p = (m, p')" by fastforce
    note pu = put_shard_prepared [OF Cons.prems(1) Some en]
    let ?s = "put_shard k m p' s"
    let ?B = "\<lambda>q. has_priority s k modelKey pred now q \<or> B q"
    have idx: "index_ok m" using pu(5) by (simp add: mirrors_def shard_ok_def)
    have "best_of (\<lambda>q. has_priority s k modelKey pred now q) (highestReadyPriorityLocked False pred m)"
      using highest_ready_spec [OF idx, of pred] accepted_serves [OF pu(5,4) Some assms(3)]
      by (simp add: best_of_def split: option.splits)
    from best_of_better [OF this Cons.prems(4)]
    have b: "best_of ?B (better_priority (highestReadyPriorityLocked False pred m) best)" .
    have l: "mixed_loop modelKey now pred ks ?s (better_priority (highestReadyPriorityLocked False pred m) best) = (s', best')"
      using Cons.prems(3) Some en by simp
    have sv: "serves ?s = serves s" by (rule serves_cong) (rule pu(2))
    from Cons.IH [OF pu(1) _ l b] Cons.prems(2)
    have ih: "prepared now modelKey ks s'" "known s' = known s" "as_mixedCursors s' = as_mixedCursors s"
      "\<forall>k. k \<notin> set ks \<longrightarrow> map_of (as_providers s') k = map_of (as_providers ?s) k"
      "best_of (\<lambda>q. ?B q \<or> (\<exists>k\<in>set ks. has_priority s k modelKey pred now q)) best'"
      using pu(2,7) unfolding sv by auto
    have "k \<notin> set ks" using Cons.prems(2) by simp
    with ih(4) pu(3) have "shard_of modelKey s' k = Some m" by (simp add: shard_of_def)
    with ih(1) pu(4) have "prepared now modelKey (k # ks) s'" by (auto simp: prepared_def)
    moreover have "best_of (\<lambda>q. B q \<or> (\<exists>k\<in>set (k # ks). has_priority s k modelKey pred now q)) best'"
      by (rule best_of_cong [OF ih(5)]) auto
    ultimately show ?thesis using ih(2-4) pu(6) by auto
  qed
qed (auto simp: prepared_def best_of_def)

lemma pick_first_provider_spec:
  assumes "prepared now modelKey ks s" "set ks' \<subseteq> set ks" "request_filter strategy pred"
    and "pick_first_provider modelKey q strategy pred ks' s = (r, s')"
  shows "prepared now modelKey ks s' \<and> known s' = known s \<and>
    (case r of None \<Rightarrow> \<forall>k\<in>set ks'. \<not> has_priority s k modelKey pred now q
      | Some (a, k) \<Rightarrow> k \<in> set ks' \<and>
          (\<exists>meta. serves s k (canonicalModelKey modelKey) pred now meta \<and> sm_priority meta = q \<and> a = sm_auth meta))"
  using assms(1,2,4)
proof (induction ks' arbitrary: s)
  case (Cons k ks')
  have k: "k \<in> set ks" using Cons.prems(2) by simp
  show ?case
  proof (cases "shard_of modelKey s k")
    case None
    with Cons.IH [OF Cons.prems(1)] Cons.prems(2,3) prepared_no_shard [OF Cons.prems(1) k None] show ?thesis
      by (auto split: option.splits)
  next
    case (Some m)
    obtain x m' where pk: "pickReadyAtPriorityLocked False q strategy pred m = (x, m')" by fastforce
    note pp = prepared_pick [OF Cons.prems(1) k Some assms(3) _ pk, simplified]
    show ?thesis
    proof (cases x)
      case None
      have sv: "serves (set_shard k m' s) = serves s" by (rule serves_cong) (rule pp(2))
      have l: "pick_first_provider modelKey q strategy pred ks' (set_shard k m' s) = (r, s')"
        using Cons.prems(3) Some pk None by simp
      from Cons.IH [OF pp(1) _ l] Cons.prems(2) pp(2,4) None show ?thesis
        unfolding sv by (auto split: option.splits)
    next
      case (Some a)
      then have "r = Some (a, k)" "s' = set_shard k m' s" using Cons.prems(3) \<open>shard_of modelKey s k = Some m\<close> pk by auto
      with pp Some show ?thesis by auto
    qed
  qed
qed auto

text \<open>The slot of the mixed cursor always falls into the segment of a provider that has candidates.\<close>

lemma start_index_spec:
  assumes "a \<le> slot" "slot < a + sum_list ws"
  shows "\<exists>j<length ws. start_index ws (segments ws a) slot k = Some (k + j) \<and> ws ! j \<noteq> 0 \<and>
    a + sum_list (take j ws) \<le> slot \<and> slot < a + sum_list (take (Suc j) ws)"
  using assms
proof (induction ws arbitrary: a k)
  case (Cons w ws)
  show ?case
  proof (cases "slot < a + w")
    case True
    with Cons.prems show ?thesis by (intro exI [of _ 0]) auto
  next
    case False
    with Cons.IH [of "a + w" "Suc k"] Cons.prems obtain j where
      "j < length ws" "start_index ws (segments ws (a + w)) slot (Suc k) = Some (Suc k + j)" "ws ! j \<noteq> 0"
      "a + w + sum_list (take j ws) \<le> slot" "slot < a + w + sum_list (take (Suc j) ws)" by auto
    with False show ?thesis by (intro exI [of _ "Suc j"]) auto
  qed
qed simp

lemma go_rem_range: "0 \<le> a \<Longrightarrow> 0 < b \<Longrightarrow> go_rem a b = a mod b"
  by (simp add: go_rem_def go_div_nonneg minus_div_mult_eq_mod mult.commute [of b] minus_mult_div_eq_mod)

lemma ready_count:
  assumes "index_ok m"
  shows "readyCountAtPriorityLocked False q pred m = length (accepted_ids m pred q)"
proof -
  have "bucket_ok (mo_entries m) q (map_of (mo_readyByPriority m) q)" using assms by (simp add: index_ok_def)
  then show ?thesis by (auto simp: readyCountAtPriorityLocked_def uses_ws_def bucket_ok_def split: option.splits)
qed

lemma provider_weight_pos:
  assumes pr: "prepared now modelKey ks s" and k: "k \<in> set ks" and f: "request_filter strategy pred"
  shows "provider_weight modelKey q pred s k \<noteq> 0 \<longleftrightarrow> has_priority s k modelKey pred now q"
proof (cases "shard_of modelKey s k")
  case None
  with prepared_no_shard [OF pr k None] show ?thesis by (simp add: provider_weight_def)
next
  case (Some m)
  have ok: "scheduler_ok now s" using pr by (simp add: prepared_def)
  obtain p where p: "map_of (as_providers s) k = Some p" "mirrors now (canonicalModelKey modelKey) (ps_auths p) m"
    by (rule shard_of_ok [OF ok Some])
  have u: "up_to_date now m" using pr k p(1) Some by (auto simp: prepared_def)
  have "index_ok m" using p(2) by (simp add: mirrors_def shard_ok_def)
  from ready_count [OF this] accepted_serves [OF p(2) u p(1) f, of q] Some show ?thesis
    by (simp add: provider_weight_def)
qed

lemma mixed_rotation_spec:
  assumes pr: "prepared now modelKey ks s" and f: "request_filter strategy pred"
    and ex: "\<exists>k\<in>set ks. has_priority s k modelKey pred now q"
    and pick: "mixed_rotation_pick cursorKey modelKey q pred ks s = (r, s')"
  shows "scheduler_ok now s' \<and> known s' = known s \<and>
    (\<exists>a k meta. r = Some (a, k) \<and> k \<in> set ks \<and> serves s k (canonicalModelKey modelKey) pred now meta \<and>
      sm_priority meta = q \<and> a = sm_auth meta)"
proof -
  let ?ws = "map (provider_weight modelKey q pred s) ks"
  let ?W = "sum_list ?ws"
  let ?c = "case map_of (as_mixedCursors s) cursorKey of None \<Rightarrow> 0 | Some c \<Rightarrow> c"
  note wp = provider_weight_pos [OF pr _ f, of _ q]
  obtain k0 where "k0 \<in> set ks" "provider_weight modelKey q pred s k0 \<noteq> 0" using ex wp by auto
  then have W: "?W \<noteq> 0" by (auto simp: sum_list_eq_0_iff)
  have c: "0 \<le> ?c" using pr by (simp add: prepared_def scheduler_ok_def split: option.splits)
  have slot: "nat (go_rem c (int n)) < n" if "0 \<le> c" "n \<noteq> 0" for c n
    using that go_rem_range [of c "int n"] pos_mod_bound [of "int n" c] by (simp add: nat_less_iff)
  have "nat (go_rem ?c (int ?W)) < ?W" by (rule slot [OF c W])
  with start_index_spec [of 0 "nat (go_rem ?c (int ?W))" ?ws 0] obtain j where
    j: "j < length ks" "start_index ?ws (segments ?ws 0) (nat (go_rem ?c (int ?W))) 0 = Some j" "?ws ! j \<noteq> 0" by auto
  let ?k = "ks ! j"
  have k: "?k \<in> set ks" using j(1) by simp
  have hp: "has_priority s ?k modelKey pred now q" using wp [OF k] j(1,3) by simp
  obtain m where m: "shard_of modelKey s ?k = Some m"
    using j(1,3) by (auto simp: provider_weight_def split: option.splits)
  obtain x m' where pk: "pickReadyAtPriorityLocked False q schedulerStrategyRoundRobin pred m = (x, m')" by fastforce
  note pp = prepared_pick [OF pr k m f _ pk, simplified]
  obtain a where a: "x = Some a" using pp(4) hp by (cases x) auto
  obtain n where n: "length ks = Suc n" using j(1) by (cases "length ks") auto
  have rot: "rotate_providers modelKey q pred ks ?ws segs j slot 0 (length ks) s = (Some (a, ?k, slot), set_shard ?k m' s)"
    for segs slot
    using j(1,3) m pk a by (simp add: n Let_def)
  have s': "r = Some (a, ?k)" "s' = (set_shard ?k m' s)\<lparr>as_mixedCursors :=
      map_put cursorKey (int (nat (go_rem ?c (int ?W))) + 1) (as_mixedCursors (set_shard ?k m' s))\<rparr>"
    using pick unfolding mixed_rotation_pick_def Let_def if_not_P [OF W] j(2) option.case rot prod.case by simp_all
  have "scheduler_ok now s'"
    using pp(1,3) pr unfolding s'(2) prepared_def scheduler_ok_def
    by (auto simp: providers_ok_def located_def update_conv' split: if_splits)
  with s' pp(2,4) a k show ?thesis by auto
qed

lemma distinct_concat_map:
  assumes "distinct ks" "\<And>k. k \<in> set ks \<Longrightarrow> distinct (f k)"
    and "\<And>k k' x. k \<in> set ks \<Longrightarrow> k' \<in> set ks \<Longrightarrow> x \<in> set (f k) \<Longrightarrow> x \<in> set (f k') \<Longrightarrow> k = k'"
  shows "distinct (concat (map f ks))"
  using assms
proof (induction ks)
  case (Cons a ks)
  have "distinct (concat (map f ks))"
  proof (rule Cons.IH)
    show "k = k'" if "k \<in> set ks" "k' \<in> set ks" "x \<in> set (f k)" "x \<in> set (f k')" for k k' x
      using that by (intro Cons.prems(3) [of k k' x]) auto
  qed (use Cons.prems in auto)
  moreover have "set (f a) \<inter> set (f k) = {}" if "k \<in> set ks" for k
    using that Cons.prems(1) Cons.prems(3) [of a k] by auto
  ultimately show ?case using Cons.prems(2) [of a] by auto
qed simp

lemma bucket_entries_spec:
  assumes "index_ok m"
  shows "map fst (bucket_entries q m) = ready_ids (mo_entries m) q"
    and "(i, e) \<in> set (bucket_entries q m) \<longleftrightarrow>
      map_of (mo_entries m) i = Some e \<and> sd_state e = scheduledStateReady \<and> sm_priority (sd_meta e) = q"
proof -
  have wf: "wf_map (mo_entries m)" using assms by (simp add: index_ok_def entries_ok_def)
  have b: "bucket_ok (mo_entries m) q (map_of (mo_readyByPriority m) q)" using assms by (simp add: index_ok_def)
  let ?f = "\<lambda>i. case map_of (mo_entries m) i of None \<Rightarrow> [] | Some e \<Rightarrow> [(i, e)]"
  have be: "bucket_entries q m = concat (map ?f (ready_ids (mo_entries m) q))"
    using b by (auto simp: bucket_entries_def bucket_ok_def split: option.splits)
  have "map fst (concat (map ?f is)) = is" if "\<forall>i\<in>set is. map_of (mo_entries m) i \<noteq> None" for "is"
    using that by (induction "is") auto
  moreover have "\<forall>i\<in>set (ready_ids (mo_entries m) q). map_of (mo_entries m) i \<noteq> None"
    using set_ready_ids [OF wf, of _ q] by auto
  ultimately show "map fst (bucket_entries q m) = ready_ids (mo_entries m) q" unfolding be by blast
  have "(i, e) \<in> set (bucket_entries q m) \<longleftrightarrow> i \<in> set (ready_ids (mo_entries m) q) \<and> map_of (mo_entries m) i = Some e"
    by (auto simp: be split: option.splits)
  then show "(i, e) \<in> set (bucket_entries q m) \<longleftrightarrow>
      map_of (mo_entries m) i = Some e \<and> sd_state e = scheduledStateReady \<and> sm_priority (sd_meta e) = q"
    using set_ready_ids [OF wf, of i q] by auto
qed

lemma mixed_entries_spec:
  assumes pr: "prepared now modelKey ks s" and d: "distinct ks"
  shows "distinct (map fst (mixed_entries modelKey q ks s))"
    and "(i, e) \<in> set (mixed_entries modelKey q ks s) \<longleftrightarrow>
      (\<exists>k\<in>set ks. \<exists>m. shard_of modelKey s k = Some m \<and> map_of (mo_entries m) i = Some e \<and>
         sd_state e = scheduledStateReady \<and> sm_priority (sd_meta e) = q)"
proof -
  let ?f = "\<lambda>k. case shard_of modelKey s k of None \<Rightarrow> [] | Some m \<Rightarrow> bucket_entries q m"
  have ok: "scheduler_ok now s" and lo: "located s" using pr by (simp_all add: prepared_def scheduler_ok_def)
  have idx: "index_ok m" if sh: "shard_of modelKey s k = Some m" for k m
  proof -
    obtain p where "map_of (as_providers s) k = Some p" "mirrors now (canonicalModelKey modelKey) (ps_auths p) m"
      by (rule shard_of_ok [OF ok sh])
    then show ?thesis by (simp add: mirrors_def shard_ok_def)
  qed
  have kn: "known s k i \<noteq> None" if sh: "shard_of modelKey s k = Some m" and i: "map_of (mo_entries m) i = Some e" for k m i e
  proof -
    obtain p where p: "map_of (as_providers s) k = Some p" "mirrors now (canonicalModelKey modelKey) (ps_auths p) m"
      by (rule shard_of_ok [OF ok sh])
    from mirror_entry(2) [OF p(2) i] p(1) show ?thesis by (auto simp: offered_def known_def split: option.splits if_splits)
  qed
  have mem: "(i, e) \<in> set (?f k) \<longleftrightarrow> (\<exists>m. shard_of modelKey s k = Some m \<and> map_of (mo_entries m) i = Some e \<and>
         sd_state e = scheduledStateReady \<and> sm_priority (sd_meta e) = q)" for k i e
    using bucket_entries_spec(2) [OF idx] by (cases "shard_of modelKey s k") auto
  have "distinct (concat (map (\<lambda>k. map fst (?f k)) ks))"
  proof (rule distinct_concat_map [OF d])
    show "distinct (map fst (?f k))" for k
      using bucket_entries_spec(1) [OF idx] distinct_ready_ids idx
      by (auto simp: index_ok_def entries_ok_def split: option.splits)
    show "k = k'" if "x \<in> set (map fst (?f k))" "x \<in> set (map fst (?f k'))" for k k' x
    proof -
      from that mem have "known s k x \<noteq> None" "known s k' x \<noteq> None" using kn by (fastforce simp del: not_None_eq)+
      with located_iff [OF lo, of x k] located_iff [OF lo, of x k'] show ?thesis by simp
    qed
  qed
  then have "distinct (map fst (concat (map ?f ks)))" by (simp add: map_concat comp_def)
  then have "distinct (map fst (sort_key fst (concat (map ?f ks))))"
    by (metis distinct_map mset_map mset_sort mset_eq_imp_distinct_iff)
  then show "distinct (map fst (mixed_entries modelKey q ks s))" by (simp add: mixed_entries_def)
  show "(i, e) \<in> set (mixed_entries modelKey q ks s) \<longleftrightarrow>
      (\<exists>k\<in>set ks. \<exists>m. shard_of modelKey s k = Some m \<and> map_of (mo_entries m) i = Some e \<and>
         sd_state e = scheduledStateReady \<and> sm_priority (sd_meta e) = q)"
    unfolding mixed_entries_def set_sort set_concat set_map UN_iff using mem by blast
qed

lemma mixed_weighted_spec:
  assumes pr: "prepared now modelKey ks s" and d: "distinct ks" and f: "request_filter schedulerStrategyWeightedRoundRobin pred"
    and pick: "mixed_weighted_pick cursorKey modelKey q pred ks s = (r, s')"
  shows "scheduler_ok now s' \<and> known s' = known s \<and>
    (case r of None \<Rightarrow> \<forall>k\<in>set ks. \<not> has_priority s k modelKey pred now q
      | Some (a, k) \<Rightarrow> k \<in> set ks \<and>
          (\<exists>meta. serves s k (canonicalModelKey modelKey) pred now meta \<and> sm_priority meta = q \<and> a = sm_auth meta))"
proof -
  let ?key = "canonicalModelKey modelKey"
  let ?E = "mixed_entries modelKey q ks s"
  let ?st = "case map_of (as_mixedWeightedStates s) cursorKey of None \<Rightarrow> empty_smooth | Some st \<Rightarrow> st"
  let ?w = "entry_weight ?E" and ?P = "entry_satisfies ?E pred"
  obtain x st' where wr: "weighted_rotation ?w ?P (map fst ?E) ?st = (x, st')" by fastforce
  note me = mixed_entries_spec [OF pr d, where q = q]
  have ok: "scheduler_ok now s" using pr by (simp add: prepared_def)
  have s': "s' = s\<lparr>as_mixedWeightedStates := map_put cursorKey st' (as_mixedWeightedStates s)\<rparr>"
    and r: "r = (case x of None \<Rightarrow> None | Some i \<Rightarrow> map_option (\<lambda>e. (sd_auth e, sm_providerKey (sd_meta e))) (map_of ?E i))"
    using pick by (simp_all add: mixed_weighted_pick_def wr)
  have "scheduler_ok now s'" using ok by (simp add: s' scheduler_ok_def providers_ok_def located_def)
  moreover have "known s' = known s" by (simp add: s')
  moreover have look: "map_of ?E i = Some e \<longleftrightarrow> (i, e) \<in> set ?E" for i e using wf_map_in_set [OF me(1)] by simp
  have shard: "mirrors now ?key (ps_auths p) m \<and> up_to_date now m \<and> provider_ok now k p"
    if k: "k \<in> set ks" "shard_of modelKey s k = Some m" "map_of (as_providers s) k = Some p" for k m p
  proof -
    obtain p' where "map_of (as_providers s) k = Some p'" "provider_ok now k p'" "mirrors now ?key (ps_auths p') m"
      by (rule shard_of_ok [OF ok k(2)])
    with k pr show ?thesis by (auto simp: prepared_def)
  qed
  have entry: "\<exists>k\<in>set ks. serves s k ?key pred now (sd_meta e) \<and> sm_priority (sd_meta e) = q \<and>
      sd_auth e = sm_auth (sd_meta e) \<and> sm_providerKey (sd_meta e) = k" if e: "(i, e) \<in> set ?E" "pred e" for i e
  proof -
    from e(1) me(2) obtain k m where k: "k \<in> set ks" "shard_of modelKey s k = Some m" "map_of (mo_entries m) i = Some e"
      "sd_state e = scheduledStateReady" "sm_priority (sd_meta e) = q" by auto
    then obtain p where p: "map_of (as_providers s) k = Some p" by (auto simp: shard_of_def split: option.splits)
    note sh = shard [OF k(1,2) p]
    then have m: "mirrors now ?key (ps_auths p) m" by simp
    note ent = mirror_entry [OF m k(3)]
    have "candidate m pred now i e" using sh k(3,4) e(2) by (auto simp: up_to_date_def candidate_def)
    then have "serves s k ?key pred now (sd_meta e)" using mirror_candidates [OF m p f, of now "sd_meta e"] by blast
    moreover have "sm_providerKey (sd_meta e) = k"
      using sh ent(2) by (auto simp: provider_ok_def metas_ok_def offered_def split: option.splits if_splits)
    ultimately show ?thesis using k(1,5) ent(1) by blast
  qed
  have wpos: "pred e \<Longrightarrow> 0 < sm_weight (sd_meta e)" for e using f by (simp add: request_filter_def)
  have "case r of None \<Rightarrow> \<forall>k\<in>set ks. \<not> has_priority s k modelKey pred now q
      | Some (a, k) \<Rightarrow> k \<in> set ks \<and>
          (\<exists>meta. serves s k ?key pred now meta \<and> sm_priority meta = q \<and> a = sm_auth meta)"
  proof (cases x)
    case None
    with weighted_rotation_picked [OF me(1), of ?w ?P ?st] wr have none: "weighted_ids ?w ?P (map fst ?E) = []" by simp
    have "\<not> has_priority s k modelKey pred now q" if k: "k \<in> set ks" for k
    proof
      assume hp: "has_priority s k modelKey pred now q"
      then obtain p where p: "map_of (as_providers s) k = Some p" by (auto simp: serves_def known_def split: option.splits)
      with pr k obtain m where m: "shard_of modelKey s k = Some m" by (auto simp: prepared_def)
      note sh = shard [OF k m p]
      then have mi: "mirrors now ?key (ps_auths p) m" by simp
      from hp obtain meta where "serves s k ?key pred now meta" "sm_priority meta = q" by blast
      with mirror_candidates [OF mi p f, of now meta] obtain i e where
        e: "candidate m pred now i e" "sm_priority (sd_meta e) = q" by auto
      then have "(i, e) \<in> set ?E" using k m sh unfolding me(2) by (auto simp: candidate_def up_to_date_def)
      moreover have "pred e" using e(1) by (simp add: candidate_def)
      ultimately have "i \<in> set (weighted_ids ?w ?P (map fst ?E))"
        using look [of i e] wpos [of e] by (force simp: entry_weight_def entry_satisfies_def)
      with none show False by simp
    qed
    with None r show ?thesis by simp
  next
    case (Some i)
    with weighted_rotation_picked [OF me(1), of ?w ?P ?st] wr have "i \<in> set (weighted_ids ?w ?P (map fst ?E))" by simp
    then obtain e where e: "map_of ?E i = Some e" "pred e" by (auto simp: entry_satisfies_def split: option.splits)
    with entry [of i e] look [of i e] r Some show ?thesis by auto
  qed
  ultimately show ?thesis by blast
qed

section \<open>Errors keep the state\<close>

lemma summary_providers_ok:
  assumes "scheduler_ok now s" "summary_providers model now pred ks s acc = (acc', s')"
  shows "scheduler_ok now s' \<and> known s' = known s"
  using assms
proof (induction model now pred ks s acc rule: summary_providers.induct)
  case (2 model now predicate k ks s totalCount cooldownCount earliest)
  show ?case
  proof (cases "map_of (as_providers s) k")
    case None
    with 2 show ?thesis by simp
  next
    case (Some p)
    obtain m p' where en: "ensureModelLocked (canonicalModelKey model) now p = (m, p')" by fastforce
    obtain x y z where su: "availabilitySummaryLocked predicate m = (x, y, z)" by (rule prod_cases3)
    note pu = put_shard_prepared [OF "2.prems"(1) Some en]
    from "2.IH"(2) [OF Some en [symmetric] su [symmetric] refl pu(1)] "2.prems"(2) Some en su pu(2)
    show ?thesis by simp
  qed
qed simp

lemma mixed_error_ok:
  assumes "scheduler_ok t s" "t \<le> now" "mixed_error ks model pred now s = (r, s')"
  shows "scheduler_ok now s' \<and> known s' = known s \<and> (\<exists>err. r = Inl err)"
proof -
  obtain acc s1 where su: "summary_providers model now pred ks s (0, 0, 0) = (acc, s1)" by fastforce
  from summary_providers_ok [OF scheduler_ok_later [OF assms(1,2)] su] assms(3) su show ?thesis
    by (auto simp: mixed_error_def mixedUnavailableErrorLocked_def)
qed

section \<open>Provider lists\<close>

abbreviation (input) provider_key :: "string \<Rightarrow> string" where
  "provider_key p \<equiv> to_lower (trim_space p)"

lemma normalize_loop_distinct:
  "set seen = set out \<Longrightarrow> distinct out \<Longrightarrow> distinct (normalize_loop ps seen out)"
  by (induction ps seen out rule: normalize_loop.induct) (simp_all add: Let_def)

lemma normalize_loop_set:
  "set seen = set out \<Longrightarrow> set (normalize_loop ps seen out) = set out \<union> (provider_key ` set ps - {[]})"
proof (induction ps seen out rule: normalize_loop.induct)
  case (2 p ps seen out)
  show ?case
  proof (cases "provider_key p = [] \<or> provider_key p \<in> set seen")
    case True
    with "2.IH"(1,2) [OF refl] "2.prems" show ?thesis by (auto simp: Let_def)
  next
    case False
    then have "provider_key p \<noteq> []" "provider_key p \<notin> set seen" by blast+
    with "2.IH"(3) [OF refl this] "2.prems" show ?thesis by (simp add: Let_def insert_Diff_if)
  qed
qed simp

lemma normalize_spec:
  "distinct (normalizeProviderKeys ps)" "set (normalizeProviderKeys ps) = provider_key ` set ps - {[]}"
  unfolding normalizeProviderKeys_def
  using normalize_loop_distinct [of "[]" "[]" ps] normalize_loop_set [of "[]" "[]" ps] by simp_all

lemma provider_key_idem: "provider_key (provider_key p) = provider_key p"
  by (simp add: trim_space_to_lower)

lemma normalize_canonical:
  assumes "k \<in> set (normalizeProviderKeys ps)"
  shows "provider_key k = k"
proof -
  from assms obtain p where "k = provider_key p" unfolding normalize_spec(2) by blast
  then show ?thesis by (simp only: provider_key_idem)
qed

lemma containsProvider_set: "containsProvider ks k \<longleftrightarrow> k \<in> set ks"
  by (induction ks) auto

section \<open>The whole pick\<close>

text \<open>When a pick for one provider prefers websocket credentials.\<close>

definition prefers_websocket :: "request_ctx \<Rightarrow> string \<Rightarrow> (string \<times> go_any) list \<Rightarrow> bool" where
  "prefers_websocket ctx providerKey metadata \<longleftrightarrow>
     rc_downstreamWebsocket ctx \<and> providerPrefersWebsocketTransport providerKey \<and> pinnedAuthIDFromMetadata metadata = []"

lemma pick_single_spec:
  assumes ok: "scheduler_ok t s" and t: "t \<le> ck_shard clock" "ck_shard clock \<le> ck_pick clock"
    and pick: "pickSingleWithStrategy ctx provider model metadata tried strategy clock s = (r, s')"
    and pred: "pred = scheduledAuthPredicate (authSelectionEligibilityForRequest ctx metadata) tried
      (pinnedAuthIDFromMetadata metadata) (effective_strategy strategy s = schedulerStrategyWeightedRoundRobin)"
    and key: "key = canonicalModelKey (canonicalModelKey model)" and k: "k = to_lower (trim_space provider)"
  shows "scheduler_ok (ck_pick clock) s' \<and> known s' = known s \<and>
    (case r of Inl _ \<Rightarrow> \<forall>meta. \<not> serves s k key pred (ck_pick clock) meta
      | Inr a \<Rightarrow> \<exists>meta. top_choice (prefers_websocket ctx k metadata) (serves s k key pred (ck_pick clock)) meta \<and> a = sm_auth meta)"
proof (cases "map_of (as_providers s) k")
  case None
  then have "r = Inl no_auth" "s' = s" using pick by (simp_all add: pickSingleWithStrategy_def k Let_def)
  moreover have "\<not> serves s k key pred (ck_pick clock) meta" for meta using None by (simp add: serves_def known_def)
  moreover have "scheduler_ok (ck_pick clock) s" using scheduler_ok_later [OF ok] t by simp
  ultimately show ?thesis by simp
next
  case (Some p)
  let ?ws = "prefers_websocket ctx k metadata"
  have sp: "shard_pick k p (canonicalModelKey model) provider ?ws (effective_strategy strategy s) pred clock model s = (r, s')"
    using pick Some by (simp add: pickSingleWithStrategy_def k Let_def pred prefers_websocket_def)
  have f: "request_filter (effective_strategy strategy s) pred" unfolding pred by (rule predicate_filter)
  note ss = shard_pick_spec [OF ok Some t f sp, folded key]
  then show ?thesis by blast
qed

text \<open>What a pick across providers promises. The preference for websockets is one of a single provider.\<close>

definition serves_any :: "authScheduler \<Rightarrow> string list \<Rightarrow> string \<Rightarrow> predicate \<Rightarrow> gotime \<Rightarrow> scheduledAuthMeta \<Rightarrow> bool" where
  "serves_any s ks key pred now meta \<longleftrightarrow> (\<exists>k\<in>set ks. serves s k key pred now meta)"

definition mixed_result ::
  "authScheduler \<Rightarrow> string list \<Rightarrow> string \<Rightarrow> predicate \<Rightarrow> gotime \<Rightarrow> bool \<Rightarrow> sel_error + Auth \<times> string \<Rightarrow> bool" where
  "mixed_result s ks key pred now prefer r \<longleftrightarrow>
     (case r of Inl _ \<Rightarrow> \<forall>k\<in>set ks. \<forall>meta. \<not> serves s k key pred now meta
      | Inr (a, k) \<Rightarrow> k \<in> set ks \<and> (\<exists>meta. serves s k key pred now meta \<and> a = sm_auth meta \<and>
          top_choice prefer (serves_any s ks key pred now) meta))"

definition mixed_prefers :: "request_ctx \<Rightarrow> string list \<Rightarrow> (string \<times> go_any) list \<Rightarrow> bool" where
  "mixed_prefers ctx ks metadata \<longleftrightarrow> (case ks of [k] \<Rightarrow> prefers_websocket ctx k metadata | _ \<Rightarrow> False)"

lemma top_choice_able: "top_choice prefer able x \<Longrightarrow> able x"
  by (simp add: top_choice_def eligible_choice_def)

lemma mixed_pinned_spec:
  assumes ok: "scheduler_ok t s" and t: "t \<le> ck_shard clock" "ck_shard clock \<le> ck_pick clock"
    and pin: "pinned \<noteq> []"
    and pred: "pred = scheduledAuthPredicate el tried pinned (strategy = schedulerStrategyWeightedRoundRobin)"
    and pick: "mixed_pinned_pick ks pinned model strategy pred clock s = (r, s')"
  shows "scheduler_ok (ck_pick clock) s' \<and> known s' = known s \<and>
    mixed_result s ks (canonicalModelKey (canonicalModelKey model)) pred (ck_pick clock) False r"
proof -
  let ?k = "map_str (as_authProviders s) pinned" and ?key = "canonicalModelKey (canonicalModelKey model)"
  have lo: "located s" using ok by (simp add: scheduler_ok_def)
  have ok': "scheduler_ok (ck_pick clock) s" using scheduler_ok_later [OF ok] t by simp
  have only: "k = ?k \<and> known s ?k pinned = Some meta" if sv: "serves s k ?key pred (ck_pick clock) meta" for k meta
  proof -
    from sv obtain i where i: "known s k i = Some meta" by (auto simp: serves_def)
    have "auth_ID (sm_auth meta) = pinned"
      using sv pin by (auto simp: serves_def pred scheduledAuthPredicate_def ready_entry_def)
    moreover have "auth_ID (sm_auth meta) = i"
      using i ok by (auto simp: known_def scheduler_ok_def providers_ok_def provider_ok_def metas_ok_def split: option.splits)
    ultimately have kn: "known s k pinned = Some meta" using i by simp
    then have "map_of (as_authProviders s) pinned = Some k" using located_iff [OF lo, of pinned k] by simp
    then show ?thesis using kn by (simp add: map_str_def)
  qed
  show ?thesis
  proof (cases "?k = [] \<or> ?k \<notin> set ks \<or> map_of (as_providers s) ?k = None")
    case True
    then have rs: "r = Inl no_auth" "s' = s"
      using pick by (auto simp: mixed_pinned_pick_def containsProvider_set Let_def split: if_splits)
    have "\<not> serves s k ?key pred (ck_pick clock) meta" if "k \<in> set ks" for k meta
      using True that only [of k meta] located_known [OF lo, of ?k pinned] by (auto simp: known_def)
    with rs ok' show ?thesis by (simp add: mixed_result_def)
  next
    case False
    then obtain p where p: "map_of (as_providers s) ?k = Some p" by auto
    obtain r0 where sp: "shard_pick ?k p (canonicalModelKey model) ''mixed'' False strategy pred clock model s = (r0, s')"
      "r = map_sum id (\<lambda>a. (a, ?k)) r0"
      using pick False p by (auto simp: mixed_pinned_pick_def containsProvider_set Let_def split: prod.splits)
    have f: "request_filter strategy pred" unfolding pred by (rule predicate_filter)
    note ss = shard_pick_spec [OF ok p t f sp(1)]
    have "mixed_result s ks ?key pred (ck_pick clock) False r"
    proof (cases r0)
      case (Inl e)
      then have "\<not> serves s k ?key pred (ck_pick clock) meta" for k meta using ss(3) only [of k meta] by auto
      then show ?thesis using Inl sp(2) by (simp add: mixed_result_def)
    next
      case (Inr a)
      with ss(3) obtain meta where m: "serves s ?k ?key pred (ck_pick clock) meta" "a = sm_auth meta"
        by (auto dest: top_choice_able)
      have "meta' = meta" if "serves s k ?key pred (ck_pick clock) meta'" for k meta'
        using only [OF that] only [OF m(1)] by simp
      then have "top_choice False (serves_any s ks ?key pred (ck_pick clock)) meta"
        using m(1) False unfolding top_choice_plain serves_any_def by blast
      with m Inr sp(2) False show ?thesis by (auto simp: mixed_result_def)
    qed
    with ss(1,2) show ?thesis by simp
  qed
qed

lemma best_meta:
  assumes "best_of (\<lambda>q. \<exists>k\<in>set ks. has_priority s k modelKey pred now q) (Some q)" "sm_priority meta = q"
    and "k \<in> set ks" "serves s k (canonicalModelKey modelKey) pred now meta"
  shows "top_choice False (serves_any s ks (canonicalModelKey modelKey) pred now) meta"
  using assms unfolding top_choice_plain serves_any_def best_of_def by auto

lemma mixed_pick_spec:
  assumes ok: "scheduler_ok t s" and t: "t \<le> ck_shard clock" "ck_shard clock \<le> ck_error clock" and d: "distinct ks"
    and f: "request_filter strategy pred" and pick: "mixed_pick ks model strategy pred clock s = (r, s')"
  shows "scheduler_ok (ck_error clock) s' \<and> known s' = known s \<and>
    mixed_result s ks (canonicalModelKey (canonicalModelKey model)) pred (ck_shard clock) False r"
proof -
  let ?mk = "canonicalModelKey model" and ?now = "ck_shard clock"
  let ?ck = "str_join ks '','' @ '':'' @ ?mk"
  obtain s1 best where l: "mixed_loop ?mk ?now pred ks s None = (s1, best)" by fastforce
  have "best_of (\<lambda>_. False) None" by (simp add: best_of_def)
  from mixed_loop_spec [OF scheduler_ok_later [OF ok t(1)] d f l this]
  have pr: "prepared ?now ?mk ks s1" and kn: "known s1 = known s"
    and b: "best_of (\<lambda>q. \<exists>k\<in>set ks. has_priority s k ?mk pred ?now q) best" by auto
  have sv: "serves s1 = serves s" by (rule serves_cong) (rule kn)
  show ?thesis
  proof (cases best)
    case None
    then have me: "mixed_error ks model pred (ck_error clock) s1 = (r, s')" using pick l by (simp add: mixed_pick_def Let_def)
    have "scheduler_ok ?now s1" using pr by (simp add: prepared_def)
    moreover have "\<not> serves s k (canonicalModelKey ?mk) pred ?now meta" if "k \<in> set ks" for k meta
      using b None that by (auto simp: best_of_def)
    ultimately show ?thesis using mixed_error_ok [OF _ t(2) me] kn by (auto simp: mixed_result_def)
  next
    case (Some q)
    define pk where "pk = (case strategy of
                      schedulerStrategyFillFirst \<Rightarrow> pick_first_provider ?mk q strategy pred ks s1
                    | schedulerStrategyWeightedRoundRobin \<Rightarrow> mixed_weighted_pick ?ck ?mk q pred ks s1
                    | _ \<Rightarrow> mixed_rotation_pick ?ck ?mk q pred ks s1)"
    obtain x s2 where x: "pk = (x, s2)" by fastforce
    have ex: "\<exists>k\<in>set ks. has_priority s k ?mk pred ?now q" using b Some by (simp add: best_of_def)
    have res: "scheduler_ok ?now s2 \<and> known s2 = known s1 \<and>
      (\<exists>a k meta. x = Some (a, k) \<and> k \<in> set ks \<and> serves s k (canonicalModelKey ?mk) pred ?now meta \<and>
         sm_priority meta = q \<and> a = sm_auth meta)"
    proof (cases strategy)
      case schedulerStrategyFillFirst
      then have "pick_first_provider ?mk q strategy pred ks s1 = (x, s2)" using x by (simp add: pk_def)
      from pick_first_provider_spec [OF pr order_refl f this] ex show ?thesis
        unfolding sv by (cases x) (auto simp: prepared_def)
    next
      case schedulerStrategyWeightedRoundRobin
      then have "mixed_weighted_pick ?ck ?mk q pred ks s1 = (x, s2)" using x by (simp add: pk_def)
      from mixed_weighted_spec [OF pr d f [unfolded schedulerStrategyWeightedRoundRobin] this] ex show ?thesis
        unfolding sv by (cases x) auto
    qed (use mixed_rotation_spec [OF pr f, where q = q and r = x and s' = s2 and cursorKey = ?ck] ex x in
      \<open>auto simp: pk_def sv\<close>)
    then obtain a k meta where m: "x = Some (a, k)" "k \<in> set ks" "serves s k (canonicalModelKey ?mk) pred ?now meta"
      "sm_priority meta = q" "a = sm_auth meta" "scheduler_ok ?now s2" "known s2 = known s1" by auto
    have "r = Inr (a, k)" "s' = s2"
      using pick [unfolded mixed_pick_def Let_def l Some prod.case option.case, folded pk_def] by (simp_all add: x m(1))
    with m kn best_meta [OF b [unfolded Some] m(4,2,3)] scheduler_ok_later [OF m(6) t(2)] show ?thesis
      by (auto simp: mixed_result_def)
  qed
qed

lemma pick_mixed_spec:
  assumes ok: "scheduler_ok t s" and t: "t \<le> ck_shard clock" "ck_shard clock \<le> ck_pick clock" "ck_pick clock \<le> ck_error clock"
    and pick: "pickMixedWithStrategy ctx providers model metadata tried strategy clock s = (r, s')"
    and pred: "pred = scheduledAuthPredicate (authSelectionEligibilityForRequest ctx metadata) tried
      (pinnedAuthIDFromMetadata metadata) (effective_strategy strategy s = schedulerStrategyWeightedRoundRobin)"
  shows "scheduler_ok (ck_error clock) s' \<and> known s' = known s \<and>
    (\<exists>now\<in>{ck_shard clock, ck_pick clock}.
       mixed_result s (normalizeProviderKeys providers) (canonicalModelKey (canonicalModelKey model)) pred now
         (mixed_prefers ctx (normalizeProviderKeys providers) metadata) r)"
proof -
  let ?ks = "normalizeProviderKeys providers" and ?key = "canonicalModelKey (canonicalModelKey model)"
  have f: "request_filter (effective_strategy strategy s) pred" unfolding pred by (rule predicate_filter)
  consider "?ks = []" | k where "?ks = [k]" | k k' l where "?ks = k # k' # l" by (metis list.exhaust)
  then show ?thesis
  proof cases
    case 1
    then have "r = Inl (auth_error ''provider_not_found'' ''no provider supplied'')" "s' = s"
      using pick by (simp_all add: pickMixedWithStrategy_def)
    with 1 scheduler_ok_later [OF ok, of "ck_error clock"] t show ?thesis by (auto simp: mixed_result_def)
  next
    case (2 k)
    then have k: "k = provider_key k" using normalize_canonical [of k providers] by simp
    obtain r0 where p: "pickSingleWithStrategy ctx k model metadata tried strategy clock s = (r0, s')"
      "r = map_sum id (\<lambda>a. (a, k)) r0"
      using pick 2 by (auto simp: pickMixedWithStrategy_def split: prod.splits)
    note ps = pick_single_spec [OF ok t(1,2) p(1) pred refl k]
    have any: "serves_any s ?ks ?key pred (ck_pick clock) = serves s k ?key pred (ck_pick clock)"
      by (simp add: 2 serves_any_def fun_eq_iff)
    have "mixed_result s ?ks ?key pred (ck_pick clock) (mixed_prefers ctx ?ks metadata) r"
      unfolding mixed_result_def any using ps p(2) 2
      by (cases r0) (auto simp: mixed_prefers_def dest: top_choice_able)
    with ps scheduler_ok_later [of "ck_pick clock" s' "ck_error clock"] t(3) show ?thesis by blast
  next
    case (3 k k' l)
    then have np: "mixed_prefers ctx ?ks metadata = False" by (simp add: mixed_prefers_def)
    show ?thesis
    proof (cases "pinnedAuthIDFromMetadata metadata = []")
      case True
      then have "mixed_pick ?ks model (effective_strategy strategy s) pred clock s = (r, s')"
        using pick 3 by (simp add: pickMixedWithStrategy_def Let_def pred)
      from mixed_pick_spec [OF ok t(1) order_trans [OF t(2,3)] normalize_spec(1) f this]
      show ?thesis unfolding np by blast
    next
      case False
      then have "mixed_pinned_pick ?ks (pinnedAuthIDFromMetadata metadata) model (effective_strategy strategy s) pred clock s = (r, s')"
        using pick 3 by (simp add: pickMixedWithStrategy_def Let_def pred)
      from mixed_pinned_spec [OF ok t(1,2) False pred this] scheduler_ok_later [of "ck_pick clock" s' "ck_error clock"] t(3)
      show ?thesis unfolding np by blast
    qed
  qed
qed

section \<open>The error of a failed pick\<close>

lemma summary_loop_total: "fst (summary_loop pred E n c x) = n + length (filter (\<lambda>(i, e). pred e) E)"
  by (induction pred E n c x rule: summary_loop.induct) (auto split: if_splits)

lemma unavailable_not_found:
  "unavailableErrorLocked ep model pred now m = no_auth \<longleftrightarrow> \<not> (\<exists>(i, e)\<in>set (mo_entries m). pred e)"
proof -
  obtain n c x where su: "availabilitySummaryLocked pred m = (n, c, x)" by (rule prod_cases3)
  have "n = length (filter (\<lambda>(i, e). pred e) (mo_entries m))"
    using summary_loop_total [of pred "mo_entries m" 0 0 0] su by (simp add: availabilitySummaryLocked_def)
  moreover have "unavailableErrorLocked ep model pred now m = no_auth \<longleftrightarrow> n = 0"
    by (simp add: unavailableErrorLocked_def summary_error_def su no_auth_def auth_error_def newModelCooldownError_def Let_def)
  ultimately show ?thesis by (auto simp: filter_empty_conv)
qed

lemma mirror_accepts:
  assumes m: "mirrors t key (ps_auths p) m" and p: "map_of (as_providers s) k = Some p" and f: "request_filter strategy pred"
  shows "(\<exists>(i, e)\<in>set (mo_entries m). pred e) \<longleftrightarrow>
    (\<exists>i meta. known s k i = Some meta \<and> supportsModel key meta \<and> pred (ready_entry meta))"
proof -
  have wf: "wf_map (mo_entries m)" using m by (simp add: mirrors_def shard_ok_def index_ok_def entries_ok_def)
  have "(\<exists>(i, e)\<in>set (mo_entries m). pred e) \<longleftrightarrow> (\<exists>i e. map_of (mo_entries m) i = Some e \<and> pred e)"
    using wf_map_in_set [OF wf] by fast
  also have "\<dots> \<longleftrightarrow> (\<exists>i meta. offered key (ps_auths p) i = Some meta \<and> pred (ready_entry meta))"
  proof -
    have pe: "pred e = pred (ready_entry (sd_meta e))" if "map_of (mo_entries m) i = Some e" for i e
      using f mirror_entry(1) [OF m that] by (simp add: request_filter_def)
    have off: "offered key (ps_auths p) i = map_option sd_meta (map_of (mo_entries m) i)" for i
      using m by (simp add: mirrors_def)
    show ?thesis unfolding off using pe by fastforce
  qed
  also have "\<dots> \<longleftrightarrow> (\<exists>i meta. known s k i = Some meta \<and> supportsModel key meta \<and> pred (ready_entry meta))"
    using offered_known [OF p, of key] by blast
  finally show ?thesis .
qed

lemma shard_pick_not_found:
  assumes ok: "scheduler_ok t s" and p: "map_of (as_providers s) k = Some p" and t: "t \<le> ck_shard clock" "ck_shard clock \<le> ck_pick clock"
    and f: "request_filter strategy pred"
    and pick: "shard_pick k p modelKey errorProvider ws strategy pred clock model s = (Inl err, s')"
  shows "err = no_auth \<longleftrightarrow>
    \<not> (\<exists>i meta. known s k i = Some meta \<and> supportsModel (canonicalModelKey modelKey) meta \<and> pred (ready_entry meta))"
proof -
  have t0: "0 \<le> ck_shard clock" "0 \<le> ck_pick clock" using ok t by (simp_all add: scheduler_ok_def)
  have po: "provider_ok t k p" using ok p by (simp add: scheduler_ok_def providers_ok_def)
  obtain m p' where en: "ensureModelLocked modelKey (ck_shard clock) p = (m, p')" by fastforce
  obtain q m' where pr: "pickReadyLocked ws strategy pred (ck_pick clock) m = (q, m')" by fastforce
  note es = ensure_spec [OF po t0(1) t(1) en]
  have sh: "shard_ok (ck_shard clock) m" using es(1) by (simp add: mirrors_def)
  have w: "\<forall>e. pred e \<longrightarrow> 0 < sm_weight (sd_meta e)" if "strategy = schedulerStrategyWeightedRoundRobin"
    using f that by (simp add: request_filter_def)
  have st: "stable_filter pred" using f by (simp add: request_filter_def)
  note sp = pick_ready_spec [OF sh t0(2) t(2) st w pr]
  have mm: "mirrors (ck_pick clock) (canonicalModelKey modelKey) (ps_auths p) m'"
    by (rule mirrors_same_metas [OF mirrors_promote(1) [OF es(1) t0(2) t(2)] sp(1)]) (simp_all add: sp(2,3))
  have "err = unavailableErrorLocked errorProvider model pred (ck_error clock) m'"
    using pick by (cases q) (simp_all add: shard_pick_def en pr)
  then show ?thesis using unavailable_not_found [of errorProvider model pred "ck_error clock" m'] mirror_accepts [OF mm p f] by simp
qed

text \<open>The filter of a request.\<close>

abbreviation (input) request_pred :: "request_ctx \<Rightarrow> (string \<times> go_any) list \<Rightarrow> string list \<Rightarrow> authScheduler \<Rightarrow> predicate" where
  "request_pred ctx metadata tried s \<equiv>
     scheduledAuthPredicate (authSelectionEligibilityForRequest ctx metadata) tried (pinnedAuthIDFromMetadata metadata)
       (as_strategy s = schedulerStrategyWeightedRoundRobin)"

abbreviation (input) shard_key :: "string \<Rightarrow> string" where
  "shard_key model \<equiv> canonicalModelKey (canonicalModelKey model)"

section \<open>Reachable states\<close>

abbreviation trimmed :: "Auth option \<Rightarrow> bool" where
  "trimmed auth \<equiv> (case auth of None \<Rightarrow> True | Some a \<Rightarrow> trim_space (auth_ID a) = auth_ID a)"

abbreviation monotone_clock :: "gotime \<Rightarrow> pick_clock \<Rightarrow> bool" where
  "monotone_clock t clock \<equiv> t \<le> ck_shard clock \<and> ck_shard clock \<le> ck_pick clock \<and> ck_pick clock \<le> ck_error clock"

text \<open>The states a scheduler reaches by its operations, with the time of the last one. The clock does
  not go back, and credential IDs have no surrounding white space.\<close>

inductive reachable :: "gotime \<Rightarrow> authScheduler \<Rightarrow> bool" where
  new: "0 \<le> t \<Longrightarrow> reachable t (newAuthScheduler sel)"
| wait: "reachable t s \<Longrightarrow> t \<le> t' \<Longrightarrow> reachable t' s"
| setSelector: "reachable t s \<Longrightarrow> reachable t (setSelector sel s)"
| rebuild: "reachable t s \<Longrightarrow> list_all trimmed auths \<Longrightarrow> reachable t (rebuild reg auths t s)"
| upsertAuth: "reachable t s \<Longrightarrow> trimmed auth \<Longrightarrow> reachable t (upsertAuth reg auth t s)"
| removeAuth: "reachable t s \<Longrightarrow> reachable t (removeAuth authID s)"
| pickSingle: "reachable t s \<Longrightarrow> monotone_clock t clock \<Longrightarrow>
    reachable (ck_error clock) (snd (pickSingleWithStrategy ctx provider model metadata tried strategy clock s))"
| pickMixed: "reachable t s \<Longrightarrow> monotone_clock t clock \<Longrightarrow>
    reachable (ck_error clock) (snd (pickMixedWithStrategy ctx providers model metadata tried strategy clock s))"

lemma reachable_ok: "reachable t s \<Longrightarrow> scheduler_ok t s"
proof (induction rule: reachable.induct)
  case (new t sel)
  then show ?case by (simp add: scheduler_ok_def newAuthScheduler_def providers_ok_def located_def known_def)
next
  case (wait t s t')
  then show ?case by (blast intro: scheduler_ok_later)
next
  case (setSelector t s sel)
  then show ?case by (simp add: scheduler_ok_def setSelector_def providers_ok_def located_def known_def)
next
  case (rebuild t s auths reg)
  then show ?case by (intro rebuild_ok [where t = t]) (auto simp: list_all_iff)
next
  case (upsertAuth t s auth reg)
  then show ?case using upsert_spec(1) [of t s t] by (cases auth) (simp_all add: upsertAuth_def upsertAuthLocked_def)
next
  case (removeAuth t s authID)
  then show ?case by (simp add: removeAuth_def remove_spec(1))
next
  case (pickSingle t s clock ctx provider model metadata tried strategy)
  obtain r s' where p: "pickSingleWithStrategy ctx provider model metadata tried strategy clock s = (r, s')" by fastforce
  from pick_single_spec [OF pickSingle.IH _ _ p refl refl refl] pickSingle.hyps(2)
  have "scheduler_ok (ck_pick clock) s'" by blast
  from scheduler_ok_later [OF this, of "ck_error clock"] pickSingle.hyps(2) p show ?case by simp
next
  case (pickMixed t s clock ctx providers model metadata tried strategy)
  obtain r s' where p: "pickMixedWithStrategy ctx providers model metadata tried strategy clock s = (r, s')" by fastforce
  from pick_mixed_spec [OF pickMixed.IH _ _ _ p refl] pickMixed.hyps(2) p show ?case by simp
qed

section \<open>Properties\<close>

text \<open>C8. In every reachable state the scheduler is consistent: a credential is held by the provider the
  owner map names and by no other, every model shard holds exactly the credentials of its provider
  that support the model, its ready views and waiting queue partition them by state and priority, and
  the recorded states predict from then on when each credential is available.\<close>

theorem scheduler_invariant:
  assumes "reachable t s"
  shows "scheduler_ok t s"
  by (rule reachable_ok [OF assms])

text \<open>C9. The scheduler holds what was last registered: an enabled credential with an executor replaces what was
  known under its ID, under any provider; a disabled one, or a removal, leaves nothing; picks, the
  change of strategy and the passing of time change nothing.\<close>

theorem scheduler_holds_latest:
  assumes "reachable t s" "trim_space (auth_ID a) = auth_ID a" "monotone_clock t clock"
  shows "known (upsertAuth reg (Some a) t s) k j =
      (if j = auth_ID a then if schedulable a \<and> k = executorKeyFromAuth (Some a) then Some (buildScheduledAuthMeta reg a) else None
       else known s k j) \<and>
    known (removeAuth i s) k j = (if j = trim_space i then None else known s k j) \<and>
    known (setSelector sel s) k j = known s k j \<and>
    known (snd (pickSingleWithStrategy ctx provider model metadata tried strategy clock s)) k j = known s k j \<and>
    known (snd (pickMixedWithStrategy ctx providers model metadata tried strategy clock s)) k j = known s k j"
proof (intro conjI)
  note ok = reachable_ok [OF assms(1)]
  show "known (upsertAuth reg (Some a) t s) k j =
      (if j = auth_ID a then if schedulable a \<and> k = executorKeyFromAuth (Some a) then Some (buildScheduledAuthMeta reg a) else None
       else known s k j)" unfolding upsertAuth_def by (rule upsert_spec(2) [OF ok order_refl assms(2)])
  have "known s k [] = None"
    using ok located_known [of s k "[]"] by (cases "known s k []") (simp_all add: scheduler_ok_def)
  then show "known (removeAuth i s) k j = (if j = trim_space i then None else known s k j)"
    by (simp add: removeAuth_def remove_spec(2) [OF ok])
  show "known (setSelector sel s) k j = known s k j" by (simp add: setSelector_def)
  show "known (snd (pickSingleWithStrategy ctx provider model metadata tried strategy clock s)) k j = known s k j"
    using pick_single_spec [OF ok _ _ surjective_pairing refl refl refl, of clock ctx provider model metadata tried strategy] assms(3)
    by simp
  show "known (snd (pickMixedWithStrategy ctx providers model metadata tried strategy clock s)) k j = known s k j"
    using pick_mixed_spec [OF ok _ _ _ surjective_pairing refl, of clock ctx providers model metadata tried strategy] assms(3)
    by simp
qed

text \<open>C1. A single-provider pick is sound, complete and respects preferences: it returns a credential the
  provider holds that supports the model, that the request accepts (kind, policy, free plan, pinned ID, not
  tried, positive weight under weighted rotation) and that is not blocked for the model now, and it fails
  only when there is none. It is one of the highest priority among these, except that for a downstream websocket and
  the providers Codex and xAI, without a pinned credential, websocket credentials come before all others: if one of
  them can serve the request, the pick is a websocket credential, of the highest priority among those.\<close>

theorem pickSingle_correct:
  assumes "reachable t s" "monotone_clock t clock"
    and "fst (pickSingle ctx provider model metadata tried clock s) = r"
  shows "case r of
      Inl _ \<Rightarrow> \<forall>meta. \<not> serves s (provider_key provider) (shard_key model) (request_pred ctx metadata tried s) (ck_pick clock) meta
    | Inr a \<Rightarrow> \<exists>meta. serves s (provider_key provider) (shard_key model) (request_pred ctx metadata tried s) (ck_pick clock) meta \<and>
        a = sm_auth meta \<and>
        top_choice (prefers_websocket ctx (provider_key provider) metadata)
          (serves s (provider_key provider) (shard_key model) (request_pred ctx metadata tried s) (ck_pick clock)) meta"
proof -
  have e: "effective_strategy schedulerStrategyCurrent s = as_strategy s" by (simp add: effective_strategy_def)
  obtain s' where p: "pickSingleWithStrategy ctx provider model metadata tried schedulerStrategyCurrent clock s = (r, s')"
    using assms(3) by (cases "pickSingleWithStrategy ctx provider model metadata tried schedulerStrategyCurrent clock s")
      (simp add: pickSingle_def)
  from pick_single_spec [OF reachable_ok [OF assms(1)] _ _ p refl refl refl, unfolded e] assms(2)
  show ?thesis by (cases r) (auto dest: top_choice_able)
qed

text \<open>C2. A pick across providers is sound, complete and respects priorities over all of them together, for every
  strategy and for pinned credentials: the credential returned can serve the request, belongs to the
  returned provider, which is one of those requested, and none of the requested providers has a serving
  credential of higher priority; the pick fails only when none of them has a
  serving credential. Only when a single provider is requested do websocket credentials come first, as they do in
  a pick for that provider. The decision is made at one of the pick's two readings of the clock.\<close>

theorem pickMixed_correct:
  assumes "reachable t s" "monotone_clock t clock"
    and "fst (pickMixed ctx providers model metadata tried clock s) = r"
  shows "\<exists>now\<in>{ck_shard clock, ck_pick clock}.
    mixed_result s (normalizeProviderKeys providers) (shard_key model) (request_pred ctx metadata tried s) now
      (mixed_prefers ctx (normalizeProviderKeys providers) metadata) r"
proof -
  have e: "effective_strategy schedulerStrategyCurrent s = as_strategy s" by (simp add: effective_strategy_def)
  obtain s' where p: "pickMixedWithStrategy ctx providers model metadata tried schedulerStrategyCurrent clock s = (r, s')"
    using assms(3) by (cases "pickMixedWithStrategy ctx providers model metadata tried schedulerStrategyCurrent clock s")
      (simp add: pickMixed_def)
  from pick_mixed_spec [OF reachable_ok [OF assms(1)] _ _ _ p refl, unfolded e] assms(2) show ?thesis by blast
qed

text \<open>C38. The error of a failed single-provider pick is that no credential was found exactly when none of
  the provider's credentials supports the model and is accepted by the request; when there are some,
  they are all blocked and the error says so.\<close>

theorem pickSingle_not_found:
  assumes "reachable t s" "monotone_clock t clock"
    and "fst (pickSingle ctx provider model metadata tried clock s) = Inl err"
  shows "err = auth_error ''auth_not_found'' ''no auth available'' \<longleftrightarrow>
    \<not> (\<exists>i meta. known s (provider_key provider) i = Some meta \<and> supportsModel (shard_key model) meta \<and>
         request_pred ctx metadata tried s (ready_entry meta))"
proof -
  have e: "effective_strategy schedulerStrategyCurrent s = as_strategy s" by (simp add: effective_strategy_def)
  note ok = reachable_ok [OF assms(1)]
  let ?k = "provider_key provider"
  obtain s' where p: "pickSingleWithStrategy ctx provider model metadata tried schedulerStrategyCurrent clock s = (Inl err, s')"
    using assms(3) by (cases "pickSingleWithStrategy ctx provider model metadata tried schedulerStrategyCurrent clock s")
      (simp add: pickSingle_def)
  show ?thesis
  proof (cases "map_of (as_providers s) ?k")
    case None
    with p show ?thesis by (simp add: pickSingleWithStrategy_def Let_def no_auth_def known_def)
  next
    case (Some q)
    with p [unfolded pickSingleWithStrategy_def Let_def e] assms(2)
    show ?thesis unfolding no_auth_def [symmetric]
      by (intro shard_pick_not_found [OF ok Some _ _ predicate_filter]) (simp_all only: option.case)
  qed
qed

section \<open>Witnesses\<close>

definition demo_registry :: registry_view where
  "demo_registry i = [Some ''m'']"

definition demo_clock :: "gotime \<Rightarrow> pick_clock" where
  "demo_clock t = \<lparr>ck_shard = t, ck_pick = t, ck_error = t\<rparr>"

definition demo_ctx :: request_ctx where
  "demo_ctx = \<lparr>rc_downstreamWebsocket = False, rc_requiredKind = [], rc_credentialPolicy = []\<rparr>"

definition demo_scheduler :: authScheduler where
  "demo_scheduler = upsertAuth demo_registry (Some (new_auth ''b'' ''gemini'')) 5
     (upsertAuth demo_registry (Some (new_auth ''a'' ''claude'')) 5 (newAuthScheduler SelRoundRobin))"

lemma demo_reachable: "reachable 5 demo_scheduler"
proof -
  have "trimmed (Some (new_auth ''a'' ''claude''))" "trimmed (Some (new_auth ''b'' ''gemini''))" by code_simp+
  then show ?thesis unfolding demo_scheduler_def by (intro reachable.upsertAuth reachable.new) simp_all
qed

lemma demo_clock_ok: "monotone_clock 5 (demo_clock 9)"
  by (simp add: demo_clock_def)

theorem scheduler_invariant_witness: "scheduler_ok 5 demo_scheduler"
  by (rule scheduler_invariant [OF demo_reachable])

theorem scheduler_holds_latest_witness:
  "map_option sm_auth (known (upsertAuth demo_registry (Some (new_auth ''b'' ''claude'')) 5 demo_scheduler) ''claude'' ''b'') =
     Some (new_auth ''b'' ''claude'') \<and>
   known (upsertAuth demo_registry (Some (new_auth ''b'' ''claude'')) 5 demo_scheduler) ''gemini'' ''b'' = None"
proof -
  let ?a = "new_auth ''b'' ''claude''"
  have t: "trim_space (auth_ID ?a) = auth_ID ?a" and k: "executorKeyFromAuth (Some ?a) = ''claude''" "schedulable ?a" and i: "auth_ID ?a = ''b''"
    by code_simp+
  note h = scheduler_holds_latest [OF demo_reachable t demo_clock_ok, of demo_registry _ "''b''", THEN conjunct1]
  from h [of "''claude''"] h [of "''gemini''"] show ?thesis by (simp add: k i)
qed

theorem pickSingle_correct_witness:
  "\<exists>meta. serves demo_scheduler ''gemini'' ''m''
      (scheduledAuthPredicate (authSelectionEligibilityForRequest demo_ctx []) [] [] False) 9 meta \<and>
     new_auth ''b'' ''gemini'' = sm_auth meta"
proof -
  have p: "fst (pickSingle demo_ctx ''Gemini'' ''m(high)'' [] [] (demo_clock 9) demo_scheduler) = Inr (new_auth ''b'' ''gemini'')"
    by code_simp
  have k: "provider_key ''Gemini'' = ''gemini''" "canonicalModelKey (canonicalModelKey ''m(high)'') = ''m''"
    "pinnedAuthIDFromMetadata [] = []" "as_strategy demo_scheduler = schedulerStrategyRoundRobin" "ck_pick (demo_clock 9) = 9"
    by code_simp+
  from pickSingle_correct [OF demo_reachable demo_clock_ok p] show ?thesis by (auto simp: k)
qed

theorem pickMixed_correct_witness:
  "mixed_result demo_scheduler [''gemini'', ''claude''] ''m''
      (scheduledAuthPredicate (authSelectionEligibilityForRequest demo_ctx []) [] [] False) 9 False
      (Inr (new_auth ''b'' ''gemini'', ''gemini''))"
proof -
  have p: "fst (pickMixed demo_ctx [''gemini'', ''Claude'', '' gemini''] ''m'' [] [] (demo_clock 9) demo_scheduler) =
      Inr (new_auth ''b'' ''gemini'', ''gemini'')" by code_simp
  have k: "normalizeProviderKeys [''gemini'', ''Claude'', '' gemini''] = [''gemini'', ''claude'']"
    "canonicalModelKey (canonicalModelKey ''m'') = ''m''" "mixed_prefers demo_ctx [''gemini'', ''claude''] [] = False"
    "pinnedAuthIDFromMetadata [] = []" "as_strategy demo_scheduler = schedulerStrategyRoundRobin"
    "ck_pick (demo_clock 9) = 9" "ck_shard (demo_clock 9) = 9" by code_simp+
  from pickMixed_correct [OF demo_reachable demo_clock_ok p] show ?thesis by (simp add: k)
qed

theorem pickSingle_not_found_witness:
  "\<not> (\<exists>i meta. known demo_scheduler ''gemini'' i = Some meta \<and> supportsModel ''other'' meta \<and>
      scheduledAuthPredicate (authSelectionEligibilityForRequest demo_ctx []) [] [] False (ready_entry meta))"
proof -
  have p: "fst (pickSingle demo_ctx ''gemini'' ''other'' [] [] (demo_clock 9) demo_scheduler) =
      Inl (auth_error ''auth_not_found'' ''no auth available'')" by code_simp
  have k: "provider_key ''gemini'' = ''gemini''" "shard_key ''other'' = ''other''"
    "pinnedAuthIDFromMetadata [] = []" "as_strategy demo_scheduler = schedulerStrategyRoundRobin" by code_simp+
  from pickSingle_not_found [OF demo_reachable demo_clock_ok p] show ?thesis by (simp add: k)
qed

text \<open>A credential whose ID has surrounding white space is registered under that ID but removed under the
  trimmed one, so it survives its removal.\<close>

lemma untrimmed_id_survives_removal:
  "known (removeAuth ''a '' (upsertAuth demo_registry (Some (new_auth ''a '' ''claude'')) 5 (newAuthScheduler SelRoundRobin)))
     ''claude'' ''a '' \<noteq> None"
  by code_simp

end
