(* ===== verification/Result_Errors.thy ===== *)
theory Result_Errors
  imports Auth_Types
begin

text \<open>
  The classification of execution errors: \<open>internal/clienterror/client_error.go\<close> and the predicates of
  \<open>sdk/cliproxy/auth/conductor_cooldown.go\<close> on the error a result carries. A \<open>*Error\<close> is an optional
  record; it is the only implementation of \<open>error\<close> that reaches these functions from a result, and it
  wraps no other error. The JSON library is a parameter: validity of a text, and the string value at a
  path.
\<close>

section \<open>Strings\<close>

text \<open>\<open>strings.Contains\<close>.\<close>

fun str_contains :: "string \<Rightarrow> string \<Rightarrow> bool" where
  "str_contains [] sub \<longleftrightarrow> sub = []"
| "str_contains (c # s) sub \<longleftrightarrow> has_prefix (c # s) sub \<or> str_contains s sub"

lemma str_contains_iff: "str_contains s sub \<longleftrightarrow> (\<exists>a b. s = a @ sub @ b)"
proof (induction s)
  case (Cons c s)
  have "(\<exists>a b. c # s = a @ sub @ b) \<longleftrightarrow> (\<exists>b. c # s = sub @ b) \<or> (\<exists>a b. s = a @ sub @ b)"
    by (metis append_Cons append_Nil list.exhaust list.inject)
  with Cons show ?case by (simp add: has_prefix_iff)
qed simp

record json_lib =
  jl_valid :: "string \<Rightarrow> bool"
  jl_str :: "string \<Rightarrow> string \<Rightarrow> string"

section \<open>Errors of results\<close>

text \<open>\<open>(*Error).Error\<close>, \<open>StatusCode\<close> and \<open>IsRequestScoped\<close>.\<close>

definition error_text :: "AuthError \<Rightarrow> string" where
  "error_text e = (if err_Code e = [] then err_Message e else err_Code e @ '': '' @ err_Message e)"

definition StatusCode :: "AuthError option \<Rightarrow> int" where
  "StatusCode e = (case e of None \<Rightarrow> 0 | Some e \<Rightarrow> err_HTTPStatus e)"

definition IsRequestScoped :: "AuthError option \<Rightarrow> bool" where
  "IsRequestScoped e \<longleftrightarrow> (case e of None \<Rightarrow> False | Some e \<Rightarrow> err_Code e = ''request_scoped'')"

definition statusCodeFromResult :: "AuthError option \<Rightarrow> int" where
  "statusCodeFromResult e = (if e = None then 0 else StatusCode e)"

section \<open>Request faults\<close>

abbreviation requestFaultCodes :: "string list" where
  "requestFaultCodes \<equiv>
     [''cyber_policy'', ''context_length_exceeded'', ''message_too_big'', ''string_above_max_length'', ''invalid_prompt'',
      ''invalid_value'', ''unsupported_value'', ''invalid_request_error'', ''previous_response_not_found'']"

abbreviation requestFaultTypes :: "string list" where
  "requestFaultTypes \<equiv> [''invalid_request'', ''invalid_request_error'', ''bad_request_error'', ''invalid_prompt'']"

definition IsItemNotPersisted :: "string \<Rightarrow> bool" where
  "IsItemNotPersisted message \<longleftrightarrow>
     (let lower = to_lower message
      in str_contains lower ''item with id'' \<and> str_contains lower ''not found'' \<and>
         str_contains lower ''items are not persisted when `store` is set to false'')"

definition json_word :: "json_lib \<Rightarrow> string \<Rightarrow> string \<Rightarrow> string" where
  "json_word lib body path = to_lower (trim_space (jl_str lib body path))"

definition hasAuthenticationErrorBody :: "json_lib \<Rightarrow> string \<Rightarrow> bool" where
  "hasAuthenticationErrorBody lib message \<longleftrightarrow>
     (let body = trim_space message
      in body \<noteq> [] \<and> jl_valid lib body \<and>
         (\<exists>path\<in>set [''error.type'', ''type'', ''response.error.type'', ''body.error.type''].
            json_word lib body path = ''authentication_error''))"

definition hasRequestFaultBody :: "json_lib \<Rightarrow> string \<Rightarrow> bool" where
  "hasRequestFaultBody lib message \<longleftrightarrow>
     (let body = trim_space message
      in body \<noteq> [] \<and> jl_valid lib body \<and>
         ((\<exists>path\<in>set [''error.code'', ''code'', ''response.error.code'', ''body.error.code''].
             json_word lib body path \<in> set requestFaultCodes) \<or>
          (\<exists>path\<in>set [''error.type'', ''type'', ''response.error.type'', ''body.error.type''].
             json_word lib body path \<in> set requestFaultTypes)))"

text \<open>\<open>IsRequestFault\<close> of an error with the given text; \<open>own\<close> is the status the error itself carries,
  which counts when the given status is not positive.\<close>

definition IsRequestFault :: "json_lib \<Rightarrow> int \<Rightarrow> int option \<Rightarrow> string \<Rightarrow> bool" where
  "IsRequestFault lib status own message \<longleftrightarrow>
     (let status = (if status \<le> 0 then (case own of None \<Rightarrow> status | Some c \<Rightarrow> c) else status)
      in if status = 402 \<or> status = 429 then False
         else if status = 401 \<and> hasAuthenticationErrorBody lib message then False
         else if hasRequestFaultBody lib message then True
         else if IsItemNotPersisted message then True
         else status \<in> {400, 409, 413, 422})"

section \<open>Classes of result errors\<close>

definition any_contained :: "string list \<Rightarrow> string \<Rightarrow> bool" where
  "any_contained patterns lower \<longleftrightarrow> (\<exists>pattern\<in>set patterns. str_contains lower pattern)"

definition isModelSupportErrorMessage :: "string \<Rightarrow> bool" where
  "isModelSupportErrorMessage message \<longleftrightarrow>
     (let lower = to_lower (trim_space message)
      in lower \<noteq> [] \<and>
         any_contained [''model_not_supported'', ''requested model is not supported'', ''requested model is unsupported'',
           ''requested model is unavailable'', ''model is not supported'', ''model not supported'', ''unsupported model'',
           ''model unavailable'', ''not available for your plan'', ''not available for your account''] lower)"

definition isModelSupportResultError :: "AuthError option \<Rightarrow> bool" where
  "isModelSupportResultError err \<longleftrightarrow>
     (case err of
        None \<Rightarrow> False
      | Some e \<Rightarrow> statusCodeFromResult err \<in> {400, 422} \<and> isModelSupportErrorMessage (err_Message e))"

definition isInvalidGrantErrorMessage :: "string \<Rightarrow> bool" where
  "isInvalidGrantErrorMessage message \<longleftrightarrow> str_contains (to_lower message) ''invalid_grant''"

definition isInvalidGrantResultError :: "AuthError option \<Rightarrow> bool" where
  "isInvalidGrantResultError err \<longleftrightarrow>
     (case err of
        None \<Rightarrow> False
      | Some e \<Rightarrow> statusCodeFromResult err \<in> {400, 401} \<and>
          (isInvalidGrantErrorMessage (err_Code e) \<or> isInvalidGrantErrorMessage (err_Message e)))"

definition isCloudflareChallengeErrorMessage :: "string \<Rightarrow> bool" where
  "isCloudflareChallengeErrorMessage message \<longleftrightarrow>
     (let lower = to_lower (trim_space message)
      in any_contained [''challenge-platform'', ''cf-mitigated'', ''cloudflare challenge''] lower \<or>
         (str_contains lower ''cloudflare'' \<and> str_contains lower ''<html''))"

definition isCloudflareChallengeResultError :: "AuthError option \<Rightarrow> bool" where
  "isCloudflareChallengeResultError err \<longleftrightarrow>
     (case err of None \<Rightarrow> False | Some e \<Rightarrow> isCloudflareChallengeErrorMessage (err_Message e))"

definition isConnectionLifecycleMessage :: "string \<Rightarrow> bool" where
  "isConnectionLifecycleMessage message \<longleftrightarrow>
     (let lower = to_lower (trim_space message)
      in lower \<noteq> [] \<and>
         (lower \<in> {''context canceled'', ''context deadline exceeded'', ''eof'', ''unexpected eof''} \<or>
          any_contained [''websocket: close 1000'', ''websocket: close 1001'', ''websocket: close 1006''] lower \<or>
          str_contains lower ''unexpected eof''))"

definition isConnectionLifecycleResultError :: "AuthError option \<Rightarrow> bool" where
  "isConnectionLifecycleResultError err \<longleftrightarrow>
     (case err of
        None \<Rightarrow> False
      | Some e \<Rightarrow>
          if err_Code e = ''connection_lifecycle'' then True
          else if statusCodeFromResult err \<noteq> 0 then False
          else isConnectionLifecycleMessage (err_Message e))"

definition isRequestScopedNotFoundResultError :: "AuthError option \<Rightarrow> bool" where
  "isRequestScopedNotFoundResultError err \<longleftrightarrow>
     (case err of
        None \<Rightarrow> False
      | Some e \<Rightarrow> statusCodeFromResult err = 404 \<and> IsItemNotPersisted (err_Message e))"

text \<open>\<open>isModelSupportError\<close>, \<open>isInvalidGrantError\<close> and \<open>isCloudflareChallengeError\<close> read the text of the
  error, which starts with its code.\<close>

definition isModelSupportError :: "AuthError \<Rightarrow> bool" where
  "isModelSupportError e \<longleftrightarrow> err_HTTPStatus e \<in> {400, 422} \<and> isModelSupportErrorMessage (error_text e)"

definition isInvalidGrantError :: "AuthError \<Rightarrow> bool" where
  "isInvalidGrantError e \<longleftrightarrow> err_HTTPStatus e \<in> {400, 401} \<and> isInvalidGrantErrorMessage (error_text e)"

definition isCloudflareChallengeError :: "AuthError \<Rightarrow> bool" where
  "isCloudflareChallengeError e \<longleftrightarrow> isCloudflareChallengeErrorMessage (error_text e)"

definition isRequestInvalidError :: "json_lib \<Rightarrow> AuthError option \<Rightarrow> bool" where
  "isRequestInvalidError lib err \<longleftrightarrow>
     (case err of
        None \<Rightarrow> False
      | Some e \<Rightarrow>
          if IsRequestScoped err then True
          else if isCloudflareChallengeError e then False
          else if isInvalidGrantError e then False
          else if isModelSupportError e then False
          else if IsRequestFault lib (err_HTTPStatus e) (Some (err_HTTPStatus e)) (error_text e) then True
          else err_Message e \<noteq> [] \<and> IsRequestFault lib (err_HTTPStatus e) None (err_Message e))"

definition isRequestScopedResultError :: "json_lib \<Rightarrow> AuthError option \<Rightarrow> bool" where
  "isRequestScopedResultError lib err \<longleftrightarrow>
     (if err = None then False
      else if IsRequestScoped err \<or> isRequestScopedNotFoundResultError err then True
      else isRequestInvalidError lib err)"

definition is_force_cooldown :: "AuthError option \<Rightarrow> bool" where
  "is_force_cooldown err \<longleftrightarrow> (case err of None \<Rightarrow> False | Some e \<Rightarrow> err_Code e = ''force_cooldown'')"

definition shouldSkipCredentialCooldown :: "json_lib \<Rightarrow> AuthError option \<Rightarrow> bool" where
  "shouldSkipCredentialCooldown lib err \<longleftrightarrow>
     (if is_force_cooldown err then False
      else isRequestScopedResultError lib err \<or> isConnectionLifecycleResultError err)"

section \<open>Properties\<close>

lemma status_some [simp]: "statusCodeFromResult (Some e) = err_HTTPStatus e"
  by (simp add: statusCodeFromResult_def StatusCode_def)

lemma rate_limit_not_fault [simp]: "\<not> IsRequestFault lib 429 own m" "\<not> IsRequestFault lib 402 own m"
  by (simp_all add: IsRequestFault_def)

text \<open>Rate-limit and payment failures always count against the credential, whatever the body of the response
  says, unless the code marks the error as tied to the request or to the connection.\<close>

theorem quota_errors_never_skipped:
  assumes "err_HTTPStatus e = 429 \<or> err_HTTPStatus e = 402"
    and "err_Code e \<noteq> ''request_scoped''" "err_Code e \<noteq> ''connection_lifecycle''"
  shows "\<not> shouldSkipCredentialCooldown lib (Some e)"
  using assms
  by (auto simp: shouldSkipCredentialCooldown_def isRequestScopedResultError_def isRequestInvalidError_def
      isRequestScopedNotFoundResultError_def isConnectionLifecycleResultError_def IsRequestScoped_def)

theorem quota_errors_never_skipped_witness:
  "\<not> shouldSkipCredentialCooldown \<lparr>jl_valid = \<lambda>_. True, jl_str = \<lambda>_ _. ''invalid_request_error''\<rparr>
     (Some \<lparr>err_Code = [], err_Message = ''unexpected EOF'', err_Retryable = False, err_HTTPStatus = 429\<rparr>)"
  by (rule quota_errors_never_skipped) simp_all

end
