(* ===== verification/Quota_Signals.thy ===== *)
theory Quota_Signals
  imports Result_Errors Session_Identity "HOL-Library.Product_Lexorder"
begin

text \<open>
  The passive quota observation of \<open>sdk/cliproxy/auth/quota_signals.go\<close>: which response headers are
  quota signals, the bounded snapshot of one response, and the fields of a quota state that belong to
  the cooldown and to the observation.
\<close>

section \<open>Signal headers\<close>

definition ProviderSupportsQuotaObservation :: "string \<Rightarrow> bool" where
  "ProviderSupportsQuotaObservation provider \<longleftrightarrow> to_lower (trim_space provider) \<in> {''claude'', ''codex''}"

definition validQuotaSignalValue :: "string \<Rightarrow> bool" where
  "validQuotaSignalValue v \<longleftrightarrow> v \<noteq> [] \<and> length v \<le> 512 \<and> (\<forall>c\<in>set v. \<not> control_byte c)"

definition quotaSignalRetentionRank :: "string \<Rightarrow> nat" where
  "quotaSignalRetentionRank name =
     (let lower = to_lower (trim_space name)
      in if lower = ''retry-after'' \<or> has_prefix lower ''anthropic-ratelimit-unified-'' then 0
         else if lower = ''x-codex-plan-type'' \<or> lower = ''x-codex-active-limit'' \<or> has_prefix lower ''x-codex-credits-'' then 1
         else if lower = ''x-codex-allowed'' \<or> lower = ''x-codex-limit-reached'' \<or>
                 has_prefix lower ''x-codex-primary-'' \<or> has_prefix lower ''x-codex-secondary-'' then 2
         else if has_prefix lower ''x-codex-code-review-'' then 3
         else if has_prefix lower ''x-codex-additional-'' then 5
         else if has_prefix lower ''x-codex-'' then 4
         else 6)"

definition isQuotaSignalHeaderForProvider :: "string \<Rightarrow> string \<Rightarrow> bool" where
  "isQuotaSignalHeaderForProvider provider name \<longleftrightarrow>
     (let provider = to_lower (trim_space provider); name = to_lower (trim_space name)
      in if name = ''retry-after'' then provider = ''claude'' \<or> provider = ''codex''
         else if has_prefix name ''anthropic-ratelimit-unified-'' then provider = ''claude''
         else if has_prefix name ''x-ratelimit-'' then provider = ''codex''
         else if \<not> has_prefix name ''x-codex-'' then False
         else if provider \<noteq> ''codex'' then False
         else if name = ''x-codex-active-limit'' \<or> name = ''x-codex-plan-type'' \<or> has_prefix name ''x-codex-credits-'' then True
         else any_contained [''-allowed'', ''-limit-reached'', ''-limit-name'', ''-used-percent'', ''-window-minutes'',
                ''-reset-after-seconds'', ''-reset-at'', ''-over-secondary-limit-percent''] name)"

section \<open>The snapshot of a response\<close>

text \<open>The loop over the headers; a later value of a name replaces an earlier one.\<close>

fun signal_loop :: "string \<Rightarrow> header \<Rightarrow> (string \<times> string) list \<Rightarrow> (string \<times> string) list" where
  "signal_loop provider [] acc = acc"
| "signal_loop provider ((key, headerValues) # headers) acc =
     (let canonicalKey = canonical_header True (trim_space key)
      in if \<not> isQuotaSignalHeaderForProvider provider canonicalKey \<or> headerValues = [] then signal_loop provider headers acc
         else (let v = trim_space (last headerValues)
               in if \<not> validQuotaSignalValue v then signal_loop provider headers acc
                  else signal_loop provider headers (map_put canonicalKey v acc)))"

definition collectQuotaSignals :: "string \<Rightarrow> header \<Rightarrow> (string \<times> string) list" where
  "collectQuotaSignals provider headers =
     take 64 (sort_key (\<lambda>(name, v). (quotaSignalRetentionRank name, name)) (signal_loop provider headers []))"

section \<open>Cooldown and observation fields\<close>

definition ClearObservationSignals :: "QuotaState \<Rightarrow> QuotaState" where
  "ClearObservationSignals q = q\<lparr>quota_Signals := [], quota_ObservedAt := 0\<rparr>"

text \<open>The time of the observation is the current one, which is not the zero time.\<close>

definition ObserveResponseHeadersForProvider :: "string \<Rightarrow> header \<Rightarrow> gotime \<Rightarrow> QuotaState \<Rightarrow> QuotaState" where
  "ObserveResponseHeadersForProvider provider headers observedAt q =
     (if \<not> ProviderSupportsQuotaObservation provider then ClearObservationSignals q
      else if collectQuotaSignals provider headers = [] then q
      else q\<lparr>quota_Signals := collectQuotaSignals provider headers, quota_ObservedAt := observedAt\<rparr>)"

definition cooldownFieldsOf :: "QuotaState \<Rightarrow> QuotaState" where
  "cooldownFieldsOf q =
     zero_quota\<lparr>quota_Exceeded := quota_Exceeded q, quota_Reason := quota_Reason q,
       quota_NextRecoverAt := quota_NextRecoverAt q, quota_BackoffLevel := quota_BackoffLevel q\<rparr>"

definition applyCooldownFields :: "QuotaState \<Rightarrow> QuotaState \<Rightarrow> QuotaState" where
  "applyCooldownFields dst cooldown =
     dst\<lparr>quota_Exceeded := quota_Exceeded cooldown, quota_Reason := quota_Reason cooldown,
       quota_NextRecoverAt := quota_NextRecoverAt cooldown, quota_BackoffLevel := quota_BackoffLevel cooldown\<rparr>"

definition mergeQuotaObservation :: "QuotaState \<Rightarrow> QuotaState \<Rightarrow> QuotaState" where
  "mergeQuotaObservation target source =
     (if quota_ObservedAt source = 0 \<or> time_before (quota_ObservedAt source) (quota_ObservedAt target) then target
      else target\<lparr>quota_ObservedAt := quota_ObservedAt source, quota_Signals := quota_Signals source\<rparr>)"

section \<open>Laws\<close>

text \<open>The cooldown fields of a quota state.\<close>

lemma observe_cooldown [simp]:
  "quota_Exceeded (ObserveResponseHeadersForProvider p h t q) = quota_Exceeded q"
  "quota_Reason (ObserveResponseHeadersForProvider p h t q) = quota_Reason q"
  "quota_NextRecoverAt (ObserveResponseHeadersForProvider p h t q) = quota_NextRecoverAt q"
  "quota_BackoffLevel (ObserveResponseHeadersForProvider p h t q) = quota_BackoffLevel q"
  by (simp_all add: ObserveResponseHeadersForProvider_def ClearObservationSignals_def)

lemma merge_observation_cooldown [simp]:
  "quota_Exceeded (mergeQuotaObservation t s) = quota_Exceeded t"
  "quota_Reason (mergeQuotaObservation t s) = quota_Reason t"
  "quota_NextRecoverAt (mergeQuotaObservation t s) = quota_NextRecoverAt t"
  "quota_BackoffLevel (mergeQuotaObservation t s) = quota_BackoffLevel t"
  by (simp_all add: mergeQuotaObservation_def)

lemma apply_cooldown [simp]:
  "quota_Exceeded (applyCooldownFields d c) = quota_Exceeded c"
  "quota_Reason (applyCooldownFields d c) = quota_Reason c"
  "quota_NextRecoverAt (applyCooldownFields d c) = quota_NextRecoverAt c"
  "quota_BackoffLevel (applyCooldownFields d c) = quota_BackoffLevel c"
  "quota_Signals (applyCooldownFields d c) = quota_Signals d" "quota_ObservedAt (applyCooldownFields d c) = quota_ObservedAt d"
  by (simp_all add: applyCooldownFields_def)

lemma zero_quota_fields [simp]:
  "\<not> quota_Exceeded zero_quota" "quota_Reason zero_quota = []" "quota_NextRecoverAt zero_quota = 0"
  "quota_BackoffLevel zero_quota = 0"
  by (simp_all add: zero_quota_def)

definition signals_ok :: "string \<Rightarrow> (string \<times> string) list \<Rightarrow> bool" where
  "signals_ok p m \<longleftrightarrow> wf_map m \<and> (\<forall>n v. (n, v) \<in> set m \<longrightarrow> isQuotaSignalHeaderForProvider p n \<and> validQuotaSignalValue v)"

lemma signals_ok_put:
  "signals_ok p m \<Longrightarrow> isQuotaSignalHeaderForProvider p n \<Longrightarrow> validQuotaSignalValue v \<Longrightarrow> signals_ok p (map_put n v m)"
  by (auto simp: signals_ok_def set_map_put distinct_update)

lemma signal_loop_ok: "signals_ok p acc \<Longrightarrow> signals_ok p (signal_loop p h acc)"
  by (induction p h acc rule: signal_loop.induct) (simp_all add: Let_def signals_ok_put)

lemma collect_bounded:
  "length (collectQuotaSignals p h) \<le> 64"
  "(n, v) \<in> set (collectQuotaSignals p h) \<Longrightarrow> isQuotaSignalHeaderForProvider p n \<and> validQuotaSignalValue v"
proof -
  have "signals_ok p []" by (simp add: signals_ok_def)
  from signal_loop_ok [OF this] have ok: "signals_ok p (signal_loop p h [])" .
  show "isQuotaSignalHeaderForProvider p n \<and> validQuotaSignalValue v" if "(n, v) \<in> set (collectQuotaSignals p h)"
  proof -
    have "(n, v) \<in> set (signal_loop p h [])" using in_set_takeD [OF that [unfolded collectQuotaSignals_def]] by simp
    with ok show ?thesis by (simp add: signals_ok_def)
  qed
qed (simp add: collectQuotaSignals_def)

end
