(* ===== verification/Cooldown.thy ===== *)
theory Cooldown
  imports Quota_Signals Availability
begin

text \<open>
  How results change a credential: the cooldown functions of \<open>sdk/cliproxy/auth/conductor_cooldown.go\<close>,
  the backoff of quota errors, the per-model states and their aggregate, the reaction to failures and
  successes, and the records that keep cooldowns across restarts. Pointers to a model state are the
  key of the state in the credential's map; no two keys of the map share a state. A \<open>time.Duration\<close> is
  an integer of nanoseconds.
\<close>

section \<open>Backoff\<close>

abbreviation (input) quotaBackoffBase :: duration where "quotaBackoffBase \<equiv> second_ns"
abbreviation (input) quotaBackoffMax :: duration where "quotaBackoffMax \<equiv> 30 * minute_ns"
abbreviation (input) transientErrorCooldown :: duration where "transientErrorCooldown \<equiv> minute_ns"

text \<open>The product and the shift are 64-bit operations that wrap.\<close>

definition nextQuotaCooldown :: "int \<Rightarrow> bool \<Rightarrow> duration \<times> int" where
  "nextQuotaCooldown prevLevel disableCooling =
     (let prevLevel = (if prevLevel < 0 then 0 else prevLevel)
      in if disableCooling then (0, prevLevel)
         else
           (let cooldown = wrap64 (quotaBackoffBase * wrap64 (2 ^ nat prevLevel));
                cooldown = (if cooldown < quotaBackoffBase then quotaBackoffBase else cooldown)
            in if cooldown \<ge> quotaBackoffMax then (quotaBackoffMax, prevLevel) else (cooldown, prevLevel + 1)))"

definition quotaCooldownAfterFailure :: "QuotaState \<Rightarrow> gotime \<Rightarrow> gotime \<times> int" where
  "quotaCooldownAfterFailure quota now =
     (if time_after (quota_NextRecoverAt quota) now then (quota_NextRecoverAt quota, quota_BackoffLevel quota)
      else (case nextQuotaCooldown (quota_BackoffLevel quota) False of
              (cooldown, nextLevel) \<Rightarrow> (if cooldown > 0 then now + cooldown else 0, nextLevel)))"

definition nextCloudflareCooldown :: "int \<Rightarrow> bool \<Rightarrow> gotime \<Rightarrow> gotime \<times> int" where
  "nextCloudflareCooldown backoffLevel disableCooling now =
     (if disableCooling then (0, backoffLevel)
      else (case nextQuotaCooldown backoffLevel disableCooling of
              (cooldown, nextLevel) \<Rightarrow>
                (let cooldown = (if cooldown < 10 * second_ns then 10 * second_ns else cooldown)
                 in (if cooldown > 0 then now + cooldown else 0, nextLevel))))"

text \<open>\<open>seconds\<close> is the configured cooldown of transient errors.\<close>

definition nextTransientErrorRetryAfter :: "int \<Rightarrow> gotime \<Rightarrow> gotime" where
  "nextTransientErrorRetryAfter seconds now =
     (if seconds < 0 then 0
      else if seconds = 0 then now + transientErrorCooldown
      else now + wrap64 (seconds * second_ns))"

definition recoverableFailureRetryAfter :: "int \<Rightarrow> gotime \<Rightarrow> bool \<Rightarrow> gotime" where
  "recoverableFailureRetryAfter seconds now disableCooling =
     (if disableCooling then 0 else nextTransientErrorRetryAfter seconds now)"

section \<open>Model states\<close>

definition resetModelState :: "gotime \<Rightarrow> ModelState \<Rightarrow> ModelState" where
  "resetModelState now state =
     state\<lparr>ms_Unavailable := False, ms_Status := StatusActive, ms_StatusMessage := [], ms_NextRetryAfter := 0,
       ms_LastError := None, ms_Quota := applyCooldownFields (ms_Quota state) zero_quota, ms_UpdatedAt := now\<rparr>"

definition modelStateIsClean :: "ModelState option \<Rightarrow> bool" where
  "modelStateIsClean state \<longleftrightarrow>
     (case state of
        None \<Rightarrow> True
      | Some st \<Rightarrow>
          if ms_Status st \<noteq> StatusActive then False
          else if ms_Unavailable st \<or> ms_StatusMessage st \<noteq> [] \<or> ms_NextRetryAfter st \<noteq> 0 \<or> ms_LastError st \<noteq> None then False
          else if quota_Exceeded (ms_Quota st) \<or> quota_Reason (ms_Quota st) \<noteq> [] \<or>
                  quota_NextRecoverAt (ms_Quota st) \<noteq> 0 \<or> quota_BackoffLevel (ms_Quota st) \<noteq> 0 then False
          else True)"

definition merge_states :: "ModelState \<Rightarrow> ModelState \<Rightarrow> ModelState" where
  "merge_states target source =
     (let later = time_after (ms_UpdatedAt source) (ms_UpdatedAt target);
          preferred = (if later then source else target);
          fallback = (if later then target else source);
          quota = zero_quota\<lparr>quota_Exceeded := quota_Exceeded (ms_Quota target) \<or> quota_Exceeded (ms_Quota source),
             quota_Reason := quota_Reason (ms_Quota preferred),
             quota_NextRecoverAt := quota_NextRecoverAt (ms_Quota target),
             quota_BackoffLevel := quota_BackoffLevel (ms_Quota target)\<rparr>;
          quota = mergeQuotaObservation (mergeQuotaObservation quota (ms_Quota fallback)) (ms_Quota preferred);
          quota = (if time_after (quota_NextRecoverAt (ms_Quota source)) (quota_NextRecoverAt quota)
                   then quota\<lparr>quota_NextRecoverAt := quota_NextRecoverAt (ms_Quota source)\<rparr> else quota);
          quota = (if quota_BackoffLevel (ms_Quota source) > quota_BackoffLevel quota
                   then quota\<lparr>quota_BackoffLevel := quota_BackoffLevel (ms_Quota source)\<rparr> else quota);
          quota = (if quota_Reason quota = [] then quota\<lparr>quota_Reason := quota_Reason (ms_Quota fallback)\<rparr> else quota);
          unavailable = (ms_Unavailable target \<or> ms_Unavailable source)
      in \<lparr>ms_Status = (if ms_Status target = StatusDisabled \<or> ms_Status source = StatusDisabled then StatusDisabled
                        else if unavailable \<or> quota_Exceeded quota then StatusError else ms_Status preferred),
          ms_StatusMessage = (if ms_StatusMessage preferred = [] then ms_StatusMessage fallback else ms_StatusMessage preferred),
          ms_Unavailable = unavailable,
          ms_NextRetryAfter = (if time_after (ms_NextRetryAfter source) (ms_NextRetryAfter target)
                               then ms_NextRetryAfter source else ms_NextRetryAfter target),
          ms_LastError = (if ms_LastError preferred = None then ms_LastError fallback else ms_LastError preferred),
          ms_Quota = quota,
          ms_UpdatedAt = (if later then ms_UpdatedAt source else ms_UpdatedAt target)\<rparr>)"

definition mergeModelState :: "ModelState option \<Rightarrow> ModelState option \<Rightarrow> ModelState option" where
  "mergeModelState target source =
     (case target of
        None \<Rightarrow> source
      | Some t \<Rightarrow> (case source of None \<Rightarrow> target | Some s \<Rightarrow> Some (merge_states t s)))"

type_synonym states = "(string \<times> ModelState option) list"

text \<open>The key a state is kept under.\<close>

definition state_key :: "string \<Rightarrow> string" where
  "state_key model =
     (let modelKey = canonicalModelKey model in if modelKey = [] then trim_space model else modelKey)"

fun normalize_states :: "states \<Rightarrow> states \<Rightarrow> bool \<Rightarrow> states \<times> bool" where
  "normalize_states [] normalized changed = (normalized, changed)"
| "normalize_states ((model, state) # ms) normalized changed =
     (let modelKey = state_key model; changed = (changed \<or> modelKey \<noteq> model)
      in case map_of normalized modelKey of
           Some existing \<Rightarrow> normalize_states ms (map_put modelKey (mergeModelState existing state) normalized) True
         | None \<Rightarrow> normalize_states ms (map_put modelKey state normalized) changed)"

definition normalizeModelStates :: "Auth \<Rightarrow> Auth" where
  "normalizeModelStates auth =
     (case normalize_states (auth_ModelStates auth) [] False of
        (normalized, changed) \<Rightarrow> if changed then auth\<lparr>auth_ModelStates := normalized\<rparr> else auth)"

definition existingModelState :: "Auth \<Rightarrow> string \<Rightarrow> ModelState option" where
  "existingModelState auth model =
     (let model = canonicalModelKey model
      in if model = [] then None else (case map_of (auth_ModelStates auth) model of None \<Rightarrow> None | Some s \<Rightarrow> s))"

definition set_state :: "string \<Rightarrow> ModelState \<Rightarrow> Auth \<Rightarrow> Auth" where
  "set_state key st auth = auth\<lparr>auth_ModelStates := map_put key (Some st) (auth_ModelStates auth)\<rparr>"

definition fresh_state :: ModelState where
  "fresh_state = zero_model_state\<lparr>ms_Status := StatusActive\<rparr>"

text \<open>The state of a model, created when missing, for a model key that is not empty.\<close>

definition ensureModelState :: "Auth \<Rightarrow> string \<Rightarrow> ModelState \<times> Auth" where
  "ensureModelState auth model =
     (let auth = normalizeModelStates auth; key = canonicalModelKey model
      in case map_of (auth_ModelStates auth) key of
           Some (Some st) \<Rightarrow> (st, auth)
         | _ \<Rightarrow> (fresh_state, set_state key fresh_state auth))"

section \<open>Aggregated availability\<close>

record aggregate =
  ag_allUnavailable :: bool
  ag_earliestRetry :: gotime
  ag_quotaExceeded :: bool
  ag_quotaRecover :: gotime
  ag_maxBackoffLevel :: int
  ag_hasState :: bool

definition counts_unavailable :: "ModelState \<Rightarrow> gotime \<Rightarrow> bool" where
  "counts_unavailable st now \<longleftrightarrow>
     ms_Status st = StatusDisabled \<or>
     ms_Unavailable st \<and> ms_NextRetryAfter st \<noteq> 0 \<and> time_after (ms_NextRetryAfter st) now"

definition expire_state :: "gotime \<Rightarrow> ModelState \<Rightarrow> ModelState" where
  "expire_state now st =
     (if ms_Status st \<noteq> StatusDisabled \<and> ms_Unavailable st \<and> ms_NextRetryAfter st \<noteq> 0 \<and>
         \<not> time_after (ms_NextRetryAfter st) now
      then st\<lparr>ms_Unavailable := False, ms_NextRetryAfter := 0\<rparr> else st)"

definition aggregate_step :: "gotime \<Rightarrow> ModelState \<Rightarrow> aggregate \<Rightarrow> aggregate" where
  "aggregate_step now st ag =
     (let quota = ms_Quota st
      in ag\<lparr>ag_hasState := True,
            ag_allUnavailable := ag_allUnavailable ag \<and> counts_unavailable st now,
            ag_earliestRetry :=
              (if ms_Status st \<noteq> StatusDisabled \<and> counts_unavailable st now \<and>
                  (ag_earliestRetry ag = 0 \<or> time_before (ms_NextRetryAfter st) (ag_earliestRetry ag))
               then ms_NextRetryAfter st else ag_earliestRetry ag),
            ag_quotaExceeded := ag_quotaExceeded ag \<or> quota_Exceeded quota,
            ag_quotaRecover :=
              (if quota_Exceeded quota \<and>
                  (ag_quotaRecover ag = 0 \<or>
                   quota_NextRecoverAt quota \<noteq> 0 \<and> time_before (quota_NextRecoverAt quota) (ag_quotaRecover ag))
               then quota_NextRecoverAt quota else ag_quotaRecover ag),
            ag_maxBackoffLevel :=
              (if quota_Exceeded quota \<and> quota_BackoffLevel quota > ag_maxBackoffLevel ag
               then quota_BackoffLevel quota else ag_maxBackoffLevel ag)\<rparr>)"

definition live_states :: "states \<Rightarrow> ModelState list" where
  "live_states ms = concat (map (\<lambda>(k, s). case s of None \<Rightarrow> [] | Some st \<Rightarrow> [st]) ms)"

definition aggregate_states :: "gotime \<Rightarrow> states \<Rightarrow> aggregate" where
  "aggregate_states now ms =
     fold (aggregate_step now) (live_states ms)
       \<lparr>ag_allUnavailable = True, ag_earliestRetry = 0, ag_quotaExceeded = False, ag_quotaRecover = 0,
        ag_maxBackoffLevel = 0, ag_hasState = False\<rparr>"

definition clearAggregatedAvailability :: "Auth \<Rightarrow> Auth" where
  "clearAggregatedAvailability auth =
     auth\<lparr>auth_Unavailable := False, auth_NextRetryAfter := 0,
       auth_Quota := applyCooldownFields (auth_Quota auth) zero_quota\<rparr>"

definition aggregate_quota :: "gotime \<Rightarrow> aggregate \<Rightarrow> QuotaState \<Rightarrow> QuotaState" where
  "aggregate_quota now ag quota =
     (if ag_quotaExceeded ag then
        quota\<lparr>quota_Exceeded := True, quota_Reason := ''quota'',
          quota_NextRecoverAt := (if time_after (quota_NextRecoverAt quota) (ag_quotaRecover ag)
                                  then quota_NextRecoverAt quota else ag_quotaRecover ag),
          quota_BackoffLevel := ag_maxBackoffLevel ag\<rparr>
      else if quota_Exceeded quota \<and> time_after (quota_NextRecoverAt quota) now then quota
      else applyCooldownFields quota zero_quota)"

definition updateAggregatedAvailability :: "gotime \<Rightarrow> Auth \<Rightarrow> Auth" where
  "updateAggregatedAvailability now auth =
     (if quota_Exceeded (auth_Quota auth) \<and> quota_Reason (auth_Quota auth) = ''credential_quota'' \<and>
         time_after (quota_NextRecoverAt (auth_Quota auth)) now
      then auth\<lparr>auth_Unavailable := True\<rparr>
      else if length (auth_ModelStates auth) = 0 then clearAggregatedAvailability auth
      else
        (let ag = aggregate_states now (auth_ModelStates auth);
             auth = auth\<lparr>auth_ModelStates := map (\<lambda>(k, s). (k, map_option (expire_state now) s)) (auth_ModelStates auth)\<rparr>
         in if \<not> ag_hasState ag then clearAggregatedAvailability auth
            else auth\<lparr>auth_Unavailable := ag_allUnavailable ag,
              auth_NextRetryAfter := (if ag_allUnavailable ag then ag_earliestRetry ag else 0),
              auth_Quota := aggregate_quota now ag (auth_Quota auth)\<rparr>))"

definition hasModelError :: "Auth \<Rightarrow> gotime \<Rightarrow> bool" where
  "hasModelError auth now \<longleftrightarrow>
     (\<exists>st\<in>set (live_states (auth_ModelStates auth)).
        ms_LastError st \<noteq> None \<or>
        ms_Status st = StatusError \<and> ms_Unavailable st \<and>
          (ms_NextRetryAfter st = 0 \<or> time_after (ms_NextRetryAfter st) now))"

definition clearAuthStateOnSuccess :: "gotime \<Rightarrow> Auth \<Rightarrow> Auth" where
  "clearAuthStateOnSuccess now auth =
     auth\<lparr>auth_Unavailable := False, auth_Status := StatusActive, auth_StatusMessage := [],
       auth_Quota := applyCooldownFields (auth_Quota auth) zero_quota, auth_LastError := None,
       auth_NextRetryAfter := 0, auth_UpdatedAt := now\<rparr>"

section \<open>Failures of a model\<close>

record exec_result =
  res_AuthID :: string
  res_Provider :: string
  res_Model :: string
  res_Success :: bool
  res_RetryAfter :: "duration option"
  res_CredentialScope :: bool
  res_Error :: "AuthError option"
  res_SkipQuotaObservation :: bool

text \<open>What a failure does to the state of its model: the new state, the reason for suspending the model (empty
  when it is not suspended), whether the registry is told of an exceeded quota, and for a failure that
  affects the whole credential the recovery time and backoff level.\<close>

record failure_effect =
  fe_state :: ModelState
  fe_suspendReason :: string
  fe_setModelQuota :: bool
  fe_credential :: "(gotime \<times> int) option"

definition plain_effect :: "ModelState \<Rightarrow> failure_effect" where
  "plain_effect state = \<lparr>fe_state = state, fe_suspendReason = [], fe_setModelQuota = False, fe_credential = None\<rparr>"

definition timed_effect :: "ModelState \<Rightarrow> gotime \<Rightarrow> duration \<Rightarrow> bool \<Rightarrow> string \<Rightarrow> failure_effect" where
  "timed_effect state now cooldown disableCooling reason =
     (if disableCooling then plain_effect (state\<lparr>ms_NextRetryAfter := 0\<rparr>)
      else (plain_effect (state\<lparr>ms_NextRetryAfter := now + cooldown\<rparr>))\<lparr>fe_suspendReason := reason\<rparr>)"

definition quota_fields :: "string \<Rightarrow> gotime \<Rightarrow> int \<Rightarrow> QuotaState" where
  "quota_fields reason next_ts backoffLevel =
     zero_quota\<lparr>quota_Exceeded := True, quota_Reason := reason, quota_NextRecoverAt := next_ts,
       quota_BackoffLevel := backoffLevel\<rparr>"

text \<open>The recovery time of a rate limit: the provider's hint or the backoff, but not before a window that
  is still open.\<close>

definition rate_limit_next :: "QuotaState \<Rightarrow> duration option \<Rightarrow> bool \<Rightarrow> gotime \<Rightarrow> gotime \<times> int" where
  "rate_limit_next quota retryAfter disableCooling now =
     (if disableCooling then (0, quota_BackoffLevel quota)
      else (case (case retryAfter of
                    Some d \<Rightarrow> (now + d, quota_BackoffLevel quota)
                  | None \<Rightarrow> quotaCooldownAfterFailure quota now) of
              (next_ts, backoffLevel) \<Rightarrow>
                (if quota_Exceeded quota \<and> time_after (quota_NextRecoverAt quota) next_ts
                 then quota_NextRecoverAt quota else next_ts, backoffLevel)))"

definition rate_limit_effect :: "ModelState \<Rightarrow> exec_result \<Rightarrow> bool \<Rightarrow> gotime \<Rightarrow> failure_effect" where
  "rate_limit_effect state result disableCooling now =
     (case rate_limit_next (ms_Quota state) (res_RetryAfter result) disableCooling now of
        (next_ts, backoffLevel) \<Rightarrow>
          \<lparr>fe_state = state\<lparr>ms_NextRetryAfter := next_ts,
             ms_Quota := applyCooldownFields (ms_Quota state) (quota_fields ''quota'' next_ts backoffLevel)\<rparr>,
           fe_suspendReason = (if disableCooling then [] else ''quota''),
           fe_setModelQuota = (\<not> disableCooling),
           fe_credential = (if res_CredentialScope result \<and> \<not> disableCooling then Some (next_ts, backoffLevel) else None)\<rparr>)"

definition recoverable_effect :: "int \<Rightarrow> ModelState \<Rightarrow> bool \<Rightarrow> gotime \<Rightarrow> failure_effect" where
  "recoverable_effect seconds state disableCooling now =
     (let next_ts = recoverableFailureRetryAfter seconds now disableCooling
      in plain_effect (state\<lparr>ms_NextRetryAfter := next_ts, ms_Unavailable := (next_ts \<noteq> 0)\<rparr>))"

definition cloudflare_effect :: "ModelState \<Rightarrow> bool \<Rightarrow> gotime \<Rightarrow> failure_effect" where
  "cloudflare_effect state disableCooling now =
     (case nextCloudflareCooldown (quota_BackoffLevel (ms_Quota state)) disableCooling now of
        (next_ts, backoffLevel) \<Rightarrow>
          plain_effect (state\<lparr>ms_NextRetryAfter := next_ts, ms_StatusMessage := ''cloudflare challenge'',
            ms_Quota := applyCooldownFields (ms_Quota state) (quota_fields ''cloudflare challenge'' next_ts backoffLevel)\<rparr>))"

definition failure_effect_of ::
  "int \<Rightarrow> exec_result \<Rightarrow> bool \<Rightarrow> gotime \<Rightarrow> ModelState \<Rightarrow> failure_effect" where
  "failure_effect_of seconds result disableCooling now state =
     (let err = res_Error result; statusCode = statusCodeFromResult err
      in if isModelSupportResultError err then
           (plain_effect (state\<lparr>ms_NextRetryAfter := now + 12 * hour_ns\<rparr>))\<lparr>fe_suspendReason := ''model_not_supported''\<rparr>
         else if isCloudflareChallengeResultError err then cloudflare_effect state disableCooling now
         else if isInvalidGrantResultError err then timed_effect state now (30 * minute_ns) disableCooling ''invalid_grant''
         else if statusCode = 401 then timed_effect state now (30 * minute_ns) disableCooling ''unauthorized''
         else if statusCode = 402 \<or> statusCode = 403 then timed_effect state now (30 * minute_ns) disableCooling ''payment_required''
         else if statusCode = 404 then timed_effect state now (12 * hour_ns) disableCooling ''not_found''
         else if statusCode = 429 then rate_limit_effect state result disableCooling now
         else recoverable_effect seconds state disableCooling now)"

text \<open>A credential-wide rate limit marks the states of the other models and the credential.\<close>

definition spread_state :: "gotime \<Rightarrow> int \<Rightarrow> ModelState \<Rightarrow> ModelState" where
  "spread_state next_ts backoffLevel st =
     (let otherNext = (if quota_Exceeded (ms_Quota st) \<and> time_after (quota_NextRecoverAt (ms_Quota st)) next_ts
                       then quota_NextRecoverAt (ms_Quota st) else next_ts)
      in st\<lparr>ms_Unavailable := True, ms_Status := StatusError, ms_NextRetryAfter := otherNext,
            ms_Quota := applyCooldownFields (ms_Quota st) (quota_fields ''credential_quota'' otherNext backoffLevel)\<rparr>)"

definition spread_credential :: "string \<Rightarrow> gotime \<Rightarrow> int \<Rightarrow> Auth \<Rightarrow> Auth" where
  "spread_credential key next_ts backoffLevel auth =
     (let authNext = (if time_after (quota_NextRecoverAt (auth_Quota auth)) next_ts
                      then quota_NextRecoverAt (auth_Quota auth) else next_ts)
      in auth\<lparr>auth_ModelStates := map (\<lambda>(k, s). (k, if k = key then s else map_option (spread_state next_ts backoffLevel) s))
                 (auth_ModelStates auth),
              auth_Unavailable := True,
              auth_Quota := (auth_Quota auth)\<lparr>quota_Exceeded := True, quota_Reason := ''credential_quota'',
                 quota_NextRecoverAt := authNext\<rparr>,
              auth_NextRetryAfter := authNext\<rparr>)"

text \<open>The last adjustments of the state.\<close>

definition settle_state :: "AuthError option \<Rightarrow> bool \<Rightarrow> gotime \<Rightarrow> ModelState \<Rightarrow> ModelState" where
  "settle_state err disableCooling now st =
     (let st = (if disableCooling \<and> ms_NextRetryAfter st = 0 \<and> quota_NextRecoverAt (ms_Quota st) = 0
                then st\<lparr>ms_Unavailable := False, ms_Quota := (ms_Quota st)\<lparr>quota_Exceeded := False\<rparr>\<rparr> else st)
      in if is_force_cooldown err \<and> ms_NextRetryAfter st = 0
         then st\<lparr>ms_NextRetryAfter := now + transientErrorCooldown, ms_Unavailable := True\<rparr> else st)"

datatype registry_action =
    ClearModelQuotaExceeded string
  | SetModelQuotaExceeded string
  | ResumeClientModel string
  | SuspendClientModel string string

definition failing_state :: "AuthError option \<Rightarrow> gotime \<Rightarrow> ModelState \<Rightarrow> ModelState" where
  "failing_state err now st =
     (let st = st\<lparr>ms_Unavailable := True, ms_Status := StatusError, ms_UpdatedAt := now\<rparr>
      in case err of None \<Rightarrow> st | Some e \<Rightarrow> st\<lparr>ms_LastError := Some e, ms_StatusMessage := err_Message e\<rparr>)"

definition failing_auth :: "AuthError option \<Rightarrow> Auth \<Rightarrow> Auth" where
  "failing_auth err auth =
     (case err of
        None \<Rightarrow> auth
      | Some e \<Rightarrow> auth\<lparr>auth_LastError := Some e,
          auth_StatusMessage :=
            (if \<not> isModelSupportResultError err \<and> isCloudflareChallengeResultError err then ''cloudflare challenge'' else err_Message e)\<rparr>)"

text \<open>A failure of a model that counts against the credential; \<open>disable\<close> says that cooldowns are switched
  off for it.\<close>

definition mark_model_failure ::
  "int \<Rightarrow> bool \<Rightarrow> exec_result \<Rightarrow> gotime \<Rightarrow> string \<Rightarrow> Auth \<Rightarrow> Auth \<times> registry_action list" where
  "mark_model_failure seconds disable result now modelKey auth =
     (let err = res_Error result; disableCooling = (disable \<and> \<not> is_force_cooldown err); key = canonicalModelKey modelKey
      in case ensureModelState auth modelKey of
           (state, a) \<Rightarrow>
             (let eff = failure_effect_of seconds result disableCooling now (failing_state err now state);
                  a = set_state key (fe_state eff) (failing_auth err a);
                  a = (case fe_credential eff of None \<Rightarrow> a | Some (n, l) \<Rightarrow> spread_credential key n l a);
                  a = set_state key (settle_state err disableCooling now (fe_state eff)) a;
                  a = a\<lparr>auth_Status := StatusError, auth_UpdatedAt := now\<rparr>
              in (updateAggregatedAvailability now a,
                  (if fe_setModelQuota eff then [SetModelQuotaExceeded modelKey] else []) @
                  (if fe_suspendReason eff \<noteq> [] then [SuspendClientModel modelKey (fe_suspendReason eff)] else []))))"

section \<open>Failures without a model\<close>

definition settle_auth :: "bool \<Rightarrow> Auth \<Rightarrow> Auth" where
  "settle_auth disableCooling auth =
     (if disableCooling \<and> auth_NextRetryAfter auth = 0 \<and> quota_NextRecoverAt (auth_Quota auth) = 0
      then auth\<lparr>auth_Unavailable := False, auth_Quota := (auth_Quota auth)\<lparr>quota_Exceeded := False\<rparr>\<rparr> else auth)"

definition timed_auth :: "string \<Rightarrow> duration \<Rightarrow> bool \<Rightarrow> gotime \<Rightarrow> Auth \<Rightarrow> Auth" where
  "timed_auth message cooldown disableCooling now auth =
     auth\<lparr>auth_StatusMessage := message, auth_NextRetryAfter := (if disableCooling then 0 else now + cooldown)\<rparr>"

definition force_auth :: "AuthError option \<Rightarrow> gotime \<Rightarrow> Auth \<Rightarrow> Auth" where
  "force_auth err now auth =
     (if is_force_cooldown err \<and> auth_NextRetryAfter auth = 0
      then auth\<lparr>auth_NextRetryAfter := now + transientErrorCooldown, auth_Unavailable := True\<rparr> else auth)"

definition rate_limited_auth :: "duration option \<Rightarrow> bool \<Rightarrow> gotime \<Rightarrow> Auth \<Rightarrow> Auth" where
  "rate_limited_auth retryAfter disableCooling now auth =
     (let quota = (auth_Quota auth)\<lparr>quota_Exceeded := True, quota_Reason := ''quota''\<rparr>
      in case rate_limit_next quota retryAfter disableCooling now of
           (next_ts, backoffLevel) \<Rightarrow>
             auth\<lparr>auth_StatusMessage := ''quota exhausted'',
               auth_Quota := quota\<lparr>quota_NextRecoverAt := next_ts, quota_BackoffLevel := backoffLevel\<rparr>,
               auth_NextRetryAfter := next_ts\<rparr>)"

definition recoverable_auth :: "int \<Rightarrow> string \<Rightarrow> bool \<Rightarrow> gotime \<Rightarrow> Auth \<Rightarrow> Auth" where
  "recoverable_auth seconds message disableCooling now auth =
     (let next_ts = recoverableFailureRetryAfter seconds now disableCooling
      in auth\<lparr>auth_StatusMessage := message, auth_NextRetryAfter := next_ts, auth_Unavailable := (next_ts \<noteq> 0)\<rparr>)"

definition applyAuthFailureState ::
  "json_lib \<Rightarrow> int \<Rightarrow> AuthError option \<Rightarrow> duration option \<Rightarrow> gotime \<Rightarrow> bool \<Rightarrow> Auth \<Rightarrow> Auth" where
  "applyAuthFailureState lib seconds resultErr retryAfter now disableCooling auth =
     (if shouldSkipCredentialCooldown lib resultErr then auth
      else
        (let auth = auth\<lparr>auth_Unavailable := True, auth_Status := StatusError, auth_UpdatedAt := now\<rparr>;
             auth = (case resultErr of
                       None \<Rightarrow> auth
                     | Some e \<Rightarrow> auth\<lparr>auth_LastError := Some e,
                         auth_StatusMessage := (if err_Message e \<noteq> [] then err_Message e else auth_StatusMessage auth)\<rparr>);
             statusCode = statusCodeFromResult resultErr
         in settle_auth disableCooling
              (if isCloudflareChallengeResultError resultErr then
                 (case nextCloudflareCooldown (quota_BackoffLevel (auth_Quota auth)) disableCooling now of
                    (next_ts, backoffLevel) \<Rightarrow>
                      auth\<lparr>auth_StatusMessage := ''cloudflare challenge'',
                        auth_Quota := applyCooldownFields (auth_Quota auth) (quota_fields ''cloudflare challenge'' next_ts backoffLevel),
                        auth_NextRetryAfter := next_ts\<rparr>)
               else if isInvalidGrantResultError resultErr then timed_auth ''invalid_grant'' (30 * minute_ns) disableCooling now auth
               else force_auth resultErr now
                 (if statusCode = 401 then timed_auth ''unauthorized'' (30 * minute_ns) disableCooling now auth
                  else if statusCode = 402 \<or> statusCode = 403 then timed_auth ''payment_required'' (30 * minute_ns) disableCooling now auth
                  else if statusCode = 404 then timed_auth ''not_found'' (12 * hour_ns) disableCooling now auth
                  else if statusCode = 429 then rate_limited_auth retryAfter disableCooling now auth
                  else if statusCode \<in> {408, 500, 502, 503, 504} then
                    recoverable_auth seconds ''transient upstream error'' disableCooling now auth
                  else recoverable_auth seconds
                    (if auth_StatusMessage auth = [] then ''request failed'' else auth_StatusMessage auth) disableCooling now auth))))"

section \<open>Results\<close>

definition count_result :: "gotime \<Rightarrow> bool \<Rightarrow> Auth \<Rightarrow> Auth" where
  "count_result now success auth =
     (let auth = recordRecentRequest now success auth
      in if success then auth\<lparr>auth_Success := auth_Success auth + 1\<rparr> else auth\<lparr>auth_Failed := auth_Failed auth + 1\<rparr>)"

definition settle_status :: "gotime \<Rightarrow> Auth \<Rightarrow> Auth" where
  "settle_status now auth =
     (if \<not> hasModelError auth now
      then auth\<lparr>auth_LastError := None, auth_StatusMessage := [], auth_Status := StatusActive\<rparr> else auth)"

definition mark_success :: "gotime \<Rightarrow> string \<Rightarrow> Auth \<Rightarrow> Auth \<times> registry_action list" where
  "mark_success now modelKey auth =
     (if quota_Reason (auth_Quota auth) = ''credential_quota'' \<and> time_after (quota_NextRecoverAt (auth_Quota auth)) now
      then (auth, [])
      else if modelKey \<noteq> [] then
        (case ensureModelState auth modelKey of
           (state, a) \<Rightarrow>
             (let a = updateAggregatedAvailability now (set_state (canonicalModelKey modelKey) (resetModelState now state) a)
              in ((settle_status now a)\<lparr>auth_UpdatedAt := now\<rparr>,
                  [ClearModelQuotaExceeded modelKey, ResumeClientModel modelKey])))
      else (clearAuthStateOnSuccess now auth, []))"

text \<open>The headers of the response update the observation of the credential and of the model's state.\<close>

definition observe_result :: "exec_result \<Rightarrow> header \<Rightarrow> gotime \<Rightarrow> string \<Rightarrow> Auth \<Rightarrow> Auth" where
  "observe_result result headers now modelKey auth =
     (if res_SkipQuotaObservation result then auth
      else
        (let observe = ObserveResponseHeadersForProvider (res_Provider result) headers now;
             auth = auth\<lparr>auth_Quota := observe (auth_Quota auth)\<rparr>
         in case existingModelState auth modelKey of
              None \<Rightarrow> auth
            | Some st \<Rightarrow> set_state (canonicalModelKey modelKey) (st\<lparr>ms_Quota := observe (ms_Quota st)\<rparr>) auth))"

text \<open>What \<open>MarkResult\<close> does to the credential of the result, and the registry calls it makes afterwards.\<close>

definition mark_auth ::
  "json_lib \<Rightarrow> int \<Rightarrow> bool \<Rightarrow> header \<Rightarrow> exec_result \<Rightarrow> gotime \<Rightarrow> Auth \<Rightarrow> Auth \<times> registry_action list" where
  "mark_auth lib seconds disable headers result now auth =
     (let modelKey = canonicalModelKey (res_Model result);
          auth = count_result now (res_Success result) auth
      in case (if res_Success result then mark_success now modelKey auth
               else if modelKey \<noteq> [] then
                 (if \<not> shouldSkipCredentialCooldown lib (res_Error result)
                  then mark_model_failure seconds disable result now modelKey auth else (auth, []))
               else (applyAuthFailureState lib seconds (res_Error result) (res_RetryAfter result) now
                       (disable \<and> \<not> is_force_cooldown (res_Error result)) auth, [])) of
           (a, actions) \<Rightarrow> (observe_result result headers now modelKey a, actions))"

end
