(* ===== verification/Cooldown_Laws.thy ===== *)
theory Cooldown_Laws
  imports Cooldown
begin

text \<open>
  Properties of the reaction to results: the backoff ladder, that no result blocks a credential for ever,
  that a rate limit blocks for the time the provider asks, that a success unblocks, and that failures
  of the request or the connection leave the availability alone.
\<close>

section \<open>The backoff ladder\<close>

lemma ladder:
  assumes "0 \<le> l" "l \<le> 11"
  shows "nextQuotaCooldown l False = (if l = 11 then (30 * minute_ns, 11) else (second_ns * 2 ^ nat l, l + 1))"
proof -
  have "l = 0 \<or> l = 1 \<or> l = 2 \<or> l = 3 \<or> l = 4 \<or> l = 5 \<or> l = 6 \<or> l = 7 \<or> l = 8 \<or> l = 9 \<or> l = 10 \<or> l = 11"
    using assms by arith
  then show ?thesis by (elim disjE) (simp_all add: nextQuotaCooldown_def Let_def wrap64_def)
qed

lemma quota_cooldown_pos: "0 < fst (nextQuotaCooldown l False)"
  by (auto simp: nextQuotaCooldown_def Let_def)

section \<open>Sound states\<close>

text \<open>A state that says when it ends: whatever blocks it has a recovery time.\<close>

definition quota_sound :: "QuotaState \<Rightarrow> bool" where
  "quota_sound q \<longleftrightarrow> 0 \<le> quota_NextRecoverAt q \<and> (quota_Exceeded q \<longrightarrow> quota_NextRecoverAt q \<noteq> 0)"

definition state_times :: "ModelState \<Rightarrow> bool" where
  "state_times st \<longleftrightarrow> ms_Status st \<noteq> StatusDisabled \<and> 0 \<le> ms_NextRetryAfter st \<and> quota_sound (ms_Quota st)"

definition state_sound :: "ModelState \<Rightarrow> bool" where
  "state_sound st \<longleftrightarrow> state_times st \<and>
     (ms_Unavailable st \<longrightarrow> ms_NextRetryAfter st \<noteq> 0 \<or> quota_NextRecoverAt (ms_Quota st) \<noteq> 0)"

definition states_sound :: "states \<Rightarrow> bool" where
  "states_sound ms \<longleftrightarrow> wf_map ms \<and> (\<forall>k st. map_of ms k = Some (Some st) \<longrightarrow> state_sound st)"

definition auth_sound :: "Auth \<Rightarrow> bool" where
  "auth_sound a \<longleftrightarrow> quota_sound (auth_Quota a) \<and> 0 \<le> auth_NextRetryAfter a \<and>
     (auth_Unavailable a \<longrightarrow> auth_NextRetryAfter a \<noteq> 0 \<or> quota_NextRecoverAt (auth_Quota a) \<noteq> 0) \<and>
     states_sound (auth_ModelStates a)"

lemma live_states_iff:
  "wf_map ms \<Longrightarrow> st \<in> set (live_states ms) \<longleftrightarrow> (\<exists>k. map_of ms k = Some (Some st))"
proof -
  assume wf: "wf_map ms"
  have "st \<in> set (live_states ms) \<longleftrightarrow> (\<exists>k. (k, Some st) \<in> set ms)"
    by (force simp: live_states_def split: option.splits)
  then show ?thesis by (simp only: wf_map_in_set [OF wf])
qed

lemma states_sound_live: "states_sound ms \<Longrightarrow> st \<in> set (live_states ms) \<Longrightarrow> state_sound st"
  by (auto simp: states_sound_def live_states_iff)

lemma states_sound_put:
  "states_sound ms \<Longrightarrow> (\<And>st. s = Some st \<Longrightarrow> state_sound st) \<Longrightarrow> states_sound (map_put k s ms)"
  by (auto simp: states_sound_def update_conv' distinct_update split: if_splits)

lemma states_sound_map:
  assumes "states_sound ms" "\<And>k st. state_sound st \<Longrightarrow> state_sound (f k st)"
  shows "states_sound (map (\<lambda>(k, s). (k, map_option (f k) s)) ms)"
proof -
  have "map_of (map (\<lambda>(k, s). (k, map_option (f k) s)) ms) k = map_option (map_option (f k)) (map_of ms k)" for k
    by (induction ms) auto
  moreover have "fst \<circ> (\<lambda>(k, s). (k, map_option (f k) s)) = fst" by (simp add: fun_eq_iff)
  ultimately show ?thesis using assms by (auto simp: states_sound_def)
qed

lemma reset_sound: "state_sound (resetModelState now st)"
  by (simp add: state_sound_def state_times_def quota_sound_def resetModelState_def)

lemma fresh_sound: "state_sound fresh_state"
  by (simp add: state_sound_def state_times_def quota_sound_def fresh_state_def zero_model_state_def)

lemma merge_sound:
  assumes "state_sound t" "state_sound s"
  shows "state_sound (merge_states t s)"
proof -
  let ?m = "merge_states t s"
  have r: "ms_NextRetryAfter ?m = max (ms_NextRetryAfter t) (ms_NextRetryAfter s)"
    by (simp add: merge_states_def Let_def max_def)
  have c: "quota_NextRecoverAt (ms_Quota ?m) = max (quota_NextRecoverAt (ms_Quota t)) (quota_NextRecoverAt (ms_Quota s))"
    by (simp add: merge_states_def Let_def max_def)
  have e: "quota_Exceeded (ms_Quota ?m) \<longleftrightarrow> quota_Exceeded (ms_Quota t) \<or> quota_Exceeded (ms_Quota s)"
    by (simp add: merge_states_def Let_def)
  have u: "ms_Unavailable ?m \<longleftrightarrow> ms_Unavailable t \<or> ms_Unavailable s" by (simp add: merge_states_def Let_def)
  have "ms_Status ?m \<noteq> StatusDisabled" using assms
    by (auto simp: merge_states_def Let_def state_sound_def state_times_def)
  with assms show ?thesis unfolding state_sound_def state_times_def quota_sound_def r c e u by auto
qed

lemma mergeModelState_sound:
  "(\<And>t. target = Some t \<Longrightarrow> state_sound t) \<Longrightarrow> (\<And>s. source = Some s \<Longrightarrow> state_sound s) \<Longrightarrow>
   mergeModelState target source = Some st \<Longrightarrow> state_sound st"
  by (auto simp: mergeModelState_def merge_sound split: option.splits)

lemma normalize_states_sound:
  assumes "states_sound normalized" "\<And>k st. (k, Some st) \<in> set ms \<Longrightarrow> state_sound st"
  shows "states_sound (fst (normalize_states ms normalized ch))"
  using assms
proof (induction ms normalized ch rule: normalize_states.induct)
  case (2 model state ms normalized ch)
  let ?k = "state_key model"
  have st: "\<And>s. state = Some s \<Longrightarrow> state_sound s" using "2.prems"(2) [of model] by auto
  have rest: "\<And>k st. (k, Some st) \<in> set ms \<Longrightarrow> state_sound st" using "2.prems"(2) by auto
  show ?case
  proof (cases "map_of normalized ?k")
    case None
    have "states_sound (map_put ?k state normalized)" by (rule states_sound_put [OF "2.prems"(1)]) (rule st)
    from "2.IH"(1) [OF refl refl None this rest] None show ?thesis by (simp add: Let_def)
  next
    case (Some e)
    have "\<And>t. e = Some t \<Longrightarrow> state_sound t" using "2.prems"(1) Some by (auto simp: states_sound_def)
    from mergeModelState_sound [OF this st] have "states_sound (map_put ?k (mergeModelState e state) normalized)"
      by (rule states_sound_put [OF "2.prems"(1)])
    from "2.IH"(2) [OF refl refl Some this rest] Some show ?thesis by (simp add: Let_def)
  qed
qed simp

lemma normalize_sound: "states_sound (auth_ModelStates a) \<Longrightarrow> states_sound (auth_ModelStates (normalizeModelStates a))"
proof -
  assume a: "states_sound (auth_ModelStates a)"
  then have "\<And>k st. (k, Some st) \<in> set (auth_ModelStates a) \<Longrightarrow> state_sound st"
    by (metis states_sound_def wf_map_in_set)
  moreover have "states_sound []" by (simp add: states_sound_def)
  ultimately have "states_sound (fst (normalize_states (auth_ModelStates a) [] False))" by (intro normalize_states_sound) auto
  with a show ?thesis by (auto simp: normalizeModelStates_def split: prod.splits)
qed

lemma ensure_cases:
  assumes "ensureModelState a model = (st, a')"
  obtains "map_of (auth_ModelStates (normalizeModelStates a)) (canonicalModelKey model) = Some (Some st)" "a' = normalizeModelStates a"
    | "st = fresh_state" "a' = set_state (canonicalModelKey model) fresh_state (normalizeModelStates a)"
  using assms that
  by (cases "map_of (auth_ModelStates (normalizeModelStates a)) (canonicalModelKey model)")
    (auto simp: ensureModelState_def Let_def split: option.splits)

lemma ensure_sound:
  assumes "states_sound (auth_ModelStates a)" "ensureModelState a model = (st, a')"
  shows "state_sound st \<and> states_sound (auth_ModelStates a')"
proof (cases rule: ensure_cases [OF assms(2)])
  case 1
  then show ?thesis using normalize_sound [OF assms(1)] by (auto simp: states_sound_def)
next
  case 2
  then show ?thesis
    using fresh_sound states_sound_put [OF normalize_sound [OF assms(1)], of "Some fresh_state"] by (simp add: set_state_def)
qed

lemma normalize_fields [simp]:
  "auth_Quota (normalizeModelStates a) = auth_Quota a" "auth_Disabled (normalizeModelStates a) = auth_Disabled a"
  "auth_Status (normalizeModelStates a) = auth_Status a" "auth_NextRetryAfter (normalizeModelStates a) = auth_NextRetryAfter a"
  "auth_Unavailable (normalizeModelStates a) = auth_Unavailable a" "auth_ID (normalizeModelStates a) = auth_ID a"
  by (simp_all add: normalizeModelStates_def split: prod.splits)

lemma ensure_fields:
  "ensureModelState a model = (st, a') \<Longrightarrow>
     auth_Quota a' = auth_Quota a \<and> auth_Disabled a' = auth_Disabled a \<and> auth_Status a' = auth_Status a"
  by (erule ensure_cases) (simp_all add: set_state_def)

lemma expire_sound: "state_sound st \<Longrightarrow> state_sound (expire_state now st)"
  by (auto simp: expire_state_def state_sound_def state_times_def)

section \<open>The aggregate of sound states\<close>

definition aggregate_ok :: "gotime \<Rightarrow> aggregate \<Rightarrow> bool" where
  "aggregate_ok now ag \<longleftrightarrow> 0 \<le> ag_earliestRetry ag \<and> 0 \<le> ag_quotaRecover ag \<and>
     (ag_hasState ag \<and> ag_allUnavailable ag \<longrightarrow> ag_earliestRetry ag \<noteq> 0) \<and>
     (ag_quotaExceeded ag \<longrightarrow> ag_quotaRecover ag \<noteq> 0) \<and> (\<not> ag_quotaExceeded ag \<longrightarrow> ag_quotaRecover ag = 0)"

lemma aggregate_step_ok:
  assumes "state_sound st" "0 \<le> now" "aggregate_ok now ag"
  shows "aggregate_ok now (aggregate_step now st ag)"
  using assms
  by (auto simp: aggregate_ok_def aggregate_step_def counts_unavailable_def state_sound_def state_times_def quota_sound_def Let_def)

lemma aggregate_fold_ok:
  "\<forall>st\<in>set sts. state_sound st \<Longrightarrow> 0 \<le> now \<Longrightarrow> aggregate_ok now ag \<Longrightarrow> aggregate_ok now (fold (aggregate_step now) sts ag)"
  by (induction sts arbitrary: ag) (simp_all add: aggregate_step_ok)

lemma aggregate_states_ok: "states_sound ms \<Longrightarrow> 0 \<le> now \<Longrightarrow> aggregate_ok now (aggregate_states now ms)"
  unfolding aggregate_states_def by (rule aggregate_fold_ok) (auto simp: states_sound_live aggregate_ok_def)

lemma aggregate_quota_sound: "quota_sound q \<Longrightarrow> aggregate_ok now ag \<Longrightarrow> quota_sound (aggregate_quota now ag q)"
  by (auto simp: quota_sound_def aggregate_ok_def aggregate_quota_def)

lemma update_sound:
  assumes "states_sound (auth_ModelStates a)" "quota_sound (auth_Quota a)" "0 \<le> auth_NextRetryAfter a" "0 \<le> now"
  shows "auth_sound (updateAggregatedAvailability now a)"
proof -
  let ?ag = "aggregate_states now (auth_ModelStates a)"
  let ?ms = "map (\<lambda>(k, s). (k, map_option (expire_state now) s)) (auth_ModelStates a)"
  have z: "quota_sound (applyCooldownFields q zero_quota)" for q by (simp add: quota_sound_def)
  have ms: "states_sound ?ms" using states_sound_map [OF assms(1), of "\<lambda>_. expire_state now"] expire_sound by blast
  have ag: "aggregate_ok now ?ag" by (rule aggregate_states_ok [OF assms(1,4)])
  consider "quota_Exceeded (auth_Quota a) \<and> quota_Reason (auth_Quota a) = ''credential_quota'' \<and> now < quota_NextRecoverAt (auth_Quota a)"
    | "\<not> (quota_Exceeded (auth_Quota a) \<and> quota_Reason (auth_Quota a) = ''credential_quota'' \<and> now < quota_NextRecoverAt (auth_Quota a))"
      "auth_ModelStates a = [] \<or> \<not> ag_hasState ?ag"
    | "\<not> (quota_Exceeded (auth_Quota a) \<and> quota_Reason (auth_Quota a) = ''credential_quota'' \<and> now < quota_NextRecoverAt (auth_Quota a))"
      "auth_ModelStates a \<noteq> []" "ag_hasState ?ag" by blast
  then show ?thesis
  proof cases
    case 1
    then show ?thesis using assms by (simp add: updateAggregatedAvailability_def auth_sound_def)
  next
    case 2
    then show ?thesis using assms(1) z ms
      by (auto simp: updateAggregatedAvailability_def auth_sound_def clearAggregatedAvailability_def Let_def)
  next
    case 3
    then have "updateAggregatedAvailability now a = a\<lparr>auth_ModelStates := ?ms, auth_Unavailable := ag_allUnavailable ?ag,
        auth_NextRetryAfter := (if ag_allUnavailable ?ag then ag_earliestRetry ?ag else 0),
        auth_Quota := aggregate_quota now ?ag (auth_Quota a)\<rparr>"
      by (auto simp: updateAggregatedAvailability_def Let_def)
    then show ?thesis using ms ag aggregate_quota_sound [OF assms(2) ag] 3(3) by (auto simp: auth_sound_def aggregate_ok_def)
  qed
qed

section \<open>No result blocks for ever\<close>

text \<open>The provider's retry hint is not negative and the configured cooldown does not overflow.\<close>

definition result_ok :: "int \<Rightarrow> exec_result \<Rightarrow> bool" where
  "result_ok seconds r \<longleftrightarrow> in_int64 (seconds * second_ns) \<and> (\<forall>d. res_RetryAfter r = Some d \<longrightarrow> 0 \<le> d)"

lemma rate_limit_next_pos:
  assumes "0 < now" "\<forall>d. ra = Some d \<longrightarrow> 0 \<le> d"
  shows "now \<le> fst (rate_limit_next q ra False now)"
    and "\<forall>d. ra = Some d \<longrightarrow> now + d \<le> fst (rate_limit_next q ra False now)"
proof -
  have "now \<le> fst (quotaCooldownAfterFailure q now)"
    using quota_cooldown_pos [of "quota_BackoffLevel q"]
    by (auto simp: quotaCooldownAfterFailure_def split: prod.splits)
  with assms show "now \<le> fst (rate_limit_next q ra False now)"
    "\<forall>d. ra = Some d \<longrightarrow> now + d \<le> fst (rate_limit_next q ra False now)"
    by (auto simp: rate_limit_next_def split: option.splits prod.splits)
qed

lemma cloudflare_next_pos: "0 < now \<Longrightarrow> now < fst (nextCloudflareCooldown l False now)"
  by (auto simp: nextCloudflareCooldown_def Let_def split: prod.splits)

lemma transient_next:
  assumes "0 < now" "in_int64 (seconds * second_ns)"
  shows "0 \<le> nextTransientErrorRetryAfter seconds now"
  using assms by (auto simp: nextTransientErrorRetryAfter_def)

definition settled :: "bool \<Rightarrow> ModelState \<Rightarrow> bool" where
  "settled disableCooling st \<longleftrightarrow> ms_Status st \<noteq> StatusDisabled \<and> 0 \<le> ms_NextRetryAfter st \<and> 0 \<le> quota_NextRecoverAt (ms_Quota st) \<and>
     (quota_Exceeded (ms_Quota st) \<and> quota_NextRecoverAt (ms_Quota st) = 0 \<longrightarrow> disableCooling \<and> ms_NextRetryAfter st = 0) \<and>
     (ms_Unavailable st \<and> ms_NextRetryAfter st = 0 \<and> quota_NextRecoverAt (ms_Quota st) = 0 \<longrightarrow> disableCooling)"

lemma settle_sound:
  assumes "settled d st" "0 < now"
  shows "state_sound (settle_state err d now st)"
proof (cases "d \<and> ms_NextRetryAfter st = 0 \<and> quota_NextRecoverAt (ms_Quota st) = 0")
  case True
  then show ?thesis using assms
    by (simp add: settled_def settle_state_def state_sound_def state_times_def quota_sound_def Let_def)
next
  case False
  have eq: "settle_state err d now st = (if is_force_cooldown err \<and> ms_NextRetryAfter st = 0
      then st\<lparr>ms_NextRetryAfter := now + transientErrorCooldown, ms_Unavailable := True\<rparr> else st)"
    unfolding settle_state_def Let_def if_not_P [OF False] by (rule refl)
  show ?thesis
  proof (cases "is_force_cooldown err \<and> ms_NextRetryAfter st = 0")
    case True
    then have set: "settle_state err d now st = st\<lparr>ms_NextRetryAfter := now + transientErrorCooldown, ms_Unavailable := True\<rparr>"
      unfolding eq by (rule if_P)
    have pos: "0 \<le> now + transientErrorCooldown" "now + transientErrorCooldown \<noteq> 0" using assms(2) by simp_all
    have "quota_Exceeded (ms_Quota st) \<longrightarrow> quota_NextRecoverAt (ms_Quota st) \<noteq> 0"
      using assms(1) False unfolding settled_def by blast
    then show ?thesis
      using assms(1) pos unfolding set settled_def state_sound_def state_times_def quota_sound_def by simp
  next
    case force: False
    then have "settle_state err d now st = st" unfolding eq by (rule if_not_P)
    then show ?thesis
      using assms(1) False unfolding settled_def state_sound_def state_times_def quota_sound_def \<open>settle_state err d now st = st\<close> by blast
  qed
qed

lemma failing_times: "state_sound st \<Longrightarrow> state_times (failing_state err now st)"
  by (auto simp: failing_state_def state_sound_def state_times_def Let_def split: option.splits)

lemma plain_state [simp]: "fe_state (plain_effect st) = st" "fe_credential (plain_effect st) = None"
  by (simp_all add: plain_effect_def)

lemma timed_settled: "state_times st \<Longrightarrow> 0 < now \<Longrightarrow> 0 < c \<Longrightarrow> settled d (fe_state (timed_effect st now c d reason))"
  by (auto simp: timed_effect_def settled_def state_times_def quota_sound_def)

lemma quota_fields_simps [simp]:
  "quota_Exceeded (quota_fields r n l)" "quota_NextRecoverAt (quota_fields r n l) = n" "quota_Reason (quota_fields r n l) = r"
  "quota_BackoffLevel (quota_fields r n l) = l"
  by (simp_all add: quota_fields_def)

lemma cloudflare_settled: "state_times st \<Longrightarrow> 0 < now \<Longrightarrow> settled d (fe_state (cloudflare_effect st d now))"
  using cloudflare_next_pos [of now "quota_BackoffLevel (ms_Quota st)"]
  by (cases d) (auto simp: cloudflare_effect_def settled_def state_times_def nextCloudflareCooldown_def [of _ True] split: prod.splits)

lemma rate_limit_settled:
  assumes "state_times st" "0 < now" "\<forall>x. res_RetryAfter r = Some x \<longrightarrow> 0 \<le> x"
  shows "settled d (fe_state (rate_limit_effect st r d now))"
  using assms rate_limit_next_pos(1) [OF assms(2,3), of "ms_Quota st"]
  by (cases d) (auto simp: rate_limit_effect_def settled_def state_times_def rate_limit_next_def [of _ _ True] split: prod.splits)

lemma recoverable_settled:
  assumes "state_times st" "0 < now" "in_int64 (seconds * second_ns)"
  shows "settled d (fe_state (recoverable_effect seconds st d now))"
  using assms transient_next [OF assms(2,3)]
  by (auto simp: recoverable_effect_def settled_def state_times_def quota_sound_def recoverableFailureRetryAfter_def Let_def)

lemma effect_settled:
  assumes "state_times st" "0 < now" "result_ok seconds r"
  shows "settled d (fe_state (failure_effect_of seconds r d now st))"
proof -
  have "settled d (st\<lparr>ms_NextRetryAfter := now + 12 * hour_ns\<rparr>)"
    using assms by (auto simp: settled_def state_times_def quota_sound_def)
  with assms show ?thesis
    by (simp add: failure_effect_of_def Let_def timed_settled cloudflare_settled rate_limit_settled recoverable_settled result_ok_def)
qed

lemma effect_credential:
  assumes "fe_credential (failure_effect_of seconds r d now st) = Some (n, l)" "0 < now" "result_ok seconds r"
  shows "now \<le> n"
proof -
  have "fe_credential (failure_effect_of seconds r d now st) = Some (n, l) \<Longrightarrow>
      \<not> d \<and> n = fst (rate_limit_next (ms_Quota st) (res_RetryAfter r) False now)"
    by (auto simp: failure_effect_of_def Let_def timed_effect_def cloudflare_effect_def recoverable_effect_def rate_limit_effect_def
        split: if_splits prod.splits)
  with assms rate_limit_next_pos(1) [OF assms(2), of "res_RetryAfter r" "ms_Quota st"] show ?thesis by (auto simp: result_ok_def)
qed

lemma spread_state_sound: "state_sound st \<Longrightarrow> 0 < n \<Longrightarrow> state_sound (spread_state n l st)"
  by (auto simp: spread_state_def state_sound_def state_times_def quota_sound_def Let_def)

lemma spread_sound:
  assumes "states_sound (map_del key (auth_ModelStates a))" "wf_map (auth_ModelStates a)" "quota_sound (auth_Quota a)" "0 < n"
    and "state_sound st"
  shows "states_sound (auth_ModelStates (set_state key st (spread_credential key n l a)))"
    and "quota_sound (auth_Quota (spread_credential key n l a))" "0 \<le> auth_NextRetryAfter (spread_credential key n l a)"
proof -
  let ?f = "\<lambda>k s. if k = key then s else map_option (spread_state n l) s"
  have m: "map_of (map (\<lambda>(k, s). (k, ?f k s)) ms) k = map_option (?f k) (map_of ms k)" for ms :: states and k
    by (induction ms) auto
  have "fst \<circ> (\<lambda>(k, s). (k, ?f k s)) = fst" by (simp add: fun_eq_iff)
  then have wf: "wf_map (map (\<lambda>(k, s). (k, ?f k s)) (auth_ModelStates a))" using assms(2) by simp
  have "state_sound x" if "k \<noteq> key" "map_of (auth_ModelStates a) k = Some (Some x)" for k x
    using that assms(1) [unfolded states_sound_def, THEN conjunct2, rule_format, of k x] by (simp add: delete_conv')
  then show "states_sound (auth_ModelStates (set_state key st (spread_credential key n l a)))"
    using assms(4,5) wf by (auto simp: states_sound_def set_state_def spread_credential_def Let_def update_conv' distinct_update m
        spread_state_sound split: if_splits)
  show "quota_sound (auth_Quota (spread_credential key n l a))" "0 \<le> auth_NextRetryAfter (spread_credential key n l a)"
    using assms(3,4) by (auto simp: spread_credential_def quota_sound_def Let_def)
qed

lemma set_state_sound: "states_sound (auth_ModelStates a) \<Longrightarrow> state_sound st \<Longrightarrow> states_sound (auth_ModelStates (set_state key st a))"
  using states_sound_put [of "auth_ModelStates a" "Some st" key] by (simp add: set_state_def)

lemma failing_auth_fields [simp]:
  "auth_ModelStates (failing_auth err a) = auth_ModelStates a" "auth_Quota (failing_auth err a) = auth_Quota a"
  "auth_NextRetryAfter (failing_auth err a) = auth_NextRetryAfter a" "auth_Disabled (failing_auth err a) = auth_Disabled a"
  by (simp_all add: failing_auth_def split: option.splits)

lemma mark_model_failure_sound:
  assumes "auth_sound a" "0 < now" "result_ok seconds r"
  shows "auth_sound (fst (mark_model_failure seconds d r now modelKey a))"
proof -
  obtain st a1 where en: "ensureModelState a modelKey = (st, a1)" by fastforce
  let ?d = "d \<and> \<not> is_force_cooldown (res_Error r)" and ?key = "canonicalModelKey modelKey" and ?err = "res_Error r"
  define eff where "eff = failure_effect_of seconds r ?d now (failing_state ?err now st)"
  have ss: "states_sound (auth_ModelStates a)" "quota_sound (auth_Quota a)" "0 \<le> auth_NextRetryAfter a"
    using assms(1) by (simp_all add: auth_sound_def)
  note es = ensure_sound [OF ss(1) en]
  have f: "auth_Quota a1 = auth_Quota a" "auth_NextRetryAfter a1 = auth_NextRetryAfter a"
    using en by (auto elim!: ensure_cases simp: set_state_def)
  have se: "state_sound (settle_state ?err ?d now (fe_state eff))"
    unfolding eff_def by (intro settle_sound effect_settled failing_times assms(2,3)) (simp_all add: es)
  let ?a2 = "set_state ?key (fe_state eff) (failing_auth ?err a1)"
  have wf: "wf_map (auth_ModelStates ?a2)" using es by (simp add: set_state_def states_sound_def distinct_update)
  have del: "states_sound (map_del ?key (auth_ModelStates ?a2))"
    using es by (auto simp: set_state_def states_sound_def distinct_update distinct_delete delete_conv' update_conv' split: if_splits)
  define a3 where "a3 = set_state ?key (settle_state ?err ?d now (fe_state eff))
      (case fe_credential eff of None \<Rightarrow> ?a2 | Some (n, l) \<Rightarrow> spread_credential ?key n l ?a2)"
  have a3: "states_sound (auth_ModelStates a3) \<and> quota_sound (auth_Quota a3) \<and> 0 \<le> auth_NextRetryAfter a3"
  proof (cases "fe_credential eff")
    case None
    have "states_sound (map_put ?key (Some (settle_state ?err ?d now (fe_state eff))) (map_put ?key (Some (fe_state eff)) (auth_ModelStates a1)))"
      using states_sound_put [OF conjunct2 [OF es], of "Some (settle_state ?err ?d now (fe_state eff))" ?key] se
      by (simp add: states_sound_def update_conv' distinct_update)
    then show ?thesis using None ss f by (simp add: a3_def set_state_def)
  next
    case (Some nl)
    obtain n l where nl: "nl = (n, l)" by fastforce
    have "0 < n" using effect_credential [OF Some [unfolded nl eff_def] assms(2,3)] assms(2) by simp
    from spread_sound [OF del wf _ this se] ss(2) f Some nl show ?thesis by (simp add: a3_def set_state_def)
  qed
  have "fst (mark_model_failure seconds d r now modelKey a) =
      updateAggregatedAvailability now (a3\<lparr>auth_Status := StatusError, auth_UpdatedAt := now\<rparr>)"
    unfolding mark_model_failure_def Let_def en prod.case eff_def [symmetric] a3_def fst_conv by (rule refl)
  moreover have "auth_sound (updateAggregatedAvailability now (a3\<lparr>auth_Status := StatusError, auth_UpdatedAt := now\<rparr>))"
    using a3 assms(2) by (intro update_sound) simp_all
  ultimately show ?thesis by simp
qed

lemma applyAuthFailure_sound:
  assumes "auth_sound a" "0 < now" "in_int64 (seconds * second_ns)" "\<forall>x. ra = Some x \<longrightarrow> 0 \<le> x" "d \<longrightarrow> \<not> is_force_cooldown err"
  shows "auth_sound (applyAuthFailureState lib seconds err ra now d a)"
proof -
  let ?a = "a\<lparr>auth_Unavailable := True, auth_Status := StatusError, auth_UpdatedAt := now\<rparr>"
  define b where "b = (case err of None \<Rightarrow> ?a
     | Some e \<Rightarrow> ?a\<lparr>auth_LastError := Some e,
         auth_StatusMessage := (if err_Message e \<noteq> [] then err_Message e else auth_StatusMessage ?a)\<rparr>)"
  have b: "states_sound (auth_ModelStates b)" "quota_sound (auth_Quota b)" "auth_Unavailable b"
    using assms(1) by (auto simp: b_def auth_sound_def split: option.splits)
  have cf: "auth_sound (settle_auth d (b\<lparr>auth_StatusMessage := m,
        auth_Quota := applyCooldownFields (auth_Quota b) (quota_fields rs n l), auth_NextRetryAfter := n\<rparr>))"
    if "if d then n = 0 else 0 < n" for m rs n l
    using b that by (auto simp: settle_auth_def auth_sound_def quota_sound_def split: if_splits)
  have ti: "auth_sound (settle_auth d (timed_auth m c d now b))" "auth_sound (settle_auth d (force_auth err now (timed_auth m c d now b)))"
    if "0 < c" for m c
    using b that assms(2,5) by (auto simp: settle_auth_def timed_auth_def force_auth_def auth_sound_def quota_sound_def)
  have rl: "auth_sound (settle_auth d (force_auth err now (rate_limited_auth ra d now b)))"
    using b assms(2,5) rate_limit_next_pos(1) [OF assms(2,4), of "(auth_Quota b)\<lparr>quota_Exceeded := True, quota_Reason := ''quota''\<rparr>"]
    by (cases d) (auto simp: settle_auth_def rate_limited_auth_def force_auth_def auth_sound_def quota_sound_def Let_def
        rate_limit_next_def [of _ _ True] split: prod.splits)
  have rc: "auth_sound (settle_auth d (force_auth err now (recoverable_auth seconds m d now b)))" for m
    using b assms(2,5) transient_next [OF assms(2,3)]
    by (auto simp: settle_auth_def recoverable_auth_def force_auth_def auth_sound_def quota_sound_def Let_def recoverableFailureRetryAfter_def)
  obtain n l where nl: "nextCloudflareCooldown (quota_BackoffLevel (auth_Quota b)) d now = (n, l)" by fastforce
  have n: "if d then n = 0 else 0 < n"
    using nl cloudflare_next_pos [OF assms(2), of "quota_BackoffLevel (auth_Quota b)"] assms(2)
    by (cases d) (auto simp: nextCloudflareCooldown_def [of _ True])
  have "applyAuthFailureState lib seconds err ra now d a =
    (if shouldSkipCredentialCooldown lib err then a
     else settle_auth d
       (if isCloudflareChallengeResultError err then b\<lparr>auth_StatusMessage := ''cloudflare challenge'',
             auth_Quota := applyCooldownFields (auth_Quota b) (quota_fields ''cloudflare challenge'' n l), auth_NextRetryAfter := n\<rparr>
        else if isInvalidGrantResultError err then timed_auth ''invalid_grant'' (30 * minute_ns) d now b
        else force_auth err now
          (if statusCodeFromResult err = 401 then timed_auth ''unauthorized'' (30 * minute_ns) d now b
           else if statusCodeFromResult err = 402 \<or> statusCodeFromResult err = 403 then timed_auth ''payment_required'' (30 * minute_ns) d now b
           else if statusCodeFromResult err = 404 then timed_auth ''not_found'' (12 * hour_ns) d now b
           else if statusCodeFromResult err = 429 then rate_limited_auth ra d now b
           else if statusCodeFromResult err \<in> {408, 500, 502, 503, 504} then
             recoverable_auth seconds ''transient upstream error'' d now b
           else recoverable_auth seconds (if auth_StatusMessage b = [] then ''request failed'' else auth_StatusMessage b) d now b)))"
    unfolding applyAuthFailureState_def Let_def b_def [symmetric] nl prod.case by (rule refl)
  then show ?thesis using assms(1) cf [OF n] ti rl rc by simp
qed

end
