(* ===== verification/Result_Marks.thy ===== *)
theory Result_Marks
  imports Cooldown_Laws
begin

text \<open>
  What a result does to the selection of its credential: the theorems on \<open>MarkResult\<close> of
  \<open>sdk/cliproxy/auth/conductor_cooldown.go\<close>, stated with the blocking test that the selectors and the
  scheduler use.
\<close>

section \<open>Example values\<close>

text \<open>The values of the closed instances below.\<close>

definition no_json :: json_lib where
  "no_json = \<lparr>jl_valid = \<lambda>_. False, jl_str = \<lambda>_ _. []\<rparr>"

definition failed_result :: "int \<Rightarrow> string \<Rightarrow> duration option \<Rightarrow> exec_result" where
  "failed_result status message retryAfter =
     \<lparr>res_AuthID = ''a'', res_Provider = ''claude'', res_Model = ''m'', res_Success = False, res_RetryAfter = retryAfter,
      res_CredentialScope = False,
      res_Error = Some \<lparr>err_Code = [], err_Message = message, err_Retryable = False, err_HTTPStatus = status\<rparr>,
      res_SkipQuotaObservation = False\<rparr>"

definition good_result :: exec_result where
  "good_result = (failed_result 0 [] None)\<lparr>res_Success := True, res_Error := None\<rparr>"

section \<open>The parts of a result that do not block\<close>

lemma count_fields [simp]:
  "auth_ModelStates (count_result now s a) = auth_ModelStates a" "auth_Quota (count_result now s a) = auth_Quota a"
  "auth_NextRetryAfter (count_result now s a) = auth_NextRetryAfter a" "auth_Disabled (count_result now s a) = auth_Disabled a"
  "auth_Unavailable (count_result now s a) = auth_Unavailable a" "auth_Status (count_result now s a) = auth_Status a"
  "auth_ID (count_result now s a) = auth_ID a"
  by (simp_all add: count_result_def recordRecentRequest_def Let_def)

lemma observe_fields [simp]:
  "auth_NextRetryAfter (observe_result r h now k a) = auth_NextRetryAfter a"
  "auth_Disabled (observe_result r h now k a) = auth_Disabled a" "auth_Unavailable (observe_result r h now k a) = auth_Unavailable a"
  "auth_Status (observe_result r h now k a) = auth_Status a" "auth_ID (observe_result r h now k a) = auth_ID a"
  "quota_Exceeded (auth_Quota (observe_result r h now k a)) = quota_Exceeded (auth_Quota a)"
  "quota_Reason (auth_Quota (observe_result r h now k a)) = quota_Reason (auth_Quota a)"
  "quota_NextRecoverAt (auth_Quota (observe_result r h now k a)) = quota_NextRecoverAt (auth_Quota a)"
  "quota_BackoffLevel (auth_Quota (observe_result r h now k a)) = quota_BackoffLevel (auth_Quota a)"
  by (simp_all add: observe_result_def set_state_def Let_def split: option.splits)

text \<open>The observation replaces at most one state, by one that differs in its observed signals only.\<close>

definition same_block :: "ModelState \<Rightarrow> ModelState \<Rightarrow> bool" where
  "same_block st st' \<longleftrightarrow> ms_Status st' = ms_Status st \<and> ms_Unavailable st' = ms_Unavailable st \<and>
     ms_NextRetryAfter st' = ms_NextRetryAfter st \<and> quota_Exceeded (ms_Quota st') = quota_Exceeded (ms_Quota st) \<and>
     quota_NextRecoverAt (ms_Quota st') = quota_NextRecoverAt (ms_Quota st)"

lemma same_block_laws:
  assumes "same_block st st'"
  shows "state_forever st' = state_forever st" "state_until st' = state_until st" "state_sound st' = state_sound st"
  using assms by (simp_all add: same_block_def state_forever_def state_until_def state_sound_def state_times_def quota_sound_def)

lemma observe_states:
  "auth_ModelStates (observe_result r h now k a) = auth_ModelStates a \<or>
   (\<exists>key st st'. map_of (auth_ModelStates a) key = Some (Some st) \<and> same_block st st' \<and>
      auth_ModelStates (observe_result r h now k a) = map_put key (Some st') (auth_ModelStates a))"
proof (cases "res_SkipQuotaObservation r \<or> existingModelState a k = None")
  case True
  then show ?thesis
    by (intro disjI1) (auto simp: observe_result_def existingModelState_def Let_def split: option.splits if_splits)
next
  case False
  then obtain st where st: "existingModelState a k = Some st" by auto
  let ?st = "st\<lparr>ms_Quota := ObserveResponseHeadersForProvider (res_Provider r) h now (ms_Quota st)\<rparr>"
  have "map_of (auth_ModelStates a) (canonicalModelKey k) = Some (Some st)"
    using st by (auto simp: existingModelState_def Let_def split: if_splits option.splits)
  moreover have "same_block st ?st" by (simp add: same_block_def)
  moreover have "existingModelState (a\<lparr>auth_Quota := q\<rparr>) k = Some st" for q
    using st by (auto simp: existingModelState_def Let_def split: if_splits)
  then have "auth_ModelStates (observe_result r h now k a) = map_put (canonicalModelKey k) (Some ?st) (auth_ModelStates a)"
    using False by (simp add: observe_result_def set_state_def Let_def)
  ultimately show ?thesis by blast
qed

lemma put_same_block:
  assumes "map_of ms key = Some (Some st)" "same_block st st'"
  shows "map state_until (matching_states c (map_put key (Some st') ms)) = map state_until (matching_states c ms)"
    and "list_ex state_forever (matching_states c (map_put key (Some st') ms)) = list_ex state_forever (matching_states c ms)"
    and "map_put key (Some st') ms \<noteq> [] \<longleftrightarrow> ms \<noteq> []"
proof -
  note b = same_block_laws [OF assms(2)]
  show "map state_until (matching_states c (map_put key (Some st') ms)) = map state_until (matching_states c ms)"
    using assms(1) by (induction ms) (auto simp: b matching_states_def split: if_splits)
  show "list_ex state_forever (matching_states c (map_put key (Some st') ms)) = list_ex state_forever (matching_states c ms)"
    using assms(1) by (induction ms) (auto simp: b matching_states_def split: if_splits)
  show "map_put key (Some st') ms \<noteq> [] \<longleftrightarrow> ms \<noteq> []" using assms(1) by (cases ms) auto
qed

lemma observe_blocks:
  "blocked_forever (observe_result r h now k a) model = blocked_forever a model"
  "model_until (observe_result r h now k a) model = model_until a model"
  "credential_until (observe_result r h now k a) = credential_until a"
proof -
  let ?a = "observe_result r h now k a" and ?ms = "auth_ModelStates (observe_result r h now k a)"
  consider "?ms = auth_ModelStates a"
    | key st st' where "map_of (auth_ModelStates a) key = Some (Some st)" "same_block st st'"
        "?ms = map_put key (Some st') (auth_ModelStates a)"
    using observe_states [of r h now k a] by (elim disjE exE conjE) simp_all
  then have m: "map state_until (matching_states c ?ms) = map state_until (matching_states c (auth_ModelStates a)) \<and>
    list_ex state_forever (matching_states c ?ms) = list_ex state_forever (matching_states c (auth_ModelStates a)) \<and>
    (?ms \<noteq> [] \<longleftrightarrow> auth_ModelStates a \<noteq> [])" for c
  proof cases
    case 1
    then show ?thesis by (simp only: simp_thms)
  next
    case 2
    from put_same_block [OF 2(1,2)] show ?thesis unfolding 2(3) by (simp only: simp_thms)
  qed
  show "blocked_forever ?a model = blocked_forever a model" "model_until ?a model = model_until a model"
    using m by (simp_all add: blocked_forever_def model_until_def uses_model_states_def del: list_ex_iff)
  show "credential_until ?a = credential_until a" by (simp add: credential_until_def)
qed

lemma observe_sound:
  assumes "auth_sound a"
  shows "auth_sound (observe_result r h now k a)"
proof -
  have "states_sound (auth_ModelStates (observe_result r h now k a))"
    using observe_states [of r h now k a]
  proof (elim disjE exE conjE)
    fix key st st'
    assume h: "map_of (auth_ModelStates a) key = Some (Some st)" "same_block st st'"
      and eq: "auth_ModelStates (observe_result r h now k a) = map_put key (Some st') (auth_ModelStates a)"
    have ss: "states_sound (auth_ModelStates a)" using assms by (simp add: auth_sound_def)
    then have "state_sound st'" using h same_block_laws(3) [OF h(2)] by (auto simp: states_sound_def)
    then show ?thesis unfolding eq by (intro states_sound_put [OF ss]) simp
  qed (use assms in \<open>simp add: auth_sound_def\<close>)
  with assms show ?thesis by (simp add: auth_sound_def quota_sound_def)
qed

section \<open>Results keep credentials sound\<close>

lemma settle_status_fields [simp]:
  "auth_ModelStates (settle_status now a) = auth_ModelStates a" "auth_Quota (settle_status now a) = auth_Quota a"
  "auth_NextRetryAfter (settle_status now a) = auth_NextRetryAfter a" "auth_Disabled (settle_status now a) = auth_Disabled a"
  "auth_Unavailable (settle_status now a) = auth_Unavailable a"
  by (simp_all add: settle_status_def)

lemma mark_success_sound:
  assumes "auth_sound a" "0 < now"
  shows "auth_sound (fst (mark_success now k a))"
proof -
  obtain st a1 where en: "ensureModelState a k = (st, a1)" by fastforce
  have ss: "states_sound (auth_ModelStates a)" "quota_sound (auth_Quota a)" "0 \<le> auth_NextRetryAfter a"
    using assms(1) by (simp_all add: auth_sound_def)
  have f: "auth_Quota a1 = auth_Quota a" "auth_NextRetryAfter a1 = auth_NextRetryAfter a"
    using en by (auto elim!: ensure_cases simp: set_state_def)
  have "auth_sound (updateAggregatedAvailability now (set_state (canonicalModelKey k) (resetModelState now st) a1))"
    using set_state_sound [OF conjunct2 [OF ensure_sound [OF ss(1) en]] reset_sound] ss f assms(2)
    by (intro update_sound) (simp_all add: set_state_def)
  moreover have "auth_sound (clearAuthStateOnSuccess now a)"
    using ss(1) by (simp add: auth_sound_def clearAuthStateOnSuccess_def quota_sound_def)
  moreover have "auth_sound ((settle_status now b)\<lparr>auth_UpdatedAt := t\<rparr>) = auth_sound b" for b t by (simp add: auth_sound_def)
  ultimately show ?thesis using assms(1) by (simp add: mark_success_def en Let_def)
qed

text \<open>The update of the credential before the headers are observed.\<close>

definition mark_core :: "json_lib \<Rightarrow> int \<Rightarrow> bool \<Rightarrow> exec_result \<Rightarrow> gotime \<Rightarrow> Auth \<Rightarrow> Auth" where
  "mark_core lib seconds disable r now a =
     (let k = canonicalModelKey (res_Model r); a = count_result now (res_Success r) a
      in if res_Success r then fst (mark_success now k a)
         else if k = [] then applyAuthFailureState lib seconds (res_Error r) (res_RetryAfter r) now
             (disable \<and> \<not> is_force_cooldown (res_Error r)) a
         else if shouldSkipCredentialCooldown lib (res_Error r) then a
         else fst (mark_model_failure seconds disable r now k a))"

lemma mark_auth_core:
  "fst (mark_auth lib seconds disable h r now a) =
   observe_result r h now (canonicalModelKey (res_Model r)) (mark_core lib seconds disable r now a)"
  by (simp add: mark_auth_def mark_core_def Let_def split: prod.split)

lemma mark_auth_sound:
  assumes "auth_sound a" "0 < now" "result_ok seconds r"
  shows "auth_sound (fst (mark_auth lib seconds disable h r now a))"
proof -
  let ?c = "count_result now (res_Success r) a"
  have c: "auth_sound ?c" using assms(1) by (simp add: auth_sound_def)
  have f: "auth_sound (applyAuthFailureState lib seconds (res_Error r) (res_RetryAfter r) now
      (disable \<and> \<not> is_force_cooldown (res_Error r)) ?c)"
    using assms(2,3) by (intro applyAuthFailure_sound c) (auto simp: result_ok_def)
  have "auth_sound (mark_core lib seconds disable r now a)"
    unfolding mark_core_def Let_def
    using c f mark_success_sound [OF c assms(2)] mark_model_failure_sound [OF c assms(2,3)]
    by (simp only: split: if_split) simp
  then show ?thesis unfolding mark_auth_core by (rule observe_sound)
qed

section \<open>The credential stays enabled\<close>

definition enabled :: "Auth \<Rightarrow> bool" where
  "enabled a \<longleftrightarrow> \<not> auth_Disabled a \<and> auth_Status a \<noteq> StatusDisabled"

lemma update_fields [simp]:
  "auth_Disabled (updateAggregatedAvailability now a) = auth_Disabled a"
  "auth_Status (updateAggregatedAvailability now a) = auth_Status a"
  by (simp_all add: updateAggregatedAvailability_def clearAggregatedAvailability_def Let_def)

lemma set_state_fields [simp]:
  "auth_Disabled (set_state k st a) = auth_Disabled a" "auth_Status (set_state k st a) = auth_Status a"
  "auth_Quota (set_state k st a) = auth_Quota a" "auth_Unavailable (set_state k st a) = auth_Unavailable a"
  "auth_NextRetryAfter (set_state k st a) = auth_NextRetryAfter a"
  by (simp_all add: set_state_def)

lemma spread_fields [simp]: "auth_Disabled (spread_credential k n l a) = auth_Disabled a"
  by (simp add: spread_credential_def Let_def)

lemma mark_success_enabled: "enabled a \<Longrightarrow> enabled (fst (mark_success now k a))"
proof -
  assume a: "enabled a"
  obtain st a1 where en: "ensureModelState a k = (st, a1)" by fastforce
  note f = ensure_fields [OF en]
  have "enabled (settle_status now b) = enabled b" if "auth_Status b \<noteq> StatusDisabled" for b
    using that by (simp add: settle_status_def enabled_def)
  then show ?thesis using a f
    by (simp add: mark_success_def en Let_def enabled_def settle_status_def clearAuthStateOnSuccess_def)
qed

lemma mark_failure_enabled: "enabled a \<Longrightarrow> enabled (fst (mark_model_failure seconds d r now k a))"
proof -
  assume a: "enabled a"
  obtain st a1 where en: "ensureModelState a k = (st, a1)" by fastforce
  note f = ensure_fields [OF en]
  show ?thesis using a f by (simp add: mark_model_failure_def en Let_def enabled_def split: option.split prod.split)
qed

lemma enabled_parts [simp]:
  "enabled (settle_auth d a) = enabled a" "enabled (timed_auth m c d now a) = enabled a"
  "enabled (force_auth e now a) = enabled a" "enabled (recoverable_auth seconds m d now a) = enabled a"
  by (simp_all add: settle_auth_def timed_auth_def force_auth_def recoverable_auth_def enabled_def Let_def)

lemma enabled_rate_limited [simp]: "enabled (rate_limited_auth ra d now a) = enabled a"
  by (simp add: rate_limited_auth_def enabled_def Let_def split: prod.split)

lemma apply_failure_enabled:
  assumes "enabled a"
  shows "enabled (applyAuthFailureState lib seconds err ra now d a)"
proof -
  let ?a = "a\<lparr>auth_Unavailable := True, auth_Status := StatusError, auth_UpdatedAt := now\<rparr>"
  define b where "b = (case err of None \<Rightarrow> ?a
     | Some e \<Rightarrow> ?a\<lparr>auth_LastError := Some e,
         auth_StatusMessage := (if err_Message e \<noteq> [] then err_Message e else auth_StatusMessage ?a)\<rparr>)"
  have b: "enabled b" using assms by (cases err) (simp_all add: b_def enabled_def)
  have q: "enabled (b\<lparr>auth_StatusMessage := m, auth_Quota := q, auth_NextRetryAfter := n\<rparr>)" for m q n
    using b by (simp add: enabled_def)
  show ?thesis
    unfolding applyAuthFailureState_def Let_def b_def [symmetric] using assms b q
    by (simp only: split: if_split prod.split) simp
qed

lemma mark_auth_enabled: "enabled a \<Longrightarrow> enabled (fst (mark_auth lib seconds disable h r now a))"
proof -
  assume "enabled a"
  then have c: "enabled (count_result now (res_Success r) a)" by (simp add: enabled_def)
  have "enabled (mark_core lib seconds disable r now a)"
    unfolding mark_core_def Let_def
    using c mark_success_enabled [OF c] mark_failure_enabled [OF c] apply_failure_enabled [OF c]
    by (simp only: split: if_split) simp
  then show ?thesis unfolding mark_auth_core by (simp add: enabled_def)
qed

lemma sound_not_forever:
  assumes "auth_sound a" "enabled a"
  shows "\<not> blocked_forever a model"
proof -
  have "\<not> state_forever st" if m: "st \<in> set (matching_states c (auth_ModelStates a))" for st c
  proof -
    obtain k where "(k, Some st) \<in> set (auth_ModelStates a)" using m by (auto simp: set_matching_states)
    then have "state_sound st" using assms(1) by (metis auth_sound_def states_sound_def wf_map_in_set)
    then show ?thesis by (auto simp: state_sound_def state_times_def quota_sound_def state_forever_def flags_forever_def)
  qed
  with assms show ?thesis
    by (auto simp: blocked_forever_def enabled_def auth_sound_def quota_sound_def flags_forever_def list_ex_iff)
qed

section \<open>Sequences of results\<close>

text \<open>An event is a result with the time, the response headers and the cooling switch at its arrival.\<close>

type_synonym result_event = "exec_result \<times> header \<times> bool \<times> gotime"

definition mark_event :: "json_lib \<Rightarrow> int \<Rightarrow> result_event \<Rightarrow> Auth \<Rightarrow> Auth" where
  "mark_event lib seconds e a = (case e of (r, h, disable, now) \<Rightarrow> fst (mark_auth lib seconds disable h r now a))"

definition event_ok :: "int \<Rightarrow> result_event \<Rightarrow> bool" where
  "event_ok seconds e \<longleftrightarrow> (case e of (r, h, disable, now) \<Rightarrow> 0 < now \<and> result_ok seconds r)"

lemma events_sound:
  assumes "auth_sound a" "enabled a" "\<forall>e\<in>set es. event_ok seconds e"
  shows "auth_sound (fold (mark_event lib seconds) es a) \<and> enabled (fold (mark_event lib seconds) es a)"
  using assms
proof (induction es arbitrary: a)
  case (Cons e es)
  obtain r h d now where e: "e = (r, h, d, now)" by (cases e) auto
  have ok: "0 < now" "result_ok seconds r" using Cons.prems(3) by (auto simp: e event_ok_def)
  have "auth_sound (mark_event lib seconds e a)" "enabled (mark_event lib seconds e a)"
    using mark_auth_sound [OF Cons.prems(1) ok] mark_auth_enabled [OF Cons.prems(2)] by (simp_all add: mark_event_def e)
  from Cons.IH [OF this] Cons.prems(3) show ?case by simp
qed simp

lemma new_auth_sound: "auth_sound (new_auth i p)"
  by (simp add: auth_sound_def new_auth_def quota_sound_def zero_quota_def states_sound_def)

text \<open>C12. No sequence of results, successes and failures of any kind with provider hints that are not
  negative, can take an enabled credential out of service for good: afterwards every model is
  selectable again from the reported end of the block on, at every later time.\<close>

theorem no_result_blocks_forever:
  assumes "auth_sound a" "enabled a" "\<forall>e\<in>set es. event_ok seconds e"
    and "0 \<le> t" "blocked_until (fold (mark_event lib seconds) es a) model \<le> t"
  shows "\<not> fst (isAuthBlockedForModel (Some (fold (mark_event lib seconds) es a)) model t)"
  using isAuthBlocked_cases(1) [OF assms(4)] sound_not_forever events_sound [OF assms(1-3)] assms(5) by (metis not_less)

lemma blocked_until_nonneg: "0 \<le> blocked_until a model"
  by (simp add: blocked_until_def credential_until_def le_max_iff_disj)

theorem no_result_blocks_forever_witness:
  "(let a = fold (mark_event no_json 0)
        [(failed_result 429 ''slow down'' None, [], False, 10), (failed_result 401 ''no'' None, [], False, 20)]
        (new_auth ''a'' ''claude'')
    in \<not> fst (isAuthBlockedForModel (Some a) ''m'' (blocked_until a ''m'')))"
  unfolding Let_def
proof (rule no_result_blocks_forever)
  show "auth_sound (new_auth ''a'' ''claude'')" by (rule new_auth_sound)
  show "enabled (new_auth ''a'' ''claude'')" by (simp add: enabled_def new_auth_def)
  show "\<forall>e\<in>set [(failed_result 429 ''slow down'' None, [], False, 10), (failed_result 401 ''no'' None, [], False, 20)]. event_ok 0 e"
    by (simp add: event_ok_def result_ok_def failed_result_def in_int64_def)
qed (simp_all add: blocked_until_nonneg)

section \<open>Rate limits\<close>

lemma foldr_max_member: "x \<in> set xs \<Longrightarrow> x \<le> foldr max xs (0 :: int)"
  by (simp add: foldr_max_Max)

lemma matching_member:
  "map_of ms k = Some (Some st) \<Longrightarrow> canonicalModelKey k = c \<Longrightarrow> st \<in> set (matching_states c ms)"
  by (auto simp: set_matching_states dest: map_of_SomeD)

lemma canonical_nonempty: "canonicalModelKey m \<noteq> [] \<Longrightarrow> canonicalModelKey (canonicalModelKey m) \<noteq> []"
proof -
  assume h: "canonicalModelKey m \<noteq> []"
  have t: "trim_space (trim_space x) = trim_space x" for x by simp
  have "trim_space (canonicalModelKey m) = canonicalModelKey m"
    using t by (simp add: canonicalModelKey_def Let_def)
  with h show ?thesis by (simp add: canonicalModelKey_def [of "canonicalModelKey m"] Let_def)
qed

lemma map_of_map_values:
  "map_of (map (\<lambda>(k, s). (k, f k s)) ms) k = map_option (f k) (map_of ms k)"
  by (induction ms) auto

lemma update_keeps_state:
  assumes "map_of (auth_ModelStates a) k = Some (Some st)" "expire_state now st = st"
  shows "map_of (auth_ModelStates (updateAggregatedAvailability now a)) k = Some (Some st)"
  using assms by (auto simp: updateAggregatedAvailability_def clearAggregatedAvailability_def Let_def map_of_map_values)

text \<open>The times a rate limit blocks at least: up to the provider's hint, and without one the moment itself.\<close>

definition limit_covers :: "gotime \<Rightarrow> duration option \<Rightarrow> gotime \<Rightarrow> bool" where
  "limit_covers now retryAfter t \<longleftrightarrow> now \<le> t \<and> (case retryAfter of Some d \<Rightarrow> t < now + d | None \<Rightarrow> t = now)"

lemma rate_limit_next_covers:
  assumes "limit_covers now ra t"
  shows "t < fst (rate_limit_next q ra False now)"
  using assms quota_cooldown_pos [of "quota_BackoffLevel q"]
  by (auto simp: limit_covers_def rate_limit_next_def quotaCooldownAfterFailure_def split: option.splits prod.splits)

lemma update_keeps_credential:
  assumes "quota_Exceeded (auth_Quota a)" "quota_Reason (auth_Quota a) = ''credential_quota''"
    and "now < quota_NextRecoverAt (auth_Quota a)"
  shows "auth_Quota (updateAggregatedAvailability now a) = auth_Quota a"
  using assms by (simp add: updateAggregatedAvailability_def)

lemma rate_limit_errors:
  assumes "err_HTTPStatus e = 429"
  shows "\<not> isModelSupportResultError (Some e)" "\<not> isInvalidGrantResultError (Some e)"
  using assms by (simp_all add: isModelSupportResultError_def isInvalidGrantResultError_def)

lemma spread_keeps:
  "map_of (auth_ModelStates (spread_credential key n l a)) key = map_of (auth_ModelStates a) key"
  "quota_Exceeded (auth_Quota (spread_credential key n l a))"
  "quota_Reason (auth_Quota (spread_credential key n l a)) = ''credential_quota''"
  "n \<le> quota_NextRecoverAt (auth_Quota (spread_credential key n l a))"
  by (simp_all add: spread_credential_def Let_def map_of_map_values [of "\<lambda>k s. if k = key then s else map_option (spread_state n l) s"]
      option.map_ident)

lemma rate_limit_marks:
  assumes "0 < now" "res_Error r = Some e" "err_HTTPStatus e = 429" "\<not> isCloudflareChallengeResultError (Some e)"
    and "\<not> disable \<or> is_force_cooldown (Some e)" "limit_covers now (res_RetryAfter r) t" "canonicalModelKey k = k"
    and b_def: "b = fst (mark_model_failure seconds disable r now k a)"
  shows "\<exists>st. map_of (auth_ModelStates b) k = Some (Some st) \<and> ms_Unavailable st \<and> t < ms_NextRetryAfter st"
    and "res_CredentialScope r \<Longrightarrow> t < credential_until b"
proof -
  obtain st a1 where en: "ensureModelState a k = (st, a1)" by fastforce
  let ?st = "failing_state (Some e) now st"
  obtain n l where nl: "rate_limit_next (ms_Quota ?st) (res_RetryAfter r) False now = (n, l)" by fastforce
  have t: "now \<le> t" "t < n" using rate_limit_next_covers [OF assms(6), of "ms_Quota ?st"] assms(6) by (simp_all add: nl limit_covers_def)
  define S where "S = ?st\<lparr>ms_NextRetryAfter := n, ms_Quota := applyCooldownFields (ms_Quota ?st) (quota_fields ''quota'' n l)\<rparr>"
  define eff where "eff = failure_effect_of seconds r False now ?st"
  have d: "(disable \<and> \<not> is_force_cooldown (Some e)) = False" using assms(5) by simp
  have eff: "fe_state eff = S" "fe_credential eff = (if res_CredentialScope r then Some (n, l) else None)"
    using assms(2,3,4) rate_limit_errors [OF assms(3)]
    by (simp_all add: eff_def failure_effect_of_def rate_limit_effect_def nl S_def Let_def)
  have u: "ms_Unavailable S" "ms_NextRetryAfter S = n" by (simp_all add: S_def failing_state_def Let_def)
  have settle: "settle_state (Some e) False now S = S" using u(2) t assms(1) by (simp add: settle_state_def)
  define a2 where "a2 = set_state k S (failing_auth (Some e) a1)"
  define a3 where "a3 = set_state k S (if res_CredentialScope r then spread_credential k n l a2 else a2)"
  have b: "b = updateAggregatedAvailability now (a3\<lparr>auth_Status := StatusError, auth_UpdatedAt := now\<rparr>)"
    unfolding b_def mark_model_failure_def Let_def en prod.case assms(2,7) d eff_def [symmetric] eff settle a3_def a2_def fst_conv
    by (simp split: if_split)
  have "expire_state now S = S" using t u by (simp add: expire_state_def)
  moreover have "map_of (auth_ModelStates a3) k = Some (Some S)" by (simp add: a3_def set_state_def update_conv')
  ultimately have "map_of (auth_ModelStates b) k = Some (Some S)" unfolding b by (intro update_keeps_state) simp_all
  with u t show "\<exists>st. map_of (auth_ModelStates b) k = Some (Some st) \<and> ms_Unavailable st \<and> t < ms_NextRetryAfter st" by auto
  show "t < credential_until b" if scope: "res_CredentialScope r"
  proof -
    have q: "quota_Exceeded (auth_Quota a3)" "quota_Reason (auth_Quota a3) = ''credential_quota''" "n \<le> quota_NextRecoverAt (auth_Quota a3)"
      using scope spread_keeps [where key = k and n = n and l = l and a = a2] by (simp_all add: a3_def)
    have "auth_Quota b = auth_Quota a3" unfolding b using q t by (subst update_keeps_credential) simp_all
    with q t show ?thesis by (simp add: credential_until_def)
  qed
qed

lemma rate_limit_until:
  assumes "0 < now" "\<not> res_Success r" "res_Error r = Some e" "err_HTTPStatus e = 429"
    and "\<not> isCloudflareChallengeResultError (Some e)" "\<not> shouldSkipCredentialCooldown lib (Some e)"
    and "\<not> disable \<or> is_force_cooldown (Some e)" "limit_covers now (res_RetryAfter r) t"
    and "canonicalModelKey (res_Model r) \<noteq> []"
    and "canonicalModelKey (canonicalModelKey (res_Model r)) = canonicalModelKey (res_Model r)"
    and "canonicalModelKey model = canonicalModelKey (res_Model r) \<or> res_CredentialScope r"
  shows "t < blocked_until (mark_core lib seconds disable r now a) model"
proof -
  let ?k = "canonicalModelKey (res_Model r)"
  let ?b = "mark_core lib seconds disable r now a"
  have b: "?b = fst (mark_model_failure seconds disable r now ?k (count_result now (res_Success r) a))"
    using assms(2,3,6,9) by (simp add: mark_core_def)
  note M = rate_limit_marks [OF assms(1,3,4,5,7,8,10) b]
  have t: "0 \<le> t" using assms(1,8) by (simp add: limit_covers_def)
  have "t < blocked_until ?b model" if same: "canonicalModelKey model = ?k"
  proof -
    obtain st where st: "map_of (auth_ModelStates ?b) ?k = Some (Some st)" "ms_Unavailable st" "t < ms_NextRetryAfter st"
      using M(1) by blast
    have "st \<in> set (matching_states (canonicalModelKey model) (auth_ModelStates ?b))"
      using matching_member [OF st(1)] assms(10) same by simp
    then have "state_until st \<le> foldr max (map state_until (matching_states (canonicalModelKey model) (auth_ModelStates ?b))) 0"
      by (intro foldr_max_member) simp
    moreover have "t < state_until st" using st t by (simp add: state_until_def flags_until_def)
    moreover have "model \<noteq> []" using same assms(9) by (auto simp: canonicalModelKey_def)
    moreover have "auth_ModelStates ?b \<noteq> []" using st(1) by auto
    ultimately show ?thesis by (auto simp: blocked_until_def model_until_def uses_model_states_def less_max_iff_disj)
  qed
  moreover have "t < blocked_until ?b model" if "res_CredentialScope r"
    using M(2) [OF that] by (simp add: blocked_until_def)
  ultimately show ?thesis using assms(11) by blast
qed

text \<open>C13. A counted rate limit takes effect at once: with cooling enabled, the model is blocked on the credential from
  the result up to the time the provider asked for (and without a hint at least at that time), under any
  spelling of the name that denotes the same model; a limit of the whole credential blocks every model.\<close>

theorem rate_limit_blocks:
  assumes "0 < now" "\<not> res_Success r" "res_Error r = Some e" "err_HTTPStatus e = 429"
    and "\<not> isCloudflareChallengeResultError (Some e)" "\<not> shouldSkipCredentialCooldown lib (Some e)"
    and "\<not> disable \<or> is_force_cooldown (Some e)" "limit_covers now (res_RetryAfter r) t"
    and "canonicalModelKey (res_Model r) \<noteq> []"
    and "canonicalModelKey (canonicalModelKey (res_Model r)) = canonicalModelKey (res_Model r)"
    and "canonicalModelKey model = canonicalModelKey (res_Model r) \<or> res_CredentialScope r"
  shows "fst (isAuthBlockedForModel (Some (fst (mark_auth lib seconds disable h r now a))) model t)"
proof -
  have "0 \<le> t" using assms(1,8) by (simp add: limit_covers_def)
  then show ?thesis using rate_limit_until [OF assms]
    unfolding isAuthBlocked_cases(1) [OF \<open>0 \<le> t\<close>] mark_auth_core blocked_until_def observe_blocks by simp
qed

theorem rate_limit_blocks_witness:
  "fst (isAuthBlockedForModel (Some (fst (mark_auth no_json 0 False [] (failed_result 429 ''slow down'' (Some 50)) 10
      (new_auth ''a'' ''claude'')))) ''m(high)'' 59)"
proof (rule rate_limit_blocks)
  show "res_Error (failed_result 429 ''slow down'' (Some 50)) =
      Some \<lparr>err_Code = [], err_Message = ''slow down'', err_Retryable = False, err_HTTPStatus = 429\<rparr>" by (simp add: failed_result_def)
qed code_simp+

section \<open>Neutral failures\<close>

text \<open>C39. Failures of the request or of the connection leave the credential's availability alone: for every model
  and at every time it is blocked after the result exactly when it was before, and it stays as available
  to retries; only its counters and the observed headers change.\<close>

theorem neutral_result_keeps_availability:
  assumes "\<not> res_Success r" "shouldSkipCredentialCooldown lib (res_Error r)" "0 \<le> t"
  shows "fst (isAuthBlockedForModel (Some (fst (mark_auth lib seconds disable h r now a))) model t) \<longleftrightarrow>
    fst (isAuthBlockedForModel (Some a) model t)"
proof -
  have "mark_core lib seconds disable r now a = count_result now False a"
    using assms(1,2) by (simp add: mark_core_def applyAuthFailureState_def Let_def)
  moreover have "blocked_forever (count_result now False a) model = blocked_forever a model"
    "model_until (count_result now False a) model = model_until a model" "credential_until (count_result now False a) = credential_until a"
    by (simp_all add: blocked_forever_def model_until_def credential_until_def uses_model_states_def)
  ultimately show ?thesis
    unfolding isAuthBlocked_cases(1) [OF assms(3)] mark_auth_core blocked_until_def observe_blocks by simp
qed

theorem neutral_result_keeps_availability_witness:
  "fst (isAuthBlockedForModel (Some (fst (mark_auth no_json 0 False [] (failed_result 0 ''context canceled'' None) 10 cooling_auth))) ''m'' 60)"
proof -
  have "fst (isAuthBlockedForModel (Some cooling_auth) ''m'' 60)" by code_simp
  moreover have "\<not> res_Success (failed_result 0 ''context canceled'' None)"
    "shouldSkipCredentialCooldown no_json (res_Error (failed_result 0 ''context canceled'' None))" by code_simp+
  ultimately show ?thesis using neutral_result_keeps_availability by simp
qed

section \<open>Successes\<close>

lemma canonical_empty: "canonicalModelKey m = [] \<longleftrightarrow> trim_space m = []"
  by (simp add: canonicalModelKey_def Let_def)

lemma normalize_changed: "snd (normalize_states ms n True)"
proof (induction ms arbitrary: n)
  case (Cons p ms)
  obtain m st where p: "p = (m, st)" by fastforce
  show ?case using Cons.IH by (cases "map_of n (state_key m)") (simp_all add: p Let_def)
qed simp

lemma normalize_flag: "\<not> snd (normalize_states ms n ch) \<Longrightarrow> \<not> ch"
  using normalize_changed [of ms n] by (cases ch) simp_all

lemma normalize_unchanged:
  "\<not> snd (normalize_states ms n ch) \<Longrightarrow> \<forall>k\<in>fst ` set ms. state_key k = k"
proof (induction ms n ch rule: normalize_states.induct)
  case (2 model state ms normalized ch)
  show ?case
  proof (cases "map_of normalized (state_key model)")
    case None
    then have r: "\<not> snd (normalize_states ms (map_put (state_key model) state normalized) (ch \<or> state_key model \<noteq> model))"
      using "2.prems" by (simp add: Let_def)
    from "2.IH"(1) [OF refl refl None r] normalize_flag [OF r] show ?thesis by simp
  next
    case (Some e)
    then show ?thesis using "2.prems" normalize_flag [of ms _ True] by (auto simp: Let_def)
  qed
qed simp

lemma normalize_states_keys:
  "fst ` set (fst (normalize_states ms n ch)) = fst ` set n \<union> state_key ` fst ` set ms"
proof (induction ms n ch rule: normalize_states.induct)
  case (2 model state ms normalized ch)
  then show ?case by (cases "map_of normalized (state_key model)") (auto simp: Let_def dom_update)
qed simp

lemma normalize_keys: "fst ` set (auth_ModelStates (normalizeModelStates a)) = state_key ` fst ` set (auth_ModelStates a)"
proof -
  obtain n ch where n: "normalize_states (auth_ModelStates a) [] False = (n, ch)" by fastforce
  have K: "fst ` set n = state_key ` fst ` set (auth_ModelStates a)"
    using normalize_states_keys [of "auth_ModelStates a" "[]" False] by (simp add: n)
  have "state_key ` fst ` set (auth_ModelStates a) = fst ` set (auth_ModelStates a)" if "\<not> ch"
    using normalize_unchanged [of "auth_ModelStates a" "[]" False] that by (simp add: n image_image cong: image_cong)
  then show ?thesis using K by (simp add: normalizeModelStates_def n)
qed

lemma update_credential:
  assumes "\<not> (quota_Reason (auth_Quota a) = ''credential_quota'' \<and> now < quota_NextRecoverAt (auth_Quota a))"
  shows "credential_until (updateAggregatedAvailability now a) = 0"
proof -
  have "quota_Reason (aggregate_quota now ag (auth_Quota a)) = ''credential_quota'' \<Longrightarrow>
      \<not> quota_Exceeded (aggregate_quota now ag (auth_Quota a))" for ag
    using assms by (auto simp: aggregate_quota_def split: if_splits)
  then show ?thesis using assms
    by (auto simp: updateAggregatedAvailability_def clearAggregatedAvailability_def credential_until_def Let_def)
qed

lemma update_keys:
  "fst ` set (auth_ModelStates (updateAggregatedAvailability now a)) = fst ` set (auth_ModelStates a)"
  by (force simp: updateAggregatedAvailability_def clearAggregatedAvailability_def Let_def image_iff)

text \<open>A model name without nested suffix groups: its key is the key of its key.\<close>

definition plain_key :: "string \<Rightarrow> bool" where
  "plain_key m \<longleftrightarrow> canonicalModelKey (canonicalModelKey m) = canonicalModelKey m"

lemma success_state:
  assumes "auth_sound a" "canonicalModelKey k = k" "k \<noteq> []" "\<forall>m\<in>fst ` set (auth_ModelStates a). plain_key m"
    and "ensureModelState a k = (st, a1)"
    and b_def: "b = updateAggregatedAvailability now (set_state k (resetModelState now st) a1)"
  shows "matching_states k (auth_ModelStates b) \<noteq> []"
    and "x \<in> set (matching_states k (auth_ModelStates b)) \<Longrightarrow> x = resetModelState now st"
proof -
  let ?r = "resetModelState now st"
  have b: "map_of (auth_ModelStates b) k = Some (Some ?r)"
    unfolding b_def by (rule update_keeps_state) (simp_all add: set_state_def update_conv' expire_state_def resetModelState_def)
  with assms(2) show "matching_states k (auth_ModelStates b) \<noteq> []" by (metis matching_member empty_iff empty_set)
  have ss: "states_sound (auth_ModelStates a)" using assms(1) by (simp add: auth_sound_def)
  have "wf_map (auth_ModelStates b)"
  proof -
    have f: "auth_Quota a1 = auth_Quota a" "auth_NextRetryAfter a1 = auth_NextRetryAfter a"
      using assms(5) by (auto elim!: ensure_cases)
    have "wf_map (auth_ModelStates (set_state k ?r a1))"
      using ensure_sound [OF ss assms(5)] by (simp add: set_state_def states_sound_def distinct_update)
    moreover have "wf_map (auth_ModelStates (updateAggregatedAvailability now c)) = wf_map (auth_ModelStates c)" for c
      by (auto simp: updateAggregatedAvailability_def clearAggregatedAvailability_def Let_def comp_def case_prod_beta)
    ultimately show ?thesis by (simp add: b_def)
  qed
  have keys: "fst ` set (auth_ModelStates b) \<subseteq> insert k (state_key ` fst ` set (auth_ModelStates a))"
  proof -
    have "fst ` set (auth_ModelStates a1) \<subseteq> insert k (state_key ` fst ` set (auth_ModelStates a))"
      using normalize_keys [of a] assms(2) by (cases rule: ensure_cases [OF assms(5)]) (auto simp: set_state_def dom_update)
    then show ?thesis by (auto simp: b_def update_keys set_state_def dom_update)
  qed
  have only: "n = k" if n: "n \<in> fst ` set (auth_ModelStates b)" "canonicalModelKey n = k" for n
  proof (rule ccontr)
    assume "n \<noteq> k"
    then have "n \<in> state_key ` fst ` set (auth_ModelStates a)" using n(1) keys by blast
    then obtain m where m: "m \<in> fst ` set (auth_ModelStates a)" "n = state_key m" by blast
    show False
    proof (cases "canonicalModelKey m = []")
      case True
      then have "n = []" using m(2) by (simp add: state_key_def canonical_empty)
      with n(2) assms(3) show ?thesis by (simp add: canonicalModelKey_def)
    next
      case False
      then have "n = canonicalModelKey m" using m(2) by (simp add: state_key_def Let_def)
      moreover from this have "canonicalModelKey n = n" using assms(4) m(1) by (auto simp: plain_key_def)
      ultimately show ?thesis using n(2) \<open>n \<noteq> k\<close> by simp
    qed
  qed
  assume "x \<in> set (matching_states k (auth_ModelStates b))"
  then obtain n where n: "(n, Some x) \<in> set (auth_ModelStates b)" "canonicalModelKey n = k" by (auto simp: set_matching_states)
  have "n \<in> fst ` set (auth_ModelStates b)" using image_eqI [OF _ n(1), of n fst] by simp
  from only [OF this n(2)] n(1) have "(k, Some x) \<in> set (auth_ModelStates b)" by simp
  then have "map_of (auth_ModelStates b) k = Some (Some x)" using wf_map_in_set [OF \<open>wf_map (auth_ModelStates b)\<close>] by blast
  with b show "x = ?r" by simp
qed

text \<open>C14. A success puts the credential back in service for its model at once: unless a limit of the whole
  credential is still open, the model is selectable on it at every time, whatever its states said before.\<close>

theorem success_unblocks:
  assumes "auth_sound a" "enabled a" "res_Success r" "canonicalModelKey (res_Model r) \<noteq> []" "plain_key (res_Model r)"
    and "\<forall>m\<in>fst ` set (auth_ModelStates a). plain_key m"
    and "\<not> (quota_Reason (auth_Quota a) = ''credential_quota'' \<and> now < quota_NextRecoverAt (auth_Quota a))"
    and "canonicalModelKey model = canonicalModelKey (res_Model r)" "0 \<le> t"
  shows "\<not> fst (isAuthBlockedForModel (Some (fst (mark_auth lib seconds disable h r now a))) model t)"
proof -
  let ?k = "canonicalModelKey (res_Model r)" and ?c = "count_result now True a"
  obtain st a1 where en: "ensureModelState ?c ?k = (st, a1)" by fastforce
  define b where "b = updateAggregatedAvailability now (set_state ?k (resetModelState now st) a1)"
  define b' where "b' = (settle_status now b)\<lparr>auth_UpdatedAt := now\<rparr>"
  have k: "canonicalModelKey ?k = ?k" using assms(5) by (simp add: plain_key_def)
  have core: "mark_core lib seconds disable r now a = b'"
    using assms(3,4,7) by (auto simp: mark_core_def mark_success_def en k b'_def b_def Let_def)
  have c: "auth_sound ?c" using assms(1) by (simp add: auth_sound_def)
  have S: "matching_states ?k (auth_ModelStates b') \<noteq> []"
    "\<And>x. x \<in> set (matching_states ?k (auth_ModelStates b')) \<Longrightarrow> x = resetModelState now st"
    using success_state [OF c k assms(4) _ en b_def] assms(6) by (simp_all add: b'_def)
  have reset: "\<not> state_forever (resetModelState now st)" "state_until (resetModelState now st) = 0"
    by (simp_all add: state_forever_def state_until_def flags_forever_def flags_until_def resetModelState_def)
  have model: "uses_model_states b' model"
    using assms(4,8) S(1) by (auto simp: uses_model_states_def canonicalModelKey_def matching_states_def)
  have "enabled b'" using mark_auth_enabled [OF assms(2), of lib seconds disable h r now]
    unfolding mark_auth_core core by (simp add: enabled_def)
  then have "\<not> blocked_forever b' model"
    using S(2) reset(1) model by (auto simp: blocked_forever_def enabled_def assms(8) list_ex_iff)
  moreover have "model_until b' model = 0"
  proof -
    have "set (map state_until (matching_states ?k (auth_ModelStates b'))) \<subseteq> {0}" using S(2) reset(2) by auto
    then have "foldr max (map state_until (matching_states ?k (auth_ModelStates b'))) 0 = 0"
      unfolding foldr_max_Max by (metis Max_singleton insert_absorb2 insert_absorb singletonI subset_singletonD)
    then show ?thesis using model by (simp add: model_until_def assms(8))
  qed
  moreover have "credential_until b' = 0"
  proof -
    have "auth_Quota (set_state ?k (resetModelState now st) a1) = auth_Quota a" using ensure_fields [OF en] by simp
    with assms(7) have "credential_until b = 0" unfolding b_def by (intro update_credential) simp
    moreover have "credential_until b' = credential_until b" by (simp add: b'_def credential_until_def)
    ultimately show ?thesis by simp
  qed
  ultimately show ?thesis
    unfolding isAuthBlocked_cases(1) [OF assms(9)] mark_auth_core blocked_until_def observe_blocks core using assms(9) by simp
qed

theorem success_unblocks_witness:
  "fst (isAuthBlockedForModel (Some cooling_auth) ''m'' 20) \<and>
   \<not> fst (isAuthBlockedForModel (Some (fst (mark_auth no_json 0 False [] good_result 10 cooling_auth))) ''m'' 20)"
proof -
  have s: "auth_sound cooling_auth"
    by (simp add: auth_sound_def cooling_auth_def new_auth_def quota_sound_def zero_quota_def states_sound_def state_sound_def
        state_times_def zero_model_state_def)
  have k: "enabled cooling_auth" "canonicalModelKey (res_Model good_result) \<noteq> []" "plain_key (res_Model good_result)"
    "\<forall>m\<in>fst ` set (auth_ModelStates cooling_auth). plain_key m" "res_Success good_result"
    "canonicalModelKey ''m'' = canonicalModelKey (res_Model good_result)"
    "\<not> (quota_Reason (auth_Quota cooling_auth) = ''credential_quota'' \<and> 10 < quota_NextRecoverAt (auth_Quota cooling_auth))"
    by code_simp+
  have "fst (isAuthBlockedForModel (Some cooling_auth) ''m'' 20)" by code_simp
  with success_unblocks [OF s k(1,5,2,3,4,7,6), of 20] show ?thesis by simp
qed

section \<open>Backoff over consecutive windows\<close>

text \<open>A rate limit without a hint from the provider, applied to a quota state.\<close>

definition limit_again :: "gotime \<Rightarrow> QuotaState \<Rightarrow> QuotaState" where
  "limit_again now q = (case quotaCooldownAfterFailure q now of (n, l) \<Rightarrow> q\<lparr>quota_NextRecoverAt := n, quota_BackoffLevel := l\<rparr>)"

text \<open>Times none of which falls into a window opened by an earlier one.\<close>

fun outside_windows :: "gotime list \<Rightarrow> QuotaState \<Rightarrow> bool" where
  "outside_windows [] q = True"
| "outside_windows (t # ts) q = (quota_NextRecoverAt q \<le> t \<and> outside_windows ts (limit_again t q))"

lemma limit_again_fields:
  assumes "quota_NextRecoverAt q \<le> t"
  shows "quota_NextRecoverAt (limit_again t q) = t + fst (nextQuotaCooldown (quota_BackoffLevel q) False)"
    and "quota_BackoffLevel (limit_again t q) = snd (nextQuotaCooldown (quota_BackoffLevel q) False)"
proof -
  obtain c l where "nextQuotaCooldown (quota_BackoffLevel q) False = (c, l)" by fastforce
  then show "quota_NextRecoverAt (limit_again t q) = t + fst (nextQuotaCooldown (quota_BackoffLevel q) False)"
    "quota_BackoffLevel (limit_again t q) = snd (nextQuotaCooldown (quota_BackoffLevel q) False)"
    using assms quota_cooldown_pos [of "quota_BackoffLevel q"] by (simp_all add: limit_again_def quotaCooldownAfterFailure_def)
qed

lemma limit_again_outside:
  assumes "quota_NextRecoverAt q \<le> t" "quota_BackoffLevel q = int (min n 11)"
  shows "quota_BackoffLevel (limit_again t q) = int (min (Suc n) 11)"
    and "quota_NextRecoverAt (limit_again t q) = t + min (second_ns * 2 ^ n) (30 * minute_ns)"
proof -
  have l: "nextQuotaCooldown (int (min n 11)) False =
      (if n < 11 then (second_ns * 2 ^ n, int (Suc n)) else (30 * minute_ns, 11))"
    using ladder [of "int (min n 11)"] by (cases "n < 11") (simp_all add: min_def)
  show "quota_BackoffLevel (limit_again t q) = int (min (Suc n) 11)"
    unfolding limit_again_fields [OF assms(1)] assms(2) l by simp
  have big: "30 * minute_ns \<le> second_ns * 2 ^ n" if "11 \<le> n"
    using power_increasing [OF that, of "2 :: int"] by simp
  have small: "second_ns * 2 ^ n \<le> 30 * minute_ns" if "n < 11"
  proof -
    have "(2 :: int) ^ n \<le> 2 ^ 10" using that by (intro power_increasing) simp_all
    then show ?thesis by simp
  qed
  show "quota_NextRecoverAt (limit_again t q) = t + min (second_ns * 2 ^ n) (30 * minute_ns)"
    unfolding limit_again_fields [OF assms(1)] assms(2) l using big small by (cases "n < 11") (simp_all add: min_def)
qed

lemma backoff_series:
  assumes "outside_windows (ts @ [t]) q" "quota_BackoffLevel q = int (min n 11)"
  shows "quota_NextRecoverAt (fold limit_again (ts @ [t]) q) = t + min (second_ns * 2 ^ (n + length ts)) (30 * minute_ns)"
  using assms
proof (induction ts arbitrary: q n)
  case (Cons u ts)
  from Cons.prems have u: "quota_NextRecoverAt q \<le> u" "outside_windows (ts @ [t]) (limit_again u q)" by simp_all
  from Cons.IH [OF u(2) limit_again_outside(1) [OF u(1) Cons.prems(2)]] show ?case by simp
qed (simp add: limit_again_outside(2))

text \<open>C40. The backoff doubles: rate limits without a hint, each after the window of the one before, open windows of
  one second, two seconds, four seconds and so on up to thirty minutes, and the arithmetic never wraps.\<close>

theorem backoff_doubles:
  assumes "outside_windows (ts @ [t]) q" "quota_BackoffLevel q = 0"
  shows "quota_NextRecoverAt (fold limit_again (ts @ [t]) q) = t + min (second_ns * 2 ^ length ts) (30 * minute_ns)"
  using backoff_series [OF assms(1), of 0] assms(2) by simp

theorem backoff_doubles_witness:
  "quota_NextRecoverAt (fold limit_again ([5, 10 ^ 10] @ [10 ^ 11]) zero_quota) = 10 ^ 11 + 4 * second_ns"
  by (subst backoff_doubles) (code_simp | simp)+

end
