(* ===== verification/Model_Registry.thy ===== *)
theory Model_Registry
  imports Thinking_Types "HOL-Library.Word"
begin

text \<open>
  The model registry of \<open>internal/registry/model_registry.go\<close>: which clients (credentials) supply which
  models, reference counts per model and provider, the exceeded quotas and suspensions of clients, the
  cached lists of available models, and the queries the scheduler and the handlers ask. Every exported
  method holds the registry's mutex, so one method is one step. \<open>cloneModelInfo\<close> copies a value and is the
  identity here; map writes to a nil map happen only after the map is made. A hook is told of
  registrations asynchronously: the steps return the calls.
\<close>

section \<open>State\<close>

record ModelRegistration =
  reg_Info :: "ModelInfo option"
  reg_InfoByProvider :: "(string \<times> ModelInfo) list"
  reg_Count :: int
  reg_LastUpdated :: gotime
  reg_QuotaExceededClients :: "(string \<times> gotime option) list"
  reg_Providers :: "(string \<times> int) list"
  reg_SuspendedClients :: "(string \<times> string) list"

text \<open>The values in the maps that \<open>convertModelToMap\<close> builds.\<close>

datatype model_field = FieldString string | FieldInt int | FieldInt64 int | FieldStrings "string list"

type_synonym model_map = "(string \<times> model_field) list"

record cache_entry =
  ce_models :: "model_map list"
  ce_expiresAt :: gotime

record model_registry =
  mr_models :: "(string \<times> ModelRegistration) list"
  mr_clientModels :: "(string \<times> string list) list"
  mr_clientModelInfos :: "(string \<times> (string \<times> ModelInfo) list) list"
  mr_clientProviders :: "(string \<times> string) list"
  mr_availableModelsCache :: "(string \<times> cache_entry) list"
  mr_generation :: "64 word"
  mr_hook :: bool

definition empty_registry :: model_registry where
  "empty_registry =
     \<lparr>mr_models = [], mr_clientModels = [], mr_clientModelInfos = [], mr_clientProviders = [],
      mr_availableModelsCache = [], mr_generation = 0, mr_hook = False\<rparr>"

datatype registry_event =
    OnModelsRegistered string string "ModelInfo list"
  | OnModelsUnregistered string string

text \<open>The value of a counter, a missing key counting as zero.\<close>

definition get0 :: "(string \<times> int) list \<Rightarrow> string \<Rightarrow> int" where
  "get0 m k = (case map_of m k of None \<Rightarrow> 0 | Some v \<Rightarrow> v)"

definition invalidateAvailableModelsCacheLocked :: "model_registry \<Rightarrow> model_registry" where
  "invalidateAvailableModelsCacheLocked r =
     r\<lparr>mr_generation := mr_generation r + 1, mr_availableModelsCache := []\<rparr>"

section \<open>Registrations of one model\<close>

definition new_registration :: "string \<Rightarrow> ModelInfo \<Rightarrow> gotime \<Rightarrow> ModelRegistration" where
  "new_registration provider model now =
     \<lparr>reg_Info = Some model, reg_InfoByProvider = (if provider \<noteq> [] then [(provider, model)] else []), reg_Count = 1,
      reg_LastUpdated = now, reg_QuotaExceededClients = [],
      reg_Providers = (if provider \<noteq> [] then [(provider, 1)] else []), reg_SuspendedClients = []\<rparr>"

definition add_supplier :: "string \<Rightarrow> ModelInfo \<Rightarrow> gotime \<Rightarrow> ModelRegistration \<Rightarrow> ModelRegistration" where
  "add_supplier provider model now existing =
     (let existing = existing\<lparr>reg_Count := reg_Count existing + 1, reg_LastUpdated := now, reg_Info := Some model\<rparr>
      in if provider \<noteq> []
         then existing\<lparr>reg_Providers := map_put provider (get0 (reg_Providers existing) provider + 1) (reg_Providers existing),
                reg_InfoByProvider := map_put provider model (reg_InfoByProvider existing)\<rparr>
         else existing)"

definition addModelRegistration ::
  "string \<Rightarrow> string \<Rightarrow> ModelInfo \<Rightarrow> gotime \<Rightarrow> model_registry \<Rightarrow> model_registry" where
  "addModelRegistration modelID provider model now r =
     (if modelID = [] then r
      else case map_of (mr_models r) modelID of
             Some existing \<Rightarrow> r\<lparr>mr_models := map_put modelID (add_supplier provider model now existing) (mr_models r)\<rparr>
           | None \<Rightarrow> r\<lparr>mr_models := map_put modelID (new_registration provider model now) (mr_models r)\<rparr>)"

text \<open>Taking \<open>n\<close> suppliers off a provider's counter.\<close>

definition release_provider :: "string \<Rightarrow> int \<Rightarrow> ModelRegistration \<Rightarrow> ModelRegistration" where
  "release_provider provider n reg =
     (case map_of (reg_Providers reg) provider of
        None \<Rightarrow> reg
      | Some count \<Rightarrow>
          if count \<le> n
          then reg\<lparr>reg_Providers := map_del provider (reg_Providers reg),
                 reg_InfoByProvider := map_del provider (reg_InfoByProvider reg)\<rparr>
          else reg\<lparr>reg_Providers := map_put provider (count - n) (reg_Providers reg)\<rparr>)"

definition forget_client :: "string \<Rightarrow> ModelRegistration \<Rightarrow> ModelRegistration" where
  "forget_client clientID reg =
     reg\<lparr>reg_QuotaExceededClients := map_del clientID (reg_QuotaExceededClients reg),
       reg_SuspendedClients := map_del clientID (reg_SuspendedClients reg)\<rparr>"

definition put_or_drop :: "string \<Rightarrow> ModelRegistration \<Rightarrow> model_registry \<Rightarrow> model_registry" where
  "put_or_drop modelID reg r =
     r\<lparr>mr_models := (if reg_Count reg \<le> 0 then map_del modelID (mr_models r) else map_put modelID reg (mr_models r))\<rparr>"

definition removeModelRegistration ::
  "string \<Rightarrow> string \<Rightarrow> string \<Rightarrow> gotime \<Rightarrow> model_registry \<Rightarrow> model_registry" where
  "removeModelRegistration clientID modelID provider now r =
     (case map_of (mr_models r) modelID of
        None \<Rightarrow> r
      | Some registration \<Rightarrow>
          (let reg = forget_client clientID (registration\<lparr>reg_Count := reg_Count registration - 1, reg_LastUpdated := now\<rparr>);
               reg = (if reg_Count reg < 0 then reg\<lparr>reg_Count := 0\<rparr> else reg);
               reg = (if provider \<noteq> [] then release_provider provider 1 reg else reg)
           in put_or_drop modelID reg r))"

section \<open>Unregistering a client\<close>

fun unregister_models :: "string \<Rightarrow> string option \<Rightarrow> gotime \<Rightarrow> string list \<Rightarrow> model_registry \<Rightarrow> model_registry" where
  "unregister_models clientID provider now [] r = r"
| "unregister_models clientID provider now (modelID # ids) r =
     unregister_models clientID provider now ids
       (case map_of (mr_models r) modelID of
          None \<Rightarrow> r
        | Some registration \<Rightarrow>
            (let reg = forget_client clientID (registration\<lparr>reg_Count := reg_Count registration - 1, reg_LastUpdated := now\<rparr>);
                 reg = (case provider of None \<Rightarrow> reg | Some p \<Rightarrow> release_provider p 1 reg)
             in put_or_drop modelID reg r))"

definition unregisterClientInternal :: "gotime \<Rightarrow> string \<Rightarrow> model_registry \<Rightarrow> model_registry \<times> registry_event list" where
  "unregisterClientInternal now clientID r =
     (let provider = map_of (mr_clientProviders r) clientID
      in case map_of (mr_clientModels r) clientID of
           None \<Rightarrow> (r\<lparr>mr_clientProviders := map_del clientID (mr_clientProviders r)\<rparr>, [])
         | Some models \<Rightarrow>
             (let r = unregister_models clientID provider now models r
              in (r\<lparr>mr_clientModels := map_del clientID (mr_clientModels r),
                    mr_clientModelInfos := map_del clientID (mr_clientModelInfos r),
                    mr_clientProviders := map_del clientID (mr_clientProviders r)\<rparr>,
                  if mr_hook r then [OnModelsUnregistered (case provider of None \<Rightarrow> [] | Some p \<Rightarrow> p) clientID] else [])))"

definition UnregisterClient :: "gotime \<Rightarrow> string \<Rightarrow> model_registry \<Rightarrow> model_registry \<times> registry_event list" where
  "UnregisterClient now clientID r =
     (case unregisterClientInternal now clientID r of (r, ev) \<Rightarrow> (invalidateAvailableModelsCacheLocked r, ev))"

section \<open>Registering a client\<close>

record model_input =
  in_unique :: "string list"
  in_raw :: "string list"
  in_models :: "(string \<times> ModelInfo) list"
  in_counts :: "(string \<times> int) list"

fun collect_models :: "ModelInfo option list \<Rightarrow> model_input \<Rightarrow> model_input" where
  "collect_models [] acc = acc"
| "collect_models (model # models) acc =
     collect_models models
       (case model of
          None \<Rightarrow> acc
        | Some m \<Rightarrow>
            if mi_ID m = [] then acc
            else
              (let acc = acc\<lparr>in_raw := in_raw acc @ [mi_ID m],
                     in_counts := map_put (mi_ID m) (get0 (in_counts acc) (mi_ID m) + 1) (in_counts acc)\<rparr>
               in if has_key (mi_ID m) (in_models acc) then acc
                  else acc\<lparr>in_models := map_put (mi_ID m) m (in_models acc), in_unique := in_unique acc @ [mi_ID m]\<rparr>))"

definition model_inputs :: "ModelInfo option list \<Rightarrow> model_input" where
  "model_inputs models = collect_models models \<lparr>in_unique = [], in_raw = [], in_models = [], in_counts = []\<rparr>"

definition count_ids :: "string list \<Rightarrow> (string \<times> int) list" where
  "count_ids ids = fold (\<lambda>id counts. map_put id (get0 counts id + 1) counts) ids []"

fun cloneModelInfosUnique :: "ModelInfo option list \<Rightarrow> string list \<Rightarrow> ModelInfo list" where
  "cloneModelInfosUnique [] seen = []"
| "cloneModelInfosUnique (model # models) seen =
     (case model of
        None \<Rightarrow> cloneModelInfosUnique models seen
      | Some m \<Rightarrow>
          if mi_ID m = [] \<or> mi_ID m \<in> set seen then cloneModelInfosUnique models seen
          else m # cloneModelInfosUnique models (mi_ID m # seen))"

definition update_model :: "string \<Rightarrow> (ModelRegistration \<Rightarrow> ModelRegistration) \<Rightarrow> model_registry \<Rightarrow> model_registry" where
  "update_model modelID f r =
     (case map_of (mr_models r) modelID of
        None \<Rightarrow> r
      | Some reg \<Rightarrow> r\<lparr>mr_models := map_put modelID (f reg) (mr_models r)\<rparr>)"

text \<open>A change of provider first takes the models that stay off the old provider's counters.\<close>

definition shift_step :: "(string \<times> int) list \<Rightarrow> string \<Rightarrow> string \<times> int \<Rightarrow> model_registry \<Rightarrow> model_registry" where
  "shift_step oldCounts oldProvider entry r =
     (case entry of
        (modelID, newCount) \<Rightarrow>
          (let oldCount = get0 oldCounts modelID
           in if newCount = 0 \<or> oldCount = 0 then r
              else update_model modelID (release_provider oldProvider (if oldCount < newCount then oldCount else newCount)) r))"

definition remove_times :: "nat \<Rightarrow> string \<Rightarrow> string \<Rightarrow> string \<Rightarrow> gotime \<Rightarrow> model_registry \<Rightarrow> model_registry" where
  "remove_times n clientID modelID provider now r = (removeModelRegistration clientID modelID provider now ^^ n) r"

definition add_times :: "nat \<Rightarrow> string \<Rightarrow> string \<Rightarrow> ModelInfo \<Rightarrow> gotime \<Rightarrow> model_registry \<Rightarrow> model_registry" where
  "add_times n modelID provider model now r = (addModelRegistration modelID provider model now ^^ n) r"

definition removal_step ::
  "string \<Rightarrow> (string \<times> int) list \<Rightarrow> string \<Rightarrow> gotime \<Rightarrow> string \<times> int \<Rightarrow> model_registry \<Rightarrow> model_registry" where
  "removal_step clientID newCounts oldProvider now entry r =
     (case entry of
        (modelID, oldCount) \<Rightarrow>
          if get0 newCounts modelID = 0 then remove_times (nat oldCount) clientID modelID oldProvider now r else r)"

definition overage_step ::
  "string \<Rightarrow> (string \<times> int) list \<Rightarrow> string \<Rightarrow> gotime \<Rightarrow> string \<times> int \<Rightarrow> model_registry \<Rightarrow> model_registry" where
  "overage_step clientID newCounts oldProvider now entry r =
     (case entry of
        (modelID, oldCount) \<Rightarrow>
          (let newCount = get0 newCounts modelID
           in if newCount = 0 \<or> oldCount \<le> newCount then r
              else remove_times (nat (oldCount - newCount)) clientID modelID oldProvider now r))"

definition addition_step ::
  "(string \<times> int) list \<Rightarrow> (string \<times> ModelInfo) list \<Rightarrow> string \<Rightarrow> gotime \<Rightarrow> string \<times> int \<Rightarrow> model_registry \<Rightarrow> model_registry" where
  "addition_step oldCounts newModels provider now entry r =
     (case entry of
        (modelID, newCount) \<Rightarrow>
          (let oldCount = get0 oldCounts modelID
           in if newCount \<le> oldCount then r
              else case map_of newModels modelID of
                     None \<Rightarrow> r
                   | Some model \<Rightarrow> add_times (nat (newCount - oldCount)) modelID provider model now r))"

text \<open>The metadata of the models that remain; \<open>shifted\<close> says that the provider changed and the new one is not empty.\<close>

definition refresh_registration ::
  "string \<Rightarrow> string \<Rightarrow> ModelInfo \<Rightarrow> gotime \<Rightarrow> bool \<Rightarrow> int \<Rightarrow> int \<Rightarrow> ModelRegistration \<Rightarrow> ModelRegistration" where
  "refresh_registration clientID provider model now shifted oldCount newCount reg =
     (let reg = reg\<lparr>reg_Info := Some model\<rparr>;
          reg = (if provider \<noteq> [] then reg\<lparr>reg_InfoByProvider := map_put provider model (reg_InfoByProvider reg)\<rparr> else reg);
          reg = forget_client clientID (reg\<lparr>reg_LastUpdated := now\<rparr>)
      in if \<not> shifted then reg
         else if oldCount = 0 then reg
         else
           (let overlapCount = (if oldCount < newCount then oldCount else newCount)
            in if overlapCount \<le> 0 then reg
               else reg\<lparr>reg_Providers := map_put provider (get0 (reg_Providers reg) provider + overlapCount) (reg_Providers reg)\<rparr>))"

definition refresh_step ::
  "string \<Rightarrow> string \<Rightarrow> model_input \<Rightarrow> (string \<times> int) list \<Rightarrow> bool \<Rightarrow> gotime \<Rightarrow> string \<Rightarrow> model_registry \<Rightarrow> model_registry" where
  "refresh_step clientID provider inp oldCounts providerChanged now modelID r =
     (case map_of (in_models inp) modelID of
        None \<Rightarrow> r
      | Some model \<Rightarrow>
          update_model modelID
            (refresh_registration clientID provider model now (providerChanged \<and> provider \<noteq> [])
               (get0 oldCounts modelID) (get0 (in_counts inp) modelID)) r)"

text \<open>The client's own records.\<close>

definition record_client :: "string \<Rightarrow> string \<Rightarrow> model_input \<Rightarrow> model_registry \<Rightarrow> model_registry" where
  "record_client clientID provider inp r =
     r\<lparr>mr_clientModels := map_put clientID (in_raw inp) (mr_clientModels r),
       mr_clientModelInfos := map_put clientID (in_models inp) (mr_clientModelInfos r),
       mr_clientProviders := (if provider \<noteq> [] then map_put clientID provider (mr_clientProviders r)
                              else map_del clientID (mr_clientProviders r))\<rparr>"

definition register_new :: "string \<Rightarrow> model_input \<Rightarrow> gotime \<Rightarrow> model_registry \<Rightarrow> model_registry" where
  "register_new provider inp now r =
     fold (\<lambda>modelID r. case map_of (in_models inp) modelID of
                         None \<Rightarrow> r
                       | Some model \<Rightarrow> addModelRegistration modelID provider model now r) (in_raw inp) r"

definition reconcile ::
  "string \<Rightarrow> string \<Rightarrow> string \<Rightarrow> string list \<Rightarrow> model_input \<Rightarrow> gotime \<Rightarrow> model_registry \<Rightarrow> model_registry" where
  "reconcile clientID provider oldProvider oldModels inp now r =
     (let oldCounts = count_ids oldModels; newCounts = in_counts inp; providerChanged = (oldProvider \<noteq> provider);
          r = (if providerChanged \<and> oldProvider \<noteq> [] then fold (shift_step oldCounts oldProvider) newCounts r else r);
          r = fold (removal_step clientID newCounts oldProvider now) oldCounts r;
          r = fold (overage_step clientID newCounts oldProvider now) oldCounts r;
          r = fold (addition_step oldCounts (in_models inp) provider now) newCounts r
      in fold (refresh_step clientID provider inp oldCounts providerChanged now) (in_unique inp) r)"

definition RegisterClient ::
  "gotime \<Rightarrow> string \<Rightarrow> string \<Rightarrow> ModelInfo option list \<Rightarrow> model_registry \<Rightarrow> model_registry \<times> registry_event list" where
  "RegisterClient now clientID clientProvider models r =
     (let provider = to_lower clientProvider; inp = model_inputs models
      in if in_unique inp = [] then
           (case unregisterClientInternal now clientID r of
              (r, ev) \<Rightarrow>
                (invalidateAvailableModelsCacheLocked
                   (r\<lparr>mr_clientModels := map_del clientID (mr_clientModels r),
                      mr_clientModelInfos := map_del clientID (mr_clientModelInfos r),
                      mr_clientProviders := map_del clientID (mr_clientProviders r)\<rparr>), ev))
         else
           (let r = (case map_of (mr_clientModels r) clientID of
                       None \<Rightarrow> register_new provider inp now r
                     | Some oldModels \<Rightarrow>
                         reconcile clientID provider
                           (case map_of (mr_clientProviders r) clientID of None \<Rightarrow> [] | Some p \<Rightarrow> p) oldModels inp now r);
                r = invalidateAvailableModelsCacheLocked (record_client clientID provider inp r)
            in (r, if mr_hook r then [OnModelsRegistered provider clientID (cloneModelInfosUnique models [])] else [])))"

definition SetHook :: "bool \<Rightarrow> model_registry \<Rightarrow> model_registry" where
  "SetHook hook r = r\<lparr>mr_hook := hook\<rparr>"

section \<open>Quotas and suspensions\<close>

definition SetModelQuotaExceeded :: "gotime \<Rightarrow> string \<Rightarrow> string \<Rightarrow> model_registry \<Rightarrow> model_registry" where
  "SetModelQuotaExceeded now clientID modelID r =
     (case map_of (mr_models r) modelID of
        None \<Rightarrow> r
      | Some _ \<Rightarrow>
          invalidateAvailableModelsCacheLocked
            (update_model modelID (\<lambda>reg. reg\<lparr>reg_QuotaExceededClients := map_put clientID (Some now) (reg_QuotaExceededClients reg)\<rparr>) r))"

definition ClearModelQuotaExceeded :: "string \<Rightarrow> string \<Rightarrow> model_registry \<Rightarrow> model_registry" where
  "ClearModelQuotaExceeded clientID modelID r =
     (case map_of (mr_models r) modelID of
        None \<Rightarrow> r
      | Some _ \<Rightarrow>
          invalidateAvailableModelsCacheLocked
            (update_model modelID (\<lambda>reg. reg\<lparr>reg_QuotaExceededClients := map_del clientID (reg_QuotaExceededClients reg)\<rparr>) r))"

definition SuspendClientModel :: "gotime \<Rightarrow> string \<Rightarrow> string \<Rightarrow> string \<Rightarrow> model_registry \<Rightarrow> model_registry" where
  "SuspendClientModel now clientID modelID reason r =
     (if clientID = [] \<or> modelID = [] then r
      else case map_of (mr_models r) modelID of
             None \<Rightarrow> r
           | Some reg \<Rightarrow>
               if has_key clientID (reg_SuspendedClients reg) then r
               else invalidateAvailableModelsCacheLocked
                      (update_model modelID (\<lambda>reg. reg\<lparr>reg_SuspendedClients := map_put clientID reason (reg_SuspendedClients reg),
                         reg_LastUpdated := now\<rparr>) r))"

definition ResumeClientModel :: "gotime \<Rightarrow> string \<Rightarrow> string \<Rightarrow> model_registry \<Rightarrow> model_registry" where
  "ResumeClientModel now clientID modelID r =
     (if clientID = [] \<or> modelID = [] then r
      else case map_of (mr_models r) modelID of
             None \<Rightarrow> r
           | Some reg \<Rightarrow>
               if \<not> has_key clientID (reg_SuspendedClients reg) then r
               else invalidateAvailableModelsCacheLocked
                      (update_model modelID (\<lambda>reg. reg\<lparr>reg_SuspendedClients := map_del clientID (reg_SuspendedClients reg),
                         reg_LastUpdated := now\<rparr>) r))"

definition modelQuotaExceededWindow :: duration where
  "modelQuotaExceededWindow = 5 * minute_ns"

definition quota_expired :: "gotime \<Rightarrow> gotime option \<Rightarrow> bool" where
  "quota_expired now quotaTime \<longleftrightarrow>
     (case quotaTime of None \<Rightarrow> False | Some q \<Rightarrow> time_sub now q \<ge> modelQuotaExceededWindow)"

definition CleanupExpiredQuotas :: "gotime \<Rightarrow> model_registry \<Rightarrow> model_registry" where
  "CleanupExpiredQuotas now r =
     (let clean = (\<lambda>reg. reg\<lparr>reg_QuotaExceededClients := map_keep (\<lambda>c q. \<not> quota_expired now q) (reg_QuotaExceededClients reg)\<rparr>);
          invalidated = (\<exists>(modelID, reg)\<in>set (mr_models r). \<exists>(c, q)\<in>set (reg_QuotaExceededClients reg). quota_expired now q);
          r = r\<lparr>mr_models := map (\<lambda>(modelID, reg). (modelID, clean reg)) (mr_models r)\<rparr>
      in if invalidated then invalidateAvailableModelsCacheLocked r else r)"

section \<open>Availability\<close>

text \<open>The open quota windows of a registration: how many, and the first to end.\<close>

fun quota_loop :: "gotime \<Rightarrow> (string \<times> gotime option) list \<Rightarrow> int \<times> gotime \<Rightarrow> int \<times> gotime" where
  "quota_loop now [] acc = acc"
| "quota_loop now ((c, quotaTime) # qs) (expiredClients, expiresAt) =
     quota_loop now qs
       (case quotaTime of
          None \<Rightarrow> (expiredClients, expiresAt)
        | Some q \<Rightarrow>
            (let recoveryAt = q + modelQuotaExceededWindow
             in if time_before now recoveryAt
                then (expiredClients + 1,
                      if expiresAt = 0 \<or> time_before recoveryAt expiresAt then recoveryAt else expiresAt)
                else (expiredClients, expiresAt)))"

definition cooldown_suspended :: "(string \<times> string) list \<Rightarrow> int" where
  "cooldown_suspended s = int (length (filter (\<lambda>(c, reason). equal_fold reason ''quota'') s))"

definition other_suspended :: "(string \<times> string) list \<Rightarrow> int" where
  "other_suspended s = int (length (filter (\<lambda>(c, reason). \<not> equal_fold reason ''quota'') s))"

definition effectively_available :: "int \<Rightarrow> int \<Rightarrow> int \<Rightarrow> int \<Rightarrow> bool" where
  "effectively_available availableClients expiredClients cooldownSuspended otherSuspended \<longleftrightarrow>
     (let effectiveClients = max 0 (availableClients - expiredClients - otherSuspended)
      in effectiveClients > 0 \<or>
         availableClients > 0 \<and> (expiredClients > 0 \<or> cooldownSuspended > 0) \<and> otherSuspended = 0)"

definition modelRegistrationAvailability :: "ModelRegistration \<Rightarrow> gotime \<Rightarrow> bool \<times> gotime" where
  "modelRegistrationAvailability reg now =
     (case quota_loop now (reg_QuotaExceededClients reg) (0, 0) of
        (expiredClients, expiresAt) \<Rightarrow>
          (effectively_available (reg_Count reg) expiredClients (cooldown_suspended (reg_SuspendedClients reg))
             (other_suspended (reg_SuspendedClients reg)), expiresAt))"

definition GetAvailableModelInfos :: "gotime \<Rightarrow> model_registry \<Rightarrow> ModelInfo list" where
  "GetAvailableModelInfos now r =
     sort_key (\<lambda>info. trim_space (mi_ID info))
       (concat (map (\<lambda>(modelID, reg). if fst (modelRegistrationAvailability reg now)
                       then (case reg_Info reg of None \<Rightarrow> [] | Some info \<Rightarrow> [info]) else []) (mr_models r)))"

end
