(* ===== verification/Registry_Queries.thy ===== *)
theory Registry_Queries
  imports Model_Registry "HOL-Library.Product_Lexorder"
begin

text \<open>
  The queries of the model registry (\<open>internal/registry/model_registry.go\<close>): the lists of available models
  with their cache, the providers and the counts of a model, model metadata, and the helpers of
  \<open>internal/util/provider.go\<close> that the request routing uses. The catalogue of static models is a data file
  and a parameter.
\<close>

section \<open>Dates\<close>

text \<open>\<open>time.Unix(s, 0).UTC().Format(time.RFC3339)\<close>, with the proleptic Gregorian calendar.\<close>

definition civil_from_days :: "int \<Rightarrow> int \<times> int \<times> int" where
  "civil_from_days z =
     (let z = z + 719468;
          era = z div 146097;
          doe = z mod 146097;
          yoe = (doe - doe div 1460 + doe div 36524 - doe div 146096) div 365;
          doy = doe - (365 * yoe + yoe div 4 - yoe div 100);
          mp = (5 * doy + 2) div 153;
          d = doy - (153 * mp + 2) div 5 + 1;
          m = (if mp < 10 then mp + 3 else mp - 9);
          y = yoe + era * 400 + (if m \<le> 2 then 1 else 0)
      in (y, m, d))"

definition pad_zero :: "nat \<Rightarrow> int \<Rightarrow> string" where
  "pad_zero w i = (let s = go_format_int i in replicate (w - length s) CHR ''0'' @ s)"

definition format_rfc3339 :: "int \<Rightarrow> string" where
  "format_rfc3339 secs =
     (let s = secs mod 86400
      in case civil_from_days (secs div 86400) of
           (y, m, d) \<Rightarrow>
             (if y < 0 then ''-'' @ pad_zero 4 (- y) else pad_zero 4 y) @ ''-'' @ pad_zero 2 m @ ''-'' @ pad_zero 2 d @ ''T'' @
             pad_zero 2 (s div 3600) @ '':'' @ pad_zero 2 (s mod 3600 div 60) @ '':'' @ pad_zero 2 (s mod 60) @ ''Z'')"

lemma format_rfc3339_examples:
  "format_rfc3339 0 = ''1970-01-01T00:00:00Z''" "format_rfc3339 1735689599 = ''2024-12-31T23:59:59Z''"
  "format_rfc3339 951782400 = ''2000-02-29T00:00:00Z''"
  by code_simp+

section \<open>The formats of the handlers\<close>

definition opt_field :: "bool \<Rightarrow> string \<Rightarrow> model_field \<Rightarrow> model_map" where
  "opt_field c key v = (if c then [(key, v)] else [])"

definition openai_map :: "ModelInfo \<Rightarrow> model_map" where
  "openai_map m =
     [(''id'', FieldString (mi_ID m)), (''object'', FieldString ''model''), (''owned_by'', FieldString (mi_OwnedBy m))] @
     opt_field (mi_Created m > 0) ''created'' (FieldInt64 (mi_Created m)) @
     opt_field (mi_Type m \<noteq> []) ''type'' (FieldString (mi_Type m)) @
     opt_field (mi_DisplayName m \<noteq> []) ''display_name'' (FieldString (mi_DisplayName m)) @
     opt_field (mi_Version m \<noteq> []) ''version'' (FieldString (mi_Version m)) @
     opt_field (mi_Description m \<noteq> []) ''description'' (FieldString (mi_Description m)) @
     opt_field (mi_ContextLength m > 0) ''context_length'' (FieldInt (mi_ContextLength m)) @
     opt_field (mi_MaxContextLength m > 0) ''max_context_length'' (FieldInt (mi_MaxContextLength m)) @
     opt_field (mi_MaxCompletionTokens m > 0) ''max_completion_tokens'' (FieldInt (mi_MaxCompletionTokens m)) @
     opt_field (mi_SupportedParameters m \<noteq> []) ''supported_parameters'' (FieldStrings (mi_SupportedParameters m))"

definition claude_map :: "ModelInfo \<Rightarrow> model_map" where
  "claude_map m =
     [(''id'', FieldString (mi_ID m)), (''object'', FieldString ''model''), (''owned_by'', FieldString (mi_OwnedBy m))] @
     opt_field (mi_Created m > 0) ''created_at'' (FieldString (format_rfc3339 (mi_Created m))) @
     [(''type'', FieldString ''model''),
      (''display_name'', FieldString (if mi_DisplayName m \<noteq> [] then mi_DisplayName m else mi_ID m)),
      (''max_input_tokens'', FieldInt (if mi_ContextLength m \<le> 0 then 200000 else mi_ContextLength m)),
      (''max_tokens'', FieldInt (if mi_MaxCompletionTokens m \<le> 0 then 64000 else mi_MaxCompletionTokens m))]"

definition gemini_map :: "ModelInfo \<Rightarrow> model_map" where
  "gemini_map m =
     [(''name'', FieldString (if mi_Name m \<noteq> [] then mi_Name m else mi_ID m))] @
     opt_field (mi_Version m \<noteq> []) ''version'' (FieldString (mi_Version m)) @
     opt_field (mi_DisplayName m \<noteq> []) ''displayName'' (FieldString (mi_DisplayName m)) @
     opt_field (mi_Description m \<noteq> []) ''description'' (FieldString (mi_Description m)) @
     opt_field (mi_InputTokenLimit m > 0) ''inputTokenLimit'' (FieldInt (mi_InputTokenLimit m)) @
     opt_field (mi_OutputTokenLimit m > 0) ''outputTokenLimit'' (FieldInt (mi_OutputTokenLimit m)) @
     opt_field (mi_SupportedGenerationMethods m \<noteq> []) ''supportedGenerationMethods''
       (FieldStrings (mi_SupportedGenerationMethods m)) @
     opt_field (mi_SupportedInputModalities m \<noteq> []) ''supportedInputModalities'' (FieldStrings (mi_SupportedInputModalities m)) @
     opt_field (mi_SupportedOutputModalities m \<noteq> []) ''supportedOutputModalities''
       (FieldStrings (mi_SupportedOutputModalities m))"

definition generic_map :: "ModelInfo \<Rightarrow> model_map" where
  "generic_map m =
     [(''id'', FieldString (mi_ID m)), (''object'', FieldString ''model'')] @
     opt_field (mi_OwnedBy m \<noteq> []) ''owned_by'' (FieldString (mi_OwnedBy m)) @
     opt_field (mi_Type m \<noteq> []) ''type'' (FieldString (mi_Type m)) @
     opt_field (mi_Created m \<noteq> 0) ''created'' (FieldInt64 (mi_Created m))"

definition convertModelToMap :: "ModelInfo option \<Rightarrow> string \<Rightarrow> model_map option" where
  "convertModelToMap model handlerType =
     (case model of
        None \<Rightarrow> None
      | Some m \<Rightarrow> Some (if handlerType = ''openai'' then openai_map m
                        else if handlerType = ''claude'' then claude_map m
                        else if handlerType = ''gemini'' then gemini_map m
                        else generic_map m))"

section \<open>The available models and their cache\<close>

fun build_loop :: "string \<Rightarrow> gotime \<Rightarrow> (string \<times> ModelRegistration) list \<Rightarrow> model_map list \<times> gotime \<Rightarrow> model_map list \<times> gotime" where
  "build_loop handlerType now [] acc = acc"
| "build_loop handlerType now ((modelID, registration) # regs) (models, expiresAt) =
     (case modelRegistrationAvailability registration now of
        (available, registrationExpiresAt) \<Rightarrow>
          build_loop handlerType now regs
            (if \<not> available then models
             else (case convertModelToMap (reg_Info registration) handlerType of None \<Rightarrow> models | Some m \<Rightarrow> models @ [m]),
             if registrationExpiresAt \<noteq> 0 \<and> (expiresAt = 0 \<or> time_before registrationExpiresAt expiresAt)
             then registrationExpiresAt else expiresAt))"

definition buildAvailableModelsLocked :: "string \<Rightarrow> gotime \<Rightarrow> model_registry \<Rightarrow> model_map list \<times> gotime" where
  "buildAvailableModelsLocked handlerType now r = build_loop handlerType now (mr_models r) ([], 0)"

definition fresh_entry :: "gotime \<Rightarrow> cache_entry \<Rightarrow> bool" where
  "fresh_entry now e \<longleftrightarrow> ce_expiresAt e = 0 \<or> time_before now (ce_expiresAt e)"

definition GetAvailableModels :: "string \<Rightarrow> gotime \<Rightarrow> model_registry \<Rightarrow> model_map list \<times> model_registry" where
  "GetAvailableModels handlerType now r =
     (case map_of (mr_availableModelsCache r) handlerType of
        Some cache \<Rightarrow>
          if fresh_entry now cache then (ce_models cache, r)
          else (case buildAvailableModelsLocked handlerType now r of
                  (models, expiresAt) \<Rightarrow>
                    (models, r\<lparr>mr_availableModelsCache :=
                       map_put handlerType \<lparr>ce_models = models, ce_expiresAt = expiresAt\<rparr> (mr_availableModelsCache r)\<rparr>))
      | None \<Rightarrow>
          (case buildAvailableModelsLocked handlerType now r of
             (models, expiresAt) \<Rightarrow>
               (models, r\<lparr>mr_availableModelsCache :=
                  map_put handlerType \<lparr>ce_models = models, ce_expiresAt = expiresAt\<rparr> (mr_availableModelsCache r)\<rparr>)))"

section \<open>Counts, providers and metadata of a model\<close>

definition open_quotas :: "gotime \<Rightarrow> (string \<times> gotime option) list \<Rightarrow> int" where
  "open_quotas now qs =
     int (length (filter (\<lambda>(c, q). case q of None \<Rightarrow> False | Some q \<Rightarrow> time_sub now q < modelQuotaExceededWindow) qs))"

definition GetModelCount :: "string \<Rightarrow> gotime \<Rightarrow> model_registry \<Rightarrow> int" where
  "GetModelCount modelID now r =
     (case map_of (mr_models r) modelID of
        None \<Rightarrow> 0
      | Some reg \<Rightarrow>
          (let result = reg_Count reg - open_quotas now (reg_QuotaExceededClients reg) - int (length (reg_SuspendedClients reg))
           in if result < 0 then 0 else result))"

text \<open>The providers of a model, the ones with most suppliers first and equal ones by name.\<close>

definition GetModelProviders :: "string \<Rightarrow> model_registry \<Rightarrow> string list" where
  "GetModelProviders modelID r =
     (case map_of (mr_models r) modelID of
        None \<Rightarrow> []
      | Some reg \<Rightarrow>
          map fst (sort_key (\<lambda>(name, n). (- n, name)) (filter (\<lambda>(name, n). 0 < n) (reg_Providers reg))))"

definition GetModelInfo :: "string \<Rightarrow> string \<Rightarrow> model_registry \<Rightarrow> ModelInfo option" where
  "GetModelInfo modelID provider r =
     (case map_of (mr_models r) modelID of
        None \<Rightarrow> None
      | Some reg \<Rightarrow>
          if provider \<noteq> [] \<and> get0 (reg_Providers reg) provider > 0 \<and> has_key provider (reg_InfoByProvider reg)
          then map_of (reg_InfoByProvider reg) provider
          else reg_Info reg)"

definition LookupModelInfo :: "(string \<Rightarrow> ModelInfo option) \<Rightarrow> string \<Rightarrow> string option \<Rightarrow> model_registry \<Rightarrow> ModelInfo option" where
  "LookupModelInfo static modelID provider r =
     (let modelID = trim_space modelID
      in if modelID = [] then None
         else (let p = (case provider of None \<Rightarrow> [] | Some p \<Rightarrow> to_lower (trim_space p))
               in case GetModelInfo modelID p r of Some info \<Rightarrow> Some info | None \<Rightarrow> static modelID))"

definition ModelOverrideHeaders ::
  "(string \<Rightarrow> ModelInfo option) \<Rightarrow> string \<Rightarrow> string option \<Rightarrow> model_registry \<Rightarrow> (string \<times> string) list option" where
  "ModelOverrideHeaders static modelID provider r =
     (case LookupModelInfo static modelID provider r of
        None \<Rightarrow> None
      | Some info \<Rightarrow>
          (case mi_Config info of
             None \<Rightarrow> None
           | Some headers \<Rightarrow>
               (let out = fold (\<lambda>(key, v) out. let key = trim_space key in if key = [] then out else map_put key v out) headers []
                in if out = [] then None else Some out)))"

definition ClientSupportsModel :: "string \<Rightarrow> string \<Rightarrow> model_registry \<Rightarrow> bool" where
  "ClientSupportsModel clientID modelID r \<longleftrightarrow>
     (let clientID = trim_space clientID; modelID = trim_space modelID
      in if clientID = [] \<or> modelID = [] then False
         else (case map_of (mr_clientModels r) clientID of
                 None \<Rightarrow> False
               | Some models \<Rightarrow> \<exists>id\<in>set models. equal_fold (trim_space id) modelID))"

fun client_infos_loop ::
  "model_registry \<Rightarrow> (string \<times> ModelInfo) list option \<Rightarrow> string list \<Rightarrow> string list \<Rightarrow> ModelInfo list" where
  "client_infos_loop r infos [] seen = []"
| "client_infos_loop r infos (modelID # ids) seen =
     (if modelID \<in> set seen then client_infos_loop r infos ids seen
      else
        (case Option.bind infos (\<lambda>m. map_of m modelID) of
           Some info \<Rightarrow> info # client_infos_loop r infos ids (modelID # seen)
         | None \<Rightarrow>
             (case Option.bind (map_of (mr_models r) modelID) reg_Info of
                Some info \<Rightarrow> info # client_infos_loop r infos ids (modelID # seen)
              | None \<Rightarrow> client_infos_loop r infos ids (modelID # seen))))"

definition GetModelsForClient :: "string \<Rightarrow> model_registry \<Rightarrow> ModelInfo list" where
  "GetModelsForClient clientID r =
     (case map_of (mr_clientModels r) clientID of
        None \<Rightarrow> []
      | Some ids \<Rightarrow> client_infos_loop r (map_of (mr_clientModelInfos r) clientID) ids [])"

section \<open>The models of a provider\<close>

record provider_model =
  pm_count :: int
  pm_info :: "ModelInfo option"

text \<open>The suppliers of one client, added to the provider's models.\<close>

definition provider_model_step ::
  "model_registry \<Rightarrow> (string \<times> ModelInfo) list option \<Rightarrow> string \<Rightarrow> (string \<times> provider_model) list \<Rightarrow> (string \<times> provider_model) list" where
  "provider_model_step r infos modelID0 pms =
     (let modelID = trim_space modelID0
      in if modelID = [] then pms
         else
           (let entry = (case map_of pms modelID of None \<Rightarrow> \<lparr>pm_count = 0, pm_info = None\<rparr> | Some e \<Rightarrow> e);
                info = (case pm_info entry of
                          Some i \<Rightarrow> Some i
                        | None \<Rightarrow>
                            (case Option.bind infos (\<lambda>m. map_of m modelID) of
                               Some i \<Rightarrow> Some i
                             | None \<Rightarrow> Option.bind (map_of (mr_models r) modelID) reg_Info))
            in map_put modelID \<lparr>pm_count = pm_count entry + 1, pm_info = info\<rparr> pms))"

definition provider_models :: "string \<Rightarrow> model_registry \<Rightarrow> (string \<times> provider_model) list" where
  "provider_models provider r =
     fold (\<lambda>(clientID, clientProvider) pms.
             if clientProvider \<noteq> provider then pms
             else fold (provider_model_step r (map_of (mr_clientModelInfos r) clientID))
                    (case map_of (mr_clientModels r) clientID of None \<Rightarrow> [] | Some ids \<Rightarrow> ids) pms)
       (mr_clientProviders r) []"

definition of_provider :: "string \<Rightarrow> model_registry \<Rightarrow> string \<Rightarrow> bool" where
  "of_provider provider r clientID \<longleftrightarrow> clientID \<noteq> [] \<and> map_of (mr_clientProviders r) clientID = Some provider"

definition provider_model_available :: "string \<Rightarrow> gotime \<Rightarrow> model_registry \<Rightarrow> string \<Rightarrow> int \<Rightarrow> bool" where
  "provider_model_available provider now r modelID n \<longleftrightarrow>
     (case map_of (mr_models r) modelID of
        None \<Rightarrow> effectively_available n 0 0 0
      | Some reg \<Rightarrow>
          (let quotas = filter (\<lambda>(c, q). of_provider provider r c) (reg_QuotaExceededClients reg);
               suspended = filter (\<lambda>(c, reason). of_provider provider r c) (reg_SuspendedClients reg)
           in effectively_available n (open_quotas now quotas) (cooldown_suspended suspended) (other_suspended suspended)))"

definition GetAvailableModelsByProvider :: "string \<Rightarrow> gotime \<Rightarrow> model_registry \<Rightarrow> ModelInfo list" where
  "GetAvailableModelsByProvider provider0 now r =
     (let provider = to_lower (trim_space provider0)
      in if provider = [] then []
         else concat (map (\<lambda>(modelID, entry).
                if pm_count entry \<le> 0 \<or> \<not> provider_model_available provider now r modelID (pm_count entry) then []
                else (case pm_info entry of
                        Some info \<Rightarrow> [info]
                      | None \<Rightarrow> (case Option.bind (map_of (mr_models r) modelID) reg_Info of None \<Rightarrow> [] | Some info \<Rightarrow> [info])))
              (provider_models provider r)))"

section \<open>The first available model\<close>

text \<open>The list is sorted by creation time, but models without one compare equal to all others, so the comparison
  is no ordering and Go leaves the order open: \<open>arrange\<close> is the permutation it chooses.\<close>

fun first_counted :: "gotime \<Rightarrow> model_registry \<Rightarrow> model_map list \<Rightarrow> string option" where
  "first_counted now r [] = None"
| "first_counted now r (m # ms) =
     (case map_of m ''id'' of
        Some (FieldString modelID) \<Rightarrow> if GetModelCount modelID now r > 0 then Some modelID else first_counted now r ms
      | _ \<Rightarrow> first_counted now r ms)"

datatype first_model_error = NoModelsAvailable string | NoAvailableClients string

definition GetFirstAvailableModel ::
  "(model_map list \<Rightarrow> model_map list) \<Rightarrow> string \<Rightarrow> gotime \<Rightarrow> model_registry \<Rightarrow> (first_model_error + string) \<times> model_registry" where
  "GetFirstAvailableModel arrange handlerType now r =
     (case GetAvailableModels handlerType now r of
        (models, r) \<Rightarrow>
          (if models = [] then Inl (NoModelsAvailable handlerType)
           else (case first_counted now r (arrange models) of
                   Some modelID \<Rightarrow> Inr modelID
                 | None \<Rightarrow> Inl (NoAvailableClients handlerType)), r))"

section \<open>Providers of a requested model\<close>

fun append_providers :: "string list \<Rightarrow> string list \<Rightarrow> string list" where
  "append_providers providers [] = providers"
| "append_providers providers (name # names) =
     append_providers (if name = [] \<or> name \<in> set providers then providers else providers @ [name]) names"

definition GetProviderName :: "string \<Rightarrow> model_registry \<Rightarrow> string list" where
  "GetProviderName modelName r = (if modelName = [] then [] else append_providers [] (GetModelProviders modelName r))"

definition ResolveAutoModel ::
  "(model_map list \<Rightarrow> model_map list) \<Rightarrow> string \<Rightarrow> gotime \<Rightarrow> model_registry \<Rightarrow> string \<times> model_registry" where
  "ResolveAutoModel arrange modelName now r =
     (if modelName \<noteq> ''auto'' then (modelName, r)
      else (case GetFirstAvailableModel arrange [] now r of
              (Inl e, r) \<Rightarrow> (modelName, r)
            | (Inr firstModel, r) \<Rightarrow> (firstModel, r)))"

end
