(* ===== verification/Registry_Laws.thy ===== *)
theory Registry_Laws
  imports Registry_Queries "HOL-Library.Multiset"
begin

text \<open>
  The reference counts of the model registry are right: in every reachable state a model is registered
  exactly when some client supplies it, and its counters are the numbers of suppliers, in total and per
  provider. The suppliers of a model are a multiset of providers, one for each time a client lists the
  model; a client without a provider counts as the empty one.
\<close>

declare map_of_eq_Some_iff [simp del]

section \<open>Registrations represent suppliers\<close>

definition reg_rep :: "ModelRegistration \<Rightarrow> string multiset \<Rightarrow> bool" where
  "reg_rep reg B \<longleftrightarrow> B \<noteq> {#} \<and> reg_Count reg = int (size B) \<and> wf_map (reg_Providers reg) \<and>
     (\<forall>p. map_of (reg_Providers reg) p = (if p \<noteq> [] \<and> p \<in># B then Some (int (count B p)) else None)) \<and>
     (\<forall>p. has_key p (reg_InfoByProvider reg) \<longleftrightarrow> p \<noteq> [] \<and> p \<in># B) \<and> reg_Info reg \<noteq> None"

type_synonym models = "(string \<times> ModelRegistration) list"

definition represents :: "models \<Rightarrow> (string \<Rightarrow> string multiset) \<Rightarrow> bool" where
  "represents ms S \<longleftrightarrow> wf_map ms \<and>
     (\<forall>m. map_of ms m = None \<longrightarrow> S m = {#}) \<and> (\<forall>m reg. map_of ms m = Some reg \<longrightarrow> reg_rep reg (S m))"

lemma has_key_put [simp]: "has_key k (map_put k' v m) \<longleftrightarrow> k = k' \<or> has_key k m"
  by (simp add: has_key_def update_conv')

lemma has_key_del [simp]: "has_key k (map_del k' m) \<longleftrightarrow> k \<noteq> k' \<and> has_key k m"
  by (simp add: has_key_def delete_conv')

lemma represents_put:
  "represents ms S \<Longrightarrow> reg_rep reg B \<Longrightarrow> represents (map_put m reg ms) (S(m := B))"
  by (auto simp: represents_def update_conv' distinct_update)

lemma represents_del:
  "represents ms S \<Longrightarrow> represents (map_del m ms) (S(m := {#}))"
  by (auto simp: represents_def delete_conv' distinct_delete)

lemma represents_Some: "represents ms S \<Longrightarrow> map_of ms m = Some reg \<Longrightarrow> reg_rep reg (S m)"
  by (simp add: represents_def)

lemma represents_None: "represents ms S \<Longrightarrow> map_of ms m = None \<Longrightarrow> S m = {#}"
  by (simp add: represents_def)

lemma represents_registered: "represents ms S \<Longrightarrow> S m \<noteq> {#} \<Longrightarrow> \<exists>reg. map_of ms m = Some reg"
  by (metis not_None_eq represents_None)

lemma add_supplier_rep:
  assumes "reg_rep reg B"
  shows "reg_rep (add_supplier p info now reg) (add_mset p B)"
  using assms by (auto simp: reg_rep_def add_supplier_def Let_def get0_def update_conv' distinct_update split: if_splits)

lemma new_registration_rep: "reg_rep (new_registration p info now) {#p#}"
  by (auto simp: reg_rep_def new_registration_def has_key_def)

lemma add_rep:
  assumes "represents (mr_models r) S" "m \<noteq> []"
  shows "represents (mr_models (addModelRegistration m p info now r)) (S(m := add_mset p (S m)))"
proof (cases "map_of (mr_models r) m")
  case None
  with represents_None [OF assms(1) None] represents_put [OF assms(1) new_registration_rep, of m p info now] assms(2)
  show ?thesis by (simp add: addModelRegistration_def)
next
  case (Some reg)
  from represents_put [OF assms(1) add_supplier_rep [OF represents_Some [OF assms(1) Some]], of m p info now] Some assms(2)
  show ?thesis by (simp add: addModelRegistration_def)
qed

text \<open>Taking suppliers off a provider's counter leaves them without a provider.\<close>

definition retag :: "nat \<Rightarrow> string \<Rightarrow> string \<Rightarrow> string multiset \<Rightarrow> string multiset" where
  "retag n p q B = B - replicate_mset n p + replicate_mset n q"

lemma release_fields [simp]:
  "reg_Count (release_provider p n reg) = reg_Count reg" "reg_Info (release_provider p n reg) = reg_Info reg"
  "reg_QuotaExceededClients (release_provider p n reg) = reg_QuotaExceededClients reg"
  "reg_SuspendedClients (release_provider p n reg) = reg_SuspendedClients reg"
  by (simp_all add: release_provider_def split: option.split)

lemma size_retag: "replicate_mset n p \<subseteq># B \<Longrightarrow> size (retag n p q B) = size B"
  using size_mset_mono [of "replicate_mset n p" B] unfolding retag_def size_union by (simp only: size_Diff_submset) simp

lemma count_retag:
  "count (retag n p q B) x = count B x - (if x = p then n else 0) + (if x = q then n else 0)"
  by (simp add: retag_def)

lemma mem_retag_other: "x \<noteq> p \<Longrightarrow> x \<noteq> q \<Longrightarrow> x \<in># retag n p q B \<longleftrightarrow> x \<in># B"
  by (simp add: retag_def in_diff_count)

lemma release_rep:
  assumes "reg_rep reg B" "p \<noteq> []" "replicate_mset n p \<subseteq># B" "0 < n"
  shows "reg_rep (release_provider p (int n) reg) (retag n p [] B)"
proof -
  have n: "n \<le> count B p" using assms(3) by (metis count_le_replicate_mset_subset_eq)
  then have "p \<in># B" using assms(4) by (intro count_inI) simp
  then have p: "map_of (reg_Providers reg) p = Some (int (count B p))" using assms(1,2) unfolding reg_rep_def by simp
  have mem: "x \<in># retag n p [] B \<longleftrightarrow> (if x = p then n < count B p else x \<in># B)" if "x \<noteq> []" for x
    unfolding count_greater_zero_iff [symmetric] count_retag using that n by auto
  have "retag n p [] B \<noteq> {#}" using size_retag [OF assms(3), of "[]"] assms(1) by (auto simp: reg_rep_def)
  moreover have "size (retag n p [] B) = size B" by (rule size_retag [OF assms(3)])
  moreover have "map_of (reg_Providers (release_provider p (int n) reg)) x =
      (if x \<noteq> [] \<and> x \<in># retag n p [] B then Some (int (count (retag n p [] B) x)) else None)" for x
  proof (cases "x = p")
    case True
    then show ?thesis using n p assms(2) mem [of p] by (simp add: release_provider_def delete_conv' update_conv' count_retag)
  next
    case False
    then show ?thesis using p mem [of x] assms(1) by (auto simp: release_provider_def delete_conv' update_conv' count_retag reg_rep_def)
  qed
  moreover have "has_key x (reg_InfoByProvider (release_provider p (int n) reg)) \<longleftrightarrow> x \<noteq> [] \<and> x \<in># retag n p [] B" for x
  proof (cases "x = p")
    case True
    then show ?thesis using n p assms(1,2) mem [of p] by (auto simp: release_provider_def reg_rep_def)
  next
    case False
    then show ?thesis using p mem [of x] assms(1) by (auto simp: release_provider_def reg_rep_def)
  qed
  moreover have "wf_map (reg_Providers (release_provider p (int n) reg))"
    using assms(1) by (simp add: release_provider_def p reg_rep_def distinct_delete distinct_update)
  ultimately show ?thesis using assms(1) unfolding reg_rep_def by simp
qed

text \<open>One supplier less.\<close>

lemma less_supplier_rep:
  assumes "reg_rep reg B" "p \<in># B" "B \<noteq> {#p#}"
  shows "reg_rep (forget_client c (let reg = reg\<lparr>reg_Count := reg_Count reg - 1, reg_LastUpdated := now\<rparr>
      in if p \<noteq> [] then release_provider p 1 reg else reg)) (B - {#p#})"
proof -
  have ne: "B - {#p#} \<noteq> {#}" using assms(2,3) by (metis insert_DiffM)
  have size: "int (size (B - {#p#})) = int (size B) - 1" using arg_cong [OF insert_DiffM [OF assms(2)], of size] by simp
  let ?reg = "reg\<lparr>reg_Count := reg_Count reg - 1, reg_LastUpdated := now\<rparr>"
  define reg' where "reg' = (if p \<noteq> [] then release_provider p 1 ?reg else ?reg)"
  have fields: "reg_Providers ?reg = reg_Providers reg" "reg_InfoByProvider ?reg = reg_InfoByProvider reg" by simp_all
  have provs: "map_of (reg_Providers reg') x = (if x \<noteq> [] \<and> x \<in># B - {#p#} then Some (int (count (B - {#p#}) x)) else None) \<and>
      (has_key x (reg_InfoByProvider reg') \<longleftrightarrow> x \<noteq> [] \<and> x \<in># B - {#p#}) \<and> wf_map (reg_Providers reg')" for x
  proof (cases "p = []")
    case True
    have "x \<in># B - {#p#} \<longleftrightarrow> x \<in># B" "count (B - {#p#}) x = count B x" if "x \<noteq> []"
      using that True by (simp_all add: in_diff_count)
    then show ?thesis using assms(1) True unfolding reg'_def reg_rep_def by auto
  next
    case False
    have one: "replicate_mset 1 p \<subseteq># B" using assms(2) by simp
    have r: "reg_rep reg B" by (rule assms(1))
    have rel: "reg_rep (release_provider p 1 reg) (retag 1 p [] B)"
      using release_rep [OF r False one] by simp
    have eq: "reg_Providers (release_provider p 1 ?reg) = reg_Providers (release_provider p 1 reg)"
      "reg_InfoByProvider (release_provider p 1 ?reg) = reg_InfoByProvider (release_provider p 1 reg)"
      by (simp_all add: release_provider_def split: option.split)
    have mem: "x \<in># B - {#p#} \<longleftrightarrow> x \<in># retag 1 p [] B" "count (B - {#p#}) x = count (retag 1 p [] B) x" if "x \<noteq> []"
      using that by (simp_all add: retag_def)
    have reg': "reg' = release_provider p 1 ?reg" using False by (simp add: reg'_def)
    show ?thesis
    proof (cases "x = []")
      case True
      then show ?thesis using rel unfolding reg' eq reg_rep_def by simp
    next
      case x: False
      show ?thesis unfolding reg' eq mem [OF x] using rel unfolding reg_rep_def by simp
    qed
  qed
  have "reg_Count reg' = reg_Count reg - 1" "reg_Info reg' = reg_Info reg" by (simp_all add: reg'_def)
  then have "reg_rep reg' (B - {#p#})" using provs ne size assms(1) unfolding reg_rep_def by simp
  then show ?thesis unfolding Let_def reg'_def [symmetric] by (simp add: reg_rep_def forget_client_def)
qed

lemma remove_rep:
  assumes "represents (mr_models r) S" "p \<in># S m"
  shows "represents (mr_models (removeModelRegistration c m p now r)) (S(m := S m - {#p#}))"
proof -
  have "S m \<noteq> {#}" using assms(2) by auto
  then obtain reg where reg: "map_of (mr_models r) m = Some reg" using represents_registered [OF assms(1)] by blast
  have rep: "reg_rep reg (S m)" by (rule represents_Some [OF assms(1) reg])
  let ?less = "forget_client c (reg\<lparr>reg_Count := reg_Count reg - 1, reg_LastUpdated := now\<rparr>)"
  have pos: "1 \<le> reg_Count reg" using rep assms(2) by (auto simp: reg_rep_def nonempty_has_size Suc_leI)
  have rem: "removeModelRegistration c m p now r = put_or_drop m (if p \<noteq> [] then release_provider p 1 ?less else ?less) r"
    using pos by (simp add: removeModelRegistration_def reg Let_def forget_client_def)
  have swap: "(if p \<noteq> [] then release_provider p 1 ?less else ?less) = forget_client c (let reg = reg\<lparr>reg_Count := reg_Count reg - 1, reg_LastUpdated := now\<rparr>
      in if p \<noteq> [] then release_provider p 1 reg else reg)"
    by (simp add: forget_client_def release_provider_def Let_def split: option.split)
  have count: "reg_Count (if p \<noteq> [] then release_provider p 1 ?less else ?less) = reg_Count reg - 1"
    by (simp add: forget_client_def)
  show ?thesis
  proof (cases "S m = {#p#}")
    case True
    then have "reg_Count reg = 1" using rep by (simp add: reg_rep_def)
    then have "mr_models (removeModelRegistration c m p now r) = map_del m (mr_models r)"
      unfolding rem put_or_drop_def using count by simp
    with represents_del [OF assms(1), of m] True show ?thesis by simp
  next
    case False
    with assms(2) have "S m - {#p#} \<noteq> {#}" by (metis insert_DiffM)
    then have "2 \<le> size (S m)" using arg_cong [OF insert_DiffM [OF assms(2)], of size] by (auto simp: nonempty_has_size)
    then have "\<not> reg_Count reg - 1 \<le> 0" using rep by (simp add: reg_rep_def)
    then have "mr_models (removeModelRegistration c m p now r) = map_put m (if p \<noteq> [] then release_provider p 1 ?less else ?less) (mr_models r)"
      unfolding rem put_or_drop_def count by simp
    with represents_put [OF assms(1) less_supplier_rep [OF rep assms(2) False, of c now], of m] show ?thesis unfolding swap by simp
  qed
qed

lemma add_times_rep:
  assumes "represents (mr_models r) S" "m \<noteq> []"
  shows "represents (mr_models (add_times n m p info now r)) (S(m := S m + replicate_mset n p))"
proof (induction n)
  case (Suc n)
  from add_rep [OF Suc assms(2), of p info now] show ?case by (simp add: add_times_def fun_upd_def cong: if_cong)
qed (simp add: add_times_def assms(1))

lemma remove_times_rep:
  assumes "represents (mr_models r) S" "replicate_mset n p \<subseteq># S m"
  shows "represents (mr_models (remove_times n c m p now r)) (S(m := S m - replicate_mset n p))"
  using assms(2)
proof (induction n)
  case (Suc n)
  then have sub: "replicate_mset n p \<subseteq># S m" by (metis mset_subset_eq_insertD replicate_mset_Suc subset_mset.less_imp_le)
  have "Suc n \<le> count (S m) p" using Suc.prems by (metis count_le_replicate_mset_subset_eq)
  then have "p \<in># (S(m := S m - replicate_mset n p)) m" by (intro count_inI) simp
  from remove_rep [OF Suc.IH [OF sub] this, of c now] show ?case by (simp add: remove_times_def fun_upd_def cong: if_cong)
qed (simp add: remove_times_def assms(1))

lemma update_rep:
  assumes "represents (mr_models r) S" "\<And>reg. map_of (mr_models r) m = Some reg \<Longrightarrow> reg_rep (f reg) B" "S m \<noteq> {#}"
  shows "represents (mr_models (update_model m f r)) (S(m := B))"
proof -
  obtain reg where reg: "map_of (mr_models r) m = Some reg" using represents_registered [OF assms(1,3)] by blast
  from represents_put [OF assms(1) assms(2) [OF reg], of m] show ?thesis by (simp add: update_model_def reg)
qed

section \<open>Loops over the models of a client\<close>

text \<open>A loop whose step for a model changes the suppliers of this model only.\<close>

lemma fold_rep:
  assumes "distinct (map key es)" "represents (mr_models r) S" "\<forall>e\<in>set es. P e (S (key e))"
    and step: "\<And>e r S. e \<in> set es \<Longrightarrow> represents (mr_models r) S \<Longrightarrow> P e (S (key e)) \<Longrightarrow>
      represents (mr_models (f e r)) (S(key e := g e (S (key e))))"
  shows "\<exists>S'. represents (mr_models (fold f es r)) S' \<and> (\<forall>e\<in>set es. S' (key e) = g e (S (key e))) \<and>
      (\<forall>m. m \<notin> key ` set es \<longrightarrow> S' m = S m)"
  using assms
proof (induction es arbitrary: r S)
  case (Cons e es)
  let ?S = "S(key e := g e (S (key e)))"
  have "key e \<notin> key ` set es" using Cons.prems(1) by simp
  then have fresh: "key x \<noteq> key e" if "x \<in> set es" for x using that by (metis imageI)
  have rep: "represents (mr_models (f e r)) ?S"
    by (rule Cons.prems(4)) (use Cons.prems(2,3) in simp_all)
  have ps: "\<forall>x\<in>set es. P x (?S (key x))" using Cons.prems(3) fresh by simp
  from Cons.IH [OF _ rep ps] Cons.prems(1,4) obtain S' where S': "represents (mr_models (fold f es (f e r))) S'"
    "\<forall>x\<in>set es. S' (key x) = g x (?S (key x))" "\<forall>m. m \<notin> key ` set es \<longrightarrow> S' m = ?S m" by (auto simp del: fun_upd_apply)
  have "key e \<notin> key ` set es" using Cons.prems(1) by simp
  then have "S' (key e) = g e (S (key e))" using S'(3) by simp
  then show ?case using S' fresh by (intro exI [of _ S']) auto
qed auto

text \<open>The steps leave the clients' own records alone.\<close>

definition same_clients :: "model_registry \<Rightarrow> model_registry \<Rightarrow> bool" where
  "same_clients r r' \<longleftrightarrow> mr_clientModels r' = mr_clientModels r \<and> mr_clientProviders r' = mr_clientProviders r \<and>
     mr_clientModelInfos r' = mr_clientModelInfos r \<and> mr_hook r' = mr_hook r"

lemma same_clients_refl [simp]: "same_clients r r"
  by (simp add: same_clients_def)

lemma same_clients_trans: "same_clients r r' \<Longrightarrow> same_clients r' r'' \<Longrightarrow> same_clients r r''"
  by (simp add: same_clients_def)

lemma same_clients_fold: "(\<And>e r. same_clients r (f e r)) \<Longrightarrow> same_clients r (fold f es r)"
  by (induction es arbitrary: r) (auto intro: same_clients_trans)

lemma same_clients_pow: "(\<And>r. same_clients r (f r)) \<Longrightarrow> same_clients r ((f ^^ n) r)"
  by (induction n) (auto intro: same_clients_trans)

lemma same_clients_add: "same_clients r (addModelRegistration m p info now r)"
  by (simp add: same_clients_def addModelRegistration_def split: option.split)

lemma same_clients_remove: "same_clients r (removeModelRegistration c m p now r)"
  by (simp add: same_clients_def removeModelRegistration_def put_or_drop_def Let_def split: option.split)

lemma same_clients_update: "same_clients r (update_model m f r)"
  by (simp add: same_clients_def update_model_def split: option.split)

lemma same_clients_steps:
  "same_clients r (shift_step oc op e r)" "same_clients r (removal_step c nc op now e r)"
  "same_clients r (overage_step c nc op now e r)" "same_clients r (addition_step oc nm p now e r)"
  "same_clients r (refresh_step c p inp oc ch now m r)"
  by (auto simp: shift_step_def removal_step_def overage_step_def addition_step_def refresh_step_def remove_times_def add_times_def
      Let_def intro!: same_clients_update same_clients_pow same_clients_remove same_clients_add split: prod.split option.split)

lemma reconcile_same: "same_clients r (reconcile c p op om inp now r)"
  unfolding reconcile_def Let_def
  by (intro same_clients_trans [OF _ same_clients_fold] same_clients_steps) (auto intro!: same_clients_fold same_clients_steps)

section \<open>Counting identifiers\<close>

lemma get0_put [simp]: "get0 (map_put k v m) x = (if x = k then v else get0 m x)"
  by (simp add: get0_def update_conv')

definition counts_ids :: "(string \<times> int) list \<Rightarrow> string list \<Rightarrow> bool" where
  "counts_ids cs ids \<longleftrightarrow> wf_map cs \<and> (\<forall>m. get0 cs m = int (count_list ids m)) \<and> fst ` set cs = set ids"

lemma counts_snoc:
  "counts_ids cs ids \<Longrightarrow> counts_ids (map_put i (get0 cs i + 1) cs) (ids @ [i])"
  by (auto simp: counts_ids_def distinct_update dom_update)

lemma count_ids_counts: "counts_ids (count_ids ids) ids"
proof -
  have "counts_ids (fold (\<lambda>i cs. map_put i (get0 cs i + 1) cs) xs cs) (ys @ xs)" if "counts_ids cs ys" for xs ys cs
    using that
  proof (induction xs arbitrary: ys cs)
    case (Cons x xs)
    from Cons.IH [OF counts_snoc [OF Cons.prems, of x]] show ?case by simp
  qed simp
  from this [of "[]" "[]" ids] show ?thesis by (simp add: count_ids_def counts_ids_def get0_def)
qed

lemma counts_entry:
  assumes "counts_ids cs ids" "(m, n) \<in> set cs"
  shows "n = int (count_list ids m) \<and> m \<in> set ids"
proof -
  have "map_of cs m = Some n" using assms wf_map_in_set by (auto simp: counts_ids_def)
  then have "get0 cs m = n" by (simp add: get0_def)
  moreover have "m \<in> fst ` set cs" using image_eqI [OF _ assms(2), of m fst] by simp
  ultimately show ?thesis using assms(1) by (auto simp: counts_ids_def)
qed

text \<open>The models of a registration call.\<close>

definition input_ok :: "model_input \<Rightarrow> bool" where
  "input_ok inp \<longleftrightarrow> counts_ids (in_counts inp) (in_raw inp) \<and> [] \<notin> set (in_raw inp) \<and> distinct (in_unique inp) \<and>
     set (in_unique inp) = set (in_raw inp) \<and> wf_map (in_models inp) \<and> fst ` set (in_models inp) = set (in_raw inp)"

lemma collect_ok: "input_ok acc \<Longrightarrow> input_ok (collect_models models acc)"
proof (induction models acc rule: collect_models.induct)
  case (2 model models acc)
  have "input_ok (case model of None \<Rightarrow> acc | Some m \<Rightarrow>
      if mi_ID m = [] then acc
      else (let acc = acc\<lparr>in_raw := in_raw acc @ [mi_ID m],
               in_counts := map_put (mi_ID m) (get0 (in_counts acc) (mi_ID m) + 1) (in_counts acc)\<rparr>
            in if has_key (mi_ID m) (in_models acc) then acc
               else acc\<lparr>in_models := map_put (mi_ID m) m (in_models acc), in_unique := in_unique acc @ [mi_ID m]\<rparr>))"
  proof (cases model)
    case (Some m)
    have key: "has_key (mi_ID m) (in_models acc) \<longleftrightarrow> mi_ID m \<in> set (in_raw acc)"
      using "2.prems" by (auto simp: input_ok_def has_key_def map_of_eq_None_iff)
    show ?thesis using "2.prems" key counts_snoc
      by (auto simp: Some input_ok_def Let_def distinct_update dom_update)
  qed (simp add: "2.prems")
  from "2.IH" [OF this] show ?case by simp
qed simp

lemma model_inputs_ok: "input_ok (model_inputs models)"
  unfolding model_inputs_def by (rule collect_ok) (simp add: input_ok_def counts_ids_def get0_def)

section \<open>Registering a client that is new\<close>

lemma register_new_rep:
  assumes "represents (mr_models r) S" "input_ok inp"
  shows "represents (mr_models (register_new p inp now r)) (\<lambda>m. S m + replicate_mset (count_list (in_raw inp) m) p)"
proof -
  have "represents (mr_models (fold (\<lambda>m r. case map_of (in_models inp) m of None \<Rightarrow> r
        | Some info \<Rightarrow> addModelRegistration m p info now r) ids r)) (\<lambda>m. S m + replicate_mset (count_list ids m) p)"
    if "represents (mr_models r) S" "set ids \<subseteq> set (in_raw inp)" for ids r S
    using that
  proof (induction ids arbitrary: r S)
    case (Cons i ids)
    obtain info where info: "map_of (in_models inp) i = Some info"
      using Cons.prems(2) assms(2) by (metis input_ok_def list.set_intros(1) map_of_eq_None_iff not_None_eq subsetD)
    have "i \<noteq> []" using Cons.prems(2) assms(2) by (auto simp: input_ok_def)
    from Cons.IH [OF add_rep [OF Cons.prems(1) this, of p info now]] Cons.prems(2)
    have "represents (mr_models (fold (\<lambda>m r. case map_of (in_models inp) m of None \<Rightarrow> r
        | Some info \<Rightarrow> addModelRegistration m p info now r) (i # ids) r))
        (\<lambda>m. (S(i := add_mset p (S i))) m + replicate_mset (count_list ids m) p)" by (simp add: info del: fun_upd_apply)
    moreover have "(\<lambda>m. (S(i := add_mset p (S i))) m + replicate_mset (count_list ids m) p) =
        (\<lambda>m. S m + replicate_mset (count_list (i # ids) m) p)" by (auto simp: fun_eq_iff)
    ultimately show ?case by simp
  qed simp
  from this [OF assms(1) order.refl] show ?thesis by (simp add: register_new_def)
qed

section \<open>Reconciling a client\<close>

lemma replicate_split: "replicate_mset (a + b) x = replicate_mset a x + replicate_mset b x"
  by (induction a) simp_all

lemma rep_cong: "represents ms S \<Longrightarrow> (\<And>m. S m = S' m) \<Longrightarrow> represents ms S'"
  by (metis ext)

lemma shift_rep:
  assumes "represents (mr_models r) S" "counts_ids oc old" "counts_ids nc new" "p \<noteq> []"
    and "\<And>m. S m = R m + replicate_mset (count_list old m) p"
  shows "represents (mr_models (fold (shift_step oc p) nc r))
    (\<lambda>m. let k = min (count_list old m) (count_list new m)
         in R m + replicate_mset (count_list old m - k) p + replicate_mset k [])"
proof -
  let ?k = "\<lambda>m. min (count_list old m) (count_list new m)"
  have "\<exists>S'. represents (mr_models (fold (shift_step oc p) nc r)) S' \<and>
      (\<forall>e\<in>set nc. S' (fst e) = retag (?k (fst e)) p [] (S (fst e))) \<and> (\<forall>m. m \<notin> fst ` set nc \<longrightarrow> S' m = S m)"
  proof (rule fold_rep [where P = "\<lambda>e B. replicate_mset (?k (fst e)) p \<subseteq># B" and g = "\<lambda>e. retag (?k (fst e)) p []"])
    show "distinct (map fst nc)" using assms(3) by (simp add: counts_ids_def)
    show "represents (mr_models r) S" by (rule assms(1))
    show "\<forall>e\<in>set nc. replicate_mset (?k (fst e)) p \<subseteq># S (fst e)"
      using assms(5) by (auto simp: count_le_replicate_mset_subset_eq [symmetric])
    fix e and r :: model_registry and S
    assume e: "e \<in> set nc" and rep: "represents (mr_models r) S" and sub: "replicate_mset (?k (fst e)) p \<subseteq># S (fst e)"
    obtain m n where mn: "e = (m, n)" by fastforce
    have n: "n = int (count_list new m)" using counts_entry [OF assms(3)] e mn by blast
    have o: "get0 oc m = int (count_list old m)" using assms(2) by (simp add: counts_ids_def)
    show "represents (mr_models (shift_step oc p e r)) (S(fst e := retag (?k (fst e)) p [] (S (fst e))))"
    proof (cases "?k m = 0")
      case True
      then have "shift_step oc p e r = r" using n o by (auto simp: shift_step_def mn Let_def min_def split: if_splits)
      with rep True show ?thesis by (simp add: mn retag_def)
    next
      case False
      then have step: "shift_step oc p e r = update_model m (release_provider p (int (?k m))) r"
        using n o by (auto simp: shift_step_def mn Let_def min_def split: if_splits)
      have "S m \<noteq> {#}" using sub False by (auto simp: mn)
      then show ?thesis unfolding step unfolding mn fst_conv
        by (intro update_rep [OF rep] release_rep represents_Some [OF rep]) (use sub False assms(4) mn in auto)
    qed
  qed
  then obtain S' where S': "represents (mr_models (fold (shift_step oc p) nc r)) S'"
    "\<And>m. m \<in> fst ` set nc \<Longrightarrow> S' m = retag (?k m) p [] (S m)" "\<And>m. m \<notin> fst ` set nc \<Longrightarrow> S' m = S m" by fastforce
  show ?thesis
  proof (rule rep_cong [OF S'(1)])
    fix m
    have "S' m = retag (?k m) p [] (S m)"
      using S'(2,3) [of m] assms(3) by (cases "m \<in> fst ` set nc") (auto simp: counts_ids_def retag_def count_list_0_iff)
    moreover have "replicate_mset (count_list old m) p = replicate_mset (count_list old m - ?k m) p + replicate_mset (?k m) p"
      by (simp flip: replicate_split)
    ultimately show "S' m = (let k = ?k m in R m + replicate_mset (count_list old m - k) p + replicate_mset k [])"
      unfolding retag_def assms(5) Let_def by (simp add: add.assoc)
  qed
qed

text \<open>The counts of the client before and after, and what it holds of a model while it is reconciled: \<open>tag\<close> is the
  old provider, or none once the model has been taken off it.\<close>

lemma removal_rep:
  assumes "represents (mr_models r) S" "counts_ids oc old" "counts_ids nc new"
    and "\<And>m. count_list new m = 0 \<Longrightarrow> S m = R m + replicate_mset (count_list old m) p"
  shows "represents (mr_models (fold (removal_step c nc p now) oc r)) (\<lambda>m. if count_list new m = 0 then R m else S m)"
proof -
  let ?g = "\<lambda>e B. if count_list new (fst e) = 0 then B - replicate_mset (count_list old (fst e)) p else B"
  have "\<exists>S'. represents (mr_models (fold (removal_step c nc p now) oc r)) S' \<and>
      (\<forall>e\<in>set oc. S' (fst e) = ?g e (S (fst e))) \<and> (\<forall>m. m \<notin> fst ` set oc \<longrightarrow> S' m = S m)"
  proof (rule fold_rep [where P = "\<lambda>e B. count_list new (fst e) = 0 \<longrightarrow> replicate_mset (count_list old (fst e)) p \<subseteq># B" and g = ?g])
    show "distinct (map fst oc)" using assms(2) by (simp add: counts_ids_def)
    show "represents (mr_models r) S" by (rule assms(1))
    show "\<forall>e\<in>set oc. count_list new (fst e) = 0 \<longrightarrow> replicate_mset (count_list old (fst e)) p \<subseteq># S (fst e)" using assms(4) by simp
    fix e and r :: model_registry and S
    assume e: "e \<in> set oc" and rep: "represents (mr_models r) S"
      and sub: "count_list new (fst e) = 0 \<longrightarrow> replicate_mset (count_list old (fst e)) p \<subseteq># S (fst e)"
    obtain m n where mn: "e = (m, n)" by fastforce
    have n: "n = int (count_list old m)" using counts_entry [OF assms(2)] e mn by blast
    have o: "get0 nc m = int (count_list new m)" using assms(3) by (simp add: counts_ids_def)
    show "represents (mr_models (removal_step c nc p now e r)) (S(fst e := ?g e (S (fst e))))"
      using remove_times_rep [OF rep, of "count_list old m" p m c now] sub rep by (auto simp: mn removal_step_def o n)
  qed
  then obtain S' where S': "represents (mr_models (fold (removal_step c nc p now) oc r)) S'"
    "\<And>m. m \<in> fst ` set oc \<Longrightarrow> S' m = ?g (m, 0 :: int) (S m)" "\<And>m. m \<notin> fst ` set oc \<Longrightarrow> S' m = S m" by fastforce
  show ?thesis
  proof (rule rep_cong [OF S'(1)])
    fix m show "S' m = (if count_list new m = 0 then R m else S m)"
    proof (cases "m \<in> set old")
      case True
      then show ?thesis using S'(2) [of m] assms(2,4) by (auto simp: counts_ids_def)
    next
      case False
      then have "count_list old m = 0" by (simp add: count_list_0_iff)
      then show ?thesis using S'(3) [of m] assms(2,4) False by (auto simp: counts_ids_def)
    qed
  qed
qed

lemma overage_rep:
  assumes "represents (mr_models r) S" "counts_ids oc old" "counts_ids nc new"
    and "\<And>m. 0 < count_list new m \<Longrightarrow> count_list new m < count_list old m \<Longrightarrow>
       S m = B m + replicate_mset (count_list old m - count_list new m) p"
  shows "represents (mr_models (fold (overage_step c nc p now) oc r))
    (\<lambda>m. if 0 < count_list new m \<and> count_list new m < count_list old m then B m else S m)"
proof -
  let ?c = "\<lambda>m. 0 < count_list new m \<and> count_list new m < count_list old m"
  let ?d = "\<lambda>m. count_list old m - count_list new m"
  let ?g = "\<lambda>e B. if ?c (fst e) then B - replicate_mset (?d (fst e)) p else B"
  have "\<exists>S'. represents (mr_models (fold (overage_step c nc p now) oc r)) S' \<and>
      (\<forall>e\<in>set oc. S' (fst e) = ?g e (S (fst e))) \<and> (\<forall>m. m \<notin> fst ` set oc \<longrightarrow> S' m = S m)"
  proof (rule fold_rep [where P = "\<lambda>e B. ?c (fst e) \<longrightarrow> replicate_mset (?d (fst e)) p \<subseteq># B" and g = ?g])
    show "distinct (map fst oc)" using assms(2) by (simp add: counts_ids_def)
    show "represents (mr_models r) S" by (rule assms(1))
    show "\<forall>e\<in>set oc. ?c (fst e) \<longrightarrow> replicate_mset (?d (fst e)) p \<subseteq># S (fst e)" using assms(4) by simp
    fix e and r :: model_registry and S
    assume e: "e \<in> set oc" and rep: "represents (mr_models r) S"
      and sub: "?c (fst e) \<longrightarrow> replicate_mset (?d (fst e)) p \<subseteq># S (fst e)"
    obtain m n where mn: "e = (m, n)" by fastforce
    have n: "n = int (count_list old m)" using counts_entry [OF assms(2)] e mn by blast
    have o: "get0 nc m = int (count_list new m)" using assms(3) by (simp add: counts_ids_def)
    show "represents (mr_models (overage_step c nc p now e r)) (S(fst e := ?g e (S (fst e))))"
    proof (cases "?c m")
      case True
      then have "overage_step c nc p now e r = remove_times (?d m) c m p now r"
        by (simp add: mn overage_step_def o n Let_def nat_diff_distrib)
      with remove_times_rep [OF rep, of "?d m" p m c now] sub True show ?thesis by (simp add: mn)
    next
      case False
      then have "overage_step c nc p now e r = r" by (auto simp: mn overage_step_def o n Let_def)
      with rep show ?thesis unfolding mn fst_conv if_not_P [OF False] by simp
    qed
  qed
  then obtain S' where S': "represents (mr_models (fold (overage_step c nc p now) oc r)) S'"
    "\<And>m. m \<in> fst ` set oc \<Longrightarrow> S' m = ?g (m, 0 :: int) (S m)" "\<And>m. m \<notin> fst ` set oc \<Longrightarrow> S' m = S m" by fastforce
  show ?thesis
  proof (rule rep_cong [OF S'(1)])
    fix m show "S' m = (if ?c m then B m else S m)"
    proof (cases "m \<in> set old")
      case True
      then show ?thesis using S'(2) [of m] assms(2,4) by (auto simp: counts_ids_def)
    next
      case False
      then have "count_list old m = 0" by (simp add: count_list_0_iff)
      then show ?thesis using S'(3) [of m] assms(2) False by (auto simp: counts_ids_def)
    qed
  qed
qed

lemma addition_rep:
  assumes "represents (mr_models r) S" "counts_ids oc old" "input_ok inp"
  shows "represents (mr_models (fold (addition_step oc (in_models inp) p now) (in_counts inp) r))
    (\<lambda>m. S m + replicate_mset (count_list (in_raw inp) m - count_list old m) p)"
proof -
  let ?d = "\<lambda>m. count_list (in_raw inp) m - count_list old m"
  let ?g = "\<lambda>e B. B + replicate_mset (?d (fst e)) p"
  have nc: "counts_ids (in_counts inp) (in_raw inp)" using assms(3) by (simp add: input_ok_def)
  have "\<exists>S'. represents (mr_models (fold (addition_step oc (in_models inp) p now) (in_counts inp) r)) S' \<and>
      (\<forall>e\<in>set (in_counts inp). S' (fst e) = ?g e (S (fst e))) \<and> (\<forall>m. m \<notin> fst ` set (in_counts inp) \<longrightarrow> S' m = S m)"
  proof (rule fold_rep [where P = "\<lambda>e B. True" and g = ?g])
    show "distinct (map fst (in_counts inp))" using nc by (simp add: counts_ids_def)
    show "represents (mr_models r) S" by (rule assms(1))
    fix e and r :: model_registry and S
    assume e: "e \<in> set (in_counts inp)" and rep: "represents (mr_models r) S"
    obtain m n where mn: "e = (m, n)" by fastforce
    have n: "n = int (count_list (in_raw inp) m)" "m \<in> set (in_raw inp)" using counts_entry [OF nc] e mn by blast+
    have o: "get0 oc m = int (count_list old m)" using assms(2) by (simp add: counts_ids_def)
    obtain info where info: "map_of (in_models inp) m = Some info"
      using n(2) assms(3) by (metis input_ok_def map_of_eq_None_iff not_None_eq)
    have m: "m \<noteq> []" using n(2) assms(3) by (auto simp: input_ok_def)
    show "represents (mr_models (addition_step oc (in_models inp) p now e r)) (S(fst e := ?g e (S (fst e))))"
    proof (cases "?d m = 0")
      case True
      then have "addition_step oc (in_models inp) p now e r = r" by (simp add: mn addition_step_def o n Let_def)
      with rep True show ?thesis by (simp add: mn)
    next
      case False
      then have "addition_step oc (in_models inp) p now e r = add_times (?d m) m p info now r"
        by (simp add: mn addition_step_def o n info Let_def nat_diff_distrib)
      with add_times_rep [OF rep m, of "?d m" p info now] show ?thesis by (simp add: mn)
    qed
  qed simp
  then obtain S' where S': "represents (mr_models (fold (addition_step oc (in_models inp) p now) (in_counts inp) r)) S'"
    "\<And>m. m \<in> fst ` set (in_counts inp) \<Longrightarrow> S' m = ?g (m, 0 :: int) (S m)"
    "\<And>m. m \<notin> fst ` set (in_counts inp) \<Longrightarrow> S' m = S m" by fastforce
  show ?thesis
  proof (rule rep_cong [OF S'(1)])
    fix m show "S' m = S m + replicate_mset (?d m) p"
      using S'(2,3) [of m] nc count_list_0_iff [of "in_raw inp" m]
      by (cases "m \<in> set (in_raw inp)") (auto simp: counts_ids_def)
  qed
qed

lemma refresh_registration_rep:
  assumes "reg_rep reg B" "p \<noteq> [] \<Longrightarrow> p \<in># (if sh then retag (min oldn newn) [] p B else B)" "0 < newn"
    and "sh \<Longrightarrow> p \<noteq> [] \<and> replicate_mset (min oldn newn) [] \<subseteq># B"
  shows "reg_rep (refresh_registration c p info now sh (int oldn) (int newn) reg) (if sh then retag (min oldn newn) [] p B else B)"
proof -
  let ?k = "min oldn newn"
  let ?B = "if sh then retag ?k [] p B else B"
  let ?base = "(if p \<noteq> [] then reg\<lparr>reg_Info := Some info, reg_InfoByProvider := map_put p info (reg_InfoByProvider reg)\<rparr>
     else reg\<lparr>reg_Info := Some info\<rparr>)"
  have infos: "has_key x (reg_InfoByProvider ?base) \<longleftrightarrow> x \<noteq> [] \<and> x \<in># ?B" for x
  proof -
    have "has_key x (reg_InfoByProvider ?base) \<longleftrightarrow> x \<noteq> [] \<and> (x \<in># B \<or> x = p)"
      using assms(1) by (auto simp: reg_rep_def)
    moreover have "x \<noteq> [] \<Longrightarrow> x \<noteq> p \<Longrightarrow> x \<in># ?B \<longleftrightarrow> x \<in># B"
      by (simp add: mem_retag_other)
    ultimately show ?thesis using assms(2) assms(4) by (cases "x = p") auto
  qed
  have shape: "refresh_registration c p info now sh (int oldn) (int newn) reg =
     (if \<not> sh \<or> ?k = 0 then forget_client c (?base\<lparr>reg_LastUpdated := now\<rparr>)
      else (forget_client c (?base\<lparr>reg_LastUpdated := now\<rparr>))\<lparr>reg_Providers := map_put p (get0 (reg_Providers reg) p + int ?k) (reg_Providers reg)\<rparr>)"
    using assms(3) by (auto simp: refresh_registration_def Let_def forget_client_def min_def)
  show ?thesis
  proof (cases "\<not> sh \<or> ?k = 0")
    case True
    then have B: "?B = B" by (auto simp: retag_def)
    have base: "reg_Providers ?base = reg_Providers reg" "reg_Count ?base = reg_Count reg" "reg_Info ?base = Some info" by simp_all
    show ?thesis unfolding shape if_P [OF True] B using assms(1) infos [unfolded B] unfolding reg_rep_def
      by (simp add: forget_client_def base del: map_of_eq_Some_iff split del: if_split)
  next
    case False
    then have sh: "sh" "0 < ?k" by simp_all
    have p: "p \<noteq> []" "replicate_mset ?k [] \<subseteq># B" using assms(4) sh by simp_all
    have size: "size (retag ?k [] p B) = size B" by (rule size_retag [OF p(2)])
    have ne: "retag ?k [] p B \<noteq> {#}" using size assms(1) by (auto simp: reg_rep_def)
    have prov: "map_of (map_put p (get0 (reg_Providers reg) p + int ?k) (reg_Providers reg)) x =
        (if x \<noteq> [] \<and> x \<in># retag ?k [] p B then Some (int (count (retag ?k [] p B) x)) else None)" for x
    proof (cases "x = p")
      case True
      have "get0 (reg_Providers reg) p = int (count B p)"
        using assms(1) p(1) by (auto simp: reg_rep_def get0_def not_in_iff)
      moreover have "p \<in># retag ?k [] p B" using assms(2) p(1) sh(1) by simp
      ultimately show ?thesis using True p(1) by (simp add: update_conv' count_retag)
    next
      case False
      have "x \<noteq> [] \<Longrightarrow> x \<in># retag ?k [] p B \<longleftrightarrow> x \<in># B"
        using False by (simp add: mem_retag_other)
      with False assms(1) show ?thesis by (auto simp: update_conv' count_retag reg_rep_def)
    qed
    have infos': "has_key x (reg_InfoByProvider ?base) \<longleftrightarrow> x \<noteq> [] \<and> x \<in># retag ?k [] p B" for x
      using infos [of x] sh(1) by simp
    show ?thesis unfolding shape if_not_P [OF False] if_P [OF sh(1)]
      using assms(1) p(1) size ne prov infos' unfolding reg_rep_def
      by (simp add: forget_client_def distinct_update del: map_of_eq_Some_iff)
  qed
qed

lemma refresh_rep:
  assumes "represents (mr_models r) S" "input_ok inp" "counts_ids oc old"
    and "\<And>m. m \<in> set (in_raw inp) \<Longrightarrow> S m \<noteq> {#}"
    and "\<And>m. m \<in> set (in_raw inp) \<Longrightarrow> ch \<Longrightarrow> p \<noteq> [] \<Longrightarrow> replicate_mset (min (count_list old m) (count_list (in_raw inp) m)) [] \<subseteq># S m"
    and "\<And>m. m \<in> set (in_raw inp) \<Longrightarrow> p \<noteq> [] \<Longrightarrow>
       p \<in># (if ch then retag (min (count_list old m) (count_list (in_raw inp) m)) [] p (S m) else S m)"
  shows "represents (mr_models (fold (refresh_step c p inp oc ch now) (in_unique inp) r))
    (\<lambda>m. if ch \<and> p \<noteq> [] then retag (min (count_list old m) (count_list (in_raw inp) m)) [] p (S m) else S m)"
proof -
  let ?k = "\<lambda>m. min (count_list old m) (count_list (in_raw inp) m)"
  let ?g = "\<lambda>m B. if ch \<and> p \<noteq> [] then retag (?k m) [] p B else B"
  let ?P = "\<lambda>m B. B \<noteq> {#} \<and> (ch \<and> p \<noteq> [] \<longrightarrow> replicate_mset (?k m) [] \<subseteq># B) \<and> (p \<noteq> [] \<longrightarrow> p \<in># ?g m B)"
  have u: "set (in_unique inp) = set (in_raw inp)" "distinct (in_unique inp)" using assms(2) by (simp_all add: input_ok_def)
  have "\<exists>S'. represents (mr_models (fold (refresh_step c p inp oc ch now) (in_unique inp) r)) S' \<and>
      (\<forall>m\<in>set (in_unique inp). S' m = ?g m (S m)) \<and> (\<forall>m. m \<notin> (\<lambda>m. m) ` set (in_unique inp) \<longrightarrow> S' m = S m)"
  proof (rule fold_rep [where key = "\<lambda>m. m" and P = ?P and g = ?g])
    show "distinct (map (\<lambda>m. m) (in_unique inp))" using u(2) by simp
    show "represents (mr_models r) S" by (rule assms(1))
    show "\<forall>m\<in>set (in_unique inp). ?P m (S m)" using assms(4,5,6) u(1) by (auto split: if_splits)
    fix m and r :: model_registry and S
    assume m: "m \<in> set (in_unique inp)" and rep: "represents (mr_models r) S" and P: "?P m (S m)"
    obtain info where info: "map_of (in_models inp) m = Some info"
      using m u(1) assms(2) by (metis input_ok_def map_of_eq_None_iff not_None_eq)
    have n: "get0 oc m = int (count_list old m)" "get0 (in_counts inp) m = int (count_list (in_raw inp) m)"
      using assms(2,3) by (simp_all add: input_ok_def counts_ids_def)
    have pos: "0 < count_list (in_raw inp) m" using m u(1) by (simp add: count_list_0_iff neq0_conv [symmetric] del: neq0_conv)
    have step: "refresh_step c p inp oc ch now m r = update_model m (refresh_registration c p info now (ch \<and> p \<noteq> [])
        (int (count_list old m)) (int (count_list (in_raw inp) m))) r"
      by (simp add: refresh_step_def info n)
    show "represents (mr_models (refresh_step c p inp oc ch now m r)) (S(m := ?g m (S m)))"
      unfolding step
      by (intro update_rep [OF rep] refresh_registration_rep represents_Some [OF rep]) (use P pos in auto)
  qed
  then obtain S' where S': "represents (mr_models (fold (refresh_step c p inp oc ch now) (in_unique inp) r)) S'"
    "\<And>m. m \<in> set (in_raw inp) \<Longrightarrow> S' m = ?g m (S m)" "\<And>m. m \<notin> set (in_raw inp) \<Longrightarrow> S' m = S m" using u(1) by auto
  show ?thesis
  proof (rule rep_cong [OF S'(1)])
    fix m show "S' m = ?g m (S m)"
      using S'(2,3) [of m] count_list_0_iff [of "in_raw inp" m]
      by (cases "m \<in> set (in_raw inp)") (auto simp: retag_def)
  qed
qed

lemma reconcile_rep:
  assumes "represents (mr_models r) S" "input_ok inp" "\<And>m. S m = R m + replicate_mset (count_list old m) p"
  shows "represents (mr_models (reconcile c q p old inp now r)) (\<lambda>m. R m + replicate_mset (count_list (in_raw inp) m) q)"
proof -
  define a where "a = count_list old"
  define b where "b = count_list (in_raw inp)"
  define k where "k m = min (a m) (b m)" for m
  define tag where "tag = (if p \<noteq> q \<and> p \<noteq> [] then [] else p)"
  have oc: "counts_ids (count_ids old) old" by (rule count_ids_counts)
  have nc: "counts_ids (in_counts inp) (in_raw inp)" using assms(2) by (simp add: input_ok_def)
  have split: "replicate_mset (a m) x = replicate_mset (a m - k m) x + replicate_mset (k m) x" for m x
    by (simp add: k_def flip: replicate_split)
  define r1 where "r1 = (if p \<noteq> q \<and> p \<noteq> [] then fold (shift_step (count_ids old) p) (in_counts inp) r else r)"
  have 1: "represents (mr_models r1) (\<lambda>m. R m + replicate_mset (a m - k m) p + replicate_mset (k m) tag)"
  proof (cases "p \<noteq> q \<and> p \<noteq> []")
    case True
    with shift_rep [OF assms(1) oc nc _ assms(3)] show ?thesis by (simp add: r1_def tag_def a_def b_def k_def Let_def)
  next
    case False
    have eq: "S m = R m + replicate_mset (a m - k m) p + replicate_mset (k m) tag" for m
      using split [of m p] unfolding assms(3) a_def [symmetric] tag_def if_not_P [OF False] by (simp add: add.assoc)
    show ?thesis unfolding r1_def if_not_P [OF False] by (rule rep_cong [OF assms(1)]) (rule eq)
  qed
  define r2 where "r2 = fold (removal_step c (in_counts inp) p now) (count_ids old) r1"
  have "R m + replicate_mset (a m - k m) p + replicate_mset (k m) tag = R m + replicate_mset (count_list old m) p"
    if "count_list (in_raw inp) m = 0" for m using that by (simp add: k_def a_def b_def)
  from removal_rep [OF 1 oc nc this, where c = c and now = now]
  have 2: "represents (mr_models r2) (\<lambda>m. if b m = 0 then R m else R m + replicate_mset (a m - k m) p + replicate_mset (k m) tag)"
    unfolding r2_def b_def [symmetric] by simp
  define r3 where "r3 = fold (overage_step c (in_counts inp) p now) (count_ids old) r2"
  have "(if b m = 0 then R m else R m + replicate_mset (a m - k m) p + replicate_mset (k m) tag) =
      (R m + replicate_mset (k m) tag) + replicate_mset (count_list old m - count_list (in_raw inp) m) p"
    if "0 < count_list (in_raw inp) m" "count_list (in_raw inp) m < count_list old m" for m
    using that unfolding a_def [symmetric] b_def [symmetric] by (simp add: k_def add.commute add.left_commute)
  from overage_rep [OF 2 oc nc this, where c = c and now = now]
  have "represents (mr_models r3) (\<lambda>m. if 0 < b m \<and> b m < a m then R m + replicate_mset (k m) tag
      else if b m = 0 then R m else R m + replicate_mset (a m - k m) p + replicate_mset (k m) tag)"
    unfolding r3_def a_def [symmetric] b_def [symmetric] by simp
  then have 3: "represents (mr_models r3) (\<lambda>m. R m + replicate_mset (k m) tag)"
    by (rule rep_cong) (auto simp: k_def)
  define r4 where "r4 = fold (addition_step (count_ids old) (in_models inp) q now) (in_counts inp) r3"
  have 4: "represents (mr_models r4) (\<lambda>m. R m + replicate_mset (k m) tag + replicate_mset (b m - a m) q)"
    using addition_rep [OF 3 oc assms(2), of q now] unfolding r4_def a_def b_def .
  define r5 where "r5 = fold (refresh_step c q inp (count_ids old) (p \<noteq> q) now) (in_unique inp) r4"
  have kb: "k m + (b m - a m) = b m" for m by (simp add: k_def)
  have tags: "p \<noteq> q \<and> q \<noteq> [] \<Longrightarrow> tag = []" "\<not> (p \<noteq> q \<and> q \<noteq> []) \<Longrightarrow> tag = q" by (auto simp: tag_def)
  have final: "(if p \<noteq> q \<and> q \<noteq> [] then retag (k m) [] q (R m + replicate_mset (k m) tag + replicate_mset (b m - a m) q)
      else R m + replicate_mset (k m) tag + replicate_mset (b m - a m) q) = R m + replicate_mset (b m) q" for m
  proof -
    have "replicate_mset (b m) q = replicate_mset (k m) q + replicate_mset (b m - a m) q" by (simp add: kb flip: replicate_split)
    then show ?thesis using tags by (simp add: retag_def ac_simps)
  qed
  have mem: "q \<in># R m + replicate_mset (b m) q" if "m \<in> set (in_raw inp)" for m
    using that count_list_0_iff [of "in_raw inp" m] by (simp add: b_def)
  have 5: "represents (mr_models r5) (\<lambda>m. if p \<noteq> q \<and> q \<noteq> []
      then retag (min (count_list old m) (count_list (in_raw inp) m)) [] q (R m + replicate_mset (k m) tag + replicate_mset (b m - a m) q)
      else R m + replicate_mset (k m) tag + replicate_mset (b m - a m) q)"
    unfolding r5_def
  proof (rule refresh_rep [OF 4 assms(2) oc])
    fix m assume m: "m \<in> set (in_raw inp)"
    have "0 < b m" using m count_list_0_iff [of "in_raw inp" m] by (simp add: b_def)
    then have "0 < k m + (b m - a m)" by (simp only: kb)
    then show "R m + replicate_mset (k m) tag + replicate_mset (b m - a m) q \<noteq> {#}" by auto
    show "replicate_mset (min (count_list old m) (count_list (in_raw inp) m)) [] \<subseteq># R m + replicate_mset (k m) tag + replicate_mset (b m - a m) q"
      if "p \<noteq> q" "q \<noteq> []" using tags(1) that unfolding a_def [symmetric] b_def [symmetric] k_def [symmetric] by simp
    show "q \<in># (if p \<noteq> q then retag (min (count_list old m) (count_list (in_raw inp) m)) [] q
        (R m + replicate_mset (k m) tag + replicate_mset (b m - a m) q) else R m + replicate_mset (k m) tag + replicate_mset (b m - a m) q)"
      if "q \<noteq> []" using mem [OF m] final [of m] that unfolding a_def [symmetric] b_def [symmetric] k_def [symmetric] by simp
  qed
  then have "represents (mr_models r5) (\<lambda>m. R m + replicate_mset (b m) q)"
    by (rule rep_cong) (use final in \<open>simp only: a_def b_def k_def\<close>)
  moreover have "reconcile c q p old inp now r = r5"
    unfolding reconcile_def Let_def r5_def r4_def r3_def r2_def r1_def by (rule refl)
  ultimately show ?thesis by (simp add: b_def)
qed

section \<open>Unregistering a client\<close>

lemma unregister_rep:
  assumes "represents (mr_models r) S" "\<And>m. S m = R m + replicate_mset (count_list ids m) (case p of None \<Rightarrow> [] | Some x \<Rightarrow> x)" "p \<noteq> Some []"
  shows "represents (mr_models (unregister_models c p now ids r)) R"
  using assms
proof (induction c p now ids r arbitrary: S rule: unregister_models.induct)
  case (1 c p now r)
  then show ?case by (auto intro: rep_cong)
next
  case (2 c p now i ids r)
  let ?p = "case p of None \<Rightarrow> [] | Some x \<Rightarrow> x"
  let ?r = "case map_of (mr_models r) i of
          None \<Rightarrow> r
        | Some registration \<Rightarrow>
            (let reg = forget_client c (registration\<lparr>reg_Count := reg_Count registration - 1, reg_LastUpdated := now\<rparr>);
                 reg = (case p of None \<Rightarrow> reg | Some p \<Rightarrow> release_provider p 1 reg)
             in put_or_drop i reg r)"
  have mem: "?p \<in># S i" using "2.prems"(2) [of i] by simp
  have ne: "S i \<noteq> {#}" using mem by auto
  obtain reg where reg: "map_of (mr_models r) i = Some reg" using represents_registered [OF "2.prems"(1) ne] by blast
  have pos: "1 \<le> reg_Count reg" using represents_Some [OF "2.prems"(1) reg] ne by (auto simp: reg_rep_def nonempty_has_size Suc_leI)
  have "?r = removeModelRegistration c i ?p now r"
    using pos "2.prems"(3) by (simp add: removeModelRegistration_def reg Let_def forget_client_def split: option.split)
  with remove_rep [OF "2.prems"(1) mem, of c now] have r: "represents (mr_models ?r) (S(i := S i - {#?p#}))" by simp
  have "(S(i := S i - {#?p#})) m = R m + replicate_mset (count_list ids m) ?p" for m using "2.prems"(2) [of m] by (cases "m = i") simp_all
  from "2.IH" [OF r this "2.prems"(3)] show ?case by simp
qed

lemma unregister_same: "same_clients r (unregister_models c p now ids r)"
proof (induction c p now ids r rule: unregister_models.induct)
  case (2 c p now i ids r)
  let ?r = "case map_of (mr_models r) i of
          None \<Rightarrow> r
        | Some registration \<Rightarrow>
            (let reg = forget_client c (registration\<lparr>reg_Count := reg_Count registration - 1, reg_LastUpdated := now\<rparr>);
                 reg = (case p of None \<Rightarrow> reg | Some p \<Rightarrow> release_provider p 1 reg)
             in put_or_drop i reg r)"
  have "same_clients r ?r" by (simp add: same_clients_def put_or_drop_def Let_def split: option.split)
  from same_clients_trans [OF this "2.IH"] show ?case by simp
qed simp

section \<open>The registry as a whole\<close>

text \<open>The provider of a client, and the suppliers of a model over all clients.\<close>

definition client_provider :: "model_registry \<Rightarrow> string \<Rightarrow> string" where
  "client_provider r c = (case map_of (mr_clientProviders r) c of None \<Rightarrow> [] | Some p \<Rightarrow> p)"

definition supplied_by :: "(string \<Rightarrow> string) \<Rightarrow> (string \<times> string list) list \<Rightarrow> string \<Rightarrow> string multiset" where
  "supplied_by prov cms m = sum_list (map (\<lambda>(c, ids). replicate_mset (count_list ids m) (prov c)) cms)"

definition suppliers :: "model_registry \<Rightarrow> string \<Rightarrow> string multiset" where
  "suppliers r = supplied_by (client_provider r) (mr_clientModels r)"

lemma supplied_del:
  "wf_map cms \<Longrightarrow> supplied_by prov cms m =
     supplied_by prov (map_del c cms) m + replicate_mset (count_list (case map_of cms c of None \<Rightarrow> [] | Some ids \<Rightarrow> ids) m) (prov c)"
proof (induction cms)
  case (Cons e cms)
  obtain d ids where e: "e = (d, ids)" by fastforce
  show ?case
  proof (cases "d = c")
    case True
    then have "c \<notin> fst ` set cms" using Cons.prems by (simp add: e)
    then have "map_del c cms = cms" by (auto simp: AList.delete_eq filter_id_conv image_iff)
    then show ?thesis using True by (simp add: e supplied_by_def add.commute)
  next
    case False
    then show ?thesis using Cons by (simp add: e supplied_by_def add.assoc)
  qed
qed (simp add: supplied_by_def)

lemma supplied_cong:
  "(\<And>c. c \<in> fst ` set cms \<Longrightarrow> prov c = prov' c) \<Longrightarrow> supplied_by prov cms m = supplied_by prov' cms m"
  unfolding supplied_by_def by (intro arg_cong [where f = sum_list] map_cong refl) (force split: prod.split)

lemma del_del: "map_del k (map_del k m) = map_del k m"
  by (simp add: AList.delete_eq)

lemma del_put: "map_del k (map_put k v m) = map_del k m"
  by (induction m) auto

lemma supplied_put:
  assumes "wf_map cms"
  shows "supplied_by prov (map_put c ids cms) m = supplied_by prov (map_del c cms) m + replicate_mset (count_list ids m) (prov c)"
  using supplied_del [of "map_put c ids cms" prov m c] assms by (simp add: del_put distinct_update update_conv')

definition registry_ok :: "model_registry \<Rightarrow> bool" where
  "registry_ok r \<longleftrightarrow> wf_map (mr_clientModels r) \<and> represents (mr_models r) (suppliers r) \<and>
     [] \<notin> ran (map_of (mr_clientProviders r)) \<and> (\<forall>c ids. map_of (mr_clientModels r) c = Some ids \<longrightarrow> ids \<noteq> [] \<and> [] \<notin> set ids)"

lemma registry_ok_cong:
  assumes "registry_ok r" "same_clients r r'" "represents (mr_models r') (suppliers r)"
  shows "registry_ok r'"
  using assms unfolding registry_ok_def same_clients_def suppliers_def client_provider_def by simp

lemma registry_ok_fields:
  assumes "mr_models r' = mr_models r" "mr_clientModels r' = mr_clientModels r" "mr_clientProviders r' = mr_clientProviders r"
  shows "registry_ok r' = registry_ok r"
proof -
  have "client_provider r' = client_provider r" by (simp add: fun_eq_iff client_provider_def assms(3))
  then show ?thesis by (simp add: registry_ok_def suppliers_def assms)
qed

lemma invalidate_ok [simp]: "registry_ok (invalidateAvailableModelsCacheLocked r) = registry_ok r"
  by (rule registry_ok_fields) (simp_all add: invalidateAvailableModelsCacheLocked_def)

lemma empty_ok: "registry_ok empty_registry"
  by (simp add: registry_ok_def empty_registry_def represents_def suppliers_def supplied_by_def)

text \<open>What the other clients supply.\<close>

definition others :: "string \<Rightarrow> model_registry \<Rightarrow> string \<Rightarrow> string multiset" where
  "others c r = supplied_by (client_provider r) (map_del c (mr_clientModels r))"

lemma suppliers_split:
  "registry_ok r \<Longrightarrow> suppliers r m = others c r m +
     replicate_mset (count_list (case map_of (mr_clientModels r) c of None \<Rightarrow> [] | Some ids \<Rightarrow> ids) m) (client_provider r c)"
  unfolding suppliers_def others_def registry_ok_def using supplied_del by blast

lemma record_client_ok:
  assumes "registry_ok r" "same_clients r r'" "input_ok inp" "in_raw inp \<noteq> []"
    and "represents (mr_models r') (\<lambda>m. others c r m + replicate_mset (count_list (in_raw inp) m) p)"
  shows "registry_ok (record_client c p inp r')"
proof -
  let ?r = "record_client c p inp r'"
  have f: "mr_clientModels r' = mr_clientModels r" "mr_clientProviders r' = mr_clientProviders r"
    using assms(2) by (simp_all add: same_clients_def)
  have wf: "wf_map (mr_clientModels r)" using assms(1) by (simp add: registry_ok_def)
  have prov: "client_provider ?r x = (if x = c then p else client_provider r x)" for x
    by (simp add: client_provider_def record_client_def f update_conv' delete_conv')
  have "suppliers ?r m = others c r m + replicate_mset (count_list (in_raw inp) m) p" for m
  proof -
    have "supplied_by (client_provider ?r) (map_del c (mr_clientModels r)) m = others c r m"
      unfolding others_def by (rule supplied_cong) (auto simp: prov AList.delete_eq)
    then show ?thesis using supplied_put [OF wf, of "client_provider ?r" c "in_raw inp" m]
      by (simp add: suppliers_def prov) (simp add: record_client_def f)
  qed
  then have "represents (mr_models ?r) (suppliers ?r)"
    using rep_cong [OF assms(5)] by (simp add: record_client_def)
  moreover have "[] \<notin> ran (map_of (mr_clientProviders ?r))"
    using assms(1) by (auto simp: registry_ok_def record_client_def f update_conv' delete_conv' ran_def split: if_splits)
  moreover have "wf_map (mr_clientModels ?r)" using wf by (simp add: record_client_def f distinct_update)
  moreover have "\<forall>x ids. map_of (mr_clientModels ?r) x = Some ids \<longrightarrow> ids \<noteq> [] \<and> [] \<notin> set ids"
    using assms(1,3,4) by (auto simp: registry_ok_def record_client_def f update_conv' input_ok_def)
  ultimately show ?thesis by (simp add: registry_ok_def)
qed

lemma unregister_ok:
  assumes "registry_ok r"
  shows "registry_ok (fst (unregisterClientInternal now c r))"
    and "mr_clientModels (fst (unregisterClientInternal now c r)) = map_del c (mr_clientModels r)"
    and "mr_clientProviders (fst (unregisterClientInternal now c r)) = map_del c (mr_clientProviders r)"
proof -
  let ?r = "fst (unregisterClientInternal now c r)"
  have same: "mr_clientModels (unregister_models c p now ids r) = mr_clientModels r"
    "mr_clientProviders (unregister_models c p now ids r) = mr_clientProviders r" for p ids
    using unregister_same by (simp_all add: same_clients_def)
  show cm: "mr_clientModels ?r = map_del c (mr_clientModels r)"
  proof (cases "map_of (mr_clientModels r) c")
    case None
    then have "map_del c (mr_clientModels r) = mr_clientModels r"
      by (auto simp: map_of_eq_None_iff AList.delete_eq filter_id_conv image_iff)
    with None show ?thesis by (simp add: unregisterClientInternal_def)
  next
    case (Some ids)
    then show ?thesis by (simp add: unregisterClientInternal_def Let_def same)
  qed
  show cp: "mr_clientProviders ?r = map_del c (mr_clientProviders r)"
    by (simp add: unregisterClientInternal_def Let_def same split: option.split)
  have wf: "wf_map (mr_clientModels r)" using assms by (simp add: registry_ok_def)
  have prov: "client_provider ?r x = (if x = c then [] else client_provider r x)" for x
    by (simp add: client_provider_def cp delete_conv')
  have sup: "suppliers ?r m = others c r m" for m
    unfolding suppliers_def others_def cm by (rule supplied_cong) (auto simp: prov AList.delete_eq)
  have "represents (mr_models ?r) (others c r)"
  proof (cases "map_of (mr_clientModels r) c")
    case None
    then have "suppliers r m = others c r m" for m using suppliers_split [OF assms, of m c] by simp
    with rep_cong [of "mr_models r" "suppliers r"] assms None show ?thesis
      by (simp add: unregisterClientInternal_def registry_ok_def)
  next
    case (Some ids)
    have ne: "map_of (mr_clientProviders r) c \<noteq> Some []" using assms by (auto simp: registry_ok_def ran_def)
    have "represents (mr_models r) (suppliers r)" using assms by (simp add: registry_ok_def)
    from unregister_rep [OF this _ ne, of "others c r" ids c now] suppliers_split [OF assms, of _ c] Some show ?thesis
      by (simp add: unregisterClientInternal_def Let_def client_provider_def)
  qed
  then have "represents (mr_models ?r) (suppliers ?r)" by (rule rep_cong) (simp add: sup)
  then show "registry_ok ?r"
    using assms by (auto simp: registry_ok_def cm cp distinct_delete delete_conv' ran_def split: if_splits)
qed

lemma unregister_maps:
  "map_of (mr_clientModels (fst (unregisterClientInternal now c r))) x = (if x = c then None else map_of (mr_clientModels r) x)"
  "map_of (mr_clientProviders (fst (unregisterClientInternal now c r))) x = (if x = c then None else map_of (mr_clientProviders r) x)"
proof -
  have same: "mr_clientModels (unregister_models c p now ids r) = mr_clientModels r"
    "mr_clientProviders (unregister_models c p now ids r) = mr_clientProviders r" for p ids
    using unregister_same by (simp_all add: same_clients_def)
  show "map_of (mr_clientModels (fst (unregisterClientInternal now c r))) x = (if x = c then None else map_of (mr_clientModels r) x)"
    "map_of (mr_clientProviders (fst (unregisterClientInternal now c r))) x = (if x = c then None else map_of (mr_clientProviders r) x)"
    by (simp_all add: unregisterClientInternal_def Let_def same delete_conv' split: option.split)
qed

lemma register_ok:
  assumes "registry_ok r"
  shows "registry_ok (fst (RegisterClient now c prov infos r))"
proof -
  let ?inp = "model_inputs infos" and ?p = "to_lower prov"
  have inp: "input_ok ?inp" by (rule model_inputs_ok)
  have rep: "represents (mr_models r) (suppliers r)" using assms by (simp add: registry_ok_def)
  show ?thesis
  proof (cases "in_unique ?inp = []")
    case True
    obtain r1 ev where un: "unregisterClientInternal now c r = (r1, ev)" by fastforce
    have r1: "registry_ok r1" "mr_clientModels r1 = map_del c (mr_clientModels r)" "mr_clientProviders r1 = map_del c (mr_clientProviders r)"
      using unregister_ok [OF assms, of now c] by (simp_all add: un)
    have "registry_ok (r1\<lparr>mr_clientModels := map_del c (mr_clientModels r1), mr_clientModelInfos := i,
        mr_clientProviders := map_del c (mr_clientProviders r1)\<rparr>) = registry_ok r1" for i
      by (intro registry_ok_fields) (simp_all add: r1(2,3) del_del)
    then show ?thesis using True r1(1) by (simp add: RegisterClient_def un Let_def)
  next
    case False
    then have raw: "in_raw ?inp \<noteq> []" using inp by (auto simp: input_ok_def)
    define r1 where "r1 = (case map_of (mr_clientModels r) c of None \<Rightarrow> register_new ?p ?inp now r
       | Some old \<Rightarrow> reconcile c ?p (client_provider r c) old ?inp now r)"
    have "represents (mr_models r1) (\<lambda>m. others c r m + replicate_mset (count_list (in_raw ?inp) m) ?p) \<and> same_clients r r1"
    proof (cases "map_of (mr_clientModels r) c")
      case None
      have "represents (mr_models r) (others c r)"
        by (rule rep_cong [OF rep]) (use suppliers_split [OF assms, of _ c] None in simp)
      from register_new_rep [OF this inp, of ?p now] None show ?thesis
        by (auto simp: r1_def register_new_def intro!: same_clients_fold same_clients_add split: option.split)
    next
      case (Some old)
      have "suppliers r m = others c r m + replicate_mset (count_list old m) (client_provider r c)" for m
        using suppliers_split [OF assms, of m c] Some by simp
      from reconcile_rep [OF rep inp this, of c ?p now] Some reconcile_same show ?thesis by (simp add: r1_def)
    qed
    then have "registry_ok (record_client c ?p ?inp r1)" by (intro record_client_ok [OF assms _ inp raw]) simp_all
    then show ?thesis using False unfolding RegisterClient_def Let_def r1_def client_provider_def by simp
  qed
qed

lemma update_reg_ok:
  assumes "registry_ok r" "\<And>reg. map_of (mr_models r) m = Some reg \<Longrightarrow> reg_rep (f reg) (suppliers r m)"
  shows "registry_ok (update_model m f r)"
proof (rule registry_ok_cong [OF assms(1) same_clients_update])
  have rep: "represents (mr_models r) (suppliers r)" using assms(1) by (simp add: registry_ok_def)
  show "represents (mr_models (update_model m f r)) (suppliers r)"
  proof (cases "map_of (mr_models r) m")
    case None
    with rep show ?thesis by (simp add: update_model_def)
  next
    case (Some reg)
    with represents_put [OF rep assms(2) [OF Some], of m] show ?thesis by (simp add: update_model_def)
  qed
qed

lemma mark_fields_ok:
  assumes "registry_ok r"
  shows "registry_ok (update_model m (\<lambda>reg. reg\<lparr>reg_QuotaExceededClients := q reg\<rparr>) r)"
    and "registry_ok (update_model m (\<lambda>reg. reg\<lparr>reg_SuspendedClients := s reg, reg_LastUpdated := now\<rparr>) r)"
proof -
  have rep: "map_of (mr_models r) m = Some reg \<Longrightarrow> reg_rep reg (suppliers r m)" for reg
    using assms represents_Some by (auto simp: registry_ok_def)
  show "registry_ok (update_model m (\<lambda>reg. reg\<lparr>reg_QuotaExceededClients := q reg\<rparr>) r)"
    by (rule update_reg_ok [OF assms]) (use rep in \<open>simp add: reg_rep_def\<close>)
  show "registry_ok (update_model m (\<lambda>reg. reg\<lparr>reg_SuspendedClients := s reg, reg_LastUpdated := now\<rparr>) r)"
    by (rule update_reg_ok [OF assms]) (use rep in \<open>simp add: reg_rep_def\<close>)
qed

lemma cleanup_ok: "registry_ok r \<Longrightarrow> registry_ok (CleanupExpiredQuotas now r)"
proof -
  assume r: "registry_ok r"
  let ?f = "\<lambda>reg. reg\<lparr>reg_QuotaExceededClients := map_keep (\<lambda>c q. \<not> quota_expired now q) (reg_QuotaExceededClients reg)\<rparr>"
  let ?ms = "map (\<lambda>(m, reg). (m, ?f reg)) (mr_models r)"
  have look: "map_of ?ms m = map_option ?f (map_of (mr_models r) m)" for m by (induction "mr_models r") (auto simp: map_of_map)
  have fst: "map fst ?ms = map fst (mr_models r)" by (induction "mr_models r") auto
  have rep: "represents (mr_models r) (suppliers r)" using r by (simp add: registry_ok_def)
  have "reg_rep (?f reg) B" if "reg_rep reg B" for reg B using that by (simp add: reg_rep_def)
  then have "represents ?ms (suppliers r)" using rep unfolding represents_def fst look by auto
  then have "registry_ok (r\<lparr>mr_models := ?ms\<rparr>)" by (intro registry_ok_cong [OF r]) (simp_all add: same_clients_def)
  then show ?thesis by (simp add: CleanupExpiredQuotas_def Let_def)
qed

lemma available_fields:
  "mr_models (snd (GetAvailableModels h now r)) = mr_models r" "mr_clientModels (snd (GetAvailableModels h now r)) = mr_clientModels r"
  "mr_clientProviders (snd (GetAvailableModels h now r)) = mr_clientProviders r"
  by (simp_all add: GetAvailableModels_def split: option.split prod.split)

text \<open>The operations of the registry.\<close>

datatype registry_op =
    OpRegister gotime string string "ModelInfo option list"
  | OpUnregister gotime string
  | OpSetQuota gotime string string
  | OpClearQuota string string
  | OpSuspend gotime string string string
  | OpResume gotime string string
  | OpCleanup gotime
  | OpGetAvailable gotime string
  | OpSetHook bool

fun registry_step :: "registry_op \<Rightarrow> model_registry \<Rightarrow> model_registry" where
  "registry_step (OpRegister now c p infos) r = fst (RegisterClient now c p infos r)"
| "registry_step (OpUnregister now c) r = fst (UnregisterClient now c r)"
| "registry_step (OpSetQuota now c m) r = SetModelQuotaExceeded now c m r"
| "registry_step (OpClearQuota c m) r = ClearModelQuotaExceeded c m r"
| "registry_step (OpSuspend now c m reason) r = SuspendClientModel now c m reason r"
| "registry_step (OpResume now c m) r = ResumeClientModel now c m r"
| "registry_step (OpCleanup now) r = CleanupExpiredQuotas now r"
| "registry_step (OpGetAvailable now h) r = snd (GetAvailableModels h now r)"
| "registry_step (OpSetHook b) r = SetHook b r"

lemma registry_step_ok: "registry_ok r \<Longrightarrow> registry_ok (registry_step op r)"
proof (cases op)
  case (OpUnregister now c)
  then show "registry_ok r \<Longrightarrow> registry_ok (registry_step op r)"
    using unregister_ok(1) [of r now c] by (cases "unregisterClientInternal now c r") (simp add: UnregisterClient_def)
next
  case (OpGetAvailable now h)
  have "registry_ok (snd (GetAvailableModels h now r)) = registry_ok r" by (rule registry_ok_fields) (simp_all add: available_fields)
  with OpGetAvailable show "registry_ok r \<Longrightarrow> registry_ok (registry_step op r)" by simp
next
  case (OpSetHook b)
  have "registry_ok (SetHook b r) = registry_ok r" by (rule registry_ok_fields) (simp_all add: SetHook_def)
  with OpSetHook show "registry_ok r \<Longrightarrow> registry_ok (registry_step op r)" by simp
qed (auto simp: register_ok cleanup_ok SetModelQuotaExceeded_def ClearModelQuotaExceeded_def SuspendClientModel_def ResumeClientModel_def
    intro: mark_fields_ok split: option.split)

interpretation reg: machine empty_registry registry_step registry_ok
  by unfold_locales (rule empty_ok, rule registry_step_ok)

section \<open>The clients as the specification\<close>

text \<open>The registry as a map from clients to their provider and model identifiers.\<close>

definition registry_clients :: "model_registry \<Rightarrow> string \<Rightarrow> (string \<times> string list) option" where
  "registry_clients r c = map_option (\<lambda>ids. (client_provider r c, ids)) (map_of (mr_clientModels r) c)"

fun clients_step :: "registry_op \<Rightarrow> (string \<Rightarrow> (string \<times> string list) option) \<Rightarrow> string \<Rightarrow> (string \<times> string list) option" where
  "clients_step (OpRegister now c p infos) m =
     (let ids = filter (\<lambda>i. i \<noteq> []) (map mi_ID (concat (map (\<lambda>i. case i of None \<Rightarrow> [] | Some x \<Rightarrow> [x]) infos)))
      in m(c := (if ids = [] then None else Some (to_lower p, ids))))"
| "clients_step (OpUnregister now c) m = m(c := None)"
| "clients_step op m = m"

lemma raw_ids:
  "in_raw (model_inputs infos) = filter (\<lambda>i. i \<noteq> []) (map mi_ID (concat (map (\<lambda>i. case i of None \<Rightarrow> [] | Some x \<Rightarrow> [x]) infos)))"
proof -
  have "in_raw (collect_models infos acc) = in_raw acc @ filter (\<lambda>i. i \<noteq> []) (map mi_ID (concat (map (\<lambda>i. case i of None \<Rightarrow> [] | Some x \<Rightarrow> [x]) infos)))" for acc
    by (induction infos acc rule: collect_models.induct) (auto simp: Let_def split: option.split)
  from this [of "\<lparr>in_unique = [], in_raw = [], in_models = [], in_counts = []\<rparr>"] show ?thesis by (simp add: model_inputs_def)
qed

lemma register_clients:
  "registry_clients (fst (RegisterClient now c p infos r)) = clients_step (OpRegister now c p infos) (registry_clients r)"
proof -
  have empty: "in_raw (model_inputs infos) = [] \<longleftrightarrow> in_unique (model_inputs infos) = []"
    using model_inputs_ok [of infos] by (auto simp: input_ok_def)
  show ?thesis
  proof (cases "in_unique (model_inputs infos) = []")
    case True
    obtain r1 ev where un: "unregisterClientInternal now c r = (r1, ev)" by fastforce
    note M = unregister_maps [of now c r, unfolded un fst_conv]
    have cm: "map_of (mr_clientModels (fst (RegisterClient now c p infos r))) x = (if x = c then None else map_of (mr_clientModels r) x)" for x
      using True M by (simp add: RegisterClient_def Let_def invalidateAvailableModelsCacheLocked_def delete_conv' un)
    have cp: "x \<noteq> c \<Longrightarrow> client_provider (fst (RegisterClient now c p infos r)) x = client_provider r x" for x
      using True M by (simp add: RegisterClient_def Let_def invalidateAvailableModelsCacheLocked_def client_provider_def delete_conv' un)
    show ?thesis using True empty cp by (auto simp: registry_clients_def cm raw_ids Let_def fun_eq_iff)
  next
    case False
    define r1 where "r1 = (case map_of (mr_clientModels r) c of None \<Rightarrow> register_new (to_lower p) (model_inputs infos) now r
       | Some old \<Rightarrow> reconcile c (to_lower p) (client_provider r c) old (model_inputs infos) now r)"
    have same: "same_clients r r1"
      unfolding r1_def register_new_def using reconcile_same
      by (auto intro!: same_clients_fold same_clients_add split: option.split)
    have r: "fst (RegisterClient now c p infos r) = invalidateAvailableModelsCacheLocked (record_client c (to_lower p) (model_inputs infos) r1)"
      using False unfolding RegisterClient_def Let_def r1_def client_provider_def by simp
    have "map_of (mr_clientModels (fst (RegisterClient now c p infos r))) x = (if x = c then Some (in_raw (model_inputs infos)) else map_of (mr_clientModels r) x)"
      "client_provider (fst (RegisterClient now c p infos r)) x = (if x = c then to_lower p else client_provider r x)" for x
      using same unfolding r by (simp_all add: same_clients_def record_client_def invalidateAvailableModelsCacheLocked_def update_conv' delete_conv' client_provider_def)
    then show ?thesis using False empty by (auto simp: registry_clients_def raw_ids [symmetric] Let_def fun_eq_iff)
  qed
qed

lemma clients_refine: "registry_clients (registry_step op r) = clients_step op (registry_clients r)"
proof (cases op)
  case (OpRegister now c p infos)
  then show ?thesis using register_clients by simp
next
  case (OpUnregister now c)
  then show ?thesis using unregister_maps [of now c r]
    by (auto simp: UnregisterClient_def invalidateAvailableModelsCacheLocked_def registry_clients_def client_provider_def delete_conv' fun_eq_iff split: prod.split)
next
  case (OpGetAvailable now h)
  then show ?thesis by (simp add: registry_clients_def client_provider_def available_fields fun_eq_iff)
qed (simp_all add: registry_clients_def client_provider_def fun_eq_iff SetHook_def CleanupExpiredQuotas_def Let_def SetModelQuotaExceeded_def
    ClearModelQuotaExceeded_def SuspendClientModel_def ResumeClientModel_def invalidateAvailableModelsCacheLocked_def update_model_def split: option.split)

lemma suppliers_member:
  assumes "wf_map (mr_clientModels r)"
  shows "p \<in># suppliers r m \<longleftrightarrow> (\<exists>c ids. registry_clients r c = Some (p, ids) \<and> m \<in> set ids)"
proof -
  have M: "p \<in># supplied_by prov cms m \<longleftrightarrow> (\<exists>(c, ids)\<in>set cms. prov c = p \<and> m \<in> set ids)" for prov cms
  proof (induction cms)
    case (Cons e cms)
    obtain c ids where e: "e = (c, ids)" by fastforce
    have "supplied_by prov (e # cms) m = replicate_mset (count_list ids m) (prov c) + supplied_by prov cms m"
      by (simp add: supplied_by_def e)
    with Cons count_list_0_iff [of ids m] show ?case by (auto simp: e)
  qed (simp add: supplied_by_def)
  have "p \<in># suppliers r m \<longleftrightarrow> (\<exists>c ids. (c, ids) \<in> set (mr_clientModels r) \<and> client_provider r c = p \<and> m \<in> set ids)"
    unfolding suppliers_def M by blast
  then show ?thesis unfolding wf_map_in_set [OF assms] by (auto simp: registry_clients_def)
qed

lemma registry_clients_run: "registry_clients (fold registry_step ops empty_registry) = fold clients_step ops (\<lambda>c. None)"
proof -
  have "registry_clients (fold registry_step ops x) = fold clients_step ops (registry_clients x)" for x
    by (induction ops arbitrary: x) (simp_all add: clients_refine)
  moreover have "registry_clients empty_registry = (\<lambda>c. None)" by (simp add: fun_eq_iff registry_clients_def empty_registry_def)
  ultimately show ?thesis by simp
qed

lemma registered_key:
  assumes "registry_ok r"
  shows "has_key m (mr_models r) \<longleftrightarrow> (\<exists>c p ids. registry_clients r c = Some (p, ids) \<and> m \<in> set ids)"
proof -
  have rep: "represents (mr_models r) (suppliers r)" and wf: "wf_map (mr_clientModels r)"
    using assms by (simp_all add: registry_ok_def)
  have "has_key m (mr_models r) \<longleftrightarrow> (\<exists>p. p \<in># suppliers r m)"
  proof (cases "map_of (mr_models r) m")
    case None
    then show ?thesis using represents_None [OF rep] by (simp add: has_key_def)
  next
    case (Some reg)
    then show ?thesis using represents_Some [OF rep Some] by (auto simp: has_key_def reg_rep_def)
  qed
  then show ?thesis unfolding suppliers_member [OF wf] by blast
qed

lemma registered_providers:
  assumes "registry_ok r"
  shows "set (GetProviderName m r) = {p. p \<noteq> [] \<and> (\<exists>c ids. registry_clients r c = Some (p, ids) \<and> m \<in> set ids)}"
    and "distinct (GetProviderName m r)"
proof -
  have rep: "represents (mr_models r) (suppliers r)" and wf: "wf_map (mr_clientModels r)"
    using assms by (simp_all add: registry_ok_def)
  have loop: "set (append_providers acc ns) = set acc \<union> {n \<in> set ns. n \<noteq> []} \<and> (distinct acc \<longrightarrow> distinct (append_providers acc ns))" for acc ns
    by (induction acc ns rule: append_providers.induct) auto
  show "distinct (GetProviderName m r)" using loop [of "[]"] by (simp add: GetProviderName_def)
  have provs: "p \<noteq> [] \<Longrightarrow> p \<in> set (GetModelProviders m r) \<longleftrightarrow> p \<in># suppliers r m" for p
  proof (cases "map_of (mr_models r) m")
    case None
    then show ?thesis using represents_None [OF rep] by (simp add: GetModelProviders_def)
  next
    case (Some reg)
    then have rr: "reg_rep reg (suppliers r m)" by (rule represents_Some [OF rep])
    then have "wf_map (reg_Providers reg)" by (simp add: reg_rep_def)
    note wfp = wf_map_in_set [OF this]
    have "set (GetModelProviders m r) = fst ` set (filter (\<lambda>(name, n). 0 < n) (reg_Providers reg))"
      by (simp add: GetModelProviders_def Some del: set_filter)
    then have "p \<in> set (GetModelProviders m r) \<longleftrightarrow> (\<exists>n. (p, n) \<in> set (reg_Providers reg) \<and> 0 < n)" by force
    then have "p \<in> set (GetModelProviders m r) \<longleftrightarrow> (\<exists>n. map_of (reg_Providers reg) p = Some n \<and> 0 < n)"
      unfolding wfp .
    then show "p \<noteq> [] \<Longrightarrow> ?thesis" using rr by (auto simp: reg_rep_def)
  qed
  show "set (GetProviderName m r) = {p. p \<noteq> [] \<and> (\<exists>c ids. registry_clients r c = Some (p, ids) \<and> m \<in> set ids)}"
  proof (cases "m = []")
    case True
    with assms show ?thesis by (auto simp: GetProviderName_def registry_ok_def registry_clients_def)
  next
    case False
    then have "set (GetProviderName m r) = {p \<in> set (GetModelProviders m r). p \<noteq> []}"
      using loop [of "[]"] by (simp add: GetProviderName_def)
    then show ?thesis using provs suppliers_member [OF wf] by blast
  qed
qed

section \<open>A sample model\<close>

definition sample_info :: "string \<Rightarrow> ModelInfo" where
  "sample_info i =
     \<lparr>mi_ID = i, mi_Object = ''model'', mi_Created = 0, mi_OwnedBy = ''x'', mi_Type = [],
      mi_DisplayName = [], mi_Name = [], mi_Version = [], mi_Description = [],
      mi_InputTokenLimit = 0, mi_OutputTokenLimit = 0, mi_SupportedGenerationMethods = [],
      mi_ContextLength = 0, mi_MaxContextLength = 0, mi_MaxCompletionTokens = 0,
      mi_SupportedParameters = [], mi_SupportedInputModalities = [],
      mi_SupportedOutputModalities = [], mi_SupportsWebSearch = False,
      mi_Thinking = None, mi_Config = None, mi_UserDefined = False, mi_IsCompat = False\<rparr>"

definition two_clients :: "registry_op list" where
  "two_clients = [OpRegister 1 ''c1'' ''Codex'' [Some (sample_info ''m'')], OpRegister 2 ''c2'' ''claude'' [Some (sample_info ''m'')]]"

text \<open>C21. The registry refines the map from clients to what they registered: registrations and unregistrations
  change this map as specified, nothing else does, a model is registered exactly when some client lists
  it, and the providers a request for it is routed to are the providers of these clients, each once.\<close>

theorem registry_refines_clients:
  defines "r ops \<equiv> fold registry_step ops empty_registry" and "clients ops \<equiv> fold clients_step ops (\<lambda>c. None)"
  shows "registry_clients (r ops) = clients ops \<and>
    (has_key m (mr_models (r ops)) \<longleftrightarrow> (\<exists>c p ids. clients ops c = Some (p, ids) \<and> m \<in> set ids)) \<and>
    set (GetProviderName m (r ops)) = {p. p \<noteq> [] \<and> (\<exists>c ids. clients ops c = Some (p, ids) \<and> m \<in> set ids)} \<and>
    distinct (GetProviderName m (r ops))"
proof -
  have ok: "registry_ok (r ops)" unfolding r_def by (rule reg.inv_run)
  have refine: "registry_clients (r ops) = clients ops" by (simp add: r_def clients_def registry_clients_run)
  from registered_key [OF ok] registered_providers [OF ok] show ?thesis unfolding refine by blast
qed

end
