(* ===== verification/Registry_Cache.thy ===== *)
theory Registry_Cache
  imports Registry_Laws
begin

text \<open>
  The counters of the registry as sums over the clients, and its cache of available models: a cached list
  is always the one a fresh computation would give.
\<close>

section \<open>Counters as sums\<close>

lemma supplied_sums:
  "int (size (supplied_by prov cms m)) = sum_list (map (\<lambda>(c, ids). int (count_list ids m)) cms)"
  "int (count (supplied_by prov cms m) p) = sum_list (map (\<lambda>(c, ids). if prov c = p then int (count_list ids m) else 0) cms)"
  by (induction cms) (auto simp: supplied_by_def)

text \<open>C22. In every reachable state the reference counts are exact: a registered model's count is the number of times
  clients list it, its count for a provider is the number of times clients of that provider do, and
  models that nobody lists are not registered.\<close>

theorem registry_counts_exact:
  defines "r ops \<equiv> fold registry_step ops empty_registry"
  shows "case map_of (mr_models (r ops)) m of
      None \<Rightarrow> \<forall>(c, ids)\<in>set (mr_clientModels (r ops)). m \<notin> set ids
    | Some reg \<Rightarrow>
        0 < reg_Count reg \<and> reg_Info reg \<noteq> None \<and>
        reg_Count reg = sum_list (map (\<lambda>(c, ids). int (count_list ids m)) (mr_clientModels (r ops))) \<and>
        (p \<noteq> [] \<longrightarrow> get0 (reg_Providers reg) p =
           sum_list (map (\<lambda>(c, ids). if client_provider (r ops) c = p then int (count_list ids m) else 0) (mr_clientModels (r ops))))"
proof -
  have "registry_ok (r ops)" unfolding r_def by (rule reg.inv_run)
  then have rep: "represents (mr_models (r ops)) (suppliers (r ops))" by (simp add: registry_ok_def)
  note sums = supplied_sums [of "client_provider (r ops)" "mr_clientModels (r ops)" m]
  show ?thesis
  proof (cases "map_of (mr_models (r ops)) m")
    case None
    then have "suppliers (r ops) m = {#}" by (rule represents_None [OF rep])
    then have z: "sum_list (map (\<lambda>(c, ids). int (count_list ids m)) (mr_clientModels (r ops))) = 0"
      using sums(1) by (simp add: suppliers_def)
    have "count_list ids m = 0" if e: "(c, ids) \<in> set (mr_clientModels (r ops))" for c ids
    proof -
      have "int (count_list ids m) \<le> sum_list (map (\<lambda>(c, ids). int (count_list ids m)) (mr_clientModels (r ops)))"
        using e by (intro member_le_sum_list) (auto simp: image_iff intro!: bexI [of _ "(c, ids)"])
      with z show ?thesis by simp
    qed
    then show ?thesis unfolding None option.case by (auto simp: count_list_0_iff)
  next
    case (Some reg)
    then have rr: "reg_rep reg (suppliers (r ops) m)" by (rule represents_Some [OF rep])
    have "p \<noteq> [] \<Longrightarrow> get0 (reg_Providers reg) p = int (count (suppliers (r ops) m) p)"
      using rr by (auto simp: reg_rep_def get0_def not_in_iff)
    moreover have "0 < reg_Count reg" "reg_Info reg \<noteq> None" "reg_Count reg = int (size (suppliers (r ops) m))"
      using rr by (auto simp: reg_rep_def nonempty_has_size)
    ultimately show ?thesis unfolding Some option.case suppliers_def sums by blast
  qed
qed

theorem registry_counts_exact_witness:
  "(\<exists>reg. map_of (mr_models (fold registry_step two_clients empty_registry)) ''m'' = Some reg \<and> reg_Count reg = 2 \<and>
     get0 (reg_Providers reg) ''codex'' = 1)"
proof -
  let ?r = "fold registry_step two_clients empty_registry"
  have "map_of (mr_models ?r) ''m'' \<noteq> None" by code_simp
  then obtain reg where reg: "map_of (mr_models ?r) ''m'' = Some reg" by blast
  have "sum_list (map (\<lambda>(c, ids). int (count_list ids ''m'')) (mr_clientModels ?r)) = 2"
    "sum_list (map (\<lambda>(c, ids). if client_provider ?r c = ''codex'' then int (count_list ids ''m'') else 0) (mr_clientModels ?r)) = 1"
    by code_simp+
  then show ?thesis using registry_counts_exact [of two_clients "''m''" "''codex''"] reg by simp
qed

section \<open>Open quota windows\<close>

definition open_at :: "gotime \<Rightarrow> string \<times> gotime option \<Rightarrow> bool" where
  "open_at now e \<longleftrightarrow> (case snd e of None \<Rightarrow> False | Some q \<Rightarrow> now < q + modelQuotaExceededWindow)"

definition quotas_nonneg :: "(string \<times> gotime option) list \<Rightarrow> bool" where
  "quotas_nonneg qs \<longleftrightarrow> (\<forall>(c, q)\<in>set qs. \<forall>t. q = Some t \<longrightarrow> 0 \<le> t)"

lemma quota_loop_count: "fst (quota_loop now qs acc) = fst acc + int (length (filter (open_at now) qs))"
  by (induction now qs acc rule: quota_loop.induct) (auto simp: open_at_def Let_def split: option.split)

definition soonest :: "gotime \<Rightarrow> (string \<times> gotime option) list \<Rightarrow> gotime \<Rightarrow> gotime \<Rightarrow> bool" where
  "soonest now qs e s \<longleftrightarrow> 0 \<le> s \<and> (s = 0 \<longrightarrow> e = 0 \<and> filter (open_at now) qs = []) \<and> (e \<noteq> 0 \<longrightarrow> s \<le> e) \<and>
     (\<forall>c q. (c, Some q) \<in> set qs \<longrightarrow> now < q + modelQuotaExceededWindow \<longrightarrow> s \<le> q + modelQuotaExceededWindow)"

lemma quota_loop_soonest:
  "quotas_nonneg qs \<Longrightarrow> 0 \<le> snd acc \<Longrightarrow> soonest now qs (snd acc) (snd (quota_loop now qs acc))"
proof (induction now qs acc rule: quota_loop.induct)
  case (2 now c quotaTime qs expired e)
  have pos: "0 < modelQuotaExceededWindow" by (simp add: modelQuotaExceededWindow_def)
  have qs: "quotas_nonneg qs" using "2.prems"(1) by (simp add: quotas_nonneg_def)
  let ?acc = "case quotaTime of None \<Rightarrow> (expired, e)
     | Some q \<Rightarrow> (let recoveryAt = q + modelQuotaExceededWindow
          in if now < recoveryAt then (expired + 1, if e = 0 \<or> recoveryAt < e then recoveryAt else e) else (expired, e))"
  have "0 \<le> snd ?acc" using "2.prems" pos by (auto simp: quotas_nonneg_def Let_def split: option.split)
  from "2.IH" [OF qs this] have IH: "soonest now qs (snd ?acc) (snd (quota_loop now qs ?acc))" by simp
  show ?case
  proof (cases "open_at now (c, quotaTime)")
    case True
    then obtain q where q: "quotaTime = Some q" "now < q + modelQuotaExceededWindow" by (auto simp: open_at_def split: option.splits)
    have "0 \<le> q" using "2.prems"(1) q(1) by (simp add: quotas_nonneg_def)
    then have "snd ?acc \<noteq> 0 \<and> snd ?acc \<le> q + modelQuotaExceededWindow \<and> (e \<noteq> 0 \<longrightarrow> snd ?acc \<le> e)"
      using q pos by (auto simp: Let_def)
    with IH True q show ?thesis unfolding soonest_def by (auto intro: order.trans)
  next
    case False
    then have "snd ?acc = e" by (auto simp: open_at_def Let_def split: option.splits)
    with IH False show ?thesis unfolding soonest_def by (auto simp: open_at_def)
  qed
qed (simp add: soonest_def)

lemma open_stable:
  assumes "now \<le> t" "\<forall>c q. (c, Some q) \<in> set qs \<longrightarrow> now < q + modelQuotaExceededWindow \<longrightarrow> t < q + modelQuotaExceededWindow"
  shows "filter (open_at t) qs = filter (open_at now) qs"
  using assms by (intro filter_cong refl) (auto simp: open_at_def split: option.splits)

lemma availability_stable:
  assumes "quotas_nonneg (reg_QuotaExceededClients reg)" "now \<le> t"
    and "snd (modelRegistrationAvailability reg now) = 0 \<or> t < snd (modelRegistrationAvailability reg now)"
  shows "fst (modelRegistrationAvailability reg t) = fst (modelRegistrationAvailability reg now)"
proof -
  let ?qs = "reg_QuotaExceededClients reg"
  have s: "soonest now ?qs 0 (snd (quota_loop now ?qs (0, 0)))" using quota_loop_soonest [OF assms(1), of "(0, 0)" now] by simp
  have snd: "snd (modelRegistrationAvailability reg now) = snd (quota_loop now ?qs (0, 0))"
    by (simp add: modelRegistrationAvailability_def split: prod.split)
  have "filter (open_at t) ?qs = filter (open_at now) ?qs"
  proof (cases "snd (quota_loop now ?qs (0, 0)) = 0")
    case True
    then have "filter (open_at now) ?qs = []" using s by (simp add: soonest_def)
    then show ?thesis using assms(2) by (force simp: filter_empty_conv open_at_def split: option.splits)
  next
    case False
    then have t: "t < snd (quota_loop now ?qs (0, 0))" using assms(3) snd by simp
    show ?thesis
    proof (rule open_stable [OF assms(2)], intro allI impI)
      fix c q
      assume "(c, Some q) \<in> set ?qs" "now < q + modelQuotaExceededWindow"
      then have "snd (quota_loop now ?qs (0, 0)) \<le> q + modelQuotaExceededWindow" using s unfolding soonest_def by blast
      with t show "t < q + modelQuotaExceededWindow" by simp
    qed
  qed
  then have "fst (quota_loop t ?qs (0, 0)) = fst (quota_loop now ?qs (0, 0))" by (simp add: quota_loop_count)
  then show ?thesis by (simp add: modelRegistrationAvailability_def case_prod_beta)
qed

section \<open>The list of available models over time\<close>

definition models_nonneg :: "models \<Rightarrow> bool" where
  "models_nonneg ms \<longleftrightarrow> (\<forall>(m, reg)\<in>set ms. quotas_nonneg (reg_QuotaExceededClients reg))"

definition first_expiry :: "gotime \<Rightarrow> models \<Rightarrow> gotime \<Rightarrow> gotime \<Rightarrow> bool" where
  "first_expiry now regs e s \<longleftrightarrow> 0 \<le> s \<and>
     (s = 0 \<longrightarrow> e = 0 \<and> (\<forall>x\<in>set regs. snd (modelRegistrationAvailability (snd x) now) = 0)) \<and> (e \<noteq> 0 \<longrightarrow> s \<le> e) \<and>
     (\<forall>x\<in>set regs. snd (modelRegistrationAvailability (snd x) now) \<noteq> 0 \<longrightarrow> s \<le> snd (modelRegistrationAvailability (snd x) now))"

lemma first_expiry_Cons:
  assumes "first_expiry now regs e' s" "x = snd (modelRegistrationAvailability (snd y) now)"
    and "e' = 0 \<longrightarrow> e = 0 \<and> x = 0" "e \<noteq> 0 \<longrightarrow> e' \<noteq> 0 \<and> e' \<le> e" "x \<noteq> 0 \<longrightarrow> e' \<noteq> 0 \<and> e' \<le> x"
  shows "first_expiry now (y # regs) e s"
proof -
  have s: "0 \<le> s" "s = 0 \<Longrightarrow> e' = 0" "e' \<noteq> 0 \<Longrightarrow> s \<le> e'" using assms(1) by (simp_all add: first_expiry_def)
  have "e \<noteq> 0 \<longrightarrow> s \<le> e" using s(3) assms(4) order.trans by blast
  moreover have "x \<noteq> 0 \<longrightarrow> s \<le> x" using s(3) assms(5) order.trans by blast
  moreover have "s = 0 \<longrightarrow> e = 0 \<and> x = 0" using s(2) assms(3) by blast
  ultimately
  show ?thesis using assms(1) unfolding first_expiry_def list.set(2) ball_simps assms(2) [symmetric] by blast
qed

lemma build_loop_expires:
  assumes "models_nonneg regs" "0 \<le> snd acc"
  shows "first_expiry now regs (snd acc) (snd (build_loop h now regs acc))"
  using assms
proof (induction regs arbitrary: acc)
  case (Cons y regs)
  obtain m reg where y: "y = (m, reg)" by fastforce
  obtain models e where acc: "acc = (models, e)" by fastforce
  obtain av x where av: "modelRegistrationAvailability reg now = (av, x)" by fastforce
  have q: "quotas_nonneg (reg_QuotaExceededClients reg)" "models_nonneg regs" using Cons.prems(1) by (simp_all add: models_nonneg_def y)
  have x: "0 \<le> x" using quota_loop_soonest [OF q(1), of "(0, 0)" now] av
    by (simp add: modelRegistrationAvailability_def soonest_def split: prod.splits)
  let ?e = "if x \<noteq> 0 \<and> (e = 0 \<or> x < e) then x else e"
  let ?ms = "if \<not> av then models else (case convertModelToMap (reg_Info reg) h of None \<Rightarrow> models | Some m \<Rightarrow> models @ [m])"
  have e: "0 \<le> e" using Cons.prems(2) by (simp add: acc)
  have IH: "first_expiry now regs ?e (snd (build_loop h now regs (?ms, ?e)))"
    using Cons.IH [OF q(2), of "(?ms, ?e)"] x e by simp
  have "first_expiry now (y # regs) e (snd (build_loop h now regs (?ms, ?e)))"
    by (rule first_expiry_Cons [OF IH, of x]) (use x e in \<open>auto simp: y av\<close>)
  then show ?case by (simp add: acc y av)
qed (simp add: first_expiry_def)

lemma build_loop_models:
  assumes "\<forall>(m, reg)\<in>set regs. fst (modelRegistrationAvailability reg t) = fst (modelRegistrationAvailability reg now)"
  shows "fst (build_loop h t regs (ms, e)) = fst (build_loop h now regs (ms, e'))"
  using assms
proof (induction regs arbitrary: ms e e')
  case (Cons x regs)
  obtain m reg where x: "x = (m, reg)" by fastforce
  obtain av a b where "modelRegistrationAvailability reg t = (av, a)" "modelRegistrationAvailability reg now = (av, b)"
    using Cons.prems by (metis (mono_tags, lifting) case_prodD list.set_intros(1) prod.collapse x)
  with Cons show ?case by (simp add: x)
qed simp

lemma build_stable:
  assumes "models_nonneg (mr_models r)" "now \<le> t"
    and "snd (buildAvailableModelsLocked h now r) = 0 \<or> t < snd (buildAvailableModelsLocked h now r)"
  shows "fst (buildAvailableModelsLocked h t r) = fst (buildAvailableModelsLocked h now r)"
  unfolding buildAvailableModelsLocked_def
proof (rule build_loop_models, clarify)
  fix m reg
  assume in_ms: "(m, reg) \<in> set (mr_models r)"
  have q: "quotas_nonneg (reg_QuotaExceededClients reg)" using assms(1) in_ms by (auto simp: models_nonneg_def)
  have "first_expiry now (mr_models r) 0 (snd (build_loop h now (mr_models r) ([], 0)))"
    using build_loop_expires [OF assms(1), of "([], 0)" now h] by simp
  with in_ms assms(3) have "snd (modelRegistrationAvailability reg now) = 0 \<or> t < snd (modelRegistrationAvailability reg now)"
    unfolding first_expiry_def buildAvailableModelsLocked_def by force
  then show "fst (modelRegistrationAvailability reg t) = fst (modelRegistrationAvailability reg now)"
    by (rule availability_stable [OF q assms(2)])
qed

section \<open>Quota times stay sensible\<close>

definition times_ok :: "model_registry \<Rightarrow> bool" where
  "times_ok r \<longleftrightarrow> models_nonneg (mr_models r)"

lemma put_subset: "set (map_put k v m) \<subseteq> insert (k, v) (set m)"
  by (induction m) auto

lemma nonneg_put:
  "models_nonneg ms \<Longrightarrow> quotas_nonneg (reg_QuotaExceededClients reg) \<Longrightarrow> models_nonneg (map_put m reg ms)"
  using put_subset [of m reg ms] by (fastforce simp: models_nonneg_def)

lemma nonneg_del: "models_nonneg ms \<Longrightarrow> models_nonneg (map_del m ms)"
  by (auto simp: models_nonneg_def AList.delete_eq)

lemma nonneg_look: "models_nonneg ms \<Longrightarrow> map_of ms m = Some reg \<Longrightarrow> quotas_nonneg (reg_QuotaExceededClients reg)"
  by (auto simp: models_nonneg_def dest: map_of_SomeD)

lemma quotas_nonneg_del: "quotas_nonneg qs \<Longrightarrow> quotas_nonneg (map_del c qs)"
  by (auto simp: quotas_nonneg_def AList.delete_eq)

lemma forget_quotas [simp]: "reg_QuotaExceededClients (forget_client c reg) = map_del c (reg_QuotaExceededClients reg)"
  by (simp add: forget_client_def)

lemma put_or_drop_times:
  "times_ok r \<Longrightarrow> quotas_nonneg (reg_QuotaExceededClients reg) \<Longrightarrow> times_ok (put_or_drop m reg r)"
  by (simp add: times_ok_def put_or_drop_def nonneg_put nonneg_del)

lemma add_times_ok: "times_ok r \<Longrightarrow> times_ok (addModelRegistration m p info now r)"
  by (auto simp: times_ok_def addModelRegistration_def add_supplier_def new_registration_def Let_def quotas_nonneg_def [of "[]"]
      intro!: nonneg_put dest: nonneg_look split: option.split)

lemma remove_times_ok: "times_ok r \<Longrightarrow> times_ok (removeModelRegistration c m p now r)"
proof (cases "map_of (mr_models r) m")
  case (Some reg)
  assume r: "times_ok r"
  then have "quotas_nonneg (map_del c (reg_QuotaExceededClients reg))"
    using Some by (intro quotas_nonneg_del) (auto simp: times_ok_def dest: nonneg_look)
  then show ?thesis using r by (auto simp: removeModelRegistration_def Some Let_def intro!: put_or_drop_times)
qed (simp add: removeModelRegistration_def)

lemma update_times_ok:
  "times_ok r \<Longrightarrow> (\<And>reg. quotas_nonneg (reg_QuotaExceededClients reg) \<Longrightarrow> quotas_nonneg (reg_QuotaExceededClients (f reg))) \<Longrightarrow>
   times_ok (update_model m f r)"
  by (auto simp: times_ok_def update_model_def intro!: nonneg_put dest: nonneg_look split: option.split)

lemma pow_times_ok: "(\<And>r. times_ok r \<Longrightarrow> times_ok (f r)) \<Longrightarrow> times_ok r \<Longrightarrow> times_ok ((f ^^ n) r)"
  by (induction n) simp_all

lemma fold_times_ok: "(\<And>e r. times_ok r \<Longrightarrow> times_ok (f e r)) \<Longrightarrow> times_ok r \<Longrightarrow> times_ok (fold f es r)"
  by (induction es arbitrary: r) simp_all

lemma refresh_quotas:
  "quotas_nonneg (reg_QuotaExceededClients reg) \<Longrightarrow>
   quotas_nonneg (reg_QuotaExceededClients (refresh_registration c p info now sh on nn reg))"
  by (simp add: refresh_registration_def Let_def quotas_nonneg_del)

lemma step_times_ok:
  "times_ok r \<Longrightarrow> times_ok (shift_step oc op e r)" "times_ok r \<Longrightarrow> times_ok (removal_step c nc op now e r)"
  "times_ok r \<Longrightarrow> times_ok (overage_step c nc op now e r)" "times_ok r \<Longrightarrow> times_ok (addition_step oc nm p now e r)"
  "times_ok r \<Longrightarrow> times_ok (refresh_step c p inp oc ch now m r)"
  by (auto simp: shift_step_def removal_step_def overage_step_def addition_step_def refresh_step_def remove_times_def add_times_def Let_def
      intro!: update_times_ok pow_times_ok remove_times_ok add_times_ok refresh_quotas split: prod.split option.split)

lemma reconcile_times_ok: "times_ok r \<Longrightarrow> times_ok (reconcile c p op om inp now r)"
  unfolding reconcile_def Let_def by (intro fold_times_ok step_times_ok) (auto intro!: fold_times_ok step_times_ok)

lemma register_new_times_ok: "times_ok r \<Longrightarrow> times_ok (register_new p inp now r)"
  unfolding register_new_def by (intro fold_times_ok) (auto intro: add_times_ok split: option.split)

lemma unregister_times_ok: "times_ok r \<Longrightarrow> times_ok (fst (unregisterClientInternal now c r))"
proof -
  have "times_ok r \<Longrightarrow> times_ok (unregister_models c p now ids r)" for p ids
  proof (induction c p now ids r rule: unregister_models.induct)
    case (2 c p now i ids r)
    have "times_ok (case map_of (mr_models r) i of
          None \<Rightarrow> r
        | Some registration \<Rightarrow>
            (let reg = forget_client c (registration\<lparr>reg_Count := reg_Count registration - 1, reg_LastUpdated := now\<rparr>);
                 reg = (case p of None \<Rightarrow> reg | Some p \<Rightarrow> release_provider p 1 reg)
             in put_or_drop i reg r))"
    proof (cases "map_of (mr_models r) i")
      case (Some reg)
      then have "quotas_nonneg (map_del c (reg_QuotaExceededClients reg))"
        using "2.prems" by (intro quotas_nonneg_del) (auto simp: times_ok_def dest: nonneg_look)
      then show ?thesis using "2.prems" by (auto simp: Some Let_def intro!: put_or_drop_times split: option.split)
    qed (simp add: "2.prems")
    from "2.IH" [OF this] show ?case by simp
  qed simp
  then show "times_ok r \<Longrightarrow> ?thesis" by (simp add: unregisterClientInternal_def Let_def times_ok_def split: option.split)
qed

definition op_time :: "registry_op \<Rightarrow> gotime option" where
  "op_time op =
     (case op of
        OpRegister now c p infos \<Rightarrow> Some now | OpUnregister now c \<Rightarrow> Some now | OpSetQuota now c m \<Rightarrow> Some now
      | OpClearQuota c m \<Rightarrow> None | OpSuspend now c m reason \<Rightarrow> Some now | OpResume now c m \<Rightarrow> Some now
      | OpCleanup now \<Rightarrow> Some now | OpGetAvailable now h \<Rightarrow> Some now | OpSetHook b \<Rightarrow> None)"

text \<open>The clock does not run backwards over a sequence of operations.\<close>

fun clock_ok :: "gotime \<Rightarrow> registry_op list \<Rightarrow> bool" where
  "clock_ok T [] = True"
| "clock_ok T (op # ops) = (case op_time op of None \<Rightarrow> clock_ok T ops | Some now \<Rightarrow> T \<le> now \<and> clock_ok now ops)"

lemma times_fields: "mr_models r' = mr_models r \<Longrightarrow> times_ok r' = times_ok r"
  by (simp add: times_ok_def)

lemma invalidate_models [simp]: "mr_models (invalidateAvailableModelsCacheLocked r) = mr_models r"
  by (simp add: invalidateAvailableModelsCacheLocked_def)

lemma register_times_ok: "times_ok r \<Longrightarrow> times_ok (fst (RegisterClient now c p infos r))"
proof -
  assume r: "times_ok r"
  obtain r1 ev where un: "unregisterClientInternal now c r = (r1, ev)" by fastforce
  have "times_ok r1" using unregister_times_ok [OF r, of now c] by (simp add: un)
  then show ?thesis using r reconcile_times_ok [OF r] register_new_times_ok [OF r]
    by (auto simp: RegisterClient_def un Let_def record_client_def times_ok_def split: option.split)
qed

lemma step_times:
  assumes "times_ok r" "\<And>now. op_time op = Some now \<Longrightarrow> 0 \<le> now"
  shows "times_ok (registry_step op r)"
proof (cases op)
  case (OpRegister now c p infos)
  then show ?thesis using register_times_ok [OF assms(1)] by simp
next
  case (OpUnregister now c)
  then show ?thesis using unregister_times_ok [OF assms(1), of now c]
    by (cases "unregisterClientInternal now c r") (simp add: UnregisterClient_def times_ok_def)
next
  case (OpSetQuota now c m)
  have "0 \<le> now" using assms(2) OpSetQuota by (simp add: op_time_def)
  then have "quotas_nonneg qs \<Longrightarrow> quotas_nonneg (map_put c (Some now) qs)" for qs
    using put_subset [of c "Some now" qs] by (fastforce simp: quotas_nonneg_def)
  then have "times_ok (update_model m (\<lambda>reg. reg\<lparr>reg_QuotaExceededClients := map_put c (Some now) (reg_QuotaExceededClients reg)\<rparr>) r)"
    by (intro update_times_ok assms(1)) simp
  with assms(1) OpSetQuota show ?thesis by (simp add: SetModelQuotaExceeded_def times_ok_def split: option.split)
next
  case (OpClearQuota c m)
  have "times_ok (update_model m (\<lambda>reg. reg\<lparr>reg_QuotaExceededClients := map_del c (reg_QuotaExceededClients reg)\<rparr>) r)"
    by (intro update_times_ok assms(1)) (simp add: quotas_nonneg_del)
  with assms(1) OpClearQuota show ?thesis by (simp add: ClearModelQuotaExceeded_def times_ok_def split: option.split)
next
  case (OpSuspend now c m reason)
  have "times_ok (update_model m (\<lambda>reg. reg\<lparr>reg_SuspendedClients := map_put c reason (reg_SuspendedClients reg), reg_LastUpdated := now\<rparr>) r)"
    by (intro update_times_ok assms(1)) simp
  with assms(1) OpSuspend show ?thesis by (simp add: SuspendClientModel_def times_ok_def split: option.split)
next
  case (OpResume now c m)
  have "times_ok (update_model m (\<lambda>reg. reg\<lparr>reg_SuspendedClients := map_del c (reg_SuspendedClients reg), reg_LastUpdated := now\<rparr>) r)"
    by (intro update_times_ok assms(1)) simp
  with assms(1) OpResume show ?thesis by (simp add: ResumeClientModel_def times_ok_def split: option.split)
next
  case (OpCleanup now)
  have keep: "quotas_nonneg qs \<Longrightarrow> quotas_nonneg (map_keep P qs)" for P qs
    by (simp add: quotas_nonneg_def map_keep_def)
  let ?f = "\<lambda>(m, reg). (m, reg\<lparr>reg_QuotaExceededClients := map_keep (\<lambda>c q. \<not> quota_expired now q) (reg_QuotaExceededClients reg)\<rparr>)"
  have "models_nonneg (map ?f (mr_models r))"
    unfolding models_nonneg_def
  proof clarsimp
    fix m reg
    assume "(m, reg) \<in> set (mr_models r)"
    then show "quotas_nonneg (map_keep (\<lambda>c q. \<not> quota_expired now q) (reg_QuotaExceededClients reg))"
      using assms(1) by (intro keep) (auto simp: times_ok_def models_nonneg_def)
  qed
  with assms(1) OpCleanup show ?thesis by (simp add: CleanupExpiredQuotas_def Let_def times_ok_def)
next
  case (OpGetAvailable now h)
  then show ?thesis using assms(1) by (simp add: times_ok_def available_fields)
next
  case (OpSetHook b)
  then show ?thesis using assms(1) by (simp add: SetHook_def times_ok_def)
qed

section \<open>The cache\<close>

text \<open>From \<open>T\<close> on, a fresh entry holds what a new computation gives.\<close>

definition coherent :: "gotime \<Rightarrow> model_registry \<Rightarrow> bool" where
  "coherent T r \<longleftrightarrow> (\<forall>h e t. map_of (mr_availableModelsCache r) h = Some e \<longrightarrow> T \<le> t \<longrightarrow> fresh_entry t e \<longrightarrow>
     fst (buildAvailableModelsLocked h t r) = ce_models e)"

lemma coherent_later: "coherent T r \<Longrightarrow> T \<le> T' \<Longrightarrow> coherent T' r"
  unfolding coherent_def by (meson order.trans)

lemma coherent_empty: "mr_availableModelsCache r = [] \<Longrightarrow> coherent T r"
  by (simp add: coherent_def)

lemma invalidated_empty: "mr_availableModelsCache (invalidateAvailableModelsCacheLocked r) = []"
  by (simp add: invalidateAvailableModelsCacheLocked_def)

lemma coherent_same:
  "mr_models r' = mr_models r \<Longrightarrow> mr_availableModelsCache r' = mr_availableModelsCache r \<Longrightarrow> coherent T r' = coherent T r"
  by (simp add: coherent_def buildAvailableModelsLocked_def)

lemma available_coherent:
  assumes "times_ok r" "coherent T r" "T \<le> now"
  shows "fst (GetAvailableModels h now r) = fst (buildAvailableModelsLocked h now r)"
    and "coherent now (snd (GetAvailableModels h now r))"
proof -
  obtain ms e where b: "buildAvailableModelsLocked h now r = (ms, e)" by fastforce
  let ?new = "r\<lparr>mr_availableModelsCache := map_put h \<lparr>ce_models = ms, ce_expiresAt = e\<rparr> (mr_availableModelsCache r)\<rparr>"
  have same: "buildAvailableModelsLocked h' t ?new = buildAvailableModelsLocked h' t r" for h' t
    by (simp add: buildAvailableModelsLocked_def)
  have stable: "fst (buildAvailableModelsLocked h t r) = ms" if "now \<le> t" "e = 0 \<or> t < e" for t
    using build_stable [of r now t h] assms(1) that by (simp add: b times_ok_def)
  have new: "coherent now ?new"
    unfolding coherent_def same using coherent_later [OF assms(2,3)] stable
    by (auto simp: coherent_def update_conv' fresh_entry_def split: if_splits)
  have old: "coherent now r" by (rule coherent_later [OF assms(2,3)])
  have ms: "ms = fst (buildAvailableModelsLocked h now r)" by (simp add: b)
  have "ms = ce_models c" if "map_of (mr_availableModelsCache r) h = Some c" "fresh_entry now c" for c
    unfolding ms using old that unfolding coherent_def by blast
  then show "fst (GetAvailableModels h now r) = fst (buildAvailableModelsLocked h now r)"
    by (simp add: GetAvailableModels_def b split: option.split)
  show "coherent now (snd (GetAvailableModels h now r))"
    using new old by (auto simp: GetAvailableModels_def b split: option.split)
qed

lemma step_coherent:
  assumes "times_ok r" "coherent T r" "\<And>now. op_time op = Some now \<Longrightarrow> T \<le> now"
  shows "coherent (case op_time op of None \<Rightarrow> T | Some now \<Rightarrow> now) (registry_step op r)"
proof -
  have later: "coherent (case op_time op of None \<Rightarrow> T | Some now \<Rightarrow> now) r"
    using coherent_later [OF assms(2)] assms(2,3) by (auto split: option.split)
  show ?thesis
  proof (cases op)
    case (OpRegister now c p infos)
    have "mr_availableModelsCache (fst (RegisterClient now c p infos r)) = []"
      by (auto simp: RegisterClient_def Let_def invalidated_empty split: prod.split)
    with OpRegister show ?thesis by (simp add: coherent_empty)
  next
    case (OpUnregister now c)
    then show ?thesis by (auto simp: UnregisterClient_def invalidated_empty intro!: coherent_empty split: prod.split)
  next
    case (OpGetAvailable now h)
    then show ?thesis using available_coherent(2) [OF assms(1,2), of now h] assms(3) by (simp add: op_time_def)
  next
    case (OpSetHook b)
    then show ?thesis using later coherent_same [of "SetHook b r" r] by (simp add: SetHook_def)
  next
    case (OpCleanup now)
    show ?thesis
    proof (cases "\<exists>(m, reg)\<in>set (mr_models r). \<exists>(c, q)\<in>set (reg_QuotaExceededClients reg). quota_expired now q")
      case True
      with OpCleanup show ?thesis by (simp add: CleanupExpiredQuotas_def Let_def invalidated_empty coherent_empty)
    next
      case False
      have keep: "map_keep (\<lambda>c q. \<not> quota_expired now q) (reg_QuotaExceededClients reg) = reg_QuotaExceededClients reg"
        if "(m, reg) \<in> set (mr_models r)" for m reg
        unfolding map_keep_def filter_id_conv using False that by auto
      have "map (\<lambda>(m, reg). (m, reg\<lparr>reg_QuotaExceededClients := map_keep (\<lambda>c q. \<not> quota_expired now q) (reg_QuotaExceededClients reg)\<rparr>)) (mr_models r)
          = mr_models r"
        by (rule map_idI) (use keep in auto)
      with OpCleanup False have "registry_step op r = r" by (simp add: CleanupExpiredQuotas_def Let_def)
      with later show ?thesis by simp
    qed
  qed (use later in \<open>auto simp: SetModelQuotaExceeded_def ClearModelQuotaExceeded_def SuspendClientModel_def ResumeClientModel_def
         invalidated_empty intro!: coherent_empty split: option.split\<close>)
qed

lemma run_coherent:
  assumes "times_ok r" "coherent T r" "0 \<le> T" "clock_ok T (ops @ [op])"
  shows "\<exists>T'. times_ok (fold registry_step ops r) \<and> coherent T' (fold registry_step ops r) \<and> (\<forall>now. op_time op = Some now \<longrightarrow> T' \<le> now)"
  using assms
proof (induction ops arbitrary: r T)
  case Nil
  then show ?case by (intro exI [of _ T]) (auto split: option.splits)
next
  case (Cons x ops)
  let ?T = "case op_time x of None \<Rightarrow> T | Some now \<Rightarrow> now"
  have le: "\<And>now. op_time x = Some now \<Longrightarrow> T \<le> now" using Cons.prems(4) by (auto split: option.splits)
  then have "times_ok (registry_step x r)" using step_times [OF Cons.prems(1)] Cons.prems(3) by force
  moreover have "coherent ?T (registry_step x r)" by (rule step_coherent [OF Cons.prems(1,2) le])
  moreover have "0 \<le> ?T" using le Cons.prems(3) by (force split: option.split)
  moreover have "clock_ok ?T (ops @ [op])" using Cons.prems(4) by (auto split: option.splits)
  ultimately show ?case using Cons.IH by simp
qed

text \<open>C23. The cached list of available models is never stale: after any operations, in the order of their times, a handler
  gets exactly the list that a fresh computation over the registrations gives at that time, although entries
  are reused until the first quota window ends.\<close>

theorem available_models_fresh:
  assumes "clock_ok 0 (ops @ [OpGetAvailable now h])"
  defines "r \<equiv> fold registry_step ops empty_registry"
  shows "fst (GetAvailableModels h now r) = fst (buildAvailableModelsLocked h now r)"
proof -
  have "times_ok empty_registry" "coherent 0 empty_registry"
    by (simp_all add: times_ok_def models_nonneg_def empty_registry_def coherent_def)
  from run_coherent [OF this _ assms(1)] obtain T where "times_ok r" "coherent T r" "T \<le> now"
    by (auto simp: r_def op_time_def)
  then show ?thesis by (rule available_coherent(1))
qed

theorem available_models_fresh_witness:
  "length (fst (GetAvailableModels ''openai'' 5 (fold registry_step (two_clients @ [OpGetAvailable 3 ''openai'']) empty_registry))) = 1"
proof -
  let ?r = "fold registry_step (two_clients @ [OpGetAvailable 3 ''openai'']) empty_registry"
  have "clock_ok 0 ((two_clients @ [OpGetAvailable 3 ''openai'']) @ [OpGetAvailable 5 ''openai''])" by code_simp
  from available_models_fresh [OF this] have "fst (GetAvailableModels ''openai'' 5 ?r) = fst (buildAvailableModelsLocked ''openai'' 5 ?r)" .
  moreover have "length (fst (buildAvailableModelsLocked ''openai'' 5 ?r)) = 1" by code_simp
  ultimately show ?thesis by simp
qed

end
