(* ===== verification/Request_Routing.thy ===== *)
theory Request_Routing
  imports Registry_Laws Thinking_Suffix
begin

text \<open>
  How a request's model name becomes a list of providers: \<open>sdk/api/handlers/handlers_routing.go\<close>. The model
  registry is the state; \<open>home\<close> says that an authentication manager exists and has the home mode enabled.
  The decision of a model router is an argument, the wire form of an error is not modelled.
\<close>

section \<open>Order of the providers\<close>

text \<open>Removes the first element that satisfies \<open>P\<close>, if any, and returns it.\<close>

fun extract_first :: "(string \<Rightarrow> bool) \<Rightarrow> string list \<Rightarrow> (string \<times> string list) option" where
  "extract_first P [] = None"
| "extract_first P (x # xs) =
     (if P x then Some (x, xs)
      else (case extract_first P xs of None \<Rightarrow> None | Some (y, ys) \<Rightarrow> Some (y, x # ys)))"

definition preferExecutionProvider :: "string list \<Rightarrow> string \<Rightarrow> string list" where
  "preferExecutionProvider providers preferred0 =
     (let preferred = to_lower (trim_space preferred0)
      in if preferred = [] \<or> length providers < 2 then providers
         else (case extract_first (\<lambda>p. to_lower (trim_space p) = preferred) providers of
                 None \<Rightarrow> providers
               | Some (p, rest) \<Rightarrow> p # rest))"

definition excludeExecutionProvider :: "string list \<Rightarrow> string \<Rightarrow> string list" where
  "excludeExecutionProvider providers excluded0 =
     (let excluded = to_lower (trim_space excluded0)
      in if excluded = [] \<or> providers = [] then providers
         else (case extract_first (\<lambda>p. to_lower (trim_space p) = excluded) providers of
                 None \<Rightarrow> providers
               | Some (p, rest) \<Rightarrow> rest))"

definition supportsNativeInteractionsEntryProtocol :: "string \<Rightarrow> bool" where
  "supportsNativeInteractionsEntryProtocol entryProtocol \<longleftrightarrow>
     entryProtocol \<in> {''interactions'', ''openai'', ''openai-response'', ''claude'', ''gemini''}"

definition adjustExecutionProvidersForEntryProtocol :: "string \<Rightarrow> string list \<Rightarrow> string list" where
  "adjustExecutionProvidersForEntryProtocol entryProtocol providers =
     (if entryProtocol = ''interactions'' then preferExecutionProvider providers ''gemini-interactions''
      else if supportsNativeInteractionsEntryProtocol entryProtocol then providers
      else excludeExecutionProvider providers ''gemini-interactions'')"

section \<open>Errors\<close>

text \<open>The three refusals; the unknown model carries the name that the client sent.\<close>

datatype request_error =
    NativeInteractionsOnly
  | ImageEndpointsOnly string
  | UnknownModel string

fun request_status :: "request_error \<Rightarrow> int" where
  "request_status NativeInteractionsOnly = 400"
| "request_status (ImageEndpointsOnly m) = 503"
| "request_status (UnknownModel m) = 400"

section \<open>Image models\<close>

definition routeModelBaseName :: "string \<Rightarrow> string" where
  "routeModelBaseName model0 =
     (let model = trim_space model0
      in case last_index (CHR ''/'') model of
           None \<Rightarrow> model
         | Some idx \<Rightarrow> if idx + 1 < length model then trim_space (drop (idx + 1) model) else model)"

definition isOpenAIImageOnlyModel :: "string \<Rightarrow> bool" where
  "isOpenAIImageOnlyModel model \<longleftrightarrow>
     to_lower (trim_space (routeModelBaseName model)) \<in>
       {''gpt-image-1.5'', ''gpt-image-2'', ''grok-imagine-image'', ''grok-imagine-image-quality'', ''grok-imagine-image-2.0''}"

definition validateImageOnlyModel :: "string \<Rightarrow> bool \<Rightarrow> request_error option" where
  "validateImageOnlyModel modelName allowImageModel =
     (let baseModel = trim_space (suf_ModelName (ParseSuffix modelName));
          baseModel = (if baseModel = [] then trim_space modelName else baseModel)
      in if isOpenAIImageOnlyModel baseModel \<and> \<not> allowImageModel
         then Some (ImageEndpointsOnly (routeModelBaseName baseModel)) else None)"

section \<open>Providers of a request\<close>

record model_route_decision =
  rd_ExecutorPluginID :: string
  rd_Provider :: string
  rd_Model :: string

definition resolve_name ::
  "bool \<Rightarrow> (model_map list \<Rightarrow> model_map list) \<Rightarrow> gotime \<Rightarrow> string \<Rightarrow> model_registry \<Rightarrow> string \<times> model_registry" where
  "resolve_name home arrange now modelName r =
     (let initialSuffix = ParseSuffix modelName
      in if suf_ModelName initialSuffix = ''auto'' then
           (if home then (modelName, r)
            else (case ResolveAutoModel arrange (suf_ModelName initialSuffix) now r of
                    (resolvedBase, r) \<Rightarrow>
                      (if suf_HasSuffix initialSuffix
                       then resolvedBase @ ''('' @ suf_RawSuffix initialSuffix @ '')'' else resolvedBase, r)))
         else if home then (modelName, r) else ResolveAutoModel arrange modelName now r)"

definition request_providers :: "string \<Rightarrow> string \<Rightarrow> model_registry \<Rightarrow> string list" where
  "request_providers baseModel resolvedModelName r =
     (let providers = GetProviderName baseModel r
      in if providers = [] \<and> baseModel \<noteq> resolvedModelName then GetProviderName resolvedModelName r else providers)"

definition getRequestDetailsWithOptions ::
  "bool \<Rightarrow> (model_map list \<Rightarrow> model_map list) \<Rightarrow> gotime \<Rightarrow> string \<Rightarrow> bool \<Rightarrow> model_registry \<Rightarrow>
     (request_error + string list \<times> string) \<times> model_registry" where
  "getRequestDetailsWithOptions home arrange now modelName allowImageModel r =
     (case resolve_name home arrange now modelName r of
        (resolvedModelName, r) \<Rightarrow>
          (let baseModel = trim_space (suf_ModelName (ParseSuffix resolvedModelName))
           in (case validateImageOnlyModel baseModel allowImageModel of
                 Some e \<Rightarrow> Inl e
               | None \<Rightarrow>
                   if home then Inr ([''home''], resolvedModelName)
                   else (let providers = request_providers baseModel resolvedModelName r
                         in if providers = [] then Inl (UnknownModel modelName)
                            else Inr (providers, resolvedModelName)), r)))"

definition getRequestDetails ::
  "bool \<Rightarrow> (model_map list \<Rightarrow> model_map list) \<Rightarrow> gotime \<Rightarrow> string \<Rightarrow> model_registry \<Rightarrow>
     (request_error + string list \<times> string) \<times> model_registry" where
  "getRequestDetails home arrange now modelName r = getRequestDetailsWithOptions home arrange now modelName False r"

text \<open>A forced provider accepts the decision of a router only for itself.\<close>

definition forced_conflict :: "string \<Rightarrow> model_route_decision \<Rightarrow> bool" where
  "forced_conflict forcedProvider routeDecision \<longleftrightarrow>
     rd_ExecutorPluginID routeDecision \<noteq> [] \<or>
     (let routeProvider = to_lower (trim_space (rd_Provider routeDecision))
      in routeProvider \<noteq> [] \<and> routeProvider \<noteq> forcedProvider)"

definition validateNativeInteractionsExecution ::
  "string \<Rightarrow> string \<Rightarrow> model_route_decision \<Rightarrow> request_error option" where
  "validateNativeInteractionsExecution entryProtocol forced routeDecision =
     (let forcedProvider = to_lower (trim_space forced)
      in if forcedProvider = [] \<or> entryProtocol \<noteq> ''interactions'' then None
         else if forced_conflict forcedProvider routeDecision then Some NativeInteractionsOnly else None)"

definition providersForExecution ::
  "bool \<Rightarrow> (model_map list \<Rightarrow> model_map list) \<Rightarrow> gotime \<Rightarrow> string \<Rightarrow> string \<Rightarrow> bool \<Rightarrow> model_route_decision \<Rightarrow> string \<Rightarrow>
     model_registry \<Rightarrow> (request_error + string list \<times> string) \<times> model_registry" where
  "providersForExecution home arrange now modelName originalRequestedModel allowImageModel routeDecision forced r =
     (let forcedProvider = to_lower (trim_space forced)
      in if forcedProvider \<noteq> [] then
           (if forced_conflict forcedProvider routeDecision then (Inl NativeInteractionsOnly, r)
            else
              (let normalizedModel = (if trim_space modelName = [] then trim_space originalRequestedModel else trim_space modelName)
               in (case validateImageOnlyModel normalizedModel allowImageModel of
                     Some e \<Rightarrow> Inl e
                   | None \<Rightarrow> Inr ([forcedProvider], normalizedModel), r)))
         else if rd_Provider routeDecision \<noteq> [] then
           (let normalizedModel = (if rd_Model routeDecision \<noteq> [] then rd_Model routeDecision else originalRequestedModel)
            in (case validateImageOnlyModel normalizedModel allowImageModel of
                  Some e \<Rightarrow> Inl e
                | None \<Rightarrow> Inr ([rd_Provider routeDecision], normalizedModel), r))
         else getRequestDetailsWithOptions home arrange now modelName allowImageModel r)"

end
