(* ===== verification/Routing_Laws.thy ===== *)
theory Routing_Laws
  imports Request_Routing
begin

text \<open>
  Requests are routed to the providers whose clients supply the model, and to nobody else; \<open>auto\<close> keeps
  its thinking suffix; the reordering for an entry protocol keeps the providers.
\<close>

section \<open>Queries leave the registrations alone\<close>

lemma GetAvailableModels_keeps:
  "mr_models (snd (GetAvailableModels h now r)) = mr_models r"
  "mr_clientModels (snd (GetAvailableModels h now r)) = mr_clientModels r"
  "mr_clientProviders (snd (GetAvailableModels h now r)) = mr_clientProviders r"
  by (auto simp: GetAvailableModels_def split: option.split prod.split)

lemma GetFirst_keeps: "snd (GetFirstAvailableModel arrange h now r) = snd (GetAvailableModels h now r)"
  by (simp add: GetFirstAvailableModel_def case_prod_beta)

lemma ResolveAuto_state:
  "snd (ResolveAutoModel arrange m now r) = (if m = ''auto'' then snd (GetAvailableModels [] now r) else r)"
proof (cases "GetFirstAvailableModel arrange [] now r")
  case (Pair res r')
  with GetFirst_keeps [of arrange "[]" now r] show ?thesis by (cases res) (auto simp: ResolveAutoModel_def)
qed

lemma resolve_name_state:
  "snd (resolve_name home arrange now m r) = r \<or> snd (resolve_name home arrange now m r) = snd (GetAvailableModels [] now r)"
proof -
  have auto_state: "snd (ResolveAutoModel arrange x now r) = r \<or> snd (ResolveAutoModel arrange x now r) = snd (GetAvailableModels [] now r)" for x
    unfolding ResolveAuto_state by simp
  show ?thesis
    using auto_state [of "suf_ModelName (ParseSuffix m)"] auto_state [of m]
    by (cases "suf_ModelName (ParseSuffix m) = ''auto''"; cases home)
      (simp_all only: resolve_name_def Let_def case_prod_beta if_True if_False snd_conv simp_thms)
qed

lemma details_state: "snd (getRequestDetailsWithOptions home arrange now m img r) = snd (resolve_name home arrange now m r)"
  by (simp add: getRequestDetailsWithOptions_def Let_def case_prod_beta)

lemma provider_name_keeps: "mr_models r' = mr_models r \<Longrightarrow> GetProviderName m r' = GetProviderName m r"
  by (simp add: GetProviderName_def GetModelProviders_def)

lemma resolve_name_providers:
  "GetProviderName x (snd (resolve_name home arrange now m r)) = GetProviderName x r"
proof -
  have "mr_models (snd (resolve_name home arrange now m r)) = mr_models r"
    using resolve_name_state [of home arrange now m r] GetAvailableModels_keeps(1) [of "[]" now r] by metis
  then show ?thesis by (rule provider_name_keeps)
qed

section \<open>Routing\<close>

text \<open>The providers whose clients list a model.\<close>

definition suppliers_of :: "(string \<Rightarrow> (string \<times> string list) option) \<Rightarrow> string \<Rightarrow> string set" where
  "suppliers_of clients m = {p. p \<noteq> [] \<and> (\<exists>c ids. clients c = Some (p, ids) \<and> m \<in> set ids)}"

lemma suppliers_of_none: "suppliers_of (\<lambda>c. None) m = {}"
  by (simp add: suppliers_of_def)

lemma suppliers_of_upd:
  assumes "f c = None"
  shows "suppliers_of (f(c := Some (p, ids))) m = (if p \<noteq> [] \<and> m \<in> set ids then {p} else {}) \<union> suppliers_of f m"
proof (intro equalityI subsetI)
  fix q
  assume "q \<in> suppliers_of (f(c := Some (p, ids))) m"
  then obtain c' ids' where q: "q \<noteq> []" "(f(c := Some (p, ids))) c' = Some (q, ids')" "m \<in> set ids'"
    unfolding suppliers_of_def by blast
  show "q \<in> (if p \<noteq> [] \<and> m \<in> set ids then {p} else {}) \<union> suppliers_of f m"
  proof (cases "c' = c")
    case False
    with q have "q \<in> suppliers_of f m" unfolding suppliers_of_def by auto
    then show ?thesis by simp
  qed (use q in simp)
next
  fix q
  assume q: "q \<in> (if p \<noteq> [] \<and> m \<in> set ids then {p} else {}) \<union> suppliers_of f m"
  show "q \<in> suppliers_of (f(c := Some (p, ids))) m"
  proof (cases "q \<in> suppliers_of f m")
    case True
    then obtain c' ids' where c': "q \<noteq> []" "f c' = Some (q, ids')" "m \<in> set ids'" unfolding suppliers_of_def by blast
    with assms have "(f(c := Some (p, ids))) c' = Some (q, ids')" by auto
    with c' show ?thesis unfolding suppliers_of_def by blast
  next
    case False
    with q have "q = p" "p \<noteq> []" "m \<in> set ids" by (simp_all split: if_splits)
    moreover have "(f(c := Some (p, ids))) c = Some (p, ids)" by simp
    ultimately show ?thesis unfolding suppliers_of_def by blast
  qed
qed

lemma request_providers_set:
  assumes "registry_ok r"
  shows "set (request_providers b n r) =
      (if suppliers_of (registry_clients r) b = {} then suppliers_of (registry_clients r) n else suppliers_of (registry_clients r) b)"
    and "distinct (request_providers b n r)"
proof -
  have s: "set (GetProviderName m r) = suppliers_of (registry_clients r) m" for m
    using registered_providers(1) [OF assms] by (simp add: suppliers_of_def)
  have e: "GetProviderName b r = [] \<longleftrightarrow> suppliers_of (registry_clients r) b = {}" using s [of b] by (metis set_empty)
  show "set (request_providers b n r) =
      (if suppliers_of (registry_clients r) b = {} then suppliers_of (registry_clients r) n else suppliers_of (registry_clients r) b)"
    by (auto simp: request_providers_def Let_def e s)
  show "distinct (request_providers b n r)"
    using registered_providers(2) [OF assms] by (simp add: request_providers_def Let_def)
qed

text \<open>C24. Outside home mode a request is routed to exactly the providers whose clients list its model: the base name of
  the resolved model or, if nobody lists that, the full name with its suffix. It is refused as unknown
  exactly when there are none, with status 400, and an image-only model is refused before that.\<close>

theorem request_routed_to_suppliers:
  fixes ops :: "registry_op list" and m :: string and now :: gotime and arrange :: "model_map list \<Rightarrow> model_map list"
  defines "r \<equiv> fold registry_step ops empty_registry" and "clients \<equiv> fold clients_step ops (\<lambda>c. None)"
  defines "n \<equiv> fst (resolve_name False arrange now m r)"
  defines "b \<equiv> trim_space (suf_ModelName (ParseSuffix n))"
  defines "S \<equiv> (if suppliers_of clients b = {} then suppliers_of clients n else suppliers_of clients b)"
  shows "case fst (getRequestDetailsWithOptions False arrange now m allowImage r) of
      Inr (providers, name) \<Rightarrow> name = n \<and> providers \<noteq> [] \<and> distinct providers \<and> set providers = S \<and> validateImageOnlyModel b allowImage = None
    | Inl e \<Rightarrow> validateImageOnlyModel b allowImage = Some e \<or>
        validateImageOnlyModel b allowImage = None \<and> e = UnknownModel m \<and> request_status e = 400 \<and> S = {}"
proof -
  have ok: "registry_ok r" unfolding r_def by (rule reg.inv_run)
  obtain r' where res: "resolve_name False arrange now m r = (n, r')" by (metis n_def prod.collapse)
  have "GetProviderName x r' = GetProviderName x r" for x
    using resolve_name_providers [of x False arrange now m r] by (simp add: res)
  then have keep: "request_providers b n r' = request_providers b n r" by (simp add: request_providers_def Let_def)
  have "registry_clients r = clients" by (simp add: r_def clients_def registry_clients_run)
  then have ps: "set (request_providers b n r) = S" "distinct (request_providers b n r)"
    using request_providers_set [OF ok, of b n] by (simp_all add: S_def)
  have details: "fst (getRequestDetailsWithOptions False arrange now m allowImage r) =
      (case validateImageOnlyModel b allowImage of
         Some e \<Rightarrow> Inl e
       | None \<Rightarrow> if request_providers b n r = [] then Inl (UnknownModel m) else Inr (request_providers b n r, n))"
    by (simp add: getRequestDetailsWithOptions_def res Let_def b_def [symmetric] keep split: option.split)
  show ?thesis unfolding details using ps by (cases "validateImageOnlyModel b allowImage") auto
qed

theorem request_routed_to_suppliers_witness:
  "\<exists>ps. fst (getRequestDetailsWithOptions False id 5 ''m(high)'' False (fold registry_step two_clients empty_registry)) = Inr (ps, ''m(high)'') \<and>
     set ps = {''codex'', ''claude''}"
proof -
  let ?r = "fold registry_step two_clients empty_registry" and ?c = "fold clients_step two_clients (\<lambda>c. None)"
  have n: "fst (resolve_name False id 5 ''m(high)'' ?r) = ''m(high)''" by code_simp
  have b: "trim_space (suf_ModelName (ParseSuffix ''m(high)'')) = ''m''" by code_simp
  have v: "validateImageOnlyModel ''m'' False = None" by code_simp
  have l: "to_lower ''Codex'' = ''codex''" "to_lower ''claude'' = ''claude''" by code_simp+
  have step: "clients_step (OpRegister t c p [Some (sample_info ''m'')]) f = f(c := Some (to_lower p, [''m'']))" for t c p f
    by (simp add: sample_info_def)
  have c: "?c = (\<lambda>c. None)(''c1'' := Some (''codex'', [''m'']), ''c2'' := Some (''claude'', [''m'']))"
    unfolding two_clients_def by (simp only: fold_simps step l id_apply)
  have S: "suppliers_of ?c ''m'' = {''codex'', ''claude''}" by (simp add: c suppliers_of_upd suppliers_of_none insert_commute)
  define g where "g = fst (getRequestDetailsWithOptions False id 5 ''m(high)'' False ?r)"
  note routed = request_routed_to_suppliers [where ops = two_clients and m = "''m(high)''" and arrange = id and now = 5 and allowImage = False,
    unfolded n b v S, folded g_def]
  show ?thesis unfolding g_def [symmetric]
  proof (cases g)
    case (Inl e)
    with routed show "\<exists>ps. g = Inr (ps, ''m(high)'') \<and> set ps = {''codex'', ''claude''}" by simp
  next
    case (Inr x)
    with routed show "\<exists>ps. g = Inr (ps, ''m(high)'') \<and> set ps = {''codex'', ''claude''}" by (cases x) simp
  qed
qed

section \<open>Automatic choice of a model\<close>

lemma first_counted_Some:
  "first_counted now r ms = Some m \<Longrightarrow> 0 < GetModelCount m now r \<and> (\<exists>x\<in>set ms. map_of x ''id'' = Some (FieldString m))"
  by (induction now r ms rule: first_counted.induct) (auto split: option.splits model_field.splits if_splits)

lemma first_counted_None:
  "first_counted now r ms = None \<Longrightarrow> x \<in> set ms \<Longrightarrow> map_of x ''id'' = Some (FieldString m) \<Longrightarrow> GetModelCount m now r \<le> 0"
  by (induction now r ms rule: first_counted.induct) (auto split: option.splits model_field.splits if_splits)


text \<open>C25. A request for \<open>auto\<close> keeps its thinking suffix and gets a listed model with a client that can serve it, and it
  stays unresolved only when no listed model has one.\<close>

theorem auto_resolves:
  fixes r :: model_registry and now :: gotime
  assumes "\<And>ms. set (arrange ms) = set ms" "CHR ''('' \<notin> set v"
  defines "ids \<equiv> {i. \<exists>x\<in>set (fst (GetAvailableModels [] now r)). map_of x ''id'' = Some (FieldString i)}"
  shows "\<exists>x. ParseSuffix (fst (resolve_name False arrange now (''auto('' @ v @ '')'') r)) = \<lparr>suf_ModelName = x, suf_HasSuffix = True, suf_RawSuffix = v\<rparr> \<and>
     fst (resolve_name False arrange now ''auto'' r) = x \<and>
     (x \<in> ids \<and> 0 < GetModelCount x now r \<or> x = ''auto'' \<and> (\<forall>i\<in>ids. GetModelCount i now r \<le> 0))"
proof -
  obtain ms r' where av: "GetAvailableModels [] now r = (ms, r')" by fastforce
  have "mr_models r' = mr_models r" using GetAvailableModels_keeps(1) [of "[]" now r] by (simp add: av)
  then have count: "GetModelCount i now r' = GetModelCount i now r" for i by (simp add: GetModelCount_def)
  define x where "x = fst (ResolveAutoModel arrange ''auto'' now r)"
  have x: "x = (case first_counted now r' (arrange ms) of None \<Rightarrow> ''auto'' | Some i \<Rightarrow> i)"
    using assms(1) [of "[]"]
    by (auto simp: x_def ResolveAutoModel_def GetFirstAvailableModel_def av split: option.split)
  have "x \<in> ids \<and> 0 < GetModelCount x now r \<or> x = ''auto'' \<and> (\<forall>i\<in>ids. GetModelCount i now r \<le> 0)"
  proof (cases "first_counted now r' (arrange ms)")
    case None
    then show ?thesis using first_counted_None [OF None] by (auto simp: x ids_def av assms(1) count)
  next
    case (Some i)
    then show ?thesis using first_counted_Some [OF Some] by (auto simp: x ids_def av assms(1) count)
  qed
  moreover have "ParseSuffix ''auto'' = \<lparr>suf_ModelName = ''auto'', suf_HasSuffix = False, suf_RawSuffix = []\<rparr>"
    by (rule ParseSuffix_plain) simp
  then have "fst (resolve_name False arrange now ''auto'' r) = x" by (simp add: resolve_name_def x_def case_prod_beta)
  moreover have "fst (resolve_name False arrange now (''auto('' @ v @ '')'') r) = x @ ''('' @ v @ '')''"
    using ParseSuffix_build [OF assms(2), of "''auto''"] by (simp add: resolve_name_def x_def case_prod_beta)
  ultimately show ?thesis using ParseSuffix_build [OF assms(2), of x] by metis
qed

theorem auto_resolves_witness:
  "fst (resolve_name False rev 5 ''auto(high)'' (fold registry_step two_clients empty_registry)) = ''m(high)''"
proof -
  let ?r = "fold registry_step two_clients empty_registry"
  have "fst (resolve_name False rev 5 ''auto'' ?r) = ''m''" by code_simp
  moreover have "fst (resolve_name False rev 5 ''auto(high)'' ?r) = ''m(high)''" by code_simp
  moreover note auto_resolves [of rev "''high''" 5 ?r]
  ultimately show ?thesis by simp
qed

section \<open>Entry protocols\<close>

lemma extract_first_Some:
  "extract_first P xs = Some (x, ys) \<Longrightarrow> P x \<and> mset xs = add_mset x (mset ys)"
  by (induction xs arbitrary: ys) (auto split: if_splits option.splits)

lemma extract_first_None: "extract_first P xs = None \<longleftrightarrow> (\<forall>x\<in>set xs. \<not> P x)"
  by (induction xs) (auto split: option.splits)

abbreviation (input) norm_provider :: "string \<Rightarrow> string" where
  "norm_provider p \<equiv> to_lower (trim_space p)"

lemma prefer_provider:
  "mset (preferExecutionProvider ps p) = mset ps"
  by (auto simp: preferExecutionProvider_def Let_def extract_first_Some split: option.split)

lemma prefer_provider_first:
  assumes "norm_provider p \<noteq> []" "x \<in> set ps" "norm_provider x = norm_provider p"
  shows "norm_provider (hd (preferExecutionProvider ps p)) = norm_provider p"
proof (cases "length ps < 2")
  case True
  then have "ps = [x]" using assms(2) by (cases ps; cases "tl ps") auto
  then show ?thesis using assms(3) by (simp add: preferExecutionProvider_def)
next
  case False
  have "extract_first (\<lambda>q. norm_provider q = norm_provider p) ps \<noteq> None"
    using assms(2,3) unfolding extract_first_None by auto
  then obtain q qs where "extract_first (\<lambda>q. norm_provider q = norm_provider p) ps = Some (q, qs)" by fast
  then show ?thesis using assms(1) False extract_first_Some by (auto simp: preferExecutionProvider_def Let_def)
qed

lemma exclude_provider:
  assumes "distinct (map (\<lambda>x. to_lower (trim_space x)) ps)" "norm_provider p \<noteq> []"
  shows "set (excludeExecutionProvider ps p) = {x \<in> set ps. norm_provider x \<noteq> norm_provider p}"
proof (cases "extract_first (\<lambda>q. norm_provider q = norm_provider p) ps")
  case None
  then have "\<forall>x\<in>set ps. norm_provider x \<noteq> norm_provider p" by (simp add: extract_first_None)
  then show ?thesis by (auto simp: excludeExecutionProvider_def Let_def None)
next
  case (Some e)
  obtain q qs where e: "e = (q, qs)" by fastforce
  note ex = extract_first_Some [OF Some [unfolded e]]
  have "mset (map (\<lambda>x. to_lower (trim_space x)) ps) = mset (map (\<lambda>x. to_lower (trim_space x)) (q # qs))"
    using ex by simp
  then have d: "distinct (map (\<lambda>x. to_lower (trim_space x)) (q # qs))" using assms(1) mset_eq_imp_distinct_iff by blast
  have "set ps = insert q (set qs)" using ex by (metis mset_eq_setD list.simps(15) mset.simps(2))
  moreover have "excludeExecutionProvider ps p = qs"
    using assms(2) ex Some by (auto simp: excludeExecutionProvider_def Let_def e)
  moreover have "\<forall>x\<in>set qs. norm_provider x \<noteq> norm_provider p" using d ex by (auto simp: image_iff)
  ultimately show ?thesis using ex by auto
qed

end
