(* ===== verification/Cooldown_Records.thy ===== *)
theory Cooldown_Records
  imports Cooldown
begin

text \<open>
  Cooldowns that outlive the process, and their reset: which credentials have cooldowns at all
  (\<open>quotaCooldownDisabledForAuthWithConfig\<close> in \<open>conductor_cooldown.go\<close>, with the parts of the configuration
  it reads), the records that are persisted for a credential, restoring them into a credential, and
  clearing or resetting a credential. The store is a parameter: what it loads is a list of records. A nil
  credential is \<open>None\<close>; the map of credentials is an association list.
\<close>

section \<open>Cooling policy\<close>

record compat_config =
  cp_Name :: string
  cp_Disabled :: bool
  cp_DisableCooling :: "bool option"

record cooling_config =
  cf_HomeEnabled :: bool
  cf_DisableCooling :: bool
  cf_OpenAICompatibility :: "compat_config list"

definition find_compat :: "'a compat_config_scheme list \<Rightarrow> string \<Rightarrow> string \<Rightarrow> string \<Rightarrow> 'a compat_config_scheme option" where
  "find_compat configs providerKey compatName authProvider =
     (let candidates = filter (\<lambda>v. v \<noteq> []) (map trim_space [compatName, providerKey, authProvider])
      in find (\<lambda>compat. \<not> cp_Disabled compat \<and> (\<exists>candidate\<in>set candidates. equal_fold (trim_space candidate) (cp_Name compat))) configs)"

definition resolveOpenAICompatConfig ::
  "cooling_config option \<Rightarrow> string \<Rightarrow> string \<Rightarrow> string \<Rightarrow> compat_config option" where
  "resolveOpenAICompatConfig cfg providerKey compatName authProvider =
     (case cfg of
        None \<Rightarrow> None
      | Some c \<Rightarrow> find_compat (cf_OpenAICompatibility c) providerKey compatName authProvider)"

definition providerCoolingOverrideForAuth :: "Auth option \<Rightarrow> cooling_config option \<Rightarrow> bool option" where
  "providerCoolingOverrideForAuth auth cfg =
     (case auth of
        None \<Rightarrow> None
      | Some a \<Rightarrow>
          if cfg = None then None
          else
            (let provider = to_lower (trim_space (auth_Provider a));
                 providerKey = trim_space (map_str (auth_Attributes a) ''provider_key'');
                 compatName = trim_space (map_str (auth_Attributes a) ''compat_name'')
             in if provider = [] then None
                else if providerKey = [] \<and> compatName = [] \<and> provider \<noteq> ''openai-compatibility'' then None
                else (case resolveOpenAICompatConfig cfg (if providerKey = [] then provider else providerKey) compatName provider of
                        None \<Rightarrow> None
                      | Some entry \<Rightarrow> cp_DisableCooling entry)))"

definition quotaCooldownDisabledForAuthWithConfig ::
  "bool \<Rightarrow> Auth option \<Rightarrow> cooling_config option \<Rightarrow> bool" where
  "quotaCooldownDisabledForAuthWithConfig quotaCooldownDisabled auth cfg =
     (if (case cfg of None \<Rightarrow> False | Some c \<Rightarrow> cf_HomeEnabled c) then True
      else case DisableCoolingOverride auth of
             Some override \<Rightarrow> override
           | None \<Rightarrow>
               (case providerCoolingOverrideForAuth auth cfg of
                  Some override \<Rightarrow> override
                | None \<Rightarrow>
                    if (case cfg of None \<Rightarrow> False | Some c \<Rightarrow> cf_DisableCooling c) then True else quotaCooldownDisabled))"

definition quotaCooldownDisabledForAuth :: "bool \<Rightarrow> Auth option \<Rightarrow> bool" where
  "quotaCooldownDisabledForAuth quotaCooldownDisabled auth = quotaCooldownDisabledForAuthWithConfig quotaCooldownDisabled auth None"

section \<open>Records\<close>

record CooldownStateRecord =
  cr_Provider :: string
  cr_AuthID :: string
  cr_AuthFile :: string
  cr_Model :: string
  cr_Status :: string
  cr_NextRetryAfter :: gotime
  cr_Reason :: string
  cr_Quota :: QuotaState
  cr_LastError :: "AuthError option"
  cr_UpdatedAt :: gotime

definition cooldownAuthFile :: "Auth option \<Rightarrow> string" where
  "cooldownAuthFile auth =
     (case auth of
        None \<Rightarrow> []
      | Some a \<Rightarrow>
          (let path = trim_space (map_str (auth_Attributes a) ''path'')
           in if path \<noteq> [] then path else trim_space (auth_FileName a)))"

definition cooldownReason :: "string \<Rightarrow> QuotaState \<Rightarrow> AuthError option \<Rightarrow> string" where
  "cooldownReason statusMessage quota lastErr =
     (let reason = trim_space (quota_Reason quota); message = trim_space statusMessage
      in if reason \<noteq> [] then reason
         else if message \<noteq> [] then message
         else (case lastErr of
                 None \<Rightarrow> []
               | Some e \<Rightarrow> if trim_space (err_Code e) \<noteq> [] then trim_space (err_Code e) else trim_space (err_Message e)))"

definition authCooldownStateRecord :: "Auth option \<Rightarrow> gotime \<Rightarrow> CooldownStateRecord option" where
  "authCooldownStateRecord auth now =
     (case auth of
        None \<Rightarrow> None
      | Some a \<Rightarrow>
          if \<not> auth_Unavailable a \<or> auth_NextRetryAfter a = 0 \<or> \<not> time_after (auth_NextRetryAfter a) now then None
          else Some \<lparr>cr_Provider = trim_space (auth_Provider a), cr_AuthID = auth_ID a, cr_AuthFile = cooldownAuthFile auth,
                     cr_Model = [], cr_Status = ''cooling'', cr_NextRetryAfter = auth_NextRetryAfter a,
                     cr_Reason = cooldownReason (auth_StatusMessage a) (auth_Quota a) (auth_LastError a),
                     cr_Quota = cooldownFieldsOf (auth_Quota a), cr_LastError = auth_LastError a,
                     cr_UpdatedAt = auth_UpdatedAt a\<rparr>)"

definition modelCooldownStateRecord ::
  "Auth option \<Rightarrow> string \<Rightarrow> ModelState option \<Rightarrow> gotime \<Rightarrow> CooldownStateRecord option" where
  "modelCooldownStateRecord auth model0 state now =
     (let model = trim_space model0
      in case auth of
           None \<Rightarrow> None
         | Some a \<Rightarrow>
             (case state of
                None \<Rightarrow> None
              | Some st \<Rightarrow>
                  if model = [] \<or> \<not> ms_Unavailable st \<or> ms_NextRetryAfter st = 0 \<or> \<not> time_after (ms_NextRetryAfter st) now then None
                  else Some \<lparr>cr_Provider = trim_space (auth_Provider a), cr_AuthID = auth_ID a, cr_AuthFile = cooldownAuthFile auth,
                             cr_Model = model, cr_Status = ''cooling'', cr_NextRetryAfter = ms_NextRetryAfter st,
                             cr_Reason = cooldownReason (ms_StatusMessage st) (ms_Quota st) (ms_LastError st),
                             cr_Quota = cooldownFieldsOf (ms_Quota st), cr_LastError = ms_LastError st,
                             cr_UpdatedAt = ms_UpdatedAt st\<rparr>))"

fun model_records :: "Auth option \<Rightarrow> gotime \<Rightarrow> states \<Rightarrow> CooldownStateRecord list" where
  "model_records auth now [] = []"
| "model_records auth now ((model, state) # ms) =
     (case modelCooldownStateRecord auth model state now of
        None \<Rightarrow> model_records auth now ms
      | Some record \<Rightarrow> record # model_records auth now ms)"

text \<open>\<open>disabled\<close> is the cooling policy, \<open>Manager.cooldownDisabledForAuth\<close>.\<close>

definition cooldownStateRecordsForAuthLocked ::
  "(Auth option \<Rightarrow> bool) \<Rightarrow> Auth option \<Rightarrow> gotime \<Rightarrow> CooldownStateRecord list" where
  "cooldownStateRecordsForAuthLocked disabled auth now =
     (case auth of
        None \<Rightarrow> []
      | Some a \<Rightarrow>
          if auth_ID a = [] \<or> auth_Disabled a \<or> auth_Status a = StatusDisabled \<or> disabled auth then []
          else sort_key cr_Model
                 ((case authCooldownStateRecord auth now of None \<Rightarrow> [] | Some record \<Rightarrow> [record]) @
                  model_records auth now (auth_ModelStates a)))"

type_synonym auths = "(string \<times> Auth option) list"

definition cooldownStateRecordsSnapshot :: "(Auth option \<Rightarrow> bool) \<Rightarrow> auths \<Rightarrow> gotime \<Rightarrow> CooldownStateRecord list" where
  "cooldownStateRecordsSnapshot disabled auths now =
     sort_key (\<lambda>r. (cr_Provider r, cr_AuthID r, cr_Model r))
       (concat (map (\<lambda>(authID, auth). cooldownStateRecordsForAuthLocked disabled auth now) auths))"

definition cooldownQuotaEqual :: "QuotaState \<Rightarrow> QuotaState \<Rightarrow> bool" where
  "cooldownQuotaEqual a b \<longleftrightarrow>
     quota_Exceeded a = quota_Exceeded b \<and> quota_Reason a = quota_Reason b \<and>
     quota_BackoffLevel a = quota_BackoffLevel b \<and> quota_NextRecoverAt a = quota_NextRecoverAt b"

definition cooldownErrorEqual :: "AuthError option \<Rightarrow> AuthError option \<Rightarrow> bool" where
  "cooldownErrorEqual a b \<longleftrightarrow>
     (case (a, b) of
        (Some x, Some y) \<Rightarrow> err_Code x = err_Code y \<and> err_Message x = err_Message y \<and>
                            err_Retryable x = err_Retryable y \<and> err_HTTPStatus x = err_HTTPStatus y
      | _ \<Rightarrow> a = None \<and> b = None)"

definition cooldownStateRecordEqual :: "CooldownStateRecord \<Rightarrow> CooldownStateRecord \<Rightarrow> bool" where
  "cooldownStateRecordEqual a b \<longleftrightarrow>
     (if cr_Provider a \<noteq> cr_Provider b \<or> cr_AuthID a \<noteq> cr_AuthID b \<or> cr_AuthFile a \<noteq> cr_AuthFile b \<or>
         cr_Model a \<noteq> cr_Model b \<or> cr_Status a \<noteq> cr_Status b \<or> cr_Reason a \<noteq> cr_Reason b \<or>
         cr_NextRetryAfter a \<noteq> cr_NextRetryAfter b \<or> cr_UpdatedAt a \<noteq> cr_UpdatedAt b \<or>
         \<not> cooldownQuotaEqual (cr_Quota a) (cr_Quota b) then False
      else cooldownErrorEqual (cr_LastError a) (cr_LastError b))"

definition cooldownStateRecordsEqual :: "CooldownStateRecord list \<Rightarrow> CooldownStateRecord list \<Rightarrow> bool" where
  "cooldownStateRecordsEqual a b \<longleftrightarrow> list_all2 cooldownStateRecordEqual a b"

section \<open>Restoring\<close>

text \<open>A record for the whole credential.\<close>

definition restore_auth :: "CooldownStateRecord \<Rightarrow> gotime \<Rightarrow> QuotaState \<Rightarrow> Auth \<Rightarrow> Auth" where
  "restore_auth record updatedAt quota auth =
     (let reason = trim_space (cr_Reason record)
      in auth\<lparr>auth_Unavailable := True, auth_Status := StatusError, auth_NextRetryAfter := cr_NextRetryAfter record,
           auth_Quota := mergeQuotaObservation (applyCooldownFields (auth_Quota auth) quota) quota,
           auth_UpdatedAt := updatedAt,
           auth_StatusMessage := (if reason \<noteq> [] then reason else auth_StatusMessage auth),
           auth_LastError := cr_LastError record\<rparr>)"

text \<open>A record for a model. The merged state replaces the one of the model; a name that is not blank has a
  key, so there always is a state.\<close>

definition restored_state :: "CooldownStateRecord \<Rightarrow> gotime \<Rightarrow> QuotaState \<Rightarrow> ModelState" where
  "restored_state record updatedAt quota =
     \<lparr>ms_Status = StatusError, ms_StatusMessage = trim_space (cr_Reason record), ms_Unavailable = True,
      ms_NextRetryAfter = cr_NextRetryAfter record, ms_LastError = cr_LastError record, ms_Quota = quota,
      ms_UpdatedAt = updatedAt\<rparr>"

definition restore_model :: "CooldownStateRecord \<Rightarrow> gotime \<Rightarrow> gotime \<Rightarrow> QuotaState \<Rightarrow> Auth \<Rightarrow> Auth" where
  "restore_model record now updatedAt quota auth =
     (let model = trim_space (cr_Model record)
      in case ensureModelState auth model of
           (state, a) \<Rightarrow>
             updateAggregatedAvailability now
               (set_state (canonicalModelKey model) (merge_states state (restored_state record updatedAt quota)) a))"

definition restore_record :: "CooldownStateRecord \<Rightarrow> gotime \<Rightarrow> Auth \<Rightarrow> Auth" where
  "restore_record record now auth =
     (let updatedAt = (if cr_UpdatedAt record = 0 then now else cr_UpdatedAt record);
          quota = (if quota_Exceeded (cr_Quota record) \<and> quota_NextRecoverAt (cr_Quota record) = 0
                   then (cr_Quota record)\<lparr>quota_NextRecoverAt := cr_NextRetryAfter record\<rparr> else cr_Quota record)
      in if trim_space (cr_Model record) = [] then restore_auth record updatedAt quota auth
         else restore_model record now updatedAt quota auth)"

definition restoreCooldownRecordLocked ::
  "(Auth option \<Rightarrow> bool) \<Rightarrow> CooldownStateRecord \<Rightarrow> gotime \<Rightarrow> auths \<Rightarrow> bool \<times> auths" where
  "restoreCooldownRecordLocked disabled record now auths =
     (let authID = trim_space (cr_AuthID record)
      in if authID = [] \<or> cr_NextRetryAfter record = 0 \<or> \<not> time_after (cr_NextRetryAfter record) now then (False, auths)
         else case map_of auths authID of
                Some (Some a) \<Rightarrow>
                  if auth_Disabled a \<or> auth_Status a = StatusDisabled \<or> disabled (Some a) then (False, auths)
                  else (True, map_put authID (Some (restore_record record now a)) auths)
              | _ \<Rightarrow> (False, auths))"

text \<open>Records of models first, then those of credentials; the credentials that changed, by their IDs.\<close>

definition restore_step ::
  "(Auth option \<Rightarrow> bool) \<Rightarrow> gotime \<Rightarrow> CooldownStateRecord \<Rightarrow> auths \<times> (string \<times> Auth) list \<Rightarrow> auths \<times> (string \<times> Auth) list" where
  "restore_step disabled now record st =
     (case restoreCooldownRecordLocked disabled record now (fst st) of
        (restored, auths) \<Rightarrow>
          (auths,
           if restored
           then (case map_of auths (trim_space (cr_AuthID record)) of
                   Some (Some a) \<Rightarrow> map_put (auth_ID a) a (snd st)
                 | _ \<Rightarrow> snd st)
           else snd st))"

definition RestoreCooldownStates ::
  "(Auth option \<Rightarrow> bool) \<Rightarrow> gotime \<Rightarrow> CooldownStateRecord list \<Rightarrow> auths \<Rightarrow> auths \<times> (string \<times> Auth) list" where
  "RestoreCooldownStates disabled now records auths =
     (let authLevelRecords = filter (\<lambda>r. trim_space (cr_Model r) = []) records;
          modelRecords = filter (\<lambda>r. trim_space (cr_Model r) \<noteq> []) records
      in fold (restore_step disabled now) (modelRecords @ authLevelRecords) (auths, []))"

section \<open>Clearing and resetting\<close>

definition quota_open :: "bool \<Rightarrow> gotime \<Rightarrow> QuotaState \<Rightarrow> bool" where
  "quota_open unavailable nextRetryAfter quota \<longleftrightarrow>
     unavailable \<or> nextRetryAfter \<noteq> 0 \<or> quota_Exceeded quota \<or> quota_NextRecoverAt quota \<noteq> 0"

definition clear_state :: "gotime \<Rightarrow> ModelState \<Rightarrow> ModelState" where
  "clear_state now state =
     (if quota_open (ms_Unavailable state) (ms_NextRetryAfter state) (ms_Quota state)
      then state\<lparr>ms_Unavailable := False, ms_NextRetryAfter := 0, ms_Quota := applyCooldownFields (ms_Quota state) zero_quota,
             ms_UpdatedAt := now\<rparr>
      else state)"

definition clearCooldownStateForAuth :: "gotime \<Rightarrow> Auth \<Rightarrow> bool \<times> Auth" where
  "clearCooldownStateForAuth now auth =
     (let open_auth = quota_open (auth_Unavailable auth) (auth_NextRetryAfter auth) (auth_Quota auth);
          changed = (open_auth \<or>
            (\<exists>st\<in>set (live_states (auth_ModelStates auth)). quota_open (ms_Unavailable st) (ms_NextRetryAfter st) (ms_Quota st)));
          auth = (if open_auth
                  then auth\<lparr>auth_Unavailable := False, auth_NextRetryAfter := 0,
                         auth_Quota := applyCooldownFields (auth_Quota auth) zero_quota, auth_UpdatedAt := now\<rparr>
                  else auth);
          auth = auth\<lparr>auth_ModelStates := map (\<lambda>(k, s). (k, map_option (clear_state now) s)) (auth_ModelStates auth)\<rparr>
      in (changed, if length (auth_ModelStates auth) > 0 then updateAggregatedAvailability now auth else auth))"

fun dedupe_loop :: "string list \<Rightarrow> string list \<Rightarrow> string list" where
  "dedupe_loop seen [] = []"
| "dedupe_loop seen (v # values) =
     (let value = trim_space v
      in if value = [] \<or> value \<in> set seen then dedupe_loop seen values else value # dedupe_loop (value # seen) values)"

definition dedupeStrings :: "string list \<Rightarrow> string list" where
  "dedupeStrings values = (if length values < 2 then values else dedupe_loop [] values)"

text \<open>The credential after a reset, and the models whose suspension the registry lifts.\<close>

definition reset_states :: "gotime \<Rightarrow> states \<Rightarrow> states" where
  "reset_states now ms = map (\<lambda>(k, s). (k, if trim_space k = [] then s else map_option (resetModelState now) s)) ms"

definition reset_auth :: "gotime \<Rightarrow> string list \<Rightarrow> Auth \<Rightarrow> Auth \<times> string list" where
  "reset_auth now registeredModels auth =
     (let models = filter (\<lambda>k. trim_space k \<noteq> []) (map fst (auth_ModelStates auth));
          auth = auth\<lparr>auth_ModelStates := reset_states now (auth_ModelStates auth)\<rparr>
      in case clearCooldownStateForAuth now auth of
           (cleared, a) \<Rightarrow>
             (let models = (if models = [] then registeredModels else models);
                  a = (if \<not> cleared \<and> length (auth_ModelStates a) > 0 then updateAggregatedAvailability now a else a)
              in ((if \<not> auth_Disabled a \<and> auth_Status a \<noteq> StatusDisabled then settle_status now a else a)\<lparr>auth_UpdatedAt := now\<rparr>,
                  dedupeStrings models)))"

end
