(* ===== verification/Cooldown_Restart.thy ===== *)
theory Cooldown_Restart
  imports Cooldown_Records Result_Marks
begin

text \<open>
  A reset credential is selectable for every model at once, and cooldowns survive a restart: restoring the
  persisted records into a credential that was just loaded gives back every open window of its models and
  of the credential itself.
\<close>

section \<open>Reset\<close>

definition idle_quota :: "QuotaState \<Rightarrow> bool" where
  "idle_quota q \<longleftrightarrow> \<not> quota_Exceeded q"

definition idle_states :: "states \<Rightarrow> bool" where
  "idle_states ms \<longleftrightarrow> (\<forall>k st. (k, Some st) \<in> set ms \<longrightarrow>
     \<not> ms_Unavailable st \<and> idle_quota (ms_Quota st) \<and> (trim_space k \<noteq> [] \<longrightarrow> ms_Status st \<noteq> StatusDisabled))"

lemma idle_live: "idle_states ms \<Longrightarrow> st \<in> set (live_states ms) \<Longrightarrow> \<not> ms_Unavailable st \<and> idle_quota (ms_Quota st)"
  by (force simp: live_states_def idle_states_def split: option.splits)

lemma idle_aggregate:
  "(\<And>st. st \<in> set sts \<Longrightarrow> idle_quota (ms_Quota st)) \<Longrightarrow> \<not> ag_quotaExceeded ag \<Longrightarrow> \<not> ag_quotaExceeded (fold (aggregate_step now) sts ag)"
  by (induction sts arbitrary: ag) (auto simp: aggregate_step_def Let_def idle_quota_def)

lemma idle_map:
  assumes "\<And>k st. (k, Some st) \<in> set ms \<Longrightarrow>
    \<not> ms_Unavailable (f st) \<and> idle_quota (ms_Quota (f st)) \<and> (trim_space k \<noteq> [] \<longrightarrow> ms_Status (f st) \<noteq> StatusDisabled)"
  shows "idle_states (map (\<lambda>(k, s). (k, map_option f s)) ms)"
  unfolding idle_states_def
proof (intro allI impI)
  fix k st
  assume "(k, Some st) \<in> set (map (\<lambda>(k, s). (k, map_option f s)) ms)"
  then obtain x where x: "x \<in> set ms" "(k, Some st) = (\<lambda>(k, s). (k, map_option f s)) x" unfolding set_map by (rule imageE)
  obtain n s where "x = (n, s)" by fastforce
  with x obtain st' where "(k, Some st') \<in> set ms" "st = f st'" by (cases s) simp_all
  then show "\<not> ms_Unavailable st \<and> idle_quota (ms_Quota st) \<and> (trim_space k \<noteq> [] \<longrightarrow> ms_Status st \<noteq> StatusDisabled)"
    using assms by blast
qed

lemma idle_expire:
  assumes "idle_states ms"
  shows "idle_states (map (\<lambda>(k, s). (k, map_option (expire_state now) s)) ms)"
proof (rule idle_map)
  fix k st
  assume "(k, Some st) \<in> set ms"
  then have "\<not> ms_Unavailable st \<and> idle_quota (ms_Quota st) \<and> (trim_space k \<noteq> [] \<longrightarrow> ms_Status st \<noteq> StatusDisabled)"
    using assms unfolding idle_states_def by blast
  then show "\<not> ms_Unavailable (expire_state now st) \<and> idle_quota (ms_Quota (expire_state now st)) \<and>
      (trim_space k \<noteq> [] \<longrightarrow> ms_Status (expire_state now st) \<noteq> StatusDisabled)"
    by (simp add: expire_state_def)
qed

lemma update_idle:
  assumes "idle_states (auth_ModelStates a)" "idle_quota (auth_Quota a)"
  shows "idle_states (auth_ModelStates (updateAggregatedAvailability now a))" "idle_quota (auth_Quota (updateAggregatedAvailability now a))"
proof -
  have "\<not> ag_quotaExceeded (aggregate_states now (auth_ModelStates a))"
    unfolding aggregate_states_def by (rule idle_aggregate) (use idle_live [OF assms(1)] in auto)
  then show "idle_quota (auth_Quota (updateAggregatedAvailability now a))" using assms(2)
    by (auto simp: updateAggregatedAvailability_def clearAggregatedAvailability_def aggregate_quota_def idle_quota_def Let_def)
  show "idle_states (auth_ModelStates (updateAggregatedAvailability now a))" using assms(1) idle_expire [OF assms(1)]
    by (auto simp: updateAggregatedAvailability_def clearAggregatedAvailability_def Let_def)
qed

lemma update_length: "length (auth_ModelStates (updateAggregatedAvailability now a)) = length (auth_ModelStates a)"
  by (simp add: updateAggregatedAvailability_def clearAggregatedAvailability_def Let_def)

lemma update_nil: "auth_ModelStates (updateAggregatedAvailability now a) = [] \<longleftrightarrow> auth_ModelStates a = []"
  using update_length [of now a] by (metis length_0_conv)

lemma idle_unblocked:
  assumes "idle_states ms" "k \<noteq> []" "\<not> fst acc"
  shows "\<not> fst (model_states_block k t ms matched acc)"
  using assms(1)
proof (induction ms arbitrary: matched)
  case Nil
  then show ?case using assms(3) by simp
next
  case (Cons e ms)
  obtain n s where e: "e = (n, s)" by fastforce
  have ms: "idle_states ms" using Cons.prems by (auto simp: idle_states_def)
  show ?case
  proof (cases s)
    case None
    then show ?thesis using Cons.IH [OF ms] by (simp add: e)
  next
    case (Some st)
    have st: "\<not> ms_Unavailable st" "\<not> quota_Exceeded (ms_Quota st)" "trim_space n \<noteq> [] \<Longrightarrow> ms_Status st \<noteq> StatusDisabled"
      using Cons.prems [unfolded idle_states_def, rule_format, of n st] by (simp_all add: e Some idle_quota_def)
    have sb: "state_block st t = (False, blockReasonNone, zero_time)" using st by (simp add: state_block_def availabilityBlock_def)
    show ?thesis
    proof (cases "canonicalModelKey n = k")
      case True
      then have "trim_space n \<noteq> []" using assms(2) canonical_empty [of n] by simp
      then have "ms_Status st \<noteq> StatusDisabled" by (rule st(3))
      then have "model_states_block k t (e # ms) matched acc = model_states_block k t ms True acc" by (simp add: e Some True sb)
      then show ?thesis using Cons.IH [OF ms] by simp
    next
      case False
      then have "model_states_block k t (e # ms) matched acc = model_states_block k t ms matched acc" by (simp add: e Some)
      then show ?thesis using Cons.IH [OF ms] by simp
    qed
  qed
qed

lemma cleared_idle:
  assumes "\<forall>(k, s)\<in>set (auth_ModelStates a). \<forall>st. s = Some st \<longrightarrow> trim_space k \<noteq> [] \<longrightarrow> ms_Status st \<noteq> StatusDisabled"
    and c: "clearCooldownStateForAuth now a = (ch, b)"
  shows "idle_states (auth_ModelStates b)" "idle_quota (auth_Quota b)" "auth_Disabled b = auth_Disabled a" "auth_Status b = auth_Status a"
    "auth_ModelStates b = [] \<Longrightarrow> \<not> auth_Unavailable b" "auth_ModelStates b = [] \<longleftrightarrow> auth_ModelStates a = []"
proof -
  define x where "x = (if quota_open (auth_Unavailable a) (auth_NextRetryAfter a) (auth_Quota a)
     then a\<lparr>auth_Unavailable := False, auth_NextRetryAfter := 0, auth_Quota := applyCooldownFields (auth_Quota a) zero_quota,
       auth_UpdatedAt := now\<rparr> else a)"
  define y where "y = x\<lparr>auth_ModelStates := map (\<lambda>(k, s). (k, map_option (clear_state now) s)) (auth_ModelStates x)\<rparr>"
  have b: "b = (if length (auth_ModelStates y) > 0 then updateAggregatedAvailability now y else y)"
    using c unfolding clearCooldownStateForAuth_def Let_def x_def [symmetric] y_def [symmetric] by (auto simp only: prod.inject)
  have x: "auth_Disabled x = auth_Disabled a" "auth_Status x = auth_Status a" "\<not> auth_Unavailable x" "idle_quota (auth_Quota x)"
    "auth_ModelStates x = auth_ModelStates a"
    by (simp_all add: x_def quota_open_def idle_quota_def)
  have "\<not> ms_Unavailable (clear_state now st) \<and> idle_quota (ms_Quota (clear_state now st)) \<and> ms_Status (clear_state now st) = ms_Status st" for st
    by (simp add: clear_state_def quota_open_def idle_quota_def)
  then have y: "idle_states (auth_ModelStates y)" "idle_quota (auth_Quota y)"
    using assms(1) x unfolding y_def by (auto intro!: idle_map)
  show "idle_states (auth_ModelStates b)" "idle_quota (auth_Quota b)" unfolding b using update_idle [OF y] y by presburger+
  show "auth_Disabled b = auth_Disabled a" "auth_Status b = auth_Status a" by (simp_all add: b y_def x)
  have "length (auth_ModelStates b) = length (auth_ModelStates a)" by (simp add: b y_def x update_length)
  then show e: "auth_ModelStates b = [] \<longleftrightarrow> auth_ModelStates a = []" by (metis length_0_conv)
  show "auth_ModelStates b = [] \<Longrightarrow> \<not> auth_Unavailable b" unfolding e using x by (simp add: b y_def)
qed

lemma reset_auth_idle:
  assumes "enabled a"
  shows "idle_states (auth_ModelStates (fst (reset_auth now ms a)))" "idle_quota (auth_Quota (fst (reset_auth now ms a)))"
    "enabled (fst (reset_auth now ms a))"
    "auth_ModelStates (fst (reset_auth now ms a)) = [] \<Longrightarrow> \<not> auth_Unavailable (fst (reset_auth now ms a))"
proof -
  let ?a = "a\<lparr>auth_ModelStates := reset_states now (auth_ModelStates a)\<rparr>"
  obtain ch b where c: "clearCooldownStateForAuth now ?a = (ch, b)" by fastforce
  have "\<forall>(k, s)\<in>set (auth_ModelStates ?a). \<forall>st. s = Some st \<longrightarrow> trim_space k \<noteq> [] \<longrightarrow> ms_Status st \<noteq> StatusDisabled"
    by (auto simp: reset_states_def resetModelState_def)
  note idle = cleared_idle [of ?a, OF this c]
  define d where "d = (if \<not> ch \<and> length (auth_ModelStates b) > 0 then updateAggregatedAvailability now b else b)"
  have res: "fst (reset_auth now ms a) = (settle_status now d)\<lparr>auth_UpdatedAt := now\<rparr>"
    using assms idle(3,4) by (simp add: reset_auth_def c Let_def d_def enabled_def)
  have d: "idle_states (auth_ModelStates d)" "idle_quota (auth_Quota d)" "enabled d" "auth_ModelStates d = [] \<Longrightarrow> \<not> auth_Unavailable d"
    using idle update_idle [OF idle(1,2)] assms by (auto simp: d_def enabled_def update_nil)
  then show "idle_states (auth_ModelStates (fst (reset_auth now ms a)))" "idle_quota (auth_Quota (fst (reset_auth now ms a)))"
    "enabled (fst (reset_auth now ms a))"
    "auth_ModelStates (fst (reset_auth now ms a)) = [] \<Longrightarrow> \<not> auth_Unavailable (fst (reset_auth now ms a))"
    by (simp_all add: res settle_status_def enabled_def split: if_splits)
qed

text \<open>C29. Resetting the quota of an enabled credential puts it back in service: it is selectable for every model at
  every time, whatever cooldowns, limits or disabled models it had before.\<close>

theorem reset_unblocks:
  assumes "enabled a" "canonicalModelKey m \<noteq> []"
  shows "\<not> fst (isAuthBlockedForModel (Some (fst (reset_auth now registered a))) m t)"
proof -
  let ?b = "fst (reset_auth now registered a)"
  note r = reset_auth_idle [OF assms(1), of now registered]
  have "m \<noteq> []" using assms(2) by (auto simp: canonicalModelKey_def)
  moreover have "\<not> credential_quota_block ?b t" using r(2) by (simp add: credential_quota_block_def idle_quota_def)
  moreover have "auth_ModelStates ?b = [] \<Longrightarrow> \<not> fst (auth_block ?b t)"
    using r(2,4) by (simp add: auth_block_def availabilityBlock_def idle_quota_def)
  moreover have "\<not> fst (model_states_block (canonicalModelKey m) t (auth_ModelStates ?b) False (False, blockReasonNone, zero_time))"
    by (rule idle_unblocked [OF r(1) assms(2)]) simp
  ultimately show ?thesis using r(3) by (simp add: isAuthBlockedForModel_def enabled_def)
qed

theorem reset_unblocks_witness:
  "\<not> fst (isAuthBlockedForModel (Some (fst (reset_auth 9 [] ((new_auth ''a'' ''claude'')\<lparr>auth_Unavailable := True,
     auth_ModelStates := [(''m'', Some (zero_model_state\<lparr>ms_Status := StatusDisabled\<rparr>))]\<rparr>)))) ''m'' 9)"
  by (rule reset_unblocks) (simp_all add: enabled_def new_auth_def, code_simp)

section \<open>Restoring one credential\<close>

text \<open>The fields that decide whether a credential has cooldowns.\<close>

definition same_credential :: "Auth \<Rightarrow> Auth \<Rightarrow> bool" where
  "same_credential x y \<longleftrightarrow> auth_ID x = auth_ID y \<and> auth_Metadata x = auth_Metadata y \<and> auth_Attributes x = auth_Attributes y \<and>
     auth_Provider x = auth_Provider y"

lemma policy_same:
  assumes "same_credential x y"
  shows "quotaCooldownDisabledForAuthWithConfig g (Some x) cfg = quotaCooldownDisabledForAuthWithConfig g (Some y) cfg"
proof -
  have A: "DisableCoolingOverride (Some x) = DisableCoolingOverride (Some y)"
    using assms unfolding same_credential_def DisableCoolingOverride_def option.case by metis
  have B: "providerCoolingOverrideForAuth (Some x) cfg = providerCoolingOverrideForAuth (Some y) cfg"
    using assms unfolding same_credential_def providerCoolingOverrideForAuth_def option.case by metis
  show ?thesis unfolding quotaCooldownDisabledForAuthWithConfig_def A B ..
qed

lemma update_same: "same_credential (updateAggregatedAvailability now x) x"
  by (simp add: same_credential_def updateAggregatedAvailability_def clearAggregatedAvailability_def Let_def)

lemma ensure_same: "ensureModelState x m = (st, y) \<Longrightarrow> same_credential y x \<and> enabled y = enabled x"
  by (elim ensure_cases) (auto simp: same_credential_def enabled_def set_state_def normalizeModelStates_def split: prod.split)

lemma restore_record_keeps:
  assumes "enabled x"
  shows "same_credential (restore_record r now x) x" "enabled (restore_record r now x)"
proof -
  have m: "same_credential (restore_model r now u q x) x \<and> enabled (restore_model r now u q x)" for u q
  proof -
    obtain st y where e: "ensureModelState x (trim_space (cr_Model r)) = (st, y)" by fastforce
    have y: "same_credential y x" "enabled y" using ensure_same [OF e] assms by simp_all
    have "same_credential (set_state k v y) x \<and> enabled (set_state k v y)" for k v
      using y by (simp add: same_credential_def enabled_def) (simp add: set_state_def)
    then show ?thesis using update_same [of now] by (simp add: restore_model_def e same_credential_def enabled_def)
  qed
  have a: "same_credential (restore_auth r u q x) x \<and> enabled (restore_auth r u q x)" for u q
    using assms by (simp add: restore_auth_def same_credential_def enabled_def Let_def)
  show "same_credential (restore_record r now x) x" "enabled (restore_record r now x)"
    using m a by (simp_all add: restore_record_def Let_def)
qed

text \<open>The records that are restored into a credential.\<close>

definition due :: "string \<Rightarrow> gotime \<Rightarrow> CooldownStateRecord \<Rightarrow> bool" where
  "due i now r \<longleftrightarrow> trim_space (cr_AuthID r) = i \<and> cr_NextRetryAfter r \<noteq> 0 \<and> now < cr_NextRetryAfter r"

lemma restore_locked:
  assumes "map_of auths i = Some (Some x)" "enabled x" "\<not> disabled (Some x)" "i \<noteq> []"
  shows "map_of (snd (restoreCooldownRecordLocked disabled r now auths)) i = Some (Some (if due i now r then restore_record r now x else x))"
proof (cases "trim_space (cr_AuthID r) = i")
  case True
  then show ?thesis using assms
    by (auto simp: restoreCooldownRecordLocked_def due_def Let_def enabled_def update_conv' simp del: map_of_eq_Some_iff)
next
  case False
  then have "map_of (snd (restoreCooldownRecordLocked disabled r now auths)) i = map_of auths i"
    by (auto simp: restoreCooldownRecordLocked_def Let_def update_conv' split: option.split simp del: map_of_eq_Some_iff)
  then show ?thesis using False assms(1) by (simp add: due_def)
qed

lemma restore_fold:
  assumes "map_of auths i = Some (Some x)" "enabled x" "i \<noteq> []"
    and "\<And>y. same_credential y x \<Longrightarrow> \<not> disabled (Some y)"
  shows "map_of (fst (fold (restore_step disabled now) rs (auths, sn))) i =
    Some (Some (fold (\<lambda>r. restore_record r now) (filter (due i now) rs) x))"
  using assms
proof (induction rs arbitrary: auths sn x)
  case (Cons r rs)
  let ?y = "if due i now r then restore_record r now x else x"
  obtain auths' sn' where st: "restore_step disabled now r (auths, sn) = (auths', sn')" by fastforce
  then have "auths' = snd (restoreCooldownRecordLocked disabled r now auths)"
    by (simp add: restore_step_def split: prod.splits)
  then have look: "map_of auths' i = Some (Some ?y)"
    using restore_locked [OF Cons.prems(1,2) _ Cons.prems(3)] Cons.prems(4) by (simp add: same_credential_def)
  have y: "same_credential ?y x" "enabled ?y" using restore_record_keeps [OF Cons.prems(2)] Cons.prems(2) by (simp_all add: same_credential_def)
  have "\<not> disabled (Some z)" if "same_credential z ?y" for z
    using Cons.prems(4) [of z] that y(1) unfolding same_credential_def by metis
  from Cons.IH [OF look y(2) Cons.prems(3) this] show ?case by (simp add: st)
qed simp

section \<open>Restoring the states of models\<close>

text \<open>The state a record leaves in a credential that had none for the model.\<close>

definition record_quota :: "CooldownStateRecord \<Rightarrow> QuotaState" where
  "record_quota r = (if quota_Exceeded (cr_Quota r) \<and> quota_NextRecoverAt (cr_Quota r) = 0
     then (cr_Quota r)\<lparr>quota_NextRecoverAt := cr_NextRetryAfter r\<rparr> else cr_Quota r)"

definition record_state :: "gotime \<Rightarrow> CooldownStateRecord \<Rightarrow> ModelState" where
  "record_state now r =
     merge_states fresh_state (restored_state r (if cr_UpdatedAt r = 0 then now else cr_UpdatedAt r) (record_quota r))"

text \<open>Well-keyed states that are not past their time.\<close>

definition fresh_states :: "gotime \<Rightarrow> states \<Rightarrow> bool" where
  "fresh_states now ms \<longleftrightarrow> wf_map ms \<and> (\<forall>(k, s)\<in>set ms. state_key k = k \<and> (\<forall>st. s = Some st \<longrightarrow> expire_state now st = st))"

lemma normalize_keyed:
  "wf_map (n @ ms) \<Longrightarrow> \<forall>k\<in>fst ` set ms. state_key k = k \<Longrightarrow> \<not> snd (normalize_states ms n False)"
proof (induction ms arbitrary: n)
  case (Cons e ms)
  obtain k s where e: "e = (k, s)" by fastforce
  have k: "state_key k = k" "k \<notin> fst ` set n" using Cons.prems by (auto simp: e)
  then have none: "map_of n k = None" by (simp add: map_of_eq_None_iff)
  have put: "map_put k s n = n @ [(k, s)]" using k(2) by (induction n) auto
  have "\<not> snd (normalize_states ms (n @ [(k, s)]) False)" using Cons.prems by (intro Cons.IH) (auto simp: e)
  then show ?case by (simp add: e k(1) none put Let_def)
qed simp

lemma normalize_fresh:
  assumes "fresh_states now (auth_ModelStates x)"
  shows "normalizeModelStates x = x"
proof -
  have "\<forall>k\<in>fst ` set (auth_ModelStates x). state_key k = k" using assms unfolding fresh_states_def by force
  then have "\<not> snd (normalize_states (auth_ModelStates x) [] False)"
    using assms normalize_keyed [of "[]" "auth_ModelStates x"] by (simp add: fresh_states_def)
  then show ?thesis
    by (cases "normalize_states (auth_ModelStates x) [] False") (simp add: normalizeModelStates_def)
qed

lemma update_unexpired:
  assumes "fresh_states now (auth_ModelStates x)"
  shows "auth_ModelStates (updateAggregatedAvailability now x) = auth_ModelStates x"
proof -
  have "map (\<lambda>(k, s). (k, map_option (expire_state now) s)) (auth_ModelStates x) = auth_ModelStates x"
  proof (rule map_idI)
    fix e assume e: "e \<in> set (auth_ModelStates x)"
    obtain k s where ks: "e = (k, s)" by fastforce
    show "(\<lambda>(k, s). (k, map_option (expire_state now) s)) e = e"
    proof (cases s)
      case (Some st)
      then have "expire_state now st = st" using assms e unfolding fresh_states_def ks by blast
      then show ?thesis by (simp add: ks Some)
    qed (simp add: ks)
  qed
  then show ?thesis by (simp add: updateAggregatedAvailability_def clearAggregatedAvailability_def Let_def)
qed

lemma record_state_fields:
  assumes "0 \<le> now" "now < cr_NextRetryAfter r" "0 \<le> quota_NextRecoverAt (cr_Quota r)"
  shows "ms_Unavailable (record_state now r)" "ms_Status (record_state now r) = StatusError"
    "ms_NextRetryAfter (record_state now r) = cr_NextRetryAfter r"
    "quota_Exceeded (ms_Quota (record_state now r)) = quota_Exceeded (cr_Quota r)"
    "quota_NextRecoverAt (ms_Quota (record_state now r)) = quota_NextRecoverAt (record_quota r)"
  using assms
  by (simp_all add: record_state_def merge_states_def restored_state_def fresh_state_def zero_model_state_def record_quota_def Let_def)

lemma record_state_fresh:
  assumes "now < cr_NextRetryAfter r" "0 \<le> now" "0 \<le> quota_NextRecoverAt (cr_Quota r)"
  shows "expire_state now (record_state now r) = record_state now r"
  using record_state_fields [OF assms(2,1,3)] assms(1) by (simp add: expire_state_def)

text \<open>Restoring one record for a model that has no state yet.\<close>

lemma restore_new_model:
  assumes "fresh_states now (auth_ModelStates x)" "canonicalModelKey (cr_Model r) = cr_Model r" "cr_Model r \<noteq> []"
    and "trim_space (cr_Model r) = cr_Model r" "map_of (auth_ModelStates x) (cr_Model r) = None"
    and "0 \<le> now" "now < cr_NextRetryAfter r" "0 \<le> quota_NextRecoverAt (cr_Quota r)"
  shows "auth_ModelStates (restore_record r now x) = map_put (cr_Model r) (Some (record_state now r)) (auth_ModelStates x)"
    and "fresh_states now (map_put (cr_Model r) (Some (record_state now r)) (auth_ModelStates x))"
proof -
  let ?k = "cr_Model r" and ?s = "record_state now r"
  have key: "state_key ?k = ?k" using assms(2,3) by (simp add: state_key_def)
  note rs = record_state_fresh [OF assms(7,6,8)]
  show f: "fresh_states now (map_put ?k (Some ?s) (auth_ModelStates x))"
    using assms(1) rs key unfolding fresh_states_def by (auto simp: set_map_put distinct_update)
  have "ensureModelState x ?k = (fresh_state, set_state ?k fresh_state x)"
    by (simp add: ensureModelState_def normalize_fresh [OF assms(1)] assms(2,5) Let_def)
  then have "restore_record r now x = updateAggregatedAvailability now (set_state ?k ?s (set_state ?k fresh_state x))"
    using assms(3) by (simp add: restore_record_def restore_model_def Let_def assms(2,4) record_state_def record_quota_def)
  moreover have "auth_ModelStates (set_state ?k ?s (set_state ?k fresh_state x)) = map_put ?k (Some ?s) (auth_ModelStates x)"
    by (simp add: set_state_def update_triv)
  ultimately show "auth_ModelStates (restore_record r now x) = map_put ?k (Some ?s) (auth_ModelStates x)"
    using update_unexpired [of now "set_state ?k ?s (set_state ?k fresh_state x)"] f by simp
qed

text \<open>The records of distinct models, one after the other.\<close>

definition model_record :: "gotime \<Rightarrow> CooldownStateRecord \<Rightarrow> bool" where
  "model_record now r \<longleftrightarrow> canonicalModelKey (cr_Model r) = cr_Model r \<and> cr_Model r \<noteq> [] \<and> trim_space (cr_Model r) = cr_Model r \<and>
     now < cr_NextRetryAfter r \<and> 0 \<le> quota_NextRecoverAt (cr_Quota r)"

lemma restore_models:
  assumes "fresh_states now (auth_ModelStates x)" "0 \<le> now" "\<forall>r\<in>set rs. model_record now r" "distinct (map cr_Model rs)"
    and "\<forall>r\<in>set rs. map_of (auth_ModelStates x) (cr_Model r) = None"
  shows "map_of (auth_ModelStates (fold (\<lambda>r. restore_record r now) rs x)) k =
    (case find (\<lambda>r. cr_Model r = k) rs of Some r \<Rightarrow> Some (Some (record_state now r)) | None \<Rightarrow> map_of (auth_ModelStates x) k)"
  using assms
proof (induction rs arbitrary: x)
  case (Cons r rs)
  let ?x = "restore_record r now x"
  have r: "canonicalModelKey (cr_Model r) = cr_Model r" "cr_Model r \<noteq> []" "trim_space (cr_Model r) = cr_Model r"
    "now < cr_NextRetryAfter r" "0 \<le> quota_NextRecoverAt (cr_Quota r)" "map_of (auth_ModelStates x) (cr_Model r) = None"
    using Cons.prems(3,5) by (simp_all add: model_record_def)
  note step = restore_new_model [OF Cons.prems(1) r(1-3,6) Cons.prems(2) r(4,5)]
  have x: "map_of (auth_ModelStates ?x) n = (if n = cr_Model r then Some (Some (record_state now r)) else map_of (auth_ModelStates x) n)" for n
    unfolding step(1) by (simp add: update_conv')
  have f: "fresh_states now (auth_ModelStates ?x)" using step by simp
  have "\<forall>q\<in>set rs. map_of (auth_ModelStates ?x) (cr_Model q) = None"
  proof
    fix q assume q: "q \<in> set rs"
    then have "cr_Model q \<noteq> cr_Model r" using Cons.prems(4) by (simp add: image_iff) metis
    then show "map_of (auth_ModelStates ?x) (cr_Model q) = None" using q Cons.prems(5) by (simp add: x)
  qed
  note IH = Cons.IH [OF f Cons.prems(2) _ _ this]
  have other: "find (\<lambda>q. cr_Model q = cr_Model r) rs = None" unfolding find_None_iff using Cons.prems(4) by (metis distinct.simps(2) image_eqI list.map(2) list.set_map)
  then show ?case using IH Cons.prems(3,4) by (cases "cr_Model r = k") (auto simp: x split: option.split)
qed simp

section \<open>The records of a credential\<close>

lemma model_records_member:
  "r \<in> set (model_records a now ms) \<longleftrightarrow> (\<exists>(m, s)\<in>set ms. modelCooldownStateRecord a m s now = Some r)"
  by (induction a now ms rule: model_records.induct) (auto split: option.split)

lemma model_record_fields:
  assumes "modelCooldownStateRecord (Some a) m s now = Some r"
  obtains st where "s = Some st" "cr_Model r = trim_space m" "trim_space m \<noteq> []" "cr_AuthID r = auth_ID a"
    "cr_NextRetryAfter r = ms_NextRetryAfter st" "ms_Unavailable st" "now < ms_NextRetryAfter st" "ms_NextRetryAfter st \<noteq> 0"
    "cr_Quota r = cooldownFieldsOf (ms_Quota st)"
  using assms that by (auto simp: modelCooldownStateRecord_def Let_def split: option.splits if_splits)

lemma model_records_distinct:
  assumes "distinct (map fst ms)" "\<forall>m\<in>fst ` set ms. trim_space m = m"
  shows "distinct (map cr_Model (model_records (Some a) now ms)) \<and> cr_Model ` set (model_records (Some a) now ms) \<subseteq> fst ` set ms"
  using assms
proof (induction ms)
  case (Cons e ms)
  obtain m s where e: "e = (m, s)" by fastforce
  have IH: "distinct (map cr_Model (model_records (Some a) now ms))" "cr_Model ` set (model_records (Some a) now ms) \<subseteq> fst ` set ms"
    using Cons by simp_all
  show ?case
  proof (cases "modelCooldownStateRecord (Some a) m s now")
    case None
    with IH show ?thesis by (auto simp: e)
  next
    case (Some r)
    then have "cr_Model r = m" using Cons.prems(2) by (auto simp: e elim: model_record_fields)
    with IH Some Cons.prems(1) show ?thesis by (auto simp: e)
  qed
qed simp

text \<open>A saved state and the restored one block at the same times.\<close>

lemma restored_blocks:
  assumes "state_sound st" "cr_NextRetryAfter r = ms_NextRetryAfter st" "cr_Quota r = cooldownFieldsOf (ms_Quota st)"
    and "ms_Unavailable st" "0 \<le> now" "now < ms_NextRetryAfter st"
  shows "state_block (record_state now r) t = state_block st t" "ms_Status (record_state now r) \<noteq> StatusDisabled"
proof -
  have q: "quota_Exceeded (cr_Quota r) = quota_Exceeded (ms_Quota st)" "quota_NextRecoverAt (cr_Quota r) = quota_NextRecoverAt (ms_Quota st)"
    using assms(3) by (simp_all add: cooldownFieldsOf_def)
  have s: "0 \<le> quota_NextRecoverAt (ms_Quota st)" "quota_Exceeded (ms_Quota st) \<Longrightarrow> quota_NextRecoverAt (ms_Quota st) \<noteq> 0"
    using assms(1) by (simp_all add: state_sound_def state_times_def quota_sound_def)
  have "now < cr_NextRetryAfter r" "0 \<le> quota_NextRecoverAt (cr_Quota r)" using assms(2,6) q(2) s(1) by simp_all
  note f = record_state_fields [OF assms(5) this]
  have "quota_NextRecoverAt (record_quota r) = quota_NextRecoverAt (ms_Quota st)"
    using s(2) q by (auto simp: record_quota_def)
  then show "state_block (record_state now r) t = state_block st t" unfolding state_block_def f(3-5) q assms(2) using f(1) assms(4) by simp
  show "ms_Status (record_state now r) \<noteq> StatusDisabled" using f(2) by simp
qed

text \<open>What the records of a credential are, whatever their order.\<close>

lemma own_records:
  assumes "enabled a" "\<not> disabled (Some a)" "auth_ID a \<noteq> []"
  shows "mset (cooldownStateRecordsForAuthLocked disabled (Some a) now) =
    mset (case authCooldownStateRecord (Some a) now of None \<Rightarrow> [] | Some r \<Rightarrow> [r]) + mset (model_records (Some a) now (auth_ModelStates a))"
  using assms by (simp add: cooldownStateRecordsForAuthLocked_def enabled_def)

lemma restore_auth_records:
  assumes "\<forall>r\<in>set rs. trim_space (cr_Model r) = []"
  shows "auth_ModelStates (fold (\<lambda>r. restore_record r now) rs x) = auth_ModelStates x"
  using assms by (induction rs arbitrary: x) (simp_all add: restore_record_def restore_auth_def Let_def)

lemma restore_records_keep:
  "enabled x \<Longrightarrow> enabled (fold (\<lambda>r. restore_record r now) rs x)"
  by (induction rs arbitrary: x) (simp_all add: restore_record_keeps)

lemma filter_records:
  assumes "mset (filter (\<lambda>r. trim_space (cr_AuthID r) = i) records) = mset A + mset M"
    and "\<forall>r\<in>set A. \<not> P r" "\<forall>r\<in>set M. P r"
  shows "mset (filter (due i now) (filter P records)) = mset (filter (due i now) M)"
    and "mset (filter (due i now) (filter (\<lambda>r. \<not> P r) records)) = mset (filter (due i now) A)"
proof -
  have d: "filter (due i now) (filter Q records) = filter (due i now) (filter Q (filter (\<lambda>r. trim_space (cr_AuthID r) = i) records))" for Q
    by (induction records) (auto simp: due_def)
  have "filter_mset P (mset A) = {#}" "filter_mset P (mset M) = mset M"
    "filter_mset (\<lambda>r. \<not> P r) (mset A) = mset A" "filter_mset (\<lambda>r. \<not> P r) (mset M) = {#}"
    using assms(2,3) by (auto simp: filter_mset_eq_conv)
  moreover have "filter_mset (\<lambda>r. trim_space (cr_AuthID r) = i) (mset records) = mset A + mset M" using assms(1) by simp
  ultimately show "mset (filter (due i now) (filter P records)) = mset (filter (due i now) M)"
    "mset (filter (due i now) (filter (\<lambda>r. \<not> P r) records)) = mset (filter (due i now) A)"
    unfolding d mset_filter using assms(2,3) by auto
qed

text \<open>Every key is the key of its model.\<close>

definition well_keyed :: "Auth \<Rightarrow> bool" where
  "well_keyed a \<longleftrightarrow> (\<forall>k\<in>fst ` set (auth_ModelStates a). canonicalModelKey k = k \<and> trim_space k = k \<and> k \<noteq> [])"

lemma record_origin:
  assumes "auth_sound a" "well_keyed a" "r \<in> set (model_records (Some a) saved (auth_ModelStates a))"
  obtains st where "map_of (auth_ModelStates a) (cr_Model r) = Some (Some st)" "state_sound st" "canonicalModelKey (cr_Model r) = cr_Model r"
    "trim_space (cr_Model r) = cr_Model r" "cr_Model r \<noteq> []" "cr_NextRetryAfter r = ms_NextRetryAfter st"
    "cr_Quota r = cooldownFieldsOf (ms_Quota st)" "ms_Unavailable st"
proof -
  obtain m s where ms: "(m, s) \<in> set (auth_ModelStates a)" "modelCooldownStateRecord (Some a) m s saved = Some r"
    using assms(3) unfolding model_records_member by blast
  have m: "canonicalModelKey m = m" "trim_space m = m" "m \<noteq> []"
    using assms(2) ms(1) unfolding well_keyed_def by force+
  have sts: "states_sound (auth_ModelStates a)" using assms(1) by (simp add: auth_sound_def)
  show thesis using ms(2)
  proof (rule model_record_fields)
    fix st
    assume st: "s = Some st" "cr_Model r = trim_space m" "cr_NextRetryAfter r = ms_NextRetryAfter st" "ms_Unavailable st"
      "cr_Quota r = cooldownFieldsOf (ms_Quota st)"
    then have "map_of (auth_ModelStates a) m = Some (Some st)"
      using ms(1) sts by (metis states_sound_def wf_map_in_set)
    moreover from this have "state_sound st" using sts unfolding states_sound_def by blast
    ultimately show thesis using st m that by simp
  qed
qed

lemma record_written:
  assumes "well_keyed a" "map_of (auth_ModelStates a) k = Some (Some st)" "ms_Unavailable st" "saved < ms_NextRetryAfter st" "0 \<le> saved"
  shows "\<exists>r\<in>set (model_records (Some a) saved (auth_ModelStates a)). cr_Model r = k \<and> cr_AuthID r = auth_ID a \<and>
    cr_NextRetryAfter r = ms_NextRetryAfter st"
proof -
  have ks: "(k, Some st) \<in> set (auth_ModelStates a)" using assms(2) by (rule map_of_SomeD)
  then have k: "trim_space k = k" "k \<noteq> []" using assms(1) image_eqI [of k fst "(k, Some st)"] by (auto simp: well_keyed_def)
  obtain r where r: "modelCooldownStateRecord (Some a) k (Some st) saved = Some r"
    using assms(3,4,5) k by (auto simp: modelCooldownStateRecord_def Let_def)
  then have "r \<in> set (model_records (Some a) saved (auth_ModelStates a))" using ks unfolding model_records_member by blast
  moreover have "cr_Model r = k \<and> cr_AuthID r = auth_ID a \<and> cr_NextRetryAfter r = ms_NextRetryAfter st"
    using r k by (auto elim!: model_record_fields)
  ultimately show ?thesis by blast
qed

lemma due_model_record:
  assumes "auth_sound a" "well_keyed a" "r \<in> set (model_records (Some a) saved (auth_ModelStates a))" "due i now r"
  shows "model_record now r"
  using assms(1,2,3)
proof (rule record_origin)
  fix st
  assume st: "state_sound st" "canonicalModelKey (cr_Model r) = cr_Model r" "trim_space (cr_Model r) = cr_Model r" "cr_Model r \<noteq> []"
    "cr_Quota r = cooldownFieldsOf (ms_Quota st)"
  have "0 \<le> quota_NextRecoverAt (ms_Quota st)" using st(1) by (simp add: state_sound_def state_times_def quota_sound_def)
  then show ?thesis using st assms(4) by (simp add: model_record_def cooldownFieldsOf_def due_def)
qed

lemma restored_models:
  assumes "auth_sound a" "well_keyed a" "trim_space (auth_ID a) = auth_ID a" "0 \<le> saved" "saved \<le> now"
    and D: "mset D = mset (filter (due (auth_ID a) now) (model_records (Some a) saved (auth_ModelStates a)))"
    and a0: "auth_ModelStates a0 = []"
    and h: "map_of (auth_ModelStates a) k = Some (Some st)" "ms_Unavailable st" "now < ms_NextRetryAfter st"
  shows "\<exists>st1. map_of (auth_ModelStates (fold (\<lambda>r. restore_record r now) D a0)) k = Some (Some st1) \<and> (\<forall>t. state_block st1 t = state_block st t)"
proof -
  let ?M = "model_records (Some a) saved (auth_ModelStates a)"
  have now: "0 \<le> now" using assms(4,5) by simp
  have setD: "r \<in> set D \<longleftrightarrow> r \<in> set ?M \<and> due (auth_ID a) now r" for r using mset_eq_setD [OF D] by auto
  have "wf_map (auth_ModelStates a)" using assms(1) by (simp add: auth_sound_def states_sound_def)
  then have "distinct (map cr_Model ?M)" using model_records_distinct [of "auth_ModelStates a" a saved] assms(2) by (simp add: well_keyed_def)
  then have "distinct (map cr_Model (filter (due (auth_ID a) now) ?M))" by (rule distinct_map_filter)
  moreover have "mset (map cr_Model D) = mset (map cr_Model (filter (due (auth_ID a) now) ?M))" unfolding mset_map D ..
  ultimately have distD: "distinct (map cr_Model D)" using mset_eq_imp_distinct_iff by blast
  have fresh: "fresh_states now (auth_ModelStates a0)" by (simp add: a0 fresh_states_def)
  have ok: "\<forall>r\<in>set D. model_record now r" using due_model_record [OF assms(1,2)] setD by blast
  have none: "\<forall>r\<in>set D. map_of (auth_ModelStates a0) (cr_Model r) = None" by (simp add: a0)
  note found = restore_models [OF fresh now ok distD none, of k, unfolded a0]
  obtain r where r: "r \<in> set ?M" "cr_Model r = k" "cr_AuthID r = auth_ID a" "cr_NextRetryAfter r = ms_NextRetryAfter st"
    using record_written [OF assms(2) h(1,2) _ assms(4)] h(3) assms(5) by fastforce
  then have "due (auth_ID a) now r" using h(3) now assms(3) by (simp add: due_def)
  then have "find (\<lambda>r. cr_Model r = k) D \<noteq> None" using r(1,2) unfolding find_None_iff setD by blast
  then obtain q where q: "find (\<lambda>r. cr_Model r = k) D = Some q" by blast
  then have "q \<in> set D" "cr_Model q = k" unfolding find_Some_iff by (metis nth_mem)+
  then obtain st' where "map_of (auth_ModelStates a) k = Some (Some st')" "state_sound st'" "cr_NextRetryAfter q = ms_NextRetryAfter st'"
    "cr_Quota q = cooldownFieldsOf (ms_Quota st')" using record_origin [OF assms(1,2), of q saved] setD [of q] by metis
  then show ?thesis using restored_blocks(1) [of st q, OF _ _ _ h(2) now h(3)] h(1) unfolding found q by simp
qed

lemma restored_only:
  assumes "auth_sound a" "well_keyed a" "0 \<le> saved" "saved \<le> now"
    and D: "mset D = mset (filter (due (auth_ID a) now) (model_records (Some a) saved (auth_ModelStates a)))"
    and a0: "auth_ModelStates a0 = []"
    and k: "map_of (auth_ModelStates (fold (\<lambda>r. restore_record r now) D a0)) k = Some (Some st1)"
  shows "\<exists>st. map_of (auth_ModelStates a) k = Some (Some st) \<and> ms_Unavailable st \<and> now < ms_NextRetryAfter st"
proof -
  let ?M = "model_records (Some a) saved (auth_ModelStates a)"
  have now: "0 \<le> now" using assms(3,4) by simp
  have setD: "r \<in> set D \<longleftrightarrow> r \<in> set ?M \<and> due (auth_ID a) now r" for r using mset_eq_setD [OF D] by auto
  have "wf_map (auth_ModelStates a)" using assms(1) by (simp add: auth_sound_def states_sound_def)
  then have "distinct (map cr_Model ?M)" using model_records_distinct [of "auth_ModelStates a" a saved] assms(2) by (simp add: well_keyed_def)
  then have "distinct (map cr_Model (filter (due (auth_ID a) now) ?M))" by (rule distinct_map_filter)
  moreover have "mset (map cr_Model D) = mset (map cr_Model (filter (due (auth_ID a) now) ?M))" unfolding mset_map D ..
  ultimately have distD: "distinct (map cr_Model D)" using mset_eq_imp_distinct_iff by blast
  have fresh: "fresh_states now (auth_ModelStates a0)" by (simp add: a0 fresh_states_def)
  have ok: "\<forall>r\<in>set D. model_record now r" using due_model_record [OF assms(1,2)] setD by blast
  have none: "\<forall>r\<in>set D. map_of (auth_ModelStates a0) (cr_Model r) = None" by (simp add: a0)
  note found = restore_models [OF fresh now ok distD none, of k, unfolded a0]
  then obtain q where q: "find (\<lambda>r. cr_Model r = k) D = Some q"
    using k by (cases "find (\<lambda>r. cr_Model r = k) D") simp_all
  then have qk: "q \<in> set D" "cr_Model q = k" unfolding find_Some_iff by (metis nth_mem)+
  then obtain st where "map_of (auth_ModelStates a) k = Some (Some st)" "cr_NextRetryAfter q = ms_NextRetryAfter st" "ms_Unavailable st"
    using record_origin [OF assms(1,2), of q saved] setD [of q] by metis
  moreover have "now < cr_NextRetryAfter q" using qk(1) setD by (simp add: due_def)
  ultimately show ?thesis by auto
qed

lemma restored_whole:
  assumes "auth_sound a" "trim_space (auth_ID a) = auth_ID a" "0 \<le> saved" "saved \<le> now" "auth_Unavailable a" "now < auth_NextRetryAfter a"
    and E: "mset E = mset (filter (due (auth_ID a) now) (case authCooldownStateRecord (Some a) saved of None \<Rightarrow> [] | Some r \<Rightarrow> [r]))"
  shows "auth_block (fold (\<lambda>r. restore_record r now) E x) t = auth_block a t \<and>
    credential_quota_block (fold (\<lambda>r. restore_record r now) E x) t = credential_quota_block a t"
proof -
  obtain r where r: "authCooldownStateRecord (Some a) saved = Some r" "trim_space (cr_Model r) = []" "due (auth_ID a) now r"
    "cr_NextRetryAfter r = auth_NextRetryAfter a" "cr_Quota r = cooldownFieldsOf (auth_Quota a)"
    using assms(2-6) by (auto simp: authCooldownStateRecord_def due_def)
  then have "mset E = {#r#}" using E by simp
  then have x: "fold (\<lambda>r. restore_record r now) E x = restore_record r now x" by simp
  have "quota_sound (auth_Quota a)" using assms(1) by (simp add: auth_sound_def)
  then have q: "(quota_Exceeded (cr_Quota r) \<and> quota_NextRecoverAt (cr_Quota r) = 0) = False"
    by (simp add: r(5) quota_sound_def cooldownFieldsOf_def)
  show ?thesis using assms(5) unfolding restore_record_def x q if_False
    by (simp add: r(2) restore_auth_def Let_def auth_block_def credential_quota_block_def r(4,5) cooldownFieldsOf_def)
qed

text \<open>C28. What survives a restart is decided by the retry time: the records that a credential leaves behind
  (an enabled one that is not exempt from cooldowns, with times that are sound and model states under canonical names), in whatever
  order the store returns them, give a credential that was just loaded back exactly the model states whose retry time is
  still to come, each blocking at exactly the times it did before, and likewise the credential as a whole if its retry
  time is still to come. No other model state comes back: one whose retry time has passed leaves nothing, even
  where the state has a quota that recovers later and still blocks (\<open>later_quota_lost\<close>).\<close>

theorem cooldowns_survive_restart:
  fixes g :: bool and cfg :: "cooling_config option"
  defines "disabled \<equiv> \<lambda>x. quotaCooldownDisabledForAuthWithConfig g x cfg"
  assumes a: "auth_sound a" "enabled a" "\<not> disabled (Some a)" "auth_ID a \<noteq> []" "trim_space (auth_ID a) = auth_ID a" "well_keyed a"
    and a0: "map_of auths (auth_ID a) = Some (Some a0)" "enabled a0" "same_credential a0 a" "auth_ModelStates a0 = []"
    and records: "mset (filter (\<lambda>r. trim_space (cr_AuthID r) = auth_ID a) records) = mset (cooldownStateRecordsForAuthLocked disabled (Some a) saved)"
    and times: "0 \<le> saved" "saved \<le> now"
  shows "\<exists>a1. map_of (fst (RestoreCooldownStates disabled now records auths)) (auth_ID a) = Some (Some a1) \<and> enabled a1 \<and>
    (\<forall>k st. map_of (auth_ModelStates a) k = Some (Some st) \<longrightarrow> ms_Unavailable st \<longrightarrow> now < ms_NextRetryAfter st \<longrightarrow>
       (\<exists>st1. map_of (auth_ModelStates a1) k = Some (Some st1) \<and> (\<forall>t. state_block st1 t = state_block st t))) \<and>
    (\<forall>k st1. map_of (auth_ModelStates a1) k = Some (Some st1) \<longrightarrow>
       (\<exists>st. map_of (auth_ModelStates a) k = Some (Some st) \<and> ms_Unavailable st \<and> now < ms_NextRetryAfter st)) \<and>
    (auth_Unavailable a \<longrightarrow> now < auth_NextRetryAfter a \<longrightarrow>
       (\<forall>t. auth_block a1 t = auth_block a t \<and> credential_quota_block a1 t = credential_quota_block a t))"
proof -
  let ?i = "auth_ID a" and ?blank = "\<lambda>r. trim_space (cr_Model r) = []"
  let ?M = "model_records (Some a) saved (auth_ModelStates a)"
  let ?A = "case authCooldownStateRecord (Some a) saved of None \<Rightarrow> [] | Some r \<Rightarrow> [r]"
  have M: "\<forall>r\<in>set ?M. \<not> ?blank r"
    using record_origin [OF a(1,6)] by metis
  have A: "\<forall>r\<in>set ?A. \<not> \<not> ?blank r" by (auto simp: authCooldownStateRecord_def split: option.splits if_splits)
  define D where "D = filter (due ?i now) (filter (\<lambda>r. \<not> ?blank r) records)"
  define E where "E = filter (due ?i now) (filter ?blank records)"
  have own: "mset (filter (\<lambda>r. trim_space (cr_AuthID r) = ?i) records) = mset ?A + mset ?M"
    using records own_records [where disabled = disabled, OF a(2,3,4), of saved] by simp
  note sp = filter_records [OF own A M, of now, unfolded not_not, folded D_def E_def]
  define a1 where "a1 = fold (\<lambda>r. restore_record r now) E (fold (\<lambda>r. restore_record r now) D a0)"
  have policy: "\<not> disabled (Some y)" if "same_credential y a0" for y
    using a(3) a0(3) policy_same [of y a g cfg] that unfolding disabled_def same_credential_def by metis
  have "map_of (fst (RestoreCooldownStates disabled now records auths)) ?i = Some (Some a1)"
    using restore_fold [where disabled = disabled, OF a0(1,2) a(4) policy, of now "filter (\<lambda>r. \<not> ?blank r) records @ filter ?blank records" "[]"]
    unfolding RestoreCooldownStates_def Let_def filter_append fold_append comp_apply a1_def D_def E_def .
  moreover have "auth_ModelStates a1 = auth_ModelStates (fold (\<lambda>r. restore_record r now) D a0)"
    unfolding a1_def by (rule restore_auth_records) (simp add: E_def)
  moreover have "enabled a1" unfolding a1_def by (intro restore_records_keep a0(2))
  moreover note models = restored_models [OF a(1,6,5) times sp(1) a0(4)]
  moreover note only = restored_only [OF a(1,6) times sp(1) a0(4)]
  moreover note restored_whole [OF a(1,5) times _ _ sp(2)]
  ultimately show ?thesis
    by (intro exI [of _ a1] conjI allI impI) (simp_all only: a1_def)
qed

text \<open>A model state with a retry time that has passed but a quota that recovers later blocks, is not recorded any more,
  and its earlier record is not restored. This is the state a rate limit of an hour leaves when another error with a short
  cooldown follows it.\<close>

definition overtaken_auth :: Auth where
  "overtaken_auth = (new_auth ''a'' ''claude'')\<lparr>auth_ModelStates :=
     [(''m'', Some (fresh_state\<lparr>ms_Unavailable := True, ms_Status := StatusError, ms_NextRetryAfter := 100, ms_UpdatedAt := 40,
        ms_Quota := quota_fields ''quota'' 3600 1\<rparr>))]\<rparr>"

lemma later_quota_lost:
  defines "policy \<equiv> \<lambda>x. quotaCooldownDisabledForAuthWithConfig False x None"
  shows "fst (isAuthBlockedForModel (Some overtaken_auth) ''m'' 200)"
    and "cooldownStateRecordsForAuthLocked policy (Some overtaken_auth) 50 \<noteq> []"
    and "cooldownStateRecordsForAuthLocked policy (Some overtaken_auth) 200 = []"
    and "fst (RestoreCooldownStates policy 200 (cooldownStateRecordsForAuthLocked policy (Some overtaken_auth) 50)
      [(''a'', Some (new_auth ''a'' ''claude''))]) = [(''a'', Some (new_auth ''a'' ''claude''))]"
    and "\<not> fst (isAuthBlockedForModel (Some (new_auth ''a'' ''claude'')) ''m'' 200)"
  unfolding policy_def by code_simp+

text \<open>A credential with a rate limit on one model until 100.\<close>

definition limited_auth :: Auth where
  "limited_auth = (new_auth ''a'' ''claude'')\<lparr>auth_ModelStates :=
     [(''m'', Some (fresh_state\<lparr>ms_Unavailable := True, ms_Status := StatusError, ms_NextRetryAfter := 100, ms_UpdatedAt := 40,
        ms_Quota := quota_fields ''quota'' 100 1\<rparr>))]\<rparr>"

theorem cooldowns_survive_restart_witness:
  defines "policy \<equiv> \<lambda>x. quotaCooldownDisabledForAuthWithConfig False x None"
  shows "\<exists>a1 st1. map_of (fst (RestoreCooldownStates policy 60 (cooldownStateRecordsForAuthLocked policy (Some limited_auth) 50)
      [(''a'', Some (new_auth ''a'' ''claude''))])) ''a'' = Some (Some a1) \<and>
    map_of (auth_ModelStates a1) ''m'' = Some (Some st1) \<and> state_block st1 70 = (True, blockReasonCooldown, 100)"
proof -
  let ?rs = "cooldownStateRecordsForAuthLocked policy (Some limited_auth) 50"
  have k: "canonicalModelKey ''m'' = ''m''" "trim_space ''m'' = ''m''" "trim_space ''a'' = ''a''" by code_simp+
  have p: "\<not> policy (Some limited_auth)" unfolding policy_def by code_simp
  have id: "auth_ID limited_auth = ''a''" "auth_ModelStates (new_auth ''a'' ''claude'') = []" by code_simp+
  have sound: "auth_sound limited_auth" "enabled limited_auth" "well_keyed limited_auth" "same_credential (new_auth ''a'' ''claude'') limited_auth"
    "enabled (new_auth ''a'' ''claude'')"
    by (auto simp: auth_sound_def states_sound_def limited_auth_def new_auth_def quota_sound_def zero_quota_def state_sound_def
        state_times_def fresh_state_def zero_model_state_def quota_fields_def enabled_def well_keyed_def k same_credential_def)
  have own: "filter (\<lambda>r. trim_space (cr_AuthID r) = ''a'') ?rs = ?rs" unfolding policy_def by code_simp
  let ?st = "fresh_state\<lparr>ms_Unavailable := True, ms_Status := StatusError, ms_NextRetryAfter := 100, ms_UpdatedAt := 40,
        ms_Quota := quota_fields ''quota'' 100 1\<rparr>"
  have st: "map_of (auth_ModelStates limited_auth) ''m'' = Some (Some ?st)" by (simp add: limited_auth_def)
  have b: "state_block ?st 70 = (True, blockReasonCooldown, 100)" by code_simp
  have look: "map_of [(''a'', Some (new_auth ''a'' ''claude''))] (auth_ID limited_auth) = Some (Some (new_auth ''a'' ''claude''))"
    by (simp add: id)
  have rs: "mset (filter (\<lambda>r. trim_space (cr_AuthID r) = auth_ID limited_auth) ?rs) = mset ?rs" unfolding id own ..
  have i: "auth_ID limited_auth \<noteq> []" "trim_space (auth_ID limited_auth) = auth_ID limited_auth" by (simp_all add: id k)
  have tm: "(0::int) \<le> 50" "(50::int) \<le> 60" by simp_all
  from cooldowns_survive_restart [where g = False and cfg = None, folded policy_def, OF sound(1,2) p [unfolded policy_def] i sound(3) look sound(5,4) id(2) rs tm]
  obtain a1 where a1: "map_of (fst (RestoreCooldownStates policy 60 ?rs [(''a'', Some (new_auth ''a'' ''claude''))])) (auth_ID limited_auth) = Some (Some a1)"
    "\<And>k st. map_of (auth_ModelStates limited_auth) k = Some (Some st) \<Longrightarrow> ms_Unavailable st \<Longrightarrow> 60 < ms_NextRetryAfter st \<Longrightarrow>
       (\<exists>st1. map_of (auth_ModelStates a1) k = Some (Some st1) \<and> (\<forall>t. state_block st1 t = state_block st t))" by blast
  from a1(2) [OF st] obtain st1 where "map_of (auth_ModelStates a1) ''m'' = Some (Some st1)" "state_block st1 70 = state_block ?st 70" by auto
  with a1(1) b show ?thesis unfolding id by metis
qed

end
