(* ===== verification/Credential_Manager.thy ===== *)
theory Credential_Manager
  imports Cooldown_Records Registry_Queries Auth_Scheduler
begin

text \<open>
  The manager of credentials, \<open>sdk/cliproxy/auth/conductor_lifecycle.go\<close> and the operations of
  \<open>conductor_cooldown.go\<close> and \<open>conductor_selection.go\<close> on its map: how registrations, updates, results, resets,
  restarts and reconciliations change the credentials and keep the scheduler, the model registry and the stored
  cooldown records up to date. An operation changes the map under the manager's mutex and tells the scheduler
  after releasing it; here it is one function, its uninterrupted run, and \<open>Manager_Laws\<close> takes it apart.
  \<open>now\<close> is the time the operation reads, \<open>ts\<close> the later one that the scheduler reads. The scheduler gets a copy of each
  credential (\<open>Register\<close> and \<open>Update\<close> of the code hand it the pointer that is in the map). Hooks, events and the token
  refresh are left out; saving records to the cooldown store succeeds but for the argument of \<open>ResetQuota\<close>.
\<close>

section \<open>Index and metadata of a credential\<close>

text \<open>\<open>abs_clean\<close> is the absolute, cleaned form of a path.\<close>

definition indexSeed :: "(string \<Rightarrow> string) \<Rightarrow> Auth option \<Rightarrow> string" where
  "indexSeed abs_clean auth =
     (case auth of
        None \<Rightarrow> []
      | Some a \<Rightarrow>
          (let attr = (\<lambda>k. trim_space (map_str (auth_Attributes a) k)); seed = attr ''auth_index_seed''
           in if seed \<noteq> [] then ''auth_index_seed:'' @ seed
              else
                (let provider = to_lower (trim_space (auth_Provider a));
                     filePath = (if attr ''path'' \<noteq> [] then attr ''path'' else attr ''source'');
                     filePath = (if filePath = [] then trim_space (auth_FileName a) else filePath);
                     filePath = (if filePath = [] then trim_space (auth_ID a) else filePath);
                     rawType = authMetadataString auth ''type'';
                     authType = to_lower (trim_space (if rawType = [] then trim_space provider else rawType));
                     apiPrefix =
                       (if attr ''api_key'' = [] then []
                        else if attr ''compat_name'' \<noteq> [] \<or> equal_fold provider ''openai-compatibility'' then ''openai-compatibility''
                        else if equal_fold provider ''gemini'' then ''gemini-api-key''
                        else if equal_fold provider ''gemini-interactions'' then ''interactions-api-key''
                        else if equal_fold provider ''codex'' then ''codex-api-key''
                        else if equal_fold provider ''xai'' then ''xai-api-key''
                        else if equal_fold provider ''claude'' then ''claude-api-key''
                        else [])
                 in if filePath \<noteq> [] \<and> has_suffix (to_lower filePath) ''.json'' \<and> authType \<noteq> []
                    then authType @ '':'' @ abs_clean filePath
                    else if apiPrefix \<noteq> [] then apiPrefix @ '':'' @ trim_space (attr ''base_url'') @ ''+'' @ trim_space (attr ''api_key'')
                    else if trim_space (auth_ID a) \<noteq> [] then ''id:'' @ trim_space (auth_ID a)
                    else [])))"

text \<open>\<open>stableAuthIndex\<close>, a hash, is a parameter.\<close>

definition EnsureIndex :: "(string \<Rightarrow> string) \<Rightarrow> (string \<Rightarrow> string) \<Rightarrow> Auth \<Rightarrow> Auth" where
  "EnsureIndex abs_clean stableAuthIndex a =
     (let existingIndex = trim_space (auth_Index a); seed = indexSeed abs_clean (Some a)
      in if existingIndex \<noteq> [] then a\<lparr>auth_Index := existingIndex, auth_indexAssigned := True\<rparr>
         else if seed = [] then a
         else a\<lparr>auth_Index := stableAuthIndex seed, auth_indexAssigned := True\<rparr>)"

definition CanonicalCredentialMetadataKey :: "string \<Rightarrow> string" where
  "CanonicalCredentialMetadataKey key =
     (if key = ''api-key'' then ''api_key''
      else if key = ''base-url'' then ''base_url''
      else if key = ''disable-cooling'' then ''disable_cooling''
      else if key = ''excluded-models'' then ''excluded_models''
      else if key = ''fingerprint-profile'' then ''fingerprint_profile''
      else if key = ''model-aliases'' then ''model_aliases''
      else if key = ''proxy-url'' then ''proxy_url''
      else if key = ''request-retry'' then ''request_retry''
      else if key = ''request-scoped-errors'' then ''request_scoped_errors''
      else if key = ''tool-prefix-disabled'' then ''tool_prefix_disabled''
      else key)"

definition normalize_metadata_step :: "string \<times> go_any \<Rightarrow> (string \<times> go_any) list \<Rightarrow> (string \<times> go_any) list" where
  "normalize_metadata_step entry metadata =
     (case entry of
        (key, val) \<Rightarrow>
          (let canonical = CanonicalCredentialMetadataKey key
           in if canonical = key then metadata
              else map_del key (if has_key canonical metadata then metadata else map_put canonical val metadata)))"

definition NormalizeCredentialMetadata :: "(string \<times> go_any) list \<Rightarrow> (string \<times> go_any) list" where
  "NormalizeCredentialMetadata metadata = fold normalize_metadata_step metadata metadata"

section \<open>The manager\<close>

record manager =
  mg_auths :: auths
  mg_scheduler :: authScheduler
  mg_registry :: model_registry
  mg_cooldowns :: "CooldownStateRecord list option"

text \<open>What does not change: the JSON library, the configuration, the path and hash functions.\<close>

record manager_env =
  env_json :: json_lib
  env_transientSeconds :: int
  env_quotaCooldownDisabled :: bool
  env_config :: "cooling_config option"
  env_abs_clean :: "string \<Rightarrow> string"
  env_stableAuthIndex :: "string \<Rightarrow> string"

definition cooldownDisabledForAuth :: "manager_env \<Rightarrow> Auth option \<Rightarrow> bool" where
  "cooldownDisabledForAuth env auth = quotaCooldownDisabledForAuthWithConfig (env_quotaCooldownDisabled env) auth (env_config env)"

text \<open>What the scheduler sees of the registry, and putting a credential's copy into the scheduler.\<close>

definition registered_models :: "model_registry \<Rightarrow> registry_view" where
  "registered_models r authID = map (\<lambda>info. Some (mi_ID info)) (GetModelsForClient authID r)"

definition schedule :: "Auth \<Rightarrow> gotime \<Rightarrow> manager \<Rightarrow> manager" where
  "schedule a ts m = m\<lparr>mg_scheduler := upsertAuth (registered_models (mg_registry m)) (Some a) ts (mg_scheduler m)\<rparr>"

definition persistCooldownStates :: "manager_env \<Rightarrow> gotime \<Rightarrow> manager \<Rightarrow> manager" where
  "persistCooldownStates env now m =
     m\<lparr>mg_cooldowns := map_option (\<lambda>_. cooldownStateRecordsSnapshot (cooldownDisabledForAuth env) (mg_auths m) now) (mg_cooldowns m)\<rparr>"

definition records_of :: "manager_env \<Rightarrow> Auth \<Rightarrow> gotime \<Rightarrow> CooldownStateRecord list" where
  "records_of env a now = cooldownStateRecordsForAuthLocked (cooldownDisabledForAuth env) (Some a) now"

section \<open>Registration, update, removal\<close>

text \<open>What registration and update do to the credential before they store it; the flag says that its cooldowns
  changed.\<close>

definition admit :: "manager_env \<Rightarrow> gotime \<Rightarrow> Auth \<Rightarrow> bool \<times> Auth" where
  "admit env now auth =
     (let normalized = snd (normalize_states (auth_ModelStates auth) [] False); a = normalizeModelStates auth;
          (cleared, a) = (if cooldownDisabledForAuth env (Some a) \<or> auth_Disabled a \<or> auth_Status a = StatusDisabled
                          then clearCooldownStateForAuth now a else (False, a))
      in (cleared \<or> normalized, EnsureIndex (env_abs_clean env) (env_stableAuthIndex env) a))"

definition store_auth :: "manager_env \<Rightarrow> gotime \<Rightarrow> gotime \<Rightarrow> bool \<Rightarrow> Auth \<Rightarrow> manager \<Rightarrow> manager" where
  "store_auth env now ts changed a m =
     (let m = schedule a ts (m\<lparr>mg_auths := map_put (auth_ID a) (Some a) (mg_auths m)\<rparr>)
      in if changed then persistCooldownStates env now m else m)"

text \<open>A credential without an ID gets a fresh UUID.\<close>

definition Register ::
  "manager_env \<Rightarrow> gotime \<Rightarrow> gotime \<Rightarrow> string \<Rightarrow> Auth option \<Rightarrow> manager \<Rightarrow> (weight_source_error + Auth option) \<times> manager" where
  "Register env now ts uuid auth m =
     (case auth of
        None \<Rightarrow> (Inr None, m)
      | Some a0 \<Rightarrow>
          (let a = a0\<lparr>auth_Metadata := NormalizeCredentialMetadata (auth_Metadata a0)\<rparr>
           in case ValidateAuthWeight (Some a) of
                Some e \<Rightarrow> (Inl e, m)
              | None \<Rightarrow>
                  (case admit env now (if auth_ID a = [] then a\<lparr>auth_ID := uuid\<rparr> else a) of
                     (changed, a) \<Rightarrow> (Inr (Some a), store_auth env now ts changed a m))))"

text \<open>What an update takes over from the credential it replaces.\<close>

definition inherit_state :: "gotime \<Rightarrow> Auth \<Rightarrow> Auth \<Rightarrow> Auth" where
  "inherit_state now existing auth =
     (let a = (if \<not> auth_indexAssigned auth \<and> auth_Index auth = []
               then auth\<lparr>auth_Index := auth_Index existing, auth_indexAssigned := auth_indexAssigned existing\<rparr> else auth);
          a = a\<lparr>auth_Success := auth_Success existing, auth_Failed := auth_Failed existing,
                auth_recentRequests := auth_recentRequests existing\<rparr>
      in if \<not> auth_Disabled existing \<and> auth_Status existing \<noteq> StatusDisabled \<and> \<not> auth_Disabled a \<and> auth_Status a \<noteq> StatusDisabled
         then
           (let a = (if auth_ModelStates a = [] \<and> auth_ModelStates existing \<noteq> []
                     then a\<lparr>auth_ModelStates := auth_ModelStates existing\<rparr> else a)
            in if quota_Exceeded (auth_Quota existing) \<and> quota_Reason (auth_Quota existing) = ''credential_quota'' \<and>
                  time_after (quota_NextRecoverAt (auth_Quota existing)) now
               then a\<lparr>auth_Unavailable := auth_Unavailable existing, auth_NextRetryAfter := auth_NextRetryAfter existing,
                      auth_Quota := auth_Quota existing,
                      auth_Status := (if auth_Status a = StatusActive then auth_Status existing else auth_Status a)\<rparr>
               else a)
         else a)"

definition Update ::
  "manager_env \<Rightarrow> gotime \<Rightarrow> gotime \<Rightarrow> Auth option \<Rightarrow> manager \<Rightarrow> (weight_source_error + Auth option) \<times> manager" where
  "Update env now ts auth m =
     (case auth of
        None \<Rightarrow> (Inr None, m)
      | Some a0 \<Rightarrow>
          if auth_ID a0 = [] then (Inr None, m)
          else
            (let a = a0\<lparr>auth_Metadata := NormalizeCredentialMetadata (auth_Metadata a0)\<rparr>
             in case ValidateAuthWeight (Some a) of
                  Some e \<Rightarrow> (Inl e, m)
                | None \<Rightarrow>
                    (case map_of (mg_auths m) (auth_ID a) of
                       Some (Some existing) \<Rightarrow>
                         (case admit env now (inherit_state now existing a) of
                            (changed, a) \<Rightarrow> (Inr (Some a), store_auth env now ts changed a m))
                     | _ \<Rightarrow> (Inr None, m))))"

definition Remove :: "manager_env \<Rightarrow> gotime \<Rightarrow> string \<Rightarrow> manager \<Rightarrow> manager" where
  "Remove env now id0 m =
     (let i = trim_space id0
      in if i = [] then m
         else case map_of (mg_auths m) i of
                Some (Some existing) \<Rightarrow>
                  persistCooldownStates env now
                    (m\<lparr>mg_auths := map_del i (mg_auths m), mg_scheduler := removeAuth i (mg_scheduler m)\<rparr>)
              | _ \<Rightarrow> m)"

text \<open>Loading replaces the map by what the store lists; credentials without an ID or with an invalid weight are
  skipped.\<close>

definition load_step :: "manager_env \<Rightarrow> Auth option \<Rightarrow> auths \<Rightarrow> auths" where
  "load_step env auth auths =
     (case auth of
        None \<Rightarrow> auths
      | Some a0 \<Rightarrow>
          if auth_ID a0 = [] then auths
          else
            (let a = a0\<lparr>auth_Metadata := NormalizeCredentialMetadata (auth_Metadata a0)\<rparr>
             in if ValidateAuthWeight (Some a) \<noteq> None then auths
                else (let a = EnsureIndex (env_abs_clean env) (env_stableAuthIndex env) a
                      in map_put (auth_ID a) (Some a) auths)))"

definition Load :: "manager_env \<Rightarrow> gotime \<Rightarrow> Auth option list \<Rightarrow> manager \<Rightarrow> manager" where
  "Load env ts items m =
     (let auths = fold (load_step env) items []
      in m\<lparr>mg_auths := auths,
           mg_scheduler := rebuild (registered_models (mg_registry m)) (map snd auths) ts (mg_scheduler m)\<rparr>)"

section \<open>Results\<close>

text \<open>The calls to the registry that a result causes.\<close>

definition registry_call :: "gotime \<Rightarrow> string \<Rightarrow> registry_action \<Rightarrow> model_registry \<Rightarrow> model_registry" where
  "registry_call now authID act r =
     (case act of
        Cooldown.ClearModelQuotaExceeded k \<Rightarrow> Model_Registry.ClearModelQuotaExceeded authID k r
      | Cooldown.SetModelQuotaExceeded k \<Rightarrow> Model_Registry.SetModelQuotaExceeded now authID k r
      | Cooldown.ResumeClientModel k \<Rightarrow> Model_Registry.ResumeClientModel now authID k r
      | Cooldown.SuspendClientModel k reason \<Rightarrow> Model_Registry.SuspendClientModel now authID k reason r)"

definition MarkResult :: "manager_env \<Rightarrow> gotime \<Rightarrow> gotime \<Rightarrow> header \<Rightarrow> exec_result \<Rightarrow> manager \<Rightarrow> manager" where
  "MarkResult env now ts headers result m =
     (if res_AuthID result = [] then m
      else case map_of (mg_auths m) (res_AuthID result) of
             Some (Some auth) \<Rightarrow>
               (case mark_auth (env_json env) (env_transientSeconds env) (cooldownDisabledForAuth env (Some auth)) headers result now auth of
                  (a, actions) \<Rightarrow>
                    (let m = schedule a ts (m\<lparr>mg_auths := map_put (res_AuthID result) (Some a) (mg_auths m)\<rparr>);
                         changed = (mg_cooldowns m \<noteq> None \<and>
                           \<not> cooldownStateRecordsEqual (records_of env auth now) (records_of env a now));
                         m = (if changed then persistCooldownStates env now m else m)
                     in m\<lparr>mg_registry := fold (registry_call now (res_AuthID result)) actions (mg_registry m)\<rparr>))
           | _ \<Rightarrow> m)"

text \<open>A result that says nothing about the credential is only counted; the scheduler is not told.\<close>

definition recordAvailabilityNeutralResult :: "gotime \<Rightarrow> exec_result \<Rightarrow> manager \<Rightarrow> manager" where
  "recordAvailabilityNeutralResult now result m =
     (if res_AuthID result = [] then m
      else case map_of (mg_auths m) (res_AuthID result) of
             Some (Some auth) \<Rightarrow>
               m\<lparr>mg_auths := map_put (res_AuthID result) (Some (count_result now (res_Success result) auth)) (mg_auths m)\<rparr>
           | _ \<Rightarrow> m)"

section \<open>Resets, restarts and reconciliation\<close>

datatype reset_error = AuthIDRequired | PersistFailed

definition modelsForRegisteredAuth :: "model_registry \<Rightarrow> string \<Rightarrow> string list" where
  "modelsForRegisteredAuth r authID =
     map (\<lambda>info. canonicalModelKey (mi_ID info)) (filter (\<lambda>info. trim_space (mi_ID info) \<noteq> []) (GetModelsForClient authID r))"

definition resume_models :: "gotime \<Rightarrow> string \<Rightarrow> string list \<Rightarrow> model_registry \<Rightarrow> model_registry" where
  "resume_models now authID models r =
     fold (\<lambda>k r. Model_Registry.ResumeClientModel now authID k (Model_Registry.ClearModelQuotaExceeded authID k r)) models r"

text \<open>\<open>persisted\<close> says that the credential could be saved.\<close>

definition ResetQuota ::
  "manager_env \<Rightarrow> gotime \<Rightarrow> gotime \<Rightarrow> bool \<Rightarrow> string \<Rightarrow> manager \<Rightarrow> (reset_error + Auth option \<times> string list) \<times> manager" where
  "ResetQuota env now ts persisted authID0 m =
     (let authID = trim_space authID0
      in if authID = [] then (Inl AuthIDRequired, m)
         else case map_of (mg_auths m) authID of
                Some (Some auth) \<Rightarrow>
                  (case reset_auth now (modelsForRegisteredAuth (mg_registry m) authID) auth of
                     (a, models) \<Rightarrow>
                       (let m' = m\<lparr>mg_auths := map_put authID (Some a) (mg_auths m)\<rparr>
                        in if \<not> persisted then (Inl PersistFailed, m')
                           else
                             (let m' = schedule a ts (m'\<lparr>mg_registry := resume_models now authID models (mg_registry m')\<rparr>);
                                  changed = (mg_cooldowns m \<noteq> None \<and>
                                    \<not> cooldownStateRecordsEqual (records_of env auth now) (records_of env a now))
                              in (Inr (Some a, models), if changed then persistCooldownStates env now m' else m'))))
              | _ \<Rightarrow> (Inr (None, []), m))"

definition manager_restore :: "manager_env \<Rightarrow> gotime \<Rightarrow> gotime \<Rightarrow> manager \<Rightarrow> manager" where
  "manager_restore env now ts m =
     (case mg_cooldowns m of
        None \<Rightarrow> m
      | Some records \<Rightarrow>
          if records = [] then m
          else (case RestoreCooldownStates (cooldownDisabledForAuth env) now records (mg_auths m) of
                  (auths, snapshots) \<Rightarrow>
                    persistCooldownStates env now (fold (\<lambda>(i, a). schedule a ts) snapshots (m\<lparr>mg_auths := auths\<rparr>))))"

definition clear_disabled_step ::
  "manager_env \<Rightarrow> cooling_config option \<Rightarrow> gotime \<Rightarrow> string \<times> Auth option \<Rightarrow> auths \<times> Auth list \<Rightarrow> auths \<times> Auth list" where
  "clear_disabled_step env cfg now entry st =
     (case entry of
        (i, None) \<Rightarrow> st
      | (i, Some auth) \<Rightarrow>
          if \<not> quotaCooldownDisabledForAuthWithConfig (env_quotaCooldownDisabled env) (Some auth) cfg \<and> \<not> auth_Disabled auth \<and>
             auth_Status auth \<noteq> StatusDisabled then st
          else (case clearCooldownStateForAuth now auth of
                  (changed, a) \<Rightarrow> (map_put i (Some a) (fst st), if changed then snd st @ [a] else snd st)))"

definition clearDisabledCooldownStates ::
  "manager_env \<Rightarrow> cooling_config option \<Rightarrow> gotime \<Rightarrow> gotime \<Rightarrow> manager \<Rightarrow> bool \<times> manager" where
  "clearDisabledCooldownStates env cfg now ts m =
     (case fold (clear_disabled_step env cfg now) (mg_auths m) (mg_auths m, []) of
        (auths, snapshots) \<Rightarrow> (snapshots \<noteq> [], fold (\<lambda>a. schedule a ts) snapshots (m\<lparr>mg_auths := auths\<rparr>)))"

definition RefreshSchedulerEntry :: "string \<Rightarrow> gotime \<Rightarrow> manager \<Rightarrow> manager" where
  "RefreshSchedulerEntry authID ts m =
     (if authID = [] then m
      else case map_of (mg_auths m) authID of Some (Some auth) \<Rightarrow> schedule auth ts m | _ \<Rightarrow> m)"

definition RefreshSchedulerAll :: "gotime \<Rightarrow> manager \<Rightarrow> manager" where
  "RefreshSchedulerAll ts m = fold (\<lambda>(i, a). RefreshSchedulerEntry i ts) (mg_auths m) m"

text \<open>The states of models the registry no longer lists are dropped, the others reset.\<close>

definition reconcile_states :: "string list \<Rightarrow> gotime \<Rightarrow> states \<Rightarrow> states" where
  "reconcile_states supported now ms =
     map (\<lambda>(k, s). (k, case s of None \<Rightarrow> None | Some st \<Rightarrow> if modelStateIsClean s then s else Some (resetModelState now st)))
       (filter (\<lambda>(k, s). state_key k \<in> set supported) ms)"

definition states_changed :: "string list \<Rightarrow> states \<Rightarrow> bool" where
  "states_changed supported ms \<longleftrightarrow> (\<exists>(k, s)\<in>set ms. state_key k \<notin> set supported \<or> s \<noteq> None \<and> \<not> modelStateIsClean s)"

definition ReconcileRegistryModelStates :: "gotime \<Rightarrow> gotime \<Rightarrow> string \<Rightarrow> manager \<Rightarrow> manager" where
  "ReconcileRegistryModelStates now ts authID m =
     (let supported = filter (\<lambda>k. k \<noteq> []) (map (\<lambda>info. canonicalModelKey (mi_ID info)) (GetModelsForClient authID (mg_registry m)))
      in if authID = [] then m
         else case map_of (mg_auths m) authID of
                Some (Some auth) \<Rightarrow>
                  (let a = auth\<lparr>auth_ModelStates := reconcile_states supported now (auth_ModelStates auth)\<rparr>
                   in if \<not> states_changed supported (auth_ModelStates auth) then m
                      else
                        (let a = (settle_status now (updateAggregatedAvailability now a))\<lparr>auth_UpdatedAt := now\<rparr>
                         in schedule a ts (m\<lparr>mg_auths := map_put authID (Some a) (mg_auths m)\<rparr>)))
              | _ \<Rightarrow> m)"

end
