(* ===== verification/Manager_Laws.thy ===== *)
theory Manager_Laws
  imports Credential_Manager Cooldown_Restart Mixed_Picks
begin

text \<open>
  The manager and its scheduler agree: the scheduler holds exactly the enabled credentials of the manager's
  map, as they are, up to the counters of results, but for those with a change that the scheduler was not told of
  yet, was told of out of turn, or was not told of at all. So what a result does to a credential decides the picks that follow it.
\<close>

declare map_of_eq_Some_iff [simp del]

section \<open>Operations keep the identity\<close>

named_theorems keeps_id

lemma update_id [keeps_id]: "auth_ID (updateAggregatedAvailability now a) = auth_ID a"
  by (simp add: updateAggregatedAvailability_def clearAggregatedAvailability_def Let_def)

lemma normalize_id [keeps_id]: "auth_ID (normalizeModelStates a) = auth_ID a"
  by (simp add: normalizeModelStates_def split: prod.split)

lemma set_state_id [keeps_id]: "auth_ID (set_state k st a) = auth_ID a"
  by (simp add: set_state_def)

lemma ensure_id [keeps_id]: "auth_ID (snd (ensureModelState a k)) = auth_ID a"
  by (auto simp: ensureModelState_def Let_def keeps_id split: option.split)

lemma clear_id [keeps_id]: "auth_ID (snd (clearCooldownStateForAuth now a)) = auth_ID a"
  by (simp add: clearCooldownStateForAuth_def Let_def keeps_id)

lemma index_id [keeps_id]: "auth_ID (EnsureIndex p h a) = auth_ID a"
  by (simp add: EnsureIndex_def Let_def)

lemma count_id [keeps_id]: "auth_ID (count_result now s a) = auth_ID a"
  by (simp add: count_result_def recordRecentRequest_def Let_def)

lemma settle_id [keeps_id]: "auth_ID (settle_status now a) = auth_ID a"
  by (simp add: settle_status_def)

lemma parts_id [keeps_id]:
  "auth_ID (spread_credential k n l a) = auth_ID a" "auth_ID (failing_auth e a) = auth_ID a"
  "auth_ID (clearAuthStateOnSuccess now a) = auth_ID a" "auth_ID (settle_auth d a) = auth_ID a"
  "auth_ID (timed_auth msg c d now a) = auth_ID a" "auth_ID (force_auth e now a) = auth_ID a"
  "auth_ID (rate_limited_auth ra d now a) = auth_ID a" "auth_ID (recoverable_auth s msg d now a) = auth_ID a"
  by (simp_all add: spread_credential_def failing_auth_def clearAuthStateOnSuccess_def settle_auth_def timed_auth_def force_auth_def
      rate_limited_auth_def recoverable_auth_def Let_def split: option.split prod.split)

lemma success_id [keeps_id]: "auth_ID (fst (mark_success now k a)) = auth_ID a"
  using ensure_id [of a k] by (cases "ensureModelState a k") (simp add: mark_success_def Let_def keeps_id)

lemma failure_id [keeps_id]: "auth_ID (fst (mark_model_failure s d r now k a)) = auth_ID a"
  using ensure_id [of a k] by (cases "ensureModelState a k") (simp add: mark_model_failure_def Let_def keeps_id split: prod.split option.split)

lemma auth_failure_id [keeps_id]: "auth_ID (applyAuthFailureState lib s e ra now d a) = auth_ID a"
  by (simp add: applyAuthFailureState_def Let_def keeps_id split: prod.split option.split)

lemma observe_id [keeps_id]: "auth_ID (observe_result r h now k a) = auth_ID a"
  by (simp add: observe_result_def Let_def keeps_id split: option.split)

lemma mark_id [keeps_id]: "auth_ID (fst (mark_auth lib s d h r now a)) = auth_ID a"
  by (simp add: mark_auth_def Let_def case_prod_beta keeps_id)

lemma reset_id [keeps_id]: "auth_ID (fst (reset_auth now ms a)) = auth_ID a"
  using clear_id [of now "a\<lparr>auth_ModelStates := reset_states now (auth_ModelStates a)\<rparr>"]
  by (simp add: reset_auth_def Let_def case_prod_beta keeps_id)

lemma admit_id [keeps_id]: "auth_ID (snd (admit env now a)) = auth_ID a"
  using clear_id [of now "normalizeModelStates a"] by (simp add: admit_def Let_def case_prod_beta keeps_id)

lemma inherit_id [keeps_id]: "auth_ID (inherit_state now e a) = auth_ID a"
  by (simp add: inherit_state_def Let_def)

section \<open>Agreement\<close>

text \<open>Equal but for the counters of results.\<close>

definition uncounted :: "Auth \<Rightarrow> Auth" where
  "uncounted a = a\<lparr>auth_Success := 0, auth_Failed := 0, auth_recentRequests := []\<rparr>"

definition same_service :: "Auth \<Rightarrow> Auth \<Rightarrow> bool" where
  "same_service x y \<longleftrightarrow> uncounted x = uncounted y"

lemma same_service_refl [simp]: "same_service x x"
  by (simp add: same_service_def)

lemma same_service_count: "same_service x (count_result now s y) = same_service x y"
  by (simp add: same_service_def uncounted_def count_result_def recordRecentRequest_def Let_def)

lemma same_service_selectors:
  assumes "same_service x y"
  shows "auth_ID x = auth_ID y" "auth_Attributes x = auth_Attributes y" "auth_Provider x = auth_Provider y" "auth_Label x = auth_Label y"
    "auth_Disabled x = auth_Disabled y" "auth_Status x = auth_Status y" "auth_Quota x = auth_Quota y"
    "auth_ModelStates x = auth_ModelStates y" "auth_Unavailable x = auth_Unavailable y" "auth_NextRetryAfter x = auth_NextRetryAfter y"
proof -
  have c: "f (uncounted x) = f (uncounted y)" for f :: "Auth \<Rightarrow> 'b" using assms by (simp add: same_service_def)
  show "auth_ID x = auth_ID y" using c [of auth_ID] by (simp add: uncounted_def)
  show "auth_Attributes x = auth_Attributes y" using c [of auth_Attributes] by (simp add: uncounted_def)
  show "auth_Provider x = auth_Provider y" using c [of auth_Provider] by (simp add: uncounted_def)
  show "auth_Label x = auth_Label y" using c [of auth_Label] by (simp add: uncounted_def)
  show "auth_Disabled x = auth_Disabled y" using c [of auth_Disabled] by (simp add: uncounted_def)
  show "auth_Status x = auth_Status y" using c [of auth_Status] by (simp add: uncounted_def)
  show "auth_Quota x = auth_Quota y" using c [of auth_Quota] by (simp add: uncounted_def)
  show "auth_ModelStates x = auth_ModelStates y" using c [of auth_ModelStates] by (simp add: uncounted_def)
  show "auth_Unavailable x = auth_Unavailable y" using c [of auth_Unavailable] by (simp add: uncounted_def)
  show "auth_NextRetryAfter x = auth_NextRetryAfter y" using c [of auth_NextRetryAfter] by (simp add: uncounted_def)
qed

lemma same_service_fields:
  assumes "same_service x y"
  shows "executorKeyFromAuth (Some x) = executorKeyFromAuth (Some y)" "schedulable x = schedulable y"
    "isAuthBlockedForModel (Some x) m t = isAuthBlockedForModel (Some y) m t"
proof -
  note f = same_service_selectors [OF assms]
  show k: "executorKeyFromAuth (Some x) = executorKeyFromAuth (Some y)" unfolding executorKeyFromAuth_def option.case f ..
  show "schedulable x = schedulable y" unfolding schedulable_def k f ..
  show "isAuthBlockedForModel (Some x) m t = isAuthBlockedForModel (Some y) m t"
    unfolding isAuthBlockedForModel_def option.case credential_quota_block_def auth_block_def f ..
qed

text \<open>What the scheduler should know of a credential of the manager's map under an executor key.\<close>

definition scheduled_as :: "Auth option option \<Rightarrow> string \<Rightarrow> scheduledAuthMeta option \<Rightarrow> bool" where
  "scheduled_as entry k meta \<longleftrightarrow>
     (case entry of
        Some (Some a) \<Rightarrow>
          if schedulable a \<and> k = executorKeyFromAuth (Some a)
          then (\<exists>x reg. meta = Some (buildScheduledAuthMeta reg x) \<and> same_service x a) else meta = None
      | _ \<Rightarrow> meta = None)"

definition agree_outside :: "string set \<Rightarrow> gotime \<Rightarrow> manager \<Rightarrow> bool" where
  "agree_outside I t m \<longleftrightarrow> scheduler_ok t (mg_scheduler m) \<and>
     (\<forall>i a. map_of (mg_auths m) i = Some (Some a) \<longrightarrow> auth_ID a = i \<and> trim_space i = i) \<and>
     (\<forall>k j. j \<notin> I \<longrightarrow> scheduled_as (map_of (mg_auths m) j) k (known (mg_scheduler m) k j))"

abbreviation agree :: "gotime \<Rightarrow> manager \<Rightarrow> bool" where
  "agree \<equiv> agree_outside {}"

lemma agree_outsideI:
  assumes "scheduler_ok t (mg_scheduler m)"
    and "\<And>i a. map_of (mg_auths m) i = Some (Some a) \<Longrightarrow> auth_ID a = i \<and> trim_space i = i"
    and "\<And>k j. j \<notin> I \<Longrightarrow> scheduled_as (map_of (mg_auths m) j) k (known (mg_scheduler m) k j)"
  shows "agree_outside I t m"
  unfolding agree_outside_def by (intro conjI allI impI assms(1,3) assms(2) [THEN conjunct1] assms(2) [THEN conjunct2])

lemma agree_outsideD:
  assumes "agree_outside I t m"
  shows "scheduler_ok t (mg_scheduler m)"
    and "map_of (mg_auths m) i = Some (Some a) \<Longrightarrow> auth_ID a = i"
    and "map_of (mg_auths m) i = Some (Some a) \<Longrightarrow> trim_space i = i"
    and "j \<notin> I \<Longrightarrow> scheduled_as (map_of (mg_auths m) j) k (known (mg_scheduler m) k j)"
  using assms unfolding agree_outside_def by blast+

lemma agree_later: "agree_outside I t m \<Longrightarrow> t \<le> t' \<Longrightarrow> agree_outside I t' m"
  unfolding agree_outside_def by (blast intro: scheduler_ok_later)

lemma agree_wider: "agree_outside I t m \<Longrightarrow> I \<subseteq> J \<Longrightarrow> agree_outside J t m"
  unfolding agree_outside_def by blast

text \<open>The credential that an operation on an ID finds, if there is one.\<close>

definition present :: "manager \<Rightarrow> string \<Rightarrow> string set" where
  "present m i = (if i \<noteq> [] \<and> (\<exists>a. map_of (mg_auths m) i = Some (Some a)) then {i} else {})"

text \<open>The credential that a registration or an update stored.\<close>

definition answered :: "'e + Auth option \<Rightarrow> string set" where
  "answered r = (case r of Inr (Some a) \<Rightarrow> {auth_ID a} | _ \<Rightarrow> {})"

lemma agree_cong:
  "mg_auths m' = mg_auths m \<Longrightarrow> mg_scheduler m' = mg_scheduler m \<Longrightarrow> agree_outside I t m' = agree_outside I t m"
  by (simp add: agree_outside_def)

lemma agree_persist [simp]: "agree_outside I t (persistCooldownStates env now m) = agree_outside I t m"
  by (rule agree_cong) (simp_all add: persistCooldownStates_def)

lemma schedule_fields [simp]:
  "mg_auths (schedule a ts m) = mg_auths m" "mg_registry (schedule a ts m) = mg_registry m" "mg_cooldowns (schedule a ts m) = mg_cooldowns m"
  by (simp_all add: schedule_def)

lemma agree_schedule:
  assumes "agree_outside I t m" "t \<le> ts" "map_of (mg_auths m) (auth_ID a) = Some (Some a)"
  shows "agree_outside (I - {auth_ID a}) ts (schedule a ts m)"
proof -
  note ag = agree_outsideD [OF assms(1)]
  have ok: "scheduler_ok t (mg_scheduler m)" and tr: "trim_space (auth_ID a) = auth_ID a"
    using ag(1) ag(3) [OF assms(3)] by simp_all
  let ?reg = "registered_models (mg_registry m)"
  note up = upsert_spec [OF ok assms(2) tr, of ?reg]
  have s: "mg_scheduler (schedule a ts m) = upsertAuthLocked ?reg (Some a) ts (mg_scheduler m)"
    by (simp add: schedule_def upsertAuth_def)
  have "scheduled_as (map_of (mg_auths m) j) k (known (mg_scheduler (schedule a ts m)) k j)" if "j \<notin> I - {auth_ID a}" for k j
  proof (cases "j = auth_ID a")
    case True
    then show ?thesis unfolding s up(2) True assms(3) scheduled_as_def using same_service_refl [of a] by auto
  next
    case False
    then have "j \<notin> I" using that by simp
    then show ?thesis using assms(1) False unfolding s up(2) agree_outside_def by simp
  qed
  then show ?thesis using assms(1) up(1) by (simp add: agree_outside_def s)
qed

lemma agree_put:
  assumes "agree_outside I t m" "auth_ID a = i" "trim_space i = i"
  shows "agree_outside (insert i I) t (m\<lparr>mg_auths := map_put i (Some a) (mg_auths m)\<rparr>)"
proof -
  have look: "map_of (map_put i (Some a) (mg_auths m)) j = (if j = i then Some (Some a) else map_of (mg_auths m) j)" for j
    by (simp add: update_conv')
  note ag = agree_outsideD [OF assms(1)]
  show ?thesis
  proof (rule agree_outsideI)
    show "scheduler_ok t (mg_scheduler (m\<lparr>mg_auths := map_put i (Some a) (mg_auths m)\<rparr>))" using ag(1) by simp
  next
    fix j b assume "map_of (mg_auths (m\<lparr>mg_auths := map_put i (Some a) (mg_auths m)\<rparr>)) j = Some (Some b)"
    then have l: "(if j = i then Some (Some a) else map_of (mg_auths m) j) = Some (Some b)" by (simp add: look)
    show "auth_ID b = j \<and> trim_space j = j"
    proof (cases "j = i")
      case True
      then show ?thesis using l assms(2,3) by simp
    next
      case False
      then have "map_of (mg_auths m) j = Some (Some b)" using l by simp
      then show ?thesis using ag(2,3) by simp
    qed
  next
    fix k j assume "j \<notin> insert i I"
    then show "scheduled_as (map_of (mg_auths (m\<lparr>mg_auths := map_put i (Some a) (mg_auths m)\<rparr>)) j) k
        (known (mg_scheduler (m\<lparr>mg_auths := map_put i (Some a) (mg_auths m)\<rparr>)) k j)"
      using ag(4) by (simp add: look)
  qed
qed

lemma agree_store:
  assumes "agree_outside I t m" "t \<le> ts" "trim_space (auth_ID a) = auth_ID a"
  shows "agree_outside (I - {auth_ID a}) ts (schedule a ts (m\<lparr>mg_auths := map_put (auth_ID a) (Some a) (mg_auths m)\<rparr>))"
  using agree_schedule [OF agree_put [OF assms(1) refl assms(3)] assms(2), of a] by (simp add: update_conv' insert_Diff_if)

lemma agree_entry:
  assumes "agree_outside I t m" "t \<le> ts"
  shows "agree_outside (I - present m i) ts (RefreshSchedulerEntry i ts m)"
proof -
  have later: "agree_outside I ts m" by (rule agree_later [OF assms])
  show ?thesis
  proof (cases "i \<noteq> [] \<and> (\<exists>a. map_of (mg_auths m) i = Some (Some a))")
    case True
    then obtain a where a: "i \<noteq> []" "map_of (mg_auths m) i = Some (Some a)" by blast
    then have "auth_ID a = i" using agree_outsideD(2) [OF assms(1)] by blast
    then show ?thesis using agree_schedule [OF assms(1,2), of a] a by (simp add: RefreshSchedulerEntry_def present_def)
  next
    case False
    then have "present m i = {}" "RefreshSchedulerEntry i ts m = m"
      by (auto simp: RefreshSchedulerEntry_def present_def split: option.split)
    then show ?thesis using later by simp
  qed
qed

lemma agree_entries:
  assumes "agree_outside I t m" "t \<le> ts"
  shows "agree_outside I ts (fold (\<lambda>(i, a). RefreshSchedulerEntry i ts) es m)"
proof -
  have "agree_outside I ts m \<Longrightarrow> agree_outside I ts (fold (\<lambda>(i, a). RefreshSchedulerEntry i ts) es m)" for m
  proof (induction es arbitrary: m)
    case (Cons e es)
    obtain i a where e: "e = (i, a)" by fastforce
    have "agree_outside I ts (RefreshSchedulerEntry i ts m)"
      by (rule agree_wider [OF agree_entry [OF Cons.prems order_refl]]) blast
    then show ?case using Cons.IH by (simp add: e)
  qed simp
  then show ?thesis using agree_later [OF assms] by simp
qed

text \<open>Telling the scheduler of several credentials.\<close>

lemma agree_schedule_all:
  assumes "agree_outside I t m" "t \<le> ts" "\<forall>(i, a)\<in>set l. map_of (mg_auths m) i = Some (Some a)"
  shows "agree_outside (I - fst ` set l) ts (fold (\<lambda>(i, a). schedule a ts) l m)"
proof -
  have "agree_outside (I - fst ` set l) ts (fold (\<lambda>(i, a). schedule a ts) l m)"
    if "agree_outside I ts m" "\<forall>(i, a)\<in>set l. map_of (mg_auths m) i = Some (Some a)" for I m
    using that
  proof (induction l arbitrary: I m)
    case (Cons e l)
    obtain i a where e: "e = (i, a)" by fastforce
    have l: "map_of (mg_auths m) i = Some (Some a)" using Cons.prems(2) by (simp add: e)
    have i: "auth_ID a = i" by (rule agree_outsideD(2) [OF Cons.prems(1) l])
    have "agree_outside (I - {i}) ts (schedule a ts m)" using agree_schedule [OF Cons.prems(1) order_refl, of a] l i by simp
    moreover have "\<forall>(i, a)\<in>set l. map_of (mg_auths (schedule a ts m)) i = Some (Some a)" using Cons.prems(2) by simp
    ultimately have rest: "agree_outside (I - {i} - fst ` set l) ts (fold (\<lambda>(i, a). schedule a ts) l (schedule a ts m))"
      using Cons.IH [of "I - {i}" "schedule a ts m"] by simp
    have "I - fst ` set (e # l) = I - {i} - fst ` set l" by (auto simp: e)
    then show ?case using rest by (simp only: fold_simps o_apply e prod.case)
  qed simp
  from this [OF agree_later [OF assms(1,2)] assms(3)] show ?thesis .
qed

section \<open>Loading\<close>

definition loaded :: "auths \<Rightarrow> (string \<times> Auth) list" where
  "loaded auths = concat (map (\<lambda>(i, a). case a of None \<Rightarrow> [] | Some a \<Rightarrow> [(i, a)]) auths)"

lemma rebuild_loaded:
  "mg_scheduler (fold (\<lambda>(i, a). schedule a ts) (loaded auths) m) =
     fold (\<lambda>a. upsertAuthLocked (registered_models (mg_registry m)) a ts) (map snd auths) (mg_scheduler m)"
proof (induction auths arbitrary: m)
  case (Cons e auths)
  show ?case
  proof (cases "snd e")
    case None
    then show ?thesis using Cons.IH [of m] by (cases e) (simp add: loaded_def upsertAuthLocked_def)
  next
    case (Some a)
    then show ?thesis using Cons.IH [of "schedule a ts m"] by (cases e) (simp add: loaded_def, simp add: schedule_def upsertAuth_def)
  qed
qed (simp add: loaded_def)

lemma fold_schedule_fields [simp]:
  "mg_auths (fold (\<lambda>(i, a). schedule a ts) l m) = mg_auths m"
  by (induction l arbitrary: m) auto

definition well_loaded :: "auths \<Rightarrow> bool" where
  "well_loaded auths \<longleftrightarrow> wf_map auths \<and> (\<forall>(i, a)\<in>set auths. \<exists>b. a = Some b \<and> auth_ID b = i \<and> trim_space i = i)"

lemma well_loaded_put:
  assumes "well_loaded auths" "trim_space (auth_ID b) = auth_ID b"
  shows "well_loaded (map_put (auth_ID b) (Some b) auths)"
  using assms by (auto simp: well_loaded_def distinct_update set_map_put)

lemma load_step_cases:
  assumes "trimmed auth"
  obtains "load_step env auth auths = auths"
  | b where "load_step env auth auths = map_put (auth_ID b) (Some b) auths" "trim_space (auth_ID b) = auth_ID b"
proof (cases auth)
  case None
  then show thesis using that(1) by (simp add: load_step_def)
next
  case (Some a0)
  let ?a = "a0\<lparr>auth_Metadata := NormalizeCredentialMetadata (auth_Metadata a0)\<rparr>"
  let ?b = "EnsureIndex (env_abs_clean env) (env_stableAuthIndex env) ?a"
  have i: "auth_ID ?b = auth_ID a0" by (simp add: keeps_id)
  have "load_step env auth auths = auths \<or> load_step env auth auths = map_put (auth_ID ?b) (Some ?b) auths"
    by (simp add: load_step_def Some Let_def)
  moreover have "trim_space (auth_ID ?b) = auth_ID ?b" using assms unfolding i by (simp add: Some)
  ultimately show thesis using that(1) that(2) [of ?b] by blast
qed

lemma load_step_ok:
  assumes "well_loaded auths" "trimmed auth"
  shows "well_loaded (load_step env auth auths)"
  by (rule load_step_cases [OF assms(2), of env auths]) (simp_all add: assms(1) well_loaded_put)

lemma loaded_well:
  assumes "list_all trimmed items"
  shows "well_loaded (fold (load_step env) items [])"
proof -
  have "well_loaded (fold (load_step env) items as)" if "well_loaded as" for as
    using that assms
  proof (induction items arbitrary: as)
    case (Cons it items)
    have "trimmed it" "list_all trimmed items" using Cons.prems(2) by simp_all
    with Cons.IH [OF load_step_ok [OF Cons.prems(1)]] show ?case by simp
  qed simp
  from this [of "[]"] show ?thesis by (simp add: well_loaded_def)
qed

text \<open>A scheduler rebuilt from a snapshot agrees with that snapshot.\<close>

lemma agree_rebuild:
  assumes "agree_outside I t m" "t \<le> ts" "well_loaded auths"
  shows "agree ts (m\<lparr>mg_auths := auths,
    mg_scheduler := rebuild (registered_models (mg_registry m)) (map snd auths) ts (mg_scheduler m)\<rparr>)"
proof -
  note w = assms(3) [unfolded well_loaded_def, THEN conjunct1] assms(3) [unfolded well_loaded_def, THEN conjunct2]
  have look: "map_of auths i = Some (Some a) \<longleftrightarrow> (i, Some a) \<in> set auths" for i a by (rule map_of_eq_Some_iff [OF w(1)])
  let ?s = "(mg_scheduler m)\<lparr>as_providers := [], as_authProviders := [], as_mixedCursors := [], as_mixedWeightedStates := []\<rparr>"
  let ?m = "m\<lparr>mg_auths := auths, mg_scheduler := ?s\<rparr>"
  have s: "scheduler_ok ts ?s"
    using agree_outsideD(1) [OF agree_later [OF assms(1,2)]] by (simp add: scheduler_ok_def providers_ok_def located_def known_def)
  have "agree_outside (fst ` set (loaded auths)) ts ?m"
  proof (rule agree_outsideI)
    show "scheduler_ok ts (mg_scheduler ?m)" using s by simp
  next
    fix i a assume "map_of (mg_auths ?m) i = Some (Some a)"
    then have "(i, Some a) \<in> set auths" using look by simp
    with w(2) show "auth_ID a = i \<and> trim_space i = i" by fastforce
  next
    fix k j assume j: "j \<notin> fst ` set (loaded auths)"
    have "map_of auths j \<noteq> Some (Some a)" for a
    proof
      assume "map_of auths j = Some (Some a)"
      then have "(j, a) \<in> set (loaded auths)" using look by (force simp: loaded_def)
      then show False using j by force
    qed
    then show "scheduled_as (map_of (mg_auths ?m) j) k (known (mg_scheduler ?m) k j)"
      by (auto simp: scheduled_as_def known_def split: option.split)
  qed
  moreover have "\<forall>(i, a)\<in>set (loaded auths). map_of (mg_auths ?m) i = Some (Some a)"
    using look by (auto simp: loaded_def split: option.splits)
  ultimately have a: "agree ts (fold (\<lambda>(i, a). schedule a ts) (loaded auths) ?m)"
    using agree_schedule_all [OF _ order_refl] by fastforce
  have "mg_scheduler (fold (\<lambda>(i, a). schedule a ts) (loaded auths) ?m) =
      rebuild (registered_models (mg_registry m)) (map snd auths) ts (mg_scheduler m)"
    unfolding rebuild_loaded by (simp add: rebuild_def)
  then show ?thesis using a by (subst agree_cong [where m = "fold (\<lambda>(i, a). schedule a ts) (loaded auths) ?m"]) simp_all
qed

lemma agree_load:
  assumes "agree_outside I t m" "t \<le> ts" "list_all trimmed items"
  shows "agree ts (Load env ts items m)"
  using agree_rebuild [OF assms(1,2) loaded_well [OF assms(3)], of env] by (simp add: Load_def Let_def)

section \<open>Restoring cooldowns\<close>

lemma restore_record_id [keeps_id]: "auth_ID (restore_record r now x) = auth_ID x"
  using ensure_id [of x "trim_space (cr_Model r)"]
  by (cases "ensureModelState x (trim_space (cr_Model r))")
    (simp add: restore_record_def restore_auth_def restore_model_def Let_def keeps_id)

definition restoring :: "auths \<Rightarrow> auths \<times> (string \<times> Auth) list \<Rightarrow> bool" where
  "restoring old st \<longleftrightarrow> wf_map (snd st) \<and>
     (\<forall>i a. map_of (fst st) i = Some (Some a) \<longrightarrow> auth_ID a = i \<and> trim_space i = i) \<and>
     (\<forall>(i, a)\<in>set (snd st). map_of (fst st) i = Some (Some a)) \<and>
     (\<forall>j. j \<notin> fst ` set (snd st) \<longrightarrow> map_of (fst st) j = map_of old j)"

lemma restoringD:
  assumes "restoring old st"
  shows "wf_map (snd st)"
    and "map_of (fst st) i = Some (Some a) \<Longrightarrow> auth_ID a = i"
    and "map_of (fst st) i = Some (Some a) \<Longrightarrow> trim_space i = i"
    and "(i, a) \<in> set (snd st) \<Longrightarrow> map_of (fst st) i = Some (Some a)"
    and "j \<notin> fst ` set (snd st) \<Longrightarrow> map_of (fst st) j = map_of old j"
  using assms unfolding restoring_def by blast+

lemma restoring_put:
  assumes "restoring old (auths, snaps)" "auth_ID b = i" "trim_space i = i"
  shows "restoring old (map_put i (Some b) auths, map_put i b snaps)"
proof -
  note r = restoringD [OF assms(1), unfolded fst_conv snd_conv]
  have look: "map_of (map_put i (Some b) auths) j = (if j = i then Some (Some b) else map_of auths j)" for j
    by (simp add: update_conv')
  have set': "set (map_put i b snaps) = insert (i, b) {(j, a) \<in> set snaps. j \<noteq> i}" by (rule set_map_put [OF r(1)])
  show ?thesis
    unfolding restoring_def fst_conv snd_conv
  proof (intro conjI allI impI ballI)
    show "wf_map (map_put i b snaps)" using r(1) by (rule distinct_update)
  next
    fix j a assume j: "map_of (map_put i (Some b) auths) j = Some (Some a)"
    show "auth_ID a = j" using j r(2) assms(2) unfolding look by (cases "j = i") simp_all
    show "trim_space j = j"
    proof (cases "j = i")
      case True
      then show ?thesis using assms(3) by simp
    next
      case False
      then show ?thesis using j r(3) unfolding look by simp
    qed
  next
    fix e assume e: "e \<in> set (map_put i b snaps)"
    then show "case e of (j, a) \<Rightarrow> map_of (map_put i (Some b) auths) j = Some (Some a)"
      using r(4) unfolding set' look by (cases e) auto
  next
    fix j assume "j \<notin> fst ` set (map_put i b snaps)"
    then have "j \<noteq> i" "j \<notin> fst ` set snaps" unfolding set' by force+
    then show "map_of (map_put i (Some b) auths) j = map_of old j" using r(5) by (simp add: look)
  qed
qed

lemma restoring_step:
  assumes "restoring old st"
  shows "restoring old (restore_step disabled now record st)"
proof -
  obtain auths snaps where st: "st = (auths, snaps)" by fastforce
  let ?i = "trim_space (cr_AuthID record)"
  show ?thesis
  proof (cases "restoreCooldownRecordLocked disabled record now auths")
    case (Pair ok auths')
    show ?thesis
    proof (cases ok)
      case False
      then have "auths' = auths" using Pair
        by (simp add: restoreCooldownRecordLocked_def Let_def split: if_splits option.splits)
      then show ?thesis using False assms by (simp add: restore_step_def st Pair)
    next
      case True
      obtain a where a: "map_of auths ?i = Some (Some a)" "auths' = map_put ?i (Some (restore_record record now a)) auths"
        using Pair True by (auto simp: restoreCooldownRecordLocked_def Let_def split: if_splits option.splits)
      have id: "auth_ID (restore_record record now a) = ?i"
        using restoringD(2) [OF assms] a(1) by (simp add: st keeps_id)
      have "restore_step disabled now record st =
          (map_put ?i (Some (restore_record record now a)) auths, map_put ?i (restore_record record now a) snaps)"
        by (simp add: restore_step_def st Pair True a(2) update_conv' id)
      then show ?thesis using restoring_put [OF assms [unfolded st] id] restoringD(3) [OF assms] a(1) by (simp add: st)
    qed
  qed
qed

lemma agree_restore:
  assumes "agree_outside I t m" "t \<le> ts"
  shows "agree_outside I ts (manager_restore env now ts m)"
proof (cases "mg_cooldowns m")
  case None
  then show ?thesis using agree_later [OF assms] by (simp add: manager_restore_def)
next
  case (Some records)
  obtain auths snaps where r: "RestoreCooldownStates (cooldownDisabledForAuth env) now records (mg_auths m) = (auths, snaps)" by fastforce
  have fold_ok: "restoring old (fold (restore_step disabled now) rs st)" if "restoring old st" for old disabled rs st
    using that by (induction rs arbitrary: st) (simp_all add: restoring_step)
  have "restoring (mg_auths m) (mg_auths m, [])"
    using agree_outsideD(2,3) [OF assms(1)] unfolding restoring_def by simp
  from fold_ok [OF this] have "restoring (mg_auths m) (auths, snaps)"
    using r unfolding RestoreCooldownStates_def Let_def by metis
  note R = restoringD [OF this, unfolded fst_conv snd_conv]
  let ?m = "m\<lparr>mg_auths := auths\<rparr>"
  have "agree_outside (I \<union> fst ` set snaps) t ?m"
  proof (rule agree_outsideI)
    show "scheduler_ok t (mg_scheduler ?m)" using agree_outsideD(1) [OF assms(1)] by simp
  next
    fix i a assume "map_of (mg_auths ?m) i = Some (Some a)"
    then show "auth_ID a = i \<and> trim_space i = i" using R(2,3) by simp
  next
    fix k j assume "j \<notin> I \<union> fst ` set snaps"
    then show "scheduled_as (map_of (mg_auths ?m) j) k (known (mg_scheduler ?m) k j)"
      using R(5) agree_outsideD(4) [OF assms(1), of j k] by simp
  qed
  from agree_schedule_all [OF this assms(2), of snaps] R(4)
  have "agree_outside (I \<union> fst ` set snaps - fst ` set snaps) ts (fold (\<lambda>(i, a). schedule a ts) snaps ?m)" by fastforce
  then have "agree_outside I ts (fold (\<lambda>(i, a). schedule a ts) snaps ?m)" by (rule agree_wider) blast
  then show ?thesis using agree_later [OF assms] by (simp add: manager_restore_def Some r)
qed

section \<open>The other operations\<close>

lemma count_same_service: "same_service a (count_result now ok a)"
  by (simp add: same_service_count)

lemma scheduled_as_count: "scheduled_as (Some (Some (count_result now ok a))) k meta = scheduled_as (Some (Some a)) k meta"
  unfolding scheduled_as_def option.case same_service_fields(1,2) [OF count_same_service, symmetric] same_service_count ..

lemma agree_neutral:
  assumes "agree_outside I t m"
  shows "agree_outside I t (recordAvailabilityNeutralResult now result m)"
proof (cases "res_AuthID result \<noteq> [] \<and> (\<exists>a. map_of (mg_auths m) (res_AuthID result) = Some (Some a))")
  case True
  let ?i = "res_AuthID result"
  obtain a where a: "?i \<noteq> []" "map_of (mg_auths m) ?i = Some (Some a)" using True by blast
  let ?b = "count_result now (res_Success result) a"
  let ?m = "m\<lparr>mg_auths := map_put ?i (Some ?b) (mg_auths m)\<rparr>"
  have id: "auth_ID ?b = ?i" using agree_outsideD(2) [OF assms a(2)] by (simp add: keeps_id)
  note P = agree_outsideD [OF agree_put [OF assms id agree_outsideD(3) [OF assms a(2)]]]
  have "agree_outside I t ?m"
  proof (rule agree_outsideI)
    show "scheduler_ok t (mg_scheduler ?m)" by (rule P(1))
  next
    fix j b assume "map_of (mg_auths ?m) j = Some (Some b)"
    then show "auth_ID b = j \<and> trim_space j = j" using P(2,3) by blast
  next
    fix k j assume j: "j \<notin> I"
    show "scheduled_as (map_of (mg_auths ?m) j) k (known (mg_scheduler ?m) k j)"
    proof (cases "j = ?i")
      case True
      then show ?thesis using agree_outsideD(4) [OF assms, of ?i k] a(2) j by (simp add: update_conv' scheduled_as_count)
    next
      case False
      then show ?thesis using P(4) j by simp
    qed
  qed
  then show ?thesis using a by (simp add: recordAvailabilityNeutralResult_def)
next
  case False
  then show ?thesis using assms by (auto simp: recordAvailabilityNeutralResult_def split: option.split)
qed

lemma agree_store_auth:
  assumes "agree_outside I t m" "t \<le> ts" "trim_space (auth_ID a) = auth_ID a"
  shows "agree_outside (I - {auth_ID a}) ts (store_auth env now ts changed a m)"
  using agree_store [OF assms] by (simp add: store_auth_def Let_def)

lemma agree_register:
  assumes "agree_outside I t m" "t \<le> ts" "trimmed auth" "trim_space uuid = uuid"
  shows "agree_outside (I - answered (fst (Register env now ts uuid auth m))) ts (snd (Register env now ts uuid auth m))"
proof (cases auth)
  case None
  then show ?thesis using agree_later [OF assms(1,2)] by (simp add: Register_def answered_def)
next
  case (Some a0)
  let ?a = "a0\<lparr>auth_Metadata := NormalizeCredentialMetadata (auth_Metadata a0)\<rparr>"
  let ?b = "if auth_ID ?a = [] then ?a\<lparr>auth_ID := uuid\<rparr> else ?a"
  obtain changed c where c: "admit env now ?b = (changed, c)" by fastforce
  have "trim_space (auth_ID ?b) = auth_ID ?b" using assms(3,4) by (simp add: Some)
  then have "trim_space (auth_ID c) = auth_ID c" using admit_id [of env now ?b] by (simp only: c snd_conv)
  from agree_store_auth [OF assms(1,2) this] have "agree_outside (I - {auth_ID c}) ts (store_auth env now ts changed c m)" .
  moreover have "Register env now ts uuid auth m =
      (case ValidateAuthWeight (Some ?a) of Some e \<Rightarrow> (Inl e, m) | None \<Rightarrow> (Inr (Some c), store_auth env now ts changed c m))"
    unfolding Register_def Some option.case Let_def c by (simp split: option.split)
  ultimately show ?thesis using agree_later [OF assms(1,2)] by (simp add: answered_def split: option.split)
qed

lemma agree_update:
  assumes "agree_outside I t m" "t \<le> ts" "trimmed auth"
  shows "agree_outside (I - answered (fst (Update env now ts auth m))) ts (snd (Update env now ts auth m))"
proof -
  note later = agree_later [OF assms(1,2)]
  show ?thesis
  proof (cases auth)
    case None
    then show ?thesis using later by (simp add: Update_def answered_def)
  next
    case (Some a0)
    let ?a = "a0\<lparr>auth_Metadata := NormalizeCredentialMetadata (auth_Metadata a0)\<rparr>"
    let ?stored = "\<lambda>existing. case admit env now (inherit_state now existing ?a) of (changed, a) \<Rightarrow> (Inr (Some a), store_auth env now ts changed a m)"
    have st: "agree_outside (I - answered (fst (?stored existing))) ts (snd (?stored existing))" for existing
    proof -
      obtain changed c where c: "admit env now (inherit_state now existing ?a) = (changed, c)" by fastforce
      have "auth_ID c = auth_ID a0" using admit_id [of env now "inherit_state now existing ?a"] by (simp add: c inherit_id)
      then have "trim_space (auth_ID c) = auth_ID c" using assms(3) by (simp add: Some)
      from agree_store_auth [OF assms(1,2) this] show ?thesis by (simp add: c answered_def)
    qed
    show ?thesis
    proof (cases "auth_ID a0 = [] \<or> ValidateAuthWeight (Some ?a) \<noteq> None \<or> \<not> (\<exists>e. map_of (mg_auths m) (auth_ID a0) = Some (Some e))")
      case True
      then have "snd (Update env now ts auth m) = m" "answered (fst (Update env now ts auth m)) = {}"
        unfolding Update_def Some option.case Let_def by (auto simp: answered_def split: option.split)
      then show ?thesis using later by simp
    next
      case False
      then obtain existing where "Update env now ts auth m = ?stored existing"
        unfolding Update_def Some option.case Let_def by auto
      then show ?thesis using st [of existing] by simp
    qed
  qed
qed

lemma agree_remove:
  assumes "agree_outside I t m"
  shows "agree_outside (I - present m (trim_space i0)) t (Remove env now i0 m)"
proof (cases "trim_space i0 \<noteq> [] \<and> (\<exists>a. map_of (mg_auths m) (trim_space i0) = Some (Some a))")
  case True
  let ?i = "trim_space i0"
  obtain a where a: "?i \<noteq> []" "map_of (mg_auths m) ?i = Some (Some a)" using True by blast
  have i: "trim_space ?i = ?i" by (rule agree_outsideD(3) [OF assms a(2)])
  let ?m = "m\<lparr>mg_auths := map_del ?i (mg_auths m), mg_scheduler := removeAuth ?i (mg_scheduler m)\<rparr>"
  have s: "removeAuth ?i (mg_scheduler m) = removeAuthLocked ?i (mg_scheduler m)" using a(1) i by (simp add: removeAuth_def)
  have look: "map_of (map_del ?i (mg_auths m)) j = (if j = ?i then None else map_of (mg_auths m) j)" for j
    by (simp add: delete_conv')
  note R = remove_spec [OF agree_outsideD(1) [OF assms], of ?i]
  have "agree_outside (I - {?i}) t ?m"
  proof (rule agree_outsideI)
    show "scheduler_ok t (mg_scheduler ?m)" using R(1) s by simp
  next
    fix j b assume "map_of (mg_auths ?m) j = Some (Some b)"
    then have "map_of (mg_auths m) j = Some (Some b)" by (simp add: look split: if_splits)
    then show "auth_ID b = j \<and> trim_space j = j" using agree_outsideD(2,3) [OF assms] by simp
  next
    fix k j assume "j \<notin> I - {?i}"
    then show "scheduled_as (map_of (mg_auths ?m) j) k (known (mg_scheduler ?m) k j)"
      using agree_outsideD(4) [OF assms, of j k] by (cases "j = ?i") (simp_all add: look s R(2) scheduled_as_def)
  qed
  then show ?thesis using a by (simp add: Remove_def Let_def present_def)
next
  case False
  then have "Remove env now i0 m = m" "present m (trim_space i0) = {}"
    by (auto simp: Remove_def present_def Let_def split: option.split)
  then show ?thesis using assms by simp
qed

lemma agree_marked:
  assumes "agree_outside I t m" "t \<le> ts"
  shows "agree_outside (I - present m (res_AuthID result)) ts (MarkResult env now ts headers result m)"
proof (cases "res_AuthID result \<noteq> [] \<and> (\<exists>a. map_of (mg_auths m) (res_AuthID result) = Some (Some a))")
  case True
  let ?i = "res_AuthID result"
  obtain a where a: "?i \<noteq> []" "map_of (mg_auths m) ?i = Some (Some a)" using True by blast
  obtain b actions where b: "mark_auth (env_json env) (env_transientSeconds env) (cooldownDisabledForAuth env (Some a)) headers result now a =
      (b, actions)" by fastforce
  have id: "auth_ID b = ?i" using mark_id b agree_outsideD(2) [OF assms(1) a(2)] by (metis fst_conv)
  have "trim_space (auth_ID b) = auth_ID b" using agree_outsideD(3) [OF assms(1) a(2)] by (simp add: id)
  from agree_store [OF assms this] have
    "agree_outside (I - {?i}) ts (schedule b ts (m\<lparr>mg_auths := map_put ?i (Some b) (mg_auths m)\<rparr>))" by (simp add: id)
  then show ?thesis using a b by (simp add: MarkResult_def Let_def agree_outside_def persistCooldownStates_def present_def)
next
  case False
  then have "MarkResult env now ts headers result m = m" "present m (res_AuthID result) = {}"
    by (auto simp: MarkResult_def present_def split: option.split)
  then show ?thesis using agree_later [OF assms] by simp
qed

lemma agree_registry [simp]: "agree_outside I t (m\<lparr>mg_registry := r\<rparr>) = agree_outside I t m"
  by (rule agree_cong) simp_all

lemma registry_first: "m\<lparr>mg_auths := as, mg_registry := r\<rparr> = m\<lparr>mg_registry := r, mg_auths := as\<rparr>"
  by (cases m) simp

lemma agree_reset:
  assumes "agree_outside I t m" "t \<le> ts"
  shows "agree_outside (I - present m (trim_space i0)) ts (snd (ResetQuota env now ts True i0 m))"
proof (cases "trim_space i0 \<noteq> [] \<and> (\<exists>a. map_of (mg_auths m) (trim_space i0) = Some (Some a))")
  case True
  let ?i = "trim_space i0"
  obtain a where a: "?i \<noteq> []" "map_of (mg_auths m) ?i = Some (Some a)" using True by blast
  obtain b models where b: "reset_auth now (modelsForRegisteredAuth (mg_registry m) ?i) a = (b, models)" by fastforce
  have id: "auth_ID b = ?i" using reset_id b agree_outsideD(2) [OF assms(1) a(2)] by (metis fst_conv)
  have tr: "trim_space (auth_ID b) = auth_ID b" using agree_outsideD(3) [OF assms(1) a(2)] by (simp add: id)
  let ?m = "m\<lparr>mg_registry := resume_models now ?i models (mg_registry m)\<rparr>"
  have "agree_outside I t ?m" using assms(1) by simp
  from agree_store [OF this assms(2) tr] have
    "agree_outside (I - {?i}) ts (schedule b ts (m\<lparr>mg_auths := map_put ?i (Some b) (mg_auths m), mg_registry := resume_models now ?i models (mg_registry m)\<rparr>))"
    by (simp add: id registry_first)
  then show ?thesis using a b by (simp add: ResetQuota_def Let_def present_def)
next
  case False
  then have "snd (ResetQuota env now ts True i0 m) = m" "present m (trim_space i0) = {}"
    by (auto simp: ResetQuota_def present_def Let_def split: option.split)
  then show ?thesis using agree_later [OF assms] by simp
qed

text \<open>A reset whose credential cannot be saved changes the map alone.\<close>

lemma agree_unsaved:
  assumes "agree_outside I t m" "t \<le> ts"
  shows "agree_outside (I \<union> present m (trim_space i0)) ts (snd (ResetQuota env now ts False i0 m))"
proof (cases "trim_space i0 \<noteq> [] \<and> (\<exists>a. map_of (mg_auths m) (trim_space i0) = Some (Some a))")
  case True
  let ?i = "trim_space i0"
  obtain a where a: "?i \<noteq> []" "map_of (mg_auths m) ?i = Some (Some a)" using True by blast
  obtain b models where b: "reset_auth now (modelsForRegisteredAuth (mg_registry m) ?i) a = (b, models)" by fastforce
  have id: "auth_ID b = ?i" using reset_id b agree_outsideD(2) [OF assms(1) a(2)] by (metis fst_conv)
  from agree_put [OF agree_later [OF assms] id agree_outsideD(3) [OF assms(1) a(2)]] show ?thesis
    using a b by (simp add: ResetQuota_def Let_def present_def)
next
  case False
  then have "snd (ResetQuota env now ts False i0 m) = m" "present m (trim_space i0) = {}"
    by (auto simp: ResetQuota_def present_def Let_def split: option.split)
  then show ?thesis using agree_later [OF assms] by simp
qed

lemma agree_reconcile:
  assumes "agree_outside I t m" "t \<le> ts"
  shows "agree_outside I ts (ReconcileRegistryModelStates now ts i m)"
proof (cases "i \<noteq> [] \<and> (\<exists>a. map_of (mg_auths m) i = Some (Some a))")
  case True
  obtain a where a: "i \<noteq> []" "map_of (mg_auths m) i = Some (Some a)" using True by blast
  have "agree_outside I ts (schedule b ts (m\<lparr>mg_auths := map_put i (Some b) (mg_auths m)\<rparr>))" if "auth_ID b = auth_ID a" for b
  proof -
    have id: "auth_ID b = i" using that agree_outsideD(2) [OF assms(1) a(2)] by simp
    then have "trim_space (auth_ID b) = auth_ID b" using agree_outsideD(3) [OF assms(1) a(2)] by simp
    from agree_wider [OF agree_store [OF assms this]] show ?thesis by (simp add: id)
  qed
  then show ?thesis using a agree_later [OF assms] by (simp add: ReconcileRegistryModelStates_def Let_def keeps_id)
next
  case False
  then show ?thesis using agree_later [OF assms] by (auto simp: ReconcileRegistryModelStates_def Let_def split: option.split)
qed

section \<open>Reachable managers\<close>

text \<open>The states of a manager under a fixed configuration, with the time of its last operation, when one
  operation ends before the next begins: the operations of this model, picks of its scheduler and any change of the
  registry and of the stored records. A reset is one whose credential could be saved.\<close>

inductive managed :: "manager_env \<Rightarrow> gotime \<Rightarrow> manager \<Rightarrow> bool" for env where
  new: "0 \<le> t \<Longrightarrow>
    managed env t \<lparr>mg_auths = [], mg_scheduler = newAuthScheduler sel, mg_registry = r, mg_cooldowns = records\<rparr>"
| wait: "managed env t m \<Longrightarrow> t \<le> ts \<Longrightarrow> managed env ts m"
| registry: "managed env t m \<Longrightarrow> managed env t (m\<lparr>mg_registry := r\<rparr>)"
| stored: "managed env t m \<Longrightarrow> managed env t (m\<lparr>mg_cooldowns := records\<rparr>)"
| register: "managed env t m \<Longrightarrow> t \<le> ts \<Longrightarrow> trimmed auth \<Longrightarrow> trim_space uuid = uuid \<Longrightarrow>
    managed env ts (snd (Register env now ts uuid auth m))"
| update: "managed env t m \<Longrightarrow> t \<le> ts \<Longrightarrow> trimmed auth \<Longrightarrow> managed env ts (snd (Update env now ts auth m))"
| remove: "managed env t m \<Longrightarrow> managed env t (Remove env now i m)"
| load: "managed env t m \<Longrightarrow> t \<le> ts \<Longrightarrow> list_all trimmed items \<Longrightarrow> managed env ts (Load env ts items m)"
| result: "managed env t m \<Longrightarrow> t \<le> ts \<Longrightarrow> managed env ts (MarkResult env now ts h r m)"
| neutral: "managed env t m \<Longrightarrow> managed env t (recordAvailabilityNeutralResult now r m)"
| reset: "managed env t m \<Longrightarrow> t \<le> ts \<Longrightarrow> managed env ts (snd (ResetQuota env now ts True i m))"
| restore: "managed env t m \<Longrightarrow> t \<le> ts \<Longrightarrow> managed env ts (manager_restore env now ts m)"
| reconcile: "managed env t m \<Longrightarrow> t \<le> ts \<Longrightarrow> managed env ts (ReconcileRegistryModelStates now ts i m)"
| refresh: "managed env t m \<Longrightarrow> t \<le> ts \<Longrightarrow> managed env ts (RefreshSchedulerEntry i ts m)"
| refresh_all: "managed env t m \<Longrightarrow> t \<le> ts \<Longrightarrow> managed env ts (RefreshSchedulerAll ts m)"
| selector: "managed env t m \<Longrightarrow> managed env t (m\<lparr>mg_scheduler := setSelector sel (mg_scheduler m)\<rparr>)"
| pickSingle: "managed env t m \<Longrightarrow> monotone_clock t clock \<Longrightarrow> managed env (ck_error clock)
    (m\<lparr>mg_scheduler := snd (pickSingleWithStrategy ctx provider model metadata tried strategy clock (mg_scheduler m))\<rparr>)"
| pickMixed: "managed env t m \<Longrightarrow> monotone_clock t clock \<Longrightarrow> managed env (ck_error clock)
    (m\<lparr>mg_scheduler := snd (pickMixedWithStrategy ctx providers model metadata tried strategy clock (mg_scheduler m))\<rparr>)"

text \<open>
  Operations overlap: the manager changes its map under its own lock and tells the scheduler after it
  has released it, so other operations may come between, and what the scheduler is told may be out of date by then. Here
  the halves of an operation are steps as well: a credential is written to the map or taken out of it, and the scheduler
  is told of some credential or of a removal, or is rebuilt from some snapshot of the map. Nor need a reset be
  saved. The set holds the credentials for which the scheduler may be behind: those changed since it was last told, those it was told of with another
  credential than the map holds, and those whose reset could not be saved.
\<close>

inductive overlapped :: "manager_env \<Rightarrow> gotime \<Rightarrow> string set \<Rightarrow> manager \<Rightarrow> bool" for env where
  new: "0 \<le> t \<Longrightarrow>
    overlapped env t {} \<lparr>mg_auths = [], mg_scheduler = newAuthScheduler sel, mg_registry = r, mg_cooldowns = records\<rparr>"
| wait: "overlapped env t I m \<Longrightarrow> t \<le> ts \<Longrightarrow> overlapped env ts I m"
| registry: "overlapped env t I m \<Longrightarrow> overlapped env t I (m\<lparr>mg_registry := r\<rparr>)"
| stored: "overlapped env t I m \<Longrightarrow> overlapped env t I (m\<lparr>mg_cooldowns := records\<rparr>)"
| register: "overlapped env t I m \<Longrightarrow> t \<le> ts \<Longrightarrow> trimmed auth \<Longrightarrow> trim_space uuid = uuid \<Longrightarrow>
    overlapped env ts (I - answered (fst (Register env now ts uuid auth m))) (snd (Register env now ts uuid auth m))"
| update: "overlapped env t I m \<Longrightarrow> t \<le> ts \<Longrightarrow> trimmed auth \<Longrightarrow>
    overlapped env ts (I - answered (fst (Update env now ts auth m))) (snd (Update env now ts auth m))"
| remove: "overlapped env t I m \<Longrightarrow> overlapped env t (I - present m (trim_space i)) (Remove env now i m)"
| load: "overlapped env t I m \<Longrightarrow> t \<le> ts \<Longrightarrow> list_all trimmed items \<Longrightarrow> overlapped env ts {} (Load env ts items m)"
| result: "overlapped env t I m \<Longrightarrow> t \<le> ts \<Longrightarrow> overlapped env ts (I - present m (res_AuthID r)) (MarkResult env now ts h r m)"
| neutral: "overlapped env t I m \<Longrightarrow> overlapped env t I (recordAvailabilityNeutralResult now r m)"
| reset: "overlapped env t I m \<Longrightarrow> t \<le> ts \<Longrightarrow>
    overlapped env ts (I - present m (trim_space i)) (snd (ResetQuota env now ts True i m))"
| unsaved: "overlapped env t I m \<Longrightarrow> t \<le> ts \<Longrightarrow>
    overlapped env ts (I \<union> present m (trim_space i)) (snd (ResetQuota env now ts False i m))"
| restore: "overlapped env t I m \<Longrightarrow> t \<le> ts \<Longrightarrow> overlapped env ts I (manager_restore env now ts m)"
| reconcile: "overlapped env t I m \<Longrightarrow> t \<le> ts \<Longrightarrow> overlapped env ts I (ReconcileRegistryModelStates now ts i m)"
| refresh: "overlapped env t I m \<Longrightarrow> t \<le> ts \<Longrightarrow> overlapped env ts (I - present m i) (RefreshSchedulerEntry i ts m)"
| refresh_all: "overlapped env t I m \<Longrightarrow> t \<le> ts \<Longrightarrow> overlapped env ts I (RefreshSchedulerAll ts m)"
| selector: "overlapped env t I m \<Longrightarrow> overlapped env t I (m\<lparr>mg_scheduler := setSelector sel (mg_scheduler m)\<rparr>)"
| pickSingle: "overlapped env t I m \<Longrightarrow> monotone_clock t clock \<Longrightarrow> overlapped env (ck_error clock) I
    (m\<lparr>mg_scheduler := snd (pickSingleWithStrategy ctx provider model metadata tried strategy clock (mg_scheduler m))\<rparr>)"
| pickMixed: "overlapped env t I m \<Longrightarrow> monotone_clock t clock \<Longrightarrow> overlapped env (ck_error clock) I
    (m\<lparr>mg_scheduler := snd (pickMixedWithStrategy ctx providers model metadata tried strategy clock (mg_scheduler m))\<rparr>)"
| written: "overlapped env t I m \<Longrightarrow> trim_space (auth_ID a) = auth_ID a \<Longrightarrow>
    overlapped env t (insert (auth_ID a) I) (m\<lparr>mg_auths := map_put (auth_ID a) (Some a) (mg_auths m)\<rparr>)"
| erased: "overlapped env t I m \<Longrightarrow> overlapped env t (insert i I) (m\<lparr>mg_auths := map_del i (mg_auths m)\<rparr>)"
| told: "overlapped env t I m \<Longrightarrow> t \<le> ts \<Longrightarrow> trim_space (auth_ID a) = auth_ID a \<Longrightarrow>
    overlapped env ts (if map_of (mg_auths m) (auth_ID a) = Some (Some a) then I - {auth_ID a} else insert (auth_ID a) I) (schedule a ts m)"
| retired: "overlapped env t I m \<Longrightarrow> i \<noteq> [] \<Longrightarrow> trim_space i = i \<Longrightarrow>
    overlapped env t (if map_of (mg_auths m) i = None then I - {i} else insert i I) (m\<lparr>mg_scheduler := removeAuth i (mg_scheduler m)\<rparr>)"
| synced: "overlapped env t I m \<Longrightarrow> t \<le> ts \<Longrightarrow> well_loaded snapshot \<Longrightarrow>
    overlapped env ts {i. map_of (mg_auths m) i \<noteq> map_of snapshot i}
      (m\<lparr>mg_scheduler := rebuild (registered_models (mg_registry m)) (map snd snapshot) ts (mg_scheduler m)\<rparr>)"

lemma managed_overlapped: "managed env t m \<Longrightarrow> overlapped env t {} m"
proof (induction rule: managed.induct)
  case (register t m ts auth uuid now)
  from overlapped.register [OF register.IH register.hyps(2-4), of now] show ?case by simp
next
  case (update t m ts auth now)
  from overlapped.update [OF update.IH update.hyps(2,3), of now] show ?case by simp
next
  case (remove t m now i)
  from overlapped.remove [OF remove.IH, of i now] show ?case by simp
next
  case (result t m ts now h r)
  from overlapped.result [OF result.IH result.hyps(2), of r now h] show ?case by simp
next
  case (reset t m ts now i)
  from overlapped.reset [OF reset.IH reset.hyps(2), of i now] show ?case by simp
next
  case (refresh t m ts i)
  from overlapped.refresh [OF refresh.IH refresh.hyps(2), of i] show ?case by simp
qed (blast intro: overlapped.intros)+

lemma agree_scheduler:
  assumes "agree_outside I t m" "scheduler_ok ts s'" "known s' = known (mg_scheduler m)"
  shows "agree_outside I ts (m\<lparr>mg_scheduler := s'\<rparr>)"
  using agree_outsideD [OF assms(1)] assms(2,3) by (intro agree_outsideI) simp_all

text \<open>The halves of an operation.\<close>

lemma agree_erase:
  assumes "agree_outside I t m"
  shows "agree_outside (insert i I) t (m\<lparr>mg_auths := map_del i (mg_auths m)\<rparr>)"
proof -
  have look: "map_of (map_del i (mg_auths m)) j = (if j = i then None else map_of (mg_auths m) j)" for j
    by (simp add: delete_conv')
  show ?thesis
  proof (rule agree_outsideI)
    show "scheduler_ok t (mg_scheduler (m\<lparr>mg_auths := map_del i (mg_auths m)\<rparr>))" using agree_outsideD(1) [OF assms] by simp
  next
    fix j b assume "map_of (mg_auths (m\<lparr>mg_auths := map_del i (mg_auths m)\<rparr>)) j = Some (Some b)"
    then have "map_of (mg_auths m) j = Some (Some b)" by (simp add: look split: if_splits)
    then show "auth_ID b = j \<and> trim_space j = j" using agree_outsideD(2,3) [OF assms] by simp
  next
    fix k j assume "j \<notin> insert i I"
    then show "scheduled_as (map_of (mg_auths (m\<lparr>mg_auths := map_del i (mg_auths m)\<rparr>)) j) k
        (known (mg_scheduler (m\<lparr>mg_auths := map_del i (mg_auths m)\<rparr>)) k j)"
      using agree_outsideD(4) [OF assms] by (simp add: look)
  qed
qed

lemma agree_told:
  assumes "agree_outside I t m" "t \<le> ts" "trim_space (auth_ID a) = auth_ID a"
  shows "agree_outside (if map_of (mg_auths m) (auth_ID a) = Some (Some a) then I - {auth_ID a} else insert (auth_ID a) I) ts (schedule a ts m)"
proof (cases "map_of (mg_auths m) (auth_ID a) = Some (Some a)")
  case True
  then show ?thesis using agree_schedule [OF assms(1,2)] by simp
next
  case False
  note up = upsert_spec [OF agree_outsideD(1) [OF assms(1)] assms(2,3), of "registered_models (mg_registry m)"]
  have s: "mg_scheduler (schedule a ts m) = upsertAuthLocked (registered_models (mg_registry m)) (Some a) ts (mg_scheduler m)"
    by (simp add: schedule_def upsertAuth_def)
  show ?thesis unfolding if_not_P [OF False]
  proof (rule agree_outsideI)
    show "scheduler_ok ts (mg_scheduler (schedule a ts m))" using up(1) by (simp add: s)
  next
    fix j b assume "map_of (mg_auths (schedule a ts m)) j = Some (Some b)"
    then show "auth_ID b = j \<and> trim_space j = j" using agree_outsideD(2,3) [OF assms(1)] by simp
  next
    fix k j assume "j \<notin> insert (auth_ID a) I"
    then show "scheduled_as (map_of (mg_auths (schedule a ts m)) j) k (known (mg_scheduler (schedule a ts m)) k j)"
      unfolding s up(2) using agree_outsideD(4) [OF assms(1)] by simp
  qed
qed

lemma agree_retired:
  assumes "agree_outside I t m" "i \<noteq> []" "trim_space i = i"
  shows "agree_outside (if map_of (mg_auths m) i = None then I - {i} else insert i I) t (m\<lparr>mg_scheduler := removeAuth i (mg_scheduler m)\<rparr>)"
proof -
  note R = remove_spec [OF agree_outsideD(1) [OF assms(1)], of i]
  have s: "removeAuth i (mg_scheduler m) = removeAuthLocked i (mg_scheduler m)" using assms(2,3) by (simp add: removeAuth_def)
  show ?thesis
  proof (rule agree_outsideI)
    show "scheduler_ok t (mg_scheduler (m\<lparr>mg_scheduler := removeAuth i (mg_scheduler m)\<rparr>))" using R(1) by (simp add: s)
  next
    fix j b assume "map_of (mg_auths (m\<lparr>mg_scheduler := removeAuth i (mg_scheduler m)\<rparr>)) j = Some (Some b)"
    then show "auth_ID b = j \<and> trim_space j = j" using agree_outsideD(2,3) [OF assms(1)] by simp
  next
    fix k j assume j: "j \<notin> (if map_of (mg_auths m) i = None then I - {i} else insert i I)"
    show "scheduled_as (map_of (mg_auths (m\<lparr>mg_scheduler := removeAuth i (mg_scheduler m)\<rparr>)) j) k
        (known (mg_scheduler (m\<lparr>mg_scheduler := removeAuth i (mg_scheduler m)\<rparr>)) k j)"
    proof (cases "j = i")
      case True
      then have "map_of (mg_auths m) j = None" using j by (simp split: if_splits)
      then show ?thesis using True by (simp add: s R(2) scheduled_as_def)
    next
      case False
      then have "j \<notin> I" using j by (simp split: if_splits)
      then show ?thesis using agree_outsideD(4) [OF assms(1), of j k] False by (simp add: s R(2))
    qed
  qed
qed

lemma agree_synced:
  assumes "agree_outside I t m" "t \<le> ts" "well_loaded snapshot"
  shows "agree_outside {i. map_of (mg_auths m) i \<noteq> map_of snapshot i} ts
    (m\<lparr>mg_scheduler := rebuild (registered_models (mg_registry m)) (map snd snapshot) ts (mg_scheduler m)\<rparr>)"
proof (rule agree_outsideI)
  note R = agree_outsideD [OF agree_rebuild [OF assms]]
  let ?m = "m\<lparr>mg_scheduler := rebuild (registered_models (mg_registry m)) (map snd snapshot) ts (mg_scheduler m)\<rparr>"
  show "scheduler_ok ts (mg_scheduler ?m)" using R(1) by simp
  show "auth_ID a = i \<and> trim_space i = i" if "map_of (mg_auths ?m) i = Some (Some a)" for i a
    using that agree_outsideD(2,3) [OF assms(1)] by simp
  show "scheduled_as (map_of (mg_auths ?m) j) k (known (mg_scheduler ?m) k j)"
    if "j \<notin> {i. map_of (mg_auths m) i \<noteq> map_of snapshot i}" for j k
    using R(4) [of j k] that by simp
qed

lemma overlapped_agree: "overlapped env t I m \<Longrightarrow> agree_outside I t m"
proof (induction rule: overlapped.induct)
  case (new t sel r records)
  then have "scheduler_ok t (newAuthScheduler sel)" by (intro reachable_ok reachable.new)
  moreover have "known (newAuthScheduler sel) k j = None" for k j by (simp add: known_def newAuthScheduler_def)
  ultimately show ?case by (simp add: agree_outside_def scheduled_as_def)
next
  case (stored t I m records)
  then show ?case by (subst agree_cong) simp_all
next
  case (load t I m ts items)
  show ?case by (rule agree_load [OF load.IH load.hyps(2,3)])
next
  case (refresh_all t I m ts)
  then show ?case by (simp add: RefreshSchedulerAll_def agree_entries)
next
  case (selector t I m sel)
  have "scheduler_ok t (setSelector sel (mg_scheduler m))" "known (setSelector sel (mg_scheduler m)) = known (mg_scheduler m)"
    using agree_outsideD(1) [OF selector.IH]
    by (auto simp: scheduler_ok_def setSelector_def providers_ok_def located_def known_def fun_eq_iff)
  then show ?case by (rule agree_scheduler [OF selector.IH])
next
  case (pickSingle t I m clock ctx provider model metadata tried strategy)
  let ?p = "pickSingleWithStrategy ctx provider model metadata tried strategy clock (mg_scheduler m)"
  have t: "t \<le> ck_shard clock" "ck_shard clock \<le> ck_pick clock" using pickSingle.hyps(2) by simp_all
  note P = pick_single_spec [OF agree_outsideD(1) [OF pickSingle.IH] t surjective_pairing [of ?p] refl refl refl]
  have "scheduler_ok (ck_error clock) (snd ?p)" by (rule scheduler_ok_later [OF P [THEN conjunct1]]) (simp add: pickSingle.hyps(2))
  then show ?case by (rule agree_scheduler [OF pickSingle.IH]) (rule P [THEN conjunct2, THEN conjunct1])
next
  case (pickMixed t I m clock ctx providers model metadata tried strategy)
  let ?p = "pickMixedWithStrategy ctx providers model metadata tried strategy clock (mg_scheduler m)"
  have t: "t \<le> ck_shard clock" "ck_shard clock \<le> ck_pick clock" "ck_pick clock \<le> ck_error clock" using pickMixed.hyps(2) by simp_all
  note P = pick_mixed_spec [OF agree_outsideD(1) [OF pickMixed.IH] t surjective_pairing [of ?p] refl]
  show ?case by (rule agree_scheduler [OF pickMixed.IH P [THEN conjunct1] P [THEN conjunct2, THEN conjunct1]])
next
  case (written t I m a)
  then show ?case by (intro agree_put) simp_all
next
  case (retired t I m i)
  show ?case by (rule agree_retired [OF retired.IH retired.hyps(2,3)])
qed (simp_all only: agree_later agree_registry agree_register agree_update agree_remove agree_marked agree_neutral agree_reset
    agree_unsaved agree_restore agree_reconcile agree_entry agree_erase agree_told agree_synced)

lemma managed_agree: "managed env t m \<Longrightarrow> agree t m"
  by (rule overlapped_agree [OF managed_overlapped])

section \<open>What the scheduler serves\<close>

lemma scheduled_credential:
  assumes "agree_outside I t m" "i \<notin> I" "known (mg_scheduler m) k i = Some meta"
  shows "\<exists>a. map_of (mg_auths m) i = Some (Some a) \<and> schedulable a \<and> k = executorKeyFromAuth (Some a) \<and> same_service (sm_auth meta) a"
proof -
  note S = agree_outsideD(4) [OF assms(1,2), of k, unfolded assms(3)]
  obtain a where a: "map_of (mg_auths m) i = Some (Some a)" using S by (auto simp: scheduled_as_def split: option.splits)
  show ?thesis using S unfolding a scheduled_as_def option.case by (auto simp: buildScheduledAuthMeta_def split: if_splits)
qed

lemma marked_lookup:
  assumes "res_AuthID r \<noteq> []" "map_of (mg_auths m) (res_AuthID r) = Some (Some a)"
  shows "map_of (mg_auths (MarkResult env now ts h r m)) (res_AuthID r) =
    Some (Some (fst (mark_auth (env_json env) (env_transientSeconds env) (cooldownDisabledForAuth env (Some a)) h r now a)))"
  using assms by (simp add: MarkResult_def Let_def update_conv' persistCooldownStates_def split: prod.split)

lemma mark_blocked:
  assumes "0 \<le> t" "t < blocked_until (mark_core lib seconds disable r now a) model"
  shows "fst (isAuthBlockedForModel (Some (fst (mark_auth lib seconds disable h r now a))) model t)"
  using assms(2) unfolding isAuthBlocked_cases(1) [OF assms(1)] mark_auth_core blocked_until_def observe_blocks by simp

lemma limited_not_served:
  assumes ag: "agree t (MarkResult env now ts h r m)"
    and cred: "res_AuthID r \<noteq> []" "map_of (mg_auths m) (res_AuthID r) = Some (Some a)"
    and err: "0 < now" "\<not> res_Success r" "res_Error r = Some e" "err_HTTPStatus e = 429"
      "\<not> isCloudflareChallengeResultError (Some e)" "\<not> shouldSkipCredentialCooldown (env_json env) (Some e)"
      "\<not> cooldownDisabledForAuth env (Some a) \<or> is_force_cooldown (Some e)"
    and cover: "limit_covers now (res_RetryAfter r) u"
    and model: "canonicalModelKey (res_Model r) \<noteq> []"
      "canonicalModelKey (canonicalModelKey (res_Model r)) = canonicalModelKey (res_Model r)"
      "canonicalModelKey model = canonicalModelKey (res_Model r)"
    and serves: "serves (mg_scheduler (MarkResult env now ts h r m)) k (shard_key model) pred u meta"
  shows "auth_ID (sm_auth meta) \<noteq> res_AuthID r"
proof
  let ?m = "MarkResult env now ts h r m"
  let ?b = "fst (mark_auth (env_json env) (env_transientSeconds env) (cooldownDisabledForAuth env (Some a)) h r now a)"
  assume id: "auth_ID (sm_auth meta) = res_AuthID r"
  obtain i where i: "known (mg_scheduler ?m) k i = Some meta" and nb: "\<not> blocked_at (sm_auth meta) (shard_key model) u"
    using serves by (auto simp: serves_def)
  obtain c where c: "map_of (mg_auths ?m) i = Some (Some c)" "same_service (sm_auth meta) c"
    using scheduled_credential [OF ag _ i] by blast
  have "i = res_AuthID r" using agree_outsideD(2) [OF ag c(1)] same_service_selectors(1) [OF c(2)] id by simp
  then have "c = ?b" using c(1) marked_lookup [OF cred, of env now ts h] by simp
  then have nb': "\<not> blocked_at ?b (shard_key model) u" using nb same_service_fields(3) [OF c(2)] by simp
  have "canonicalModelKey (shard_key model) = canonicalModelKey (res_Model r)" by (simp add: model(2,3))
  then have "u < blocked_until (mark_core (env_json env) (env_transientSeconds env) (cooldownDisabledForAuth env (Some a)) r now a) (shard_key model)"
    by (intro rate_limit_until [OF err cover model(1,2)] disjI1)
  moreover have "0 \<le> u" using cover err(1) by (simp add: limit_covers_def)
  ultimately show False using mark_blocked nb' by blast
qed

section \<open>Properties\<close>

text \<open>C27. The scheduler keeps up with the manager, however operations overlap: in every reachable state it is
  consistent, and for every credential that is not behind it holds exactly what the manager's map holds: the
  credential is in the scheduler if and only if it is enabled and has an executor, under the key of that executor and as it is in
  the map up to the counters of results. Behind are at most the credentials whose last change the scheduler
  has not been told of yet, or was told of out of turn, and those whose reset could not be saved; every registration, update,
  removal, result or reset that is not interrupted takes its credential out of these. When one operation ends before the
  next begins and resets are saved, none is behind (\<open>managed_overlapped\<close>).\<close>

theorem manager_scheduler_agree:
  assumes "overlapped env t behind m" "i \<notin> behind"
  shows "scheduler_ok t (mg_scheduler m) \<and>
    (known (mg_scheduler m) k i \<noteq> None \<longleftrightarrow>
       (\<exists>a. map_of (mg_auths m) i = Some (Some a) \<and> schedulable a \<and> k = executorKeyFromAuth (Some a))) \<and>
    (\<forall>meta. known (mg_scheduler m) k i = Some meta \<longrightarrow>
       (\<exists>a. map_of (mg_auths m) i = Some (Some a) \<and> same_service (sm_auth meta) a))"
proof (intro conjI allI impI)
  note ag = overlapped_agree [OF assms(1)]
  show "scheduler_ok t (mg_scheduler m)" by (rule agree_outsideD(1) [OF ag])
  show "known (mg_scheduler m) k i \<noteq> None \<longleftrightarrow>
      (\<exists>a. map_of (mg_auths m) i = Some (Some a) \<and> schedulable a \<and> k = executorKeyFromAuth (Some a))"
    using agree_outsideD(4) [OF ag assms(2), of k] scheduled_credential [OF ag assms(2), of k] by (force simp: scheduled_as_def)
  show "\<exists>a. map_of (mg_auths m) i = Some (Some a) \<and> same_service (sm_auth meta) a"
    if "known (mg_scheduler m) k i = Some meta" for meta using scheduled_credential [OF ag assms(2) that] by blast
qed

text \<open>C26. When operations of the manager do not overlap, a counted rate limit reported to it keeps the credential out of the picks that follow: until the
  time the provider asked for, no pick for the model, for one provider or across several, in any strategy,
  returns it, even though the scheduler works on its own copies of the credentials.\<close>

theorem limited_credential_not_picked:
  assumes "managed env t m" "t \<le> ts" "now \<le> ts" "monotone_clock ts clock"
    and "res_AuthID r \<noteq> []" "map_of (mg_auths m) (res_AuthID r) = Some (Some a)"
    and "0 < now" "\<not> res_Success r" "res_Error r = Some e" "err_HTTPStatus e = 429"
    and "\<not> isCloudflareChallengeResultError (Some e)" "\<not> shouldSkipCredentialCooldown (env_json env) (Some e)"
    and "\<not> cooldownDisabledForAuth env (Some a) \<or> is_force_cooldown (Some e)"
    and "limit_covers now (res_RetryAfter r) (ck_pick clock)"
    and "canonicalModelKey (res_Model r) \<noteq> []"
    and "canonicalModelKey (canonicalModelKey (res_Model r)) = canonicalModelKey (res_Model r)"
    and "canonicalModelKey model = canonicalModelKey (res_Model r)"
    and "s = mg_scheduler (MarkResult env now ts h r m)"
  shows "(\<forall>b s'. pickSingleWithStrategy ctx provider model metadata tried strategy clock s = (Inr b, s') \<longrightarrow> auth_ID b \<noteq> res_AuthID r) \<and>
    (\<forall>b k s'. pickMixedWithStrategy ctx providers model metadata tried strategy clock s = (Inr (b, k), s') \<longrightarrow> auth_ID b \<noteq> res_AuthID r)"
proof -
  have ag: "agree ts (MarkResult env now ts h r m)" by (rule managed_agree [OF managed.result [OF assms(1,2)]])
  have clock: "ts \<le> ck_shard clock" "ck_shard clock \<le> ck_pick clock" "ck_pick clock \<le> ck_error clock" using assms(4) by simp_all
  have cover: "limit_covers now (res_RetryAfter r) (ck_shard clock)"
    using assms(3,14) clock by (auto simp: limit_covers_def split: option.splits)
  note safe = limited_not_served [OF ag assms(5-13) _ assms(15-17), folded assms(18)]
  note ok = agree_outsideD(1) [OF ag, folded assms(18)]
  have "auth_ID b \<noteq> res_AuthID r"
    if p: "pickSingleWithStrategy ctx provider model metadata tried strategy clock s = (Inr b, s')" for b s'
    using pick_single_spec [OF ok clock(1,2) p refl refl refl] safe [OF assms(14)] by (auto dest: top_choice_able)
  moreover have "auth_ID b \<noteq> res_AuthID r"
    if p: "pickMixedWithStrategy ctx providers model metadata tried strategy clock s = (Inr (b, k), s')" for b k s'
    using pick_mixed_spec [OF ok clock p refl] safe [OF assms(14)] safe [OF cover] by (auto simp: mixed_result_def dest: top_choice_able)
  ultimately show ?thesis by blast
qed

section \<open>Witnesses\<close>

definition demo_env :: manager_env where
  "demo_env = \<lparr>env_json = no_json, env_transientSeconds = 0, env_quotaCooldownDisabled = False, env_config = None,
     env_abs_clean = (\<lambda>p. p), env_stableAuthIndex = (\<lambda>s. s)\<rparr>"

definition demo_manager :: manager where
  "demo_manager = snd (Register demo_env 5 5 [] (Some (new_auth ''a'' ''claude''))
     \<lparr>mg_auths = [], mg_scheduler = newAuthScheduler SelRoundRobin, mg_registry = empty_registry, mg_cooldowns = None\<rparr>)"

lemma demo_managed: "managed demo_env 5 demo_manager"
proof -
  have "trimmed (Some (new_auth ''a'' ''claude''))" "trim_space [] = []" by code_simp+
  then show ?thesis unfolding demo_manager_def by (intro managed.register [where t = 5] managed.new) simp_all
qed

definition demo_auth :: Auth where
  "demo_auth = (new_auth ''a'' ''claude'')\<lparr>auth_Index := ''id:a'', auth_indexAssigned := True\<rparr>"

lemma demo_lookup: "map_of (mg_auths demo_manager) ''a'' = Some (Some demo_auth)"
  by code_simp

text \<open>What overlapping can do: the result of a request copies its credential under the lock of the manager, the credential is
  removed, and then the scheduler is told of the copy. The scheduler is behind from then on and picks a
  credential that is no longer in the map.\<close>

lemma late_upsert_revives:
  defines "m \<equiv> schedule demo_auth 5 (Remove demo_env 5 ''a'' demo_manager)"
  shows "overlapped demo_env 5 {''a''} m" "map_of (mg_auths m) ''a'' = None" "known (mg_scheduler m) ''claude'' ''a'' \<noteq> None"
proof -
  have i: "auth_ID demo_auth = ''a''" "trim_space ''a'' = ''a''" by code_simp+
  have gone: "map_of (mg_auths (Remove demo_env 5 ''a'' demo_manager)) ''a'' = None" by code_simp
  have "overlapped demo_env 5 ({} - present demo_manager (trim_space ''a'')) (Remove demo_env 5 ''a'' demo_manager)"
    by (intro overlapped.remove managed_overlapped demo_managed)
  from overlapped.told [OF this order_refl, of demo_auth] show "overlapped demo_env 5 {''a''} m"
    by (simp add: m_def i gone)
  show "map_of (mg_auths m) ''a'' = None" unfolding m_def schedule_fields by (rule gone)
  show "known (mg_scheduler m) ''claude'' ''a'' \<noteq> None" unfolding m_def by code_simp
qed

theorem manager_scheduler_agree_witness: "known (mg_scheduler demo_manager) ''claude'' ''a'' \<noteq> None"
proof -
  have "schedulable demo_auth" "''claude'' = executorKeyFromAuth (Some demo_auth)" by code_simp+
  with demo_lookup manager_scheduler_agree [OF managed_overlapped [OF demo_managed], of "''a''" "''claude''"] show ?thesis by blast
qed

theorem limited_credential_not_picked_witness:
  "fst (pickSingleWithStrategy demo_ctx ''claude'' ''m(high)'' [] [] schedulerStrategyCurrent (demo_clock 20)
      (mg_scheduler (MarkResult demo_env 10 10 [] (failed_result 429 ''slow down'' (Some 50)) demo_manager)))
    \<notin> Inr ` {b. auth_ID b = ''a''}"
proof -
  let ?r = "failed_result 429 ''slow down'' (Some 50)"
  let ?e = "\<lparr>err_Code = [], err_Message = ''slow down'', err_Retryable = False, err_HTTPStatus = 429\<rparr>"
  have r: "res_AuthID ?r = ''a''" "res_AuthID ?r \<noteq> []" "\<not> res_Success ?r" "res_Error ?r = Some ?e" "err_HTTPStatus ?e = 429"
    "res_RetryAfter ?r = Some 50" "res_Model ?r = ''m''" by (simp_all add: failed_result_def)
  have l: "map_of (mg_auths demo_manager) (res_AuthID ?r) = Some (Some demo_auth)" by (simp only: r demo_lookup)
  have e: "\<not> isCloudflareChallengeResultError (Some ?e)" "\<not> shouldSkipCredentialCooldown (env_json demo_env) (Some ?e)"
    "\<not> cooldownDisabledForAuth demo_env (Some demo_auth) \<or> is_force_cooldown (Some ?e)" by code_simp+
  have m: "canonicalModelKey (res_Model ?r) \<noteq> []" "canonicalModelKey (canonicalModelKey (res_Model ?r)) = canonicalModelKey (res_Model ?r)"
    "canonicalModelKey ''m(high)'' = canonicalModelKey (res_Model ?r)" by code_simp+
  have c: "limit_covers 10 (res_RetryAfter ?r) (ck_pick (demo_clock 20))" "monotone_clock 10 (demo_clock 20)"
    by (simp_all add: r(6) limit_covers_def demo_clock_def)
  show ?thesis
    using limited_credential_not_picked [OF demo_managed _ _ c(2) r(2) l _ r(3-5) e c(1) m refl, THEN conjunct1,
        of demo_ctx "''claude''" "[]" "[]" schedulerStrategyCurrent]
    by (auto simp: r(1) image_iff prod_eq_iff)
qed

end
