(* ===== verification/Model_Alias.thy ===== *)
theory Model_Alias
  imports Cooldown_Records Auth_Scheduler
begin

text \<open>
  Model names: what an alias of the configuration stands for, \<open>sdk/cliproxy/auth/oauth_model_alias.go\<close>, the routing
  of API-key credentials through the models of their configuration entry, and the upstream models an
  execution tries on a credential, \<open>conductor_models.go\<close>. The table compiled from the OAuth aliases and the
  table compiled from the API keys are association lists; the JSON decoder of the aliases stored with a
  credential is the argument \<open>decode\<close>. The capabilities of configured models are left out.
\<close>

section \<open>Alias entries\<close>

text \<open>The entry of any configured list of models; the OAuth aliases have two more fields.\<close>

record modelAliasEntry =
  ma_Name :: string
  ma_Alias :: string
  ma_ForceMapping :: bool

record OAuthModelAlias = modelAliasEntry +
  oa_Fork :: bool
  oa_DisplayName :: string

record OAuthModelAliasResult =
  ar_UpstreamModel :: string
  ar_ForceMapping :: bool
  ar_OriginalAlias :: string

definition no_result :: OAuthModelAliasResult where
  "no_result = \<lparr>ar_UpstreamModel = [], ar_ForceMapping = False, ar_OriginalAlias = []\<rparr>"

definition only_upstream :: "string \<Rightarrow> OAuthModelAliasResult" where
  "only_upstream model = no_result\<lparr>ar_UpstreamModel := model\<rparr>"

fun first_some :: "('a \<Rightarrow> 'b option) \<Rightarrow> 'a list \<Rightarrow> 'b option" where
  "first_some f [] = None"
| "first_some f (x # xs) = (case f x of None \<Rightarrow> first_some f xs | Some y \<Rightarrow> Some y)"

definition modelAliasLookupCandidates :: "string \<Rightarrow> SuffixResult \<times> string list" where
  "modelAliasLookupCandidates requestedModel0 =
     (let requestedModel = trim_space requestedModel0
      in if requestedModel = [] then (\<lparr>suf_ModelName = [], suf_HasSuffix = False, suf_RawSuffix = []\<rparr>, [])
         else
           (let requestResult = ParseSuffix requestedModel;
                base = (if suf_ModelName requestResult = [] then requestedModel else suf_ModelName requestResult)
            in (requestResult, if base \<noteq> requestedModel then [requestedModel, base] else [requestedModel])))"

definition preserveResolvedModelSuffix :: "string \<Rightarrow> SuffixResult \<Rightarrow> string" where
  "preserveResolvedModelSuffix resolved0 requestResult =
     (let resolved = trim_space resolved0
      in if resolved = [] then []
         else if suf_HasSuffix (ParseSuffix resolved) then resolved
         else if suf_HasSuffix requestResult \<and> suf_RawSuffix requestResult \<noteq> [] then resolved @ ''('' @ suf_RawSuffix requestResult @ '')''
         else resolved)"

definition oauthModelAliasForceMappingResponseModel :: "string \<Rightarrow> string" where
  "oauthModelAliasForceMappingResponseModel configAlias = trim_space configAlias"

section \<open>Configured models\<close>

text \<open>The models of one candidate name, without repetitions.\<close>

fun pool_loop :: "string \<Rightarrow> SuffixResult \<Rightarrow> string list \<Rightarrow> 'a modelAliasEntry_scheme list \<Rightarrow> string list" where
  "pool_loop cand requestResult seen [] = []"
| "pool_loop cand requestResult seen (m # models) =
     (let name = trim_space (ma_Name m); alias = trim_space (ma_Alias m)
      in if cand = [] \<or> alias = [] \<or> \<not> equal_fold alias cand then pool_loop cand requestResult seen models
         else
           (let resolved = preserveResolvedModelSuffix (if name \<noteq> [] then name else cand) requestResult;
                key = to_lower (trim_space resolved)
            in if key = [] \<or> key \<in> set seen then pool_loop cand requestResult seen models
               else resolved # pool_loop cand requestResult (key # seen) models))"

definition named_model :: "string \<Rightarrow> 'a modelAliasEntry_scheme \<Rightarrow> bool" where
  "named_model cand m \<longleftrightarrow> (let name = trim_space (ma_Name m) in cand \<noteq> [] \<and> name \<noteq> [] \<and> equal_fold name cand)"

definition resolveModelAliasPoolFromConfigModels :: "string \<Rightarrow> 'a modelAliasEntry_scheme list \<Rightarrow> string list" where
  "resolveModelAliasPoolFromConfigModels requestedModel0 models =
     (let requestedModel = trim_space requestedModel0
      in if requestedModel = [] \<or> models = [] then []
         else (case modelAliasLookupCandidates requestedModel of
                 (requestResult, candidates) \<Rightarrow>
                   if candidates = [] then []
                   else (case find (\<lambda>pool. pool \<noteq> []) (map (\<lambda>c. pool_loop c requestResult [] models) candidates) of
                           Some pool \<Rightarrow> pool
                         | None \<Rightarrow>
                             (case first_some (\<lambda>c. find (named_model c) models) candidates of
                                Some m \<Rightarrow> [preserveResolvedModelSuffix (trim_space (ma_Name m)) requestResult]
                              | None \<Rightarrow> []))))"

definition resolveModelAliasFromConfigModels :: "string \<Rightarrow> 'a modelAliasEntry_scheme list \<Rightarrow> string" where
  "resolveModelAliasFromConfigModels requestedModel models =
     (case resolveModelAliasPoolFromConfigModels requestedModel models of [] \<Rightarrow> [] | m # _ \<Rightarrow> m)"

text \<open>The entry that a candidate names by its alias, and what it says about the request.\<close>

definition alias_match :: "string \<Rightarrow> 'a modelAliasEntry_scheme \<Rightarrow> bool" where
  "alias_match key m \<longleftrightarrow>
     (let original = trim_space (ma_Name m); alias = trim_space (ma_Alias m)
      in original \<noteq> [] \<and> alias \<noteq> [] \<and> equal_fold alias key)"

definition alias_result :: "string \<Rightarrow> string \<Rightarrow> SuffixResult \<Rightarrow> 'a modelAliasEntry_scheme \<Rightarrow> OAuthModelAliasResult" where
  "alias_result requestedModel baseModel requestResult m =
     (let original = trim_space (ma_Name m); alias = trim_space (ma_Alias m); force = ma_ForceMapping m
      in if equal_fold original baseModel then
           (if \<not> force then no_result
            else \<lparr>ar_UpstreamModel = preserveResolvedModelSuffix original requestResult, ar_ForceMapping = force,
                  ar_OriginalAlias = oauthModelAliasForceMappingResponseModel alias\<rparr>)
         else \<lparr>ar_UpstreamModel = preserveResolvedModelSuffix original requestResult, ar_ForceMapping = force,
               ar_OriginalAlias = (if force then oauthModelAliasForceMappingResponseModel alias else requestedModel)\<rparr>)"

definition alias_scan ::
  "string \<Rightarrow> string \<Rightarrow> SuffixResult \<Rightarrow> 'a modelAliasEntry_scheme list \<Rightarrow> string list \<Rightarrow> OAuthModelAliasResult" where
  "alias_scan requestedModel baseModel requestResult models candidates =
     (case first_some (\<lambda>cand. let key = trim_space cand in if key = [] then None else find (alias_match key) models) candidates of
        None \<Rightarrow> no_result
      | Some m \<Rightarrow> alias_result requestedModel baseModel requestResult m)"

definition resolveModelAliasResultFromConfigModels :: "string \<Rightarrow> 'a modelAliasEntry_scheme list \<Rightarrow> OAuthModelAliasResult" where
  "resolveModelAliasResultFromConfigModels requestedModel0 models =
     (let requestedModel = trim_space requestedModel0
      in if requestedModel = [] \<or> models = [] then no_result
         else (case modelAliasLookupCandidates requestedModel of
                 (requestResult, candidates) \<Rightarrow>
                   if candidates = [] then no_result
                   else alias_scan requestedModel
                          (if suf_ModelName requestResult = [] then requestedModel else suf_ModelName requestResult)
                          requestResult models candidates))"

section \<open>OAuth aliases\<close>

text \<open>\<open>Config.SanitizeOAuthModelAlias\<close>: one channel's entries, and the whole map. The order of the map is the
  order of the list; a later channel with the same name replaces an earlier one.\<close>

fun sanitize_entries :: "string list \<Rightarrow> OAuthModelAlias list \<Rightarrow> OAuthModelAlias list" where
  "sanitize_entries seenAlias [] = []"
| "sanitize_entries seenAlias (entry # aliases) =
     (let name = trim_space (ma_Name entry); alias = trim_space (ma_Alias entry); aliasKey = to_lower alias
      in if name = [] \<or> alias = [] \<or> equal_fold name alias \<or> aliasKey \<in> set seenAlias then sanitize_entries seenAlias aliases
         else \<lparr>ma_Name = name, ma_Alias = alias, ma_ForceMapping = ma_ForceMapping entry, oa_Fork = oa_Fork entry,
               oa_DisplayName = trim_space (oa_DisplayName entry)\<rparr> # sanitize_entries (aliasKey # seenAlias) aliases)"

definition SanitizeOAuthModelAlias :: "(string \<times> OAuthModelAlias list) list \<Rightarrow> (string \<times> OAuthModelAlias list) list" where
  "SanitizeOAuthModelAlias aliases =
     fold (\<lambda>(rawChannel, entries) out.
         let channel = to_lower (trim_space rawChannel)
         in if channel = [] \<or> entries = [] then out
            else (let clean = sanitize_entries [] entries in if clean \<noteq> [] then map_put channel clean out else out))
       aliases []"

definition sanitizeOAuthModelAliases :: "OAuthModelAlias list \<Rightarrow> OAuthModelAlias list" where
  "sanitizeOAuthModelAliases aliases =
     (if aliases = [] then []
      else (case map_of (SanitizeOAuthModelAlias [(''auth'', aliases)]) ''auth'' of None \<Rightarrow> [] | Some clean \<Rightarrow> clean))"

record oauthModelAliasEntry =
  oe_upstreamModel :: string
  oe_configAlias :: string
  oe_forceMapping :: bool

type_synonym oauthModelAliasTable = "(string \<times> (string \<times> oauthModelAliasEntry) list) list"

definition compile_entry :: "'a modelAliasEntry_scheme \<Rightarrow> (string \<times> oauthModelAliasEntry) list \<Rightarrow> (string \<times> oauthModelAliasEntry) list" where
  "compile_entry entry byAlias =
     (let name = trim_space (ma_Name entry); alias = trim_space (ma_Alias entry); aliasKey = to_lower alias
      in if name = [] \<or> alias = [] \<or> equal_fold name alias \<or> has_key aliasKey byAlias then byAlias
         else map_put aliasKey \<lparr>oe_upstreamModel = name, oe_configAlias = alias, oe_forceMapping = ma_ForceMapping entry\<rparr> byAlias)"

definition compileOAuthModelAliasTable :: "(string \<times> 'a modelAliasEntry_scheme list) list \<Rightarrow> oauthModelAliasTable" where
  "compileOAuthModelAliasTable aliases =
     fold (\<lambda>(rawChannel, entries) out.
         let channel = to_lower (trim_space rawChannel)
         in if channel = [] \<or> entries = [] then out
            else (let byAlias = fold compile_entry entries [] in if byAlias \<noteq> [] then map_put channel byAlias out else out))
       aliases []"

definition normalizeOAuthModelAliasAuthKind :: "string \<Rightarrow> string" where
  "normalizeOAuthModelAliasAuthKind authKind0 =
     (let authKind = to_lower (trim_space authKind0)
      in if authKind = ''api_key'' \<or> authKind = ''api-key'' then ''apikey'' else authKind)"

definition OAuthModelAliasChannel :: "string \<Rightarrow> string \<Rightarrow> string" where
  "OAuthModelAliasChannel provider0 authKind =
     (let provider = to_lower (trim_space provider0)
      in if normalizeOAuthModelAliasAuthKind authKind = ''apikey'' then []
         else if provider = ''gemini'' then []
         else provider)"

definition modelAliasChannel :: "Auth option \<Rightarrow> string" where
  "modelAliasChannel auth =
     (case auth of None \<Rightarrow> [] | Some a \<Rightarrow> OAuthModelAliasChannel (to_lower (trim_space (auth_Provider a))) (AuthKind auth))"

definition OAuthModelAliasesFromAttributes ::
  "(string \<Rightarrow> OAuthModelAlias list option) \<Rightarrow> (string \<times> string) list \<Rightarrow> OAuthModelAlias list" where
  "OAuthModelAliasesFromAttributes decode attributes =
     (let raw = trim_space (map_str attributes ''model_aliases'')
      in if raw = [] then []
         else (case decode raw of None \<Rightarrow> [] | Some aliases \<Rightarrow> sanitizeOAuthModelAliases aliases))"

definition resolveUpstreamModelFromAliases :: "'a modelAliasEntry_scheme list \<Rightarrow> string \<Rightarrow> OAuthModelAliasResult" where
  "resolveUpstreamModelFromAliases aliases requestedModel =
     (if aliases = [] then no_result
      else (case modelAliasLookupCandidates requestedModel of
              (requestResult, candidates) \<Rightarrow>
                if candidates = [] then no_result
                else alias_scan requestedModel
                       (if suf_ModelName requestResult = [] then trim_space requestedModel else suf_ModelName requestResult)
                       requestResult aliases candidates))"

definition table_result :: "string \<Rightarrow> SuffixResult \<Rightarrow> oauthModelAliasEntry \<Rightarrow> OAuthModelAliasResult" where
  "table_result requestedModel requestResult entry =
     (let targetModel = oe_upstreamModel entry
      in if equal_fold targetModel (suf_ModelName requestResult) then
           (if \<not> oe_forceMapping entry then no_result
            else \<lparr>ar_UpstreamModel = preserveResolvedModelSuffix targetModel requestResult, ar_ForceMapping = oe_forceMapping entry,
                  ar_OriginalAlias = oauthModelAliasForceMappingResponseModel (oe_configAlias entry)\<rparr>)
         else
           \<lparr>ar_UpstreamModel =
              (if suf_HasSuffix (ParseSuffix targetModel) then targetModel
               else if suf_HasSuffix requestResult \<and> suf_RawSuffix requestResult \<noteq> []
               then targetModel @ ''('' @ suf_RawSuffix requestResult @ '')'' else targetModel),
            ar_ForceMapping = oe_forceMapping entry,
            ar_OriginalAlias = (if oe_forceMapping entry then oauthModelAliasForceMappingResponseModel (oe_configAlias entry)
                                else requestedModel)\<rparr>)"

definition resolveUpstreamModelFromAliasTable ::
  "oauthModelAliasTable \<Rightarrow> Auth option \<Rightarrow> string \<Rightarrow> string \<Rightarrow> OAuthModelAliasResult" where
  "resolveUpstreamModelFromAliasTable table auth requestedModel channel =
     (if auth = None \<or> channel = [] then no_result
      else (case modelAliasLookupCandidates requestedModel of
              (requestResult, candidates) \<Rightarrow>
                (case map_of table channel of
                   None \<Rightarrow> no_result
                 | Some byAlias \<Rightarrow>
                     (case first_some (\<lambda>cand.
                          let key = to_lower (trim_space cand)
                          in if key = [] then None
                             else (case map_of byAlias key of
                                     None \<Rightarrow> None
                                   | Some entry \<Rightarrow> if oe_upstreamModel entry = [] then None else Some entry)) candidates of
                        None \<Rightarrow> no_result
                      | Some entry \<Rightarrow> table_result requestedModel requestResult entry))))"

definition resolveOAuthModelAliasWithResult ::
  "(string \<Rightarrow> OAuthModelAlias list option) \<Rightarrow> oauthModelAliasTable \<Rightarrow> Auth option \<Rightarrow> string \<Rightarrow> OAuthModelAliasResult" where
  "resolveOAuthModelAliasWithResult decode table auth requestedModel =
     (let channel = modelAliasChannel auth;
          attributes = (case auth of None \<Rightarrow> [] | Some a \<Rightarrow> auth_Attributes a);
          result = resolveUpstreamModelFromAliases (OAuthModelAliasesFromAttributes decode attributes) requestedModel
      in if channel = [] then no_result
         else if ar_UpstreamModel result \<noteq> [] then result
         else resolveUpstreamModelFromAliasTable table auth requestedModel channel)"

definition resolveOAuthUpstreamModel ::
  "(string \<Rightarrow> OAuthModelAlias list option) \<Rightarrow> oauthModelAliasTable \<Rightarrow> Auth option \<Rightarrow> string \<Rightarrow> string" where
  "resolveOAuthUpstreamModel decode table auth requestedModel =
     ar_UpstreamModel (resolveOAuthModelAliasWithResult decode table auth requestedModel)"

definition applyOAuthModelAlias ::
  "(string \<Rightarrow> OAuthModelAlias list option) \<Rightarrow> oauthModelAliasTable \<Rightarrow> Auth option \<Rightarrow> string \<Rightarrow> string" where
  "applyOAuthModelAlias decode table auth requestedModel =
     (let upstreamModel = resolveOAuthUpstreamModel decode table auth requestedModel
      in if upstreamModel = [] then requestedModel else upstreamModel)"

definition applyOAuthModelAliasWithResult ::
  "(string \<Rightarrow> OAuthModelAlias list option) \<Rightarrow> oauthModelAliasTable \<Rightarrow> Auth option \<Rightarrow> string \<Rightarrow> OAuthModelAliasResult" where
  "applyOAuthModelAliasWithResult decode table auth requestedModel =
     (let result = resolveOAuthModelAliasWithResult decode table auth requestedModel
      in if ar_UpstreamModel result = [] then only_upstream requestedModel else result)"

section \<open>API keys\<close>

text \<open>The rules for request-scoped errors that an entry carries.\<close>

record error_rule =
  er_Status :: int
  er_Match :: "string list"
  er_MatchRegexr :: "string list"
  er_Action :: string

record key_config =
  kc_APIKey :: string
  kc_BaseURL :: string
  kc_Prefix :: string
  kc_ProxyURL :: string
  kc_Models :: "modelAliasEntry list"
  kc_RequestScopedErrors :: "error_rule list"

record routing_compat = compat_config +
  cp_Models :: "modelAliasEntry list"
  cp_RequestScopedErrors :: "error_rule list"

text \<open>The lists of the configuration that routing reads.\<close>

record routing_config =
  ro_GeminiKey :: "key_config list"
  ro_InteractionsKey :: "key_config list"
  ro_ClaudeKey :: "key_config list"
  ro_CodexKey :: "key_config list"
  ro_XAIKey :: "key_config list"
  ro_VertexCompatAPIKey :: "key_config list"
  ro_OpenAICompatibility :: "routing_compat list"
  ro_OAuthRequestScopedErrors :: "(string \<times> error_rule list) list"

definition config_index :: "Auth option \<Rightarrow> nat option" where
  "config_index auth =
     (case auth of
        None \<Rightarrow> None
      | Some a \<Rightarrow>
          if AuthSourceKind auth \<noteq> ''config'' then None
          else (case go_parse_int (trim_space (map_str (auth_Attributes a) ''config_index'')) of
                  None \<Rightarrow> None
                | Some i \<Rightarrow> if i < 0 then None else Some (nat i)))"

definition matchesCredentials :: "string \<Rightarrow> string \<Rightarrow> key_config \<Rightarrow> bool" where
  "matchesCredentials attrKey attrBase entry =
     (let cfgKey = trim_space (kc_APIKey entry); cfgBase = trim_space (kc_BaseURL entry)
      in if attrKey \<noteq> [] \<and> attrBase \<noteq> [] then equal_fold cfgKey attrKey \<and> equal_fold cfgBase attrBase
         else if attrKey \<noteq> [] then equal_fold cfgKey attrKey \<and> (cfgBase = [] \<or> equal_fold cfgBase attrBase)
         else attrBase \<noteq> [] \<and> equal_fold cfgBase attrBase)"

definition resolve_key_scan :: "(key_config \<Rightarrow> bool) \<Rightarrow> (key_config \<Rightarrow> bool) \<Rightarrow> string \<Rightarrow> key_config list \<Rightarrow> key_config option" where
  "resolve_key_scan matches same_route attrKey configs =
     (case find (\<lambda>entry. matches entry \<and> same_route entry) configs of
        Some entry \<Rightarrow> Some entry
      | None \<Rightarrow>
          (case find matches configs of
             Some entry \<Rightarrow> Some entry
           | None \<Rightarrow>
               if attrKey \<noteq> [] then find (\<lambda>entry. equal_fold (trim_space (kc_APIKey entry)) attrKey) configs else None))"

definition resolveAPIKeyConfig :: "key_config list \<Rightarrow> Auth option \<Rightarrow> key_config option" where
  "resolveAPIKeyConfig configs auth =
     (case auth of
        None \<Rightarrow> None
      | Some a \<Rightarrow>
          (let attrKey = trim_space (map_str (auth_Attributes a) ''api_key'');
               attrBase = trim_space (map_str (auth_Attributes a) ''base_url'');
               matches = matchesCredentials attrKey attrBase;
               same_route = (\<lambda>entry. equal_fold (trim_space (kc_Prefix entry)) (trim_space (auth_Prefix a)) \<and>
                              equal_fold (trim_space (kc_ProxyURL entry)) (trim_space (auth_ProxyURL a)))
           in case config_index auth of
                Some i \<Rightarrow>
                  if i < length configs \<and> matches (configs ! i) then Some (configs ! i)
                  else resolve_key_scan matches same_route attrKey configs
              | None \<Rightarrow> resolve_key_scan matches same_route attrKey configs))"

definition resolveOpenAICompatConfigForAuth ::
  "routing_compat list \<Rightarrow> Auth option \<Rightarrow> string \<Rightarrow> string \<Rightarrow> routing_compat option" where
  "resolveOpenAICompatConfigForAuth configs auth providerKey compatName =
     (let authProvider = (case auth of None \<Rightarrow> [] | Some a \<Rightarrow> auth_Provider a)
      in case config_index auth of
           Some i \<Rightarrow>
             if i < length configs \<and> \<not> cp_Disabled (configs ! i) then Some (configs ! i)
             else find_compat configs providerKey compatName authProvider
         | None \<Rightarrow> find_compat configs providerKey compatName authProvider)"

definition key_models :: "key_config list \<Rightarrow> Auth option \<Rightarrow> modelAliasEntry list" where
  "key_models configs auth = (case resolveAPIKeyConfig configs auth of None \<Rightarrow> [] | Some entry \<Rightarrow> kc_Models entry)"

definition configuredModelAliasEntries :: "routing_config \<Rightarrow> Auth option \<Rightarrow> modelAliasEntry list" where
  "configuredModelAliasEntries cfg auth =
     (case auth of
        None \<Rightarrow> []
      | Some a \<Rightarrow>
          (let provider = to_lower (trim_space (auth_Provider a))
           in if provider = ''gemini'' then key_models (ro_GeminiKey cfg) auth
              else if provider = ''gemini-interactions'' then key_models (ro_InteractionsKey cfg) auth
              else if provider = ''claude'' then key_models (ro_ClaudeKey cfg) auth
              else if provider = ''codex'' then key_models (ro_CodexKey cfg) auth
              else if provider = ''xai'' then key_models (ro_XAIKey cfg) auth
              else if provider = ''vertex'' then key_models (ro_VertexCompatAPIKey cfg) auth
              else
                (let providerKey = trim_space (map_str (auth_Attributes a) ''provider_key'');
                     compatName = trim_space (map_str (auth_Attributes a) ''compat_name'')
                 in if compatName \<noteq> [] \<or> equal_fold (trim_space (auth_Provider a)) ''openai-compatibility''
                    then (case resolveOpenAICompatConfigForAuth (ro_OpenAICompatibility cfg) auth providerKey compatName of
                            None \<Rightarrow> []
                          | Some entry \<Rightarrow> cp_Models entry)
                    else [])))"

definition isConfiguredModelRoutingAuth :: "Auth option \<Rightarrow> bool" where
  "isConfiguredModelRoutingAuth auth =
     (case auth of
        None \<Rightarrow> False
      | Some a \<Rightarrow>
          if AuthKind auth = ''apikey'' then True
          else if AuthSourceKind auth \<noteq> ''config'' then False
          else trim_space (map_str (auth_Attributes a) ''compat_name'') \<noteq> [])"

text \<open>The table of the configured models of a credential: the first entry of a name wins.\<close>

definition add_alias :: "string \<Rightarrow> string \<Rightarrow> (string \<times> string) list \<Rightarrow> (string \<times> string) list" where
  "add_alias key0 name out =
     (let key = to_lower (trim_space key0) in if key = [] \<or> has_key key out then out else map_put key name out)"

definition compile_model :: "'a modelAliasEntry_scheme \<Rightarrow> (string \<times> string) list \<Rightarrow> (string \<times> string) list" where
  "compile_model m out =
     (let alias = trim_space (ma_Alias m); name = trim_space (ma_Name m)
      in if alias = [] \<or> name = [] then out
         else add_alias (suf_ModelName (ParseSuffix name)) name (add_alias name name
                (add_alias (suf_ModelName (ParseSuffix alias)) name (add_alias alias name out))))"

definition compileAPIKeyModelAliasForModels :: "'a modelAliasEntry_scheme list \<Rightarrow> (string \<times> string) list" where
  "compileAPIKeyModelAliasForModels models = fold compile_model models []"

definition rebuildAPIKeyModelAliasLocked :: "routing_config \<Rightarrow> auths \<Rightarrow> (string \<times> (string \<times> string) list) list" where
  "rebuildAPIKeyModelAliasLocked cfg auths =
     fold (\<lambda>(_, auth) out.
         case auth of
           None \<Rightarrow> out
         | Some a \<Rightarrow>
             if trim_space (auth_ID a) = [] \<or> \<not> isConfiguredModelRoutingAuth auth then out
             else (let byAlias = compileAPIKeyModelAliasForModels (configuredModelAliasEntries cfg auth)
                   in if byAlias \<noteq> [] then map_put (auth_ID a) byAlias out else out))
       auths []"

definition preserveRequestedModelSuffix :: "string \<Rightarrow> string \<Rightarrow> string" where
  "preserveRequestedModelSuffix requestedModel resolved = preserveResolvedModelSuffix resolved (ParseSuffix requestedModel)"

text \<open>The compiled table and the configuration it was compiled from.\<close>

record apiKeyModelRoutingSnapshot =
  rs_config :: routing_config
  rs_aliases :: "(string \<times> (string \<times> string) list) list"

definition lookupAPIKeyUpstreamModel :: "apiKeyModelRoutingSnapshot \<Rightarrow> string \<Rightarrow> string \<Rightarrow> string" where
  "lookupAPIKeyUpstreamModel routing authID0 requestedModel0 =
     (let authID = trim_space authID0; requestedModel = trim_space requestedModel0
      in if authID = [] \<or> requestedModel = [] then []
         else (case map_of (rs_aliases routing) authID of
                 None \<Rightarrow> []
               | Some byAlias \<Rightarrow>
                   (let key = to_lower requestedModel;
                        baseKey = to_lower (trim_space (suf_ModelName (ParseSuffix requestedModel)));
                        keys = (if baseKey \<noteq> [] \<and> baseKey \<noteq> key then [key, baseKey] else [key])
                    in case find (\<lambda>resolved. resolved \<noteq> []) (map (\<lambda>k. trim_space (map_str byAlias k)) keys) of
                         None \<Rightarrow> []
                       | Some resolved \<Rightarrow> preserveRequestedModelSuffix requestedModel resolved)))"

text \<open>The functions \<open>resolveUpstreamModelFor...APIKey\<close>, one for each provider, with the choice among them.\<close>

definition resolve_configured_upstream :: "routing_config \<Rightarrow> Auth option \<Rightarrow> string \<Rightarrow> string" where
  "resolve_configured_upstream cfg auth requestedModel =
     resolveModelAliasFromConfigModels requestedModel (configuredModelAliasEntries cfg auth)"

definition applyAPIKeyModelAliasWithRouting :: "apiKeyModelRoutingSnapshot \<Rightarrow> Auth option \<Rightarrow> string \<Rightarrow> string" where
  "applyAPIKeyModelAliasWithRouting routing auth requestedModel0 =
     (case auth of
        None \<Rightarrow> requestedModel0
      | Some a \<Rightarrow>
          if AuthKind auth \<noteq> ''apikey'' then requestedModel0
          else
            (let requestedModel = trim_space requestedModel0
             in if requestedModel = [] then requestedModel
                else
                  (let resolved = lookupAPIKeyUpstreamModel routing (auth_ID a) requestedModel;
                       upstreamModel = resolve_configured_upstream (rs_config routing) auth requestedModel
                   in if resolved \<noteq> [] then resolved
                      else if upstreamModel \<noteq> [] then upstreamModel
                      else requestedModel)))"

definition resolveAPIKeyModelAliasWithResult :: "routing_config \<Rightarrow> Auth option \<Rightarrow> string \<Rightarrow> OAuthModelAliasResult" where
  "resolveAPIKeyModelAliasWithResult cfg auth requestedModel0 =
     (let requestedModel = trim_space requestedModel0; models = configuredModelAliasEntries cfg auth;
          result = resolveModelAliasResultFromConfigModels requestedModel models
      in if auth = None \<or> requestedModel = [] then no_result
         else if models = [] then only_upstream requestedModel
         else if trim_space (ar_UpstreamModel result) = [] then only_upstream requestedModel
         else result)"

text \<open>What the entries that lead to the model of this attempt say about the request.\<close>

definition resolveModelAliasResultForUpstream :: "routing_config \<Rightarrow> Auth option \<Rightarrow> string \<Rightarrow> string \<Rightarrow> OAuthModelAliasResult" where
  "resolveModelAliasResultForUpstream cfg auth requestedModel0 upstreamModel0 =
     (let requestedModel = trim_space requestedModel0; upstreamModel = trim_space upstreamModel0;
          requestResult = ParseSuffix requestedModel;
          filtered = filter (\<lambda>m. let name = trim_space (ma_Name m)
              in name \<noteq> [] \<and> equal_fold (preserveResolvedModelSuffix name requestResult) upstreamModel) (configuredModelAliasEntries cfg auth)
      in if requestedModel = [] \<or> upstreamModel = [] \<or> filtered = [] then no_result
         else resolveModelAliasResultFromConfigModels requestedModel filtered)"

section \<open>Pools of upstream models\<close>

definition isConfiguredOpenAICompatAuth :: "Auth option \<Rightarrow> bool" where
  "isConfiguredOpenAICompatAuth auth =
     (case auth of
        None \<Rightarrow> False
      | Some a \<Rightarrow>
          isConfiguredModelRoutingAuth auth \<and>
          (equal_fold (trim_space (auth_Provider a)) ''openai-compatibility'' \<or>
           trim_space (map_str (auth_Attributes a) ''compat_name'') \<noteq> []))"

definition openAICompatProviderKey :: "Auth option \<Rightarrow> string" where
  "openAICompatProviderKey auth =
     (case auth of
        None \<Rightarrow> []
      | Some a \<Rightarrow>
          (let providerKey = trim_space (map_str (auth_Attributes a) ''provider_key'');
               compatName = trim_space (map_str (auth_Attributes a) ''compat_name'')
           in if providerKey \<noteq> [] then OpenAICompatibleProviderKey providerKey
              else if compatName \<noteq> [] then OpenAICompatibleProviderKey compatName
              else OpenAICompatibleProviderKey (auth_Provider a)))"

definition openAICompatModelPoolKey :: "Auth \<Rightarrow> string \<Rightarrow> string" where
  "openAICompatModelPoolKey a requestedModel =
     (let base = trim_space (suf_ModelName (ParseSuffix requestedModel));
          base = (if base = [] then trim_space requestedModel else base)
      in to_lower (trim_space (auth_ID a)) @ ''|'' @ openAICompatProviderKey (Some a) @ ''|'' @ to_lower base)"

definition max_pool_offset :: int where
  "max_pool_offset = 2147483640"

definition nextModelPoolOffset :: "string \<Rightarrow> nat \<Rightarrow> (string \<times> int) list \<Rightarrow> int \<times> (string \<times> int) list" where
  "nextModelPoolOffset key0 pool_size offsets =
     (let key = trim_space key0
      in if pool_size \<le> 1 \<or> key = [] then (0, offsets)
         else
           (let offset = (case map_of offsets key of None \<Rightarrow> 0 | Some o' \<Rightarrow> o');
                offset = (if offset \<ge> max_pool_offset then 0 else offset)
            in (offset mod int pool_size, map_put key (offset + 1) offsets)))"

definition rotateStrings :: "string list \<Rightarrow> int \<Rightarrow> string list" where
  "rotateStrings values offset =
     (if length values \<le> 1 \<or> offset \<le> 0 then values
      else (let o' = nat (offset mod int (length values)) in drop o' values @ take o' values))"

definition resolveOpenAICompatUpstreamModelPool :: "routing_config \<Rightarrow> Auth option \<Rightarrow> string \<Rightarrow> string list" where
  "resolveOpenAICompatUpstreamModelPool cfg auth requestedModel0 =
     (let requestedModel = trim_space requestedModel0
      in case auth of
           None \<Rightarrow> []
         | Some a \<Rightarrow>
             if \<not> isConfiguredOpenAICompatAuth auth \<or> requestedModel = [] then []
             else (case resolveOpenAICompatConfigForAuth (ro_OpenAICompatibility cfg) auth
                          (trim_space (map_str (auth_Attributes a) ''provider_key'')) (trim_space (map_str (auth_Attributes a) ''compat_name'')) of
                     None \<Rightarrow> []
                   | Some entry \<Rightarrow> resolveModelAliasPoolFromConfigModels requestedModel (cp_Models entry)))"

section \<open>The models of an execution\<close>

text \<open>\<open>utf8.ValidString\<close> on the values of the bytes.\<close>

abbreviation cont_byte :: "nat \<Rightarrow> bool" where
  "cont_byte b \<equiv> 128 \<le> b \<and> b \<le> 191"

fun utf8_bytes :: "nat list \<Rightarrow> bool" where
  "utf8_bytes [] = True"
| "utf8_bytes (b # bs) =
     (if b < 128 then utf8_bytes bs
      else if 194 \<le> b \<and> b \<le> 223 then
        (case bs of c # bs' \<Rightarrow> cont_byte c \<and> utf8_bytes bs' | _ \<Rightarrow> False)
      else if 224 \<le> b \<and> b \<le> 239 then
        (case bs of
           c # d # bs' \<Rightarrow> (if b = 224 then 160 \<le> c \<and> c \<le> 191 else if b = 237 then 128 \<le> c \<and> c \<le> 159 else cont_byte c) \<and>
             cont_byte d \<and> utf8_bytes bs'
         | _ \<Rightarrow> False)
      else if 240 \<le> b \<and> b \<le> 244 then
        (case bs of
           c # d # e # bs' \<Rightarrow> (if b = 240 then 144 \<le> c \<and> c \<le> 191 else if b = 244 then 128 \<le> c \<and> c \<le> 143 else cont_byte c) \<and>
             cont_byte d \<and> cont_byte e \<and> utf8_bytes bs'
         | _ \<Rightarrow> False)
      else False)"

definition utf8_valid :: "string \<Rightarrow> bool" where
  "utf8_valid s = utf8_bytes (map of_char s)"

definition recognizedHomeConcurrencySuffix :: "string \<Rightarrow> bool" where
  "recognizedHomeConcurrencySuffix v =
     (if v = ''-1'' then True
      else if to_lower v \<in> {''none'', ''auto'', ''minimal'', ''low'', ''medium'', ''high'', ''xhigh'', ''max''} then True
      else if v = [] \<or> length v > 10 then False
      else (case parse_digits 0 v of None \<Rightarrow> False | Some parsed \<Rightarrow> parsed \<le> 2147483647))"

definition canonicalHomeConcurrencyModelKey :: "string \<Rightarrow> string" where
  "canonicalHomeConcurrencyModelKey model =
     (if \<not> utf8_valid model then []
      else
        (let trimmed = to_lower (trim_space model)
         in if \<not> has_suffix trimmed '')'' then trimmed
            else (case last_index (CHR ''('') trimmed of
                    None \<Rightarrow> trimmed
                  | Some open' \<Rightarrow>
                      if \<not> recognizedHomeConcurrencySuffix (drop (open' + 1) (take (length trimmed - 1) trimmed)) then trimmed
                      else (let base = trim_space (take open' trimmed) in if base = [] then trimmed else base))))"

definition homeForceMappingAliasResult :: "Auth option \<Rightarrow> string \<Rightarrow> OAuthModelAliasResult" where
  "homeForceMappingAliasResult auth requestedModel =
     (case auth of
        None \<Rightarrow> no_result
      | Some a \<Rightarrow>
          (let attr = map_str (auth_Attributes a);
               canonicalOriginalAlias = canonicalHomeConcurrencyModelKey (attr ''home_original_alias'');
               upstreamModel = trim_space (attr ''home_upstream_model'')
           in if \<not> equal_fold (trim_space (attr ''home_force_mapping'')) ''true'' then no_result
              else if canonicalOriginalAlias = [] \<or> canonicalOriginalAlias \<noteq> canonicalHomeConcurrencyModelKey requestedModel then no_result
              else \<lparr>ar_UpstreamModel = (if upstreamModel = [] then trim_space requestedModel else upstreamModel),
                    ar_ForceMapping = True, ar_OriginalAlias = trim_space (attr ''home_original_alias'')\<rparr>))"

text \<open>What the manager keeps for routing.\<close>

record model_routing =
  mo_oauth :: oauthModelAliasTable
  mo_routing :: apiKeyModelRoutingSnapshot
  mo_offsets :: "(string \<times> int) list"

definition resolveExecutionAliasResultForRequestedWithRouting ::
  "(string \<Rightarrow> OAuthModelAlias list option) \<Rightarrow> model_routing \<Rightarrow> Auth option \<Rightarrow> string \<Rightarrow> OAuthModelAliasResult" where
  "resolveExecutionAliasResultForRequestedWithRouting decode r auth requestedModel =
     (let result = homeForceMappingAliasResult auth requestedModel
      in if ar_ForceMapping result then result
         else if isConfiguredModelRoutingAuth auth then resolveAPIKeyModelAliasWithResult (rs_config (mo_routing r)) auth requestedModel
         else applyOAuthModelAliasWithResult decode (mo_oauth r) auth requestedModel)"

definition executionAliasPoolModel :: "Auth option \<Rightarrow> string \<Rightarrow> OAuthModelAliasResult \<Rightarrow> string" where
  "executionAliasPoolModel auth requestedModel aliasResult =
     (if isConfiguredModelRoutingAuth auth \<and> trim_space requestedModel \<noteq> [] then requestedModel
      else if trim_space (ar_UpstreamModel aliasResult) \<noteq> [] then ar_UpstreamModel aliasResult
      else requestedModel)"

definition rewriteModelForAuth :: "string \<Rightarrow> Auth option \<Rightarrow> string" where
  "rewriteModelForAuth model auth =
     (case auth of
        None \<Rightarrow> model
      | Some a \<Rightarrow>
          (let prefix = trim_space (auth_Prefix a); needle = prefix @ ''/''
           in if model = [] \<or> prefix = [] then model
              else if has_prefix model needle then drop (length needle) model else model))"

definition selectionModelForAuth ::
  "(string \<Rightarrow> OAuthModelAlias list option) \<Rightarrow> model_routing \<Rightarrow> Auth option \<Rightarrow> string \<Rightarrow> string" where
  "selectionModelForAuth decode r auth routeModel =
     (let requestedModel = rewriteModelForAuth routeModel auth;
          requestedModel = (if trim_space requestedModel = [] then trim_space routeModel else requestedModel);
          resolvedModel = applyOAuthModelAlias decode (mo_oauth r) auth requestedModel
      in if trim_space resolvedModel = [] then requestedModel else resolvedModel)"

definition selectionModelKeyForAuth ::
  "(string \<Rightarrow> OAuthModelAlias list option) \<Rightarrow> model_routing \<Rightarrow> Auth option \<Rightarrow> string \<Rightarrow> string" where
  "selectionModelKeyForAuth decode r auth routeModel = canonicalModelKey (selectionModelForAuth decode r auth routeModel)"

definition executionResultModel :: "string \<Rightarrow> string \<Rightarrow> bool \<Rightarrow> string" where
  "executionResultModel routeModel upstreamModel pooled =
     (if pooled \<and> trim_space upstreamModel \<noteq> [] then trim_space upstreamModel
      else if trim_space routeModel \<noteq> [] then trim_space routeModel
      else trim_space upstreamModel)"

definition home_model :: "Auth option \<Rightarrow> string" where
  "home_model auth = (case auth of None \<Rightarrow> [] | Some a \<Rightarrow> trim_space (map_str (auth_Attributes a) ''home_upstream_model''))"

definition stateModelForExecution ::
  "(string \<Rightarrow> OAuthModelAlias list option) \<Rightarrow> model_routing \<Rightarrow> Auth option \<Rightarrow> string \<Rightarrow> string \<Rightarrow> bool \<Rightarrow> string" where
  "stateModelForExecution decode r auth routeModel upstreamModel pooled =
     (if home_model auth \<noteq> [] then (if trim_space upstreamModel \<noteq> [] then trim_space upstreamModel else home_model auth)
      else
        (let stateModel = executionResultModel routeModel upstreamModel pooled;
             selectionModel = selectionModelForAuth decode r auth routeModel
         in if canonicalModelKey selectionModel = canonicalModelKey upstreamModel \<and> trim_space selectionModel \<noteq> []
            then trim_space upstreamModel else stateModel))"

definition executionModelCandidatesWithAlias ::
  "(string \<Rightarrow> OAuthModelAlias list option) \<Rightarrow> Auth option \<Rightarrow> string \<Rightarrow> model_routing \<Rightarrow>
     (string list \<times> bool \<times> OAuthModelAliasResult) \<times> model_routing" where
  "executionModelCandidatesWithAlias decode auth routeModel r =
     (let requestedModel = rewriteModelForAuth routeModel auth;
          aliasResult = resolveExecutionAliasResultForRequestedWithRouting decode r auth requestedModel;
          aliasResult =
            (case auth of
               None \<Rightarrow> aliasResult
             | Some a \<Rightarrow>
                 if ar_ForceMapping aliasResult \<and> equal_fold (trim_space (map_str (auth_Attributes a) ''home_force_mapping'')) ''true''
                 then aliasResult\<lparr>ar_OriginalAlias := trim_space routeModel\<rparr> else aliasResult);
          upstreamModel = executionAliasPoolModel auth requestedModel aliasResult;
          pool = resolveOpenAICompatUpstreamModelPool (rs_config (mo_routing r)) auth upstreamModel;
          resolved = applyAPIKeyModelAliasWithRouting (mo_routing r) auth upstreamModel
      in if home_model auth \<noteq> [] then (([home_model auth], False, aliasResult), r)
         else if length pool = 1 then ((pool, False, aliasResult), r)
         else
           (case (pool, auth) of
              (_ # _, Some a) \<Rightarrow>
                (case nextModelPoolOffset (openAICompatModelPoolKey a upstreamModel) (length pool) (mo_offsets r) of
                   (offset, offsets) \<Rightarrow> ((rotateStrings pool offset, True, aliasResult), r\<lparr>mo_offsets := offsets\<rparr>))
            | _ \<Rightarrow> (([if trim_space resolved = [] then upstreamModel else resolved], False, aliasResult), r)))"

definition filterExecutionModels ::
  "(string \<Rightarrow> OAuthModelAlias list option) \<Rightarrow> model_routing \<Rightarrow> gotime \<Rightarrow> Auth option \<Rightarrow> string \<Rightarrow> string list \<Rightarrow> bool \<Rightarrow> string list" where
  "filterExecutionModels decode r now auth routeModel candidates pooled =
     filter (\<lambda>upstreamModel. \<not> fst (isAuthBlockedForModel auth (stateModelForExecution decode r auth routeModel upstreamModel pooled) now)) candidates"

definition preparedExecutionModelsWithAlias ::
  "(string \<Rightarrow> OAuthModelAlias list option) \<Rightarrow> gotime \<Rightarrow> Auth option \<Rightarrow> string \<Rightarrow> model_routing \<Rightarrow>
     (string list \<times> bool \<times> OAuthModelAliasResult) \<times> model_routing" where
  "preparedExecutionModelsWithAlias decode now auth routeModel r =
     (case executionModelCandidatesWithAlias decode auth routeModel r of
        ((candidates, pooled, aliasResult), r') \<Rightarrow>
          ((filterExecutionModels decode r' now auth routeModel candidates pooled, pooled, aliasResult), r'))"

definition resolveAttemptAliasResult ::
  "apiKeyModelRoutingSnapshot \<Rightarrow> Auth option \<Rightarrow> string \<Rightarrow> string \<Rightarrow> OAuthModelAliasResult \<Rightarrow> OAuthModelAliasResult" where
  "resolveAttemptAliasResult routing auth routeModel upstreamModel fallback =
     (let requestedModel = rewriteModelForAuth routeModel auth;
          result = resolveModelAliasResultForUpstream (rs_config routing) auth requestedModel upstreamModel
      in if \<not> isConfiguredModelRoutingAuth auth then fallback
         else if trim_space (ar_UpstreamModel result) = [] then fallback
         else if ar_ForceMapping result \<and> ar_ForceMapping fallback \<and> trim_space (ar_OriginalAlias fallback) \<noteq> []
         then result\<lparr>ar_OriginalAlias := ar_OriginalAlias fallback\<rparr>
         else result)"

end
