(* ===== verification/Alias_Laws.thy ===== *)
theory Alias_Laws
  imports Model_Alias
begin

text \<open>
  What the alias tables mean: the table compiled from the OAuth aliases answers as a scan of the sanitised list
  does, and the pool of an OpenAI-compatible alias is rotated fairly.
\<close>

section \<open>The compiled table and the list\<close>

definition entry_of :: "'a modelAliasEntry_scheme \<Rightarrow> oauthModelAliasEntry" where
  "entry_of e = \<lparr>oe_upstreamModel = ma_Name e, oe_configAlias = ma_Alias e, oe_forceMapping = ma_ForceMapping e\<rparr>"

definition table_of :: "OAuthModelAlias list \<Rightarrow> (string \<times> oauthModelAliasEntry) list" where
  "table_of es = map (\<lambda>e. (to_lower (ma_Alias e), entry_of e)) es"

definition clean_entry :: "'a modelAliasEntry_scheme \<Rightarrow> bool" where
  "clean_entry e \<longleftrightarrow> ma_Name e \<noteq> [] \<and> trim_space (ma_Name e) = ma_Name e \<and> ma_Alias e \<noteq> [] \<and> trim_space (ma_Alias e) = ma_Alias e \<and>
     \<not> equal_fold (ma_Name e) (ma_Alias e)"

lemma sanitize_clean: "e \<in> set (sanitize_entries seen es) \<Longrightarrow> clean_entry e"
  by (induction seen es rule: sanitize_entries.induct) (auto simp: Let_def clean_entry_def split: if_splits)

lemma update_fresh: "k \<notin> fst ` set xs \<Longrightarrow> map_put k v xs = xs @ [(k, v)]"
  by (induction xs) auto

lemma has_key_fst: "has_key k xs \<longleftrightarrow> k \<in> fst ` set xs"
  by (simp add: has_key_def map_of_eq_None_iff)

lemma compile_entries:
  "set seen = fst ` set acc \<Longrightarrow> fold compile_entry es acc = acc @ table_of (sanitize_entries seen es)"
proof (induction es arbitrary: seen acc)
  case (Cons e es)
  let ?name = "trim_space (ma_Name e)" and ?al = "trim_space (ma_Alias e)"
  show ?case
  proof (cases "?name = [] \<or> ?al = [] \<or> equal_fold ?name ?al \<or> to_lower ?al \<in> set seen")
    case True
    then have "compile_entry e acc = acc" using Cons.prems by (auto simp: compile_entry_def Let_def has_key_fst)
    then show ?thesis using True Cons.IH [OF Cons.prems] by (simp add: Let_def)
  next
    case False
    let ?v = "\<lparr>oe_upstreamModel = ?name, oe_configAlias = ?al, oe_forceMapping = ma_ForceMapping e\<rparr>"
    have k: "to_lower ?al \<notin> fst ` set acc" using False Cons.prems by simp
    then have "compile_entry e acc = acc @ [(to_lower ?al, ?v)]"
      using False by (simp add: compile_entry_def Let_def has_key_fst update_fresh)
    moreover have "set (to_lower ?al # seen) = fst ` set (acc @ [(to_lower ?al, ?v)])" using Cons.prems by simp
    ultimately show ?thesis using False Cons.IH [of "to_lower ?al # seen"] by (simp add: Let_def table_of_def entry_of_def)
  qed
qed (simp add: table_of_def)

lemma update_map_snd: "map_put k (f v) (map (\<lambda>(k, v). (k, f v)) xs) = map (\<lambda>(k, v). (k, f v)) (map_put k v xs)"
  by (induction xs) auto

lemma compile_table:
  "compileOAuthModelAliasTable raw = map (\<lambda>(ch, es). (ch, table_of es)) (SanitizeOAuthModelAlias raw)"
proof -
  let ?F = "map (\<lambda>(ch, es). (ch, table_of es))"
  let ?c = "\<lambda>(rawChannel, es) out. let channel = to_lower (trim_space rawChannel)
         in if channel = [] \<or> es = [] then out
            else (let byAlias = fold compile_entry es [] in if byAlias \<noteq> [] then map_put channel byAlias out else out)"
  let ?s = "\<lambda>(rawChannel, es) out. let channel = to_lower (trim_space rawChannel)
         in if channel = [] \<or> es = [] then out
            else (let clean = sanitize_entries [] es in if clean \<noteq> [] then map_put channel clean out else out)"
  have e: "fold compile_entry es [] = table_of (sanitize_entries [] es)" for es :: "OAuthModelAlias list"
    using compile_entries [of "[]" "[]" es] by simp
  have "fold ?c raw (?F out) = ?F (fold ?s raw out)" for out
  proof (induction raw arbitrary: out)
    case (Cons x raw)
    have "?c x (?F out) = ?F (?s x out)"
      by (cases x) (simp add: Let_def e table_of_def update_map_snd [of _ table_of, unfolded table_of_def])
    then show ?case using Cons.IH [of "?s x out"] by simp
  qed simp
  from this [of "[]"] show ?thesis by (simp add: compileOAuthModelAliasTable_def SanitizeOAuthModelAlias_def)
qed

lemma sanitized_clean:
  assumes "map_of (SanitizeOAuthModelAlias raw) ch = Some es"
  shows "\<forall>e\<in>set es. clean_entry e"
proof -
  let ?s = "\<lambda>(rawChannel, es) out. let channel = to_lower (trim_space rawChannel)
         in if channel = [] \<or> es = [] then out
            else (let clean = sanitize_entries [] es in if clean \<noteq> [] then map_put channel clean out else out)"
  have "\<forall>ch es. map_of (fold ?s raw out) ch = Some es \<longrightarrow> (\<forall>e\<in>set es. clean_entry e)"
    if "\<forall>ch es. map_of out ch = Some es \<longrightarrow> (\<forall>e\<in>set es. clean_entry e)" for out
    using that
  proof (induction raw arbitrary: out)
    case (Cons x raw)
    have "\<forall>ch es. map_of (?s x out) ch = Some es \<longrightarrow> (\<forall>e\<in>set es. clean_entry e)"
      using Cons.prems by (cases x) (auto simp: Let_def update_conv' sanitize_clean)
    then show ?case using Cons.IH by simp
  qed simp
  from this [of "[]"] show ?thesis using assms by (simp add: SanitizeOAuthModelAlias_def)
qed

lemma map_of_table:
  "map_of (table_of es) k = map_option entry_of (find (\<lambda>e. to_lower (ma_Alias e) = k) es)"
  by (induction es) (auto simp: table_of_def)

lemma table_lookup:
  assumes "\<forall>e\<in>set es. clean_entry e"
  shows "(case map_of (table_of es) (to_lower key) of None \<Rightarrow> None | Some entry \<Rightarrow> if oe_upstreamModel entry = [] then None else Some entry) =
    map_option entry_of (find (alias_match key) es)"
proof -
  have "find (alias_match key) es = find (\<lambda>e. to_lower (ma_Alias e) = to_lower key) es"
    using assms by (intro find_cong) (auto simp: clean_entry_def alias_match_def Let_def equal_fold_def)
  moreover have "oe_upstreamModel (entry_of e) \<noteq> []" if "find P es = Some e" for P e
    using that assms by (auto simp: find_Some_iff clean_entry_def entry_of_def)
  ultimately show ?thesis by (auto simp: map_of_table split: option.split)
qed

lemma first_some_map: "first_some (\<lambda>x. map_option f (g x)) xs = map_option f (first_some g xs)"
  by (induction xs) (auto split: option.split)

lemma first_some_Some: "first_some g xs = Some y \<Longrightarrow> \<exists>x\<in>set xs. g x = Some y"
  by (induction xs) (auto split: option.splits)

lemma alias_scan_nil: "alias_scan r b res [] cands = no_result" "alias_scan r b res es [] = no_result"
  by (induction cands) (simp_all add: alias_scan_def Let_def)

text \<open>The two results agree on an entry that a candidate of the request names.\<close>

lemma table_result_eq:
  assumes c: "modelAliasLookupCandidates req = (res, cands)" and m: "cand \<in> set cands" "alias_match (trim_space cand) e" "clean_entry e"
  shows "table_result req res (entry_of e) =
    alias_result req (if suf_ModelName res = [] then trim_space req else suf_ModelName res) res e"
proof -
  have n: "trim_space (ma_Name e) = ma_Name e" "trim_space (ma_Alias e) = ma_Alias e" "ma_Name e \<noteq> []"
    "\<not> equal_fold (ma_Name e) (ma_Alias e)" using m(3) by (simp_all add: clean_entry_def)
  have r: "trim_space req \<noteq> []" using c m(1) by (auto simp: modelAliasLookupCandidates_def Let_def split: if_splits)
  define base where "base = (if suf_ModelName res = [] then trim_space req else suf_ModelName res)"
  have "equal_fold (ma_Name e) (suf_ModelName res) \<longleftrightarrow> equal_fold (ma_Name e) base"
  proof (cases "suf_ModelName res = []")
    case True
    then have "cand = trim_space req" using c m(1) r by (auto simp: modelAliasLookupCandidates_def Let_def split: if_splits)
    then have "equal_fold (ma_Alias e) (trim_space req)" using m(2) by (simp add: alias_match_def Let_def n)
    then have "\<not> equal_fold (ma_Name e) (trim_space req)" using n(4) by (simp add: equal_fold_def)
    then show ?thesis using True n(3) by (simp add: equal_fold_def base_def)
  qed (simp add: base_def)
  then show ?thesis
    unfolding base_def [symmetric] table_result_def alias_result_def Let_def entry_of_def oauthModelAliasEntry.simps n preserveResolvedModelSuffix_def
    by (simp add: n(3))
qed

text \<open>C30. The table compiled from the configured OAuth aliases is an index of them: for every credential, channel and
  requested model its answer, with the preserved suffix and the name to report, is the one a scan of the
  channel's sanitised list gives.\<close>

theorem alias_table_equiv:
  "resolveUpstreamModelFromAliasTable (compileOAuthModelAliasTable raw) (Some a) requested channel =
     (if channel = [] then no_result
      else resolveUpstreamModelFromAliases
             (case map_of (SanitizeOAuthModelAlias raw) channel of None \<Rightarrow> [] | Some es \<Rightarrow> es) requested)"
proof (cases "channel = [] \<or> map_of (SanitizeOAuthModelAlias raw) channel = None")
  case True
  then show ?thesis
    by (auto simp: resolveUpstreamModelFromAliasTable_def resolveUpstreamModelFromAliases_def compile_table map_of_map split: prod.split)
next
  case False
  then obtain es where es: "map_of (SanitizeOAuthModelAlias raw) channel = Some es" by auto
  note cl = sanitized_clean [OF es]
  obtain res cands where c: "modelAliasLookupCandidates requested = (res, cands)" by fastforce
  have t: "map_of (compileOAuthModelAliasTable raw) channel = Some (table_of es)"
    using es by (simp add: compile_table map_of_map)
  let ?hit = "\<lambda>cand. let key = trim_space cand in if key = [] then None else find (alias_match key) es"
  have f: "(\<lambda>cand. let key = to_lower (trim_space cand)
      in if key = [] then None
         else (case map_of (table_of es) key of None \<Rightarrow> None
               | Some entry \<Rightarrow> if oe_upstreamModel entry = [] then None else Some entry)) = (\<lambda>cand. map_option entry_of (?hit cand))"
    by (rule ext) (auto simp: Let_def table_lookup [OF cl, unfolded to_lower_def] to_lower_def)
  let ?base = "if suf_ModelName res = [] then trim_space requested else suf_ModelName res"
  have "(case first_some ?hit cands of None \<Rightarrow> no_result | Some e \<Rightarrow> table_result requested res (entry_of e)) =
      alias_scan requested ?base res es cands"
  proof (cases "first_some ?hit cands")
    case None
    then show ?thesis by (simp add: alias_scan_def)
  next
    case (Some e)
    from first_some_Some [OF this] obtain cand where m: "cand \<in> set cands" "find (alias_match (trim_space cand)) es = Some e"
      by (auto simp: Let_def split: if_splits)
    then have "alias_match (trim_space cand) e" "clean_entry e" using cl by (auto simp: find_Some_iff)
    from table_result_eq [OF c m(1) this] show ?thesis by (simp add: alias_scan_def Some)
  qed
  moreover have "resolveUpstreamModelFromAliasTable (compileOAuthModelAliasTable raw) (Some a) requested channel =
      (case first_some ?hit cands of None \<Rightarrow> no_result | Some e \<Rightarrow> table_result requested res (entry_of e))"
    unfolding resolveUpstreamModelFromAliasTable_def c prod.case t option.case f first_some_map using False
    by (simp split: option.split)
  moreover have "resolveUpstreamModelFromAliases es requested = alias_scan requested ?base res es cands"
    unfolding resolveUpstreamModelFromAliases_def c prod.case by (simp add: alias_scan_nil)
  ultimately show ?thesis using False es by simp
qed

section \<open>Pools\<close>

text \<open>The models that consecutive requests for one model try first on a credential.\<close>

fun first_tries ::
  "(string \<Rightarrow> OAuthModelAlias list option) \<Rightarrow> Auth option \<Rightarrow> string \<Rightarrow> nat \<Rightarrow> model_routing \<Rightarrow> string list" where
  "first_tries decode auth model 0 r = []"
| "first_tries decode auth model (Suc n) r =
     (case executionModelCandidatesWithAlias decode auth model r of
        ((candidates, _, _), r') \<Rightarrow> take 1 candidates @ first_tries decode auth model n r')"

text \<open>The pool of a credential for a model, and the key of its rotation.\<close>

definition requested_upstream :: "(string \<Rightarrow> OAuthModelAlias list option) \<Rightarrow> model_routing \<Rightarrow> Auth \<Rightarrow> string \<Rightarrow> string" where
  "requested_upstream decode r a model =
     (let requestedModel = rewriteModelForAuth model (Some a)
      in executionAliasPoolModel (Some a) requestedModel
           (resolveExecutionAliasResultForRequestedWithRouting decode r (Some a) requestedModel))"

definition pool_of :: "(string \<Rightarrow> OAuthModelAlias list option) \<Rightarrow> model_routing \<Rightarrow> Auth \<Rightarrow> string \<Rightarrow> string list" where
  "pool_of decode r a model =
     resolveOpenAICompatUpstreamModelPool (rs_config (mo_routing r)) (Some a) (requested_upstream decode r a model)"

definition rotation_of :: "(string \<Rightarrow> OAuthModelAlias list option) \<Rightarrow> model_routing \<Rightarrow> Auth \<Rightarrow> string \<Rightarrow> int" where
  "rotation_of decode r a model =
     (case map_of (mo_offsets r) (trim_space (openAICompatModelPoolKey a (requested_upstream decode r a model))) of
        None \<Rightarrow> 0 | Some offset \<Rightarrow> offset)"

lemma upstream_cong: "mo_oauth r' = mo_oauth r \<Longrightarrow> mo_routing r' = mo_routing r \<Longrightarrow> requested_upstream decode r' a model = requested_upstream decode r a model"
  by (simp add: requested_upstream_def resolveExecutionAliasResultForRequestedWithRouting_def Let_def)

lemma trim_space_empty: "trim_space s = [] \<Longrightarrow> c \<in> set s \<Longrightarrow> is_go_space c"
proof -
  assume t: "trim_space s = []" and c: "c \<in> set s"
  have all: "\<forall>x\<in>set (trim_left s). is_go_space x" using t by (simp add: trim_space_def trim_left_def)
  have "trim_left s = []"
  proof (rule ccontr)
    assume n: "trim_left s \<noteq> []"
    then have "\<not> is_go_space (hd (trim_left s))" unfolding trim_left_def by (rule hd_dropWhile)
    then show False using all n by simp
  qed
  then show ?thesis using c by (simp add: trim_left_def)
qed

lemma pool_key_nonempty: "trim_space (openAICompatModelPoolKey a m) \<noteq> []"
proof
  assume "trim_space (openAICompatModelPoolKey a m) = []"
  moreover have "CHR ''|'' \<in> set (openAICompatModelPoolKey a m)" by (simp add: openAICompatModelPoolKey_def Let_def)
  ultimately have "is_go_space (CHR ''|'')" by (rule trim_space_empty)
  then show False by (simp add: is_go_space_def)
qed

lemma take_rotateStrings:
  assumes "2 \<le> length xs" "0 \<le> offset" "offset < int (length xs)"
  shows "take 1 (rotateStrings xs offset) = [xs ! nat offset]"
proof (cases "offset = 0")
  case True
  then show ?thesis using assms(1) by (cases xs) (simp_all add: rotateStrings_def)
next
  case False
  then have "rotateStrings xs offset = drop (nat offset) xs @ take (nat offset) xs"
    using assms by (simp add: rotateStrings_def Let_def)
  moreover have "nat offset < length xs" using assms by linarith
  ultimately show ?thesis by (simp add: Cons_nth_drop_Suc [symmetric])
qed

text \<open>One request.\<close>

lemma pool_step:
  assumes "home_model (Some a) = []" "2 \<le> length (pool_of decode r a model)" "0 \<le> rotation_of decode r a model"
    and "rotation_of decode r a model < max_pool_offset"
  obtains res r' where "executionModelCandidatesWithAlias decode (Some a) model r = res" "snd res = r'"
    "take 1 (fst (fst res)) = [pool_of decode r a model ! (nat (rotation_of decode r a model) mod length (pool_of decode r a model))]"
    "mo_oauth r' = mo_oauth r" "mo_routing r' = mo_routing r" "rotation_of decode r' a model = rotation_of decode r a model + 1"
proof -
  let ?p = "pool_of decode r a model" and ?u = "requested_upstream decode r a model" and ?o = "rotation_of decode r a model"
  let ?key = "openAICompatModelPoolKey a ?u"
  let ?r = "r\<lparr>mo_offsets := map_put (trim_space ?key) (?o + 1) (mo_offsets r)\<rparr>"
  have next': "nextModelPoolOffset ?key (length ?p) (mo_offsets r) = (?o mod int (length ?p), map_put (trim_space ?key) (?o + 1) (mo_offsets r))"
    using assms(2-4) pool_key_nonempty [of a ?u] by (simp add: nextModelPoolOffset_def Let_def rotation_of_def split: option.splits)
  have up: "executionAliasPoolModel (Some a) q (if b then x\<lparr>ar_OriginalAlias := y\<rparr> else x) = executionAliasPoolModel (Some a) q x" for q b x y
    by (simp add: executionAliasPoolModel_def)
  obtain h t where ht: "?p = h # t" "length ?p \<noteq> 1" using assms(2) by (cases ?p) (auto simp: Suc_le_eq)
  define res where "res = executionModelCandidatesWithAlias decode (Some a) model r"
  have r1: "fst (fst res) = rotateStrings ?p (?o mod int (length ?p)) \<and> snd res = ?r"
    using ht next' assms(1)
    unfolding res_def executionModelCandidatesWithAlias_def option.case Let_def up
      requested_upstream_def [unfolded Let_def, symmetric] pool_of_def [symmetric] by simp
  have n: "nat (?o mod int (length ?p)) = nat ?o mod length ?p" using assms(3) by (simp add: nat_mod_distrib)
  have "0 \<le> ?o mod int (length ?p)" "?o mod int (length ?p) < int (length ?p)"
    using assms(2) by (auto intro!: pos_mod_sign pos_mod_bound simp: Suc_le_eq)
  from take_rotateStrings [OF assms(2) this] have r2: "take 1 (fst (fst res)) = [?p ! (nat ?o mod length ?p)]"
    by (simp only: r1 n)
  have r3: "rotation_of decode ?r a model = ?o + 1"
  proof -
    have u: "requested_upstream decode ?r a model = ?u" by (rule upstream_cong) simp_all
    have "rotation_of decode ?r a model = (case map_of (mo_offsets ?r) (trim_space ?key) of None \<Rightarrow> 0 | Some offset \<Rightarrow> offset)"
      unfolding rotation_of_def [of decode ?r] u ..
    then show ?thesis by (simp add: update_conv')
  qed
  show thesis by (rule that [of res ?r]) (use r1 r2 r3 in \<open>simp_all add: res_def\<close>)
qed

lemma first_tries_rotation:
  assumes "home_model (Some a) = []" "p = pool_of decode r a model" "2 \<le> length p" "rotation_of decode r a model = int k"
    and "int k + int n \<le> max_pool_offset"
  shows "first_tries decode (Some a) model n r = map (\<lambda>i. p ! ((k + i) mod length p)) [0..<n]"
  using assms(2,4,5)
proof (induction n arbitrary: r k)
  case (Suc n)
  obtain res r' where s: "executionModelCandidatesWithAlias decode (Some a) model r = res" "snd res = r'"
    "take 1 (fst (fst res)) = [pool_of decode r a model ! (nat (rotation_of decode r a model) mod length (pool_of decode r a model))]"
    "mo_oauth r' = mo_oauth r" "mo_routing r' = mo_routing r" "rotation_of decode r' a model = rotation_of decode r a model + 1"
    by (rule pool_step [OF assms(1), of decode r model]) (use Suc.prems assms(3) in simp_all)
  have "p = pool_of decode r' a model" using Suc.prems(1) s(4,5) by (simp add: pool_of_def upstream_cong [OF s(4,5)])
  from Suc.IH [OF this, of "Suc k"] Suc.prems s(6)
  have IH: "first_tries decode (Some a) model n r' = map (\<lambda>i. p ! ((Suc k + i) mod length p)) [0..<n]" by simp
  have "first_tries decode (Some a) model (Suc n) r = take 1 (fst (fst res)) @ first_tries decode (Some a) model n r'"
    using s(1,2) by (cases res) auto
  also have "\<dots> = p ! (k mod length p) # map (\<lambda>i. p ! ((k + Suc i) mod length p)) [0..<n]"
    using s(3) IH Suc.prems(1,2) by simp
  also have "\<dots> = map (\<lambda>i. p ! ((k + i) mod length p)) [0..<Suc n]"
    by (simp add: upt_conv_Cons map_Suc_upt [symmetric] del: upt_Suc)
  finally show ?case .
qed simp

text \<open>C31. Several upstream models behind one alias share the load: as many consecutive requests for the alias on a
  credential as the pool has models start with each of them exactly once.\<close>

theorem pool_shares_requests:
  assumes "home_model (Some a) = []" "p = pool_of decode r a model" "2 \<le> length p" "0 \<le> rotation_of decode r a model"
    and "rotation_of decode r a model + int (length p) \<le> max_pool_offset"
  shows "mset (first_tries decode (Some a) model (length p) r) = mset p"
proof -
  obtain k where k: "rotation_of decode r a model = int k" using assms(4) nonneg_int_cases by blast
  have "first_tries decode (Some a) model (length p) r = map (\<lambda>i. p ! ((k + i) mod length p)) [0..<length p]"
    by (rule first_tries_rotation [OF assms(1-3) k]) (use assms(5) k in simp)
  also have "\<dots> = rotate k p" by (rule nth_equalityI) (simp_all add: nth_rotate)
  finally have "first_tries decode (Some a) model (length p) r = drop (k mod length p) p @ take (k mod length p) p"
    by (simp add: rotate_drop_take)
  moreover have "mset (drop i p @ take i p) = mset p" for i by (metis append_take_drop_id mset_append union_commute)
  ultimately show ?thesis by simp
qed

section \<open>Witnesses\<close>

definition no_decode :: "string \<Rightarrow> OAuthModelAlias list option" where
  "no_decode s = None"

definition no_keys :: routing_config where
  "no_keys = \<lparr>ro_GeminiKey = [], ro_InteractionsKey = [], ro_ClaudeKey = [], ro_CodexKey = [], ro_XAIKey = [],
     ro_VertexCompatAPIKey = [], ro_OpenAICompatibility = [], ro_OAuthRequestScopedErrors = []\<rparr>"

definition plain_entry :: "string \<Rightarrow> string \<Rightarrow> modelAliasEntry" where
  "plain_entry name alias = \<lparr>ma_Name = name, ma_Alias = alias, ma_ForceMapping = False\<rparr>"

definition pooled_auth :: Auth where
  "pooled_auth = (new_auth ''a'' ''openai-compatibility'')\<lparr>auth_Attributes := [(''api_key'', ''k''), (''compat_name'', ''c'')]\<rparr>"

definition pooled_routing :: model_routing where
  "pooled_routing = \<lparr>mo_oauth = [],
     mo_routing = \<lparr>rs_config = no_keys\<lparr>ro_OpenAICompatibility := [\<lparr>cp_Name = ''c'', cp_Disabled = False, cp_DisableCooling = None,
        cp_Models = [plain_entry ''x'' ''m'', plain_entry ''y'' ''m'', plain_entry ''z'' ''m''], cp_RequestScopedErrors = []\<rparr>]\<rparr>, rs_aliases = []\<rparr>,
     mo_offsets = []\<rparr>"

theorem pool_shares_requests_witness:
  "mset (first_tries no_decode (Some pooled_auth) ''m'' 3 pooled_routing) = mset [''x'', ''y'', ''z'']"
proof -
  have p: "pool_of no_decode pooled_routing pooled_auth ''m'' = [''x'', ''y'', ''z'']" by code_simp
  have h: "home_model (Some pooled_auth) = []" "rotation_of no_decode pooled_routing pooled_auth ''m'' = 0" by code_simp+
  show ?thesis using pool_shares_requests [OF h(1) p [symmetric]]
    by (simp add: h(2) max_pool_offset_def numeral_3_eq_3 del: first_tries.simps)
qed

text \<open>Two entries of which one is named as the other is aliased: an API-key credential runs the request with one model
  and reports it with the entry of the other.\<close>

lemma alias_named_as_model:
  "let auth = (new_auth ''a'' ''claude'')\<lparr>auth_Attributes := [(''api_key'', ''k'')]\<rparr>;
       cfg = no_keys\<lparr>ro_ClaudeKey := [\<lparr>kc_APIKey = ''k'', kc_BaseURL = [], kc_Prefix = [], kc_ProxyURL = [],
                kc_Models = [plain_entry ''x'' ''y'', plain_entry ''z'' ''x''], kc_RequestScopedErrors = []\<rparr>]\<rparr>;
       r = \<lparr>mo_oauth = [], mo_routing = \<lparr>rs_config = cfg, rs_aliases = rebuildAPIKeyModelAliasLocked cfg [(''a'', Some auth)]\<rparr>,
            mo_offsets = []\<rparr>
   in map (fst \<circ> fst) [executionModelCandidatesWithAlias no_decode (Some auth) ''x'' r] = [[''x'']] \<and>
      ar_UpstreamModel (snd (snd (fst (executionModelCandidatesWithAlias no_decode (Some auth) ''x'' r)))) = ''z''"
  by code_simp

end
