(* ===== verification/Request_Errors.thy ===== *)
theory Request_Errors
  imports Model_Alias
begin

text \<open>
  The errors an execution ends with. A Go \<open>error\<close> is what its chain of wrapped errors answers to the questions
  the conductor asks: its text, the \<open>*Error\<close> in it, the status of its first \<open>StatusCode()\<close>, and so on
  (\<open>conductor_cooldown.go\<close>). The rules of \<open>conductor_request_scoped_errors.go\<close> let the
  configuration say what an error means; regular expressions and the decoder of rules kept in metadata are arguments.
\<close>

section \<open>Errors\<close>

text \<open>\<open>xe_Lifecycle\<close> is a close frame with one of the three codes of an ended connection, \<open>xe_Interrupted\<close> a
  cancelled or expired context or the end of a stream.\<close>

record exec_error =
  xe_Text :: string
  xe_Error :: "AuthError option"
  xe_Status :: "int option"
  xe_Body :: string
  xe_RetryAfter :: "duration option"
  xe_RequestScoped :: bool
  xe_CredentialScoped :: bool
  xe_Stop :: bool
  xe_Terminated :: bool
  xe_Canceled :: bool
  xe_Lifecycle :: bool
  xe_Interrupted :: bool
  xe_HomeBusy :: bool

text \<open>A \<open>*Error\<close> as an \<open>error\<close>.\<close>

definition of_auth_error :: "AuthError \<Rightarrow> exec_error" where
  "of_auth_error e =
     \<lparr>xe_Text = error_text e, xe_Error = Some e, xe_Status = Some (err_HTTPStatus e), xe_Body = [], xe_RetryAfter = None,
      xe_RequestScoped = IsRequestScoped (Some e), xe_CredentialScoped = False, xe_Stop = False, xe_Terminated = False,
      xe_Canceled = False, xe_Lifecycle = False, xe_Interrupted = False, xe_HomeBusy = False\<rparr>"

text \<open>The error of a pick; the text of a cooldown error, which is formatted as JSON, is an argument.\<close>

definition of_sel_error :: "(string \<Rightarrow> string \<Rightarrow> duration \<Rightarrow> string) \<Rightarrow> sel_error \<Rightarrow> exec_error" where
  "of_sel_error cooldown_text err =
     (case err of
        AuthErr e \<Rightarrow> of_auth_error e
      | ModelCooldownErr model provider resetIn \<Rightarrow>
          (of_auth_error \<lparr>err_Code = [], err_Message = [], err_Retryable = False, err_HTTPStatus = 429\<rparr>)
            \<lparr>xe_Text := cooldown_text model provider resetIn, xe_Error := None\<rparr>)"

definition statusCodeFromError :: "exec_error \<Rightarrow> int" where
  "statusCodeFromError err = (case xe_Status err of None \<Rightarrow> 0 | Some code \<Rightarrow> code)"

definition exec_isConnectionLifecycleError :: "exec_error \<Rightarrow> bool" where
  "exec_isConnectionLifecycleError err \<longleftrightarrow>
     (if xe_Lifecycle err then True
      else if statusCodeFromError err \<noteq> 0 then False
      else if xe_Interrupted err then True
      else isConnectionLifecycleMessage (xe_Text err))"

definition isUnauthorizedError :: "exec_error \<Rightarrow> bool" where
  "isUnauthorizedError err \<longleftrightarrow>
     (if statusCodeFromError err = 401 then True
      else (let raw = to_lower (xe_Text err) in str_contains raw ''status 401'' \<or> str_contains raw ''401 unauthorized''))"

definition exec_isModelSupportError :: "exec_error \<Rightarrow> bool" where
  "exec_isModelSupportError err \<longleftrightarrow> statusCodeFromError err \<in> {400, 422} \<and> isModelSupportErrorMessage (xe_Text err)"

definition exec_isInvalidGrantError :: "exec_error \<Rightarrow> bool" where
  "exec_isInvalidGrantError err \<longleftrightarrow> statusCodeFromError err \<in> {400, 401} \<and> isInvalidGrantErrorMessage (xe_Text err)"

definition exec_isCloudflareChallengeError :: "exec_error \<Rightarrow> bool" where
  "exec_isCloudflareChallengeError err \<longleftrightarrow> isCloudflareChallengeErrorMessage (xe_Text err)"

definition exec_isRequestInvalidError :: "json_lib \<Rightarrow> exec_error \<Rightarrow> bool" where
  "exec_isRequestInvalidError lib err \<longleftrightarrow>
     (let status = statusCodeFromError err
      in if xe_RequestScoped err then True
         else if exec_isCloudflareChallengeError err then False
         else if exec_isInvalidGrantError err then False
         else if exec_isModelSupportError err then False
         else if IsRequestFault lib status (xe_Status err) (xe_Text err) then True
         else (case xe_Error err of
                 None \<Rightarrow> False
               | Some e \<Rightarrow> err_Message e \<noteq> [] \<and> IsRequestFault lib status None (err_Message e)))"

definition resultErrorFromError :: "json_lib \<Rightarrow> exec_error \<Rightarrow> AuthError" where
  "resultErrorFromError lib err =
     (let resultErr = (case xe_Error err of
            Some sourceErr \<Rightarrow> sourceErr
          | None \<Rightarrow> \<lparr>err_Code = [], err_Message = xe_Text err, err_Retryable = False, err_HTTPStatus = 0\<rparr>);
          resultErr = (if err_HTTPStatus resultErr = 0 then resultErr\<lparr>err_HTTPStatus := statusCodeFromError err\<rparr> else resultErr)
      in if xe_RequestScoped err \<or> exec_isRequestInvalidError lib err then resultErr\<lparr>err_Code := ''request_scoped''\<rparr>
         else if exec_isConnectionLifecycleError err then
           (if err_Code resultErr = [] \<or> err_Code resultErr = ''connection_lifecycle''
            then resultErr\<lparr>err_Code := ''connection_lifecycle''\<rparr> else resultErr)
         else resultErr)"

definition refreshErrorFromError :: "exec_error \<Rightarrow> AuthError" where
  "refreshErrorFromError err =
     (let statusCode = statusCodeFromError err;
          statusCode = (if statusCode = 0 \<and> isUnauthorizedError err then 401 else statusCode)
      in \<lparr>err_Code = (if statusCode = 401 then ''unauthorized'' else []), err_Message = xe_Text err,
          err_Retryable = False, err_HTTPStatus = statusCode\<rparr>)"

text \<open>\<open>isResponsesCompactRequestFaultError\<close> and \<open>isResponsesCompactAvailabilityNeutralError\<close>; \<open>alt\<close> is the
  field \<open>Alt\<close> of the options.\<close>

definition isResponsesCompactRequest :: "string \<Rightarrow> bool" where
  "isResponsesCompactRequest alt \<longleftrightarrow> alt = ''responses/compact''"

definition isResponsesCompactRequestFaultError :: "json_lib \<Rightarrow> string \<Rightarrow> exec_error \<Rightarrow> bool" where
  "isResponsesCompactRequestFaultError lib alt err \<longleftrightarrow>
     (if \<not> isResponsesCompactRequest alt then False
      else if xe_CredentialScoped err \<or> exec_isCloudflareChallengeError err \<or> exec_isInvalidGrantError err then False
      else
        (let status = statusCodeFromError err
         in if IsRequestFault lib status (xe_Status err) (xe_Text err) then True
            else status \<in> {400, 404, 405, 409, 413, 422, 501}))"

definition isResponsesCompactAvailabilityNeutralError :: "string \<Rightarrow> exec_error \<Rightarrow> AuthError option \<Rightarrow> bool" where
  "isResponsesCompactAvailabilityNeutralError alt err resultErr \<longleftrightarrow>
     (if \<not> isResponsesCompactRequest alt then False
      else if is_force_cooldown resultErr then False
      else if xe_CredentialScoped err \<or> exec_isCloudflareChallengeError err \<or> exec_isInvalidGrantError err then False
      else if isCloudflareChallengeResultError resultErr \<or> isInvalidGrantResultError resultErr then False
      else
        (let status = statusCodeFromError err;
             status = (if status = 0 \<and> resultErr \<noteq> None then statusCodeFromResult resultErr else status)
         in \<not> (status = 401 \<or> status = 402 \<or> status = 403 \<or> status = 429)))"

section \<open>Rules of the configuration\<close>

definition wrapRequestStopError :: "exec_error \<Rightarrow> exec_error" where
  "wrapRequestStopError err = err\<lparr>xe_Stop := True\<rparr>"

definition unwrapRequestStopError :: "exec_error \<Rightarrow> exec_error" where
  "unwrapRequestStopError err = err\<lparr>xe_Stop := False\<rparr>"

definition trim_prefix :: "string \<Rightarrow> string \<Rightarrow> string" where
  "trim_prefix s p = (if has_prefix s p then drop (length p) s else s)"

definition rules_index :: "Auth \<Rightarrow> nat option" where
  "rules_index a =
     (case map_of (auth_Attributes a) ''config_index'' of
        None \<Rightarrow> None
      | Some idxStr \<Rightarrow>
          (case go_parse_int (trim_space idxStr) of
             None \<Rightarrow> None
           | Some parsed \<Rightarrow> if parsed \<ge> 0 then Some (nat parsed) else None))"

definition indexed_rules :: "key_config list \<Rightarrow> nat option \<Rightarrow> error_rule list" where
  "indexed_rules configs index =
     (case index of
        Some i \<Rightarrow> if i < length configs then kc_RequestScopedErrors (configs ! i) else []
      | None \<Rightarrow> [])"

text \<open>The rules of a credential: those in its metadata, those of its OAuth channel, or those of its entry in the
  configuration.\<close>

definition configured_rules :: "routing_config \<Rightarrow> Auth \<Rightarrow> error_rule list" where
  "configured_rules cfg a =
     (let provider = to_lower (trim_space (auth_Provider a));
          index = rules_index a;
          providerKey = map_str (auth_Attributes a) ''provider_key'';
          compatName = map_str (auth_Attributes a) ''compat_name'';
          compatName = (if compatName \<noteq> [] then compatName
            else if has_prefix provider ''openai-compatible-'' then trim_prefix provider ''openai-compatible-''
            else if has_prefix provider ''openai-compatibility:'' then trim_prefix provider ''openai-compatibility:''
            else compatName);
          by_provider =
            (if provider = ''claude'' then indexed_rules (ro_ClaudeKey cfg) index
             else if provider = ''codex'' then indexed_rules (ro_CodexKey cfg) index
             else if provider = ''xai'' then indexed_rules (ro_XAIKey cfg) index
             else if provider = ''gemini'' then indexed_rules (ro_GeminiKey cfg) index
             else if provider = ''interactions'' \<or> provider = ''gemini-interactions'' then indexed_rules (ro_InteractionsKey cfg) index
             else [])
      in if compatName \<noteq> [] \<or> providerKey \<noteq> [] \<or> provider = ''openai-compatibility'' \<or>
            has_prefix provider ''openai-compatibility:'' \<or> has_prefix provider ''openai-compatible''
         then (case resolveOpenAICompatConfigForAuth (ro_OpenAICompatibility cfg) (Some a) providerKey compatName of
                 Some entry \<Rightarrow> cp_RequestScopedErrors entry
               | None \<Rightarrow> by_provider)
         else by_provider)"

definition extractRequestScopedErrorRules ::
  "((string \<times> go_any) list \<Rightarrow> error_rule list option) \<Rightarrow> routing_config \<Rightarrow> Auth \<Rightarrow> error_rule list" where
  "extractRequestScopedErrorRules stored cfg a =
     (case stored (auth_Metadata a) of
        Some (rule # rules) \<Rightarrow> rule # rules
      | _ \<Rightarrow>
          if AuthKind (Some a) = ''oauth'' then
            (case map_of (ro_OAuthRequestScopedErrors cfg) (to_lower (trim_space (auth_Provider a))) of
               None \<Rightarrow> []
             | Some rules \<Rightarrow> rules)
          else configured_rules cfg a)"

definition extractErrorBody :: "exec_error \<Rightarrow> string" where
  "extractErrorBody err =
     (if xe_Body err \<noteq> [] then xe_Body err
      else (case xe_Error err of
              Some e \<Rightarrow> if err_Message e \<noteq> [] then err_Message e else xe_Text err
            | None \<Rightarrow> xe_Text err))"

datatype rule_action = ActionStop | ActionStopAndCooldown | ActionContinue | ActionContinueAndCooldown

definition rule_action_of :: "string \<Rightarrow> rule_action option" where
  "rule_action_of raw =
     (let action = to_lower (trim_space raw)
      in if action = ''stop'' then Some ActionStop
         else if action = ''stop-and-cooldown'' then Some ActionStopAndCooldown
         else if action = ''continue'' then Some ActionContinue
         else if action = ''continue-and-cooldown'' then Some ActionContinueAndCooldown
         else None)"

definition rule_matches :: "(string \<Rightarrow> (string \<Rightarrow> bool) option) \<Rightarrow> int \<Rightarrow> string \<Rightarrow> error_rule \<Rightarrow> bool" where
  "rule_matches regexp statusCode body rule \<longleftrightarrow>
     \<not> (er_Status rule \<le> 0 \<or> er_Status rule \<noteq> statusCode) \<and>
     \<not> (er_Match rule = [] \<and> er_MatchRegexr rule = []) \<and>
     ((\<exists>substr\<in>set (er_Match rule). substr \<noteq> [] \<and> str_contains body substr) \<or>
      (\<exists>pattern\<in>set (er_MatchRegexr rule).
         pattern \<noteq> [] \<and> (case regexp pattern of None \<Rightarrow> False | Some matches \<Rightarrow> matches body)))"

definition matchRequestScopedErrorAction ::
  "(string \<Rightarrow> (string \<Rightarrow> bool) option) \<Rightarrow> ((string \<times> go_any) list \<Rightarrow> error_rule list option) \<Rightarrow> routing_config \<Rightarrow>
     Auth \<Rightarrow> exec_error \<Rightarrow> rule_action option" where
  "matchRequestScopedErrorAction regexp stored cfg a err =
     first_some (\<lambda>rule. if rule_matches regexp (statusCodeFromError err) (extractErrorBody err) rule
                      then rule_action_of (er_Action rule) else None)
       (extractRequestScopedErrorRules stored cfg a)"

definition applyRequestScopedActionToResult :: "rule_action option \<Rightarrow> exec_result \<Rightarrow> exec_result" where
  "applyRequestScopedActionToResult action result =
     (case (action, res_Error result) of
        (Some act, Some e) \<Rightarrow>
          (if act = ActionStop \<or> act = ActionContinue then result\<lparr>res_Error := Some (e\<lparr>err_Code := ''request_scoped''\<rparr>)\<rparr>
           else result\<lparr>res_Error := Some (e\<lparr>err_Code := ''force_cooldown''\<rparr>)\<rparr>)
      | _ \<Rightarrow> result)"

definition isRequestScopedStop :: "rule_action option \<Rightarrow> bool" where
  "isRequestScopedStop action \<longleftrightarrow> action = Some ActionStop \<or> action = Some ActionStopAndCooldown"

section \<open>Agreement with the errors of results\<close>

lemma status_of_auth_error [simp]: "statusCodeFromError (of_auth_error e) = err_HTTPStatus e"
  by (simp add: statusCodeFromError_def of_auth_error_def)

lemma invalid_of_auth_error: "exec_isRequestInvalidError lib (of_auth_error e) = isRequestInvalidError lib (Some e)"
  by (simp add: exec_isRequestInvalidError_def isRequestInvalidError_def exec_isCloudflareChallengeError_def
      exec_isInvalidGrantError_def exec_isModelSupportError_def isCloudflareChallengeError_def isInvalidGrantError_def
      isModelSupportError_def Let_def) (simp add: of_auth_error_def)

end
