(* ===== verification/Request_Retry.thy ===== *)
theory Request_Retry
  imports Request_Errors Credential_Manager
begin

text \<open>
  When a failed request is tried again: the retry rounds of \<open>sdk/cliproxy/auth/conductor_selection.go\<close>. A round
  excludes the credentials whose own limit is exhausted; another round is granted while some credential that could
  serve the request has rounds left and is available or will be. Each reading of the clock is an argument, and so
  is the random number of the jitter. The limits dictated by a Home dispatcher are left out.
\<close>

section \<open>Limits\<close>

record retry_settings =
  rt_requestRetry :: int
  rt_maxRetryCredentials :: int
  rt_maxRetryInterval :: duration

text \<open>The two counts are stored in 32 bits.\<close>

definition to_int32 :: "int \<Rightarrow> int" where
  "to_int32 n = (n + 2 ^ 31) mod 2 ^ 32 - 2 ^ 31"

definition SetRetryConfig :: "int \<Rightarrow> duration \<Rightarrow> int \<Rightarrow> retry_settings" where
  "SetRetryConfig retry maxRetryInterval maxRetryCredentials =
     \<lparr>rt_requestRetry = to_int32 (if retry < 0 then 0 else retry),
      rt_maxRetryCredentials = to_int32 (if maxRetryCredentials < 0 then 0 else maxRetryCredentials),
      rt_maxRetryInterval = (if maxRetryInterval < 0 then 0 else maxRetryInterval)\<rparr>"

definition effectiveRequestRetryLimit :: "Auth option \<Rightarrow> int \<Rightarrow> int" where
  "effectiveRequestRetryLimit auth defaultRetry =
     (let defaultRetry = (if defaultRetry < 0 then 0 else defaultRetry)
      in case RequestRetryOverride auth of Some override \<Rightarrow> override | None \<Rightarrow> defaultRetry)"

definition requestRetryRoundExclusions :: "int \<Rightarrow> int \<Rightarrow> auths \<Rightarrow> string list" where
  "requestRetryRoundExclusions retryRound defaultRequestRetry auths =
     (if retryRound \<le> 0 then []
      else concat (map (\<lambda>(_, auth). case auth of
             None \<Rightarrow> []
           | Some a \<Rightarrow>
               if trim_space (auth_ID a) = [] then []
               else if effectiveRequestRetryLimit auth (if defaultRequestRetry < 0 then 0 else defaultRequestRetry) < retryRound
               then [auth_ID a] else []) auths))"

section \<open>Availability for another round\<close>

definition isCredentialRetryRoundStatus :: "int \<Rightarrow> bool" where
  "isCredentialRetryRoundStatus status \<longleftrightarrow> status \<in> {403, 408, 429, 500, 502, 503, 504}"

definition credentialRetryRoundStateEligible :: "AuthError option \<Rightarrow> bool \<Rightarrow> bool" where
  "credentialRetryRoundStateEligible lastErr quotaExceeded =
     (if lastErr = None then quotaExceeded else isCredentialRetryRoundStatus (statusCodeFromResult lastErr))"

text \<open>The loop over the model states: it gives up (\<open>None\<close>), or says whether a blocked state of the model was met.\<close>

fun round_states :: "string \<Rightarrow> gotime \<Rightarrow> bool \<Rightarrow> states \<Rightarrow> bool option" where
  "round_states modelKey now matchedBlocked [] = Some matchedBlocked"
| "round_states modelKey now matchedBlocked ((stateModel, state) # ms) =
     (case state of
        None \<Rightarrow> round_states modelKey now matchedBlocked ms
      | Some st \<Rightarrow>
          if canonicalModelKey stateModel \<noteq> modelKey then round_states modelKey now matchedBlocked ms
          else if ms_Status st = StatusDisabled then None
          else (case availabilityBlock (ms_Unavailable st) (quota_Exceeded (ms_Quota st)) (ms_NextRetryAfter st)
                       (quota_NextRecoverAt (ms_Quota st)) now of
                  (stateBlocked, _, stateNext) \<Rightarrow>
                    if \<not> stateBlocked then round_states modelKey now matchedBlocked ms
                    else if stateNext = zero_time \<or>
                      \<not> credentialRetryRoundStateEligible (ms_LastError st) (quota_Exceeded (ms_Quota st)) then None
                    else round_states modelKey now True ms))"

definition retryRoundAvailabilityForAuth :: "Auth option \<Rightarrow> string \<Rightarrow> gotime \<Rightarrow> bool \<times> gotime" where
  "retryRoundAvailabilityForAuth auth model now =
     (case isAuthBlockedForModel auth model now of
        (blocked, reason, next_ts) \<Rightarrow>
          (case auth of
             None \<Rightarrow> if \<not> blocked then (True, zero_time) else (False, zero_time)
           | Some a \<Rightarrow>
               if \<not> blocked then (True, zero_time)
               else if next_ts = zero_time \<or> reason = blockReasonDisabled then (False, zero_time)
               else if quota_Exceeded (auth_Quota a) \<and> quota_Reason (auth_Quota a) = ''credential_quota'' \<and>
                 time_after (quota_NextRecoverAt (auth_Quota a)) now
               then (credentialRetryRoundStateEligible (auth_LastError a) True, next_ts)
               else
                 (let modelKey = canonicalModelKey model;
                      whole = (if \<not> credentialRetryRoundStateEligible (auth_LastError a) (quota_Exceeded (auth_Quota a))
                               then (False, zero_time) else (True, next_ts))
                  in if modelKey \<noteq> [] \<and> auth_ModelStates a \<noteq> [] then
                       (case round_states modelKey now False (auth_ModelStates a) of
                          None \<Rightarrow> (False, zero_time)
                        | Some True \<Rightarrow> (True, next_ts)
                        | Some False \<Rightarrow> whole)
                     else whole)))"

section \<open>Granting another round\<close>

definition authSupportsRouteModel ::
  "(string \<Rightarrow> OAuthModelAlias list option) \<Rightarrow> model_routing \<Rightarrow> model_registry \<Rightarrow> Auth \<Rightarrow> string \<Rightarrow> bool" where
  "authSupportsRouteModel decode r registry a routeModel \<longleftrightarrow>
     (let routeKey = canonicalModelKey routeModel;
          selectionKey = selectionModelKeyForAuth decode r (Some a) routeModel
      in if routeKey = [] then True
         else if ClientSupportsModel (auth_ID a) routeKey registry then True
         else selectionKey \<noteq> [] \<and> selectionKey \<noteq> routeKey \<and> ClientSupportsModel (auth_ID a) selectionKey registry)"

text \<open>What both loops ask of a credential before they look at its cooldowns.\<close>

record retry_request =
  rq_providers :: "string list"
  rq_model :: string
  rq_attempt :: int
  rq_eligibility :: authSelectionEligibility
  rq_pinned :: string
  rq_defaultRetry :: int

definition provider_set :: "string list \<Rightarrow> string list" where
  "provider_set providers = filter (\<lambda>key. key \<noteq> []) (map (\<lambda>p. trim_space (to_lower p)) providers)"

definition retry_candidate ::
  "(string \<Rightarrow> OAuthModelAlias list option) \<Rightarrow> model_routing \<Rightarrow> model_registry \<Rightarrow> retry_request \<Rightarrow> Auth \<Rightarrow> bool" where
  "retry_candidate decode r registry q a \<longleftrightarrow>
     \<not> (auth_Disabled a \<or> auth_Status a = StatusDisabled) \<and>
     \<not> (rq_pinned q \<noteq> [] \<and> auth_ID a \<noteq> rq_pinned q) \<and>
     allows (rq_eligibility q) (Some a) \<and>
     executorKeyFromAuth (Some a) \<in> set (provider_set (rq_providers q)) \<and>
     \<not> (rq_model q \<noteq> [] \<and> \<not> authSupportsRouteModel decode r registry a (rq_model q)) \<and>
     rq_attempt q < effectiveRequestRetryLimit (Some a) (rq_defaultRetry q)"

definition retry_model ::
  "(string \<Rightarrow> OAuthModelAlias list option) \<Rightarrow> model_routing \<Rightarrow> string \<Rightarrow> Auth \<Rightarrow> string" where
  "retry_model decode r model a =
     (if trim_space model \<noteq> [] then selectionModelForAuth decode r (Some a) model else model)"

fun closest_loop ::
  "(string \<Rightarrow> OAuthModelAlias list option) \<Rightarrow> model_routing \<Rightarrow> model_registry \<Rightarrow> retry_request \<Rightarrow> gotime \<Rightarrow> duration option \<Rightarrow>
     auths \<Rightarrow> duration \<times> bool" where
  "closest_loop decode r registry q now best [] = (case best of None \<Rightarrow> (0, False) | Some minWait \<Rightarrow> (minWait, True))"
| "closest_loop decode r registry q now best ((_, auth) # auths) =
     (case auth of
        None \<Rightarrow> closest_loop decode r registry q now best auths
      | Some a \<Rightarrow>
          if \<not> retry_candidate decode r registry q a then closest_loop decode r registry q now best auths
          else (case retryRoundAvailabilityForAuth auth (retry_model decode r (rq_model q) a) now of
                  (retryEligible, next_ts) \<Rightarrow>
                    if \<not> retryEligible then closest_loop decode r registry q now best auths
                    else if next_ts = zero_time then (0, True)
                    else
                      (let wait = time_sub next_ts now
                       in if wait < 0 then closest_loop decode r registry q now best auths
                          else closest_loop decode r registry q now
                                 (case best of
                                    None \<Rightarrow> Some wait
                                  | Some minWait \<Rightarrow> if wait < minWait then Some wait else Some minWait) auths)))"

definition closestCooldownWait ::
  "(string \<Rightarrow> OAuthModelAlias list option) \<Rightarrow> model_routing \<Rightarrow> retry_request \<Rightarrow> gotime \<Rightarrow> manager \<Rightarrow> duration \<times> bool" where
  "closestCooldownWait decode r q now m =
     (if rq_providers q = [] then (0, False)
      else closest_loop decode r (mg_registry m) q now None (mg_auths m))"

definition retryAllowed ::
  "(string \<Rightarrow> OAuthModelAlias list option) \<Rightarrow> model_routing \<Rightarrow> retry_request \<Rightarrow> gotime \<Rightarrow> manager \<Rightarrow> bool" where
  "retryAllowed decode r q now m \<longleftrightarrow>
     (if rq_attempt q < 0 \<or> rq_providers q = [] then False
      else if provider_set (rq_providers q) = [] then False
      else (\<exists>(_, auth)\<in>set (mg_auths m). case auth of
              None \<Rightarrow> False
            | Some a \<Rightarrow> retry_candidate decode r (mg_registry m) q a \<and>
                fst (retryRoundAvailabilityForAuth auth (retry_model decode r (rq_model q) a) now)))"

text \<open>A wait within the limit; no limit means no waiting.\<close>

definition wait_allowed :: "duration \<Rightarrow> duration \<Rightarrow> bool" where
  "wait_allowed wait maxWait \<longleftrightarrow> \<not> (wait > 0 \<and> (maxWait \<le> 0 \<or> wait > maxWait))"

definition shouldRetryAfterErrorWithHomeRetryLimit ::
  "json_lib \<Rightarrow> (string \<Rightarrow> OAuthModelAlias list option) \<Rightarrow> model_routing \<Rightarrow> exec_error \<Rightarrow> retry_request \<Rightarrow> duration \<Rightarrow>
     gotime \<Rightarrow> gotime \<Rightarrow> manager \<Rightarrow> duration \<times> bool" where
  "shouldRetryAfterErrorWithHomeRetryLimit lib decode r err q maxWait now1 now2 m =
     (let status = statusCodeFromError err
      in if xe_HomeBusy err then (0, False)
         else if status = 200 then (0, False)
         else if exec_isRequestInvalidError lib err \<or> xe_Stop err then (0, False)
         else if \<not> isCredentialRetryRoundStatus status \<or> \<not> retryAllowed decode r q now1 m then (0, False)
         else (case closestCooldownWait decode r q now2 m of
                 (wait, True) \<Rightarrow> if wait_allowed wait maxWait then (wait, True) else (0, False)
               | (_, False) \<Rightarrow>
                   (case xe_RetryAfter err of
                      Some retryAfter \<Rightarrow>
                        if retryAfter < 0 \<or> \<not> wait_allowed retryAfter maxWait then (0, False) else (retryAfter, True)
                    | None \<Rightarrow> (0, True))))"

text \<open>\<open>random\<close> is \<open>rand.N\<close>, which returns a number below its argument.\<close>

definition jitteredCooldownWait :: "(int \<Rightarrow> int) \<Rightarrow> duration \<Rightarrow> duration \<Rightarrow> duration" where
  "jitteredCooldownWait random wait maxWait =
     (if wait \<le> 0 then wait
      else
        (let jitterRange = wait div 4;
             jitterRange = (if jitterRange > 2 * second_ns then 2 * second_ns else jitterRange);
             jitterRange = (if maxWait > 0 \<and> jitterRange > maxWait - wait then maxWait - wait else jitterRange)
         in if jitterRange \<le> 0 then wait else wait + random jitterRange))"

section \<open>Providers of the manager\<close>

text \<open>The keys that are not empty, each at its first occurrence.\<close>

fun first_keys :: "string list \<Rightarrow> string list \<Rightarrow> string list" where
  "first_keys seen [] = []"
| "first_keys seen (key # keys) =
     (if key = [] \<or> key \<in> set seen then first_keys seen keys else key # first_keys (key # seen) keys)"

definition normalizeProviders :: "string list \<Rightarrow> string list" where
  "normalizeProviders providers = first_keys [] (map (\<lambda>p. trim_space (to_lower p)) providers)"

definition enabled_providers :: "auths \<Rightarrow> string list" where
  "enabled_providers auths =
     concat (map (\<lambda>(_, auth). case auth of
         None \<Rightarrow> []
       | Some a \<Rightarrow> if auth_Disabled a \<or> auth_Status a = StatusDisabled then [] else [to_lower (trim_space (auth_Provider a))]) auths)"

definition AvailableProviders :: "manager \<Rightarrow> string list" where
  "AvailableProviders m = sort (first_keys [] (enabled_providers (mg_auths m)))"

definition HasProviderAuth :: "string \<Rightarrow> manager \<Rightarrow> bool" where
  "HasProviderAuth provider0 m \<longleftrightarrow>
     (let provider = to_lower (trim_space provider0) in provider \<noteq> [] \<and> provider \<in> set (enabled_providers (mg_auths m)))"

end
