(* ===== verification/Credential_Refresh.thy ===== *)
theory Credential_Refresh
  imports Request_Retry
begin

text \<open>
  What surrounds a call of a provider: preparing the credential before it, \<open>prepareRequestAuth\<close> of
  \<open>sdk/cliproxy/auth/conductor_execution.go\<close>, and refreshing its tokens after an answer 401,
  \<open>conductor_refresh.go\<close>. The executor of a provider is an implementation of an interface of the SDK; it, the
  clock, the context, the plugins and the random numbers are the functions of the record \<open>outside\<close>, over a state
  \<open>'w\<close> of the outside world that they read and change. The timers of the background refresh are left out.
\<close>

section \<open>The outside world\<close>

text \<open>A request and the options read here; the rest of both is passed on unread.\<close>

record exec_request =
  xq_Model :: string
  xq_Payload :: string

record exec_options =
  xo_Alt :: string
  xo_Headers :: header
  xo_OriginalRequest :: string
  xo_Metadata :: "(string \<times> go_any) list"

text \<open>
  \<open>ou_tick\<close> reads the clock; \<open>ou_ctx\<close> is the error of the request's context, once it has one; \<open>ou_wait\<close> is a timer
  that the context may cut short; \<open>ou_headers\<close> are the response headers collected last. The flag of
  \<open>ou_execute\<close> marks a call paid with credits. \<open>ou_credits\<close> is the stored hint whether a credential has credits, if
  it is known. \<open>ou_rewrite\<close> replaces the model name in a response.
\<close>

record ('w, 'r) outside =
  ou_tick :: "'w \<Rightarrow> gotime \<times> 'w"
  ou_ctx :: "'w \<Rightarrow> exec_error option"
  ou_wait :: "duration \<Rightarrow> 'w \<Rightarrow> exec_error option \<times> 'w"
  ou_random :: "int \<Rightarrow> 'w \<Rightarrow> int \<times> 'w"
  ou_headers :: "'w \<Rightarrow> header"
  ou_execute :: "string \<Rightarrow> bool \<Rightarrow> Auth \<Rightarrow> exec_request \<Rightarrow> exec_options \<Rightarrow> 'w \<Rightarrow> (exec_error + 'r) \<times> 'w"
  ou_should_prepare :: "string \<Rightarrow> Auth \<Rightarrow> bool"
  ou_prepare :: "string \<Rightarrow> Auth \<Rightarrow> 'w \<Rightarrow> (exec_error + Auth option) \<times> 'w"
  ou_refresh :: "string \<Rightarrow> Auth \<Rightarrow> 'w \<Rightarrow> (exec_error + Auth option) \<times> 'w"
  ou_intercept :: "string \<Rightarrow> exec_request \<Rightarrow> exec_options \<Rightarrow> 'w \<Rightarrow> (exec_error + exec_request \<times> exec_options) \<times> 'w"
  ou_credits :: "string \<Rightarrow> 'w \<Rightarrow> bool option"
  ou_rewrite :: "string \<Rightarrow> 'r \<Rightarrow> 'r"

text \<open>What does not change during a request: the environment of the manager, decoders, regular expressions, texts
  of errors, and the readers of token times that the background refresh uses.\<close>

record exec_env =
  xn_manager :: manager_env
  xn_decode :: "string \<Rightarrow> OAuthModelAlias list option"
  xn_stored_rules :: "(string \<times> go_any) list \<Rightarrow> error_rule list option"
  xn_regexp :: "string \<Rightarrow> (string \<Rightarrow> bool) option"
  xn_cooldown_text :: "string \<Rightarrow> string \<Rightarrow> duration \<Rightarrow> string"
  xn_weight_error :: "weight_source_error \<Rightarrow> exec_error"
  xn_evaluator :: "Auth \<Rightarrow> (gotime \<Rightarrow> bool) option"
  xn_lastRefresh :: "Auth \<Rightarrow> gotime option"
  xn_expiry :: "Auth \<Rightarrow> gotime option"
  xn_interval :: "Auth \<Rightarrow> duration"
  xn_lead :: "string \<Rightarrow> Auth \<Rightarrow> duration option"

abbreviation xn_json :: "exec_env \<Rightarrow> json_lib" where
  "xn_json env \<equiv> env_json (xn_manager env)"

text \<open>The built-in selectors.\<close>

datatype builtin_selector =
    RoundRobin RoundRobinSelector
  | WeightedRoundRobin WeightedRoundRobinSelector
  | FillFirst

text \<open>The conductor during a request.\<close>

record 'w conductor =
  cn_manager :: manager
  cn_models :: model_routing
  cn_selector :: builtin_selector
  cn_executors :: "string list"
  cn_retry :: retry_settings
  cn_config :: routing_config
  cn_antigravityCredits :: bool
  cn_world :: 'w

definition tick :: "('w, 'r) outside \<Rightarrow> 'w conductor \<Rightarrow> gotime \<times> 'w conductor" where
  "tick o' c = (case ou_tick o' (cn_world c) of (t, w) \<Rightarrow> (t, c\<lparr>cn_world := w\<rparr>))"

definition updating ::
  "exec_env \<Rightarrow> ('w, 'r) outside \<Rightarrow> Auth \<Rightarrow> 'w conductor \<Rightarrow> (weight_source_error + Auth option) \<times> 'w conductor" where
  "updating env o' a c =
     (case tick o' c of (now, c) \<Rightarrow>
      case tick o' c of (ts, c) \<Rightarrow>
      case Update (xn_manager env) now ts (Some a) (cn_manager c) of (r, m) \<Rightarrow> (r, c\<lparr>cn_manager := m\<rparr>))"

section \<open>Preparing a credential\<close>

text \<open>\<open>prepareRequestAuth\<close> by the executor of a provider; the credentials of a manager have an ID, so the branch
  for one without is left out, and so is the lock. On an error the returned credential is the one given or the
  prepared one.\<close>

definition prepareRequestAuth ::
  "exec_env \<Rightarrow> ('w, 'r) outside \<Rightarrow> string \<Rightarrow> Auth \<Rightarrow> 'w conductor \<Rightarrow> (Auth \<times> exec_error option) \<times> 'w conductor" where
  "prepareRequestAuth env o' provider auth c =
     (if \<not> ou_should_prepare o' provider auth then ((auth, None), c)
      else
        (let target = (case map_of (mg_auths (cn_manager c)) (trim_space (auth_ID auth)) of Some (Some current) \<Rightarrow> current | _ \<Rightarrow> auth)
         in if \<not> ou_should_prepare o' provider target then ((target, None), c)
            else
              (case ou_prepare o' provider target (cn_world c) of
                 (Inl err, w) \<Rightarrow> ((auth, Some err), c\<lparr>cn_world := w\<rparr>)
               | (Inr None, w) \<Rightarrow> ((target, None), c\<lparr>cn_world := w\<rparr>)
               | (Inr (Some updated), w) \<Rightarrow>
                   (case updating env o' updated (c\<lparr>cn_world := w\<rparr>) of
                      (Inl err, c) \<Rightarrow> ((updated, Some (xn_weight_error env err)), c)
                    | (Inr None, c) \<Rightarrow> ((updated, None), c)
                    | (Inr (Some saved), c) \<Rightarrow> ((saved, None), c)))))"

section \<open>Refreshing tokens\<close>

definition authAccessToken :: "Auth \<Rightarrow> string" where
  "authAccessToken a =
     (let token = authMetadataString (Some a) ''access_token''
      in if token \<noteq> [] then token else authMetadataString (Some a) ''accessToken'')"

definition authHasRefreshCredential :: "Auth \<Rightarrow> bool" where
  "authHasRefreshCredential a \<longleftrightarrow>
     authMetadataString (Some a) ''refresh_token'' \<noteq> [] \<or> authMetadataString (Some a) ''refreshToken'' \<noteq> []"

definition is_unauthorized :: "AuthError \<Rightarrow> bool" where
  "is_unauthorized e \<longleftrightarrow> err_HTTPStatus e = 401 \<or> equal_fold (err_Code e) ''unauthorized''"

definition hasUnauthorizedAuthFailure :: "Auth \<Rightarrow> bool" where
  "hasUnauthorizedAuthFailure a \<longleftrightarrow> (case auth_LastError a of None \<Rightarrow> False | Some e \<Rightarrow> is_unauthorized e)"

definition unauthorized_state :: "ModelState option \<Rightarrow> bool" where
  "unauthorized_state state \<longleftrightarrow>
     (case state of None \<Rightarrow> False | Some st \<Rightarrow> (case ms_LastError st of None \<Rightarrow> False | Some e \<Rightarrow> is_unauthorized e))"

definition clearUnauthorizedModelStates :: "gotime \<Rightarrow> Auth \<Rightarrow> Auth \<times> string list" where
  "clearUnauthorizedModelStates now a =
     (let resumed = map fst (filter (\<lambda>(_, state). unauthorized_state state) (auth_ModelStates a));
          a' = a\<lparr>auth_ModelStates := map (\<lambda>(k, state).
                 (k, if unauthorized_state state then map_option (resetModelState now) state else state)) (auth_ModelStates a)\<rparr>
      in (if resumed \<noteq> [] then updateAggregatedAvailability now a' else a', resumed))"

text \<open>Whether the tokens should be refreshed at \<open>now\<close>; \<open>until\<close> is a second reading of the clock.\<close>

definition shouldRefresh :: "exec_env \<Rightarrow> Auth \<Rightarrow> gotime \<Rightarrow> gotime \<Rightarrow> bool" where
  "shouldRefresh env a now until =
     (if hasUnauthorizedAuthFailure a then False
      else if auth_NextRefreshAfter a \<noteq> zero_time \<and> time_before now (auth_NextRefreshAfter a) then False
      else (case xn_evaluator env a of
              Some evaluate \<Rightarrow> evaluate now
            | None \<Rightarrow>
                (let lastRefresh = (if auth_LastRefreshedAt a = zero_time
                       then (case xn_lastRefresh env a of Some ts \<Rightarrow> ts | None \<Rightarrow> zero_time) else auth_LastRefreshedAt a);
                     expiry = (case xn_expiry env a of None \<Rightarrow> zero_time | Some t \<Rightarrow> t);
                     interval = xn_interval env a
                 in if interval > 0 then
                      (if expiry \<noteq> zero_time \<and> \<not> time_after expiry now then True
                       else if expiry \<noteq> zero_time \<and> time_sub expiry now \<le> interval then True
                       else if lastRefresh = zero_time then True
                       else time_sub now lastRefresh \<ge> interval)
                    else
                      (case xn_lead env (to_lower (auth_Provider a)) a of
                         None \<Rightarrow> False
                       | Some lead \<Rightarrow>
                           if lead \<le> 0 then expiry \<noteq> zero_time \<and> time_after now expiry
                           else if expiry \<noteq> zero_time then time_sub expiry until \<le> lead
                           else if lastRefresh \<noteq> zero_time then time_sub now lastRefresh \<ge> lead
                           else True))))"

text \<open>A failed refresh marks the credential and tells the scheduler.\<close>

definition refresh_failed :: "exec_error \<Rightarrow> gotime \<Rightarrow> Auth \<Rightarrow> Auth" where
  "refresh_failed err now a =
     (let a = a\<lparr>auth_LastError := Some (refreshErrorFromError err)\<rparr>
      in if isUnauthorizedError err
         then a\<lparr>auth_NextRefreshAfter := zero_time, auth_Unavailable := True, auth_Status := StatusError, auth_StatusMessage := ''unauthorized''\<rparr>
         else a\<lparr>auth_NextRefreshAfter := now + 5 * minute_ns\<rparr>)"

definition refresh_done :: "exec_env \<Rightarrow> gotime \<Rightarrow> gotime \<Rightarrow> Auth \<Rightarrow> Auth \<times> string list" where
  "refresh_done env now until a0 =
     (let a = a0\<lparr>auth_LastRefreshedAt := now, auth_NextRefreshAfter := zero_time, auth_LastError := None, auth_StatusMessage := [],
            auth_Unavailable := False, auth_Status := (if auth_Status a0 = StatusError then StatusActive else auth_Status a0),
            auth_UpdatedAt := now\<rparr>
      in case clearUnauthorizedModelStates now a of
           (a, modelsToResume) \<Rightarrow>
             (if shouldRefresh env a now until then a\<lparr>auth_NextRefreshAfter := now + 30 * second_ns\<rparr> else a, modelsToResume))"

definition resuming :: "('w, 'r) outside \<Rightarrow> string \<Rightarrow> string list \<Rightarrow> 'w conductor \<Rightarrow> 'w conductor" where
  "resuming o' i models c =
     fold (\<lambda>model c. case tick o' c of (now, c) \<Rightarrow>
         c\<lparr>cn_manager := (cn_manager c)\<lparr>mg_registry := Model_Registry.ResumeClientModel now i model (mg_registry (cn_manager c))\<rparr>\<rparr>)
       models c"

definition note_refresh_failure :: "('w, 'r) outside \<Rightarrow> string \<Rightarrow> exec_error \<Rightarrow> Auth \<Rightarrow> 'w conductor \<Rightarrow> 'w conductor" where
  "note_refresh_failure o' i err auth c =
     (case tick o' c of (now, c) \<Rightarrow>
      case tick o' c of (ts, c) \<Rightarrow>
        (let current = refresh_failed err now auth; m = cn_manager c
         in c\<lparr>cn_manager := schedule current ts (m\<lparr>mg_auths := map_put i (Some current) (mg_auths m)\<rparr>)\<rparr>))"

definition refreshAuthForRequest ::
  "exec_env \<Rightarrow> ('w, 'r) outside \<Rightarrow> string \<Rightarrow> string \<Rightarrow> 'w conductor \<Rightarrow> Auth option \<times> 'w conductor" where
  "refreshAuthForRequest env o' id0 failedAccessToken c =
     (let i = trim_space id0
      in if i = [] then (None, c)
         else case map_of (mg_auths (cn_manager c)) i of
           Some (Some auth) \<Rightarrow>
             (let key = executorKeyFromAuth (Some auth); currentToken = authAccessToken auth
              in if key \<notin> set (cn_executors c) then (None, c)
                 else if failedAccessToken \<noteq> [] \<and> currentToken \<noteq> [] \<and> currentToken \<noteq> failedAccessToken then (Some auth, c)
                 else (case ou_refresh o' key auth (cn_world c) of
                   (Inl err, w) \<Rightarrow>
                     (None, if xe_Canceled err then c\<lparr>cn_world := w\<rparr> else note_refresh_failure o' i err auth (c\<lparr>cn_world := w\<rparr>))
                 | (Inr updated, w) \<Rightarrow>
                     (case tick o' (c\<lparr>cn_world := w\<rparr>) of (now, c) \<Rightarrow>
                      case tick o' c of (until, c) \<Rightarrow>
                      case refresh_done env now until (case updated of None \<Rightarrow> auth | Some u \<Rightarrow> u) of (a, modelsToResume) \<Rightarrow>
                      case updating env o' a c of (r, c) \<Rightarrow>
                        (Some (case r of Inr (Some saved) \<Rightarrow> saved | _ \<Rightarrow> a), resuming o' i modelsToResume c))))
         | _ \<Rightarrow> (None, c))"

definition tryRefreshAfterUnauthorized ::
  "exec_env \<Rightarrow> ('w, 'r) outside \<Rightarrow> Auth \<Rightarrow> exec_error \<Rightarrow> bool \<Rightarrow> 'w conductor \<Rightarrow> (Auth \<times> bool) \<times> 'w conductor" where
  "tryRefreshAfterUnauthorized env o' auth execErr alreadyTried c =
     (if alreadyTried then ((auth, False), c)
      else if xe_RequestScoped execErr then ((auth, False), c)
      else if \<not> isUnauthorizedError execErr \<or> \<not> authHasRefreshCredential auth then ((auth, False), c)
      else (case refreshAuthForRequest env o' (auth_ID auth) (authAccessToken auth) c of
              (None, c) \<Rightarrow> ((auth, False), c)
            | (Some refreshed, c) \<Rightarrow> ((refreshed, True), c)))"

end
