(* ===== verification/Route_Selection.thy ===== *)
theory Route_Selection
  imports Credential_Refresh Mixed_Picks Selectors
begin

text \<open>
  The choice of a credential for a request, \<open>pickNextMixed\<close>, \<open>pickNext\<close> and their slower variants in
  \<open>sdk/cliproxy/auth/conductor_selection.go\<close>: the scheduler picks, unless some credential would run the request
  under another model name than the one asked for; then the candidates are taken from the manager's map and the
  selector chooses. Modelled for the built-in selectors and without a plugin that schedules and without a Home
  dispatcher, for which the code takes other branches. Log output is left out.
\<close>

section \<open>Candidates of a route\<close>

text \<open>The part of the model's name that is compared, without its thinking suffix.\<close>

definition route_model_key :: "string \<Rightarrow> string" where
  "route_model_key model =
     (let modelKey = trim_space model; parsed = ParseSuffix modelKey
      in if modelKey \<noteq> [] \<and> suf_ModelName parsed \<noteq> [] then trim_space (suf_ModelName parsed) else modelKey)"

text \<open>\<open>routeAwareSelectionRequired\<close>.\<close>

definition routeAwareSelectionRequired ::
  "(string \<Rightarrow> OAuthModelAlias list option) \<Rightarrow> model_routing \<Rightarrow> Auth \<Rightarrow> string \<Rightarrow> bool" where
  "routeAwareSelectionRequired decode r a routeModel \<longleftrightarrow>
     trim_space routeModel \<noteq> [] \<and> selectionModelKeyForAuth decode r (Some a) routeModel \<noteq> canonicalModelKey routeModel"

text \<open>The candidates of a pick from the map; \<open>accepts\<close> is the test of the provider.\<close>

definition route_candidate ::
  "exec_env \<Rightarrow> (string \<Rightarrow> bool) \<Rightarrow> string \<Rightarrow> authSelectionEligibility \<Rightarrow> string \<Rightarrow> string list \<Rightarrow> 'w conductor \<Rightarrow> Auth \<Rightarrow> bool" where
  "route_candidate env accepts model eligibility pinnedAuthID tried c a \<longleftrightarrow>
     \<not> auth_Disabled a \<and>
     \<not> (pinnedAuthID \<noteq> [] \<and> auth_ID a \<noteq> pinnedAuthID) \<and>
     allows eligibility (Some a) \<and>
     accepts (executorKeyFromAuth (Some a)) \<and>
     auth_ID a \<notin> set tried \<and>
     \<not> (route_model_key model \<noteq> [] \<and>
        \<not> authSupportsRouteModel (xn_decode env) (cn_models c) (mg_registry (cn_manager c)) a model)"

definition route_candidates ::
  "exec_env \<Rightarrow> (string \<Rightarrow> bool) \<Rightarrow> string \<Rightarrow> authSelectionEligibility \<Rightarrow> string \<Rightarrow> string list \<Rightarrow> 'w conductor \<Rightarrow> Auth list" where
  "route_candidates env accepts model eligibility pinnedAuthID tried c =
     concat (map (\<lambda>(_, auth). case auth of
         None \<Rightarrow> []
       | Some a \<Rightarrow> if route_candidate env accepts model eligibility pinnedAuthID tried c a then [a] else [])
       (mg_auths (cn_manager c)))"

text \<open>The loop of \<open>availableAuthsForRouteModelWithPriorityMode\<close>: each candidate is asked about the model it would
  run.\<close>

fun route_collect ::
  "(Auth \<Rightarrow> string) \<Rightarrow> gotime \<Rightarrow> Auth list \<Rightarrow> (int \<times> Auth list) list \<Rightarrow> nat \<Rightarrow> gotime \<Rightarrow> (int \<times> Auth list) list \<times> nat \<times> gotime" where
  "route_collect check now [] available cooldownCount earliest = (available, cooldownCount, earliest)"
| "route_collect check now (a # auths) available cooldownCount earliest =
     (case isAuthBlockedForModel (Some a) (check a) now of
        (blocked, reason, next_ts) \<Rightarrow>
          if \<not> blocked then route_collect check now auths (bucket_append (authPriority (Some a)) a available) cooldownCount earliest
          else if reason = blockReasonCooldown then
            route_collect check now auths available (Suc cooldownCount)
              (if next_ts \<noteq> zero_time \<and> (earliest = zero_time \<or> time_before next_ts earliest) then next_ts else earliest)
          else route_collect check now auths available cooldownCount earliest)"

definition availableAuthsForRouteModelWithPriorityMode ::
  "(Auth \<Rightarrow> string) \<Rightarrow> Auth list \<Rightarrow> string \<Rightarrow> string \<Rightarrow> gotime \<Rightarrow> bool \<Rightarrow> sel_error + Auth list" where
  "availableAuthsForRouteModelWithPriorityMode check auths provider routeModel now allPriorities =
     (if auths = [] then Inl (auth_error ''auth_not_found'' ''no auth candidates'')
      else
        (case route_collect check now auths [] 0 zero_time of
           (availableByPriority, cooldownCount, earliest) \<Rightarrow>
             if availableByPriority = [] then
               (if cooldownCount = length auths \<and> earliest \<noteq> zero_time then
                  (let resetIn = time_sub earliest now
                   in Inl (newModelCooldownError routeModel (if provider = ''mixed'' then [] else provider)
                        (if resetIn < 0 then 0 else resetIn)))
                else Inl (auth_error ''auth_unavailable'' ''no auth available''))
             else Inr (availableAuthsFromPriorityBuckets availableByPriority allPriorities)))"

section \<open>Selectors\<close>

definition selector_Pick ::
  "pick_ctx \<Rightarrow> string \<Rightarrow> string \<Rightarrow> Auth option list \<Rightarrow> gotime \<Rightarrow> builtin_selector \<Rightarrow> (sel_error + Auth) \<times> builtin_selector" where
  "selector_Pick ctx provider model auths now sel =
     (case sel of
        RoundRobin s \<Rightarrow> map_prod id RoundRobin (rr_Pick ctx provider model auths now s)
      | WeightedRoundRobin s \<Rightarrow> map_prod id WeightedRoundRobin (wrr_Pick ctx provider model auths now s)
      | FillFirst \<Rightarrow> map_prod id (\<lambda>_. FillFirst) (ff_Pick ctx provider model auths now ()))"

definition is_weighted :: "builtin_selector \<Rightarrow> bool" where
  "is_weighted sel \<longleftrightarrow> (case sel of WeightedRoundRobin _ \<Rightarrow> True | _ \<Rightarrow> False)"

definition restoreModelCooldownErrorModel :: "string \<Rightarrow> sel_error \<Rightarrow> sel_error" where
  "restoreModelCooldownErrorModel requestedModel err =
     (case err of
        ModelCooldownErr model provider resetIn \<Rightarrow>
          if requestedModel = [] \<or> model \<noteq> [] then err else newModelCooldownError requestedModel provider resetIn
      | AuthErr _ \<Rightarrow> err)"

text \<open>The copy of a picked credential; the manager's own gets an index first if it has none.\<close>

definition assign_index :: "exec_env \<Rightarrow> Auth \<Rightarrow> 'w conductor \<Rightarrow> Auth \<times> 'w conductor" where
  "assign_index env selected c =
     (if auth_indexAssigned selected then (selected, c)
      else (case map_of (mg_auths (cn_manager c)) (auth_ID selected) of
              Some (Some current) \<Rightarrow>
                if auth_indexAssigned current then (selected, c)
                else
                  (let current = EnsureIndex (env_abs_clean (xn_manager env)) (env_stableAuthIndex (xn_manager env)) current;
                       m = cn_manager c
                   in (current, c\<lparr>cn_manager := m\<lparr>mg_auths := map_put (auth_ID selected) (Some current) (mg_auths m)\<rparr>\<rparr>))
            | _ \<Rightarrow> (selected, c)))"

text \<open>The candidates' selection: the built-in selectors are asked with an empty model, since availability has been
  decided already.\<close>

definition select_candidate ::
  "exec_env \<Rightarrow> ('w, 'r) outside \<Rightarrow> request_ctx \<Rightarrow> string \<Rightarrow> string \<Rightarrow> Auth list \<Rightarrow> 'w conductor \<Rightarrow> (sel_error + Auth) \<times> 'w conductor" where
  "select_candidate env o' ctx provider model candidates c =
     (if candidates = [] then (Inl (auth_error ''auth_not_found'' ''no auth available''), c)
      else
        (case tick o' c of (now, c) \<Rightarrow>
           (case availableAuthsForRouteModelWithPriorityMode
                   (\<lambda>a. selectionModelForAuth (xn_decode env) (cn_models c) (Some a) model) candidates provider model now False of
              Inl err \<Rightarrow> (Inl err, c)
            | Inr available \<Rightarrow>
                (case tick o' c of (now, c) \<Rightarrow>
                   (case selector_Pick
                           (withWeightedSelectorStateModel \<lparr>pc_websocket = rc_downstreamWebsocket ctx, pc_routeModel = None\<rparr>
                              (is_weighted (cn_selector c)) model)
                           provider [] (map Some available) now (cn_selector c) of
                      (Inl err, sel) \<Rightarrow> (Inl (restoreModelCooldownErrorModel model err), c\<lparr>cn_selector := sel\<rparr>)
                    | (Inr selected, sel) \<Rightarrow> map_prod Inr id (assign_index env selected (c\<lparr>cn_selector := sel\<rparr>)))))))"

text \<open>\<open>Manager.Executor\<close>: a provider is looked up as given, then in lower case.\<close>

definition has_executor :: "string \<Rightarrow> 'w conductor \<Rightarrow> bool" where
  "has_executor provider0 c \<longleftrightarrow>
     (let provider = trim_space provider0
      in provider \<noteq> [] \<and> (provider \<in> set (cn_executors c) \<or> to_lower provider \<in> set (cn_executors c)))"

section \<open>Picking across providers\<close>

definition affinity_note :: "string \<Rightarrow> string \<Rightarrow> (string \<times> go_any) list \<Rightarrow> (string \<times> go_any) list" where
  "affinity_note provider model metadata =
     map_put ''session_affinity_model'' (AnyString model) (map_put ''session_affinity_provider'' (AnyString provider) metadata)"

definition pickNextMixedLegacy ::
  "exec_env \<Rightarrow> ('w, 'r) outside \<Rightarrow> request_ctx \<Rightarrow> string list \<Rightarrow> string \<Rightarrow> (string \<times> go_any) list \<Rightarrow> string list \<Rightarrow> 'w conductor \<Rightarrow>
     (sel_error + Auth \<times> string) \<times> 'w conductor" where
  "pickNextMixedLegacy env o' ctx providers model metadata tried c =
     (let providerSet = provider_set providers;
          eligibility = authSelectionEligibilityForRequest ctx metadata;
          accepts = (\<lambda>key. key \<noteq> [] \<and> key \<in> set providerSet \<and> key \<in> set (cn_executors c))
      in if providerSet = [] then (Inl (auth_error ''provider_not_found'' ''no provider supplied''), c)
         else (case select_candidate env o' ctx ''mixed'' model
                      (route_candidates env accepts model eligibility (pinnedAuthIDFromMetadata metadata) tried c) c of
                 (Inl err, c) \<Rightarrow> (Inl err, c)
               | (Inr a, c) \<Rightarrow>
                   (let providerKey = executorKeyFromAuth (Some a)
                    in if has_executor providerKey c then (Inr (a, providerKey), c)
                       else (Inl (auth_error ''executor_not_found'' ''executor not registered''), c))))"

text \<open>The providers that have an executor, each at its first occurrence.\<close>

fun eligible_loop :: "'w conductor \<Rightarrow> string list \<Rightarrow> string list \<Rightarrow> string list" where
  "eligible_loop c seen [] = []"
| "eligible_loop c seen (provider # providers) =
     (let providerKey = trim_space (to_lower provider)
      in if providerKey = [] \<or> providerKey \<in> set seen \<or> \<not> has_executor providerKey c then eligible_loop c seen providers
         else providerKey # eligible_loop c (providerKey # seen) providers)"

definition shouldRetrySchedulerPick :: "sel_error \<Rightarrow> bool" where
  "shouldRetrySchedulerPick err \<longleftrightarrow>
     (case err of
        ModelCooldownErr _ _ _ \<Rightarrow> True
      | AuthErr e \<Rightarrow> err_Code e = ''auth_not_found'' \<or> err_Code e = ''auth_unavailable'')"

definition syncScheduler :: "gotime \<Rightarrow> manager \<Rightarrow> manager" where
  "syncScheduler ts m =
     m\<lparr>mg_scheduler := rebuild (registered_models (mg_registry m)) (map snd (mg_auths m)) ts (mg_scheduler m)\<rparr>"

definition clock_reading :: "('w, 'r) outside \<Rightarrow> 'w conductor \<Rightarrow> pick_clock \<times> 'w conductor" where
  "clock_reading o' c =
     (case tick o' c of (t1, c) \<Rightarrow>
      case tick o' c of (t2, c) \<Rightarrow>
      case tick o' c of (t3, c) \<Rightarrow> (\<lparr>ck_shard = t1, ck_pick = t2, ck_error = t3\<rparr>, c))"

definition with_scheduler :: "(authScheduler \<Rightarrow> 'a \<times> authScheduler) \<Rightarrow> 'w conductor \<Rightarrow> 'a \<times> 'w conductor" where
  "with_scheduler pick c =
     (case pick (mg_scheduler (cn_manager c)) of
        (r, s) \<Rightarrow> (r, c\<lparr>cn_manager := (cn_manager c)\<lparr>mg_scheduler := s\<rparr>\<rparr>))"

text \<open>A pick of the scheduler, repeated once after its entries were rebuilt from the map when it found nothing.\<close>

definition scheduler_pick ::
  "('w, 'r) outside \<Rightarrow> (pick_clock \<Rightarrow> authScheduler \<Rightarrow> (sel_error + 'a) \<times> authScheduler) \<Rightarrow> string \<Rightarrow> 'w conductor \<Rightarrow>
     (sel_error + 'a) \<times> 'w conductor" where
  "scheduler_pick o' pick model c =
     (case clock_reading o' c of (clk, c) \<Rightarrow>
        (case with_scheduler (pick clk) c of
           (Inr selected, c) \<Rightarrow> (Inr selected, c)
         | (Inl err, c) \<Rightarrow>
             if model \<noteq> [] \<and> shouldRetrySchedulerPick err then
               (case tick o' c of (ts, c) \<Rightarrow>
                case clock_reading o' (c\<lparr>cn_manager := syncScheduler ts (cn_manager c)\<rparr>) of (clk, c) \<Rightarrow>
                  with_scheduler (pick clk) c)
             else (Inl err, c)))"

definition pickNextMixed ::
  "exec_env \<Rightarrow> ('w, 'r) outside \<Rightarrow> request_ctx \<Rightarrow> string list \<Rightarrow> string \<Rightarrow> (string \<times> go_any) list \<Rightarrow> string list \<Rightarrow> 'w conductor \<Rightarrow>
     ((sel_error + Auth \<times> string) \<times> (string \<times> go_any) list) \<times> 'w conductor" where
  "pickNextMixed env o' ctx providers model metadata0 tried c =
     (let metadata = affinity_note ''mixed'' model metadata0;
          eligibleProviders = eligible_loop c [] providers;
          eligibility = authSelectionEligibilityForRequest ctx metadata;
          route_aware = (\<exists>(_, auth)\<in>set (mg_auths (cn_manager c)). case auth of
              None \<Rightarrow> False
            | Some a \<Rightarrow> \<not> auth_Disabled a \<and> executorKeyFromAuth auth \<in> set eligibleProviders \<and> allows eligibility auth \<and>
                auth_ID a \<notin> set tried \<and> routeAwareSelectionRequired (xn_decode env) (cn_models c) a model)
      in if eligibleProviders = [] then ((Inl (auth_error ''auth_not_found'' ''no auth available''), metadata), c)
         else if trim_space model \<noteq> [] \<and> route_aware then
           (let metadata = affinity_note ''mixed'' [] metadata
            in case pickNextMixedLegacy env o' ctx providers model metadata tried c of (r, c) \<Rightarrow> ((r, metadata), c))
         else
           (case scheduler_pick o' (\<lambda>clk. pickMixed ctx eligibleProviders model metadata tried clk) model c of
              (Inl err, c) \<Rightarrow> ((Inl err, metadata), c)
            | (Inr (selected, providerKey), c) \<Rightarrow>
                if \<not> has_executor providerKey c
                then ((Inl (auth_error ''executor_not_found'' ''executor not registered''), metadata), c)
                else (case assign_index env selected c of (a, c) \<Rightarrow> ((Inr (a, providerKey), metadata), c))))"

section \<open>Picking for one provider\<close>

definition pickNextLegacy ::
  "exec_env \<Rightarrow> ('w, 'r) outside \<Rightarrow> request_ctx \<Rightarrow> string \<Rightarrow> string \<Rightarrow> (string \<times> go_any) list \<Rightarrow> string list \<Rightarrow> 'w conductor \<Rightarrow>
     (sel_error + Auth) \<times> 'w conductor" where
  "pickNextLegacy env o' ctx provider model metadata tried c =
     (if provider \<notin> set (cn_executors c) then (Inl (auth_error ''executor_not_found'' ''executor not registered''), c)
      else select_candidate env o' ctx provider model
             (route_candidates env (\<lambda>key. key = provider) model (authSelectionEligibilityForRequest ctx metadata)
                (pinnedAuthIDFromMetadata metadata) tried c) c)"

definition pickNext ::
  "exec_env \<Rightarrow> ('w, 'r) outside \<Rightarrow> request_ctx \<Rightarrow> string \<Rightarrow> string \<Rightarrow> (string \<times> go_any) list \<Rightarrow> string list \<Rightarrow> 'w conductor \<Rightarrow>
     (sel_error + Auth) \<times> 'w conductor" where
  "pickNext env o' ctx provider model metadata tried c =
     (let eligibility = authSelectionEligibilityForRequest ctx metadata;
          route_aware = (\<exists>(_, auth)\<in>set (mg_auths (cn_manager c)). case auth of
              None \<Rightarrow> False
            | Some a \<Rightarrow> executorKeyFromAuth auth = provider \<and> \<not> auth_Disabled a \<and> allows eligibility auth \<and>
                auth_ID a \<notin> set tried \<and> routeAwareSelectionRequired (xn_decode env) (cn_models c) a model)
      in if trim_space model \<noteq> [] \<and> route_aware then pickNextLegacy env o' ctx provider model metadata tried c
         else if \<not> has_executor provider c then (Inl (auth_error ''executor_not_found'' ''executor not registered''), c)
         else
           (case scheduler_pick o' (\<lambda>clk. pickSingle ctx provider model metadata tried clk) model c of
              (Inl err, c) \<Rightarrow> (Inl err, c)
            | (Inr selected, c) \<Rightarrow> map_prod Inr id (assign_index env selected c)))"

text \<open>The selections offered to other parts of the program.\<close>

definition SelectAuth ::
  "exec_env \<Rightarrow> ('w, 'r) outside \<Rightarrow> request_ctx \<Rightarrow> string \<Rightarrow> string \<Rightarrow> (string \<times> go_any) list \<Rightarrow> 'w conductor \<Rightarrow>
     (sel_error + Auth) \<times> 'w conductor" where
  "SelectAuth env o' ctx provider model metadata c = pickNextLegacy env o' ctx provider model metadata [] c"

definition SelectAuthByKind ::
  "exec_env \<Rightarrow> ('w, 'r) outside \<Rightarrow> request_ctx \<Rightarrow> string \<Rightarrow> string \<Rightarrow> string \<Rightarrow> (string \<times> go_any) list \<Rightarrow> 'w conductor \<Rightarrow>
     (sel_error + Auth) \<times> 'w conductor" where
  "SelectAuthByKind env o' ctx provider model requiredKind0 metadata c =
     (let requiredKind = normalizeAuthKind requiredKind0
      in if requiredKind = [] then
           (Inl (AuthErr \<lparr>err_Code = ''invalid_auth_kind'', err_Message = ''required auth kind is invalid'', err_Retryable = False,
              err_HTTPStatus = 400\<rparr>), c)
         else pickNextLegacy env o' (ctx\<lparr>rc_requiredKind := requiredKind\<rparr>) provider model metadata [] c)"

definition SelectAuthWithCredentialPolicy ::
  "exec_env \<Rightarrow> ('w, 'r) outside \<Rightarrow> request_ctx \<Rightarrow> string \<Rightarrow> string \<Rightarrow> string \<Rightarrow> (string \<times> go_any) list \<Rightarrow> 'w conductor \<Rightarrow>
     (sel_error + Auth) \<times> 'w conductor" where
  "SelectAuthWithCredentialPolicy env o' ctx provider model policy0 metadata c =
     (let policy = normalizeCredentialPolicy policy0
      in if policy = [] then
           (Inl (AuthErr \<lparr>err_Code = ''invalid_credential_policy'', err_Message = ''credential policy is invalid'', err_Retryable = False,
              err_HTTPStatus = 400\<rparr>), c)
         else (case pickNextLegacy env o' (ctx\<lparr>rc_credentialPolicy := policy\<rparr>) provider model metadata [] c of
                 (Inl err, c) \<Rightarrow> (Inl err, c)
               | (Inr selected, c) \<Rightarrow>
                   if credentialPolicyAllows policy (Some selected) then (Inr selected, c)
                   else (Inl (auth_error ''auth_not_found'' ''selector returned no eligible auth''), c)))"

end
