(* ===== verification/Execution.thy ===== *)
theory Execution
  imports Route_Selection
begin

text \<open>
  The execution of a request, \<open>Execute\<close> and \<open>executeMixedOnce\<close> of \<open>sdk/cliproxy/auth/conductor_execution.go\<close>: a round
  picks credentials one after the other and tries the upstream models of each, every answer is reported to
  the manager, and further rounds follow while one is granted. The Go loops have no bound of their own: they are
  \<open>repeat_step\<close>, whose value is \<open>None\<close> when the loop does not end. Modelled for one request at a time, without a
  Home dispatcher; the session identity is part of the request given, the resolved capabilities of a model and
  the usage report in the context are left out.
\<close>

section \<open>Loops\<close>

partial_function (option) repeat_step :: "('s \<Rightarrow> ('a + 's) option) \<Rightarrow> 's \<Rightarrow> 'a option" where
  "repeat_step f s =
     (case f s of
        None \<Rightarrow> None
      | Some r \<Rightarrow> (case r of Inl a \<Rightarrow> Some a | Inr s' \<Rightarrow> repeat_step f s'))"

declare repeat_step.simps [code]

section \<open>Options of a request\<close>

definition metadata_text :: "go_any option \<Rightarrow> string" where
  "metadata_text raw = (case raw of Some (AnyString v) \<Rightarrow> trim_space v | Some (AnyBytes v) \<Rightarrow> trim_space v | _ \<Rightarrow> [])"

definition authSelectionModelFromOptions :: "exec_options \<Rightarrow> string \<Rightarrow> string" where
  "authSelectionModelFromOptions opts fallback =
     (let text = metadata_text (map_of (xo_Metadata opts) ''auth_selection_model'')
      in if text \<noteq> [] then text else trim_space fallback)"

text \<open>The model to run when another one selects the credential.\<close>

definition executionModelForAuthSelection :: "exec_options \<Rightarrow> string \<Rightarrow> string option" where
  "executionModelForAuthSelection opts model0 =
     (let model = trim_space model0
      in if model = [] \<or> authSelectionModelFromOptions opts model = model then None else Some model)"

definition ensureRequestedModelMetadata :: "exec_options \<Rightarrow> string \<Rightarrow> exec_options" where
  "ensureRequestedModelMetadata opts requestedModel0 =
     (let requestedModel = trim_space requestedModel0
      in if requestedModel = [] \<or> metadata_text (map_of (xo_Metadata opts) ''requested_model'') \<noteq> [] then opts
         else opts\<lparr>xo_Metadata := map_put ''requested_model'' (AnyString requestedModel) (xo_Metadata opts)\<rparr>)"

text \<open>The selected credential is published in the metadata; it gets its index.\<close>

definition publishSelectedAuthMetadata :: "exec_env \<Rightarrow> Auth \<Rightarrow> exec_options \<Rightarrow> Auth \<times> exec_options" where
  "publishSelectedAuthMetadata env a opts =
     (if xo_Metadata opts = [] then (a, opts)
      else
        (let authID = trim_space (auth_ID a);
             metadata = (if authID \<noteq> [] then map_put ''selected_auth_id'' (AnyString authID) (xo_Metadata opts) else xo_Metadata opts);
             a = EnsureIndex (env_abs_clean (xn_manager env)) (env_stableAuthIndex (xn_manager env)) a;
             authIndex = trim_space (auth_Index a);
             metadata = (if authIndex \<noteq> [] then map_put ''selected_auth_index'' (AnyString authIndex) metadata else metadata)
         in (a, opts\<lparr>xo_Metadata := metadata\<rparr>)))"

section \<open>Results of calls\<close>

definition claudeOAuthRequestCancellation :: "exec_error option \<Rightarrow> Auth \<Rightarrow> exec_error option \<Rightarrow> exec_error option" where
  "claudeOAuthRequestCancellation ctx_error a err =
     (if \<not> equal_fold (trim_space (auth_Provider a)) ''claude'' \<or>
         \<not> equal_fold (trim_space (map_str (auth_Attributes a) ''auth_kind'')) ''oauth'' then None
      else (case ctx_error of
              Some e \<Rightarrow> if xe_Canceled e then Some e else (case err of Some e' \<Rightarrow> if xe_Canceled e' then Some e' else None | None \<Rightarrow> None)
            | None \<Rightarrow> (case err of Some e' \<Rightarrow> if xe_Canceled e' then Some e' else None | None \<Rightarrow> None)))"

definition marking :: "exec_env \<Rightarrow> ('w, 'r) outside \<Rightarrow> exec_result \<Rightarrow> 'w conductor \<Rightarrow> 'w conductor" where
  "marking env o' result c =
     (case tick o' c of (now, c) \<Rightarrow>
      case tick o' c of (ts, c) \<Rightarrow>
        c\<lparr>cn_manager := MarkResult (xn_manager env) now ts (ou_headers o' (cn_world c)) result (cn_manager c)\<rparr>)"

definition counting :: "('w, 'r) outside \<Rightarrow> exec_result \<Rightarrow> 'w conductor \<Rightarrow> 'w conductor" where
  "counting o' result c =
     (case tick o' c of (now, c) \<Rightarrow> c\<lparr>cn_manager := recordAvailabilityNeutralResult now result (cn_manager c)\<rparr>)"

text \<open>The result of a call, before a rule of the configuration changes its error.\<close>

definition call_result :: "json_lib \<Rightarrow> string \<Rightarrow> string \<Rightarrow> string \<Rightarrow> exec_error option \<Rightarrow> exec_result" where
  "call_result lib authID provider resultModel err =
     \<lparr>res_AuthID = authID, res_Provider = provider, res_Model = resultModel, res_Success = (err = None),
      res_RetryAfter = (case err of None \<Rightarrow> None | Some e \<Rightarrow> xe_RetryAfter e),
      res_CredentialScope = (case err of None \<Rightarrow> False | Some e \<Rightarrow> xe_CredentialScoped e),
      res_Error = map_option (resultErrorFromError lib) err, res_SkipQuotaObservation = False\<rparr>"

abbreviation rule_for :: "exec_env \<Rightarrow> 'w conductor \<Rightarrow> Auth \<Rightarrow> exec_error \<Rightarrow> rule_action option" where
  "rule_for env c a err \<equiv> matchRequestScopedErrorAction (xn_regexp env) (xn_stored_rules env) (cn_config c) a err"

definition report_failure ::
  "exec_env \<Rightarrow> ('w, 'r) outside \<Rightarrow> string \<Rightarrow> Auth \<Rightarrow> string \<Rightarrow> string \<Rightarrow> exec_error \<Rightarrow> 'w conductor \<Rightarrow> 'w conductor" where
  "report_failure env o' alt a provider resultModel err c =
     (let result = applyRequestScopedActionToResult (rule_for env c a err)
            (call_result (xn_json env) (auth_ID a) provider resultModel (Some err))
      in if isResponsesCompactAvailabilityNeutralError alt err (res_Error result) then counting o' result c
         else marking env o' result c)"

section \<open>One upstream model\<close>

text \<open>A call ends the request, or leads to the next model of the credential, or to the next credential.\<close>

datatype ('w, 'r) attempt =
    Finished "exec_error + 'r" "'w conductor"
  | NextModel exec_error Auth bool "'w conductor"
  | NextCredential exec_error Auth "'w conductor"

text \<open>The call with the single repetition after a refresh; \<open>Inl\<close> is the error of a context that ended.\<close>

definition call_upstream ::
  "exec_env \<Rightarrow> ('w, 'r) outside \<Rightarrow> string \<Rightarrow> exec_request \<Rightarrow> exec_options \<Rightarrow> Auth \<Rightarrow> bool \<Rightarrow> 'w conductor \<Rightarrow>
     (exec_error + (exec_error + 'r) \<times> Auth \<times> bool) \<times> 'w conductor" where
  "call_upstream env o' provider req opts auth didRefresh c =
     (case ou_execute o' provider False auth req opts (cn_world c) of
        (Inr resp, w) \<Rightarrow> (Inr (Inr resp, auth, didRefresh), c\<lparr>cn_world := w\<rparr>)
      | (Inl err, w) \<Rightarrow>
          (case ou_ctx o' w of
             Some errCtx \<Rightarrow> (Inl errCtx, c\<lparr>cn_world := w\<rparr>)
           | None \<Rightarrow>
               (case tryRefreshAfterUnauthorized env o' auth err didRefresh (c\<lparr>cn_world := w\<rparr>) of
                  ((auth, False), c) \<Rightarrow> (Inr (Inl err, auth, didRefresh), c)
                | ((auth, True), c) \<Rightarrow>
                    (case ou_execute o' provider False auth req opts (cn_world c) of
                       (Inr resp, w) \<Rightarrow> (Inr (Inr resp, auth, True), c\<lparr>cn_world := w\<rparr>)
                     | (Inl err, w) \<Rightarrow>
                         (case ou_ctx o' w of
                            Some errCtx \<Rightarrow> (Inl errCtx, c\<lparr>cn_world := w\<rparr>)
                          | None \<Rightarrow> (Inr (Inl err, auth, True), c\<lparr>cn_world := w\<rparr>))))))"

text \<open>What stays the same during the attempts of a round.\<close>

record round_info =
  rn_routeModel :: string
  rn_executionModel :: "string option"
  rn_request :: exec_request

text \<open>What was prepared for a credential.\<close>

record prepared =
  pr_provider :: string
  pr_pooled :: bool
  pr_alias :: OAuthModelAliasResult
  pr_routing :: apiKeyModelRoutingSnapshot

definition respond ::
  "('w, 'r) outside \<Rightarrow> apiKeyModelRoutingSnapshot \<Rightarrow> Auth \<Rightarrow> string \<Rightarrow> string \<Rightarrow> OAuthModelAliasResult \<Rightarrow> 'r \<Rightarrow> 'r" where
  "respond o' routing auth routeModel upstreamModel aliasResult resp =
     (let attempt = resolveAttemptAliasResult routing (Some auth) routeModel upstreamModel aliasResult
      in if \<not> ar_ForceMapping attempt \<or> trim_space (ar_OriginalAlias attempt) = [] then resp
         else ou_rewrite o' (ar_OriginalAlias attempt) resp)"

definition attempt_model ::
  "exec_env \<Rightarrow> ('w, 'r) outside \<Rightarrow> round_info \<Rightarrow> prepared \<Rightarrow> exec_options \<Rightarrow> string \<Rightarrow> Auth \<Rightarrow> bool \<Rightarrow> 'w conductor \<Rightarrow> ('w, 'r) attempt" where
  "attempt_model env o' info p opts upstreamModel auth didRefresh c =
     (let resultModel = stateModelForExecution (xn_decode env) (cn_models c) (Some auth) (rn_routeModel info) upstreamModel (pr_pooled p);
          execReq = (rn_request info)\<lparr>xq_Model := (case rn_executionModel info of None \<Rightarrow> upstreamModel | Some m \<Rightarrow> m)\<rparr>
      in case ou_intercept o' (pr_provider p) execReq opts (cn_world c) of
        (Inl errIntercept, w) \<Rightarrow> Finished (Inl errIntercept) (c\<lparr>cn_world := w\<rparr>)
      | (Inr (execReq, execOpts), w) \<Rightarrow>
          (case call_upstream env o' (pr_provider p) execReq execOpts auth didRefresh (c\<lparr>cn_world := w\<rparr>) of
             (Inl errCtx, c) \<Rightarrow> Finished (Inl errCtx) c
           | (Inr (r, auth, didRefresh), c) \<Rightarrow>
               (case claudeOAuthRequestCancellation (ou_ctx o' (cn_world c)) auth (case r of Inl e \<Rightarrow> Some e | Inr _ \<Rightarrow> None) of
                  Some errCancel \<Rightarrow> Finished (Inl errCancel) c
                | None \<Rightarrow>
                    (case r of
                       Inr resp \<Rightarrow>
                         Finished (Inr (respond o' (pr_routing p) auth (rn_routeModel info) upstreamModel (pr_alias p) resp))
                           (marking env o' (call_result (xn_json env) (auth_ID auth) (pr_provider p) resultModel None) c)
                     | Inl err \<Rightarrow>
                         (let action = rule_for env c auth err;
                              c' = report_failure env o' (xo_Alt execOpts) auth (pr_provider p) resultModel err c
                          in if isRequestScopedStop action then Finished (Inl (wrapRequestStopError err)) c'
                             else if action = None \<and>
                               (isResponsesCompactRequestFaultError (xn_json env) (xo_Alt execOpts) err \<or>
                                exec_isRequestInvalidError (xn_json env) err) then Finished (Inl err) c'
                             else if xe_CredentialScoped err then NextCredential err auth c'
                             else NextModel err auth didRefresh c')))))"

text \<open>The models of a credential in turn; \<open>Inr\<close> carries the last error, if there was a call.\<close>

fun try_models ::
  "exec_env \<Rightarrow> ('w, 'r) outside \<Rightarrow> round_info \<Rightarrow> prepared \<Rightarrow> exec_options \<Rightarrow> exec_error option \<Rightarrow> Auth \<Rightarrow> bool \<Rightarrow> string list \<Rightarrow>
     'w conductor \<Rightarrow> ((exec_error + 'r) + exec_error option \<times> Auth) \<times> 'w conductor" where
  "try_models env o' info p opts authErr auth didRefresh [] c = (Inr (authErr, auth), c)"
| "try_models env o' info p opts authErr auth didRefresh (upstreamModel # models) c =
     (case attempt_model env o' info p opts upstreamModel auth didRefresh c of
        Finished r c \<Rightarrow> (Inl r, c)
      | NextModel err auth didRefresh c \<Rightarrow> try_models env o' info p opts (Some err) auth didRefresh models c
      | NextCredential err auth c \<Rightarrow> (Inr (Some err, auth), c))"

section \<open>One round\<close>

record 'w mixed_state =
  mx_tried :: "string list"
  mx_attempted :: "string list"
  mx_lastErr :: "exec_error option"
  mx_opts :: exec_options
  mx_conductor :: "'w conductor"

abbreviation (input) no_auth_error :: exec_error where
  "no_auth_error \<equiv> of_auth_error \<lparr>err_Code = ''auth_not_found'', err_Message = ''no auth available'', err_Retryable = False, err_HTTPStatus = 0\<rparr>"

definition add_once :: "string \<Rightarrow> string list \<Rightarrow> string list" where
  "add_once x xs = (if x \<in> set xs then xs else xs @ [x])"

text \<open>What a round does with a credential that has models to try.\<close>

definition use_credential ::
  "exec_env \<Rightarrow> ('w, 'r) outside \<Rightarrow> round_info \<Rightarrow> prepared \<Rightarrow> string list \<Rightarrow> Auth \<Rightarrow> 'w mixed_state \<Rightarrow>
     ((exec_error + 'r) \<times> 'w conductor) + 'w mixed_state" where
  "use_credential env o' info p models auth0 st =
     (case prepareRequestAuth env o' (pr_provider p) auth0 (mx_conductor st) of
        ((auth, Some errPrepare), c) \<Rightarrow>
          (case claudeOAuthRequestCancellation (ou_ctx o' (cn_world c)) auth (Some errPrepare) of
             Some errCancel \<Rightarrow> Inl (Inl errCancel, c)
           | None \<Rightarrow>
               Inr (st\<lparr>mx_lastErr := Some errPrepare,
                      mx_conductor := marking env o'
                        ((call_result (xn_json env) (auth_ID auth) (pr_provider p) (rn_routeModel info) (Some errPrepare))
                           \<lparr>res_RetryAfter := None, res_CredentialScope := False\<rparr>) c\<rparr>))
      | ((auth, None), c) \<Rightarrow>
          (case try_models env o' info p (mx_opts st) None auth False models c of
             (Inl r, c) \<Rightarrow> Inl (r, c)
           | (Inr (None, auth), c) \<Rightarrow> Inr (st\<lparr>mx_conductor := c\<rparr>)
           | (Inr (Some authErr, auth), c) \<Rightarrow>
               (let action = rule_for env c auth authErr
                in if isRequestScopedStop action then Inl (Inl (wrapRequestStopError authErr), c)
                   else if action = None \<and>
                     (isResponsesCompactRequestFaultError (xn_json env) (xo_Alt (mx_opts st)) authErr \<or>
                      exec_isRequestInvalidError (xn_json env) authErr) then Inl (Inl authErr, c)
                   else Inr (st\<lparr>mx_lastErr := Some authErr, mx_conductor := c\<rparr>))))"

text \<open>One pass of the loop of \<open>executeMixedOnce\<close>; what the pick writes into the metadata stays there, the round has a
  copy of its own.\<close>

definition mixed_step ::
  "exec_env \<Rightarrow> ('w, 'r) outside \<Rightarrow> request_ctx \<Rightarrow> string list \<Rightarrow> int \<Rightarrow> round_info \<Rightarrow> 'w mixed_state \<Rightarrow>
     ((exec_error + 'r) \<times> 'w conductor) + 'w mixed_state" where
  "mixed_step env o' ctx providers maxRetryCredentials info st =
     (if maxRetryCredentials > 0 \<and> int (length (mx_attempted st)) \<ge> maxRetryCredentials then
        Inl (Inl (case mx_lastErr st of Some err \<Rightarrow> err | None \<Rightarrow> no_auth_error), mx_conductor st)
      else
        (case pickNextMixed env o' ctx providers (rn_routeModel info) (xo_Metadata (mx_opts st)) (mx_tried st) (mx_conductor st) of
           ((Inl errPick, metadata), c) \<Rightarrow>
             Inl (Inl (case mx_lastErr st of Some err \<Rightarrow> err | None \<Rightarrow> of_sel_error (xn_cooldown_text env) errPick), c)
         | ((Inr (auth, provider), metadata), c) \<Rightarrow>
             (case publishSelectedAuthMetadata env auth ((mx_opts st)\<lparr>xo_Metadata := metadata\<rparr>) of
                (auth, opts) \<Rightarrow>
                  (case tick o' c of (now, c) \<Rightarrow>
                   (case preparedExecutionModelsWithAlias (xn_decode env) now (Some auth) (rn_routeModel info) (cn_models c) of
                      ((models, pooled, aliasResult), r) \<Rightarrow>
                        (let st = st\<lparr>mx_tried := auth_ID auth # mx_tried st, mx_opts := opts, mx_conductor := c\<lparr>cn_models := r\<rparr>\<rparr>
                         in if models = [] then Inr st
                            else use_credential env o' info
                              \<lparr>pr_provider = provider, pr_pooled = pooled, pr_alias = aliasResult, pr_routing = mo_routing r\<rparr> models auth
                              (st\<lparr>mx_attempted := add_once (auth_ID auth) (mx_attempted st)\<rparr>)))))))"

definition executeMixedOnce ::
  "exec_env \<Rightarrow> ('w, 'r) outside \<Rightarrow> request_ctx \<Rightarrow> string list \<Rightarrow> exec_request \<Rightarrow> exec_options \<Rightarrow> int \<Rightarrow> int \<Rightarrow> int \<Rightarrow>
     'w conductor \<Rightarrow> ((exec_error + 'r) \<times> 'w conductor) option" where
  "executeMixedOnce env o' ctx providers req opts maxRetryCredentials retryRound defaultRequestRetry c =
     (if providers = [] then
        Some (Inl (of_auth_error \<lparr>err_Code = ''provider_not_found'', err_Message = ''no provider supplied'', err_Retryable = False,
          err_HTTPStatus = 0\<rparr>), c)
      else
        (let routeModel = authSelectionModelFromOptions opts (xq_Model req);
             info = \<lparr>rn_routeModel = routeModel, rn_executionModel = executionModelForAuthSelection opts (xq_Model req), rn_request = req\<rparr>
         in repeat_step (\<lambda>st. Some (mixed_step env o' ctx providers maxRetryCredentials info st))
              \<lparr>mx_tried = requestRetryRoundExclusions retryRound defaultRequestRetry (mg_auths (cn_manager c)),
               mx_attempted = [], mx_lastErr = None, mx_opts = ensureRequestedModelMetadata opts routeModel, mx_conductor = c\<rparr>))"

section \<open>Rounds\<close>

definition waitForCooldown ::
  "('w, 'r) outside \<Rightarrow> duration \<Rightarrow> duration \<Rightarrow> 'w conductor \<Rightarrow> exec_error option \<times> 'w conductor" where
  "waitForCooldown o' wait maxWait c =
     (if wait \<le> 0 then (None, c)
      else
        (let range = jitteredCooldownWait id wait maxWait - wait
         in case (if range \<le> 0 then (0, cn_world c) else ou_random o' range (cn_world c)) of
              (jitter, w) \<Rightarrow>
                (case ou_wait o' (jitteredCooldownWait (\<lambda>_. jitter) wait maxWait) w of
                   (err, w) \<Rightarrow> (err, c\<lparr>cn_world := w\<rparr>))))"

text \<open>A round of \<open>Execute\<close>: the outcome, or the error after which no other round was granted (with the flag), or
  the next round.\<close>

definition execute_round ::
  "exec_env \<Rightarrow> ('w, 'r) outside \<Rightarrow> request_ctx \<Rightarrow> string list \<Rightarrow> exec_request \<Rightarrow> exec_options \<Rightarrow> int \<times> 'w conductor \<Rightarrow>
     (((exec_error + 'r) \<times> bool \<times> 'w conductor) + int \<times> 'w conductor) option" where
  "execute_round env o' ctx normalized req opts st =
     (case st of (attempt, c) \<Rightarrow>
        (let rt = cn_retry c; defaultRequestRetry = rt_requestRetry rt; maxWait = rt_maxRetryInterval rt
         in case executeMixedOnce env o' ctx normalized req opts (rt_maxRetryCredentials rt) attempt defaultRequestRetry c of
           None \<Rightarrow> None
         | Some (Inr resp, c) \<Rightarrow> Some (Inl (Inr resp, False, c))
         | Some (Inl errExec, c) \<Rightarrow>
             if xe_Terminated errExec \<or> xe_Stop errExec then Some (Inl (Inl (unwrapRequestStopError errExec), False, c))
             else
               (case tick o' c of (now1, c) \<Rightarrow>
                case tick o' c of (now2, c) \<Rightarrow>
                (case shouldRetryAfterErrorWithHomeRetryLimit (xn_json env) (xn_decode env) (cn_models c) errExec
                        \<lparr>rq_providers = normalized, rq_model = authSelectionModelFromOptions opts (xq_Model req), rq_attempt = attempt,
                         rq_eligibility = authSelectionEligibilityForRequest ctx (xo_Metadata opts),
                         rq_pinned = pinnedAuthIDFromMetadata (xo_Metadata opts), rq_defaultRetry = defaultRequestRetry\<rparr>
                        maxWait now1 now2 (cn_manager c) of
                   (_, False) \<Rightarrow> Some (Inl (Inl errExec, True, c))
                 | (wait, True) \<Rightarrow>
                     (case waitForCooldown o' wait maxWait c of
                        (Some errWait, c) \<Rightarrow> Some (Inl (Inl errWait, False, c))
                      | (None, c) \<Rightarrow> Some (Inr (attempt + 1, c)))))))"

section \<open>Paying with credits\<close>

definition hasAntigravityProvider :: "string list \<Rightarrow> bool" where
  "hasAntigravityProvider providers \<longleftrightarrow> (\<exists>p\<in>set providers. equal_fold (trim_space p) ''antigravity'')"

text \<open>A cooldown error has a status of its own, 429.\<close>

definition shouldAttemptAntigravityCreditsFallback :: "bool \<Rightarrow> exec_error \<Rightarrow> bool" where
  "shouldAttemptAntigravityCreditsFallback enabled lastErr \<longleftrightarrow>
     (if xe_Terminated lastErr then False
      else if \<not> enabled then False
      else
        (let status = statusCodeFromError lastErr
         in if status = 429 \<or> status = 503 then True
            else if status = 0 then
              (case xe_Error lastErr of
                 Some e \<Rightarrow> err_Code e \<in> {''auth_not_found'', ''auth_unavailable'', ''model_cooldown''}
               | None \<Rightarrow> False)
            else False))"

definition credits_candidates :: "string \<Rightarrow> exec_options \<Rightarrow> 'w conductor \<Rightarrow> (Auth \<times> string) list" where
  "credits_candidates routeModel opts c =
     (let pinnedAuthID = pinnedAuthIDFromMetadata (xo_Metadata opts)
      in concat (map (\<lambda>(_, auth). case auth of
           None \<Rightarrow> []
         | Some a \<Rightarrow>
             (let providerKey = executorKeyFromAuth auth
              in if \<not> (auth_Disabled a \<or> auth_Status a = StatusDisabled) \<and> \<not> (pinnedAuthID \<noteq> [] \<and> auth_ID a \<noteq> pinnedAuthID) \<and>
                    equal_fold (trim_space (auth_Provider a)) ''antigravity'' \<and>
                    str_contains (to_lower (trim_space routeModel)) ''claude'' \<and> providerKey \<in> set (cn_executors c)
                 then [(a, providerKey)] else [])) (mg_auths (cn_manager c))))"

text \<open>The credentials known to have credits come before those of which nothing is known.\<close>

definition findAllAntigravityCreditsCandidateAuths ::
  "('w, 'r) outside \<Rightarrow> string \<Rightarrow> exec_options \<Rightarrow> 'w conductor \<Rightarrow> (Auth \<times> string) list" where
  "findAllAntigravityCreditsCandidateAuths o' routeModel opts c =
     (let hint = (\<lambda>(a, _). let authID = trim_space (auth_ID a) in if authID = [] then None else ou_credits o' authID (cn_world c));
          candidates = credits_candidates routeModel opts c
      in sort_key (\<lambda>(a, _). auth_ID a) (filter (\<lambda>x. hint x = Some True) candidates) @
         sort_key (\<lambda>(a, _). auth_ID a) (filter (\<lambda>x. hint x = None) candidates))"

fun credits_models ::
  "exec_env \<Rightarrow> ('w, 'r) outside \<Rightarrow> string \<Rightarrow> exec_request \<Rightarrow> exec_options \<Rightarrow> prepared \<Rightarrow> Auth \<Rightarrow> string list \<Rightarrow> 'w conductor \<Rightarrow>
     'r option \<times> 'w conductor" where
  "credits_models env o' routeModel req opts p auth [] c = (None, c)"
| "credits_models env o' routeModel req opts p auth (upstreamModel # models) c =
     (let resultModel = stateModelForExecution (xn_decode env) (cn_models c) (Some auth) routeModel upstreamModel (pr_pooled p);
          result = call_result (xn_json env) (auth_ID auth) (pr_provider p) resultModel
      in case ou_execute o' (pr_provider p) True auth (req\<lparr>xq_Model := upstreamModel\<rparr>) opts (cn_world c) of
           (Inr resp, w) \<Rightarrow>
             (Some (respond o' (pr_routing p) auth routeModel upstreamModel (pr_alias p) resp), marking env o' (result None) (c\<lparr>cn_world := w\<rparr>))
         | (Inl err, w) \<Rightarrow>
             (let c = marking env o' (result (Some err)) (c\<lparr>cn_world := w\<rparr>)
              in if xe_CredentialScoped err then (None, c) else credits_models env o' routeModel req opts p auth models c))"

fun credits_loop ::
  "exec_env \<Rightarrow> ('w, 'r) outside \<Rightarrow> exec_request \<Rightarrow> exec_options \<Rightarrow> (Auth \<times> string) list \<Rightarrow> 'w conductor \<Rightarrow> 'r option \<times> 'w conductor" where
  "credits_loop env o' req opts [] c = (None, c)"
| "credits_loop env o' req opts ((a, provider) # candidates) c =
     (if ou_ctx o' (cn_world c) \<noteq> None then (None, c)
      else
        (let routeModel = xq_Model req; creditsOpts = ensureRequestedModelMetadata opts routeModel
         in case prepareRequestAuth env o' provider a c of
              ((_, Some _), c) \<Rightarrow> credits_loop env o' req opts candidates c
            | ((auth, None), c) \<Rightarrow>
                (case publishSelectedAuthMetadata env auth creditsOpts of
                   (auth, creditsOpts) \<Rightarrow>
                     (case executionModelCandidatesWithAlias (xn_decode env) (Some auth) routeModel (cn_models c) of
                        ((models, pooled, aliasResult), r) \<Rightarrow>
                          (case credits_models env o' routeModel req creditsOpts
                                  \<lparr>pr_provider = provider, pr_pooled = pooled, pr_alias = aliasResult, pr_routing = mo_routing r\<rparr> auth models
                                  (c\<lparr>cn_models := r\<rparr>) of
                             (Some resp, c) \<Rightarrow> (Some resp, c)
                           | (None, c) \<Rightarrow> credits_loop env o' req opts candidates c)))))"

definition tryAntigravityCreditsExecute ::
  "exec_env \<Rightarrow> ('w, 'r) outside \<Rightarrow> exec_request \<Rightarrow> exec_options \<Rightarrow> 'w conductor \<Rightarrow> 'r option \<times> 'w conductor" where
  "tryAntigravityCreditsExecute env o' req opts c =
     credits_loop env o' req opts (findAllAntigravityCreditsCandidateAuths o' (xq_Model req) opts c) c"

section \<open>A request\<close>

definition Execute ::
  "exec_env \<Rightarrow> ('w, 'r) outside \<Rightarrow> request_ctx \<Rightarrow> string list \<Rightarrow> exec_request \<Rightarrow> exec_options \<Rightarrow> 'w conductor \<Rightarrow>
     ((exec_error + 'r) \<times> 'w conductor) option" where
  "Execute env o' ctx providers req opts c =
     (let normalized = normalizeProviders providers
      in if normalized = [] then
           Some (Inl (of_auth_error \<lparr>err_Code = ''provider_not_found'', err_Message = ''no provider supplied'', err_Retryable = False,
             err_HTTPStatus = 0\<rparr>), c)
         else (case repeat_step (execute_round env o' ctx normalized req opts) (0, c) of
             None \<Rightarrow> None
           | Some (Inl lastErr, True, c) \<Rightarrow>
               (let lastErr = unwrapRequestStopError lastErr
                in if hasAntigravityProvider normalized \<and> shouldAttemptAntigravityCreditsFallback (cn_antigravityCredits c) lastErr
                   then (case tryAntigravityCreditsExecute env o' req opts c of
                           (Some resp, c) \<Rightarrow> Some (Inr resp, c)
                         | (None, c) \<Rightarrow> Some (Inl lastErr, c))
                   else Some (Inl lastErr, c))
           | Some (r, _, c) \<Rightarrow> Some (r, c)))"

end
