(* ===== verification/Execution_Trace.thy ===== *)
theory Execution_Trace
  imports Execution Manager_Laws
begin

text \<open>
  What an execution does, step by step. The relation \<open>acts\<close> is the small-step reading of the functions of
  \<open>Execution\<close>: each of them only reports results, updates credentials, picks, and calls providers, and the
  list it carries is the list of the calls. Invariants of the conductor are proved once, over the relation.
\<close>

section \<open>What the operations leave of the metadata\<close>

named_theorems keeps_md

lemma update_md [keeps_md]: "auth_Metadata (updateAggregatedAvailability now a) = auth_Metadata a"
  by (simp add: updateAggregatedAvailability_def clearAggregatedAvailability_def Let_def)

lemma normalize_md [keeps_md]: "auth_Metadata (normalizeModelStates a) = auth_Metadata a"
  by (simp add: normalizeModelStates_def split: prod.split)

lemma set_state_md [keeps_md]: "auth_Metadata (set_state k st a) = auth_Metadata a"
  by (simp add: set_state_def)

lemma ensure_md [keeps_md]: "auth_Metadata (snd (ensureModelState a k)) = auth_Metadata a"
  by (auto simp: ensureModelState_def Let_def keeps_md split: option.split)

lemma clear_md [keeps_md]: "auth_Metadata (snd (clearCooldownStateForAuth now a)) = auth_Metadata a"
  by (simp add: clearCooldownStateForAuth_def Let_def keeps_md)

lemma index_md [keeps_md]: "auth_Metadata (EnsureIndex p h a) = auth_Metadata a"
  by (simp add: EnsureIndex_def Let_def)

lemma count_md [keeps_md]: "auth_Metadata (count_result now s a) = auth_Metadata a"
  by (simp add: count_result_def recordRecentRequest_def Let_def)

lemma settle_md [keeps_md]: "auth_Metadata (settle_status now a) = auth_Metadata a"
  by (simp add: settle_status_def)

lemma parts_md [keeps_md]:
  "auth_Metadata (spread_credential k n l a) = auth_Metadata a" "auth_Metadata (failing_auth e a) = auth_Metadata a"
  "auth_Metadata (clearAuthStateOnSuccess now a) = auth_Metadata a" "auth_Metadata (settle_auth d a) = auth_Metadata a"
  "auth_Metadata (timed_auth msg c d now a) = auth_Metadata a" "auth_Metadata (force_auth e now a) = auth_Metadata a"
  "auth_Metadata (rate_limited_auth ra d now a) = auth_Metadata a" "auth_Metadata (recoverable_auth s msg d now a) = auth_Metadata a"
  by (simp_all add: spread_credential_def failing_auth_def clearAuthStateOnSuccess_def settle_auth_def timed_auth_def force_auth_def
      rate_limited_auth_def recoverable_auth_def Let_def split: option.split prod.split)

lemma success_md [keeps_md]: "auth_Metadata (fst (mark_success now k a)) = auth_Metadata a"
  using ensure_md [of a k] by (cases "ensureModelState a k") (simp add: mark_success_def Let_def keeps_md)

lemma failure_md [keeps_md]: "auth_Metadata (fst (mark_model_failure s d r now k a)) = auth_Metadata a"
  using ensure_md [of a k] by (cases "ensureModelState a k") (simp add: mark_model_failure_def Let_def keeps_md split: prod.split option.split)

lemma auth_failure_md [keeps_md]: "auth_Metadata (applyAuthFailureState lib s e ra now d a) = auth_Metadata a"
  by (simp add: applyAuthFailureState_def Let_def keeps_md split: prod.split option.split)

lemma observe_md [keeps_md]: "auth_Metadata (observe_result r h now k a) = auth_Metadata a"
  by (simp add: observe_result_def Let_def keeps_md split: option.split)

lemma mark_md [keeps_md]: "auth_Metadata (fst (mark_auth lib s d h r now a)) = auth_Metadata a"
  by (simp add: mark_auth_def Let_def case_prod_beta keeps_md)

lemma admit_md [keeps_md]: "auth_Metadata (snd (admit env now a)) = auth_Metadata a"
  using clear_md [of now "normalizeModelStates a"] by (simp add: admit_def Let_def case_prod_beta keeps_md)

lemma inherit_md [keeps_md]: "auth_Metadata (inherit_state now e a) = auth_Metadata a"
  by (simp add: inherit_state_def Let_def)

lemma refresh_failed_fields:
  "auth_Metadata (refresh_failed err now a) = auth_Metadata a" "auth_ID (refresh_failed err now a) = auth_ID a"
  by (simp_all add: refresh_failed_def Let_def)

lemma clear_unauthorized_fields:
  "auth_Metadata (fst (clearUnauthorizedModelStates now a)) = auth_Metadata a" "auth_ID (fst (clearUnauthorizedModelStates now a)) = auth_ID a"
  by (simp_all add: clearUnauthorizedModelStates_def Let_def keeps_md keeps_id)

lemma refresh_done_fields:
  "auth_Metadata (fst (refresh_done env now u a)) = auth_Metadata a" "auth_ID (fst (refresh_done env now u a)) = auth_ID a"
  by (simp_all add: refresh_done_def Let_def case_prod_beta clear_unauthorized_fields)

section \<open>Retry limits in metadata\<close>

definition bounded_retry :: "int \<Rightarrow> (string \<times> go_any) list \<Rightarrow> bool" where
  "bounded_retry L metadata \<longleftrightarrow>
     (\<forall>(k, v)\<in>set metadata. k \<in> {''request_retry'', ''request-retry''} \<longrightarrow> (case parseIntAny v of None \<Rightarrow> True | Some n \<Rightarrow> n \<le> L))"

lemma bounded_first_parsed:
  assumes "bounded_retry L metadata" "first_parsed parseIntAny metadata [''request_retry'', ''request-retry''] = Some n"
  shows "n \<le> L"
proof -
  have lk: "map_of metadata k = Some v \<Longrightarrow> parseIntAny v = Some n \<Longrightarrow> k \<in> {''request_retry'', ''request-retry''} \<Longrightarrow> n \<le> L" for k v
    using assms(1) map_of_SomeD [of metadata k v] unfolding bounded_retry_def by fastforce
  from assms(2) show ?thesis by (auto split: option.splits intro: lk)
qed

lemma bounded_limit:
  assumes "bounded_retry L (auth_Metadata a)"
  shows "effectiveRequestRetryLimit (Some a) d \<le> max L (max 0 d)"
  using bounded_first_parsed [OF assms] by (auto simp: effectiveRequestRetryLimit_def RequestRetryOverride_def Let_def split: option.split)

lemma set_map_put_subset: "set (map_put k v m) \<subseteq> insert (k, v) (set m)"
  by (induction m) auto

lemma bounded_put: "bounded_retry L m \<Longrightarrow> bounded_retry L [(k, v)] \<Longrightarrow> bounded_retry L (map_put k v m)"
  using set_map_put_subset [of k v m] unfolding bounded_retry_def by fastforce

lemma bounded_del: "bounded_retry L m \<Longrightarrow> bounded_retry L (map_del k m)"
  unfolding bounded_retry_def set_map_del by blast

lemma bounded_normalize:
  assumes "bounded_retry L m"
  shows "bounded_retry L (NormalizeCredentialMetadata m)"
proof -
  have "bounded_retry L (fold normalize_metadata_step es m')" if "set es \<subseteq> set m" "bounded_retry L m'" for es m'
    using that
  proof (induction es arbitrary: m')
    case (Cons e es)
    obtain k v where e: "e = (k, v)" by fastforce
    have kv: "bounded_retry L [(CanonicalCredentialMetadataKey k, v)]" if "CanonicalCredentialMetadataKey k \<noteq> k"
    proof (cases "k = ''request-retry''")
      case True
      then show ?thesis using assms Cons.prems(1) e unfolding bounded_retry_def by fastforce
    next
      case False
      then show ?thesis using that by (auto simp: bounded_retry_def CanonicalCredentialMetadataKey_def split: if_splits)
    qed
    have "bounded_retry L (normalize_metadata_step e m')"
      using Cons.prems(2) kv by (auto simp: normalize_metadata_step_def e Let_def intro!: bounded_del bounded_put)
    then show ?case using Cons.IH Cons.prems(1) by simp
  qed simp
  then show ?thesis using assms by (simp add: NormalizeCredentialMetadata_def)
qed

section \<open>What every operation keeps\<close>

text \<open>All credentials of the manager and of its scheduler have their IDs in \<open>U\<close> and metadata that satisfies \<open>P\<close>.\<close>

definition kept :: "string set \<Rightarrow> ((string \<times> go_any) list \<Rightarrow> bool) \<Rightarrow> gotime \<Rightarrow> manager \<Rightarrow> bool" where
  "kept U P t m \<longleftrightarrow> scheduler_ok t (mg_scheduler m) \<and>
     (\<forall>i a. (i, Some a) \<in> set (mg_auths m) \<longrightarrow> auth_ID a = i \<and> trim_space i = i \<and> i \<in> U \<and> P (auth_Metadata a)) \<and>
     (\<forall>k i. known (mg_scheduler m) k i \<noteq> None \<longrightarrow> i \<in> U)"

lemma keptD:
  assumes "kept U P t m"
  shows "scheduler_ok t (mg_scheduler m)"
    and "(i, Some a) \<in> set (mg_auths m) \<Longrightarrow> auth_ID a = i \<and> trim_space i = i \<and> i \<in> U \<and> P (auth_Metadata a)"
    and "map_of (mg_auths m) i = Some (Some a) \<Longrightarrow> auth_ID a = i \<and> trim_space i = i \<and> i \<in> U \<and> P (auth_Metadata a)"
    and "known (mg_scheduler m) k i = Some meta \<Longrightarrow> i \<in> U"
  using assms map_of_SomeD [of "mg_auths m" i "Some a"] unfolding kept_def by blast+

lemma kept_later: "kept U P t m \<Longrightarrow> t \<le> t' \<Longrightarrow> kept U P t' m"
  unfolding kept_def by (blast intro: scheduler_ok_later)

lemma kept_cong: "mg_auths m' = mg_auths m \<Longrightarrow> mg_scheduler m' = mg_scheduler m \<Longrightarrow> kept U P t m' = kept U P t m"
  by (simp add: kept_def)

lemma kept_irrelevant [simp]:
  "kept U P t (m\<lparr>mg_registry := r\<rparr>) = kept U P t m" "kept U P t (m\<lparr>mg_cooldowns := x\<rparr>) = kept U P t m"
  "kept U P t (persistCooldownStates env now m) = kept U P t m"
  by (simp_all add: kept_def persistCooldownStates_def)

lemma kept_put:
  assumes "kept U P t m" "auth_ID a = i" "trim_space i = i" "i \<in> U" "P (auth_Metadata a)"
  shows "kept U P t (m\<lparr>mg_auths := map_put i (Some a) (mg_auths m)\<rparr>)"
  using assms set_map_put_subset [of i "Some a" "mg_auths m"] unfolding kept_def by (auto dest!: subsetD)

lemma kept_schedule:
  assumes "kept U P t m" "t \<le> ts" "trim_space (auth_ID a) = auth_ID a" "auth_ID a \<in> U"
  shows "kept U P ts (schedule a ts m)"
proof -
  have s: "mg_scheduler (schedule a ts m) = upsertAuthLocked (registered_models (mg_registry m)) (Some a) ts (mg_scheduler m)"
    by (simp add: schedule_def upsertAuth_def)
  note up = upsert_spec [OF keptD(1) [OF assms(1)] assms(2,3)]
  show ?thesis using assms(1,4) up(1) unfolding kept_def s up(2) by (auto split: if_splits)
qed

lemma kept_store:
  assumes "kept U P t m" "t \<le> ts" "auth_ID a = i" "trim_space i = i" "i \<in> U" "P (auth_Metadata a)"
  shows "kept U P ts (schedule a ts (m\<lparr>mg_auths := map_put i (Some a) (mg_auths m)\<rparr>))"
  using kept_schedule [OF kept_put [OF assms(1,3-6)] assms(2), of a] assms(3-5) by simp

lemma kept_marked:
  assumes "kept U P t m" "t \<le> ts"
  shows "kept U P ts (MarkResult env now ts h r m)"
proof (cases "res_AuthID r \<noteq> [] \<and> (\<exists>a. map_of (mg_auths m) (res_AuthID r) = Some (Some a))")
  case True
  then obtain a where a: "res_AuthID r \<noteq> []" "map_of (mg_auths m) (res_AuthID r) = Some (Some a)" by blast
  obtain b actions where b: "mark_auth (env_json env) (env_transientSeconds env) (cooldownDisabledForAuth env (Some a)) h r now a =
      (b, actions)" by fastforce
  have f: "auth_ID b = auth_ID a" "auth_Metadata b = auth_Metadata a"
    using mark_id [of "env_json env" "env_transientSeconds env" "cooldownDisabledForAuth env (Some a)" h r now a]
      mark_md [of "env_json env" "env_transientSeconds env" "cooldownDisabledForAuth env (Some a)" h r now a] by (simp_all add: b)
  have "kept U P ts (schedule b ts (m\<lparr>mg_auths := map_put (res_AuthID r) (Some b) (mg_auths m)\<rparr>))"
    by (rule kept_store [OF assms]) (use keptD(3) [OF assms(1) a(2)] f in simp_all)
  then show ?thesis using a by (simp add: MarkResult_def b Let_def)
next
  case False
  then have "MarkResult env now ts h r m = m" by (auto simp: MarkResult_def split: option.split)
  then show ?thesis using kept_later [OF assms] by simp
qed

lemma kept_neutral:
  assumes "kept U P t m"
  shows "kept U P t (recordAvailabilityNeutralResult now r m)"
proof (cases "res_AuthID r \<noteq> [] \<and> (\<exists>a. map_of (mg_auths m) (res_AuthID r) = Some (Some a))")
  case True
  then obtain a where a: "res_AuthID r \<noteq> []" "map_of (mg_auths m) (res_AuthID r) = Some (Some a)" by blast
  have "kept U P t (m\<lparr>mg_auths := map_put (res_AuthID r) (Some (count_result now (res_Success r) a)) (mg_auths m)\<rparr>)"
    by (rule kept_put [OF assms]) (use keptD(3) [OF assms a(2)] in \<open>simp_all add: keeps_id keeps_md\<close>)
  then show ?thesis using a by (simp add: recordAvailabilityNeutralResult_def)
next
  case False
  then have "recordAvailabilityNeutralResult now r m = m" by (auto simp: recordAvailabilityNeutralResult_def split: option.split)
  then show ?thesis using assms by simp
qed

text \<open>An update stores metadata with canonical keys.\<close>

definition normal_closed :: "((string \<times> go_any) list \<Rightarrow> bool) \<Rightarrow> bool" where
  "normal_closed P \<longleftrightarrow> (\<forall>m. P m \<longrightarrow> P (NormalizeCredentialMetadata m))"

lemma kept_update:
  assumes "kept U P t m" "t \<le> ts" "P (auth_Metadata a)" "normal_closed P"
  shows "kept U P ts (snd (Update env now ts (Some a) m))"
proof -
  have later: "kept U P ts m" by (rule kept_later [OF assms(1,2)])
  let ?a = "a\<lparr>auth_Metadata := NormalizeCredentialMetadata (auth_Metadata a)\<rparr>"
  show ?thesis
  proof (cases "auth_ID a \<noteq> [] \<and> ValidateAuthWeight (Some ?a) = None \<and> (\<exists>b. map_of (mg_auths m) (auth_ID a) = Some (Some b))")
    case True
    then obtain b where b: "auth_ID a \<noteq> []" "ValidateAuthWeight (Some ?a) = None" "map_of (mg_auths m) (auth_ID a) = Some (Some b)" by blast
    obtain changed d where d: "admit env now (inherit_state now b ?a) = (changed, d)" by fastforce
    have f: "auth_ID d = auth_ID a" "auth_Metadata d = NormalizeCredentialMetadata (auth_Metadata a)"
      using admit_id [of env now "inherit_state now b ?a"] admit_md [of env now "inherit_state now b ?a"]
      by (simp_all add: d keeps_id keeps_md)
    have "kept U P ts (schedule d ts (m\<lparr>mg_auths := map_put (auth_ID a) (Some d) (mg_auths m)\<rparr>))"
      by (rule kept_store [OF assms(1,2)]) (use keptD(3) [OF assms(1) b(3)] f assms(3,4) in \<open>simp_all add: normal_closed_def\<close>)
    then show ?thesis using b d by (simp add: Update_def Let_def store_auth_def f(1))
  next
    case False
    then have "snd (Update env now ts (Some a) m) = m" by (auto simp: Update_def Let_def split: option.split)
    then show ?thesis using later by simp
  qed
qed

lemma update_result_id:
  assumes "Update env now ts (Some a) m = (Inr (Some b), m')"
  shows "auth_ID b = auth_ID a"
proof -
  let ?a = "a\<lparr>auth_Metadata := NormalizeCredentialMetadata (auth_Metadata a)\<rparr>"
  obtain e where e: "b = snd (admit env now (inherit_state now e ?a))"
    using assms by (auto simp: Update_def Let_def split: if_splits option.splits prod.splits) (metis snd_conv)
  show ?thesis unfolding e keeps_id by simp
qed

lemma kept_sync:
  assumes "kept U P t m" "t \<le> ts"
  shows "kept U P ts (syncScheduler ts m)"
proof -
  let ?reg = "registered_models (mg_registry m)"
  have tr: "\<forall>a\<in>set (map snd (mg_auths m)). \<forall>b. a = Some b \<longrightarrow> trim_space (auth_ID b) = auth_ID b \<and> auth_ID b \<in> U"
    using keptD(2) [OF assms(1)] by fastforce
  have ok: "scheduler_ok ts (rebuild ?reg (map snd (mg_auths m)) ts (mg_scheduler m))"
    by (rule rebuild_ok [OF keptD(1) [OF assms(1)] assms(2)]) (use tr in blast)
  have "scheduler_ok ts s \<and> (\<forall>k i. known s k i \<noteq> None \<longrightarrow> i \<in> U) \<Longrightarrow>
      scheduler_ok ts (fold (\<lambda>a. upsertAuthLocked ?reg a ts) as s) \<and> (\<forall>k i. known (fold (\<lambda>a. upsertAuthLocked ?reg a ts) as s) k i \<noteq> None \<longrightarrow> i \<in> U)"
    if "\<forall>a\<in>set as. \<forall>b. a = Some b \<longrightarrow> trim_space (auth_ID b) = auth_ID b \<and> auth_ID b \<in> U" for as s
    using that
  proof (induction as arbitrary: s)
    case (Cons a as)
    have "scheduler_ok ts (upsertAuthLocked ?reg a ts s) \<and> (\<forall>k i. known (upsertAuthLocked ?reg a ts s) k i \<noteq> None \<longrightarrow> i \<in> U)"
    proof (cases a)
      case None
      then show ?thesis using Cons.prems(1) by (simp add: upsertAuthLocked_def)
    next
      case (Some b)
      have b: "trim_space (auth_ID b) = auth_ID b" "auth_ID b \<in> U" using Cons.prems(2) Some by simp_all
      note up = upsert_spec [OF Cons.prems(1) [THEN conjunct1] order_refl b(1), of ?reg]
      show ?thesis unfolding Some using up(1) Cons.prems(1) b(2) by (auto simp: up(2) split: if_splits)
    qed
    from Cons.IH [OF this] Cons.prems(2) show ?case by simp
  qed simp
  note step = this
  let ?s = "(mg_scheduler m)\<lparr>as_providers := [], as_authProviders := [], as_mixedCursors := [], as_mixedWeightedStates := []\<rparr>"
  have s: "scheduler_ok ts ?s" "known ?s = (\<lambda>k i. None)"
    using scheduler_ok_later [OF keptD(1) [OF assms(1)] assms(2)]
    by (simp_all add: scheduler_ok_def providers_ok_def located_def known_def fun_eq_iff)
  have "\<forall>k i. known (rebuild ?reg (map snd (mg_auths m)) ts (mg_scheduler m)) k i \<noteq> None \<longrightarrow> i \<in> U"
    using step [OF tr, of ?s] s by (simp add: rebuild_def)
  then show ?thesis using ok assms(1) by (simp add: kept_def syncScheduler_def)
qed

lemma kept_scheduler:
  assumes "kept U P t m" "scheduler_ok ts s'" "known s' = known (mg_scheduler m)"
  shows "kept U P ts (m\<lparr>mg_scheduler := s'\<rparr>)"
  using assms by (simp add: kept_def)

section \<open>Steps\<close>

record call =
  cl_auth :: Auth
  cl_request :: exec_request
  cl_error :: "exec_error option"

definition call_of :: "Auth \<Rightarrow> exec_request \<Rightarrow> exec_error option \<Rightarrow> call" where
  "call_of a q e = \<lparr>cl_auth = a, cl_request = q, cl_error = e\<rparr>"

definition error_of :: "exec_error + 'r \<Rightarrow> exec_error option" where
  "error_of r = (case r of Inl err \<Rightarrow> Some err | Inr _ \<Rightarrow> None)"

lemma call_fields [simp]:
  "cl_auth (call_of a q e) = a" "cl_request (call_of a q e) = q" "cl_error (call_of a q e) = e"
  "error_of (Inl err) = Some err" "error_of (Inr resp) = None"
  by (simp_all add: call_of_def error_of_def)

text \<open>What the outside world does besides serving calls.\<close>

inductive passes :: "('w, 'r) outside \<Rightarrow> 'w \<Rightarrow> 'w \<Rightarrow> bool" for o' where
  tick: "ou_tick o' w = (t, w') \<Longrightarrow> passes o' w w'"
| wait: "ou_wait o' d w = (x1, w') \<Longrightarrow> passes o' w w'"
| random: "ou_random o' n w = (x2, w') \<Longrightarrow> passes o' w w'"
| prepare: "ou_prepare o' p a w = (x3, w') \<Longrightarrow> passes o' w w'"
| refresh: "ou_refresh o' p a w = (x3, w') \<Longrightarrow> passes o' w w'"
| intercept: "ou_intercept o' p q x w = (x4, w') \<Longrightarrow> passes o' w w'"

inductive act :: "exec_env \<Rightarrow> ('w, 'r) outside \<Rightarrow> ((string \<times> go_any) list \<Rightarrow> bool) \<Rightarrow> 'w conductor \<Rightarrow> call list \<Rightarrow> 'w conductor \<Rightarrow> bool"
  for env o' P where
  pass: "passes o' (cn_world c) w \<Longrightarrow> act env o' P c [] (c\<lparr>cn_world := w\<rparr>)"
| call: "ou_execute o' p b a q x (cn_world c) = (r, w) \<Longrightarrow> act env o' P c [call_of a q (error_of r)] (c\<lparr>cn_world := w\<rparr>)"
| mark: "act env o' P c [] (marking env o' result c)"
| count: "act env o' P c [] (counting o' result c)"
| update: "P (auth_Metadata a) \<or> (\<exists>i b. (i, Some b) \<in> set (mg_auths (cn_manager c)) \<and> auth_Metadata a = auth_Metadata b) \<Longrightarrow>
    updating env o' a c = (u, c') \<Longrightarrow> act env o' P c [] c'"
| failing: "map_of (mg_auths (cn_manager c)) i = Some (Some a) \<Longrightarrow> act env o' P c [] (note_refresh_failure o' i err a c)"
| resume: "act env o' P c [] (resuming o' i models c)"
| index: "assign_index env a c = (a', c') \<Longrightarrow> act env o' P c [] c'"
| pick: "scheduler_pick o' (\<lambda>clk. pickMixed ctx providers model metadata tried clk) model c = (s, c') \<Longrightarrow> act env o' P c [] c'"
| models: "act env o' P c [] (c\<lparr>cn_models := r'\<rparr>)"
| selector: "act env o' P c [] (c\<lparr>cn_selector := sel\<rparr>)"

inductive acts :: "exec_env \<Rightarrow> ('w, 'r) outside \<Rightarrow> ((string \<times> go_any) list \<Rightarrow> bool) \<Rightarrow> 'w conductor \<Rightarrow> call list \<Rightarrow> 'w conductor \<Rightarrow> bool"
  for env o' P c where
  none: "acts env o' P c [] c"
| more: "acts env o' P c es c1 \<Longrightarrow> act env o' P c1 fs c2 \<Longrightarrow> acts env o' P c (es @ fs) c2"

lemma acts_trans:
  assumes "acts env o' P c es c1" "acts env o' P c1 fs c2"
  shows "acts env o' P c (es @ fs) c2"
  using assms(2,1)
proof (induction rule: acts.induct)
  case (more es' c1' fs' c2')
  then show ?case using acts.more [of env o' P c "es @ es'" c1' fs' c2'] by simp
qed simp

lemma acts_quiet: "acts env o' P c es c1 \<Longrightarrow> act env o' P c1 [] c2 \<Longrightarrow> acts env o' P c es c2"
  using acts.more [of env o' P c es c1 "[]" c2] by simp

lemma acts_call: "acts env o' P c es c1 \<Longrightarrow> act env o' P c1 [e] c2 \<Longrightarrow> acts env o' P c (es @ [e]) c2"
  by (rule acts.more)

lemma acts_pass: "acts env o' P c es c1 \<Longrightarrow> passes o' (cn_world c1) w \<Longrightarrow> acts env o' P c es (c1\<lparr>cn_world := w\<rparr>)"
  by (blast intro: acts_quiet act.pass)

lemma acts_tick: "tick o' c1 = (t, c2) \<Longrightarrow> acts env o' P c es c1 \<Longrightarrow> acts env o' P c es c2"
  by (auto simp: tick_def intro: acts_pass passes.tick split: prod.splits)

section \<open>Invariants\<close>

text \<open>The clock of the world never goes back.\<close>

definition orderly :: "('w, 'r) outside \<Rightarrow> ('w \<Rightarrow> gotime) \<Rightarrow> bool" where
  "orderly o' clock \<longleftrightarrow>
     (\<forall>w. clock w \<le> fst (ou_tick o' w) \<and> fst (ou_tick o' w) \<le> clock (snd (ou_tick o' w))) \<and>
     (\<forall>w w'. passes o' w w' \<longrightarrow> clock w \<le> clock w') \<and>
     (\<forall>p b a q x w. clock w \<le> clock (snd (ou_execute o' p b a q x w)))"

definition steady :: "('w \<Rightarrow> gotime) \<Rightarrow> string set \<Rightarrow> ((string \<times> go_any) list \<Rightarrow> bool) \<Rightarrow> 'w conductor \<Rightarrow> bool" where
  "steady clock U P c \<longleftrightarrow> kept U P (clock (cn_world c)) (cn_manager c)"

lemma tick_time:
  assumes "orderly o' clock" "tick o' c = (t, c')"
  shows "clock (cn_world c) \<le> t" "t \<le> clock (cn_world c')" "c' = c\<lparr>cn_world := cn_world c'\<rparr>"
proof -
  obtain w where w: "ou_tick o' (cn_world c) = (t, w)" "c' = c\<lparr>cn_world := w\<rparr>" using assms(2) by (auto simp: tick_def split: prod.splits)
  have "clock (cn_world c) \<le> t \<and> t \<le> clock w" using assms(1) w(1) unfolding orderly_def by (metis fst_conv snd_conv)
  then show "clock (cn_world c) \<le> t" "t \<le> clock (cn_world c')" "c' = c\<lparr>cn_world := cn_world c'\<rparr>" using w(2) by simp_all
qed

lemma tick_manager: "tick o' c = (t, c') \<Longrightarrow> cn_manager c' = cn_manager c"
  by (auto simp: tick_def split: prod.splits)

lemma steady_tick:
  assumes "orderly o' clock" "tick o' c = (t, c')" "steady clock U P c"
  shows "steady clock U P c'" "kept U P t (cn_manager c')" "t \<le> clock (cn_world c')"
proof -
  note t = tick_time [OF assms(1,2)]
  have m: "cn_manager c' = cn_manager c" by (rule tick_manager [OF assms(2)])
  show "kept U P t (cn_manager c')" unfolding m using assms(3) t(1) by (auto simp: steady_def intro: kept_later)
  then show "steady clock U P c'" unfolding steady_def using t(2) by (rule kept_later)
  show "t \<le> clock (cn_world c')" by (rule t(2))
qed

lemma steady_manager: "kept U P t m \<Longrightarrow> t \<le> clock (cn_world c) \<Longrightarrow> steady clock U P (c\<lparr>cn_manager := m\<rparr>)"
  by (simp add: steady_def kept_later)

lemma steady_marking:
  assumes "orderly o' clock" "steady clock U P c"
  shows "steady clock U P (marking env o' result c)"
proof -
  obtain now c1 ts c2 where t: "tick o' c = (now, c1)" "tick o' c1 = (ts, c2)" by (metis surj_pair)
  note s1 = steady_tick [OF assms(1) t(1) assms(2)] and s2 = steady_tick [OF assms(1) t(2) steady_tick(1) [OF assms(1) t(1) assms(2)]]
  have "kept U P ts (MarkResult (xn_manager env) now ts (ou_headers o' (cn_world c2)) result (cn_manager c2))"
    by (rule kept_marked [OF s2(2) order_refl])
  from steady_manager [where clock = clock and c = c2, OF this s2(3)] show ?thesis by (simp add: marking_def t)
qed

lemma steady_counting:
  assumes "orderly o' clock" "steady clock U P c"
  shows "steady clock U P (counting o' result c)"
proof -
  obtain now c1 where t: "tick o' c = (now, c1)" by (metis surj_pair)
  note s1 = steady_tick [OF assms(1) t assms(2)]
  have "kept U P now (recordAvailabilityNeutralResult now result (cn_manager c1))" by (rule kept_neutral [OF s1(2)])
  from steady_manager [where clock = clock and c = c1, OF this s1(3)] show ?thesis by (simp add: counting_def t)
qed

lemma steady_updating:
  assumes "orderly o' clock" "steady clock U P c" "P (auth_Metadata a)" "normal_closed P" "updating env o' a c = (r, c')"
  shows "steady clock U P c'"
proof -
  obtain now c1 ts c2 where t: "tick o' c = (now, c1)" "tick o' c1 = (ts, c2)" by (metis surj_pair)
  note s2 = steady_tick [OF assms(1) t(2) steady_tick(1) [OF assms(1) t(1) assms(2)]]
  have c': "c' = c2\<lparr>cn_manager := snd (Update (xn_manager env) now ts (Some a) (cn_manager c2))\<rparr>"
    using assms(5) by (simp add: updating_def t case_prod_beta)
  have "kept U P ts (snd (Update (xn_manager env) now ts (Some a) (cn_manager c2)))"
    by (rule kept_update [OF s2(2) order_refl assms(3,4)])
  from steady_manager [where clock = clock and c = c2, OF this s2(3)] show ?thesis by (simp only: c')
qed

lemma steady_failing:
  assumes "orderly o' clock" "steady clock U P c" "map_of (mg_auths (cn_manager c)) i = Some (Some a)"
  shows "steady clock U P (note_refresh_failure o' i err a c)"
proof -
  obtain now c1 ts c2 where t: "tick o' c = (now, c1)" "tick o' c1 = (ts, c2)" by (metis surj_pair)
  note s2 = steady_tick [OF assms(1) t(2) steady_tick(1) [OF assms(1) t(1) assms(2)]]
  have m: "cn_manager c2 = cn_manager c" using t by (simp add: tick_manager)
  have a: "auth_ID a = i \<and> trim_space i = i \<and> i \<in> U \<and> P (auth_Metadata a)"
    by (rule keptD(3) [OF s2(2)]) (simp add: m assms(3))
  have "kept U P ts (schedule (refresh_failed err now a) ts
      ((cn_manager c2)\<lparr>mg_auths := map_put i (Some (refresh_failed err now a)) (mg_auths (cn_manager c2))\<rparr>))"
    by (rule kept_store [OF s2(2) order_refl]) (use a in \<open>simp_all add: refresh_failed_fields\<close>)
  from steady_manager [where clock = clock and c = c2, OF this s2(3)] show ?thesis by (simp add: note_refresh_failure_def t Let_def)
qed

lemma steady_resuming:
  assumes "orderly o' clock" "steady clock U P c"
  shows "steady clock U P (resuming o' i models c)"
  using assms(2) unfolding resuming_def
proof (induction models arbitrary: c)
  case (Cons model models)
  obtain now c1 where t: "tick o' c = (now, c1)" by (metis surj_pair)
  have "steady clock U P (c1\<lparr>cn_manager := (cn_manager c1)\<lparr>mg_registry := r\<rparr>\<rparr>)" for r
    using steady_tick(1) [OF assms(1) t Cons.prems] by (simp add: steady_def)
  then show ?case using Cons.IH by (simp add: t)
qed simp

lemma assign_index_cases:
  assumes "assign_index env a c = (a', c')"
  obtains "a' = a" "c' = c"
  | b where "map_of (mg_auths (cn_manager c)) (auth_ID a) = Some (Some b)" "auth_ID a' = auth_ID b" "auth_Metadata a' = auth_Metadata b"
      "c' = c\<lparr>cn_manager := (cn_manager c)\<lparr>mg_auths := map_put (auth_ID a) (Some a') (mg_auths (cn_manager c))\<rparr>\<rparr>"
proof (cases "\<not> auth_indexAssigned a \<and> (\<exists>b. map_of (mg_auths (cn_manager c)) (auth_ID a) = Some (Some b) \<and> \<not> auth_indexAssigned b)")
  case True
  then obtain b where b: "map_of (mg_auths (cn_manager c)) (auth_ID a) = Some (Some b)" "\<not> auth_indexAssigned b" by blast
  let ?b = "EnsureIndex (env_abs_clean (xn_manager env)) (env_stableAuthIndex (xn_manager env)) b"
  have "assign_index env a c = (?b, c\<lparr>cn_manager := (cn_manager c)\<lparr>mg_auths := map_put (auth_ID a) (Some ?b) (mg_auths (cn_manager c))\<rparr>\<rparr>)"
    using True b by (simp add: assign_index_def Let_def)
  then have e: "a' = ?b" "c' = c\<lparr>cn_manager := (cn_manager c)\<lparr>mg_auths := map_put (auth_ID a) (Some a') (mg_auths (cn_manager c))\<rparr>\<rparr>"
    using assms by simp_all
  show thesis by (rule that(2) [OF b(1) _ _ e(2)]) (simp_all add: e(1) keeps_id keeps_md)
next
  case False
  then have "assign_index env a c = (a, c)" by (auto simp: assign_index_def split: option.split)
  then show thesis using that(1) assms by simp
qed

lemma steady_index:
  assumes "steady clock U P c" "assign_index env a c = (a', c')"
  shows "steady clock U P c'"
proof (cases rule: assign_index_cases [OF assms(2)])
  case (2 b)
  note k = assms(1) [unfolded steady_def]
  have "kept U P (clock (cn_world c)) ((cn_manager c)\<lparr>mg_auths := map_put (auth_ID a) (Some a') (mg_auths (cn_manager c))\<rparr>)"
    by (rule kept_put [OF k]) (use keptD(3) [OF k 2(1)] 2(2,3) in simp_all)
  then show ?thesis by (simp add: steady_def 2(4))
qed (use assms(1) in simp)

text \<open>A pick of the scheduler.\<close>

lemma clock_reading_times:
  assumes "orderly o' clock" "clock_reading o' c = (clk, c')"
  shows "monotone_clock (clock (cn_world c)) clk" "ck_error clk \<le> clock (cn_world c')" "c' = c\<lparr>cn_world := cn_world c'\<rparr>"
proof -
  obtain t1 c1 t2 c2 t3 c3 where t: "tick o' c = (t1, c1)" "tick o' c1 = (t2, c2)" "tick o' c2 = (t3, c3)" by (metis surj_pair)
  note T = tick_time [OF assms(1) t(1)] tick_time [OF assms(1) t(2)] tick_time [OF assms(1) t(3)]
  have c: "clk = \<lparr>ck_shard = t1, ck_pick = t2, ck_error = t3\<rparr>" "c' = c3" using assms(2) by (simp_all add: clock_reading_def t)
  show "monotone_clock (clock (cn_world c)) clk" "ck_error clk \<le> clock (cn_world c')" unfolding c using T by simp_all
  show "c' = c\<lparr>cn_world := cn_world c'\<rparr>" using T(3,6,9) unfolding c(2) by (metis (no_types, lifting) conductor.update_convs(8) conductor.surjective)
qed

lemma known_ID:
  assumes "scheduler_ok t s" "known s k i = Some meta"
  shows "auth_ID (sm_auth meta) = i" "trim_space i = i"
proof -
  show "auth_ID (sm_auth meta) = i"
    using assms by (auto simp: known_def scheduler_ok_def providers_ok_def provider_ok_def metas_ok_def split: option.splits)
  show "trim_space i = i" using assms located_known [of s k i] by (simp add: scheduler_ok_def)
qed

lemma mixed_pick_facts:
  assumes "kept U P t m" "monotone_clock t clk" "pickMixed ctx ps model metadata tried clk (mg_scheduler m) = (r, s')"
  shows "kept U P (ck_error clk) (m\<lparr>mg_scheduler := s'\<rparr>)"
    and "r = Inr (a, p) \<Longrightarrow> auth_ID a \<in> U \<and> auth_ID a \<notin> set tried \<and> trim_space (auth_ID a) = auth_ID a"
proof -
  note ok = keptD(1) [OF assms(1)]
  have t: "t \<le> ck_shard clk" "ck_shard clk \<le> ck_pick clk" "ck_pick clk \<le> ck_error clk" using assms(2) by simp_all
  note S = pick_mixed_spec [OF ok t assms(3) [unfolded pickMixed_def] refl]
  have S1: "scheduler_ok (ck_error clk) s'" "known s' = known (mg_scheduler m)" using S by blast+
  show "kept U P (ck_error clk) (m\<lparr>mg_scheduler := s'\<rparr>)" by (rule kept_scheduler [OF assms(1) S1])
  assume r: "r = Inr (a, p)"
  from S obtain now where n: "mixed_result (mg_scheduler m) (normalizeProviderKeys ps) (canonicalModelKey (canonicalModelKey model))
      (scheduledAuthPredicate (authSelectionEligibilityForRequest ctx metadata) tried (pinnedAuthIDFromMetadata metadata)
        (effective_strategy schedulerStrategyCurrent (mg_scheduler m) = schedulerStrategyWeightedRoundRobin)) now
      (mixed_prefers ctx (normalizeProviderKeys ps) metadata) r" by blast
  obtain i meta where i: "known (mg_scheduler m) p i = Some meta" "a = sm_auth meta" "auth_ID a \<notin> set tried"
    using n unfolding r by (auto simp: mixed_result_def dest: top_choice_able simp: serves_def scheduledAuthPredicate_def ready_entry_def)
  show "auth_ID a \<in> U \<and> auth_ID a \<notin> set tried \<and> trim_space (auth_ID a) = auth_ID a"
    using known_ID [OF ok i(1)] keptD(4) [OF assms(1) i(1)] i(2,3) by simp
qed

lemma with_mixed:
  assumes "orderly o' clock" "steady clock U P c" "clock_reading o' c = (clk, c1)"
    and "with_scheduler (pickMixed ctx ps model metadata tried clk) c1 = (r, c2)"
  shows "steady clock U P c2"
    and "r = Inr (a, p) \<Longrightarrow> auth_ID a \<in> U \<and> auth_ID a \<notin> set tried \<and> trim_space (auth_ID a) = auth_ID a"
proof -
  note T = clock_reading_times [OF assms(1,3)]
  have m: "cn_manager c1 = cn_manager c" using T(3) by (metis conductor.select_convs(1) conductor.surjective conductor.update_convs(8))
  obtain s' where s': "pickMixed ctx ps model metadata tried clk (mg_scheduler (cn_manager c1)) = (r, s')"
    "c2 = c1\<lparr>cn_manager := (cn_manager c1)\<lparr>mg_scheduler := s'\<rparr>\<rparr>"
    using assms(4) by (auto simp: with_scheduler_def split: prod.splits)
  have k: "kept U P (clock (cn_world c)) (cn_manager c1)" using assms(2) by (simp add: steady_def m)
  note F = mixed_pick_facts [OF k T(1) s'(1)]
  show "steady clock U P c2" unfolding s'(2)
    by (rule steady_manager [where clock = clock and c = c1, OF F(1) T(2)])
  show "r = Inr (a, p) \<Longrightarrow> auth_ID a \<in> U \<and> auth_ID a \<notin> set tried \<and> trim_space (auth_ID a) = auth_ID a" by (rule F(2))
qed

lemma scheduler_pick_facts:
  assumes "orderly o' clock" "steady clock U P c"
    and "scheduler_pick o' (\<lambda>clk. pickMixed ctx ps model metadata tried clk) model c = (r, c')"
  shows "steady clock U P c'"
    and "r = Inr (a, p) \<Longrightarrow> auth_ID a \<in> U \<and> auth_ID a \<notin> set tried \<and> trim_space (auth_ID a) = auth_ID a"
proof -
  obtain clk c1 where c1: "clock_reading o' c = (clk, c1)" by fastforce
  obtain r2 c2 where c2: "with_scheduler (pickMixed ctx ps model metadata tried clk) c1 = (r2, c2)" by fastforce
  note W = with_mixed [OF assms(1,2) c1 c2]
  have "steady clock U P c' \<and> (r = Inr (a, p) \<longrightarrow> auth_ID a \<in> U \<and> auth_ID a \<notin> set tried \<and> trim_space (auth_ID a) = auth_ID a)"
  proof (cases "\<exists>err. r2 = Inl err \<and> model \<noteq> [] \<and> shouldRetrySchedulerPick err")
    case False
    then have "r = r2" "c' = c2" using assms(3) by (auto simp: scheduler_pick_def c1 c2 split: sum.splits)
    then show ?thesis using W by simp
  next
    case True
    then obtain err where err: "r2 = Inl err" "model \<noteq> []" "shouldRetrySchedulerPick err" by blast
    obtain ts c3 where c3: "tick o' c2 = (ts, c3)" by fastforce
    note s3 = steady_tick [OF assms(1) c3 W(1)]
    let ?c4 = "c3\<lparr>cn_manager := syncScheduler ts (cn_manager c3)\<rparr>"
    have s4: "steady clock U P ?c4"
      by (rule steady_manager [where clock = clock and c = c3, OF kept_sync [OF s3(2) order_refl] s3(3)])
    obtain clk5 c5 where c5: "clock_reading o' ?c4 = (clk5, c5)" by fastforce
    have c': "with_scheduler (pickMixed ctx ps model metadata tried clk5) c5 = (r, c')"
      using assms(3) err by (simp add: scheduler_pick_def c1 c2 c3 c5)
    show ?thesis using with_mixed [OF assms(1) s4 c5 c'] by blast
  qed
  then show "steady clock U P c'"
    and "r = Inr (a, p) \<Longrightarrow> auth_ID a \<in> U \<and> auth_ID a \<notin> set tried \<and> trim_space (auth_ID a) = auth_ID a" by blast+
qed

lemma act_steady:
  assumes "act env o' P c es c'" "orderly o' clock" "normal_closed P" "steady clock U P c"
  shows "steady clock U P c'"
  using assms(1)
proof cases
  case (pass w)
  then show ?thesis using assms(2,4) by (auto simp: steady_def orderly_def intro: kept_later)
next
  case (call p b a q x r w)
  have "clock (cn_world c) \<le> clock w" using assms(2) call(3) unfolding orderly_def by (metis snd_conv)
  then show ?thesis using assms(4) call(2) by (auto simp: steady_def intro: kept_later)
next
  case (update a u)
  have "P (auth_Metadata a)" using update(2) keptD(2) [OF assms(4) [unfolded steady_def]] by auto
  then show ?thesis by (rule steady_updating [OF assms(2,4) _ assms(3) update(3)])
next
  case (failing i a err)
  show ?thesis unfolding failing(2) by (rule steady_failing [OF assms(2,4) failing(3)])
next
  case (pick ctx ps model metadata tried r)
  show ?thesis by (rule scheduler_pick_facts(1) [OF assms(2,4) pick(2)])
qed (use assms(2,4) in \<open>auto simp: steady_marking steady_counting steady_resuming steady_index\<close>,
  (use assms(4) in \<open>simp_all add: steady_def\<close>)?)

lemma acts_steady:
  assumes "acts env o' P c es c'" "orderly o' clock" "normal_closed P" "steady clock U P c"
  shows "steady clock U P c'"
  using assms(1) by (induction rule: acts.induct) (auto intro: act_steady assms(2-4))

text \<open>A journal kept by the world holds the calls; the settings of the conductor do not change.\<close>

definition calm :: "('w, 'r) outside \<Rightarrow> ('w \<Rightarrow> call list) \<Rightarrow> bool" where
  "calm o' J \<longleftrightarrow> (\<forall>w w'. passes o' w w' \<longrightarrow> J w' = J w)"

definition journals :: "('w, 'r) outside \<Rightarrow> ('w \<Rightarrow> call list) \<Rightarrow> bool" where
  "journals o' J \<longleftrightarrow> calm o' J \<and> (\<forall>p b a q x w r w'. ou_execute o' p b a q x w = (r, w') \<longrightarrow> J w' = J w @ [call_of a q (error_of r)])"

definition follows :: "('w \<Rightarrow> call list) \<Rightarrow> 'w conductor \<Rightarrow> call list \<Rightarrow> 'w conductor \<Rightarrow> bool" where
  "follows J c es c' \<longleftrightarrow> J (cn_world c') = J (cn_world c) @ es \<and> cn_executors c' = cn_executors c \<and> cn_retry c' = cn_retry c \<and>
     cn_config c' = cn_config c \<and> cn_antigravityCredits c' = cn_antigravityCredits c"

lemma follows_refl [simp]: "follows J c [] c"
  by (simp add: follows_def)

lemma follows_trans: "follows J c es c1 \<Longrightarrow> follows J c1 fs c2 \<Longrightarrow> follows J c (es @ fs) c2"
  by (simp add: follows_def)

lemma follows_calm: "follows J c [] c1 \<Longrightarrow> follows J c1 [] c2 \<Longrightarrow> follows J c [] c2"
  by (simp add: follows_def)

lemma follows_parts [simp]:
  "follows J c es (c'\<lparr>cn_manager := m\<rparr>) = follows J c es c'" "follows J c es (c'\<lparr>cn_models := r\<rparr>) = follows J c es c'"
  "follows J c es (c'\<lparr>cn_selector := x\<rparr>) = follows J c es c'"
  "follows J (c\<lparr>cn_manager := m\<rparr>) es c' = follows J c es c'"
  by (simp_all add: follows_def)

lemma follows_tick:
  assumes "calm o' J" "tick o' c = (t, c')"
  shows "follows J c [] c'"
proof -
  obtain w where w: "ou_tick o' (cn_world c) = (t, w)" "c' = c\<lparr>cn_world := w\<rparr>" using assms(2) by (auto simp: tick_def split: prod.splits)
  have "passes o' (cn_world c) w" by (rule passes.tick [OF w(1)])
  then show ?thesis using assms(1) by (simp add: w(2) follows_def calm_def)
qed

lemma follows_ticks:
  assumes "calm o' J"
  shows "tick o' c = (t1, c1) \<Longrightarrow> tick o' c1 = (t2, c2) \<Longrightarrow> follows J c [] c2"
  using follows_calm follows_tick [OF assms] by blast

lemma follows_reading:
  assumes "calm o' J" "clock_reading o' c = (clk, c')"
  shows "follows J c [] c'"
proof -
  obtain t1 c1 t2 c2 t3 c3 where t: "tick o' c = (t1, c1)" "tick o' c1 = (t2, c2)" "tick o' c2 = (t3, c3)" by (metis surj_pair)
  have "c' = c3" using assms(2) by (simp add: clock_reading_def t)
  then show ?thesis using follows_calm [OF follows_ticks [OF assms(1) t(1,2)] follows_tick [OF assms(1) t(3)]] by simp
qed

lemma follows_scheduler:
  assumes "calm o' J" "scheduler_pick o' pick model c = (r, c')"
  shows "follows J c [] c'"
proof -
  have W: "follows J c0 [] c2" if "clock_reading o' c0 = (clk, c1)" "with_scheduler p c1 = (r2, c2)" for c0 clk c1 p r2 c2
    using follows_reading [OF assms(1) that(1)] that(2) by (auto simp: with_scheduler_def split: prod.splits)
  obtain clk c1 where c1: "clock_reading o' c = (clk, c1)" by fastforce
  obtain r2 c2 where c2: "with_scheduler (pick clk) c1 = (r2, c2)" by fastforce
  show ?thesis
  proof (cases "\<exists>err. r2 = Inl err \<and> model \<noteq> [] \<and> shouldRetrySchedulerPick err")
    case False
    then have "c' = c2" using assms(2) by (auto simp: scheduler_pick_def c1 c2 split: sum.splits)
    then show ?thesis using W [OF c1 c2] by simp
  next
    case True
    then obtain err where err: "r2 = Inl err" "model \<noteq> []" "shouldRetrySchedulerPick err" by blast
    obtain ts c3 where c3: "tick o' c2 = (ts, c3)" by fastforce
    let ?c4 = "c3\<lparr>cn_manager := syncScheduler ts (cn_manager c3)\<rparr>"
    obtain clk5 c5 where c5: "clock_reading o' ?c4 = (clk5, c5)" by fastforce
    have c': "with_scheduler (pick clk5) c5 = (r, c')"
      using assms(2) err by (simp add: scheduler_pick_def c1 c2 c3 c5)
    show ?thesis
      using follows_calm [OF follows_calm [OF W [OF c1 c2] follows_tick [OF assms(1) c3]]] W [OF c5 c'] by simp
  qed
qed

lemma follows_marking: "calm o' J \<Longrightarrow> follows J c [] (marking env o' result c)"
  by (auto simp: marking_def split: prod.split intro: follows_ticks)

lemma follows_counting: "calm o' J \<Longrightarrow> follows J c [] (counting o' result c)"
  by (auto simp: counting_def split: prod.split intro: follows_tick)

lemma follows_updating: "calm o' J \<Longrightarrow> updating env o' a c = (r, c') \<Longrightarrow> follows J c [] c'"
  by (auto simp: updating_def split: prod.splits intro: follows_ticks)

lemma follows_failing: "calm o' J \<Longrightarrow> follows J c [] (note_refresh_failure o' i err a c)"
  by (auto simp: note_refresh_failure_def Let_def split: prod.split intro: follows_ticks)

lemma follows_resuming:
  assumes "calm o' J"
  shows "follows J c [] (resuming o' i models c)"
  unfolding resuming_def
proof (induction models arbitrary: c)
  case (Cons model models)
  obtain now c1 where t: "tick o' c = (now, c1)" by (metis surj_pair)
  show ?case using follows_calm [OF _ Cons.IH] follows_tick [OF assms t] by (simp add: t)
qed simp

lemma follows_index:
  assumes "assign_index env a c = (a', c')"
  shows "follows J c [] c'"
  by (cases rule: assign_index_cases [OF assms]) simp_all

lemma act_calm:
  assumes "act env o' P c es c'" "calm o' J"
  shows "es = [] \<and> follows J c [] c' \<or> (\<exists>p b a q x r w. es = [call_of a q (error_of r)] \<and> ou_execute o' p b a q x (cn_world c) = (r, w) \<and> c' = c\<lparr>cn_world := w\<rparr>)"
  using assms(1)
proof cases
  case (pass w)
  then show ?thesis using assms(2) by (auto simp: follows_def calm_def)
next
  case (update a u)
  show ?thesis using follows_updating [OF assms(2) update(3)] by (simp add: update(1))
next
  case (index a a')
  show ?thesis using follows_index [OF index(2)] by (simp add: index(1))
next
  case (pick ctx ps model metadata tried r)
  show ?thesis using follows_scheduler [OF assms(2) pick(2)] by (simp add: pick(1))
qed (blast | simp add: follows_marking follows_counting follows_failing follows_resuming assms(2))+

lemma act_follows:
  assumes "act env o' P c es c'" "journals o' J"
  shows "follows J c es c'"
proof -
  have "calm o' J" using assms(2) by (simp add: journals_def)
  from act_calm [OF assms(1) this] show ?thesis
  proof (elim disjE exE conjE)
    fix p b a q x r w
    assume call: "es = [call_of a q (error_of r)]" "ou_execute o' p b a q x (cn_world c) = (r, w)" "c' = c\<lparr>cn_world := w\<rparr>"
    have "J w = J (cn_world c) @ [call_of a q (error_of r)]" using assms(2) call(2) unfolding journals_def by blast
    then show ?thesis by (simp add: call(1,3) follows_def)
  qed simp
qed

lemma acts_follows:
  assumes "acts env o' P c es c'" "journals o' J"
  shows "follows J c es c'"
  using assms(1) by (induction rule: acts.induct) (auto intro: follows_trans act_follows assms(2))

lemma act_settings:
  assumes "act env o' P c es c'"
  shows "cn_executors c' = cn_executors c \<and> cn_retry c' = cn_retry c \<and> cn_config c' = cn_config c \<and>
    cn_antigravityCredits c' = cn_antigravityCredits c"
proof -
  have "calm o' (\<lambda>_. [])" by (simp add: calm_def)
  from act_calm [OF assms this] show ?thesis by (auto simp: follows_def)
qed

lemma acts_settings:
  assumes "acts env o' P c es c'"
  shows "cn_executors c' = cn_executors c" "cn_retry c' = cn_retry c" "cn_config c' = cn_config c"
    "cn_antigravityCredits c' = cn_antigravityCredits c"
proof -
  have "cn_executors c' = cn_executors c \<and> cn_retry c' = cn_retry c \<and> cn_config c' = cn_config c \<and>
      cn_antigravityCredits c' = cn_antigravityCredits c"
    using assms by (induction rule: acts.induct) (auto dest: act_settings)
  then show "cn_executors c' = cn_executors c" "cn_retry c' = cn_retry c" "cn_config c' = cn_config c"
    "cn_antigravityCredits c' = cn_antigravityCredits c" by blast+
qed

end
