(* ===== verification/Execution_Acts.thy ===== *)
theory Execution_Acts
  imports Execution_Trace
begin

text \<open>
  The functions of \<open>Execution\<close> as steps: which calls each of them makes, on which credential, and what its
  outcome says about the last of them.
\<close>

section \<open>Assumptions on the outside world\<close>

text \<open>Preparing or refreshing a credential gives it new tokens, not another ID; \<open>P\<close> holds of the metadata.\<close>

definition honest :: "('w, 'r) outside \<Rightarrow> ((string \<times> go_any) list \<Rightarrow> bool) \<Rightarrow> bool" where
  "honest o' P \<longleftrightarrow> (\<forall>p a w u w'. ou_prepare o' p a w = (Inr (Some u), w') \<or> ou_refresh o' p a w = (Inr (Some u), w') \<longrightarrow>
     auth_ID u = auth_ID a \<and> P (auth_Metadata u))"

section \<open>Preparing and refreshing\<close>

lemma updating_id: "updating env o' a c = (Inr (Some b), c') \<Longrightarrow> auth_ID b = auth_ID a"
  by (auto simp: updating_def split: prod.splits dest: update_result_id)

lemma prepare_acts:
  assumes "prepareRequestAuth env o' p a c = ((b, e), c')" "honest o' P" "steady clock U P c" "trim_space (auth_ID a) = auth_ID a"
  shows "acts env o' P c [] c' \<and> auth_ID b = auth_ID a"
proof -
  let ?t = "case map_of (mg_auths (cn_manager c)) (auth_ID a) of Some (Some current) \<Rightarrow> current | _ \<Rightarrow> a"
  have t: "auth_ID ?t = auth_ID a"
    using keptD(3) [OF assms(3) [unfolded steady_def]] by (auto split: option.split)
  show ?thesis
  proof (cases "ou_should_prepare o' p a \<and> ou_should_prepare o' p ?t")
    case False
    then show ?thesis using assms(1,4) t by (auto simp: prepareRequestAuth_def Let_def acts.none split: if_splits)
  next
    case True
    obtain r w where r: "ou_prepare o' p ?t (cn_world c) = (r, w)" by fastforce
    have pass: "acts env o' P c [] (c\<lparr>cn_world := w\<rparr>)" by (rule acts_pass [OF acts.none passes.prepare [OF r]])
    consider err where "r = Inl err" | "r = Inr None" | u where "r = Inr (Some u)" by (metis obj_sumE option.exhaust)
    then show ?thesis
    proof cases
      case (3 u)
      have u: "auth_ID u = auth_ID a" "P (auth_Metadata u)"
        using assms(2) r t unfolding 3 honest_def by metis+
      obtain x c1 where x: "updating env o' u (c\<lparr>cn_world := w\<rparr>) = (x, c1)" by fastforce
      have acts: "acts env o' P c [] c1" by (rule acts_quiet [OF pass act.update [OF _ x]]) (simp add: u(2))
      consider err where "x = Inl err" | "x = Inr None" | s where "x = Inr (Some s)" by (metis obj_sumE option.exhaust)
      then show ?thesis
      proof cases
        case (3 s)
        then show ?thesis using assms(1,4) True r \<open>r = Inr (Some u)\<close> x acts u(1) updating_id [of env o' u "c\<lparr>cn_world := w\<rparr>" s c1]
          by (simp add: prepareRequestAuth_def Let_def)
      qed (use assms(1,4) True r 3 x acts u(1) in \<open>simp_all add: prepareRequestAuth_def Let_def\<close>)
    qed (use assms(1,4) True r t pass in \<open>simp_all add: prepareRequestAuth_def Let_def\<close>)
  qed
qed

lemma refresh_acts:
  assumes "refreshAuthForRequest env o' i tok c = (r, c')" "honest o' P" "steady clock U P c"
  shows "acts env o' P c [] c' \<and> (\<forall>b. r = Some b \<longrightarrow> auth_ID b = trim_space i)"
proof (cases "trim_space i \<noteq> [] \<and> (\<exists>a. map_of (mg_auths (cn_manager c)) (trim_space i) = Some (Some a))")
  case False
  then have "r = None" "c' = c" using assms(1) by (auto simp: refreshAuthForRequest_def Let_def split: if_splits option.splits)
  then show ?thesis by (simp add: acts.none)
next
  case True
  then obtain a where a: "trim_space i \<noteq> []" "map_of (mg_auths (cn_manager c)) (trim_space i) = Some (Some a)" by blast
  have id: "auth_ID a = trim_space i" using keptD(3) [OF assms(3) [unfolded steady_def] a(2)] by simp
  let ?key = "executorKeyFromAuth (Some a)"
  consider "?key \<notin> set (cn_executors c)" | "?key \<in> set (cn_executors c)" "tok \<noteq> [] \<and> authAccessToken a \<noteq> [] \<and> authAccessToken a \<noteq> tok"
    | "?key \<in> set (cn_executors c)" "\<not> (tok \<noteq> [] \<and> authAccessToken a \<noteq> [] \<and> authAccessToken a \<noteq> tok)" by blast
  then show ?thesis
  proof cases
    case 3
    obtain x w where x: "ou_refresh o' ?key a (cn_world c) = (x, w)" by fastforce
    have pass: "acts env o' P c [] (c\<lparr>cn_world := w\<rparr>)" by (rule acts_pass [OF acts.none passes.refresh [OF x]])
    show ?thesis
    proof (cases x)
      case (Inl err)
      have "acts env o' P c [] (note_refresh_failure o' (trim_space i) err a (c\<lparr>cn_world := w\<rparr>))"
        by (rule acts_quiet [OF pass act.failing]) (simp add: a(2))
      then show ?thesis using assms(1) a 3 x Inl pass by (auto simp: refreshAuthForRequest_def Let_def)
    next
      case (Inr updated)
      let ?u = "case updated of None \<Rightarrow> a | Some u \<Rightarrow> u"
      have u: "auth_ID ?u = trim_space i" "P (auth_Metadata ?u) \<or> auth_Metadata ?u = auth_Metadata a"
        using assms(2) x id unfolding Inr honest_def by (auto split: option.splits)
      obtain now c1 until c2 where t: "tick o' (c\<lparr>cn_world := w\<rparr>) = (now, c1)" "tick o' c1 = (until, c2)" by (metis surj_pair)
      obtain d ms where d: "refresh_done env now until ?u = (d, ms)" by fastforce
      have dd: "auth_ID d = trim_space i" "auth_Metadata d = auth_Metadata ?u"
        using refresh_done_fields [of env now until ?u] u(1) by (simp_all add: d)
      obtain y c3 where y: "updating env o' d c2 = (y, c3)" by fastforce
      have "cn_manager c2 = cn_manager c" using tick_manager [OF t(2)] tick_manager [OF t(1)] by simp
      then have "P (auth_Metadata d) \<or> (\<exists>j b. (j, Some b) \<in> set (mg_auths (cn_manager c2)) \<and> auth_Metadata d = auth_Metadata b)"
        using u(2) dd(2) map_of_SomeD [OF a(2)] by auto
      then have "acts env o' P c [] c3"
        by (rule acts_quiet [OF acts_tick [OF t(2) acts_tick [OF t(1) pass]] act.update [OF _ y]])
      then have acts: "acts env o' P c [] (resuming o' (trim_space i) ms c3)" by (rule acts_quiet [OF _ act.resume])
      have "r = Some (case y of Inr (Some saved) \<Rightarrow> saved | _ \<Rightarrow> d)" "c' = resuming o' (trim_space i) ms c3"
        using assms(1) a 3 x Inr t d y by (auto simp: refreshAuthForRequest_def Let_def)
      then show ?thesis using acts dd(1) updating_id [of env o' d c2 _ c3] y by (auto split: sum.split option.split)
    qed
  qed (use assms(1) a id in \<open>auto simp: refreshAuthForRequest_def Let_def acts.none\<close>)
qed

lemma try_refresh_acts:
  assumes "tryRefreshAfterUnauthorized env o' a err d c = ((b, ok), c')" "honest o' P" "steady clock U P c"
    and "trim_space (auth_ID a) = auth_ID a"
  shows "acts env o' P c [] c' \<and> auth_ID b = auth_ID a"
    and "ok \<Longrightarrow> isUnauthorizedError err \<and> \<not> xe_RequestScoped err"
proof -
  obtain r c1 where r: "refreshAuthForRequest env o' (auth_ID a) (authAccessToken a) c = (r, c1)" by fastforce
  note R = refresh_acts [OF r assms(2,3)]
  let ?skip = "d \<or> xe_RequestScoped err \<or> \<not> isUnauthorizedError err \<or> \<not> authHasRefreshCredential a"
  have e: "((b, ok), c') = (if ?skip then ((a, False), c) else case r of None \<Rightarrow> ((a, False), c1) | Some x \<Rightarrow> ((x, True), c1))"
    unfolding assms(1) [symmetric] by (simp add: tryRefreshAfterUnauthorized_def r)
  show "acts env o' P c [] c' \<and> auth_ID b = auth_ID a"
  proof (cases ?skip)
    case True
    then show ?thesis using e by (simp add: acts.none)
  next
    case False
    then have e': "((b, ok), c') = (case r of None \<Rightarrow> ((a, False), c1) | Some x \<Rightarrow> ((x, True), c1))" using e by (simp only: if_False)
    show ?thesis
    proof (cases r)
      case None
      then have "b = a" "c' = c1" using e' by simp_all
      with R show ?thesis by blast
    next
      case (Some x)
      then have "b = x" "c' = c1" using e' by simp_all
      with R Some assms(4) show ?thesis by metis
    qed
  qed
  show "ok \<Longrightarrow> isUnauthorizedError err \<and> \<not> xe_RequestScoped err" using e by (cases ?skip) simp_all
qed

section \<open>Calls of a credential\<close>

definition on :: "string \<Rightarrow> call list \<Rightarrow> bool" where
  "on i es \<longleftrightarrow> (\<forall>e\<in>set es. auth_ID (cl_auth e) = i)"

lemma on_simps [simp]: "on i []" "on i (e # es) \<longleftrightarrow> auth_ID (cl_auth e) = i \<and> on i es" "on i (es @ fs) \<longleftrightarrow> on i es \<and> on i fs"
  by (auto simp: on_def)

text \<open>An answer that blames the request and does not lead to a refresh.\<close>

definition fault :: "json_lib \<Rightarrow> call \<Rightarrow> bool" where
  "fault lib e \<longleftrightarrow> (\<exists>err. cl_error e = Some err \<and> exec_isRequestInvalidError lib err \<and> (xe_RequestScoped err \<or> \<not> isUnauthorizedError err))"

definition faultless :: "json_lib \<Rightarrow> call list \<Rightarrow> bool" where
  "faultless lib es \<longleftrightarrow> (\<forall>e\<in>set es. \<not> fault lib e)"

lemma faultless_simps [simp]: "faultless lib []" "faultless lib (e # es) \<longleftrightarrow> \<not> fault lib e \<and> faultless lib es"
  "faultless lib (es @ fs) \<longleftrightarrow> faultless lib es \<and> faultless lib fs"
  by (auto simp: faultless_def)

text \<open>A fault can only be the last call, and then the outcome \<open>ok\<close> says that nothing follows.\<close>

definition ends_at_fault :: "json_lib \<Rightarrow> bool \<Rightarrow> call list \<Rightarrow> bool" where
  "ends_at_fault lib ok es \<longleftrightarrow> faultless lib (butlast es) \<and> (\<not> faultless lib es \<longrightarrow> ok)"

lemma ends_faultless [simp]: "faultless lib es \<Longrightarrow> ends_at_fault lib ok es"
  by (auto simp: ends_at_fault_def faultless_def dest: in_set_butlastD)

lemma ends_append: "faultless lib es \<Longrightarrow> ends_at_fault lib ok fs \<Longrightarrow> ends_at_fault lib ok (es @ fs)"
  by (auto simp: ends_at_fault_def butlast_append faultless_def dest: in_set_butlastD)

definition sound :: "('w, 'r) outside \<Rightarrow> ('w \<Rightarrow> gotime) \<Rightarrow> ((string \<times> go_any) list \<Rightarrow> bool) \<Rightarrow> bool" where
  "sound o' clock P \<longleftrightarrow> orderly o' clock \<and> honest o' P \<and> normal_closed P"

lemma sound_steady: "sound o' clock P \<Longrightarrow> acts env o' P c es c' \<Longrightarrow> steady clock U P c \<Longrightarrow> steady clock U P c'"
  unfolding sound_def by (blast intro: acts_steady)

lemma call_upstream_cases:
  fixes c :: "'w conductor"
  assumes "call_upstream env o' p q x a d c = (r, c')"
  obtains resp w where "ou_execute o' p False a q x (cn_world c) = (Inr resp, w)" "r = Inr (Inr resp, a, d)" "c' = c\<lparr>cn_world := w\<rparr>"
  | err w e where "ou_execute o' p False a q x (cn_world c) = (Inl err, w)" "ou_ctx o' w = Some e" "r = Inl e" "c' = c\<lparr>cn_world := w\<rparr>"
  | err w b where "ou_execute o' p False a q x (cn_world c) = (Inl err, w)" "ou_ctx o' w = None"
      "tryRefreshAfterUnauthorized env o' a err d (c\<lparr>cn_world := w\<rparr>) = ((b, False), c')" "r = Inr (Inl err, b, d)"
  | err w b c1 res w' where "ou_execute o' p False a q x (cn_world c) = (Inl err, w)" "ou_ctx o' w = None"
      "tryRefreshAfterUnauthorized env o' a err d (c\<lparr>cn_world := w\<rparr>) = ((b, True), c1)"
      "ou_execute o' p False b q x (cn_world c1) = (res, w')" "c' = c1\<lparr>cn_world := w'\<rparr>"
      "r = Inr (res, b, True) \<or> (\<exists>e. ou_ctx o' w' = Some e \<and> r = Inl e)"
proof -
  obtain res0 w where e: "ou_execute o' p False a q x (cn_world c) = (res0, w)" by fastforce
  show thesis
  proof (cases res0)
    case (Inr resp)
    show ?thesis by (rule that(1) [OF e [unfolded Inr]]) (use assms in \<open>simp_all add: call_upstream_def e Inr\<close>)
  next
    case (Inl err)
    note e = e [unfolded Inl]
    show ?thesis
    proof (cases "ou_ctx o' w")
      case (Some errCtx)
      show ?thesis by (rule that(2) [OF e Some]) (use assms in \<open>simp_all add: call_upstream_def e Some\<close>)
    next
      case None
      obtain b ok c1 where t: "tryRefreshAfterUnauthorized env o' a err d (c\<lparr>cn_world := w\<rparr>) = ((b, ok), c1)" by (metis surj_pair)
      show ?thesis
      proof (cases ok)
        case False
        have "r = Inr (Inl err, b, d)" "c' = c1" using assms by (simp_all add: call_upstream_def e None t False)
        then show ?thesis using that(3) [OF e None] t False by simp
      next
        case True
        obtain res w' where e2: "ou_execute o' p False b q x (cn_world c1) = (res, w')" by fastforce
        have "c' = c1\<lparr>cn_world := w'\<rparr> \<and> (r = Inr (res, b, True) \<or> (\<exists>e. ou_ctx o' w' = Some e \<and> r = Inl e))"
          using assms by (cases res; cases "ou_ctx o' w'") (simp_all add: call_upstream_def e None t True e2)
        moreover have "tryRefreshAfterUnauthorized env o' a err d (c\<lparr>cn_world := w\<rparr>) = ((b, True), c1)" using t True by simp
        ultimately show ?thesis using that(4) [OF e None _ e2] by blast
      qed
    qed
  qed
qed

lemma upstream_acts:
  assumes "call_upstream env o' p q x a d c = (r, c')" "sound o' clock P" "steady clock U P c" "trim_space (auth_ID a) = auth_ID a"
  shows "\<exists>es e. acts env o' P c (es @ [e]) c' \<and> on (auth_ID a) (es @ [e]) \<and> faultless lib es \<and>
    (case r of Inl err \<Rightarrow> \<exists>w. ou_ctx o' w = Some err
     | Inr (res, b, d') \<Rightarrow> auth_ID b = auth_ID a \<and> cl_error e = error_of res)"
proof -
  have h: "honest o' P" using assms(2) by (simp add: sound_def)
  have first: "acts env o' P c [call_of a q (error_of r0)] (c\<lparr>cn_world := w\<rparr>)" if "ou_execute o' p False a q x (cn_world c) = (r0, w)" for r0 w
    using acts_call [OF acts.none act.call [OF that]] by simp
  show ?thesis
  proof (cases rule: call_upstream_cases [OF assms(1)])
    case (1 resp w)
    show ?thesis using first [OF 1(1)] unfolding 1(2,3)
      by (intro exI [of _ "[]"] exI [of _ "call_of a q None"]) simp
  next
    case (2 err w e)
    show ?thesis using first [OF 2(1)] 2(2) unfolding 2(3,4)
      by (intro exI [of _ "[]"] exI [of _ "call_of a q (Some err)"]) auto
  next
    case (3 err w b)
    have "steady clock U P (c\<lparr>cn_world := w\<rparr>)" by (rule sound_steady [OF assms(2) first [OF 3(1)] assms(3)])
    note R = try_refresh_acts(1) [OF 3(3) h this assms(4)]
    then have "acts env o' P c [call_of a q (Some err)] c'" using acts_trans [OF first [OF 3(1)], of "[]" c'] by simp
    then show ?thesis using R unfolding 3(4)
      by (intro exI [of _ "[]"] exI [of _ "call_of a q (Some err)"]) simp
  next
    case (4 err w b c1 res w')
    have "steady clock U P (c\<lparr>cn_world := w\<rparr>)" by (rule sound_steady [OF assms(2) first [OF 4(1)] assms(3)])
    note R = try_refresh_acts [OF 4(3) h this assms(4)]
    have "acts env o' P c [call_of a q (Some err)] c1" using acts_trans [OF first [OF 4(1)], of "[]" c1] R(1) by simp
    then have "acts env o' P c ([call_of a q (Some err)] @ [call_of b q (error_of res)]) c'"
      unfolding 4(5) by (rule acts_call) (rule act.call [OF 4(4)])
    moreover have "\<not> fault lib (call_of a q (Some err))" using R(2) by (auto simp: fault_def)
    ultimately show ?thesis using R(1) 4(6)
      by (intro exI [of _ "[call_of a q (Some err)]"] exI [of _ "call_of b q (error_of res)"]) auto
  qed
qed

section \<open>The models of a credential\<close>

text \<open>Errors of a context have no status, and no rule of the configuration applies.\<close>

definition plain_ctx :: "('w, 'r) outside \<Rightarrow> bool" where
  "plain_ctx o' \<longleftrightarrow> (\<forall>w e. ou_ctx o' w = Some e \<longrightarrow> statusCodeFromError e = 0)"

definition ruleless :: "exec_env \<Rightarrow> 'w conductor \<Rightarrow> bool" where
  "ruleless env c \<longleftrightarrow> (\<forall>a err. rule_for env c a err = None)"

definition closes :: "json_lib \<Rightarrow> exec_error + 'r \<Rightarrow> bool" where
  "closes lib r \<longleftrightarrow> (case r of Inr _ \<Rightarrow> True | Inl err \<Rightarrow> exec_isRequestInvalidError lib err \<or> statusCodeFromError err = 0)"

lemma ruleless_acts: "acts env o' P c es c' \<Longrightarrow> ruleless env c' = ruleless env c"
  by (simp add: ruleless_def acts_settings(3))

lemma cancellation_closes:
  assumes "claudeOAuthRequestCancellation ctx a err = Some e" "\<forall>x. ctx = Some x \<longrightarrow> statusCodeFromError x = 0"
  shows "statusCodeFromError e = 0 \<or> err = Some e"
  using assms by (auto simp: claudeOAuthRequestCancellation_def split: if_splits option.splits)

text \<open>What an attempt did: the calls were made on one credential, and a fault was the last.\<close>

definition attempted_well :: "exec_env \<Rightarrow> ('w, 'r) outside \<Rightarrow> ((string \<times> go_any) list \<Rightarrow> bool) \<Rightarrow> string \<Rightarrow> 'w conductor \<Rightarrow> bool \<Rightarrow> 'w conductor \<Rightarrow> bool" where
  "attempted_well env o' P i c ok c' \<longleftrightarrow> (\<exists>es. acts env o' P c es c' \<and> on i es \<and>
     (plain_ctx o' \<and> ruleless env c \<longrightarrow> ends_at_fault (xn_json env) ok es))"

definition went_on :: "exec_env \<Rightarrow> ('w, 'r) outside \<Rightarrow> ((string \<times> go_any) list \<Rightarrow> bool) \<Rightarrow> string \<Rightarrow> 'w conductor \<Rightarrow> Auth \<Rightarrow> 'w conductor \<Rightarrow> bool" where
  "went_on env o' P i c b c' \<longleftrightarrow> (\<exists>es. acts env o' P c es c' \<and> on i es \<and> auth_ID b = i \<and>
     (plain_ctx o' \<and> ruleless env c \<longrightarrow> faultless (xn_json env) es))"

lemma report_quiet: "acts env o' P c es c1 \<Longrightarrow> acts env o' P c es (report_failure env o' alt a p m err c1)"
  by (auto simp: report_failure_def Let_def intro: acts_quiet act.mark act.count)

lemma attempt_acts:
  assumes "sound o' clock P" "steady clock U P c" "trim_space (auth_ID a) = auth_ID a"
  shows "case attempt_model env o' info p opts m a d c of
      Finished r c' \<Rightarrow> attempted_well env o' P (auth_ID a) c (closes (xn_json env) r) c'
    | NextModel err b d' c' \<Rightarrow> went_on env o' P (auth_ID a) c b c'
    | NextCredential err b c' \<Rightarrow> went_on env o' P (auth_ID a) c b c'"
proof -
  let ?lib = "xn_json env"
  let ?m = "stateModelForExecution (xn_decode env) (cn_models c) (Some a) (rn_routeModel info) m (pr_pooled p)"
  let ?q = "(rn_request info)\<lparr>xq_Model := (case rn_executionModel info of None \<Rightarrow> m | Some m' \<Rightarrow> m')\<rparr>"
  obtain q w where q: "ou_intercept o' (pr_provider p) ?q opts (cn_world c) = (q, w)" by fastforce
  have pass: "acts env o' P c [] (c\<lparr>cn_world := w\<rparr>)" by (rule acts_pass [OF acts.none passes.intercept [OF q]])
  show ?thesis
  proof (cases q)
    case (Inl err)
    then show ?thesis using pass by (auto simp: attempt_model_def Let_def q attempted_well_def intro!: exI [of _ "[]"])
  next
    case intercepted: (Inr qx)
    obtain q' x where qx: "qx = (q', x)" by fastforce
    obtain r c1 where r: "call_upstream env o' (pr_provider p) q' x a d (c\<lparr>cn_world := w\<rparr>) = (r, c1)" by fastforce
    obtain es e where es: "acts env o' P c (es @ [e]) c1" "on (auth_ID a) (es @ [e])" "faultless ?lib es"
      and res: "case r of Inl err \<Rightarrow> \<exists>w. ou_ctx o' w = Some err
        | Inr (res, b, d') \<Rightarrow> auth_ID b = auth_ID a \<and> cl_error e = error_of res"
      using upstream_acts [OF r assms(1) sound_steady [OF assms(1) pass assms(2)] assms(3), of ?lib] acts_trans [OF pass] by fastforce
    have fin: "attempted_well env o' P (auth_ID a) c ok c'" if "acts env o' P c (es @ [e]) c'"
      "plain_ctx o' \<Longrightarrow> ruleless env c \<Longrightarrow> fault ?lib e \<Longrightarrow> ok" for ok c'
      unfolding attempted_well_def using that es by (intro exI [of _ "es @ [e]"]) (auto intro!: ends_append simp: ends_at_fault_def)
    have nxt: "went_on env o' P (auth_ID a) c b c'" if "acts env o' P c (es @ [e]) c'"
      "plain_ctx o' \<Longrightarrow> ruleless env c \<Longrightarrow> \<not> fault ?lib e" "auth_ID b = auth_ID a" for b c'
      unfolding went_on_def using that es by (intro exI [of _ "es @ [e]"]) auto
    let ?A = "attempt_model env o' info p opts m a d c"
    show ?thesis
    proof (cases r)
      case (Inl err)
      then have "?A = Finished (Inl err) c1" by (simp add: attempt_model_def Let_def q intercepted qx r)
      moreover have "attempted_well env o' P (auth_ID a) c (closes ?lib (Inl err :: exec_error + 'b)) c1"
        by (rule fin [OF es(1)]) (use res Inl in \<open>auto simp: closes_def plain_ctx_def\<close>)
      ultimately show ?thesis by simp
    next
      case (Inr y)
      obtain res1 b d' where y: "y = (res1, b, d')" by (metis surj_pair)
      have b: "auth_ID b = auth_ID a" "cl_error e = error_of res1" using res by (simp_all add: Inr y)
      let ?ctx = "ou_ctx o' (cn_world c1)"
      show ?thesis
      proof (cases "claudeOAuthRequestCancellation ?ctx b (error_of res1)")
        case (Some errCancel)
        then have "?A = Finished (Inl errCancel) c1"
          by (simp add: attempt_model_def Let_def q intercepted qx r Inr y error_of_def)
        moreover have "attempted_well env o' P (auth_ID a) c (closes ?lib (Inl errCancel :: exec_error + 'b)) c1"
        proof (rule fin [OF es(1)])
          assume "plain_ctx o'" "fault ?lib e"
          then show "closes ?lib (Inl errCancel :: exec_error + 'b)"
            using cancellation_closes [OF Some] b(2) by (auto simp: plain_ctx_def closes_def fault_def)
        qed
        ultimately show ?thesis by simp
      next
        case None
        show ?thesis
        proof (cases res1)
          case ok: (Inr resp)
          let ?c2 = "marking env o' (call_result ?lib (auth_ID b) (pr_provider p) ?m None) c1"
          let ?r = "Inr (respond o' (pr_routing p) b (rn_routeModel info) m (pr_alias p) resp) :: exec_error + 'b"
          have "?A = Finished ?r ?c2"
            using None by (simp add: attempt_model_def Let_def q intercepted qx r Inr y ok error_of_def)
          moreover have "attempted_well env o' P (auth_ID a) c (closes ?lib ?r) ?c2"
            by (rule fin [OF acts_quiet [OF es(1) act.mark]]) (simp add: closes_def)
          ultimately show ?thesis by simp
        next
          case failed: (Inl err)
          let ?action = "rule_for env c1 b err"
          let ?c2 = "report_failure env o' (xo_Alt x) b (pr_provider p) ?m err c1"
          let ?invalid = "isResponsesCompactRequestFaultError ?lib (xo_Alt x) err \<or> exec_isRequestInvalidError ?lib err"
          have A: "?A = (if isRequestScopedStop ?action then Finished (Inl (wrapRequestStopError err)) ?c2
              else if ?action = None \<and> ?invalid then Finished (Inl err) ?c2
              else if xe_CredentialScoped err then NextCredential err b ?c2 else NextModel err b d' ?c2)"
            using None by (simp add: attempt_model_def Let_def q intercepted qx r Inr y failed error_of_def)
          have acts: "acts env o' P c (es @ [e]) ?c2" by (rule report_quiet [OF es(1)])
          have none: "ruleless env c \<Longrightarrow> ?action = None" using ruleless_acts [OF es(1)] by (simp add: ruleless_def)
          have e: "fault ?lib e \<Longrightarrow> exec_isRequestInvalidError ?lib err" using b(2) failed by (auto simp: fault_def)
          have 1: "attempted_well env o' P (auth_ID a) c ok ?c2" if "isRequestScopedStop ?action" for ok
            by (rule fin [OF acts]) (use that none in \<open>simp add: isRequestScopedStop_def\<close>)
          have 2: "attempted_well env o' P (auth_ID a) c (closes ?lib (Inl err :: exec_error + 'b)) ?c2"
            by (rule fin [OF acts]) (use e in \<open>simp add: closes_def\<close>)
          have 3: "went_on env o' P (auth_ID a) c b ?c2" if "\<not> (?action = None \<and> ?invalid)"
            by (rule nxt [OF acts _ b(1)]) (use that none e in blast)
          show ?thesis unfolding A using 1 2 3 by (simp split: if_split)
        qed
      qed
    qed
  qed
qed

lemma went_on_trans:
  assumes "went_on env o' P i c b c1"
  shows "attempted_well env o' P i c1 ok c' \<Longrightarrow> attempted_well env o' P i c ok c'"
    and "went_on env o' P i c1 b' c' \<Longrightarrow> went_on env o' P i c b' c'"
proof -
  obtain es where es: "acts env o' P c es c1" "on i es" "plain_ctx o' \<and> ruleless env c \<longrightarrow> faultless (xn_json env) es"
    using assms unfolding went_on_def by blast
  note r = ruleless_acts [OF es(1)]
  show "attempted_well env o' P i c1 ok c' \<Longrightarrow> attempted_well env o' P i c ok c'"
    unfolding attempted_well_def r using acts_trans [OF es(1)] es(2,3) ends_append [of "xn_json env" es] on_simps(3) by blast
  show "went_on env o' P i c1 b' c' \<Longrightarrow> went_on env o' P i c b' c'"
    unfolding went_on_def r using acts_trans [OF es(1)] es(2,3) faultless_simps(3) [of "xn_json env" es] on_simps(3) by blast
qed

lemma went_on_steady: "sound o' clock P \<Longrightarrow> went_on env o' P i c b c' \<Longrightarrow> steady clock U P c \<Longrightarrow> steady clock U P c'"
  unfolding went_on_def by (blast intro: sound_steady)

lemma quiet_went_on: "acts env o' P c [] c' \<Longrightarrow> auth_ID b = i \<Longrightarrow> went_on env o' P i c b c'"
  unfolding went_on_def by (intro exI [of _ "[]"]) simp

lemma quiet_attempted: "acts env o' P c [] c' \<Longrightarrow> attempted_well env o' P i c ok c'"
  unfolding attempted_well_def by (intro exI [of _ "[]"]) simp

lemma went_on_quiet: "went_on env o' P i c b c1 \<Longrightarrow> act env o' P c1 [] c2 \<Longrightarrow> went_on env o' P i c b c2"
  unfolding went_on_def by (blast intro: acts_quiet)

lemma went_on_stop: "went_on env o' P i c b c' \<Longrightarrow> attempted_well env o' P i c ok c'"
  unfolding went_on_def attempted_well_def by (blast intro: ends_faultless)

lemma models_acts:
  assumes "sound o' clock P" "steady clock U P c" "trim_space (auth_ID a) = auth_ID a"
    and "try_models env o' info p opts e a d ms c = (r, c')"
  shows "case r of Inl res \<Rightarrow> attempted_well env o' P (auth_ID a) c (closes (xn_json env) res) c'
    | Inr (_, b) \<Rightarrow> went_on env o' P (auth_ID a) c b c'"
  using assms(2-4)
proof (induction ms arbitrary: e a d c)
  case Nil
  then show ?case by (auto simp: quiet_went_on acts.none)
next
  case (Cons m ms)
  note A = attempt_acts [OF assms(1) Cons.prems(1,2), of env info p opts m d]
  show ?case
  proof (cases "attempt_model env o' info p opts m a d c")
    case (Finished res c1)
    then show ?thesis using A Cons.prems(3) by auto
  next
    case (NextModel err b d' c1)
    then have w: "went_on env o' P (auth_ID a) c b c1" using A by simp
    then have b: "auth_ID b = auth_ID a" by (auto simp: went_on_def)
    have n: "try_models env o' info p opts (Some err) b d' ms c1 = (r, c')" using Cons.prems(3) NextModel by simp
    have t: "trim_space (auth_ID b) = auth_ID b" using Cons.prems(2) b by simp
    show ?thesis
      using Cons.IH [OF went_on_steady [OF assms(1) w Cons.prems(1)] t n] went_on_trans [OF w]
      unfolding b by (auto split: sum.splits)
  next
    case (NextCredential err b c1)
    then show ?thesis using A Cons.prems(3) by auto
  qed
qed

lemma use_acts:
  assumes "sound o' clock P" "steady clock U P (mx_conductor st)" "trim_space (auth_ID a) = auth_ID a"
  shows "case use_credential env o' info p ms a st of
      Inl (r, c') \<Rightarrow> attempted_well env o' P (auth_ID a) (mx_conductor st) (closes (xn_json env) r) c'
    | Inr st' \<Rightarrow> (\<exists>b. went_on env o' P (auth_ID a) (mx_conductor st) b (mx_conductor st')) \<and>
        mx_tried st' = mx_tried st \<and> mx_attempted st' = mx_attempted st"
proof -
  let ?c = "mx_conductor st"
  obtain b e c1 where p: "prepareRequestAuth env o' (pr_provider p) a ?c = ((b, e), c1)" by (metis surj_pair)
  have h: "honest o' P" using assms(1) by (simp add: sound_def)
  note pa = prepare_acts [OF p h assms(2,3)]
  have w: "went_on env o' P (auth_ID a) ?c b c1" using pa by (simp add: quiet_went_on)
  show ?thesis
  proof (cases e)
    case (Some err)
    show ?thesis
    proof (cases "claudeOAuthRequestCancellation (ou_ctx o' (cn_world c1)) b (Some err)")
      case cancelled: (Some errCancel)
      then show ?thesis using pa by (simp add: use_credential_def p Some quiet_attempted)
    next
      case None
      then show ?thesis using went_on_quiet [OF w act.mark] by (auto simp: use_credential_def p Some)
    qed
  next
    case None
    obtain r c2 where m: "try_models env o' info p (mx_opts st) None b False ms c1 = (r, c2)" by fastforce
    have t: "trim_space (auth_ID b) = auth_ID b" "auth_ID b = auth_ID a" using pa assms(3) by simp_all
    note M = models_acts [OF assms(1) went_on_steady [OF assms(1) w assms(2)] t(1) m, unfolded t(2)]
    show ?thesis
    proof (cases r)
      case (Inl res)
      then show ?thesis using M went_on_trans(1) [OF w] by (simp add: use_credential_def p None m)
    next
      case (Inr y)
      obtain authErr b' where y: "y = (authErr, b')" by fastforce
      have w2: "went_on env o' P (auth_ID a) ?c b' c2" using M went_on_trans(2) [OF w] by (simp add: Inr y)
      have "attempted_well env o' P (auth_ID a) ?c ok c2" for ok by (rule went_on_stop [OF w2])
      then show ?thesis using w2 by (cases authErr) (auto simp: use_credential_def p None m Inr y Let_def)
    qed
  qed
qed

section \<open>Picking\<close>

lemma route_collect_rep:
  assumes "bucket_rep m l"
  shows "\<exists>l'. bucket_rep (fst (route_collect check now auths m n e)) (l @ l') \<and> set l' \<subseteq> set auths"
  using assms
proof (induction auths arbitrary: m l n e)
  case (Cons a auths)
  obtain blocked reason ts where b: "isAuthBlockedForModel (Some a) (check a) now = (blocked, reason, ts)" by (metis surj_pair)
  show ?case
  proof (cases blocked)
    case True
    then have "\<exists>n' e'. route_collect check now (a # auths) m n e = route_collect check now auths m n' e'"
      by (auto simp: b)
    then show ?thesis using Cons.IH [OF Cons.prems] by (metis set_subset_Cons subset_trans)
  next
    case False
    obtain l' where "bucket_rep (fst (route_collect check now auths (bucket_append (authPriority (Some a)) a m) n e)) ((l @ [a]) @ l')"
      "set l' \<subseteq> set auths" using Cons.IH [OF bucket_rep_append [OF Cons.prems]] by blast
    then show ?thesis using False by (intro exI [of _ "a # l'"]) (auto simp: b)
  qed
qed (auto intro!: exI [of _ "[]"])

lemma route_available:
  assumes "availableAuthsForRouteModelWithPriorityMode check auths provider model now False = Inr l"
  shows "set l \<subseteq> set auths"
proof -
  obtain m n e where m: "route_collect check now auths [] 0 zero_time = (m, n, e)" by (metis surj_pair)
  have "bucket_rep [] []" by (simp add: bucket_rep_def)
  from route_collect_rep [OF this, of check now auths 0 zero_time] obtain l' where l': "bucket_rep m l'" "set l' \<subseteq> set auths"
    by (auto simp: m)
  have "l = availableAuthsFromPriorityBuckets m False \<and> m \<noteq> []"
    using assms by (auto simp: availableAuthsForRouteModelWithPriorityMode_def m Let_def split: if_splits)
  then have "set l \<subseteq> set l'" using flatten_top [OF l'(1)] bucket_rep_empty [OF l'(1)] by (auto simp: top_tier_def)
  then show ?thesis using l'(2) by blast
qed

lemma selector_member:
  assumes "selector_Pick ctx provider model auths now sel = (Inr a, sel')"
  shows "Some a \<in> set auths"
proof (cases sel)
  case (RoundRobin s)
  then have "fst (rr_Pick ctx provider model auths now s) = Inr a" using assms by (cases "rr_Pick ctx provider model auths now s") (simp add: selector_Pick_def)
  then show ?thesis using rrs.pick_sound by blast
next
  case (WeightedRoundRobin s)
  then have "fst (wrr_Pick ctx provider model auths now s) = Inr a" using assms by (cases "wrr_Pick ctx provider model auths now s") (simp add: selector_Pick_def)
  then show ?thesis using wrrs.pick_sound by blast
next
  case FillFirst
  then have "fst (ff_Pick ctx provider model auths now ()) = Inr a" using assms by (cases "ff_Pick ctx provider model auths now ()") (simp add: selector_Pick_def)
  then show ?thesis using ffs.pick_sound by blast
qed

text \<open>A pick is a credential not tried yet.\<close>

abbreviation fresh_pick :: "string set \<Rightarrow> string list \<Rightarrow> Auth \<Rightarrow> bool" where
  "fresh_pick U tried a \<equiv> auth_ID a \<in> U \<and> auth_ID a \<notin> set tried \<and> trim_space (auth_ID a) = auth_ID a"

lemma index_acts:
  assumes "assign_index env a c = (a', c')" "steady clock U P c"
  shows "act env o' P c [] c' \<and> auth_ID a' = auth_ID a"
proof -
  have "auth_ID a' = auth_ID a"
    by (cases rule: assign_index_cases [OF assms(1)]) (use keptD(3) [OF assms(2) [unfolded steady_def]] in auto)
  then show ?thesis using act.index [OF assms(1)] by blast
qed

lemma select_acts:
  assumes "select_candidate env o' ctx provider model candidates c = (r, c')" "orderly o' clock" "normal_closed P" "steady clock U P c"
    and "\<forall>a\<in>set candidates. fresh_pick U tried a"
  shows "acts env o' P c [] c'" and "r = Inr a \<Longrightarrow> fresh_pick U tried a"
proof -
  obtain now c1 ts c2 where t: "tick o' c = (now, c1)" "tick o' c1 = (ts, c2)" by (metis surj_pair)
  have T: "acts env o' P c [] c1" "acts env o' P c [] c2" using acts_tick [OF t(1) acts.none] acts_tick [OF t(2)] by blast+
  have "acts env o' P c [] c' \<and> (r = Inr a \<longrightarrow> fresh_pick U tried a)"
  proof (cases "candidates = []")
    case True
    then show ?thesis using assms(1) by (auto simp: select_candidate_def acts.none)
  next
    case False
    let ?check = "\<lambda>a. selectionModelForAuth (xn_decode env) (cn_models c1) (Some a) model"
    show ?thesis
    proof (cases "availableAuthsForRouteModelWithPriorityMode ?check candidates provider model now False")
      case (Inl err)
      then have "r = Inl err" "c' = c1" using assms(1) False by (simp_all add: select_candidate_def t)
      then show ?thesis using T(1) by simp
    next
      case (Inr available)
      let ?ctx = "withWeightedSelectorStateModel \<lparr>pc_websocket = rc_downstreamWebsocket ctx, pc_routeModel = None\<rparr>
        (is_weighted (cn_selector c2)) model"
      obtain x sel where x: "selector_Pick ?ctx provider [] (map Some available) ts (cn_selector c2) = (x, sel)" by fastforce
      have S: "acts env o' P c [] (c2\<lparr>cn_selector := sel\<rparr>)" by (rule acts_quiet [OF T(2) act.selector])
      show ?thesis
      proof (cases x)
        case err: (Inl err)
        then have "r = Inl (restoreModelCooldownErrorModel model err)" "c' = c2\<lparr>cn_selector := sel\<rparr>"
          using assms(1) False by (simp_all add: select_candidate_def t Inr x)
        then show ?thesis using S by simp
      next
        case picked: (Inr b)
        have "b \<in> set candidates" using selector_member [OF x [unfolded picked]] route_available [OF Inr] by auto
        then have b: "fresh_pick U tried b" using assms(5) by blast
        obtain d c3 where d: "assign_index env b (c2\<lparr>cn_selector := sel\<rparr>) = (d, c3)" by fastforce
        have st: "steady clock U P (c2\<lparr>cn_selector := sel\<rparr>)" by (rule acts_steady [OF S assms(2-4)])
        note D = index_acts [OF d st]
        have "r = Inr d" "c' = c3" using assms(1) False picked d by (simp_all add: select_candidate_def t Inr x)
        then show ?thesis using b D acts_quiet [OF S] by auto
      qed
    qed
  qed
  then show "acts env o' P c [] c'" and "r = Inr a \<Longrightarrow> fresh_pick U tried a" by blast+
qed

lemma candidates_fresh:
  assumes "steady clock U P c" "a \<in> set (route_candidates env accepts model el pinned tried c)"
  shows "fresh_pick U tried a"
proof -
  obtain i where i: "(i, Some a) \<in> set (mg_auths (cn_manager c))" "route_candidate env accepts model el pinned tried c a"
    using assms(2) by (auto simp: route_candidates_def split: option.splits if_splits)
  show ?thesis using keptD(2) [OF assms(1) [unfolded steady_def] i(1)] i(2) by (auto simp: route_candidate_def)
qed

lemma legacy_acts:
  assumes "pickNextMixedLegacy env o' ctx ps model md tried c = (r, c')" "orderly o' clock" "normal_closed P" "steady clock U P c"
  shows "acts env o' P c [] c'" and "r = Inr (a, p) \<Longrightarrow> fresh_pick U tried a"
proof -
  let ?accepts = "\<lambda>key. key \<noteq> [] \<and> key \<in> set (provider_set ps) \<and> key \<in> set (cn_executors c)"
  let ?cands = "route_candidates env ?accepts model (authSelectionEligibilityForRequest ctx md) (pinnedAuthIDFromMetadata md) tried c"
  obtain x c1 where x: "select_candidate env o' ctx ''mixed'' model ?cands c = (x, c1)" by fastforce
  have fresh: "\<forall>a\<in>set ?cands. fresh_pick U tried a" using candidates_fresh [OF assms(4)] by blast
  note S = select_acts [OF x assms(2-4) fresh]
  have e: "(r, c') = (if provider_set ps = [] then (Inl (auth_error ''provider_not_found'' ''no provider supplied''), c)
      else case x of Inl err \<Rightarrow> (Inl err, c1)
        | Inr a \<Rightarrow> if has_executor (executorKeyFromAuth (Some a)) c1 then (Inr (a, executorKeyFromAuth (Some a)), c1)
                   else (Inl (auth_error ''executor_not_found'' ''executor not registered''), c1))"
    unfolding assms(1) [symmetric] by (simp add: pickNextMixedLegacy_def Let_def x split: sum.split)
  show "acts env o' P c [] c'" using e S(1) by (cases x) (auto simp: acts.none split: if_splits)
  show "fresh_pick U tried a" if "r = Inr (a, p)" using e that S(2) by (cases x) (auto split: if_splits)
qed

lemma pick_acts:
  assumes "pickNextMixed env o' ctx ps model md tried c = ((r, md'), c')" "orderly o' clock" "normal_closed P" "steady clock U P c"
  shows "acts env o' P c [] c' \<and> (r = Inr (a, p) \<longrightarrow> fresh_pick U tried a)"
proof -
  let ?md = "affinity_note ''mixed'' model md"
  let ?ps = "eligible_loop c [] ps"
  obtain x c1 where x: "pickNextMixedLegacy env o' ctx ps model (affinity_note ''mixed'' [] ?md) tried c = (x, c1)" by fastforce
  note L = legacy_acts [OF x assms(2-4)]
  obtain y c2 where y: "scheduler_pick o' (\<lambda>clk. pickMixed ctx ?ps model ?md tried clk) model c = (y, c2)" by fastforce
  have S: "acts env o' P c [] c2" by (rule acts_quiet [OF acts.none act.pick [OF y]])
  note F = scheduler_pick_facts [OF assms(2,4) y]
  let ?route = "trim_space model \<noteq> [] \<and> (\<exists>(_, auth)\<in>set (mg_auths (cn_manager c)). case auth of
      None \<Rightarrow> False
    | Some a \<Rightarrow> \<not> auth_Disabled a \<and> executorKeyFromAuth auth \<in> set ?ps \<and> allows (authSelectionEligibilityForRequest ctx ?md) auth \<and>
        auth_ID a \<notin> set tried \<and> routeAwareSelectionRequired (xn_decode env) (cn_models c) a model)"
  consider "?ps = []" | "?ps \<noteq> []" ?route | "?ps \<noteq> []" "\<not> ?route" by blast
  then show ?thesis
  proof cases
    case 1
    then show ?thesis using assms(1) by (auto simp: pickNextMixed_def Let_def acts.none)
  next
    case 2
    then have "r = x" "c' = c1" using assms(1) by (simp_all add: pickNextMixed_def Let_def x)
    then show ?thesis using L by blast
  next
    case 3
    show ?thesis
    proof (cases y)
      case (Inl err)
      then have "r = Inl err" "c' = c2" using assms(1) 3 y by (simp_all add: pickNextMixed_def Let_def)
      then show ?thesis using S by simp
    next
      case (Inr z)
      obtain b k where z: "z = (b, k)" by fastforce
      have b: "fresh_pick U tried b" using F(2) Inr z by blast
      obtain d c3 where d: "assign_index env b c2 = (d, c3)" by fastforce
      note D = index_acts [where o' = o', OF d F(1)]
      have e: "(r, c') = (if \<not> has_executor k c2 then (Inl (auth_error ''executor_not_found'' ''executor not registered''), c2) else (Inr (d, k), c3))"
        using assms(1) 3 y Inr z d by (simp add: pickNextMixed_def Let_def split: if_splits)
      have "acts env o' P c [] c3" using acts_quiet [OF S] D by blast
      moreover have "fresh_pick U tried d" using D b by simp
      ultimately show ?thesis using e S by (cases "has_executor k c2") auto
    qed
  qed
qed

end
