(* ===== verification/Execution_Laws.thy ===== *)
theory Execution_Laws
  imports Execution_Acts
begin

text \<open>
  What the execution of a request guarantees: it comes to an end, a round tries every credential once and no more
  of them than configured, and an answer that blames the request is the last one. The locale \<open>ending\<close> is the
  contract of a loop with a measure; it is interpreted for the loop over the credentials of a round and for the
  loop over the rounds.
\<close>

section \<open>Loops that end\<close>

locale ending =
  fixes f :: "'s \<Rightarrow> ('a + 's) option" and I :: "'s \<Rightarrow> bool" and m :: "'s \<Rightarrow> nat" and Q :: "'s \<Rightarrow> 'a \<Rightarrow> bool"
  assumes runs: "I s \<Longrightarrow> f s \<noteq> None"
    and stops: "I s \<Longrightarrow> f s = Some (Inl a) \<Longrightarrow> Q s a"
    and keeps: "I s \<Longrightarrow> f s = Some (Inr s') \<Longrightarrow> I s'"
    and falls: "I s \<Longrightarrow> f s = Some (Inr s') \<Longrightarrow> m s' < m s"
    and adds: "I s \<Longrightarrow> f s = Some (Inr s') \<Longrightarrow> Q s' a \<Longrightarrow> Q s a"
begin

lemma returns: "I s \<Longrightarrow> \<exists>a. repeat_step f s = Some a \<and> Q s a"
proof (induction "m s" arbitrary: s rule: less_induct)
  case less
  obtain r where r: "f s = Some r" using runs [OF less.prems] by blast
  show ?case
  proof (cases r)
    case (Inl a)
    then show ?thesis using stops [OF less.prems] r by (auto simp: repeat_step.simps [of f s])
  next
    case (Inr s')
    note r = r [unfolded Inr]
    obtain a where "repeat_step f s' = Some a" "Q s' a"
      using less.hyps [OF falls [OF less.prems r] keeps [OF less.prems r]] by blast
    then show ?thesis using adds [OF less.prems r] r by (auto simp: repeat_step.simps [of f s])
  qed
qed

end

section \<open>A round\<close>

lemma publish_id: "publishSelectedAuthMetadata env a opts = (a', opts') \<Longrightarrow> auth_ID a' = auth_ID a"
  by (auto simp: publishSelectedAuthMetadata_def Let_def keeps_id split: if_splits)

text \<open>One pass: it ends the round, or it tries a credential that was not tried before.\<close>

lemma mixed_step_acts:
  assumes "sound o' clock P" "steady clock U P (mx_conductor st)"
  shows "case mixed_step env o' ctx ps n info st of
      Inl (r, c') \<Rightarrow> acts env o' P (mx_conductor st) [] c' \<or>
        (\<exists>i\<in>U - set (mx_tried st). (n > 0 \<longrightarrow> int (length (mx_attempted st)) < n) \<and>
          attempted_well env o' P i (mx_conductor st) (closes (xn_json env) r) c')
    | Inr st' \<Rightarrow> \<exists>i\<in>U - set (mx_tried st). mx_tried st' = i # mx_tried st \<and>
        (mx_attempted st' = mx_attempted st \<and> acts env o' P (mx_conductor st) [] (mx_conductor st') \<or>
         mx_attempted st' = add_once i (mx_attempted st) \<and> (n > 0 \<longrightarrow> int (length (mx_attempted st)) < n) \<and>
         (\<exists>b. went_on env o' P i (mx_conductor st) b (mx_conductor st')))"
proof -
  let ?c = "mx_conductor st"
  have o: "orderly o' clock" "normal_closed P" using assms(1) by (simp_all add: sound_def)
  obtain r md c1 where p: "pickNextMixed env o' ctx ps (rn_routeModel info) (xo_Metadata (mx_opts st)) (mx_tried st) ?c = ((r, md), c1)"
    by (metis surj_pair)
  note A = pick_acts [OF p o assms(2)]
  show ?thesis
  proof (cases "n > 0 \<and> int (length (mx_attempted st)) \<ge> n")
    case True
    then show ?thesis by (simp add: mixed_step_def acts.none)
  next
    case False
    show ?thesis
    proof (cases r)
      case (Inl err)
      then show ?thesis using A by (auto simp: mixed_step_def p acts.none)
    next
      case (Inr y)
      obtain a p' where y: "y = (a, p')" by fastforce
      have a: "fresh_pick U (mx_tried st) a" using A Inr y by blast
      obtain a' opts' where a': "publishSelectedAuthMetadata env a ((mx_opts st)\<lparr>xo_Metadata := md\<rparr>) = (a', opts')" by fastforce
      obtain now c2 where t: "tick o' c1 = (now, c2)" by fastforce
      obtain models pooled al rt where m: "preparedExecutionModelsWithAlias (xn_decode env) now (Some a') (rn_routeModel info) (cn_models c2) =
          ((models, pooled, al), rt)" by (metis surj_pair)
      have id: "auth_ID a' = auth_ID a" by (rule publish_id [OF a'])
      have q: "acts env o' P ?c [] (c2\<lparr>cn_models := rt\<rparr>)"
        by (rule acts_quiet [OF acts_tick [OF t] act.models]) (use A in blast)
      let ?st = "st\<lparr>mx_tried := auth_ID a' # mx_tried st, mx_opts := opts', mx_conductor := c2\<lparr>cn_models := rt\<rparr>\<rparr>"
      let ?p = "\<lparr>pr_provider = p', pr_pooled = pooled, pr_alias = al, pr_routing = mo_routing rt\<rparr>"
      let ?st1 = "?st\<lparr>mx_attempted := add_once (auth_ID a') (mx_attempted st)\<rparr>"
      have F: "(n > 0 \<and> int (length (mx_attempted st)) \<ge> n) = False" using False by blast
      have e: "mixed_step env o' ctx ps n info st = (if models = [] then Inr ?st else use_credential env o' info ?p models a' ?st1)"
        by (simp add: mixed_step_def F p Inr y a' t m Let_def)
      have i: "auth_ID a' \<in> U - set (mx_tried st)" using a id by simp
      show ?thesis
      proof (cases "models = []")
        case True
        then show ?thesis using i q by (auto simp: e intro!: bexI [OF _ i])
      next
        case models: False
        have w: "went_on env o' P (auth_ID a') ?c a' (c2\<lparr>cn_models := rt\<rparr>)" by (rule quiet_went_on [OF q refl])
        have s: "steady clock U P (mx_conductor ?st1)" using went_on_steady [OF assms(1) w assms(2)] by simp
        have t': "trim_space (auth_ID a') = auth_ID a'" using a id by simp
        note u = use_acts [where env = env and info = info and p = ?p and ms = models, OF assms(1) s t']
        have room: "n > 0 \<longrightarrow> int (length (mx_attempted st)) < n" using False by linarith
        show ?thesis
        proof (cases "use_credential env o' info ?p models a' ?st1")
          case (Inl z)
          obtain res c' where z: "z = (res, c')" by fastforce
          have "attempted_well env o' P (auth_ID a') (c2\<lparr>cn_models := rt\<rparr>) (closes (xn_json env) res) c'"
            using u by (simp add: Inl z)
          then show ?thesis using went_on_trans(1) [OF w] room i by (auto simp: e models Inl z intro!: bexI [OF _ i])
        next
          case (Inr st')
          obtain b where "went_on env o' P (auth_ID a') (c2\<lparr>cn_models := rt\<rparr>) b (mx_conductor st')"
            "mx_tried st' = auth_ID a' # mx_tried st" "mx_attempted st' = add_once (auth_ID a') (mx_attempted st)"
            using u by (auto simp: Inr)
          then show ?thesis using went_on_trans(2) [OF w] room i by (auto simp: e models Inr intro!: bexI [OF _ i])
        qed
      qed
    qed
  qed
qed

definition callers :: "call list \<Rightarrow> string list" where
  "callers es = map (\<lambda>e. auth_ID (cl_auth e)) es"

text \<open>The calls of one credential follow one another, and none is on a credential in \<open>tried\<close>.\<close>

definition in_turn :: "string list \<Rightarrow> call list \<Rightarrow> bool" where
  "in_turn tried es \<longleftrightarrow> distinct (remdups_adj (callers es)) \<and> set (callers es) \<inter> set tried = {}"

lemma remdups_adj_fresh: "i \<notin> set xs \<Longrightarrow> remdups_adj (i # xs) = i # remdups_adj xs"
  by (cases xs) simp_all

lemma in_turn_append:
  assumes "on i es" "i \<notin> set tried" "in_turn (i # tried) fs"
  shows "in_turn tried (es @ fs)"
  using assms(1)
proof (induction es)
  case Nil
  then show ?case using assms(3) by (simp add: in_turn_def)
next
  case (Cons e es)
  then have IH: "in_turn tried (es @ fs)" and e: "auth_ID (cl_auth e) = i" "on i es" by simp_all
  show ?case
  proof (cases es)
    case Nil
    have "i \<notin> set (callers fs)" using assms(3) by (simp add: in_turn_def)
    then show ?thesis using IH assms(2) e(1) remdups_adj_fresh [of i "callers fs"]
      by (simp add: Nil in_turn_def callers_def)
  next
    case (Cons e' es')
    then show ?thesis using IH e assms(2) by (simp add: in_turn_def callers_def)
  qed
qed

lemma callers_append: "on i es \<Longrightarrow> card (set (callers (es @ fs))) \<le> Suc (card (set (callers fs)))"
proof -
  assume "on i es"
  then have "set (callers (es @ fs)) \<subseteq> insert i (set (callers fs))" by (auto simp: on_def callers_def)
  then have "card (set (callers (es @ fs))) \<le> card (insert i (set (callers fs)))" by (rule card_mono [rotated]) simp
  then show ?thesis using card_insert_le_m1 [of "Suc (card (set (callers fs)))" "set (callers fs)" i] by simp
qed

definition round_done ::
  "exec_env \<Rightarrow> ('w, 'r) outside \<Rightarrow> ((string \<times> go_any) list \<Rightarrow> bool) \<Rightarrow> int \<Rightarrow> 'w mixed_state \<Rightarrow> (exec_error + 'r) \<times> 'w conductor \<Rightarrow> bool" where
  "round_done env o' P n st = (\<lambda>(r, c'). \<exists>es. acts env o' P (mx_conductor st) es c' \<and> in_turn (mx_tried st) es \<and>
     (n > 0 \<and> es \<noteq> [] \<longrightarrow> int (card (set (callers es))) + int (length (mx_attempted st)) \<le> n) \<and>
     (plain_ctx o' \<and> ruleless env (mx_conductor st) \<longrightarrow> ends_at_fault (xn_json env) (closes (xn_json env) r) es))"

definition round_going :: "('w, 'r) outside \<Rightarrow> ('w \<Rightarrow> gotime) \<Rightarrow> string set \<Rightarrow> ((string \<times> go_any) list \<Rightarrow> bool) \<Rightarrow> 'w mixed_state \<Rightarrow> bool" where
  "round_going o' clock U P st \<longleftrightarrow> sound o' clock P \<and> finite U \<and> steady clock U P (mx_conductor st) \<and>
     set (mx_attempted st) \<subseteq> set (mx_tried st)"

lemma quiet_round: "acts env o' P (mx_conductor st) [] c' \<Longrightarrow> round_done env o' P n st (r, c')"
  by (auto simp: round_done_def in_turn_def callers_def intro!: exI [of _ "[]"])

lemma last_round:
  assumes "attempted_well env o' P i (mx_conductor st) (closes (xn_json env) r) c'" "i \<notin> set (mx_tried st)"
    and "n > 0 \<longrightarrow> int (length (mx_attempted st)) < n"
  shows "round_done env o' P n st (r, c')"
proof -
  obtain es where es: "acts env o' P (mx_conductor st) es c'" "on i es"
    "plain_ctx o' \<and> ruleless env (mx_conductor st) \<longrightarrow> ends_at_fault (xn_json env) (closes (xn_json env) r) es"
    using assms(1) unfolding attempted_well_def by blast
  have "in_turn (mx_tried st) es" using in_turn_append [OF es(2) assms(2), of "[]"] by (simp add: in_turn_def callers_def)
  moreover have "card (set (callers es)) \<le> 1" using callers_append [OF es(2), of "[]"] by (simp add: callers_def)
  ultimately show ?thesis unfolding round_done_def using es(1,3) assms(3) by auto
qed

lemma next_round:
  assumes "went_on env o' P i (mx_conductor st) b (mx_conductor st')" "i \<notin> set (mx_tried st)" "mx_tried st' = i # mx_tried st"
    and "mx_attempted st' = add_once i (mx_attempted st)" "n > 0 \<longrightarrow> int (length (mx_attempted st)) < n"
    and "set (mx_attempted st) \<subseteq> set (mx_tried st)" "round_done env o' P n st' (r, c')"
  shows "round_done env o' P n st (r, c')"
proof -
  obtain es where es: "acts env o' P (mx_conductor st) es (mx_conductor st')" "on i es"
    "plain_ctx o' \<and> ruleless env (mx_conductor st) \<longrightarrow> faultless (xn_json env) es"
    using assms(1) unfolding went_on_def by blast
  obtain fs where fs: "acts env o' P (mx_conductor st') fs c'" "in_turn (i # mx_tried st) fs"
    "n > 0 \<and> fs \<noteq> [] \<longrightarrow> int (card (set (callers fs))) + int (length (mx_attempted st')) \<le> n"
    "plain_ctx o' \<and> ruleless env (mx_conductor st) \<longrightarrow> ends_at_fault (xn_json env) (closes (xn_json env) r) fs"
    using assms(7) ruleless_acts [OF es(1)] unfolding round_done_def assms(3) by auto
  have l: "length (mx_attempted st') = Suc (length (mx_attempted st))" using assms(2,4,6) by (auto simp: add_once_def)
  have "int (card (set (callers (es @ fs)))) + int (length (mx_attempted st)) \<le> n" if n: "n > 0"
  proof (cases "fs = []")
    case True
    then show ?thesis using callers_append [OF es(2), of fs] assms(5) n by (simp add: callers_def)
  next
    case False
    then show ?thesis using callers_append [OF es(2), of fs] fs(3) l n by linarith
  qed
  moreover have "in_turn (mx_tried st) (es @ fs)" by (rule in_turn_append [OF es(2) assms(2) fs(2)])
  ultimately show ?thesis unfolding round_done_def using acts_trans [OF es(1) fs(1)] es(3) fs(4) ends_append by blast
qed

lemma skipped_round:
  assumes "acts env o' P (mx_conductor st) [] (mx_conductor st')" "mx_tried st' = i # mx_tried st"
    "mx_attempted st' = mx_attempted st" "round_done env o' P n st' (r, c')"
  shows "round_done env o' P n st (r, c')"
proof -
  obtain fs where fs: "acts env o' P (mx_conductor st') fs c'" "in_turn (i # mx_tried st) fs"
    "n > 0 \<and> fs \<noteq> [] \<longrightarrow> int (card (set (callers fs))) + int (length (mx_attempted st)) \<le> n"
    "plain_ctx o' \<and> ruleless env (mx_conductor st) \<longrightarrow> ends_at_fault (xn_json env) (closes (xn_json env) r) fs"
    using assms(4) ruleless_acts [OF assms(1)] unfolding round_done_def assms(2,3) by auto
  have "in_turn (mx_tried st) fs" using fs(2) by (auto simp: in_turn_def)
  then show ?thesis unfolding round_done_def using acts_trans [OF assms(1) fs(1)] fs(3,4) by auto
qed

interpretation credentials: ending "\<lambda>st. Some (mixed_step env o' ctx ps n info st)" "round_going o' clock U P"
  "\<lambda>st. card (U - set (mx_tried st))" "round_done env o' P n"
  for env :: exec_env and o' :: "('w, 'r) outside" and ctx ps n info clock U P
proof
  fix st :: "'w mixed_state" and a :: "(exec_error + 'r) \<times> 'w conductor" and st' :: "'w mixed_state"
  assume I: "round_going o' clock U P st"
  then have s: "sound o' clock P" "finite U" "steady clock U P (mx_conductor st)" "set (mx_attempted st) \<subseteq> set (mx_tried st)"
    by (simp_all add: round_going_def)
  note M = mixed_step_acts [where env = env and ctx = ctx and ps = ps and n = n and info = info, OF s(1,3)]
  obtain r c' where a: "a = (r, c')" by fastforce
  show "Some (mixed_step env o' ctx ps n info st) \<noteq> None" by simp
  show "round_done env o' P n st a" if "Some (mixed_step env o' ctx ps n info st) = Some (Inl a)"
  proof -
    have "mixed_step env o' ctx ps n info st = Inl (r, c')" using that by (simp add: a)
    then consider "acts env o' P (mx_conductor st) [] c'"
      | i where "i \<in> U - set (mx_tried st)" "n > 0 \<longrightarrow> int (length (mx_attempted st)) < n"
          "attempted_well env o' P i (mx_conductor st) (closes (xn_json env) r) c'" using M by auto
    then show ?thesis unfolding a
    proof cases
      case 1
      then show "round_done env o' P n st (r, c')" by (rule quiet_round)
    next
      case (2 i)
      have "i \<notin> set (mx_tried st)" using 2(1) by simp
      then show "round_done env o' P n st (r, c')" by (rule last_round [OF 2(3) _ 2(2)])
    qed
  qed
  assume e: "Some (mixed_step env o' ctx ps n info st) = Some (Inr st')"
  then obtain i where i: "i \<in> U - set (mx_tried st)" "mx_tried st' = i # mx_tried st"
    "mx_attempted st' = mx_attempted st \<and> acts env o' P (mx_conductor st) [] (mx_conductor st') \<or>
     mx_attempted st' = add_once i (mx_attempted st) \<and> (n > 0 \<longrightarrow> int (length (mx_attempted st)) < n) \<and>
     (\<exists>b. went_on env o' P i (mx_conductor st) b (mx_conductor st'))" using M by auto
  have "steady clock U P (mx_conductor st')" using i(3) sound_steady [OF s(1) _ s(3)] went_on_steady [OF s(1) _ s(3)] by blast
  then show "round_going o' clock U P st'" using i s by (auto simp: round_going_def add_once_def split: if_splits)
  have "U - set (mx_tried st') \<subset> U - set (mx_tried st)" using i(1,2) by auto
  then show "card (U - set (mx_tried st')) < card (U - set (mx_tried st))" by (rule psubset_card_mono [rotated]) (use s(2) in simp)
  show "round_done env o' P n st a" if "round_done env o' P n st' a"
    using i(3)
  proof (elim disjE conjE exE)
    assume "mx_attempted st' = mx_attempted st" "acts env o' P (mx_conductor st) [] (mx_conductor st')"
    then show ?thesis using skipped_round [OF _ i(2)] that by (simp add: a)
  next
    fix b
    assume "mx_attempted st' = add_once i (mx_attempted st)" "n > 0 \<longrightarrow> int (length (mx_attempted st)) < n"
      "went_on env o' P i (mx_conductor st) b (mx_conductor st')"
    then show ?thesis using next_round [OF _ _ i(2) _ _ s(4)] i(1) that by (simp add: a)
  qed
qed

lemma once_returns:
  assumes "sound o' clock P" "finite U" "steady clock U P c"
  shows "\<exists>r c' es. executeMixedOnce env o' ctx ps req opts n k d c = Some (r, c') \<and> acts env o' P c es c' \<and>
    in_turn (requestRetryRoundExclusions k d (mg_auths (cn_manager c))) es \<and> (n > 0 \<longrightarrow> int (card (set (callers es))) \<le> n) \<and>
    (plain_ctx o' \<and> ruleless env c \<longrightarrow> ends_at_fault (xn_json env) (closes (xn_json env) r) es)"
proof (cases "ps = []")
  case True
  then show ?thesis
    by (intro exI [of _ "Inl _"] exI [of _ c] exI [of _ "[]"]) (simp add: executeMixedOnce_def acts.none in_turn_def callers_def)
next
  case False
  let ?tried = "requestRetryRoundExclusions k d (mg_auths (cn_manager c))"
  let ?model = "authSelectionModelFromOptions opts (xq_Model req)"
  let ?info = "\<lparr>rn_routeModel = ?model, rn_executionModel = executionModelForAuthSelection opts (xq_Model req), rn_request = req\<rparr>"
  let ?st = "\<lparr>mx_tried = ?tried, mx_attempted = [], mx_lastErr = None, mx_opts = ensureRequestedModelMetadata opts ?model, mx_conductor = c\<rparr>"
  have "round_going o' clock U P ?st" using assms by (simp add: round_going_def)
  from credentials.returns [where env = env and ctx = ctx and ps = ps and n = n and info = ?info, OF this]
  obtain r c' where rc: "repeat_step (\<lambda>st. Some (mixed_step env o' ctx ps n ?info st)) ?st = Some (r, c')" "round_done env o' P n ?st (r, c')"
    by fastforce
  then obtain es where es: "acts env o' P c es c'" "in_turn ?tried es" "n > 0 \<and> es \<noteq> [] \<longrightarrow> int (card (set (callers es))) \<le> n"
    "plain_ctx o' \<and> ruleless env c \<longrightarrow> ends_at_fault (xn_json env) (closes (xn_json env) r) es" by (auto simp: round_done_def)
  have "n > 0 \<longrightarrow> int (card (set (callers es))) \<le> n" using es(3) by (cases "es = []") (simp_all add: callers_def)
  then show ?thesis using es rc(1) False by (auto simp: executeMixedOnce_def Let_def)
qed

section \<open>Rounds\<close>

lemma wait_acts:
  assumes "waitForCooldown o' wait maxWait c = (e, c')"
  shows "acts env o' P c [] c'"
proof (cases "wait \<le> 0")
  case True
  then show ?thesis using assms by (simp add: waitForCooldown_def acts.none)
next
  case False
  let ?range = "jitteredCooldownWait id wait maxWait - wait"
  obtain j w where j: "(if ?range \<le> 0 then (0, cn_world c) else ou_random o' ?range (cn_world c)) = (j, w)" by fastforce
  obtain err w' where e: "ou_wait o' (jitteredCooldownWait (\<lambda>_. j) wait maxWait) w = (err, w')" by fastforce
  have c': "c' = c\<lparr>cn_world := w'\<rparr>" using assms False j e by (simp add: waitForCooldown_def Let_def)
  have 1: "acts env o' P c [] (c\<lparr>cn_world := w\<rparr>)"
  proof (cases "?range \<le> 0")
    case True
    then have "w = cn_world c" using j by simp
    then have "c\<lparr>cn_world := w\<rparr> = c" by (cases c) simp
    then show ?thesis using acts.none [of env o' P c] by simp
  next
    case False
    then have "ou_random o' ?range (cn_world c) = (j, w)" using j by simp
    then show ?thesis by (rule acts_pass [OF acts.none passes.random])
  qed
  show ?thesis using acts_pass [OF 1, of w'] passes.wait [of o' "jitteredCooldownWait (\<lambda>_. j) wait maxWait" w err w'] e by (simp add: c')
qed

text \<open>Another round is granted.\<close>

lemma granted:
  assumes "shouldRetryAfterErrorWithHomeRetryLimit lib decode r err q maxWait now1 now2 m = (wait, True)"
  shows "\<not> exec_isRequestInvalidError lib err" "isCredentialRetryRoundStatus (statusCodeFromError err)"
    "retryAllowed decode r q now1 m" "wait_allowed wait maxWait" 
  using assms by (auto simp: shouldRetryAfterErrorWithHomeRetryLimit_def Let_def wait_allowed_def split: if_splits prod.splits option.splits bool.splits)

lemma allowed_limit:
  assumes "retryAllowed decode r q now m" "kept U (bounded_retry L) t m"
  shows "rq_attempt q < max L (max 0 (rq_defaultRetry q))"
proof -
  obtain i a where a: "(i, Some a) \<in> set (mg_auths m)" "retry_candidate decode r (mg_registry m) q a"
    using assms(1) by (auto simp: retryAllowed_def split: if_splits option.splits)
  have "bounded_retry L (auth_Metadata a)" using keptD(2) [OF assms(2) a(1)] by blast
  then have "effectiveRequestRetryLimit (Some a) (rq_defaultRetry q) \<le> max L (max 0 (rq_defaultRetry q))" by (rule bounded_limit)
  moreover have "rq_attempt q < effectiveRequestRetryLimit (Some a) (rq_defaultRetry q)" using a(2) by (simp add: retry_candidate_def)
  ultimately show ?thesis by linarith
qed

lemma granted_open:
  assumes "shouldRetryAfterErrorWithHomeRetryLimit lib decode r err q maxWait now1 now2 m = (wait, True)"
  shows "\<not> closes lib (Inl err :: exec_error + 'r)"
  using granted(1,2) [OF assms] by (auto simp: closes_def isCredentialRetryRoundStatus_def)

definition request_done ::
  "exec_env \<Rightarrow> ('w, 'r) outside \<Rightarrow> ((string \<times> go_any) list \<Rightarrow> bool) \<Rightarrow> int \<times> 'w conductor \<Rightarrow> (exec_error + 'r) \<times> bool \<times> 'w conductor \<Rightarrow> bool" where
  "request_done env o' P = (\<lambda>(k, c) (r, more, c'). \<exists>es. acts env o' P c es c' \<and>
     (plain_ctx o' \<and> ruleless env c \<longrightarrow> faultless (xn_json env) (butlast es)))"

definition request_going :: "('w, 'r) outside \<Rightarrow> ('w \<Rightarrow> gotime) \<Rightarrow> string set \<Rightarrow> int \<Rightarrow> int \<times> 'w conductor \<Rightarrow> bool" where
  "request_going o' clock U L = (\<lambda>(k, c). sound o' clock (bounded_retry L) \<and> finite U \<and> steady clock U (bounded_retry L) c)"

text \<open>What one round can lead to.\<close>

lemma execute_round_cases:
  assumes "sound o' clock P" "finite U" "steady clock U P c"
  obtains (over) r more c' es where "execute_round env o' ctx ps req opts (k, c) = Some (Inl (r, more, c'))" "acts env o' P c es c'"
      "plain_ctx o' \<and> ruleless env c \<longrightarrow> faultless (xn_json env) (butlast es)"
  | (again) c' es q decode r now m where "execute_round env o' ctx ps req opts (k, c) = Some (Inr (k + 1, c'))" "acts env o' P c es c'"
      "plain_ctx o' \<and> ruleless env c \<longrightarrow> faultless (xn_json env) es"
      "retryAllowed decode r q now m" "kept U P (clock (cn_world c')) m" "rq_attempt q = k" "rq_defaultRetry q = rt_requestRetry (cn_retry c)"
proof -
  let ?d = "rt_requestRetry (cn_retry c)" and ?max = "rt_maxRetryInterval (cn_retry c)"
  obtain r c1 es where x: "executeMixedOnce env o' ctx ps req opts (rt_maxRetryCredentials (cn_retry c)) k ?d c = Some (r, c1)"
    "acts env o' P c es c1" "plain_ctx o' \<and> ruleless env c \<longrightarrow> ends_at_fault (xn_json env) (closes (xn_json env) r) es"
    using once_returns [where env = env and ctx = ctx and ps = ps and req = req and opts = opts and k = k and d = ?d
        and n = "rt_maxRetryCredentials (cn_retry c)", OF assms] by blast
  have f: "plain_ctx o' \<and> ruleless env c \<longrightarrow> faultless (xn_json env) (butlast es)" using x(3) by (simp add: ends_at_fault_def)
  have stop: thesis if "execute_round env o' ctx ps req opts (k, c) = Some (Inl (r', more, c'))" "acts env o' P c1 [] c'" for r' more c'
    using over [OF that(1) _ f] acts_trans [OF x(2) that(2)] by simp
  show thesis
  proof (cases r)
    case (Inr resp)
    show ?thesis by (rule stop [of "Inr resp" False, OF _ acts.none]) (simp add: execute_round_def x(1) Inr Let_def)
  next
    case (Inl err)
    show ?thesis
    proof (cases "xe_Terminated err \<or> xe_Stop err")
      case True
      show ?thesis by (rule stop [of "Inl (unwrapRequestStopError err)" False, OF _ acts.none]) (use True in \<open>simp add: execute_round_def x(1) Inl Let_def\<close>)
    next
      case False
      obtain now1 c2 now2 c3 where t: "tick o' c1 = (now1, c2)" "tick o' c2 = (now2, c3)" by (metis surj_pair)
      have T: "acts env o' P c1 [] c3" by (rule acts_tick [OF t(2) acts_tick [OF t(1) acts.none]])
      let ?q = "\<lparr>rq_providers = ps, rq_model = authSelectionModelFromOptions opts (xq_Model req), rq_attempt = k,
        rq_eligibility = authSelectionEligibilityForRequest ctx (xo_Metadata opts),
        rq_pinned = pinnedAuthIDFromMetadata (xo_Metadata opts), rq_defaultRetry = ?d\<rparr>"
      obtain wait ok where g: "shouldRetryAfterErrorWithHomeRetryLimit (xn_json env) (xn_decode env) (cn_models c3) err ?q ?max now1 now2
          (cn_manager c3) = (wait, ok)" by fastforce
      show ?thesis
      proof (cases ok)
        case no: False
        show ?thesis by (rule stop [of "Inl err" True, OF _ T]) (use False in \<open>simp add: execute_round_def x(1) Inl Let_def t g no\<close>)
      next
        case True
        have g: "shouldRetryAfterErrorWithHomeRetryLimit (xn_json env) (xn_decode env) (cn_models c3) err ?q ?max now1 now2
          (cn_manager c3) = (wait, True)" using g True by simp
        obtain e c4 where w: "waitForCooldown o' wait ?max c3 = (e, c4)" by fastforce
        have W: "acts env o' P c1 [] c4" using acts_trans [OF T wait_acts [OF w]] by simp
        show ?thesis
        proof (cases e)
          case (Some errWait)
          show ?thesis by (rule stop [of "Inl errWait" False, OF _ W]) (use False in \<open>simp add: execute_round_def x(1) Inl Let_def t g w Some\<close>)
        next
          case None
          have unharmed: "faultless (xn_json env) es" if "plain_ctx o' \<and> ruleless env c"
            using x(3) that granted_open [OF g] by (auto simp: ends_at_fault_def Inl)
          have a3: "acts env o' P c es c3" using acts_trans [OF x(2) T] by simp
          have s3: "steady clock U P c3" by (rule sound_steady [OF assms(1) a3 assms(3)])
          have s4: "steady clock U P c4" using acts_trans [OF x(2) W] sound_steady [OF assms(1) _ assms(3)] by blast
          have "orderly o' clock" using assms(1) by (simp add: sound_def)
          have later: "kept U P (clock (cn_world c4)) (cn_manager c4)" using s4 by (simp add: steady_def)
          have m: "cn_manager c4 = cn_manager c3" using w by (auto simp: waitForCooldown_def Let_def split: if_splits prod.splits)
          show ?thesis
          proof (rule again)
            show "execute_round env o' ctx ps req opts (k, c) = Some (Inr (k + 1, c4))"
              using False by (simp add: execute_round_def x(1) Inl Let_def t g w None)
            show "acts env o' P c es c4" using acts_trans [OF x(2) W] by simp
            show "plain_ctx o' \<and> ruleless env c \<longrightarrow> faultless (xn_json env) es" using unharmed by blast
            show "retryAllowed (xn_decode env) (cn_models c3) ?q now1 (cn_manager c3)" by (rule granted(3) [OF g])
            show "kept U P (clock (cn_world c4)) (cn_manager c3)" using later m by simp
          qed simp_all
        qed
      qed
    qed
  qed
qed

lemma butlast_after: "faultless lib es \<Longrightarrow> faultless lib (butlast fs) \<Longrightarrow> faultless lib (butlast (es @ fs))"
  by (auto simp: butlast_append faultless_def dest: in_set_butlastD)

interpretation rounds: ending "execute_round env o' ctx ps req opts" "request_going o' clock U L"
  "\<lambda>(k, c). nat (max L (max 0 (rt_requestRetry (cn_retry c))) - k)" "request_done env o' (bounded_retry L)"
  for env :: exec_env and o' :: "('w, 'r) outside" and ctx ps req opts clock U L
proof
  fix s s' :: "int \<times> 'w conductor" and a :: "(exec_error + 'r) \<times> bool \<times> 'w conductor"
  assume I: "request_going o' clock U L s"
  obtain k c where s: "s = (k, c)" by fastforce
  have h: "sound o' clock (bounded_retry L)" "finite U" "steady clock U (bounded_retry L) c" using I by (simp_all add: s request_going_def)
  note C = execute_round_cases [where env = env and ctx = ctx and ps = ps and req = req and opts = opts and k = k, OF h]
  show "execute_round env o' ctx ps req opts s \<noteq> None" unfolding s by (cases rule: C) simp_all
  show "request_done env o' (bounded_retry L) s a" if "execute_round env o' ctx ps req opts s = Some (Inl a)"
    using that unfolding s by (cases rule: C) (auto simp: request_done_def)
  assume e: "execute_round env o' ctx ps req opts s = Some (Inr s')"
  have "\<exists>c' es q decode r now m. s' = (k + 1, c') \<and> acts env o' (bounded_retry L) c es c' \<and>
      (plain_ctx o' \<and> ruleless env c \<longrightarrow> faultless (xn_json env) es) \<and> retryAllowed decode r q now m \<and>
      kept U (bounded_retry L) (clock (cn_world c')) m \<and> rq_attempt q = k \<and> rq_defaultRetry q = rt_requestRetry (cn_retry c)"
  proof (cases rule: execute_round_cases [where env = env and ctx = ctx and ps = ps and req = req and opts = opts and k = k, OF h])
    case (1 r more c' es)
    then show ?thesis using e by (simp add: s)
  next
    case (2 c' es q decode r now m)
    then have "s' = (k + 1, c')" using e by (simp add: s)
    then show ?thesis using 2(2-) by blast
  qed
  then obtain c' es q decode r now m where g: "s' = (k + 1, c')" "acts env o' (bounded_retry L) c es c'"
      "plain_ctx o' \<and> ruleless env c \<longrightarrow> faultless (xn_json env) es" "retryAllowed decode r q now m"
      "kept U (bounded_retry L) (clock (cn_world c')) m" "rq_attempt q = k" "rq_defaultRetry q = rt_requestRetry (cn_retry c)"
    by blast
  show "request_going o' clock U L s'" using sound_steady [OF h(1) g(2) h(3)] h by (simp add: g(1) request_going_def)
  show "(case s' of (k, c) \<Rightarrow> nat (max L (max 0 (rt_requestRetry (cn_retry c))) - k))
      < (case s of (k, c) \<Rightarrow> nat (max L (max 0 (rt_requestRetry (cn_retry c))) - k))"
    using allowed_limit [OF g(4,5)] unfolding s g(1) g(6,7) by (simp add: acts_settings(2) [OF g(2)])
  show "request_done env o' (bounded_retry L) s a" if d: "request_done env o' (bounded_retry L) s' a"
  proof -
    obtain r' more c'' where a: "a = (r', more, c'')" by (metis surj_pair)
    obtain fs where fs: "acts env o' (bounded_retry L) c' fs c''"
      "plain_ctx o' \<and> ruleless env c \<longrightarrow> faultless (xn_json env) (butlast fs)"
      using d ruleless_acts [OF g(2)] by (auto simp: a g(1) request_done_def)
    show ?thesis unfolding s a request_done_def prod.case
      using acts_trans [OF g(2) fs(1)] fs(2) g(3) butlast_after by blast
  qed
qed

section \<open>From the states of the manager\<close>

lemma restore_keys: "wf_map (fst st) \<Longrightarrow> wf_map (fst (fold (restore_step d now) rs st))"
proof (induction rs arbitrary: st)
  case (Cons r rs)
  have "wf_map (fst (restore_step d now r st))"
    using Cons.prems by (auto simp: restore_step_def restoreCooldownRecordLocked_def Let_def distinct_update split: option.split)
  then show ?case using Cons.IH by simp
qed simp

lemma load_keys: "wf_map auths \<Longrightarrow> wf_map (fold (load_step env) items auths)"
proof (induction items arbitrary: auths)
  case (Cons it items)
  have "wf_map (load_step env it auths)"
    using Cons.prems by (auto simp: load_step_def Let_def distinct_update split: option.split)
  then show ?case using Cons.IH by simp
qed simp

lemma refresh_keeps [simp]: "mg_auths (RefreshSchedulerEntry i ts m) = mg_auths m"
  by (simp add: RefreshSchedulerEntry_def split: option.split)

lemma refresh_fold [simp]: "mg_auths (fold (\<lambda>(i, a). RefreshSchedulerEntry i ts) es m) = mg_auths m"
  by (induction es arbitrary: m) auto

lemma persist_auths [simp]: "mg_auths (persistCooldownStates env now m) = mg_auths m"
  by (simp add: persistCooldownStates_def)

lemma store_auths [simp]: "mg_auths (store_auth env now ts changed a m) = map_put (auth_ID a) (Some a) (mg_auths m)"
  by (simp add: store_auth_def Let_def)

lemma managed_keys: "managed env t m \<Longrightarrow> wf_map (mg_auths m)"
proof (induction rule: managed.induct)
  case (register t m ts auth uuid now)
  then show ?case by (auto simp: Register_def Let_def distinct_update split: option.split prod.split)
next
  case (update t m ts auth now)
  then show ?case by (auto simp: Update_def Let_def distinct_update split: option.split prod.split)
next
  case (remove t m now i)
  then show ?case by (auto simp: Remove_def Let_def distinct_delete split: option.split)
next
  case (load t m ts items)
  then show ?case by (simp add: Load_def Let_def load_keys)
next
  case (result t m ts now h r)
  then show ?case by (auto simp: MarkResult_def Let_def distinct_update split: option.split prod.split)
next
  case (neutral t m now r)
  then show ?case by (auto simp: recordAvailabilityNeutralResult_def distinct_update split: option.split)
next
  case (reset t m ts now i)
  then show ?case by (auto simp: ResetQuota_def Let_def distinct_update split: option.split prod.split)
next
  case (restore t m ts now)
  show ?case
  proof (cases "mg_cooldowns m")
    case None
    then show ?thesis using restore.IH by (simp add: manager_restore_def)
  next
    case (Some records)
    obtain auths snaps where e: "RestoreCooldownStates (cooldownDisabledForAuth env) now records (mg_auths m) = (auths, snaps)" by fastforce
    have "wf_map (fst (RestoreCooldownStates (cooldownDisabledForAuth env) now records (mg_auths m)))"
      unfolding RestoreCooldownStates_def Let_def by (rule restore_keys) (simp add: restore.IH)
    then show ?thesis using restore.IH by (simp add: manager_restore_def Some e)
  qed
next
  case (reconcile t m ts now i)
  then show ?case by (auto simp: ReconcileRegistryModelStates_def Let_def distinct_update split: option.split)
next
  case (refresh_all t m ts)
  then show ?case by (simp add: RefreshSchedulerAll_def)
qed simp_all

lemma bounded_mono: "bounded_retry L m \<Longrightarrow> L \<le> L' \<Longrightarrow> bounded_retry L' m"
  unfolding bounded_retry_def by (fastforce split: option.splits)

lemma some_bound: "\<exists>L. bounded_retry L m"
proof (induction m)
  case (Cons kv m)
  then obtain L where L: "bounded_retry L m" by blast
  obtain k v where kv: "kv = (k, v)" by fastforce
  let ?n = "case parseIntAny v of None \<Rightarrow> 0 | Some n \<Rightarrow> n"
  have "bounded_retry (max L ?n) m" by (rule bounded_mono [OF L]) simp
  moreover have "bounded_retry (max L ?n) [(k, v)]" by (auto simp: bounded_retry_def split: option.split)
  ultimately show ?case unfolding bounded_retry_def kv by (intro exI [of _ "max L ?n"]) simp
qed (simp add: bounded_retry_def)

lemma common_bound: "\<exists>L\<ge>L0. \<forall>m\<in>set ms. bounded_retry L m"
proof (induction ms)
  case (Cons m ms)
  then obtain L where L: "L0 \<le> L" "\<forall>m\<in>set ms. bounded_retry L m" by blast
  obtain L' where L': "bounded_retry L' m" using some_bound by blast
  have "bounded_retry (max L L') m" by (rule bounded_mono [OF L']) simp
  moreover have "\<forall>m\<in>set ms. bounded_retry (max L L') m" using L(2) bounded_mono by fastforce
  ultimately show ?case using L(1) by (intro exI [of _ "max L L'"]) auto
qed auto

lemma managed_steady:
  assumes "managed menv t (cn_manager c)" "t \<le> clock (cn_world c)"
  shows "\<exists>U L'. finite U \<and> L \<le> L' \<and> steady clock U (bounded_retry L') c"
proof -
  let ?m = "cn_manager c"
  let ?U = "fst ` set (mg_auths ?m)"
  note ag = agree_later [OF managed_agree [OF assms(1)] assms(2)]
  let ?ms = "map (\<lambda>(_, a). case a of None \<Rightarrow> [] | Some a \<Rightarrow> auth_Metadata a) (mg_auths ?m)"
  obtain L' where L': "L \<le> L'" "\<forall>m\<in>set ?ms. bounded_retry L' m" using common_bound by blast
  have "kept ?U (bounded_retry L') (clock (cn_world c)) ?m"
    unfolding kept_def
  proof (intro conjI allI impI)
    show "scheduler_ok (clock (cn_world c)) (mg_scheduler ?m)" by (rule agree_outsideD(1) [OF ag])
  next
    fix i a assume i: "(i, Some a) \<in> set (mg_auths ?m)"
    then have e: "map_of (mg_auths ?m) i = Some (Some a)" using managed_keys [OF assms(1)] by (simp add: map_of_is_SomeI)
    show "auth_ID a = i" "trim_space i = i" using agree_outsideD(2,3) [OF ag e] by blast+
    show "i \<in> ?U" using i by force
    show "bounded_retry L' (auth_Metadata a)" using L'(2) i by force
  next
    fix k i assume "known (mg_scheduler ?m) k i \<noteq> None"
    then have "map_of (mg_auths ?m) i \<noteq> None" using agree_outsideD(4) [OF ag, of i k] by (cases "map_of (mg_auths ?m) i") (simp_all add: scheduled_as_def)
    then show "i \<in> ?U" by (simp add: map_of_eq_None_iff)
  qed
  then show ?thesis using L'(1) by (auto simp: steady_def)
qed

lemma managed_sound:
  assumes "managed menv t (cn_manager c)" "t \<le> clock (cn_world c)"
    and "orderly o' clock" "honest o' (bounded_retry L)"
  obtains U L' where "finite U" "sound o' clock (bounded_retry L')" "steady clock U (bounded_retry L') c"
proof -
  obtain U L' where U: "finite U" "L \<le> L'" "steady clock U (bounded_retry L') c" using managed_steady [where c = c and clock = clock, OF assms(1,2)] by blast
  have "honest o' (bounded_retry L')" using assms(4) bounded_mono [OF _ U(2)] unfolding honest_def by blast
  then have "sound o' clock (bounded_retry L')" using assms(3) bounded_normalize by (simp add: sound_def normal_closed_def)
  then show thesis using that U by blast
qed

lemma closest_nonneg:
  "closest_loop decode r registry q now best auths = (w, True) \<Longrightarrow> \<forall>x. best = Some x \<longrightarrow> 0 \<le> x \<Longrightarrow> 0 \<le> w"
proof (induction decode r registry q now best auths rule: closest_loop.induct)
  case (1 decode r registry q now best)
  then show ?case by (auto split: option.splits)
next
  case (2 decode r registry q now best i auth auths)
  then show ?case by (auto simp: Let_def split: option.splits if_splits prod.splits)
qed

lemma jitter_bounds:
  assumes "\<forall>n>0. 0 \<le> random n \<and> random n < n" "0 < wait"
  shows "wait \<le> jitteredCooldownWait random wait maxWait" "jitteredCooldownWait random wait maxWait \<le> wait + min (wait div 4) (2 * second_ns)"
    "0 < maxWait \<Longrightarrow> wait \<le> maxWait \<Longrightarrow> jitteredCooldownWait random wait maxWait \<le> maxWait"
proof -
  define range where "range = (let j = min (wait div 4) (2 * second_ns) in if maxWait > 0 \<and> j > maxWait - wait then maxWait - wait else j)"
  have j: "jitteredCooldownWait random wait maxWait = (if range \<le> 0 then wait else wait + random range)"
    using assms(2) by (auto simp: jitteredCooldownWait_def range_def Let_def min_def)
  have r: "range \<le> min (wait div 4) (2 * second_ns)" "0 < maxWait \<Longrightarrow> range \<le> maxWait - wait"
    by (auto simp: range_def Let_def)
  have q: "0 \<le> wait div 4" using assms(2) by simp
  have R: "0 < range \<Longrightarrow> 0 \<le> random range \<and> random range < range" using assms(1) by blast
  show "wait \<le> jitteredCooldownWait random wait maxWait" unfolding j using R by (cases "range \<le> 0") auto
  show "jitteredCooldownWait random wait maxWait \<le> wait + min (wait div 4) (2 * second_ns)"
    unfolding j using R r(1) q by (cases "range \<le> 0") auto
  show "jitteredCooldownWait random wait maxWait \<le> maxWait" if "0 < maxWait" "wait \<le> maxWait"
    unfolding j using R r(2) [OF that(1)] that by (cases "range \<le> 0") auto
qed

section \<open>Properties\<close>

text \<open>C3. A request always comes to an end: in every reachable state of the manager \<open>Execute\<close> returns, whatever the
  providers answer. The clock does not go back, and preparing or refreshing a credential gives it neither another
  ID nor a request-retry limit beyond a bound \<open>L\<close>.\<close>

theorem Execute_returns:
  assumes "managed (xn_manager env) t (cn_manager c)" "t \<le> clock (cn_world c)" "orderly o' clock" "honest o' (bounded_retry L)"
  shows "\<exists>r c'. Execute env o' ctx ps req opts c = Some (r, c')"
proof -
  obtain U L' where s: "finite U" "sound o' clock (bounded_retry L')" "steady clock U (bounded_retry L') c"
    by (rule managed_sound [OF assms])
  then have "request_going o' clock U L' (0, c)" by (simp add: request_going_def)
  from rounds.returns [where env = env and ctx = ctx and ps = "normalizeProviders ps" and req = req and opts = opts, OF this]
  obtain a where "repeat_step (execute_round env o' ctx (normalizeProviders ps) req opts) (0, c) = Some a" by blast
  then show ?thesis by (cases a) (auto simp: Execute_def Let_def split: sum.split bool.split option.split prod.split)
qed

text \<open>C4. A round calls every credential in turn: the calls of one credential follow one another, a credential
  is not taken up again later, those whose retry limit is exhausted are not called, and with a limit on
  the number of credentials no more of them are called.\<close>

theorem round_in_turn:
  assumes "managed (xn_manager env) t (cn_manager c)" "t \<le> clock (cn_world c)" "orderly o' clock" "honest o' (bounded_retry L)"
    and "journals o' J"
  shows "\<exists>r c' es. executeMixedOnce env o' ctx ps req opts n k d c = Some (r, c') \<and> J (cn_world c') = J (cn_world c) @ es \<and>
    in_turn (requestRetryRoundExclusions k d (mg_auths (cn_manager c))) es \<and> (n > 0 \<longrightarrow> int (card (set (callers es))) \<le> n)"
proof -
  obtain U L' where s: "finite U" "sound o' clock (bounded_retry L')" "steady clock U (bounded_retry L') c"
    by (rule managed_sound [OF assms(1-4)])
  obtain r c' es where R: "executeMixedOnce env o' ctx ps req opts n k d c = Some (r, c')" "acts env o' (bounded_retry L') c es c'"
    "in_turn (requestRetryRoundExclusions k d (mg_auths (cn_manager c))) es" "n > 0 \<longrightarrow> int (card (set (callers es))) \<le> n"
    using once_returns [where env = env and ctx = ctx and ps = ps and req = req and opts = opts and k = k and d = d and n = n,
        OF s(2,1,3)] by blast
  moreover have "J (cn_world c') = J (cn_world c) @ es" using acts_follows [OF R(2) assms(5)] by (simp add: follows_def)
  ultimately show ?thesis by blast
qed

text \<open>C5. An answer that blames the request ends it: of all the calls of a request only the last one can have
  got such an answer, in whatever round and on whatever credential, so a malformed request is never repeated. This is
  without rules of the configuration and credits; errors of the context have no status.\<close>

theorem fault_is_last:
  assumes "managed (xn_manager env) t (cn_manager c)" "t \<le> clock (cn_world c)" "orderly o' clock" "honest o' (bounded_retry L)"
    and "journals o' J" "plain_ctx o'" "ruleless env c" "\<not> cn_antigravityCredits c"
  shows "\<exists>r c' es. Execute env o' ctx ps req opts c = Some (r, c') \<and> J (cn_world c') = J (cn_world c) @ es \<and>
    (\<forall>e\<in>set (butlast es). \<not> fault (xn_json env) e)"
proof (cases "normalizeProviders ps = []")
  case True
  then show ?thesis by (auto simp: Execute_def Let_def intro: exI [of _ "[]"])
next
  case False
  obtain U L' where s: "finite U" "sound o' clock (bounded_retry L')" "steady clock U (bounded_retry L') c"
    by (rule managed_sound [OF assms(1-4)])
  then have "request_going o' clock U L' (0, c)" by (simp add: request_going_def)
  from rounds.returns [where env = env and ctx = ctx and ps = "normalizeProviders ps" and req = req and opts = opts, OF this]
  obtain r more c' es where R: "repeat_step (execute_round env o' ctx (normalizeProviders ps) req opts) (0, c) = Some (r, more, c')"
    "acts env o' (bounded_retry L') c es c'" "faultless (xn_json env) (butlast es)"
    using assms(6,7) by (auto simp: request_done_def)
  have "J (cn_world c') = J (cn_world c) @ es" "\<not> cn_antigravityCredits c'"
    using acts_follows [OF R(2) assms(5)] assms(8) by (simp_all add: follows_def)
  moreover have "\<exists>r'. Execute env o' ctx ps req opts c = Some (r', c')"
    using R(1) False calculation(2)
    by (cases r; cases more) (auto simp: Execute_def Let_def shouldAttemptAntigravityCreditsFallback_def)
  ultimately show ?thesis using R(3) by (auto simp: faultless_def)
qed

text \<open>C6. Another round is granted only after an error that leaves room for one (403, 408, 429, 500, 502, 503, 504) and
  while some credential that may serve the request has rounds left and is, or will be, available; the wait before it is at
  least the one decided on, at most a quarter and two seconds longer, and never beyond the configured maximum.\<close>

theorem granted_round:
  assumes "shouldRetryAfterErrorWithHomeRetryLimit lib decode r err q maxWait now1 now2 m = (wait, True)"
    and "\<forall>n>0. 0 \<le> random n \<and> random n < n"
  shows "statusCodeFromError err \<in> {403, 408, 429, 500, 502, 503, 504} \<and>
    (\<exists>i a. (i, Some a) \<in> set (mg_auths m) \<and> rq_attempt q < effectiveRequestRetryLimit (Some a) (rq_defaultRetry q) \<and>
       executorKeyFromAuth (Some a) \<in> set (provider_set (rq_providers q)) \<and>
       fst (retryRoundAvailabilityForAuth (Some a) (retry_model decode r (rq_model q) a) now1)) \<and>
    0 \<le> wait \<and> wait \<le> jitteredCooldownWait random wait maxWait \<and>
    jitteredCooldownWait random wait maxWait \<le> wait + min (wait div 4) (2 * second_ns) \<and>
    jitteredCooldownWait random wait maxWait \<le> max 0 maxWait"
proof -
  note G = granted [OF assms(1)]
  obtain i a where "(i, Some a) \<in> set (mg_auths m)" "retry_candidate decode r (mg_registry m) q a"
    "fst (retryRoundAvailabilityForAuth (Some a) (retry_model decode r (rq_model q) a) now1)"
    using G(3) by (auto simp: retryAllowed_def split: if_splits option.splits)
  then have c: "\<exists>i a. (i, Some a) \<in> set (mg_auths m) \<and> rq_attempt q < effectiveRequestRetryLimit (Some a) (rq_defaultRetry q) \<and>
      executorKeyFromAuth (Some a) \<in> set (provider_set (rq_providers q)) \<and>
      fst (retryRoundAvailabilityForAuth (Some a) (retry_model decode r (rq_model q) a) now1)"
    by (auto simp: retry_candidate_def)
  have w: "0 \<le> wait"
    using assms(1) closest_nonneg [of decode r "mg_registry m" q now2 None "mg_auths m"]
    by (auto simp: shouldRetryAfterErrorWithHomeRetryLimit_def closestCooldownWait_def Let_def
        split: if_splits prod.splits bool.splits option.splits)
  have b: "wait \<le> jitteredCooldownWait random wait maxWait \<and> jitteredCooldownWait random wait maxWait \<le> wait + min (wait div 4) (2 * second_ns) \<and>
      jitteredCooldownWait random wait maxWait \<le> max 0 maxWait"
  proof (cases "wait = 0")
    case True
    then show ?thesis by (simp add: jitteredCooldownWait_def)
  next
    case False
    then have "0 < wait" "0 < maxWait" "wait \<le> maxWait" using w G(4) by (auto simp: wait_allowed_def)
    then show ?thesis using jitter_bounds [OF assms(2)] by auto
  qed
  show ?thesis using G(2) c w b by (simp add: isCredentialRetryRoundStatus_def)
qed

section \<open>Witnesses\<close>

definition demo_config :: routing_config where
  "demo_config = \<lparr>ro_GeminiKey = [], ro_InteractionsKey = [], ro_ClaudeKey = [], ro_CodexKey = [], ro_XAIKey = [],
     ro_VertexCompatAPIKey = [], ro_OpenAICompatibility = [], ro_OAuthRequestScopedErrors = []\<rparr>"

definition demo_models :: model_routing where
  "demo_models = \<lparr>mo_oauth = [], mo_routing = \<lparr>rs_config = demo_config, rs_aliases = []\<rparr>, mo_offsets = []\<rparr>"

definition demo_retry :: retry_request where
  "demo_retry = \<lparr>rq_providers = [''claude''], rq_model = [], rq_attempt = 0, rq_eligibility = authSelectionEligibilityForRequest demo_ctx [],
   rq_pinned = [], rq_defaultRetry = 1\<rparr>"

definition limited_manager :: manager where
  "limited_manager = MarkResult demo_env 10 10 [] (failed_result 429 ''slow down'' (Some 50)) demo_manager"

type_synonym demo_world = "int \<times> call list"

definition demo_error :: "int \<Rightarrow> exec_error" where
  "demo_error status = of_auth_error \<lparr>err_Code = [], err_Message = ''no'', err_Retryable = False, err_HTTPStatus = status\<rparr>"

text \<open>A provider that answers with a rate limit first and then blames the request.\<close>

definition demo_outside :: "(demo_world, unit) outside" where
  "demo_outside = \<lparr>ou_tick = (\<lambda>(t, es). (t + 1, (t + 1, es))), ou_ctx = (\<lambda>_. None), ou_wait = (\<lambda>d (t, es). (None, (t + max 0 d, es))),
     ou_random = (\<lambda>n w. (0, w)), ou_headers = (\<lambda>_. []),
     ou_execute = (\<lambda>p b a q x (t, es). let err = (if es = [] then demo_error 429 else demo_error 400)
       in (Inl err, (t, es @ [call_of a q (Some err)]))),
     ou_should_prepare = (\<lambda>_ _. False), ou_prepare = (\<lambda>_ _ w. (Inr None, w)), ou_refresh = (\<lambda>_ _ w. (Inr None, w)),
     ou_intercept = (\<lambda>_ q x w. (Inr (q, x), w)), ou_credits = (\<lambda>_ _. None), ou_rewrite = (\<lambda>_ r. r)\<rparr>"

definition demo_exec_env :: exec_env where
  "demo_exec_env = \<lparr>xn_manager = demo_env, xn_decode = (\<lambda>_. None), xn_stored_rules = (\<lambda>_. None), xn_regexp = (\<lambda>_. None),
     xn_cooldown_text = (\<lambda>_ _ _. []), xn_weight_error = (\<lambda>_. demo_error 0), xn_evaluator = (\<lambda>_. None), xn_lastRefresh = (\<lambda>_. None),
     xn_expiry = (\<lambda>_. None), xn_interval = (\<lambda>_. 0), xn_lead = (\<lambda>_ _. None)\<rparr>"

definition demo_conductor :: "demo_world conductor" where
  "demo_conductor = \<lparr>cn_manager = demo_manager, cn_models = demo_models, cn_selector = FillFirst, cn_executors = [''claude''],
     cn_retry = SetRetryConfig 1 (10 * second_ns) 0, cn_config = demo_config, cn_antigravityCredits = False, cn_world = (5, [])\<rparr>"

definition demo_request :: exec_request where
  "demo_request = \<lparr>xq_Model = [], xq_Payload = []\<rparr>"

definition demo_options :: exec_options where
  "demo_options = \<lparr>xo_Alt = [], xo_Headers = [], xo_OriginalRequest = [], xo_Metadata = []\<rparr>"

lemma demo_fields:
  "ou_tick demo_outside w = (fst w + 1, (fst w + 1, snd w))" "ou_ctx demo_outside w = None"
  "ou_wait demo_outside d w = (None, (fst w + max 0 d, snd w))" "ou_random demo_outside n w = (0, w)"
  "ou_execute demo_outside p b a q x w =
     (Inl (if snd w = [] then demo_error 429 else demo_error 400),
      (fst w, snd w @ [call_of a q (Some (if snd w = [] then demo_error 429 else demo_error 400))]))"
  "ou_prepare demo_outside p a w = (Inr None, w)" "ou_refresh demo_outside p a w = (Inr None, w)"
  "ou_intercept demo_outside p q x w = (Inr (q, x), w)"
  by (cases w, simp add: demo_outside_def Let_def)+

lemma demo_quiet: "passes demo_outside w w' \<Longrightarrow> fst w \<le> fst w' \<and> snd w' = snd w"
  by (induction rule: passes.induct) (simp_all add: demo_fields)

lemma demo_outside_world:
  "orderly demo_outside fst" "honest demo_outside (bounded_retry 3)" "journals demo_outside snd" "plain_ctx demo_outside"
proof -
  have "error_of (Inl e :: exec_error + unit) = Some e" for e by simp
  then show "journals demo_outside snd"
    unfolding journals_def calm_def using demo_quiet by (auto simp: demo_fields)
  show "orderly demo_outside fst" unfolding orderly_def using demo_quiet by (simp add: demo_fields)
  show "honest demo_outside (bounded_retry 3)" "plain_ctx demo_outside" by (simp_all add: honest_def plain_ctx_def demo_fields)
qed

lemma demo_rules: "extractRequestScopedErrorRules (\<lambda>_. None) demo_config a = []"
  by (simp add: extractRequestScopedErrorRules_def configured_rules_def demo_config_def indexed_rules_def
      resolveOpenAICompatConfigForAuth_def find_compat_def Let_def split: option.split)

lemma demo_world:
  "managed (xn_manager demo_exec_env) 5 (cn_manager demo_conductor)" "5 \<le> fst (cn_world demo_conductor)"
  "ruleless demo_exec_env demo_conductor" "\<not> cn_antigravityCredits demo_conductor"
  using demo_managed
  by (simp_all add: ruleless_def demo_exec_env_def demo_conductor_def matchRequestScopedErrorAction_def demo_rules)

theorem Execute_returns_witness:
  "\<exists>r c'. Execute demo_exec_env demo_outside demo_ctx [''claude''] demo_request demo_options demo_conductor = Some (r, c')"
  by (rule Execute_returns [OF demo_world(1,2) demo_outside_world(1,2)])

theorem round_in_turn_witness:
  "\<exists>r c' es. executeMixedOnce demo_exec_env demo_outside demo_ctx [''claude''] demo_request demo_options 1 0 1 demo_conductor = Some (r, c') \<and>
     snd (cn_world c') = es \<and> in_turn [] es \<and> int (card (set (callers es))) \<le> 1"
proof -
  have "requestRetryRoundExclusions 0 1 (mg_auths (cn_manager demo_conductor)) = []" "snd (cn_world demo_conductor) = []"
    by (simp_all add: requestRetryRoundExclusions_def demo_conductor_def)
  with round_in_turn [OF demo_world(1,2) demo_outside_world(1-3), of demo_ctx "[''claude'']" demo_request demo_options 1 0 1] show ?thesis by simp
qed

lemma demo_calls:
  "map_option (\<lambda>(r, c'). map (\<lambda>e. map_option xe_Status (cl_error e)) (snd (cn_world c')))
     (Execute demo_exec_env demo_outside demo_ctx [''claude''] demo_request demo_options demo_conductor) = Some [Some (Some 429), Some (Some 400)]"
  by code_simp

theorem fault_is_last_witness:
  "\<exists>r c' e1 e2. Execute demo_exec_env demo_outside demo_ctx [''claude''] demo_request demo_options demo_conductor = Some (r, c') \<and>
     snd (cn_world c') = [e1, e2] \<and> \<not> fault no_json e1"
proof -
  have e: "snd (cn_world demo_conductor) = []" "xn_json demo_exec_env = no_json"
    by (simp_all add: demo_conductor_def demo_exec_env_def demo_env_def)
  obtain r c' es where x: "Execute demo_exec_env demo_outside demo_ctx [''claude''] demo_request demo_options demo_conductor = Some (r, c')"
    "snd (cn_world c') = es" "\<forall>e\<in>set (butlast es). \<not> fault no_json e"
    using fault_is_last [OF demo_world(1,2) demo_outside_world demo_world(3,4), of demo_ctx "[''claude'']" demo_request demo_options] by (auto simp: e)
  then have "map (\<lambda>e. map_option xe_Status (cl_error e)) es = [Some (Some 429), Some (Some 400)]" using demo_calls by simp
  then obtain e1 e2 where "es = [e1, e2]" by (auto simp: map_eq_Cons_conv)
  with x show ?thesis by auto
qed

theorem granted_round_witness:
  "jitteredCooldownWait (\<lambda>n. n - 1) 40 100 \<le> 50 \<and> (\<exists>i a. (i, Some a) \<in> set (mg_auths limited_manager))"
proof -
  have g: "shouldRetryAfterErrorWithHomeRetryLimit no_json (\<lambda>_. None) demo_models (demo_error 429) demo_retry 100 20 20 limited_manager = (40, True)"
    by code_simp
  have "\<forall>n>0. 0 \<le> n - 1 \<and> n - 1 < (n :: int)" by simp
  from granted_round [OF g this] show ?thesis by auto
qed

end
