(* ===== verification/Spec2Isabelle.thy ===== *)
theory Spec2Isabelle
  imports Cred_Weight Thinking_Validate Auth_Types Availability Smooth_WRR Selectors Session_Cache Session_Identity Session_Affinity
    Ready_View Model_Shard Auth_Scheduler Mixed_Picks
    Result_Errors Quota_Signals Cooldown Cooldown_Laws Result_Marks
    Model_Registry Registry_Queries Registry_Laws Registry_Cache Request_Routing Routing_Laws
    Cooldown_Records Cooldown_Restart Credential_Manager Manager_Laws Model_Alias Alias_Laws
    Request_Errors Request_Retry Credential_Refresh Route_Selection Execution Execution_Trace Execution_Acts Execution_Laws
begin

text \<open>
  A verification development for CLIProxyAPI, a proxy that offers the interfaces of several AI providers and
  serves every request from a pool of credentials. Its own logic is modelled: which providers can serve a model,
  which credential a request is given, what an answer means for the credential that got it, when a request is
  tried again, and how model names and thinking suffixes are understood. Paths are relative to \<open>src/\<close>.

  \<^bold>\<open>How the program works.\<close> A request arrives with a model name. \<open>sdk/api/handlers/handlers_routing.go\<close> asks the model
  registry (\<open>internal/registry\<close>) which providers supply the model, and passes them to the manager of credentials
  (\<open>sdk/cliproxy/auth\<close>). The manager keeps a map of credentials; its scheduler keeps, per provider and model, views of
  the credentials that are ready and a queue of those that are not. An execution goes in rounds: a round
  picks credentials one after the other, finds the upstream models an alias stands for, prepares the credential, calls
  the provider, refreshes the tokens once after a 401, and reports every answer. A report changes the cooldowns of
  the credential, is passed on to the scheduler and the registry, and may be persisted. After a failed round
  another one is granted as long as some credential may still serve the request.

  \<^bold>\<open>Theories, and the code they model.\<close>
  \<^item> \<open>Go_Prelude\<close>: what the model uses of Go and its standard library (byte strings, time, association lists for maps that
    are iterated over), the lemma collections \<open>go_map\<close> and others, and the locale \<open>machine\<close>: an invariant of all
    reachable states of an object with operations.
  \<^item> \<open>Cred_Weight\<close>: \<open>internal/credentialweight/weight.go\<close>.
  \<^item> \<open>Thinking_Types\<close>, \<open>Thinking_Suffix\<close>, \<open>Thinking_Validate\<close>: \<open>internal/thinking\<close>, the suffix grammar, the conversions
    between levels and budgets, and \<open>ValidateConfig\<close> phase by phase.
  \<^item> \<open>Auth_Types\<close>, \<open>Availability\<close>: the credential record of \<open>types.go\<close> with its accessors, and when a credential is
    blocked for a model (\<open>selector.go\<close>).
  \<^item> \<open>Smooth_WRR\<close>, \<open>Selectors\<close>: the built-in selectors of \<open>selector.go\<close>. The locale \<open>smooth_picker\<close> is the contract of
    one weighted pick, from which the exact shares of consecutive picks are proved; it is interpreted for the selector and
    for the views of the scheduler. The locale \<open>selector\<close> is the contract of \<open>Pick\<close>, interpreted for each built-in selector.
  \<^item> \<open>Session_Cache\<close>, \<open>Session_Identity\<close>, \<open>Session_Affinity\<close>: \<open>session_cache.go\<close>, the identification of sessions, and the
    selector that keeps a session on its credential over a fallback that meets \<open>selector\<close> (locale \<open>fallback_selector\<close>).
  \<^item> \<open>Ready_View\<close>, \<open>Model_Shard\<close>, \<open>Auth_Scheduler\<close>, \<open>Mixed_Picks\<close>: \<open>scheduler.go\<close> from a view to the picks across
    providers, every operation under the mutex of the scheduler being one step.
  \<^item> \<open>Result_Errors\<close>, \<open>Quota_Signals\<close>, \<open>Cooldown\<close>, \<open>Cooldown_Laws\<close>, \<open>Result_Marks\<close>: what an answer does to its credential
    (\<open>conductor_cooldown.go\<close>, \<open>internal/clienterror\<close>, \<open>quota_signals.go\<close>).
  \<^item> \<open>Model_Registry\<close>, \<open>Registry_Queries\<close>, \<open>Registry_Laws\<close>, \<open>Registry_Cache\<close>: \<open>internal/registry/model_registry.go\<close> with all
    its methods, the counts it keeps and the lists it caches.
  \<^item> \<open>Request_Routing\<close>, \<open>Routing_Laws\<close>: from the name of a model to the providers of a request.
  \<^item> \<open>Cooldown_Records\<close>, \<open>Cooldown_Restart\<close>: the records that carry cooldowns over a restart, and the reset of a credential.
  \<^item> \<open>Credential_Manager\<close>, \<open>Manager_Laws\<close>: the operations of the manager on its map, scheduler, registry and records
    (\<open>conductor_lifecycle.go\<close>, \<open>conductor_cooldown.go\<close>, \<open>conductor_selection.go\<close>), and the states it reaches: \<open>managed\<close> when
    each operation ends before the next begins, and \<open>overlapped\<close> when operations overlap between the change of the map
    and the call of the scheduler and resets may not be saved.
  \<^item> \<open>Model_Alias\<close>, \<open>Alias_Laws\<close>: \<open>oauth_model_alias.go\<close>, \<open>conductor_models.go\<close>, the aliases of the configuration.
  \<^item> \<open>Request_Errors\<close>: the errors an execution ends with and the rules that let the configuration say what they mean
    (\<open>conductor_cooldown.go\<close>, \<open>conductor_request_scoped_errors.go\<close>).
  \<^item> \<open>Request_Retry\<close>, \<open>Credential_Refresh\<close>, \<open>Route_Selection\<close>, \<open>Execution\<close>: the retry rounds and the picks of the
    conductor (\<open>conductor_selection.go\<close>), the preparation and the refresh of a credential (\<open>conductor_refresh.go\<close>),
    and \<open>Execute\<close> with its rounds and the fallback to credits (\<open>conductor_execution.go\<close>, \<open>conductor_home.go\<close>).
    Everything outside the conductor is the record \<open>outside\<close> of functions over a state of the world.
  \<^item> \<open>Execution_Trace\<close>, \<open>Execution_Acts\<close>, \<open>Execution_Laws\<close>: the small steps an execution consists of (\<open>act\<close>, \<open>acts\<close>), each
    function of \<open>Execution\<close> as a sequence of steps, and the theorems about requests. The locale \<open>ending\<close> is the contract of a
    loop with a measure, interpreted for the loop over credentials and for the loop over rounds.

  \<^bold>\<open>What is proved.\<close> The scheduler's state is consistent in every reachable state, it holds what was last registered, and a
  pick returns a credential of the highest priority that may serve the request (websocket credentials before all others
  where the code prefers them), or there is none; the incremental shard
  is a refinement of the stateless selection. Round-robin visits everybody, and weighted picks give each credential exactly
  its weight per cycle. A rate limit blocks its credential for the time the provider asked for, a success unblocks it,
  no result blocks for ever, faults of the request leave it alone; a limited credential is not picked by the manager before
  its time, cooldowns whose retry time is still to come survive a restart, and no others, and a reset lifts them. The
  manager and its scheduler agree but for the credentials with a change the scheduler was not told of yet, was told of out of
  turn, or, after a reset that could not be saved, is not told of at all. The registry's counts are exact, its cached lists are never stale, and a request is routed to
  exactly the suppliers of its model. The compiled alias tables answer as a scan of the aliases does. Sessions stick to
  their credential and their groups stay consistent. A validated thinking configuration is one the model accepts,
  with two exceptions that are stated. And
  for requests as a whole: \<open>Execute\<close> always returns; a round calls every credential in turn and no more of them than
  configured; an answer that blames the request is the last one; rounds are granted, and waits bounded, as configured.

  \<^bold>\<open>Conventions.\<close> Go's integers are \<open>int\<close> with their range and wrap-around written out where the code can reach it; times and
  durations are nanoseconds. An error is the left of a sum, a nil pointer is \<open>None\<close>, an unordered map is an
  association list with distinct keys or a HOL map, and results that could depend on the order of iteration are shown
  not to where they do not. The clock is an argument: every reading of it that may differ is an argument of its own, and
  only its monotonicity is assumed. A method of the scheduler, the registry or the session cache changes its state in one
  critical section of its mutex and is one step (\<open>GetAvailableModels\<close> and \<open>Get\<close> of the cache look before it and look
  again inside). An operation of the manager is not: it changes the map under the lock of the
  manager and tells the scheduler after releasing it. Its function is the whole of it without interruption, the halves are steps of
  \<open>overlapped\<close>; the theorems about results seen by later picks and about requests are about \<open>managed\<close> states, and an
  execution is modelled as one request at a time. Case is folded in ASCII, counters of results do
  not wrap, and the scheduler works on a copy of the credential where \<open>Register\<close> and \<open>Update\<close> hand it the map's own pointer.

  \<^bold>\<open>Loops and bounds.\<close> Loops over data are structural recursion. The two loops of an execution have no bound in the code; they
  are \<open>repeat_step\<close>, a partial function whose value is \<open>None\<close> when the loop does not end, so there is no fuel, and
  \<open>Execute_returns\<close> shows that the value is always \<open>Some\<close>: a round ends because the finite set of credentials that were
  not tried shrinks, and the rounds end because the number of a granted round is below the largest retry limit of a
  credential. The theorems on requests assume that the clock does not go back (\<open>orderly\<close>), that preparing or
  refreshing a credential keeps its ID and puts no retry limit beyond a bound into its metadata (\<open>honest\<close>), and, where
  they speak of the calls, that the world keeps a journal of them (\<open>journals\<close>).

  \<^bold>\<open>Parameters.\<close> Code that is not in the repository is an argument: the JSON libraries, regular expressions, hashes and
  paths, the providers' executors and the plugins behind the record \<open>outside\<close>, the static catalogue of models.

  \<^bold>\<open>Not modelled.\<close> \<open>ExecuteCount\<close> and \<open>ExecuteStream\<close> repeat the loop of \<open>Execute\<close> around other calls of the executor, the
  latter with the bootstrap of a stream. The Home dispatcher (\<open>conductor_home.go\<close>, \<open>internal/home\<close>) decides remotely
  over the network; the branches it takes in the modelled functions are left out. Plugins that schedule, the background
  refresh of tokens with its timers, the capabilities of configured models, logging and usage reports are left
  out of the execution. The provider executors, the translators between protocols and the thinking appliers rewrite
  JSON documents through gjson and sjson, which are not in the repository, and talk HTTP; the server, the management
  interface, the configuration files and their watcher, the token stores, the logins and the terminal interface are input and
  output around the logic modelled here.
\<close>

end
